(* ===== verification/Prelude.thy ===== *)
theory Prelude
  imports Main "HOL-Library.Word" "HOL-Library.AList" "HOL-Library.Monad_Syntax"
    "HOL-Library.Signed_Division"
begin

text \<open>
  What every component of the development shares: the machine integers of the C++ code, the
  standard containers it uses (\<open>std::map\<close>, \<open>std::unordered_map\<close>, \<open>std::set\<close>), small list
  vocabulary for the ends of a list, and the collections of rewrite rules that carry the
  component proofs.

  Undefined behaviour.  A C++ operation that dereferences a pointer is a function into
  \<open>option\<close>: \<open>None\<close> is undefined behaviour (null dereference, use after free, double free),
  and a theorem that such an operation is defined says \<open>f x = Some y\<close>.  The operations are
  composed with the option monad's \<open>do\<close> notation.
\<close>

section \<open>Automation collections\<close>

named_theorems heap_simps \<open>reads and writes of the heap of one order book\<close>
named_theorems container_simps \<open>lookups in the models of the standard containers\<close>
named_theorems book_simps \<open>operations on a side of the book described by its ghost levels\<close>

section \<open>Machine integers\<close>

unbundle bit_operations_syntax

type_synonym u8 = "8 word"
type_synonym u32 = "32 word"
type_synonym u64 = "64 word"

text \<open>
  Signed 64-bit values are integers.  Where the code adds, subtracts, multiplies or negates
  them the result is reduced to 64 bits in two's complement by \<open>i64\<close>, which is what the
  compiled code computes; division and remainder truncate towards zero (\<open>sdiv\<close>, \<open>smod\<close>).
\<close>

type_synonym int64 = int
type_synonym int32 = int

definition i64 :: "int \<Rightarrow> int64" where
  "i64 x = signed_take_bit 63 x"

definition in_i64 :: "int \<Rightarrow> bool" where
  "in_i64 x \<longleftrightarrow> - (2 ^ 63) \<le> x \<and> x < 2 ^ 63"

lemma i64_id [simp]: "in_i64 x \<Longrightarrow> i64 x = x"
  by (simp add: i64_def in_i64_def signed_take_bit_int_eq_self)

lemma in_i64_i64 [simp]: "in_i64 (i64 x)"
  using signed_take_bit_int_greater_eq_minus_exp [of 63 x] signed_take_bit_int_less_exp [of 63 x]
  by (simp add: i64_def in_i64_def)

lemma in_i64_numeral [simp]: "in_i64 0" "in_i64 1" "in_i64 (-1)"
  by (simp_all add: in_i64_def)

text \<open>\<open>static_cast<int64_t>\<close> of a \<open>uint64_t\<close> and back.\<close>

definition i64_of_u64 :: "u64 \<Rightarrow> int64" where
  "i64_of_u64 w = sint w"

definition u64_of_i64 :: "int64 \<Rightarrow> u64" where
  "u64_of_i64 x = word_of_int x"

lemma i64_of_u64_small: "uint w < 2 ^ 63 \<Longrightarrow> i64_of_u64 w = uint w"
  unfolding i64_of_u64_def sint_uint
  by (rule signed_take_bit_int_eq_self) (auto intro: order_trans [OF _ uint_ge_0])

lemma in_i64_of_u64 [simp]: "in_i64 (i64_of_u64 w)"
  using sint_range_size [of w] by (simp add: i64_of_u64_def in_i64_def word_size)

lemma i64_of_u64_of_i64 [simp]: "in_i64 x \<Longrightarrow> i64_of_u64 (u64_of_i64 x) = x"
  by (simp add: i64_of_u64_def u64_of_i64_def sint_sbintrunc' in_i64_def signed_take_bit_int_eq_self)

lemma unat_plus_no_overflow:
  "unat (a :: u64) + unat b < 2 ^ 64 \<Longrightarrow> unat (a + b) = unat a + unat b"
  by (simp add: unat_word_ariths)

lemma unat_minus_le: "(b :: u64) \<le> a \<Longrightarrow> unat (a - b) = unat a - unat b"
  by (rule unat_sub)

section \<open>The ends of a list\<close>

text \<open>The first (last) element of a list, or the given pointer when the list is empty.\<close>

definition first_or :: "'a list \<Rightarrow> 'a option \<Rightarrow> 'a option" where
  "first_or xs d = (case xs of [] \<Rightarrow> d | x # _ \<Rightarrow> Some x)"

definition last_or :: "'a option \<Rightarrow> 'a list \<Rightarrow> 'a option" where
  "last_or d xs = (if xs = [] then d else Some (last xs))"

lemma first_or_simps [simp]:
  "first_or [] d = d" "first_or (x # xs) d = Some x"
  "first_or (xs @ y # ys) d = first_or xs (Some y)"
  by (simp_all add: first_or_def split: list.split)

lemma last_or_simps [simp]:
  "last_or d [] = d" "last_or d (x # xs) = last_or (Some x) xs"
  "last_or d (xs @ y # ys) = last_or (Some y) ys"
  by (simp_all add: last_or_def)

lemma last_or_append: "last_or d (xs @ ys) = last_or (last_or d xs) ys"
  by (simp add: last_or_def)

lemma first_or_append: "first_or (xs @ ys) d = first_or xs (first_or ys d)"
  by (simp add: first_or_def split: list.split)

lemma first_or_None_iff [simp]: "first_or xs None = None \<longleftrightarrow> xs = []"
  by (cases xs) simp_all

lemma last_or_None_iff [simp]: "last_or None xs = None \<longleftrightarrow> xs = []"
  by (simp add: last_or_def)

lemma first_or_SomeD: "first_or xs None = Some x \<Longrightarrow> \<exists>ys. xs = x # ys"
  by (cases xs) simp_all

lemma last_or_SomeD: "last_or None xs = Some x \<Longrightarrow> \<exists>ys. xs = ys @ [x]"
  by (cases xs rule: rev_cases) (simp_all add: last_or_def)

section \<open>Standard containers\<close>

subsection \<open>\<open>std::unordered_map\<close>\<close>

text \<open>
  An association list with distinct keys.  The order of the list stands for the unspecified
  iteration order of the hash map; the code iterates such a map only to sort the result or to
  fill another map.
\<close>

definition um_find :: "('k \<times> 'v) list \<Rightarrow> 'k \<Rightarrow> 'v option" where
  "um_find m k = map_of m k"

text \<open>\<open>m[k] = v\<close> and \<open>insert_or_assign\<close> overwrite, \<open>emplace\<close> keeps an existing entry.\<close>

definition um_assign :: "'k \<Rightarrow> 'v \<Rightarrow> ('k \<times> 'v) list \<Rightarrow> ('k \<times> 'v) list" where
  "um_assign k v m = AList.update k v m"

definition um_emplace :: "'k \<Rightarrow> 'v \<Rightarrow> ('k \<times> 'v) list \<Rightarrow> bool \<times> ('k \<times> 'v) list" where
  "um_emplace k v m = (case map_of m k of Some _ \<Rightarrow> (False, m) | None \<Rightarrow> (True, AList.update k v m))"

definition um_erase :: "'k \<Rightarrow> ('k \<times> 'v) list \<Rightarrow> ('k \<times> 'v) list" where
  "um_erase k m = AList.delete k m"

definition um_ok :: "('k \<times> 'v) list \<Rightarrow> bool" where
  "um_ok m \<longleftrightarrow> distinct (map fst m)"

lemma um_find_empty [container_simps]: "um_find [] k = None"
  by (simp add: um_find_def)

lemma um_find_assign [container_simps]:
  "um_find (um_assign k v m) k' = (if k' = k then Some v else um_find m k')"
  by (simp add: um_find_def um_assign_def update_conv')

lemma um_find_erase [container_simps]:
  "um_find (um_erase k m) k' = (if k' = k then None else um_find m k')"
  by (simp add: um_find_def um_erase_def delete_conv')

lemma um_find_emplace [container_simps]:
  "um_find (snd (um_emplace k v m)) k' =
     (if k' = k \<and> um_find m k = None then Some v else um_find m k')"
  by (simp add: um_find_def um_emplace_def update_conv' split: option.split)

lemma um_emplace_fst [container_simps]: "fst (um_emplace k v m) \<longleftrightarrow> um_find m k = None"
  by (simp add: um_find_def um_emplace_def split: option.split)

lemma um_ok_simps [container_simps]:
  "um_ok []"
  "um_ok m \<Longrightarrow> um_ok (um_assign k v m)"
  "um_ok m \<Longrightarrow> um_ok (um_erase k m)"
  "um_ok m \<Longrightarrow> um_ok (snd (um_emplace k v m))"
  by (simp_all add: um_ok_def um_assign_def um_erase_def um_emplace_def distinct_update
      distinct_delete split: option.split)

lemma um_ok_find_iff: "um_ok m \<Longrightarrow> um_find m k = Some v \<longleftrightarrow> (k, v) \<in> set m"
  by (simp add: um_ok_def um_find_def)

lemma um_find_None_iff: "um_find m k = None \<longleftrightarrow> k \<notin> fst ` set m"
  by (simp add: um_find_def map_of_eq_None_iff)

subsection \<open>\<open>std::map\<close>\<close>

text \<open>
  An association list kept in strictly increasing key order, which is the iteration order of
  the container.  \<open>sm_assign\<close> is \<open>m[k] = v\<close>, \<open>sm_erase\<close> is \<open>erase\<close>.
\<close>

definition sm_find :: "('k \<times> 'v) list \<Rightarrow> 'k \<Rightarrow> 'v option" where
  "sm_find m k = map_of m k"

fun sm_assign :: "'k :: linorder \<Rightarrow> 'v \<Rightarrow> ('k \<times> 'v) list \<Rightarrow> ('k \<times> 'v) list" where
  "sm_assign k v [] = [(k, v)]"
| "sm_assign k v (e # m) =
     (if fst e < k then e # sm_assign k v m
      else if fst e = k then (k, v) # m
      else (k, v) # e # m)"

definition sm_erase :: "'k \<Rightarrow> ('k \<times> 'v) list \<Rightarrow> ('k \<times> 'v) list" where
  "sm_erase k m = filter (\<lambda>e. fst e \<noteq> k) m"

definition sm_ok :: "('k :: linorder \<times> 'v) list \<Rightarrow> bool" where
  "sm_ok m \<longleftrightarrow> sorted_wrt (<) (map fst m)"

lemma sm_find_empty [container_simps]: "sm_find [] k = None"
  by (simp add: sm_find_def)

lemma sm_find_assign [container_simps]:
  "sm_find (sm_assign k v m) k' = (if k' = k then Some v else sm_find m k')"
  by (induction m) (auto simp: sm_find_def)

lemma sm_find_erase [container_simps]:
  "sm_find (sm_erase k m) k' = (if k' = k then None else sm_find m k')"
  by (induction m) (auto simp: sm_find_def sm_erase_def)

lemma fst_set_sm_assign [simp]: "fst ` set (sm_assign k v m) = insert k (fst ` set m)"
  by (induction m) auto

lemma sm_ok_assign [container_simps]: "sm_ok m \<Longrightarrow> sm_ok (sm_assign k v m)"
proof (induction m)
  case Nil
  then show ?case by (simp add: sm_ok_def)
next
  case (Cons e m)
  then have *: "sm_ok (sm_assign k v m)" "\<forall>x\<in>fst ` set m. fst e < x"
    by (auto simp: sm_ok_def)
  have "\<forall>x\<in>fst ` set (sm_assign k v m). fst e < x" if "fst e < k"
    using * that by simp
  with * Cons.prems show ?case
    by (auto simp: sm_ok_def)
qed

lemma sm_ok_erase [container_simps]: "sm_ok m \<Longrightarrow> sm_ok (sm_erase k m)"
  by (simp add: sm_ok_def sm_erase_def sorted_wrt_map sorted_wrt_filter)

lemma sm_ok_empty [container_simps]: "sm_ok []"
  by (simp add: sm_ok_def)

lemma sm_ok_distinct: "sm_ok m \<Longrightarrow> distinct (map fst m)"
  by (simp add: sm_ok_def strict_sorted_iff)

lemma sm_ok_find_iff: "sm_ok m \<Longrightarrow> sm_find m k = Some v \<longleftrightarrow> (k, v) \<in> set m"
  by (simp add: sm_ok_distinct sm_find_def)

lemma sm_find_None_iff: "sm_find m k = None \<longleftrightarrow> k \<notin> fst ` set m"
  by (simp add: sm_find_def map_of_eq_None_iff)

subsection \<open>The contract both containers keep\<close>

text \<open>
  What the components ask of a map: lookups after an insertion and a removal, and an invariant
  every operation keeps.  A component that only uses these laws is proved once, inside the
  locale.
\<close>

locale std_map =
  fixes find :: "('k \<times> 'v) list \<Rightarrow> 'k \<Rightarrow> 'v option"
    and assign :: "'k \<Rightarrow> 'v \<Rightarrow> ('k \<times> 'v) list \<Rightarrow> ('k \<times> 'v) list"
    and erase :: "'k \<Rightarrow> ('k \<times> 'v) list \<Rightarrow> ('k \<times> 'v) list"
    and ok :: "('k \<times> 'v) list \<Rightarrow> bool"
  assumes find_nil: "find [] k = None"
    and find_assign: "find (assign k v m) k' = (if k' = k then Some v else find m k')"
    and find_erase: "find (erase k m) k' = (if k' = k then None else find m k')"
    and ok_nil: "ok []"
    and ok_assign: "ok m \<Longrightarrow> ok (assign k v m)"
    and ok_erase: "ok m \<Longrightarrow> ok (erase k m)"
    and find_entry: "ok m \<Longrightarrow> find m k = Some v \<longleftrightarrow> (k, v) \<in> set m"
begin

lemma find_assign_same: "find (assign k v m) k = Some v"
  by (simp add: find_assign)

lemma erase_absent: "find m k = None \<Longrightarrow> find (erase k m) = find m"
  by (auto simp: find_erase fun_eq_iff)

lemma assign_swap:
  "k \<noteq> k' \<Longrightarrow> find (assign k v (assign k' v' m)) = find (assign k' v' (assign k v m))"
  by (auto simp: find_assign fun_eq_iff)

lemma erase_assign: "find m k = None \<Longrightarrow> find (erase k (assign k v m)) = find m"
  by (auto simp: find_assign find_erase fun_eq_iff)

text \<open>A fold of assignments is the last value written under each key.\<close>

lemma find_fold_assign:
  "find (fold (\<lambda>(k, v). assign k v) es m) k' =
     (case map_of (rev es) k' of Some v \<Rightarrow> Some v | None \<Rightarrow> find m k')"
proof (induction es arbitrary: m)
  case Nil
  then show ?case by simp
next
  case (Cons e es)
  then show ?case
    by (cases e) (auto simp: find_assign map_add_def split: option.splits)
qed

lemma ok_fold_assign: "ok m \<Longrightarrow> ok (fold (\<lambda>(k, v). assign k v) es m)"
  by (induction es arbitrary: m) (auto intro: ok_assign)

end

interpretation um: std_map um_find um_assign um_erase um_ok
  by unfold_locales (simp_all add: container_simps um_ok_find_iff)

interpretation sm: std_map sm_find sm_assign sm_erase sm_ok
  by unfold_locales (simp_all add: container_simps sm_ok_find_iff)

section \<open>Sorting by an integer key\<close>

lemma sorted_wrt_distinct_unique:
  assumes "sorted_wrt R xs" "sorted_wrt R ys" "set xs = set ys"
    and "\<And>x y. R x y \<Longrightarrow> \<not> R y x" "\<And>x. \<not> R x x"
  shows "xs = ys"
  using assms(1-3)
proof (induction xs arbitrary: ys)
  case Nil
  then show ?case by simp
next
  case (Cons x xs)
  then obtain y ys' where ys: "ys = y # ys'" by (cases ys) auto
  have xy: "x = y"
  proof (rule ccontr)
    assume ne: "x \<noteq> y"
    have "y \<in> set xs" "x \<in> set ys'"
      using Cons.prems(3) ne ys by auto
    then have "R x y" "R y x"
      using Cons.prems(1,2) ys by auto
    then show False using assms(4) by blast
  qed
  have "x \<notin> set xs" "y \<notin> set ys'"
    using Cons.prems(1,2) ys assms(5) by auto
  then have "set xs = set ys'"
    using Cons.prems(3) ys xy by auto
  then have "xs = ys'"
    using Cons.IH Cons.prems(1,2) ys by simp
  then show ?case using xy ys by simp
qed

end
