(* ===== verification/CoreTypes.thy ===== *)
theory CoreTypes
  imports Prelude
begin

text \<open>
  The data model of the matching core: \<open>src/include/core/Types.hpp\<close>, \<open>FixedPoint.hpp\<close>,
  \<open>SymbolConfig.hpp\<close>, \<open>Command.hpp\<close>, \<open>Event.hpp\<close> and \<open>Order.hpp\<close>.

  A price is its number of ticks, an \<open>int64_t\<close> read as an integer; a quantity is its number
  of lots, a \<open>uint64_t\<close>.  The identifiers keep the widths the headers give them.
\<close>

section \<open>Identifiers and enumerations (\<open>Types.hpp\<close>)\<close>

type_synonym SymbolId = u32
type_synonym UserId = u64
type_synonym OrderId = u64
type_synonym ClientOrderId = u64
type_synonym CommandId = u64
type_synonym TradeId = u64
type_synonym EventId = u64
type_synonym EngineSequence = u64
type_synonym AssetId = u32
type_synonym FeeRate = u32

datatype Side = Buy | Sell

datatype OrderType = Limit | Market

datatype TimeInForce = GTC | IOC | FOK | PO

datatype OrderStatus = Pending | New | PartiallyFilled | Filled | Cancelled | Rejected

datatype RejectReason =
    InvalidSymbol | InvalidPrice | InvalidQuantity | DuplicateCommand | DuplicateOrder
  | OrderNotFound | WouldSelfTrade | MarketClosed | InsufficientBalanceLiquidity

definition opposite_side :: "Side \<Rightarrow> Side" where
  "opposite_side s = (case s of Buy \<Rightarrow> Sell | Sell \<Rightarrow> Buy)"

lemma opposite_side_simps [simp]:
  "opposite_side Buy = Sell" "opposite_side Sell = Buy"
  "opposite_side (opposite_side s) = s" "opposite_side s \<noteq> s"
  by (cases s; simp add: opposite_side_def)+

section \<open>Prices and quantities (\<open>FixedPoint.hpp\<close>)\<close>

type_synonym Price = int64
type_synonym Quantity = u64

definition price_add_ticks :: "Price \<Rightarrow> int64 \<Rightarrow> Price" where
  "price_add_ticks p t = i64 (p + t)"

definition price_subtract_ticks :: "Price \<Rightarrow> int64 \<Rightarrow> Price" where
  "price_subtract_ticks p t = i64 (p - t)"

definition price_minus :: "Price \<Rightarrow> Price \<Rightarrow> int64" where
  "price_minus p q = i64 (p - q)"

definition price_is_valid :: "Price \<Rightarrow> bool" where
  "price_is_valid p \<longleftrightarrow> p > 0"

definition price_max :: Price where
  "price_max = 2 ^ 63 - 1"

definition price_min :: Price where
  "price_min = - (2 ^ 63)"

definition quantity_is_zero :: "Quantity \<Rightarrow> bool" where
  "quantity_is_zero q \<longleftrightarrow> q = 0"

definition quantity_is_valid :: "Quantity \<Rightarrow> bool" where
  "quantity_is_valid q \<longleftrightarrow> q > 0"

definition quantity_min :: "Quantity \<Rightarrow> Quantity \<Rightarrow> Quantity" where
  "quantity_min a b = (if a < b then a else b)"

lemma quantity_min_simps [simp]:
  "quantity_min a b \<le> a" "quantity_min a b \<le> b"
  "quantity_min a b = 0 \<longleftrightarrow> a = 0 \<or> b = 0"
  by (auto simp: quantity_min_def word_gt_0)

lemma unat_quantity_min: "unat (quantity_min a b) = min (unat a) (unat b)"
  by (simp add: quantity_min_def min_def word_less_nat_alt word_le_nat_alt not_less)

section \<open>The configuration of a symbol (\<open>SymbolConfig.hpp\<close>)\<close>

record SymbolConfig =
  sc_symbolId :: SymbolId
  sc_baseAssetId :: AssetId
  sc_quoteAssetId :: AssetId
  sc_tickSize :: Price
  sc_lotSize :: Quantity
  sc_minQuantity :: Quantity
  sc_maxQuantity :: Quantity
  sc_minPrice :: Price
  sc_maxPrice :: Price
  sc_ringCapacityTicks :: u64
  sc_thresholdPercentage :: u64
  sc_initialBaseTick :: int64
  sc_priceScale :: u8
  sc_quantityScale :: u8
  sc_makerFeeRate :: FeeRate
  sc_takerFeeRate :: FeeRate
  sc_tradingEnabled :: bool

text \<open>
  The guards are evaluated from left to right: the remainder is only computed with a positive
  divisor.  \<open>price.ticks() % tick\<close> truncates, as \<open>smod\<close> does.
\<close>

definition validate_symbol_price :: "Price \<Rightarrow> SymbolConfig \<Rightarrow> bool" where
  "validate_symbol_price p c \<longleftrightarrow>
     price_is_valid p \<and> sc_tickSize c > 0 \<and> p \<ge> sc_minPrice c \<and> p \<le> sc_maxPrice c \<and>
     p smod sc_tickSize c = 0"

definition validate_symbol_quantity :: "Quantity \<Rightarrow> SymbolConfig \<Rightarrow> bool" where
  "validate_symbol_quantity q c \<longleftrightarrow>
     quantity_is_valid q \<and> sc_lotSize c > 0 \<and> q \<ge> sc_minQuantity c \<and> q \<le> sc_maxQuantity c \<and>
     q mod sc_lotSize c = 0"

definition price_to_tick :: "Price \<Rightarrow> SymbolConfig \<Rightarrow> int64" where
  "price_to_tick p c = p sdiv sc_tickSize c"

definition quantity_to_lot :: "Quantity \<Rightarrow> SymbolConfig \<Rightarrow> u64" where
  "quantity_to_lot q c = q div sc_lotSize c"

lemma smod_pos: "0 \<le> a \<Longrightarrow> 0 < b \<Longrightarrow> (a :: int) smod b = a mod b"
  by (simp add: signed_modulo_int_def signed_divide_int_def sgn_if minus_div_mult_eq_mod abs_if)

lemma sdiv_pos: "0 \<le> a \<Longrightarrow> 0 < b \<Longrightarrow> (a :: int) sdiv b = a div b"
  by (auto simp: signed_divide_int_def sgn_if abs_if)

lemma validate_symbol_priceD:
  "validate_symbol_price p c \<Longrightarrow> 0 < p \<and> 0 < sc_tickSize c \<and> sc_tickSize c dvd p"
  by (auto simp: validate_symbol_price_def price_is_valid_def smod_pos dvd_eq_mod_eq_0)

section \<open>Commands (\<open>Command.hpp\<close>)\<close>

record PlaceOrderCommand =
  pc_commandId :: CommandId
  pc_clientOrderId :: ClientOrderId
  pc_orderId :: OrderId
  pc_userId :: UserId
  pc_symbolId :: SymbolId
  pc_side :: Side
  pc_orderType :: OrderType
  pc_timeInForce :: TimeInForce
  pc_price :: Price
  pc_quantity :: Quantity
  pc_receivedSequence :: EngineSequence

record CancelOrderCommand =
  cc_commandId :: CommandId
  cc_userId :: UserId
  cc_symbolId :: SymbolId
  cc_orderId :: OrderId
  cc_clientOrderId :: ClientOrderId
  cc_receivedSequence :: EngineSequence

datatype EngineCommandKind = PlaceOrder | CancelOrder

record EngineCommand =
  ec_kind :: EngineCommandKind
  ec_placeOrder :: "PlaceOrderCommand option"
  ec_cancelOrder :: "CancelOrderCommand option"

section \<open>Events (\<open>Event.hpp\<close>)\<close>

text \<open>The arguments of a constructor are the fields of the struct, in its order.\<close>

datatype EngineEvent =
    OrderAccepted EventId EngineSequence OrderId ClientOrderId UserId SymbolId Side Price Quantity
  | OrderRejected EventId EngineSequence CommandId "OrderId option" UserId SymbolId RejectReason
  | TradeExecuted EventId EngineSequence TradeId SymbolId OrderId OrderId Price Quantity
  | OrderPartial EventId EngineSequence OrderId Quantity Quantity
  | OrderFilled EventId EngineSequence OrderId
  | OrderCancelled EventId EngineSequence OrderId Quantity
  | OrderBookDelta EventId EngineSequence SymbolId Side Price Quantity

fun event_id :: "EngineEvent \<Rightarrow> EventId" where
  "event_id (OrderAccepted e s oid coid u sy sd p q) = e"
| "event_id (OrderRejected e s c oid u sy r) = e"
| "event_id (TradeExecuted e s t sy m k p q) = e"
| "event_id (OrderPartial e s oid f r) = e"
| "event_id (OrderFilled e s oid) = e"
| "event_id (OrderCancelled e s oid r) = e"
| "event_id (OrderBookDelta e s sy sd p q) = e"

text \<open>\<open>event_sequence\<close> of \<open>EngineCore.cpp\<close>: the \<open>sequence\<close> field of whichever alternative.\<close>

fun event_sequence :: "EngineEvent \<Rightarrow> EngineSequence" where
  "event_sequence (OrderAccepted e s oid coid u sy sd p q) = s"
| "event_sequence (OrderRejected e s c oid u sy r) = s"
| "event_sequence (TradeExecuted e s t sy m k p q) = s"
| "event_sequence (OrderPartial e s oid f r) = s"
| "event_sequence (OrderFilled e s oid) = s"
| "event_sequence (OrderCancelled e s oid r) = s"
| "event_sequence (OrderBookDelta e s sy sd p q) = s"

section \<open>Resting orders (\<open>Order.hpp\<close>)\<close>

text \<open>
  Pointers to orders and to price levels are addresses of the heap of \<open>BookHeap\<close>;
  \<open>nullptr\<close> is \<open>None\<close>.
\<close>

type_synonym order_ptr = nat
type_synonym level_ptr = nat

record Order =
  o_orderId :: OrderId
  o_clientOrderId :: ClientOrderId
  o_userId :: UserId
  o_symbolId :: SymbolId
  o_side :: Side
  o_price :: Price
  o_originalQuantity :: Quantity
  o_remainingQuantity :: Quantity
  o_sequenceAccepted :: EngineSequence
  o_previousOrder :: "order_ptr option"
  o_nextOrder :: "order_ptr option"
  o_priceLevel :: "level_ptr option"

definition is_filled :: "Order \<Rightarrow> bool" where
  "is_filled ord \<longleftrightarrow> quantity_is_zero (o_remainingQuantity ord)"

definition reduce :: "Quantity \<Rightarrow> Order \<Rightarrow> Order" where
  "reduce q ord = ord\<lparr>o_remainingQuantity := o_remainingQuantity ord - q\<rparr>"

definition detach_links :: "Order \<Rightarrow> Order" where
  "detach_links ord = ord\<lparr>o_nextOrder := None, o_previousOrder := None, o_priceLevel := None\<rparr>"

lemma detach_links_simps [simp]:
  "o_orderId (detach_links ord) = o_orderId ord"
  "o_clientOrderId (detach_links ord) = o_clientOrderId ord"
  "o_userId (detach_links ord) = o_userId ord"
  "o_symbolId (detach_links ord) = o_symbolId ord"
  "o_side (detach_links ord) = o_side ord"
  "o_price (detach_links ord) = o_price ord"
  "o_originalQuantity (detach_links ord) = o_originalQuantity ord"
  "o_remainingQuantity (detach_links ord) = o_remainingQuantity ord"
  "o_sequenceAccepted (detach_links ord) = o_sequenceAccepted ord"
  "o_previousOrder (detach_links ord) = None"
  "o_nextOrder (detach_links ord) = None"
  "o_priceLevel (detach_links ord) = None"
  by (simp_all add: detach_links_def)

lemma reduce_simps [simp]:
  "o_orderId (reduce q ord) = o_orderId ord"
  "o_clientOrderId (reduce q ord) = o_clientOrderId ord"
  "o_userId (reduce q ord) = o_userId ord"
  "o_symbolId (reduce q ord) = o_symbolId ord"
  "o_side (reduce q ord) = o_side ord"
  "o_price (reduce q ord) = o_price ord"
  "o_originalQuantity (reduce q ord) = o_originalQuantity ord"
  "o_remainingQuantity (reduce q ord) = o_remainingQuantity ord - q"
  "o_sequenceAccepted (reduce q ord) = o_sequenceAccepted ord"
  "o_previousOrder (reduce q ord) = o_previousOrder ord"
  "o_nextOrder (reduce q ord) = o_nextOrder ord"
  "o_priceLevel (reduce q ord) = o_priceLevel ord"
  by (simp_all add: reduce_def)

end
