(* ===== verification/BookHeap.thy ===== *)
theory BookHeap
  imports CoreTypes
begin

text \<open>
  The heap of one order book.  \<open>Order\<close> objects are created with \<open>new\<close> in
  \<open>OrderBook::process_place\<close> and \<open>restore_order\<close> and destroyed with \<open>delete\<close>;
  \<open>PriceLevel\<close> objects are owned by the \<open>unique_ptr\<close>s of the two price maps.  Both are
  mutated through raw pointers, so they live in a store of addressed cells.  An access to an
  address that holds no object is undefined behaviour, the value \<open>None\<close>.
\<close>

section \<open>A store of addressed cells\<close>

record 'a cells =
  st_cells :: "(nat \<times> 'a) list"
  st_next :: nat

definition st_empty :: "'a cells" where
  "st_empty = \<lparr>st_cells = [], st_next = 0\<rparr>"

definition st_read :: "'a cells \<Rightarrow> nat \<Rightarrow> 'a option" where
  "st_read s p = map_of (st_cells s) p"

definition st_write :: "nat \<Rightarrow> 'a \<Rightarrow> 'a cells \<Rightarrow> 'a cells" where
  "st_write p v s = s\<lparr>st_cells := AList.update p v (st_cells s)\<rparr>"

text \<open>\<open>new\<close> returns an address no live object has; \<open>delete\<close> needs a live object.\<close>

definition st_new :: "'a \<Rightarrow> 'a cells \<Rightarrow> nat \<times> 'a cells" where
  "st_new v s = (st_next s, \<lparr>st_cells = (st_next s, v) # st_cells s, st_next = Suc (st_next s)\<rparr>)"

definition st_free :: "nat \<Rightarrow> 'a cells \<Rightarrow> 'a cells option" where
  "st_free p s = do { _ \<leftarrow> st_read s p; Some (s\<lparr>st_cells := filter (\<lambda>c. fst c \<noteq> p) (st_cells s)\<rparr>) }"

definition st_ok :: "'a cells \<Rightarrow> bool" where
  "st_ok s \<longleftrightarrow> distinct (map fst (st_cells s)) \<and> (\<forall>p \<in> fst ` set (st_cells s). p < st_next s)"

definition st_size :: "'a cells \<Rightarrow> nat" where
  "st_size s = length (st_cells s)"

lemma st_read_empty [simp]: "st_read st_empty p = None"
  by (simp add: st_read_def st_empty_def)

lemma st_read_write [simp]: "st_read (st_write p v s) = (st_read s)(p \<mapsto> v)"
  by (auto simp: st_read_def st_write_def update_conv' fun_eq_iff)

lemma st_next_write [simp]: "st_next (st_write p v s) = st_next s"
  by (simp add: st_write_def)

lemma st_ok_empty [simp]: "st_ok st_empty"
  by (simp add: st_ok_def st_empty_def)

lemma map_fst_update: "map_of al p \<noteq> None \<Longrightarrow> map fst (AList.update p v al) = map fst al"
  by (induction al) auto

lemma st_ok_write: "st_read s p \<noteq> None \<Longrightarrow> st_ok (st_write p v s) \<longleftrightarrow> st_ok s"
  unfolding st_ok_def st_write_def st_read_def
  by (simp add: map_fst_update del: not_None_eq flip: set_map)

lemma st_read_lt: "st_ok s \<Longrightarrow> st_read s p = Some v \<Longrightarrow> p < st_next s"
  by (force simp: st_ok_def st_read_def dest: map_of_SomeD)

lemma st_read_next: "st_ok s \<Longrightarrow> st_read s (st_next s) = None"
  using st_read_lt by fastforce

lemma st_new_simps [simp]:
  "fst (st_new v s) = st_next s"
  "st_read (snd (st_new v s)) = (st_read s)(st_next s \<mapsto> v)"
  "st_next (snd (st_new v s)) = Suc (st_next s)"
  by (auto simp: st_new_def st_read_def)

lemma st_ok_new [simp]: "st_ok s \<Longrightarrow> st_ok (snd (st_new v s))"
  by (auto simp: st_ok_def st_new_def less_Suc_eq)

lemma map_of_filter_key: "map_of (filter (\<lambda>c. fst c \<noteq> p) al) = (map_of al)(p := None)"
  by (induction al) auto

lemma st_free_Some:
  "st_read s p = Some v \<Longrightarrow> \<exists>s'. st_free p s = Some s' \<and> st_read s' = (st_read s)(p := None)"
  by (auto simp: st_free_def st_read_def map_of_filter_key fun_eq_iff)

lemma st_free_SomeD:
  "st_free p s = Some s' \<Longrightarrow> st_read s p \<noteq> None \<and> st_read s' = (st_read s)(p := None) \<and>
     st_next s' = st_next s"
  by (auto simp: st_free_def st_read_def bind_eq_Some_conv map_of_filter_key fun_eq_iff)

lemma st_ok_free: "st_ok s \<Longrightarrow> st_free p s = Some s' \<Longrightarrow> st_ok s'"
  by (auto simp: st_ok_def st_free_def bind_eq_Some_conv distinct_map_filter) fastforce

lemma st_size_write: "st_read s p \<noteq> None \<Longrightarrow> st_size (st_write p v s) = st_size s"
  unfolding st_size_def st_write_def st_read_def
  using map_fst_update [of "st_cells s" p v] by (metis cells.select_convs(1) cells.surjective
      cells.update_convs(1) length_map)

lemma st_size_free: "st_free p s = Some s' \<Longrightarrow> st_size s' < st_size s"
proof -
  have "length (filter (\<lambda>c. fst c \<noteq> p) al) < length al" if "map_of al p = Some v" for al v
    using that map_of_SomeD [OF that] by (intro length_filter_less) auto
  then show "st_free p s = Some s' \<Longrightarrow> st_size s' < st_size s"
    by (auto simp: st_size_def st_free_def st_read_def bind_eq_Some_conv)
qed

end
