(* ===== verification/PriceLevels.thy ===== *)
theory PriceLevels
  imports BookHeap
begin

text \<open>
  \<open>src/include/core/PriceLevel.hpp\<close> and \<open>src/src/core/PriceLevel.cpp\<close>: the FIFO queue of one
  price, a doubly linked list threaded through the \<open>Order\<close> objects, with its cached total and
  count.  \<open>level_ok\<close> says that a level represents a list of order addresses; \<open>push_back\<close> and
  \<open>unlink_order\<close> (the pointer surgery of \<open>SideBook::remove_order\<close>) are shown to append to
  and to delete from that list.
\<close>

section \<open>The code\<close>

record PriceLevel =
  pl_price :: Price
  pl_totalQuantity :: Quantity
  pl_head :: "order_ptr option"
  pl_tail :: "order_ptr option"
  pl_orderCount :: u64

definition make_price_level :: "Price \<Rightarrow> PriceLevel" where
  "make_price_level p = \<lparr>pl_price = p, pl_totalQuantity = 0, pl_head = None, pl_tail = None,
     pl_orderCount = 0\<rparr>"

definition level_empty :: "PriceLevel \<Rightarrow> bool" where
  "level_empty L \<longleftrightarrow> pl_head L = None"

definition level_front :: "PriceLevel \<Rightarrow> order_ptr option" where
  "level_front L = pl_head L"

definition increase_total :: "Quantity \<Rightarrow> PriceLevel \<Rightarrow> PriceLevel" where
  "increase_total q L = L\<lparr>pl_totalQuantity := pl_totalQuantity L + q\<rparr>"

definition decrease_total :: "Quantity \<Rightarrow> PriceLevel \<Rightarrow> PriceLevel" where
  "decrease_total q L =
     (if q \<ge> pl_totalQuantity L then L\<lparr>pl_totalQuantity := 0\<rparr>
      else L\<lparr>pl_totalQuantity := pl_totalQuantity L - q\<rparr>)"

record book_heap =
  bh_orders :: "Order cells"
  bh_levels :: "PriceLevel cells"

definition empty_heap :: book_heap where
  "empty_heap = \<lparr>bh_orders = st_empty, bh_levels = st_empty\<rparr>"

definition oread :: "book_heap \<Rightarrow> order_ptr \<Rightarrow> Order option" where
  "oread h p = st_read (bh_orders h) p"

definition lread :: "book_heap \<Rightarrow> level_ptr \<Rightarrow> PriceLevel option" where
  "lread h l = st_read (bh_levels h) l"

definition write_order :: "order_ptr \<Rightarrow> Order \<Rightarrow> book_heap \<Rightarrow> book_heap" where
  "write_order p x h = h\<lparr>bh_orders := st_write p x (bh_orders h)\<rparr>"

definition write_level :: "level_ptr \<Rightarrow> PriceLevel \<Rightarrow> book_heap \<Rightarrow> book_heap" where
  "write_level l y h = h\<lparr>bh_levels := st_write l y (bh_levels h)\<rparr>"

definition upd_order :: "order_ptr \<Rightarrow> (Order \<Rightarrow> Order) \<Rightarrow> book_heap \<Rightarrow> book_heap option" where
  "upd_order p f h = do { x \<leftarrow> oread h p; Some (write_order p (f x) h) }"

definition upd_level :: "level_ptr \<Rightarrow> (PriceLevel \<Rightarrow> PriceLevel) \<Rightarrow> book_heap \<Rightarrow> book_heap option"
  where
  "upd_level l f h = do { y \<leftarrow> lread h l; Some (write_level l (f y) h) }"

definition new_order :: "Order \<Rightarrow> book_heap \<Rightarrow> order_ptr \<times> book_heap" where
  "new_order ord h = (let (p, os) = st_new ord (bh_orders h) in (p, h\<lparr>bh_orders := os\<rparr>))"

definition new_level :: "Price \<Rightarrow> book_heap \<Rightarrow> level_ptr \<times> book_heap" where
  "new_level pr h =
     (let (l, ls) = st_new (make_price_level pr) (bh_levels h) in (l, h\<lparr>bh_levels := ls\<rparr>))"

definition delete_order :: "order_ptr \<Rightarrow> book_heap \<Rightarrow> book_heap option" where
  "delete_order p h = do { os \<leftarrow> st_free p (bh_orders h); Some (h\<lparr>bh_orders := os\<rparr>) }"

definition free_level :: "level_ptr \<Rightarrow> book_heap \<Rightarrow> book_heap option" where
  "free_level l h = do { ls \<leftarrow> st_free l (bh_levels h); Some (h\<lparr>bh_levels := ls\<rparr>) }"

text \<open>\<open>PriceLevel::push_back\<close>.\<close>

definition push_back :: "level_ptr \<Rightarrow> order_ptr option \<Rightarrow> book_heap \<Rightarrow> book_heap option" where
  "push_back l po h = (case po of None \<Rightarrow> Some h | Some p \<Rightarrow> do {
     L \<leftarrow> lread h l;
     h1 \<leftarrow> upd_order p (\<lambda>x. x\<lparr>o_nextOrder := None, o_previousOrder := pl_tail L,
                              o_priceLevel := Some l\<rparr>) h;
     h2 \<leftarrow> (case pl_tail L of
              Some t \<Rightarrow> upd_order t (\<lambda>x. x\<lparr>o_nextOrder := Some p\<rparr>) h1
            | None \<Rightarrow> upd_level l (\<lambda>y. y\<lparr>pl_head := Some p\<rparr>) h1);
     h3 \<leftarrow> upd_level l (\<lambda>y. y\<lparr>pl_tail := Some p, pl_orderCount := pl_orderCount y + 1\<rparr>) h2;
     ord \<leftarrow> oread h3 p;
     upd_level l (increase_total (o_remainingQuantity ord)) h3 })"

text \<open>
  The pointer surgery in the middle of \<open>SideBook::remove_order\<close> (\<open>SideBook.cpp\<close>), for an order
  that is on level \<open>l\<close>.
\<close>

definition unlink_order :: "level_ptr \<Rightarrow> order_ptr \<Rightarrow> book_heap \<Rightarrow> book_heap option" where
  "unlink_order l p h = do {
     ord \<leftarrow> oread h p;
     h1 \<leftarrow> (case o_previousOrder ord of
              Some q \<Rightarrow> upd_order q (\<lambda>x. x\<lparr>o_nextOrder := o_nextOrder ord\<rparr>) h
            | None \<Rightarrow> upd_level l (\<lambda>y. y\<lparr>pl_head := o_nextOrder ord\<rparr>) h);
     ord \<leftarrow> oread h1 p;
     h2 \<leftarrow> (case o_nextOrder ord of
              Some q \<Rightarrow> upd_order q (\<lambda>x. x\<lparr>o_previousOrder := o_previousOrder ord\<rparr>) h1
            | None \<Rightarrow> upd_level l (\<lambda>y. y\<lparr>pl_tail := o_previousOrder ord\<rparr>) h1);
     ord \<leftarrow> oread h2 p;
     h3 \<leftarrow> upd_level l (decrease_total (o_remainingQuantity ord)) h2;
     h4 \<leftarrow> upd_level l (\<lambda>y. if pl_orderCount y > 0
                              then y\<lparr>pl_orderCount := pl_orderCount y - 1\<rparr> else y) h3;
     upd_order p detach_links h4 }"

section \<open>Reads after writes\<close>

lemma upd_order_Some [heap_simps]:
  "oread h p = Some x \<Longrightarrow> upd_order p f h = Some (write_order p (f x) h)"
  by (simp add: upd_order_def)

lemma upd_level_Some [heap_simps]:
  "lread h l = Some y \<Longrightarrow> upd_level l f h = Some (write_level l (f y) h)"
  by (simp add: upd_level_def)

lemma read_write [heap_simps]:
  "oread (write_order p x h) = (oread h)(p \<mapsto> x)"
  "oread (write_level l y h) = oread h"
  "lread (write_order p x h) = lread h"
  "lread (write_level l y h) = (lread h)(l \<mapsto> y)"
  by (auto simp: oread_def lread_def write_order_def write_level_def fun_eq_iff)

definition heap_ok :: "book_heap \<Rightarrow> bool" where
  "heap_ok h \<longleftrightarrow> st_ok (bh_orders h) \<and> st_ok (bh_levels h)"

lemma heap_ok_empty [simp]: "heap_ok empty_heap"
  by (simp add: heap_ok_def empty_heap_def)

lemma read_empty_heap [simp]: "oread empty_heap p = None" "lread empty_heap l = None"
  by (simp_all add: oread_def lread_def empty_heap_def)

lemma heap_ok_upd:
  "upd_order p f h = Some h' \<Longrightarrow> heap_ok h' \<longleftrightarrow> heap_ok h"
  "upd_level l g h = Some h' \<Longrightarrow> heap_ok h' \<longleftrightarrow> heap_ok h"
  by (auto simp: heap_ok_def upd_order_def upd_level_def write_order_def write_level_def
      oread_def lread_def bind_eq_Some_conv st_ok_write)

lemma heap_ok_delete_order: "heap_ok h \<Longrightarrow> delete_order p h = Some h' \<Longrightarrow> heap_ok h'"
  by (auto simp: heap_ok_def delete_order_def bind_eq_Some_conv st_ok_free)

lemma heap_ok_free_level: "heap_ok h \<Longrightarrow> free_level p h = Some h' \<Longrightarrow> heap_ok h'"
  by (auto simp: heap_ok_def free_level_def bind_eq_Some_conv st_ok_free)

lemma new_order_props:
  assumes "heap_ok h" "new_order ord h = (p, h')"
  shows "heap_ok h'" "oread h p = None" "oread h' = (oread h)(p \<mapsto> ord)" "lread h' = lread h"
  using assms
  by (auto simp: heap_ok_def new_order_def oread_def lread_def Let_def split_beta fun_eq_iff
      st_read_next)

lemma new_level_props:
  assumes "heap_ok h" "new_level pr h = (l, h')"
  shows "heap_ok h'" "lread h l = None" "lread h' = (lread h)(l \<mapsto> make_price_level pr)"
    "oread h' = oread h"
  using assms
  by (auto simp: heap_ok_def new_level_def oread_def lread_def Let_def split_beta fun_eq_iff
      st_read_next)

lemma delete_order_Some:
  "oread h p = Some x \<Longrightarrow> \<exists>h'. delete_order p h = Some h' \<and> oread h' = (oread h)(p := None) \<and>
     lread h' = lread h"
  using st_free_Some [of "bh_orders h" p x]
  by (auto simp: delete_order_def oread_def lread_def fun_eq_iff)

lemma free_level_Some:
  "lread h l = Some x \<Longrightarrow> \<exists>h'. free_level l h = Some h' \<and> lread h' = (lread h)(l := None) \<and>
     oread h' = oread h"
  using st_free_Some [of "bh_levels h" l x]
  by (auto simp: free_level_def oread_def lread_def fun_eq_iff)

section \<open>The queue of a level\<close>

fun dll :: "(order_ptr \<Rightarrow> Order option) \<Rightarrow> level_ptr \<Rightarrow> order_ptr option \<Rightarrow> order_ptr list \<Rightarrow>
    order_ptr option \<Rightarrow> bool" where
  "dll M l prev [] next \<longleftrightarrow> True"
| "dll M l prev (p # ps) next \<longleftrightarrow>
     (\<exists>x. M p = Some x \<and> o_previousOrder x = prev \<and> o_nextOrder x = first_or ps next \<and>
          o_priceLevel x = Some l) \<and> dll M l (Some p) ps next"

lemma dll_append [simp]:
  "dll M l prev (xs @ ys) next \<longleftrightarrow>
     dll M l prev xs (first_or ys next) \<and> dll M l (last_or prev xs) ys next"
  by (induction xs arbitrary: prev) (auto simp: first_or_append)

lemma dll_cong:
  "(\<And>p. p \<in> set ps \<Longrightarrow> M' p = M p) \<Longrightarrow> dll M' l prev ps next = dll M l prev ps next"
  by (induction ps arbitrary: prev) auto

lemma dll_fresh [simp]: "p \<notin> set ps \<Longrightarrow> dll (M(p := v)) l prev ps next = dll M l prev ps next"
  by (rule dll_cong) auto

lemma dll_live: "dll M l prev ps next \<Longrightarrow> p \<in> set ps \<Longrightarrow> \<exists>x. M p = Some x \<and> o_priceLevel x = Some l"
  by (induction ps arbitrary: prev) auto

text \<open>What an order says apart from its links, and its remaining quantity.\<close>

definition payload :: "(order_ptr \<Rightarrow> Order option) \<Rightarrow> order_ptr \<Rightarrow> Order option" where
  "payload M p = map_option detach_links (M p)"

definition rem :: "(order_ptr \<Rightarrow> Order option) \<Rightarrow> order_ptr \<Rightarrow> nat" where
  "rem M p = (case M p of Some x \<Rightarrow> unat (o_remainingQuantity x) | None \<Rightarrow> 0)"

lemma rem_payload: "payload M' p = payload M p \<Longrightarrow> rem M' p = rem M p"
  by (auto simp: payload_def rem_def split: option.splits)
     (metis detach_links_simps(8))

lemma fun_upd_same_iff [simp]: "f(a := b) = f(a := c) \<longleftrightarrow> b = c"
  by (auto simp: fun_eq_iff)

lemma rem_upd [simp]:
  "M p = Some x \<Longrightarrow> o_remainingQuantity y = o_remainingQuantity x \<Longrightarrow> rem (M(p \<mapsto> y)) = rem M"
  by (auto simp: rem_def fun_eq_iff)

lemma payload_upd [simp]:
  "M p = Some x \<Longrightarrow> detach_links y = detach_links x \<Longrightarrow> payload (M(p \<mapsto> y)) = payload M"
  by (auto simp: payload_def fun_eq_iff)

lemma detach_links_upd [simp]:
  "detach_links (x\<lparr>o_nextOrder := a\<rparr>) = detach_links x"
  "detach_links (x\<lparr>o_previousOrder := a\<rparr>) = detach_links x"
  "detach_links (x\<lparr>o_priceLevel := b\<rparr>) = detach_links x"
  "detach_links (detach_links x) = detach_links x"
  by (simp_all add: detach_links_def)

definition level_ok :: "(order_ptr \<Rightarrow> Order option) \<Rightarrow> level_ptr \<Rightarrow> PriceLevel \<Rightarrow> order_ptr list \<Rightarrow>
    bool" where
  "level_ok M l L ps \<longleftrightarrow>
     pl_head L = first_or ps None \<and> pl_tail L = last_or None ps \<and> distinct ps \<and>
     dll M l None ps None \<and> length ps < 2 ^ 64 \<and> pl_orderCount L = of_nat (length ps) \<and>
     unat (pl_totalQuantity L) = sum_list (map (rem M) ps)"

lemma level_ok_cong:
  assumes "\<And>p. p \<in> set ps \<Longrightarrow> M' p = M p"
  shows "level_ok M' l L ps = level_ok M l L ps"
proof -
  have "dll M' l None ps None = dll M l None ps None"
    by (rule dll_cong) (rule assms)
  moreover have "map (rem M') ps = map (rem M) ps"
    using assms by (simp add: rem_def)
  ultimately show ?thesis by (simp add: level_ok_def del: map_eq_conv)
qed

lemma level_ok_empty [simp]: "level_ok M l (make_price_level pr) []"
  by (simp add: level_ok_def make_price_level_def)

lemma level_ok_is_empty: "level_ok M l L ps \<Longrightarrow> level_empty L \<longleftrightarrow> ps = []"
  by (simp add: level_ok_def level_empty_def)

lemma level_ok_front: "level_ok M l L (p # ps) \<Longrightarrow> level_front L = Some p"
  by (simp add: level_ok_def level_front_def)

lemma push_back_level_ok:
  assumes L: "lread h l = Some L" and ok: "level_ok (oread h) l L ps"
    and p: "oread h p = Some x" "p \<notin> set ps"
    and total: "unat (pl_totalQuantity L) + unat (o_remainingQuantity x) < 2 ^ 64"
    and count: "Suc (length ps) < 2 ^ 64"
  shows "\<exists>h' L'. push_back l (Some p) h = Some h' \<and> lread h' = (lread h)(l \<mapsto> L') \<and>
    pl_price L' = pl_price L \<and> level_ok (oread h') l L' (ps @ [p]) \<and>
    payload (oread h') = payload (oread h) \<and>
    (\<forall>q. q \<notin> set (ps @ [p]) \<longrightarrow> oread h' q = oread h q) \<and>
    pl_totalQuantity L' = pl_totalQuantity L + o_remainingQuantity x"
proof (cases ps rule: rev_cases)
  case Nil
  then show ?thesis
    using assms
    by (simp add: push_back_def heap_simps level_ok_def increase_total_def unat_plus_no_overflow)
       (simp add: rem_def)
next
  case (snoc qs t)
  then obtain y where "oread h t = Some y" "o_nextOrder y = None" "p \<noteq> t"
    using ok p by (auto simp: level_ok_def)
  then show ?thesis
    using assms snoc
    by (simp add: push_back_def heap_simps level_ok_def increase_total_def
        unat_plus_no_overflow) (simp add: rem_def [of _ p] add.assoc)
qed

lemma unat_decrease_total:
  "unat (pl_totalQuantity (decrease_total q L)) = unat (pl_totalQuantity L) - unat q"
  by (auto simp: decrease_total_def word_le_nat_alt unat_sub)

lemma decrease_total_simps [simp]:
  "pl_price (decrease_total q L) = pl_price L" "pl_head (decrease_total q L) = pl_head L"
  "pl_tail (decrease_total q L) = pl_tail L" "pl_orderCount (decrease_total q L) = pl_orderCount L"
  "pl_totalQuantity (decrease_total q (L\<lparr>pl_head := a\<rparr>)) = pl_totalQuantity (decrease_total q L)"
  "pl_totalQuantity (decrease_total q (L\<lparr>pl_tail := a\<rparr>)) = pl_totalQuantity (decrease_total q L)"
  by (simp_all add: decrease_total_def)

lemma word_of_nat_Suc_pos: "Suc n < 2 ^ 64 \<Longrightarrow> (0 :: u64) < 1 + of_nat n"
proof -
  assume "Suc n < 2 ^ 64"
  then have "unat (of_nat (Suc n) :: u64) = Suc n"
    by (simp add: unat_of_nat take_bit_nat_eq_self del: of_nat_Suc)
  then show ?thesis
    by (metis of_nat_Suc unat_0 word_gt_0 Suc_neq_Zero)
qed

lemma unlink_level_ok:
  assumes L: "lread h l = Some L" and ok: "level_ok (oread h) l L (xs @ p # ys)"
    and p: "oread h p = Some x" 
  shows "\<exists>h' L'. unlink_order l p h = Some h' \<and> lread h' = (lread h)(l \<mapsto> L') \<and>
    pl_price L' = pl_price L \<and> level_ok (oread h') l L' (xs @ ys) \<and>
    payload (oread h') = payload (oread h) \<and>
    (\<forall>q. q \<notin> set (xs @ p # ys) \<longrightarrow> oread h' q = oread h q) \<and>
    oread h' p = Some (detach_links x)"
proof -
  have tot: "unat (pl_totalQuantity L) - unat (o_remainingQuantity x) =
      sum_list (map (rem (oread h)) xs) + sum_list (map (rem (oread h)) ys)"
    using ok p by (simp add: level_ok_def rem_def)
  have cnt: "(0::u64) < 1 + of_nat (length xs + length ys)"
    using ok by (intro word_of_nat_Suc_pos) (simp add: level_ok_def)
  show ?thesis
  proof (cases xs rule: rev_cases)
    case Nil
    note xs = this
    show ?thesis
    proof (cases ys)
      case Nil
      then show ?thesis
        using assms xs tot cnt
        by (simp add: unlink_order_def heap_simps level_ok_def unat_decrease_total)
    next
      case (Cons z zs)
      then obtain y where "oread h z = Some y" "z \<noteq> p"
        using ok by (auto simp: level_ok_def)
      then show ?thesis
        using assms xs tot cnt Cons
        by (simp add: unlink_order_def heap_simps level_ok_def unat_decrease_total)
    qed
  next
    case (snoc ws w)
    note xs = this
    then obtain y where w: "oread h w = Some y" "w \<noteq> p"
      using ok by (auto simp: level_ok_def)
    show ?thesis 
    proof (cases ys)
      case Nil
      then show ?thesis
        using assms xs tot cnt w
        by (simp add: unlink_order_def heap_simps level_ok_def unat_decrease_total)
    next
      case (Cons z zs)
      then obtain v where "oread h z = Some v" "z \<noteq> p"
        using ok by (auto simp: level_ok_def)
      then show ?thesis
        using assms xs tot cnt w Cons
        by (simp add: unlink_order_def heap_simps level_ok_def unat_decrease_total)
    qed
  qed
qed

subsection \<open>Bookkeeping of the heap itself\<close>

definition norders :: "book_heap \<Rightarrow> nat" where
  "norders h = st_size (bh_orders h)"

lemma norders_upd:
  "upd_order p f h = Some h' \<Longrightarrow> norders h' = norders h"
  "upd_level l g h = Some h' \<Longrightarrow> norders h' = norders h"
  "free_level l h = Some h' \<Longrightarrow> norders h' = norders h"
  by (auto simp: norders_def upd_order_def upd_level_def free_level_def write_order_def oread_def
      write_level_def st_size_write bind_eq_Some_conv)

lemma norders_delete: "delete_order p h = Some h' \<Longrightarrow> norders h' < norders h"
  by (auto simp: norders_def delete_order_def bind_eq_Some_conv st_size_free)

text \<open>What an operation that only assigns to fields keeps.\<close>

definition keeps_heap :: "book_heap \<Rightarrow> book_heap \<Rightarrow> bool" where
  "keeps_heap h h' \<longleftrightarrow> heap_ok h' = heap_ok h \<and> norders h' = norders h"

lemma keeps_heap_upd:
  "upd_order p f h = Some h' \<Longrightarrow> keeps_heap h h'"
  "upd_level l g h = Some h' \<Longrightarrow> keeps_heap h h'"
  by (simp_all add: keeps_heap_def norders_upd heap_ok_upd)

lemma keeps_heap_push_back: "push_back l po h = Some h' \<Longrightarrow> keeps_heap h h'"
  by (auto simp: push_back_def bind_eq_Some_conv keeps_heap_def split: option.split_asm
      dest!: keeps_heap_upd)

lemma keeps_heap_unlink: "unlink_order l p h = Some h' \<Longrightarrow> keeps_heap h h'"
  by (auto simp: unlink_order_def bind_eq_Some_conv keeps_heap_def split: option.split_asm
      dest!: keeps_heap_upd)

lemma norders_write [heap_simps]:
  "oread h p = Some y \<Longrightarrow> norders (write_order p x h) = norders h"
  "norders (write_level l w h) = norders h"
  by (simp_all add: norders_def write_order_def write_level_def oread_def st_size_write)

lemma heap_ok_write [heap_simps]:
  "oread h p = Some y \<Longrightarrow> heap_ok (write_order p x h) \<longleftrightarrow> heap_ok h"
  "lread h l = Some z \<Longrightarrow> heap_ok (write_level l w h) \<longleftrightarrow> heap_ok h"
  by (simp_all add: heap_ok_def write_order_def write_level_def oread_def lread_def st_ok_write)

end
