(* ===== verification/LevelContainer.thy ===== *)
theory LevelContainer
  imports PriceLevels
begin

text \<open>
  The contract the side book relies on: a container that owns the price levels of some prices.
  The ring ladder and the far map both keep it (\<open>RingPriceLadder\<close>, \<open>FarPriceMap\<close>), and the
  side book (\<open>SideBook\<close>) uses nothing else of them.
\<close>

section \<open>Price priority\<close>

text \<open>\<open>is_better_price\<close> of \<open>SideBook.cpp\<close>.\<close>

definition is_better_price :: "Side \<Rightarrow> Price \<Rightarrow> Price \<Rightarrow> bool" where
  "is_better_price side candidate current =
     (if side = Buy then candidate > current else candidate < current)"

lemma is_better_price_irrefl [simp]: "\<not> is_better_price side p p"
  by (simp add: is_better_price_def)

lemma is_better_price_asym: "is_better_price side p q \<Longrightarrow> \<not> is_better_price side q p"
  by (auto simp: is_better_price_def)

lemma is_better_price_trans:
  "is_better_price side p q \<Longrightarrow> is_better_price side q r \<Longrightarrow> is_better_price side p r"
  by (auto simp: is_better_price_def split: if_splits)

lemma is_better_price_linear: "is_better_price side p q \<or> p = q \<or> is_better_price side q p"
  by (auto simp: is_better_price_def)

text \<open>Levels sorted by priority, best first: the price of each and its address.\<close>

definition best_first :: "Side \<Rightarrow> (Price \<times> 'a) list \<Rightarrow> bool" where
  "best_first side es \<longleftrightarrow> sorted_wrt (\<lambda>a b. is_better_price side (fst a) (fst b)) es"

lemma best_first_simps [simp]:
  "best_first side []"
  "best_first side (e # es) \<longleftrightarrow> (\<forall>x \<in> set es. is_better_price side (fst e) (fst x)) \<and> best_first side es"
  by (simp_all add: best_first_def)

lemma best_first_append:
  "best_first side (xs @ ys) \<longleftrightarrow> best_first side xs \<and> best_first side ys \<and>
     (\<forall>x \<in> set xs. \<forall>y \<in> set ys. is_better_price side (fst x) (fst y))"
  by (auto simp: best_first_def sorted_wrt_append)

lemma best_first_filter: "best_first side es \<Longrightarrow> best_first side (filter P es)"
  by (simp add: best_first_def sorted_wrt_filter)

lemma best_first_distinct: "best_first side es \<Longrightarrow> distinct (map fst es)"
  by (induction es) auto

text \<open>\<open>r\<close> is the level of the best price that has one, \<open>None\<close> when no price has one.\<close>

definition is_best :: "Side \<Rightarrow> (Price \<Rightarrow> bool) \<Rightarrow> (Price \<Rightarrow> level_ptr option) \<Rightarrow> level_ptr option \<Rightarrow>
    bool" where
  "is_best side covers lookup r \<longleftrightarrow> (case r of
     None \<Rightarrow> \<forall>q. covers q \<longrightarrow> lookup q = None
   | Some l \<Rightarrow> \<exists>p. covers p \<and> lookup p = Some l \<and>
       (\<forall>q. covers q \<longrightarrow> lookup q \<noteq> None \<longrightarrow> q = p \<or> is_better_price side p q))"

lemma is_best_Some:
  "is_best side C f (Some l) \<longleftrightarrow> (\<exists>p. C p \<and> f p = Some l \<and>
     (\<forall>q. C q \<longrightarrow> f q \<noteq> None \<longrightarrow> q = p \<or> is_better_price side p q))"
  by (simp add: is_best_def)

lemma is_best_None: "is_best side C f None \<longleftrightarrow> (\<forall>q. C q \<longrightarrow> f q = None)"
  by (simp add: is_best_def)

lemma is_best_unique:
  assumes r: "is_best side C f r" and r': "is_best side C f r'"
  shows "r = r'"
proof (cases r)
  case None
  then have "\<forall>q. C q \<longrightarrow> f q = None" using r by (simp add: is_best_None)
  then show ?thesis using r' None by (cases r') (auto simp: is_best_Some)
next
  case (Some l)
  then obtain p where p: "C p" "f p = Some l"
    "\<And>q. C q \<Longrightarrow> f q \<noteq> None \<Longrightarrow> q = p \<or> is_better_price side p q"
    using r by (auto simp: is_best_Some)
  show ?thesis
  proof (cases r')
    case None
    then show ?thesis using r' p(1,2) by (simp add: is_best_None)
  next
    case (Some l')
    then obtain p' where p': "C p'" "f p' = Some l'"
      "\<And>q. C q \<Longrightarrow> f q \<noteq> None \<Longrightarrow> q = p' \<or> is_better_price side p' q"
      using r' by (auto simp: is_best_Some)
    have "p = p'"
      using p(3) [OF p'(1)] p'(3) [OF p(1)] p(2) p'(2) is_better_price_asym [of side p p'] by auto
    then show ?thesis using p(2) p'(2) \<open>r = Some l\<close> Some by simp
  qed
qed

section \<open>The contract\<close>

locale level_container =
  fixes config :: "'s \<Rightarrow> 'c"
    and side :: "'s \<Rightarrow> Side"
    and inv :: "'s \<Rightarrow> bool"
    and covers :: "'s \<Rightarrow> Price \<Rightarrow> bool"
    and lookup :: "'s \<Rightarrow> Price \<Rightarrow> level_ptr option"
    and get_or_create :: "Price \<Rightarrow> book_heap \<Rightarrow> 's \<Rightarrow> level_ptr option \<times> book_heap \<times> 's"
    and remove_if_empty :: "Price \<Rightarrow> book_heap \<Rightarrow> 's \<Rightarrow> (book_heap \<times> 's) option"
    and best :: "book_heap \<Rightarrow> 's \<Rightarrow> ('s \<times> level_ptr option) option"
  assumes same_config: "config s' = config s \<Longrightarrow> side s' = side s \<and> covers s' = covers s"
    and found: "inv s \<Longrightarrow> covers s p \<Longrightarrow> lookup s p = Some l \<Longrightarrow>
      \<exists>s'. get_or_create p h s = (Some l, h, s') \<and> inv s' \<and> config s' = config s \<and> lookup s' = lookup s"
    and created: "inv s \<Longrightarrow> covers s p \<Longrightarrow> lookup s p = None \<Longrightarrow> new_level p h = (l, h') \<Longrightarrow>
      \<exists>s'. get_or_create p h s = (Some l, h', s') \<and> inv s' \<and> config s' = config s \<and>
        (\<forall>q. covers s q \<longrightarrow> lookup s' q = (if q = p then Some l else lookup s q))"
    and removed: "inv s \<Longrightarrow> covers s p \<Longrightarrow> lookup s p = Some l \<Longrightarrow> lread h l = Some L \<Longrightarrow>
      level_empty L \<Longrightarrow> free_level l h = Some h' \<Longrightarrow>
      \<exists>s'. remove_if_empty p h s = Some (h', s') \<and> inv s' \<and> config s' = config s \<and>
        (\<forall>q. covers s q \<longrightarrow> lookup s' q = (if q = p then None else lookup s q))"
    and best_level: "inv s \<Longrightarrow>
      (\<And>q k. covers s q \<Longrightarrow> lookup s q = Some k \<Longrightarrow>
         \<exists>L. lread h k = Some L \<and> \<not> level_empty L \<and> pl_price L = q) \<Longrightarrow>
      \<exists>r. best h s = Some (s, r) \<and> is_best (side s) (covers s) (lookup s) r"
begin

text \<open>When \<open>es\<close> lists the levels of the container best first, its head is the best level.\<close>

lemma best_is_first:
  assumes "inv s" "best_first (side s) es"
    and lookup: "\<And>p l. covers s p \<Longrightarrow> lookup s p = Some l \<longleftrightarrow> (p, l) \<in> set es"
    and es: "\<And>p l. (p, l) \<in> set es \<Longrightarrow>
      covers s p \<and> (\<exists>L. lread h l = Some L \<and> \<not> level_empty L \<and> pl_price L = p)"
  shows "best h s = Some (s, first_or (map snd es) None)"
proof -
  obtain r where r: "best h s = Some (s, r)" "is_best (side s) (covers s) (lookup s) r"
    using best_level [OF assms(1), of h] lookup es by blast
  moreover have "is_best (side s) (covers s) (lookup s) (first_or (map snd es) None)"
  proof (cases es)
    case Nil
    then show ?thesis using lookup by (auto simp: is_best_None) (metis not_Some_eq)
  next
    case (Cons e es')
    obtain p l where e: "e = (p, l)" by (cases e)
    have "q = p \<or> is_better_price (side s) p q" if q: "covers s q" "lookup s q \<noteq> None" for q
    proof -
      obtain k where "(q, k) \<in> set es" using lookup [OF q(1)] q(2) by auto
      then show ?thesis using assms(2) Cons e by auto
    qed
    then show ?thesis
      using Cons e es [of p l] lookup [of p l] by (auto simp: is_best_Some)
  qed
  ultimately show ?thesis using is_best_unique by blast
qed

lemma get_or_create_cases:
  assumes "inv s" "covers s p" "heap_ok h"
  obtains (old) l s' where "lookup s p = Some l" "get_or_create p h s = (Some l, h, s')" "inv s'"
      "config s' = config s" "lookup s' = lookup s"
    | (new) l h' s' where "lookup s p = None" "get_or_create p h s = (Some l, h', s')" "inv s'"
      "config s' = config s"
      "\<forall>q. covers s q \<longrightarrow> lookup s' q = (if q = p then Some l else lookup s q)"
      "heap_ok h'" "lread h l = None" "lread h' = (lread h)(l \<mapsto> make_price_level p)"
      "oread h' = oread h" "norders h' = norders h"
proof (cases "lookup s p")
  case None
  obtain l h' where nl: "new_level p h = (l, h')" by (cases "new_level p h")
  then have "norders h' = norders h"
    by (auto simp: new_level_def norders_def Let_def split: prod.splits)
  then show ?thesis
    using new(1) [OF None] created [OF assms(1,2) None nl] new_level_props [OF assms(3) nl]
    by blast
next
  case (Some l)
  then show ?thesis
    using old found [OF assms(1,2) Some] by blast
qed

end

end
