(* ===== verification/RingPriceLadder.thy ===== *)
theory RingPriceLadder
  imports LevelContainer
begin

text \<open>
  \<open>src/include/core/RingPriceLadder.hpp\<close> and \<open>src/src/core/RingPriceLadder.cpp\<close>: a window of
  price levels around a base tick, one slot per tick, with a bitmap of the occupied slots that
  the search for the best level scans word by word.  \<open>ladder_ok\<close> ties the bitmap to the slots;
  under it the scan is the search for the first (last) occupied slot in ring order.
\<close>

section \<open>The code\<close>

record RingPriceLadder =
  rl_side :: Side
  rl_tickSizeTicks :: int64
  rl_baseTick :: int64
  rl_headIndex :: nat
  rl_capacity :: nat
  rl_slots :: "level_ptr option list"
  rl_activeSlotBitmap :: "u64 list"

definition bitmap_word_count :: "nat \<Rightarrow> nat" where
  "bitmap_word_count capacity = (capacity + 64 - 1) div 64"

definition price_to_ladder_tick :: "Price \<Rightarrow> int64 \<Rightarrow> int64" where
  "price_to_ladder_tick p tick = (if tick \<le> 0 then p else p sdiv tick)"

definition make_ladder :: "Side \<Rightarrow> int64 \<Rightarrow> int64 \<Rightarrow> nat \<Rightarrow> RingPriceLadder" where
  "make_ladder side tick base capacity =
     \<lparr>rl_side = side, rl_tickSizeTicks = tick, rl_baseTick = base, rl_headIndex = 0,
      rl_capacity = capacity, rl_slots = replicate capacity None,
      rl_activeSlotBitmap = replicate (bitmap_word_count capacity) 0\<rparr>"

definition contains_tick :: "RingPriceLadder \<Rightarrow> int64 \<Rightarrow> bool" where
  "contains_tick ld t \<longleftrightarrow>
     rl_capacity ld \<noteq> 0 \<and> \<not> t < rl_baseTick ld \<and> nat (t - rl_baseTick ld) < rl_capacity ld"

definition price_tick_to_slot :: "RingPriceLadder \<Rightarrow> int64 \<Rightarrow> nat" where
  "price_tick_to_slot ld t = (rl_headIndex ld + nat (t - rl_baseTick ld)) mod rl_capacity ld"

definition mark_active :: "nat \<Rightarrow> RingPriceLadder \<Rightarrow> RingPriceLadder" where
  "mark_active i ld =
     (if i \<ge> rl_capacity ld then ld
      else ld\<lparr>rl_activeSlotBitmap := (rl_activeSlotBitmap ld)
                [i div 64 := rl_activeSlotBitmap ld ! (i div 64) OR push_bit (i mod 64) 1]\<rparr>)"

definition mark_inactive :: "nat \<Rightarrow> RingPriceLadder \<Rightarrow> RingPriceLadder" where
  "mark_inactive i ld =
     (if i \<ge> rl_capacity ld then ld
      else ld\<lparr>rl_activeSlotBitmap := (rl_activeSlotBitmap ld)
                [i div 64 := rl_activeSlotBitmap ld ! (i div 64) AND NOT (push_bit (i mod 64) 1)]\<rparr>)"

text \<open>\<open>std::countr_zero\<close> and \<open>std::countl_zero\<close> of a 64-bit word.\<close>

definition countr_zero :: "u64 \<Rightarrow> nat" where
  "countr_zero w = length (takeWhile (\<lambda>i. \<not> bit w i) [0..<64])"

definition countl_zero :: "u64 \<Rightarrow> nat" where
  "countl_zero w = length (takeWhile (\<lambda>i. \<not> bit w (63 - i)) [0..<64])"

definition bits_through :: "nat \<Rightarrow> u64" where
  "bits_through k = (if k = 64 - 1 then NOT 0 else push_bit (k + 1) 1 - 1)"

text \<open>The masks the two scans put on the word \<open>w\<close> of the bitmap.\<close>

definition word_bits :: "RingPriceLadder \<Rightarrow> nat \<Rightarrow> nat \<Rightarrow> nat \<Rightarrow> u64" where
  "word_bits ld firstSlot lastSlot w =
     (let bits = rl_activeSlotBitmap ld ! w;
          bits = (if w = firstSlot div 64 then bits AND push_bit (firstSlot mod 64) (NOT 0) else bits)
      in if w = lastSlot div 64 then bits AND bits_through (lastSlot mod 64) else bits)"

lemma takeWhile_upt:
  assumes "k < n" "\<not> P k"
  shows "length (takeWhile P [0..<n]) < n" "\<not> P (length (takeWhile P [0..<n]))"
    "j < length (takeWhile P [0..<n]) \<Longrightarrow> P j"
proof -
  let ?t = "takeWhile P [0..<n]"
  have "?t \<noteq> [0..<n]"
    using assms by (metis atLeastLessThan_iff set_takeWhileD set_upt zero_le)
  moreover have "?t @ dropWhile P [0..<n] = [0..<n]" by simp
  ultimately show l: "length ?t < n"
    by (metis append_Nil2 diff_zero dropWhile_eq_Nil_conv length_upt not_less
        takeWhile_eq_all_conv length_append le_add1 linorder_neqE_nat append_eq_conv_conj
        take_all_iff)
  show "\<not> P (length ?t)"
    using nth_length_takeWhile [of P "[0..<n]"] l by simp
  show "P j" if "j < length ?t"
    using that takeWhile_nth [of j P "[0..<n]"] l nth_mem [of j ?t] by (auto dest: set_takeWhileD)
qed

lemma word_nonzero_bit: "(w :: u64) \<noteq> 0 \<Longrightarrow> \<exists>k < 64. bit w k"
  using bit_word_eqI [of w 0] by auto

lemma countr_zero_bit:
  assumes "w \<noteq> 0"
  shows "countr_zero w < 64" "bit w (countr_zero w)" "j < countr_zero w \<Longrightarrow> \<not> bit w j"
proof -
  obtain k where "k < 64" "\<not> \<not> bit w k"
    using word_nonzero_bit [OF assms] by auto
  note t = takeWhile_upt [of k 64 "\<lambda>i. \<not> bit w i", OF this]
  show "countr_zero w < 64" "bit w (countr_zero w)" "j < countr_zero w \<Longrightarrow> \<not> bit w j"
    using t by (simp_all add: countr_zero_def)
qed

lemma countl_zero_bit:
  assumes "w \<noteq> 0"
  shows "countl_zero w < 64" "bit w (63 - countl_zero w)"
    "63 - countl_zero w < j \<Longrightarrow> \<not> bit w j"
proof -
  obtain k where k: "k < 64" "bit w k"
    using word_nonzero_bit [OF assms] by auto
  then have "63 - k < 64" "\<not> \<not> bit w (63 - (63 - k))"
    by auto
  note t = takeWhile_upt [of "63 - k" 64 "\<lambda>i. \<not> bit w (63 - i)", OF this]
  show "countl_zero w < 64" "bit w (63 - countl_zero w)"
    using t by (simp_all add: countl_zero_def)
  show "\<not> bit w j" if "63 - countl_zero w < j"
  proof (cases "j < 64")
    case True
    then show ?thesis
      using t(3) [of "63 - j"] that by (simp add: countl_zero_def)
  next
    case False
    then show ?thesis by (auto dest: bit_imp_le_length)
  qed
qed

lemma clear_lowest_less: "(w :: u64) \<noteq> 0 \<Longrightarrow> unat (w AND (w - 1)) < unat w"
proof -
  assume "w \<noteq> 0"
  then have "unat (w - 1) < unat w"
    by (simp add: unat_minus_one unat_gt_0)
  moreover have "unat (w AND (w - 1)) \<le> unat (w - 1)"
    using word_and_le1 [of w "w - 1"] by (simp add: word_le_nat_alt)
  ultimately show ?thesis by simp
qed

lemma clear_highest_less:
  "(w :: u64) \<noteq> 0 \<Longrightarrow> unat (w AND NOT (2 ^ (63 - countl_zero w))) < unat w"
proof -
  assume w: "w \<noteq> 0"
  let ?v = "w AND NOT (2 ^ (63 - countl_zero w))"
  have "bit w (63 - countl_zero w)" "\<not> bit ?v (63 - countl_zero w)"
    using countl_zero_bit [OF w] by (simp_all add: bit_and_iff bit_not_iff bit_exp_iff)
  then have "?v \<noteq> w" by metis
  moreover have "?v \<le> w" by (rule word_and_le2)
  ultimately show ?thesis
    by (metis order_less_le word_less_nat_alt)
qed

text \<open>
  The inner loops: the bits of one word, from the lowest (highest) set bit on.  A set bit whose
  slot is empty is cleared in the ladder's bitmap and the scan goes on.
\<close>

function scan_bits_up :: "RingPriceLadder \<Rightarrow> nat \<Rightarrow> u64 \<Rightarrow> RingPriceLadder \<times> level_ptr option" where
  "scan_bits_up ld w bits =
     (if bits = 0 then (ld, None)
      else let i = w * 64 + countr_zero bits in
        if i < rl_capacity ld then
          (case rl_slots ld ! i of
             Some l \<Rightarrow> (ld, Some l)
           | None \<Rightarrow> scan_bits_up (mark_inactive i ld) w (bits AND (bits - 1)))
        else scan_bits_up ld w (bits AND (bits - 1)))"
  by pat_completeness auto
termination
  by (relation "measure (\<lambda>(ld, w, bits). unat bits)") (auto simp: clear_lowest_less)

declare scan_bits_up.simps [simp del]

function scan_bits_down :: "RingPriceLadder \<Rightarrow> nat \<Rightarrow> u64 \<Rightarrow> RingPriceLadder \<times> level_ptr option" where
  "scan_bits_down ld w bits =
     (if bits = 0 then (ld, None)
      else let off = 63 - countl_zero bits; i = w * 64 + off in
        if i < rl_capacity ld then
          (case rl_slots ld ! i of
             Some l \<Rightarrow> (ld, Some l)
           | None \<Rightarrow> scan_bits_down (mark_inactive i ld) w (bits AND NOT (push_bit off 1)))
        else scan_bits_down ld w (bits AND NOT (push_bit off 1)))"
  by pat_completeness auto
termination
  by (relation "measure (\<lambda>(ld, w, bits). unat bits)") (auto simp: clear_highest_less)

declare scan_bits_down.simps [simp del]

text \<open>The outer loops over the words.\<close>

function scan_words_up :: "RingPriceLadder \<Rightarrow> nat \<Rightarrow> nat \<Rightarrow> nat \<Rightarrow> RingPriceLadder \<times> level_ptr option"
  where
  "scan_words_up ld firstSlot lastSlot w =
     (if w \<le> lastSlot div 64 then
        (case scan_bits_up ld w (word_bits ld firstSlot lastSlot w) of
           (ld', Some l) \<Rightarrow> (ld', Some l)
         | (ld', None) \<Rightarrow> scan_words_up ld' firstSlot lastSlot (w + 1))
      else (ld, None))"
  by pat_completeness auto
termination
  by (relation "measure (\<lambda>(ld, a, b, w). Suc (b div 64) - w)") auto

declare scan_words_up.simps [simp del]

fun scan_words_down :: "RingPriceLadder \<Rightarrow> nat \<Rightarrow> nat \<Rightarrow> nat \<Rightarrow> RingPriceLadder \<times> level_ptr option"
  where
  "scan_words_down ld firstSlot lastSlot w =
     (case scan_bits_down ld w (word_bits ld firstSlot lastSlot w) of
        (ld', Some l) \<Rightarrow> (ld', Some l)
      | (ld', None) \<Rightarrow>
          (if w = firstSlot div 64 then (ld', None)
           else (case w of 0 \<Rightarrow> (ld', None) | Suc w' \<Rightarrow> scan_words_down ld' firstSlot lastSlot w')))"

declare scan_words_down.simps [simp del]

definition first_active_level_in_range ::
    "RingPriceLadder \<Rightarrow> nat \<Rightarrow> nat \<Rightarrow> RingPriceLadder \<times> level_ptr option" where
  "first_active_level_in_range ld firstSlot lastSlot =
     (if firstSlot > lastSlot \<or> rl_activeSlotBitmap ld = [] then (ld, None)
      else scan_words_up ld firstSlot lastSlot (firstSlot div 64))"

definition last_active_level_in_range ::
    "RingPriceLadder \<Rightarrow> nat \<Rightarrow> nat \<Rightarrow> RingPriceLadder \<times> level_ptr option" where
  "last_active_level_in_range ld firstSlot lastSlot =
     (if firstSlot > lastSlot \<or> rl_activeSlotBitmap ld = [] then (ld, None)
      else scan_words_down ld firstSlot lastSlot (lastSlot div 64))"

definition advance_best_after_empty :: "RingPriceLadder \<Rightarrow> RingPriceLadder \<times> level_ptr option" where
  "advance_best_after_empty ld =
     (if rl_capacity ld = 0 then (ld, None)
      else if rl_side ld = Buy then
        (let (ld, r) = (if rl_headIndex ld > 0
                        then last_active_level_in_range ld 0 (rl_headIndex ld - 1) else (ld, None))
         in case r of Some l \<Rightarrow> (ld, Some l)
            | None \<Rightarrow> last_active_level_in_range ld (rl_headIndex ld) (rl_capacity ld - 1))
      else
        (let (ld, r) = first_active_level_in_range ld (rl_headIndex ld) (rl_capacity ld - 1)
         in case r of Some l \<Rightarrow> (ld, Some l)
            | None \<Rightarrow> (if rl_headIndex ld > 0
                        then first_active_level_in_range ld 0 (rl_headIndex ld - 1) else (ld, None))))"

definition ladder_best_level :: "RingPriceLadder \<Rightarrow> RingPriceLadder \<times> level_ptr option" where
  "ladder_best_level ld = advance_best_after_empty ld"

text \<open>The operations on the slots own the \<open>PriceLevel\<close> objects.\<close>

definition ladder_get_level :: "Price \<Rightarrow> RingPriceLadder \<Rightarrow> level_ptr option" where
  "ladder_get_level price ld =
     (if rl_capacity ld = 0 then None
      else let t = price_to_ladder_tick price (rl_tickSizeTicks ld) in
        if \<not> contains_tick ld t then None else rl_slots ld ! price_tick_to_slot ld t)"

definition ladder_get_or_create_level ::
    "Price \<Rightarrow> book_heap \<Rightarrow> RingPriceLadder \<Rightarrow> level_ptr option \<times> book_heap \<times> RingPriceLadder" where
  "ladder_get_or_create_level price h ld =
     (if rl_capacity ld = 0 then (None, h, ld)
      else let t = price_to_ladder_tick price (rl_tickSizeTicks ld) in
        if \<not> contains_tick ld t then (None, h, ld)
        else let i = price_tick_to_slot ld t;
                 (h, ld) = (case rl_slots ld ! i of
                     Some _ \<Rightarrow> (h, ld)
                   | None \<Rightarrow> (let (l, h) = new_level price h
                             in (h, ld\<lparr>rl_slots := (rl_slots ld)[i := Some l]\<rparr>)));
                 ld = mark_active i ld
             in (rl_slots ld ! i, h, ld))"

definition clear_slot :: "nat \<Rightarrow> book_heap \<Rightarrow> RingPriceLadder \<Rightarrow> (book_heap \<times> RingPriceLadder) option"
  where
  "clear_slot i h ld =
     (if i \<ge> rl_capacity ld then Some (h, ld)
      else do {
        h \<leftarrow> (case rl_slots ld ! i of Some l \<Rightarrow> free_level l h | None \<Rightarrow> Some h);
        Some (h, mark_inactive i (ld\<lparr>rl_slots := (rl_slots ld)[i := None]\<rparr>)) })"

definition ladder_remove_level_if_empty ::
    "Price \<Rightarrow> book_heap \<Rightarrow> RingPriceLadder \<Rightarrow> (book_heap \<times> RingPriceLadder) option" where
  "ladder_remove_level_if_empty price h ld =
     (if rl_capacity ld = 0 then Some (h, ld)
      else let t = price_to_ladder_tick price (rl_tickSizeTicks ld) in
        if \<not> contains_tick ld t then Some (h, ld)
        else let i = price_tick_to_slot ld t in
          case rl_slots ld ! i of
            None \<Rightarrow> Some (h, mark_inactive i ld)
          | Some l \<Rightarrow> do {
              L \<leftarrow> lread h l;
              if level_empty L \<or> quantity_is_zero (pl_totalQuantity L) then clear_slot i h ld
              else Some (h, ld) })"


section \<open>What the scan computes\<close>

text \<open>The reference: the first slot that holds a level, among the given slots.\<close>

fun first_some :: "'a option list \<Rightarrow> 'a option" where
  "first_some [] = None"
| "first_some (Some x # xs) = Some x"
| "first_some (None # xs) = first_some xs"

lemma first_some_append:
  "first_some (xs @ ys) = (case first_some xs of Some x \<Rightarrow> Some x | None \<Rightarrow> first_some ys)"
  by (induction xs rule: first_some.induct) auto

lemma first_some_None_iff: "first_some xs = None \<longleftrightarrow> (\<forall>x \<in> set xs. x = None)"
  by (induction xs rule: first_some.induct) auto

lemma first_some_upt:
  assumes "a \<le> i" "i \<le> b" "f i = Some x" "\<And>j. a \<le> j \<Longrightarrow> j < i \<Longrightarrow> f j = None"
  shows "first_some (map f [a..<Suc b]) = Some x"
proof -
  have "[a..<Suc b] = [a..<i] @ i # [Suc i..<Suc b]"
    using assms(1,2) by (metis le_SucI less_Suc_eq_le upt_add_eq_append upt_conv_Cons le_iff_add)
  moreover have "first_some (map f [a..<i]) = None"
    using assms(4) by (auto simp: first_some_None_iff)
  ultimately show ?thesis
    using assms(3) by (simp add: first_some_append)
qed

lemma first_some_upt_rev:
  assumes "a \<le> i" "i \<le> b" "f i = Some x" "\<And>j. i < j \<Longrightarrow> j \<le> b \<Longrightarrow> f j = None"
  shows "first_some (rev (map f [a..<Suc b])) = Some x"
proof -
  have "[a..<Suc b] = [a..<i] @ i # [Suc i..<Suc b]"
    using assms(1,2) by (metis le_SucI less_Suc_eq_le upt_add_eq_append upt_conv_Cons le_iff_add)
  moreover have "first_some (rev (map f [Suc i..<Suc b])) = None"
    using assms(4) by (auto simp: first_some_None_iff)
  ultimately show ?thesis
    using assms(3) by (simp add: first_some_append)
qed

definition bitmap_ok :: "RingPriceLadder \<Rightarrow> bool" where
  "bitmap_ok ld \<longleftrightarrow> (\<forall>i < rl_capacity ld.
     bit (rl_activeSlotBitmap ld ! (i div 64)) (i mod 64) \<longleftrightarrow> rl_slots ld ! i \<noteq> None)"

definition ladder_ok :: "RingPriceLadder \<Rightarrow> bool" where
  "ladder_ok ld \<longleftrightarrow>
     length (rl_slots ld) = rl_capacity ld \<and>
     length (rl_activeSlotBitmap ld) = bitmap_word_count (rl_capacity ld) \<and>
     (rl_headIndex ld = 0 \<or> rl_headIndex ld < rl_capacity ld) \<and> bitmap_ok ld"

lemma bit_bits_through: "k < 64 \<Longrightarrow> bit (bits_through k) n \<longleftrightarrow> n \<le> k \<and> n < 64"
proof (cases "k = 63")
  case False
  assume "k < 64"
  have "bits_through k = mask (Suc k)"
    using False by (simp add: bits_through_def mask_eq_exp_minus_1)
  then show ?thesis
    using False \<open>k < 64\<close> by (auto simp: bit_mask_iff less_Suc_eq_le)
qed (auto simp: bits_through_def dest: bit_imp_le_length)

lemma bit_word_bits:
  assumes "a div 64 \<le> w" "w \<le> b div 64" "k < 64"
  shows "bit (word_bits ld a b w) k \<longleftrightarrow>
    a \<le> w * 64 + k \<and> w * 64 + k \<le> b \<and> bit (rl_activeSlotBitmap ld ! w) k"
proof -
  have bits: "bit (push_bit (a mod 64) (NOT 0 :: u64)) k \<longleftrightarrow> a mod 64 \<le> k"
    using assms(3) by (auto simp: bit_push_bit_iff bit_not_iff bit_mask_iff)
  have bits2: "bit (bits_through (b mod 64)) k \<longleftrightarrow> k \<le> b mod 64"
    using assms(3) by (simp add: bit_bits_through)
  have dm: "a = a div 64 * 64 + a mod 64" "a mod 64 < 64" "b = b div 64 * 64 + b mod 64" "b mod 64 < 64"
    by simp_all
  consider "w = a div 64" "w = b div 64" | "w = a div 64" "w < b div 64" |
    "a div 64 < w" "w = b div 64" | "a div 64 < w" "w < b div 64"
    using assms by linarith
  then show ?thesis
  proof cases
    case 1
    then have "a \<le> w * 64 + k \<longleftrightarrow> a mod 64 \<le> k" "w * 64 + k \<le> b \<longleftrightarrow> k \<le> b mod 64"
      using assms(3) dm by linarith+
    with 1 bits bits2 show ?thesis by (auto simp: word_bits_def bit_and_iff Let_def)
  next
    case 2
    then have "a \<le> w * 64 + k \<longleftrightarrow> a mod 64 \<le> k" "w * 64 + k \<le> b"
      using assms(3) dm by linarith+
    with 2 bits bits2 show ?thesis by (auto simp: word_bits_def bit_and_iff Let_def)
  next
    case 3
    then have "a \<le> w * 64 + k" "w * 64 + k \<le> b \<longleftrightarrow> k \<le> b mod 64"
      using assms(3) dm by linarith+
    with 3 bits bits2 show ?thesis by (auto simp: word_bits_def bit_and_iff Let_def)
  next
    case 4
    then have "a \<le> w * 64 + k" "w * 64 + k \<le> b"
      using assms(3) dm by linarith+
    with 4 bits bits2 show ?thesis by (auto simp: word_bits_def bit_and_iff Let_def)
  qed
qed

lemma slot_split: "(j :: nat) div 64 = w \<Longrightarrow> \<exists>k < 64. j = w * 64 + k"
  by (rule exI [of _ "j mod 64"]) auto

text \<open>Under \<open>bitmap_ok\<close> the bits left in a word are its occupied slots in the range.\<close>

lemma word_bits_slot:
  assumes "bitmap_ok ld" "b < rl_capacity ld" "a div 64 \<le> w" "w \<le> b div 64" "k < 64"
  shows "bit (word_bits ld a b w) k \<longleftrightarrow>
    a \<le> w * 64 + k \<and> w * 64 + k \<le> b \<and> rl_slots ld ! (w * 64 + k) \<noteq> None"
proof -
  have "(w * 64 + k) div 64 = w" "(w * 64 + k) mod 64 = k"
    using assms(5) by auto
  then show ?thesis
    using assms bit_word_bits [OF assms(3-5), of ld] unfolding bitmap_ok_def
    by (metis order_le_less_trans)
qed

lemma word_bits_zero:
  assumes "bitmap_ok ld" "b < rl_capacity ld" "a div 64 \<le> w" "w \<le> b div 64"
    and "word_bits ld a b w = 0" "a \<le> j" "j \<le> b" "j div 64 = w"
  shows "rl_slots ld ! j = None"
  using slot_split [OF assms(8)] word_bits_slot [OF assms(1-4)] assms(5-7) by auto

lemma scan_bits_up_ok:
  assumes "bitmap_ok ld" "b < rl_capacity ld" "a div 64 \<le> w" "w \<le> b div 64"
  shows "word_bits ld a b w = 0 \<Longrightarrow> scan_bits_up ld w (word_bits ld a b w) = (ld, None)"
    and "word_bits ld a b w \<noteq> 0 \<Longrightarrow> \<exists>l i. scan_bits_up ld w (word_bits ld a b w) = (ld, Some l) \<and>
      a \<le> i \<and> i \<le> b \<and> i div 64 = w \<and> rl_slots ld ! i = Some l \<and>
      (\<forall>j. a \<le> j \<and> j < i \<and> j div 64 = w \<longrightarrow> rl_slots ld ! j = None)"
proof -
  let ?bits = "word_bits ld a b w"
  show "?bits = 0 \<Longrightarrow> scan_bits_up ld w ?bits = (ld, None)"
    by (simp add: scan_bits_up.simps)
  assume nz: "?bits \<noteq> 0"
  let ?i = "w * 64 + countr_zero ?bits"
  note z = countr_zero_bit [OF nz]
  have i: "a \<le> ?i" "?i \<le> b" "rl_slots ld ! ?i \<noteq> None" "?i div 64 = w"
    using z word_bits_slot [OF assms z(1)] by auto
  then obtain l where l: "rl_slots ld ! ?i = Some l" by auto
  have "rl_slots ld ! j = None" if j: "a \<le> j" "j < ?i" "j div 64 = w" for j
  proof -
    obtain k where k: "k < 64" "j = w * 64 + k" using slot_split [OF j(3)] by auto
    then have "\<not> bit ?bits k" using j(2) z(3) by simp
    then show ?thesis
      using word_bits_slot [OF assms k(1)] j i(2) k(2) by auto
  qed
  moreover have "scan_bits_up ld w ?bits = (ld, Some l)"
    using nz i l assms(2) by (simp add: scan_bits_up.simps [of ld w] Let_def)
  ultimately show "\<exists>l i. scan_bits_up ld w ?bits = (ld, Some l) \<and>
      a \<le> i \<and> i \<le> b \<and> i div 64 = w \<and> rl_slots ld ! i = Some l \<and>
      (\<forall>j. a \<le> j \<and> j < i \<and> j div 64 = w \<longrightarrow> rl_slots ld ! j = None)"
    using i l by blast
qed

lemma scan_bits_down_ok:
  assumes "bitmap_ok ld" "b < rl_capacity ld" "a div 64 \<le> w" "w \<le> b div 64"
  shows "word_bits ld a b w = 0 \<Longrightarrow> scan_bits_down ld w (word_bits ld a b w) = (ld, None)"
    and "word_bits ld a b w \<noteq> 0 \<Longrightarrow> \<exists>l i. scan_bits_down ld w (word_bits ld a b w) = (ld, Some l) \<and>
      a \<le> i \<and> i \<le> b \<and> i div 64 = w \<and> rl_slots ld ! i = Some l \<and>
      (\<forall>j. i < j \<and> j \<le> b \<and> j div 64 = w \<longrightarrow> rl_slots ld ! j = None)"
proof -
  let ?bits = "word_bits ld a b w"
  show "?bits = 0 \<Longrightarrow> scan_bits_down ld w ?bits = (ld, None)"
    by (simp add: scan_bits_down.simps)
  assume nz: "?bits \<noteq> 0"
  let ?k = "63 - countl_zero ?bits"
  let ?i = "w * 64 + ?k"
  note z = countl_zero_bit [OF nz]
  have k: "?k < 64" by simp
  have i: "a \<le> ?i" "?i \<le> b" "rl_slots ld ! ?i \<noteq> None" "?i div 64 = w"
    using z word_bits_slot [OF assms k] by auto
  then obtain l where l: "rl_slots ld ! ?i = Some l" by auto
  have "rl_slots ld ! j = None" if j: "?i < j" "j \<le> b" "j div 64 = w" for j
  proof -
    obtain k where k: "k < 64" "j = w * 64 + k" using slot_split [OF j(3)] by auto
    then have "\<not> bit ?bits k" using j(1) z(3) by simp
    then show ?thesis
      using word_bits_slot [OF assms k(1)] j i(1) k(2) by auto
  qed
  moreover have "scan_bits_down ld w ?bits = (ld, Some l)"
    using nz i l assms(2) by (simp add: scan_bits_down.simps [of ld w] Let_def)
  ultimately show "\<exists>l i. scan_bits_down ld w ?bits = (ld, Some l) \<and>
      a \<le> i \<and> i \<le> b \<and> i div 64 = w \<and> rl_slots ld ! i = Some l \<and>
      (\<forall>j. i < j \<and> j \<le> b \<and> j div 64 = w \<longrightarrow> rl_slots ld ! j = None)"
    using i l by blast
qed

lemma scan_words_up_ok:
  assumes "bitmap_ok ld" "b < rl_capacity ld" "a div 64 \<le> w"
    and "\<forall>j. a \<le> j \<and> j \<le> b \<and> j div 64 < w \<longrightarrow> rl_slots ld ! j = None"
  shows "scan_words_up ld a b w = (ld, first_some (map ((!) (rl_slots ld)) [a..<Suc b]))"
  using assms
proof (induction "Suc (b div 64) - w" arbitrary: w)
  case 0
  then have "first_some (map ((!) (rl_slots ld)) [a..<Suc b]) = None"
    by (auto simp: first_some_None_iff less_Suc_eq_le div_le_mono dest: le_less_trans [OF div_le_mono])
  with 0 show ?case by (simp add: scan_words_up.simps [of ld a b w])
next
  case (Suc n)
  then have w: "w \<le> b div 64" by simp
  note ok = scan_bits_up_ok [OF Suc.prems(1-3) w]
  show ?case
  proof (cases "word_bits ld a b w = 0")
    case True
    have "scan_words_up ld a b (w + 1) = (ld, first_some (map ((!) (rl_slots ld)) [a..<Suc b]))"
    proof (rule Suc.hyps(1))
      show "n = Suc (b div 64) - (w + 1)" using Suc.hyps(2) by simp
      show "\<forall>j. a \<le> j \<and> j \<le> b \<and> j div 64 < w + 1 \<longrightarrow> rl_slots ld ! j = None"
        using Suc.prems(4) word_bits_zero [OF Suc.prems(1-3) w True]
        by (metis add.commute less_Suc_eq plus_1_eq_Suc)
    qed (use Suc.prems in auto)
    then show ?thesis
      using ok(1) [OF True] w by (simp add: scan_words_up.simps [of ld a b w])
  next
    case False
    from ok(2) [OF False] obtain l i where *:
      "scan_bits_up ld w (word_bits ld a b w) = (ld, Some l)" "a \<le> i" "i \<le> b" "i div 64 = w"
      "rl_slots ld ! i = Some l" "\<forall>j. a \<le> j \<and> j < i \<and> j div 64 = w \<longrightarrow> rl_slots ld ! j = None"
      by blast
    have "rl_slots ld ! j = None" if "a \<le> j" "j < i" for j
    proof (cases "j div 64 = w")
      case False
      then have "j div 64 < w" using that *(4) by (metis div_le_mono less_imp_le_nat nat_less_le)
      then show ?thesis using Suc.prems(4) that *(3) by auto
    qed (use *(6) that in auto)
    then have "first_some (map ((!) (rl_slots ld)) [a..<Suc b]) = Some l"
      using * by (intro first_some_upt) auto
    then show ?thesis
      using *(1) w by (simp add: scan_words_up.simps [of ld a b w])
  qed
qed

lemma scan_words_down_ok:
  assumes "bitmap_ok ld" "b < rl_capacity ld" "a div 64 \<le> w" "w \<le> b div 64"
    and "\<forall>j. a \<le> j \<and> j \<le> b \<and> w < j div 64 \<longrightarrow> rl_slots ld ! j = None"
  shows "scan_words_down ld a b w = (ld, first_some (rev (map ((!) (rl_slots ld)) [a..<Suc b])))"
  using assms
proof (induction w rule: less_induct)
  case (less w)
  note ok = scan_bits_down_ok [OF less.prems(1-4)]
  show ?case
  proof (cases "word_bits ld a b w = 0")
    case True
    note z = word_bits_zero [OF less.prems(1-4) True]
    show ?thesis
    proof (cases "w = a div 64")
      case w: True
      have "rl_slots ld ! j = None" if "a \<le> j" "j \<le> b" for j
        using less.prems(5) z that w by (metis div_le_mono nat_less_le)
      then have "first_some (rev (map ((!) (rl_slots ld)) [a..<Suc b])) = None"
        by (auto simp: first_some_None_iff less_Suc_eq_le)
      then show ?thesis
        using ok(1) [OF True] w
        by (simp add: scan_words_down.simps [of ld a b "a div 64"] del: upt_Suc)
    next
      case False
      then obtain w' where w': "w = Suc w'" using less.prems(3) by (cases w) auto
      have "scan_words_down ld a b w' = (ld, first_some (rev (map ((!) (rl_slots ld)) [a..<Suc b])))"
      proof (rule less.IH)
        show "\<forall>j. a \<le> j \<and> j \<le> b \<and> w' < j div 64 \<longrightarrow> rl_slots ld ! j = None"
          using less.prems(5) z w' by (metis Suc_lessI)
      qed (use less.prems False w' in auto)
      then show ?thesis
        using ok(1) [OF True] w' False
        by (simp add: scan_words_down.simps [of ld a b "Suc w'"] del: upt_Suc)
    qed
  next
    case False
    from ok(2) [OF False] obtain l i where *:
      "scan_bits_down ld w (word_bits ld a b w) = (ld, Some l)" "a \<le> i" "i \<le> b" "i div 64 = w"
      "rl_slots ld ! i = Some l" "\<forall>j. i < j \<and> j \<le> b \<and> j div 64 = w \<longrightarrow> rl_slots ld ! j = None"
      by blast
    have "rl_slots ld ! j = None" if "i < j" "j \<le> b" for j
    proof (cases "j div 64 = w")
      case False
      then have "w < j div 64" using that *(4) by (metis div_le_mono less_imp_le_nat nat_less_le)
      then show ?thesis using less.prems(5) that *(2) by auto
    qed (use *(6) that in auto)
    then have "first_some (rev (map ((!) (rl_slots ld)) [a..<Suc b])) = Some l"
      using * by (intro first_some_upt_rev) auto
    then show ?thesis
      using *(1) by (simp add: scan_words_down.simps [of ld a b w])
  qed
qed

lemma range_scan_ok:
  assumes "ladder_ok ld" "b < rl_capacity ld"
  shows "first_active_level_in_range ld a b = (ld, first_some (map ((!) (rl_slots ld)) [a..<Suc b]))"
    and "last_active_level_in_range ld a b =
      (ld, first_some (rev (map ((!) (rl_slots ld)) [a..<Suc b])))"
proof -
  have ok: "bitmap_ok ld" using assms(1) by (simp add: ladder_ok_def)
  have "rl_activeSlotBitmap ld \<noteq> []"
    using assms by (auto simp: ladder_ok_def bitmap_word_count_def simp flip: length_0_conv)
  moreover have "scan_words_up ld a b (a div 64) =
      (ld, first_some (map ((!) (rl_slots ld)) [a..<Suc b]))"
    by (rule scan_words_up_ok [OF ok assms(2)]) (auto dest: div_le_mono [of a _ 64])
  moreover have "scan_words_down ld a b (b div 64) =
      (ld, first_some (rev (map ((!) (rl_slots ld)) [a..<Suc b])))" if "a \<le> b"
    by (rule scan_words_down_ok [OF ok assms(2)])
      (use that in \<open>auto simp: div_le_mono dest: div_le_mono [of _ b 64]\<close>)
  ultimately show "first_active_level_in_range ld a b =
      (ld, first_some (map ((!) (rl_slots ld)) [a..<Suc b]))"
    "last_active_level_in_range ld a b =
      (ld, first_some (rev (map ((!) (rl_slots ld)) [a..<Suc b])))"
    by (simp_all add: first_active_level_in_range_def last_active_level_in_range_def not_less
        not_le del: upt_Suc)
qed

text \<open>The slots in the order of their ticks: from the head index on, wrapping around.\<close>

definition ring_slots :: "RingPriceLadder \<Rightarrow> level_ptr option list" where
  "ring_slots ld = map ((!) (rl_slots ld)) ([rl_headIndex ld..<rl_capacity ld] @ [0..<rl_headIndex ld])"

definition best_slot_spec :: "RingPriceLadder \<Rightarrow> level_ptr option" where
  "best_slot_spec ld =
     first_some (if rl_side ld = Buy then rev (ring_slots ld) else ring_slots ld)"

lemma ladder_best_level_spec: 
  assumes "ladder_ok ld"
  shows "ladder_best_level ld = (ld, best_slot_spec ld)"
proof (cases "rl_capacity ld = 0")
  case True
  then show ?thesis
    using assms by (simp add: ladder_best_level_def advance_best_after_empty_def best_slot_spec_def
        ring_slots_def ladder_ok_def)
next
  case False
  then have c: "rl_capacity ld - 1 < rl_capacity ld" "Suc (rl_capacity ld - 1) = rl_capacity ld"
    by auto
  note scan = range_scan_ok [OF assms c(1), unfolded c(2)]
  show ?thesis
  proof (cases "rl_headIndex ld = 0")
    case True
    then show ?thesis
      using False scan by (simp add: ladder_best_level_def advance_best_after_empty_def
          best_slot_spec_def ring_slots_def split: option.split)
  next
    case nz: False
    then have d: "rl_headIndex ld - 1 < rl_capacity ld" "Suc (rl_headIndex ld - 1) = rl_headIndex ld"
      using assms by (auto simp: ladder_ok_def)
    show ?thesis
      using False nz scan range_scan_ok [OF assms d(1), unfolded d(2)]
      by (simp add: ladder_best_level_def advance_best_after_empty_def best_slot_spec_def
          ring_slots_def first_some_append split: option.split)
  qed
qed

section \<open>The operations on the slots\<close>

lemma mark_simps [simp]:
  "rl_slots (mark_active i ld) = rl_slots ld" "rl_slots (mark_inactive i ld) = rl_slots ld"
  "rl_capacity (mark_active i ld) = rl_capacity ld" "rl_capacity (mark_inactive i ld) = rl_capacity ld"
  "rl_headIndex (mark_active i ld) = rl_headIndex ld"
  "rl_headIndex (mark_inactive i ld) = rl_headIndex ld"
  "rl_side (mark_active i ld) = rl_side ld" "rl_side (mark_inactive i ld) = rl_side ld"
  "rl_baseTick (mark_active i ld) = rl_baseTick ld" "rl_baseTick (mark_inactive i ld) = rl_baseTick ld"
  "rl_tickSizeTicks (mark_active i ld) = rl_tickSizeTicks ld"
  "rl_tickSizeTicks (mark_inactive i ld) = rl_tickSizeTicks ld"
  by (simp_all add: mark_active_def mark_inactive_def)

lemma div64_less: "i < c \<Longrightarrow> i div 64 < bitmap_word_count c"
  by (simp add: bitmap_word_count_def less_eq_div_iff_mult_less_eq div_less_iff_less_mult)

lemma div_mod_eq_iff: "(i :: nat) div 64 = j div 64 \<Longrightarrow> i mod 64 = j mod 64 \<longleftrightarrow> i = j"
  by (metis div_mult_mod_eq)

text \<open>Writing a slot together with its bit keeps the bitmap exact.\<close>

lemma ladder_ok_set_slot:
  assumes "ladder_ok ld" 
  shows "ladder_ok (mark_active i (ld\<lparr>rl_slots := (rl_slots ld)[i := Some l]\<rparr>))"
    and "ladder_ok (mark_inactive i (ld\<lparr>rl_slots := (rl_slots ld)[i := None]\<rparr>))"
proof -
  have len: "length (rl_slots ld) = rl_capacity ld"
    "length (rl_activeSlotBitmap ld) = bitmap_word_count (rl_capacity ld)"
    and bm: "\<And>j. j < rl_capacity ld \<Longrightarrow>
      bit (rl_activeSlotBitmap ld ! (j div 64)) (j mod 64) \<longleftrightarrow> rl_slots ld ! j \<noteq> None"
    using assms by (auto simp: ladder_ok_def bitmap_ok_def)
  have 1: "bit ((rl_activeSlotBitmap ld)[i div 64 := rl_activeSlotBitmap ld ! (i div 64) OR
      push_bit (i mod 64) 1] ! (j div 64)) (j mod 64) \<longleftrightarrow>
      (rl_slots ld)[i := Some l] ! j \<noteq> None" if "i < rl_capacity ld" "j < rl_capacity ld" for j
    using that len bm [of j] div64_less [OF that(1)] div_mod_eq_iff [of i j]
    by (cases "i div 64 = j div 64"; cases "i = j")
       (auto simp: nth_list_update bit_or_iff bit_exp_iff)
  have 2: "bit ((rl_activeSlotBitmap ld)[i div 64 := rl_activeSlotBitmap ld ! (i div 64) AND
      NOT (push_bit (i mod 64) 1)] ! (j div 64)) (j mod 64) \<longleftrightarrow>
      (rl_slots ld)[i := None] ! j \<noteq> None" if "i < rl_capacity ld" "j < rl_capacity ld" for j
    using that len bm [of j] div64_less [OF that(1)] div_mod_eq_iff [of i j]
    by (cases "i div 64 = j div 64"; cases "i = j")
       (auto simp: nth_list_update bit_and_iff bit_not_iff bit_exp_iff)
  show "ladder_ok (mark_active i (ld\<lparr>rl_slots := (rl_slots ld)[i := Some l]\<rparr>))"
    using assms 1 by (simp add: ladder_ok_def bitmap_ok_def mark_active_def del: push_bit_of_1)
  show "ladder_ok (mark_inactive i (ld\<lparr>rl_slots := (rl_slots ld)[i := None]\<rparr>))"
    using assms 2 by (simp add: ladder_ok_def bitmap_ok_def mark_inactive_def del: push_bit_of_1)
qed

lemma ladder_ok_make [simp]: "ladder_ok (make_ladder side tick base cap)"
  by (auto simp: ladder_ok_def make_ladder_def bitmap_ok_def div64_less)


subsection \<open>Ticks and slots\<close>

text \<open>
  Prices on the tick grid; the configuration's validation lets no other price rest on the book.
\<close>

definition on_tick :: "int64 \<Rightarrow> Price \<Rightarrow> bool" where
  "on_tick tick p \<longleftrightarrow> tick \<le> 0 \<or> tick dvd p"

lemma sdiv_mult: "0 < t \<Longrightarrow> (t * k :: int) sdiv t = k"
  by (simp add: signed_divide_int_def sgn_mult abs_mult mult_sgn_abs)

lemma ladder_tick_mono:
  "on_tick tick p \<Longrightarrow> on_tick tick q \<Longrightarrow>
     price_to_ladder_tick p tick < price_to_ladder_tick q tick \<longleftrightarrow> p < q"
  by (auto simp: on_tick_def price_to_ladder_tick_def sdiv_mult elim!: dvdE)

lemma ladder_tick_eq:
  "on_tick tick p \<Longrightarrow> on_tick tick q \<Longrightarrow>
     price_to_ladder_tick p tick = price_to_ladder_tick q tick \<longleftrightarrow> p = q"
  by (auto simp: on_tick_def price_to_ladder_tick_def sdiv_mult elim!: dvdE)

text \<open>The slot of a price, when the window contains its tick.\<close>

definition ladder_tick :: "RingPriceLadder \<Rightarrow> Price \<Rightarrow> int64" where
  "ladder_tick ld p = price_to_ladder_tick p (rl_tickSizeTicks ld)"

definition in_window :: "RingPriceLadder \<Rightarrow> Price \<Rightarrow> bool" where
  "in_window ld p \<longleftrightarrow> contains_tick ld (ladder_tick ld p)"

definition slot_of :: "RingPriceLadder \<Rightarrow> Price \<Rightarrow> nat" where
  "slot_of ld p = price_tick_to_slot ld (ladder_tick ld p)"

definition offset_of :: "RingPriceLadder \<Rightarrow> Price \<Rightarrow> nat" where
  "offset_of ld p = nat (ladder_tick ld p - rl_baseTick ld)"

definition same_window :: "RingPriceLadder \<Rightarrow> RingPriceLadder \<Rightarrow> bool" where
  "same_window ld ld' \<longleftrightarrow>
     rl_side ld' = rl_side ld \<and> rl_tickSizeTicks ld' = rl_tickSizeTicks ld \<and>
     rl_baseTick ld' = rl_baseTick ld \<and> rl_headIndex ld' = rl_headIndex ld \<and>
     rl_capacity ld' = rl_capacity ld"

definition ladder_config :: "RingPriceLadder \<Rightarrow> Side \<times> int64 \<times> int64 \<times> nat \<times> nat" where
  "ladder_config ld = (rl_side ld, rl_tickSizeTicks ld, rl_baseTick ld, rl_headIndex ld, rl_capacity ld)"

lemma same_window_config: "same_window ld ld' \<longleftrightarrow> ladder_config ld' = ladder_config ld"
  by (auto simp: same_window_def ladder_config_def)

lemma same_window_refl [simp]: "same_window ld ld"
  by (simp add: same_window_def)

lemma same_window_mark [simp]:
  "same_window ld (mark_active i ld') = same_window ld ld'"
  "same_window ld (mark_inactive i ld') = same_window ld ld'"
  "same_window ld (ld\<lparr>rl_slots := s\<rparr>)"
  by (simp_all add: same_window_def)

lemma same_windowD:
  assumes "same_window ld ld'"
  shows "in_window ld' p = in_window ld p" "slot_of ld' p = slot_of ld p"
    "offset_of ld' p = offset_of ld p" "rl_side ld' = rl_side ld"
    "rl_tickSizeTicks ld' = rl_tickSizeTicks ld" "rl_capacity ld' = rl_capacity ld"
    "rl_headIndex ld' = rl_headIndex ld" "rl_baseTick ld' = rl_baseTick ld"
  using assms
  by (simp_all add: same_window_def in_window_def slot_of_def offset_of_def ladder_tick_def
      contains_tick_def price_tick_to_slot_def)

lemma slot_of_less: "in_window ld p \<Longrightarrow> slot_of ld p < rl_capacity ld"
  by (simp add: in_window_def slot_of_def contains_tick_def price_tick_to_slot_def)

lemma offset_of_less: "in_window ld p \<Longrightarrow> offset_of ld p < rl_capacity ld"
  by (simp add: in_window_def offset_of_def contains_tick_def)

lemma slot_of_offset: "slot_of ld p = (rl_headIndex ld + offset_of ld p) mod rl_capacity ld"
  by (simp add: slot_of_def offset_of_def price_tick_to_slot_def)

lemma offset_of_mono:
  assumes "in_window ld p" "in_window ld q"
    "on_tick (rl_tickSizeTicks ld) p" "on_tick (rl_tickSizeTicks ld) q"
  shows "offset_of ld p < offset_of ld q \<longleftrightarrow> p < q" "offset_of ld p = offset_of ld q \<longleftrightarrow> p = q"
  using assms ladder_tick_mono [OF assms(3,4)] ladder_tick_eq [OF assms(3,4)]
  by (auto simp: in_window_def offset_of_def ladder_tick_def contains_tick_def)

lemma ring_slots_length: "ladder_ok ld \<Longrightarrow> length (ring_slots ld) = rl_capacity ld"
  by (auto simp: ring_slots_def ladder_ok_def)

lemma ring_slots_nth:
  assumes "ladder_ok ld" "k < rl_capacity ld"
  shows "ring_slots ld ! k = rl_slots ld ! ((rl_headIndex ld + k) mod rl_capacity ld)"
proof -
  have h: "rl_headIndex ld < rl_capacity ld"
    using assms by (auto simp: ladder_ok_def)
  show ?thesis
  proof (cases "rl_headIndex ld + k < rl_capacity ld")
    case True
    moreover from this have "k < rl_capacity ld - rl_headIndex ld" by linarith
    ultimately show ?thesis
      by (simp add: ring_slots_def nth_append)
  next
    case False
    then have "(rl_headIndex ld + k) mod rl_capacity ld = rl_headIndex ld + k - rl_capacity ld"
      using h assms(2) by (simp add: mod_if)
    then show ?thesis
      using False h assms(2) by (auto simp: ring_slots_def nth_append intro!: arg_cong [of _ _ "(!) _"])
  qed
qed

lemma slot_of_inj:
  assumes "ladder_ok ld" "in_window ld p" "in_window ld q"
    "on_tick (rl_tickSizeTicks ld) p" "on_tick (rl_tickSizeTicks ld) q" "slot_of ld p = slot_of ld q"
  shows "p = q"
proof -
  have h: "rl_headIndex ld < rl_capacity ld"
    using assms(1,2) by (auto simp: ladder_ok_def in_window_def contains_tick_def)
  have "offset_of ld p = offset_of ld q"
    using assms(6) h offset_of_less [OF assms(2)] offset_of_less [OF assms(3)]
    by (auto simp: slot_of_offset mod_if split: if_splits)
  then show ?thesis
    using offset_of_mono(2) [OF assms(2-5)] by simp
qed

lemma first_some_SomeD:
  "first_some xs = Some x \<Longrightarrow> \<exists>i < length xs. xs ! i = Some x \<and> (\<forall>j < i. xs ! j = None)"
proof (induction xs rule: first_some.induct)
  case (2 y ys)
  then show ?case by (intro exI [of _ 0]) auto
next
  case (3 ys)
  then obtain i where "i < length ys" "ys ! i = Some x" "\<forall>j < i. ys ! j = None" by auto
  then show ?case by (intro exI [of _ "Suc i"]) (auto simp: less_Suc_eq_0_disj)
qed simp

lemma first_some_rev_SomeD:
  assumes "first_some (rev xs) = Some x"
  shows "\<exists>i < length xs. xs ! i = Some x \<and> (\<forall>j. i < j \<and> j < length xs \<longrightarrow> xs ! j = None)"
proof -
  obtain i where i: "i < length xs" "rev xs ! i = Some x" "\<forall>j < i. rev xs ! j = None"
    using first_some_SomeD [OF assms] by auto
  have "xs ! j = None" if "length xs - Suc i < j" "j < length xs" for j
    using i(1) i(3) [rule_format, of "length xs - Suc j"] that by (auto simp: rev_nth)
  then show ?thesis
    using i by (intro exI [of _ "length xs - Suc i"]) (auto simp: rev_nth)
qed

subsection \<open>What the operations return\<close>

lemma ladder_get_level_window:
  "ladder_get_level p ld = (if in_window ld p then rl_slots ld ! slot_of ld p else None)"
  by (simp add: ladder_get_level_def in_window_def slot_of_def ladder_tick_def contains_tick_def)

lemma ladder_get_or_create_found:
  assumes "ladder_ok ld" "in_window ld p" "rl_slots ld ! slot_of ld p = Some l"
  shows "\<exists>ld'. ladder_get_or_create_level p h ld = (Some l, h, ld') \<and> ladder_ok ld' \<and>
    same_window ld ld' \<and> rl_slots ld' = rl_slots ld"
proof -
  have "ladder_ok (mark_active (slot_of ld p) ld)"
    using ladder_ok_set_slot(1) [OF assms(1), of "slot_of ld p" l] assms(3)
    by (metis RingPriceLadder.surjective RingPriceLadder.update_convs(6) list_update_id)
  with assms show ?thesis
    by (auto simp: ladder_get_or_create_level_def in_window_def slot_of_def ladder_tick_def
        contains_tick_def Let_def)
qed

lemma ladder_get_or_create_new:
  assumes "ladder_ok ld" "in_window ld p" "rl_slots ld ! slot_of ld p = None"
    and "new_level p h = (l, h')"
  shows "\<exists>ld'. ladder_get_or_create_level p h ld = (Some l, h', ld') \<and> ladder_ok ld' \<and>
    same_window ld ld' \<and> rl_slots ld' = (rl_slots ld)[slot_of ld p := Some l]"
proof -
  have "slot_of ld p < length (rl_slots ld)"
    using assms(1) slot_of_less [OF assms(2)] by (simp add: ladder_ok_def)
  then show ?thesis
    using assms ladder_ok_set_slot(1) [OF assms(1), of "slot_of ld p" l]
    by (auto simp: ladder_get_or_create_level_def in_window_def slot_of_def ladder_tick_def
        contains_tick_def Let_def)
qed

lemma ladder_remove_level:
  assumes "ladder_ok ld" "in_window ld p" "rl_slots ld ! slot_of ld p = Some l"
    and "lread h l = Some L" "level_empty L" "free_level l h = Some h'"
  shows "\<exists>ld'. ladder_remove_level_if_empty p h ld = Some (h', ld') \<and> ladder_ok ld' \<and>
    same_window ld ld' \<and> rl_slots ld' = (rl_slots ld)[slot_of ld p := None]"
  using assms slot_of_less [OF assms(2)] ladder_ok_set_slot(2) [OF assms(1), of "slot_of ld p"]
  by (auto simp: ladder_remove_level_if_empty_def in_window_def slot_of_def ladder_tick_def
      contains_tick_def Let_def clear_slot_def)

section \<open>The contract of the container\<close>

definition ladder_covers :: "RingPriceLadder \<Rightarrow> Price \<Rightarrow> bool" where
  "ladder_covers ld p \<longleftrightarrow> in_window ld p \<and> on_tick (rl_tickSizeTicks ld) p"

definition ladder_lookup :: "RingPriceLadder \<Rightarrow> Price \<Rightarrow> level_ptr option" where
  "ladder_lookup ld p = ladder_get_level p ld"

lemma ladder_covers_cong: "same_window ld ld' \<Longrightarrow> ladder_covers ld' = ladder_covers ld"
  by (simp add: ladder_covers_def same_windowD fun_eq_iff)

text \<open>Every slot is the slot of a price on the tick grid.\<close>

lemma offset_surj:
  assumes "k < rl_capacity ld"
  shows "\<exists>p. ladder_covers ld p \<and> offset_of ld p = k"
proof -
  let ?t = "rl_tickSizeTicks ld" and ?b = "rl_baseTick ld + int k"
  let ?p = "if ?t \<le> 0 then ?b else ?t * ?b"
  have "ladder_tick ld ?p = ?b"
    by (simp add: ladder_tick_def price_to_ladder_tick_def sdiv_mult)
  then show ?thesis
    using assms by (intro exI [of _ ?p])
      (auto simp: ladder_covers_def in_window_def contains_tick_def on_tick_def offset_of_def)
qed

lemma ladder_lookup_offset:
  "ladder_ok ld \<Longrightarrow> ladder_covers ld p \<Longrightarrow> ladder_lookup ld p = ring_slots ld ! offset_of ld p"
  by (simp add: ladder_lookup_def ladder_get_level_window ladder_covers_def ring_slots_nth
      offset_of_less slot_of_offset)

lemma ladder_lookup_cong:
  "same_window ld ld' \<Longrightarrow> rl_slots ld' = rl_slots ld \<Longrightarrow> ladder_lookup ld' = ladder_lookup ld"
  by (simp add: ladder_lookup_def ladder_get_level_window same_windowD fun_eq_iff)

lemma ladder_lookup_upd:
  assumes "ladder_ok ld" "same_window ld ld'" "rl_slots ld' = (rl_slots ld)[slot_of ld p := v]"
    and "ladder_covers ld p" "ladder_covers ld q"
  shows "ladder_lookup ld' q = (if q = p then v else ladder_lookup ld q)"
proof -
  have "slot_of ld p < length (rl_slots ld)" "slot_of ld p = slot_of ld q \<longleftrightarrow> p = q"
    using assms(1,4,5) slot_of_less [of ld p] slot_of_inj [of ld p q]
    by (auto simp: ladder_ok_def ladder_covers_def)
  then show ?thesis
    using assms
    by (auto simp: ladder_lookup_def ladder_get_level_window same_windowD nth_list_update
        ladder_covers_def)
qed

lemma best_slot_spec_is_best:
  assumes ok: "ladder_ok s"
  shows "is_best (rl_side s) (ladder_covers s) (ladder_lookup s) (best_slot_spec s)"
proof -
  let ?xs = "ring_slots s"
  have at: "ladder_lookup s q = ?xs ! offset_of s q" "offset_of s q < length ?xs"
    if "ladder_covers s q" for q
    using that ok by (simp_all add: ladder_lookup_offset ring_slots_length offset_of_less
        ladder_covers_def)
  have mono: "offset_of s p < offset_of s q \<longleftrightarrow> p < q" if "ladder_covers s p" "ladder_covers s q" for p q
    using that offset_of_mono(1) [of s p q] by (auto simp: ladder_covers_def)
  have surj: "\<exists>p. ladder_covers s p \<and> offset_of s p = i" if "i < length ?xs" for i
    using offset_surj that ok by (simp add: ring_slots_length)
  show ?thesis
  proof (cases "best_slot_spec s")
    case None
    then have "\<forall>x \<in> set ?xs. x = None"
      by (auto simp: best_slot_spec_def first_some_None_iff split: if_splits)
    then have "ladder_lookup s q = None" if "ladder_covers s q" for q
      using at [OF that] nth_mem by fastforce
    then show ?thesis using None by (simp add: is_best_None)
  next
    case (Some l)
    show ?thesis
    proof (cases "rl_side s = Buy")
      case True
      then obtain i where i: "i < length ?xs" "?xs ! i = Some l"
        "\<And>j. i < j \<Longrightarrow> j < length ?xs \<Longrightarrow> ?xs ! j = None"
        using Some first_some_rev_SomeD [of ?xs l] by (auto simp: best_slot_spec_def)
      obtain p where p: "ladder_covers s p" "offset_of s p = i" using surj [OF i(1)] by auto
      have "q = p \<or> q < p" if q: "ladder_covers s q" "ladder_lookup s q \<noteq> None" for q
        using at [OF q(1)] q i(3) [of "offset_of s q"] p mono [OF p(1) q(1)] by fastforce
      then show ?thesis
        using True Some i(2) p at [OF p(1)] by (auto simp: is_best_Some is_better_price_def)
    next
      case False
      then obtain i where i: "i < length ?xs" "?xs ! i = Some l"
        "\<And>j. j < i \<Longrightarrow> ?xs ! j = None"
        using Some first_some_SomeD [of ?xs l] by (auto simp: best_slot_spec_def)
      obtain p where p: "ladder_covers s p" "offset_of s p = i" using surj [OF i(1)] by auto
      have "q = p \<or> p < q" if q: "ladder_covers s q" "ladder_lookup s q \<noteq> None" for q
        using at [OF q(1)] q i(3) [of "offset_of s q"] p mono [OF q(1) p(1)] by fastforce
      then show ?thesis
        using False Some i(2) p at [OF p(1)] by (auto simp: is_best_Some is_better_price_def)
    qed
  qed
qed

interpretation ladder: level_container ladder_config rl_side ladder_ok ladder_covers ladder_lookup
  ladder_get_or_create_level ladder_remove_level_if_empty "\<lambda>h ld. Some (ladder_best_level ld)"
proof
  fix s s' :: RingPriceLadder
  show "ladder_config s' = ladder_config s \<Longrightarrow>
      rl_side s' = rl_side s \<and> ladder_covers s' = ladder_covers s"
    by (metis same_window_config ladder_covers_cong same_windowD(4))
next
  fix s :: RingPriceLadder and p :: Price and l :: level_ptr and h :: book_heap
  assume ok: "ladder_ok s"
  show "\<exists>s'. ladder_get_or_create_level p h s = (Some l, h, s') \<and> ladder_ok s' \<and>
      ladder_config s' = ladder_config s \<and> ladder_lookup s' = ladder_lookup s"
    if c: "ladder_covers s p" and "ladder_lookup s p = Some l"
  proof -
    have "in_window s p" "rl_slots s ! slot_of s p = Some l"
      using that by (auto simp: ladder_covers_def ladder_lookup_def ladder_get_level_window)
    from ladder_get_or_create_found [OF ok this] obtain s' where
      s': "ladder_get_or_create_level p h s = (Some l, h, s')" "ladder_ok s'" "same_window s s'"
        "rl_slots s' = rl_slots s"
      by blast
    show ?thesis
      using s'(1,2) s'(3) [unfolded same_window_config] ladder_lookup_cong [OF s'(3,4)] by simp
  qed
  show "\<exists>s'. ladder_get_or_create_level p h s = (Some l, h', s') \<and> ladder_ok s' \<and>
      ladder_config s' = ladder_config s \<and>
      (\<forall>q. ladder_covers s q \<longrightarrow> ladder_lookup s' q = (if q = p then Some l else ladder_lookup s q))"
    if c: "ladder_covers s p" and "ladder_lookup s p = None" and n: "new_level p h = (l, h')" for h'
  proof -
    have "in_window s p" "rl_slots s ! slot_of s p = None"
      using that by (auto simp: ladder_covers_def ladder_lookup_def ladder_get_level_window)
    from ladder_get_or_create_new [OF ok this n] obtain s' where
      s': "ladder_get_or_create_level p h s = (Some l, h', s')" "ladder_ok s'" "same_window s s'"
        "rl_slots s' = (rl_slots s)[slot_of s p := Some l]"
      by blast
    show ?thesis
      using s'(1,2) s'(3) [unfolded same_window_config] ladder_lookup_upd [OF ok s'(3,4) c]
      by simp
  qed
  show "\<exists>s'. ladder_remove_level_if_empty p h s = Some (h', s') \<and> ladder_ok s' \<and>
      ladder_config s' = ladder_config s \<and>
      (\<forall>q. ladder_covers s q \<longrightarrow> ladder_lookup s' q = (if q = p then None else ladder_lookup s q))"
    if c: "ladder_covers s p" and "ladder_lookup s p = Some l"
      and r: "lread h l = Some L" "level_empty L" "free_level l h = Some h'" for L h'
  proof -
    have "in_window s p" "rl_slots s ! slot_of s p = Some l"
      using that by (auto simp: ladder_covers_def ladder_lookup_def ladder_get_level_window)
    from ladder_remove_level [OF ok this r] obtain s' where
      s': "ladder_remove_level_if_empty p h s = Some (h', s')" "ladder_ok s'" "same_window s s'"
        "rl_slots s' = (rl_slots s)[slot_of s p := None]"
      by blast
    show ?thesis
      using s'(1,2) s'(3) [unfolded same_window_config] ladder_lookup_upd [OF ok s'(3,4) c]
      by simp
  qed
  show "\<exists>r. Some (ladder_best_level s) = Some (s, r) \<and>
      is_best (rl_side s) (ladder_covers s) (ladder_lookup s) r"
    using ladder_best_level_spec [OF ok] best_slot_spec_is_best [OF ok] by simp
qed

end
