(* ===== verification/FarPriceMap.thy ===== *)
theory FarPriceMap
  imports LevelContainer
begin

text \<open>
  \<open>src/include/core/FarPriceMap.hpp\<close> and \<open>src/src/core/FarPriceMap.cpp\<close>: the levels whose tick
  lies outside the ladder's window, in a \<open>std::map\<close> ordered by price.
\<close>

section \<open>The code\<close>

record FarPriceMap =
  fm_side :: Side
  fm_levels :: "(Price \<times> level_ptr) list"

definition make_far_price_map :: "Side \<Rightarrow> FarPriceMap" where
  "make_far_price_map s = \<lparr>fm_side = s, fm_levels = []\<rparr>"

definition far_get_or_create_level ::
    "Price \<Rightarrow> book_heap \<Rightarrow> FarPriceMap \<Rightarrow> level_ptr option \<times> book_heap \<times> FarPriceMap" where
  "far_get_or_create_level p h fm =
     (case sm_find (fm_levels fm) p of
        Some l \<Rightarrow> (Some l, h, fm)
      | None \<Rightarrow> (let (l, h) = new_level p h;
                    fm = fm\<lparr>fm_levels := sm_assign p l (fm_levels fm)\<rparr>
                in (sm_find (fm_levels fm) p, h, fm)))"

definition far_remove_level_if_empty ::
    "Price \<Rightarrow> book_heap \<Rightarrow> FarPriceMap \<Rightarrow> (book_heap \<times> FarPriceMap) option" where
  "far_remove_level_if_empty p h fm =
     (case sm_find (fm_levels fm) p of
        None \<Rightarrow> Some (h, fm)
      | Some l \<Rightarrow> do {
          L \<leftarrow> lread h l;
          if level_empty L \<or> quantity_is_zero (pl_totalQuantity L)
          then do { h \<leftarrow> free_level l h; Some (h, fm\<lparr>fm_levels := sm_erase p (fm_levels fm)\<rparr>) }
          else Some (h, fm) })"

text \<open>The first level in iteration order that is not empty.\<close>

fun first_non_empty :: "book_heap \<Rightarrow> level_ptr list \<Rightarrow> level_ptr option option" where
  "first_non_empty h [] = Some None"
| "first_non_empty h (l # ls) = do {
     L \<leftarrow> lread h l;
     if \<not> level_empty L then Some (Some l) else first_non_empty h ls }"

definition far_best_level :: "book_heap \<Rightarrow> FarPriceMap \<Rightarrow> level_ptr option option" where
  "far_best_level h fm =
     first_non_empty h (map snd (if fm_side fm = Buy then rev (fm_levels fm) else fm_levels fm))"

section \<open>The contract of the container\<close>

definition far_lookup :: "FarPriceMap \<Rightarrow> Price \<Rightarrow> level_ptr option" where
  "far_lookup fm p = sm_find (fm_levels fm) p"

definition far_ok :: "FarPriceMap \<Rightarrow> bool" where
  "far_ok fm \<longleftrightarrow> sm_ok (fm_levels fm)"

lemma far_ok_make [simp]: "far_ok (make_far_price_map s)"
  by (simp add: far_ok_def make_far_price_map_def container_simps)

lemma far_levels_best_first:
  assumes "far_ok fm"
  shows "best_first (fm_side fm) (if fm_side fm = Buy then rev (fm_levels fm) else fm_levels fm)"
proof -
  have "sorted_wrt (\<lambda>a b. fst a < fst b) (fm_levels fm)"
    using assms by (simp add: far_ok_def sm_ok_def sorted_wrt_map)
  then show ?thesis
    by (auto simp: best_first_def is_better_price_def sorted_wrt_rev)
qed

interpretation far: level_container fm_side fm_side far_ok "\<lambda>fm p. True" far_lookup
  far_get_or_create_level far_remove_level_if_empty
  "\<lambda>h fm. map_option (Pair fm) (far_best_level h fm)"
proof
  fix s s' :: FarPriceMap
  show "fm_side s' = fm_side s \<Longrightarrow> fm_side s' = fm_side s \<and> (\<lambda>p. True) = (\<lambda>p. True)"
    by simp
next
  fix s :: FarPriceMap and p :: Price and l :: level_ptr and h :: book_heap
  assume ok: "far_ok s"
  show "\<exists>s'. far_get_or_create_level p h s = (Some l, h, s') \<and> far_ok s' \<and> fm_side s' = fm_side s \<and> far_lookup s' = far_lookup s" if "far_lookup s p = Some l"
    using that ok by (simp add: far_get_or_create_level_def far_lookup_def)
  show "\<exists>s'. far_get_or_create_level p h s = (Some l, h', s') \<and> far_ok s' \<and> fm_side s' = fm_side s \<and>
      (\<forall>q. True \<longrightarrow> far_lookup s' q = (if q = p then Some l else far_lookup s q))"
    if "far_lookup s p = None" "new_level p h = (l, h')" for h'
    using that ok
    by (auto simp: far_get_or_create_level_def far_lookup_def far_ok_def container_simps)
  show "\<exists>s'. far_remove_level_if_empty p h s = Some (h', s') \<and> far_ok s' \<and> fm_side s' = fm_side s \<and>
      (\<forall>q. True \<longrightarrow> far_lookup s' q = (if q = p then None else far_lookup s q))"
    if "far_lookup s p = Some l" "lread h l = Some L" "level_empty L" "free_level l h = Some h'"
    for L h'
    using that ok
    by (auto simp: far_remove_level_if_empty_def far_lookup_def far_ok_def container_simps)
  show "\<exists>r. map_option (Pair s) (far_best_level h s) = Some (s, r) \<and>
      is_best (fm_side s) (\<lambda>p. True) (far_lookup s) r"
    if all: "\<And>q k. True \<Longrightarrow> far_lookup s q = Some k \<Longrightarrow>
      \<exists>L. lread h k = Some L \<and> \<not> level_empty L \<and> pl_price L = q"
  proof -
    let ?es = "if fm_side s = Buy then rev (fm_levels s) else fm_levels s"
    have mem: "far_lookup s q = Some k \<longleftrightarrow> (q, k) \<in> set ?es" for q k
      using ok by (simp add: far_lookup_def far_ok_def sm_ok_find_iff)
    show ?thesis
    proof (cases ?es)
      case Nil
      then have "far_lookup s q = None" for q using mem [of q] by (cases "far_lookup s q") auto
      then show ?thesis using Nil by (simp add: far_best_level_def is_best_None split: if_splits)
    next
      case (Cons e es')
      obtain q k where e: "e = (q, k)" by (cases e)
      have bf: "best_first (fm_side s) ((q, k) # es')"
        using far_levels_best_first [OF ok] Cons e by simp
      have q: "far_lookup s q = Some k" using mem Cons e by simp
      then have "far_best_level h s = Some (Some k)"
        using all [OF TrueI q] Cons e by (auto simp: far_best_level_def)
      moreover have "is_best (fm_side s) (\<lambda>p. True) (far_lookup s) (Some k)"
        unfolding is_best_Some
      proof (intro exI [of _ q] conjI allI impI)
        fix q' assume "far_lookup s q' \<noteq> None"
        then obtain k' where "(q', k') \<in> set ?es" using mem by auto
        then show "q' = q \<or> is_better_price (fm_side s) q q'"
          using bf Cons e by auto
      qed (simp_all add: q)
      ultimately show ?thesis by simp
    qed
  qed
qed

end
