(* ===== verification/SideBook.thy ===== *)
theory SideBook
  imports RingPriceLadder FarPriceMap
begin

text \<open>
  \<open>src/include/core/SideBook.hpp\<close> and \<open>src/src/core/SideBook.cpp\<close>: one side of a book, the ring
  ladder and the far map with the cached best level.  \<open>sb_ok h sb G\<close> says that the side book
  represents the levels \<open>G\<close>, listed best first, each with its price, its address and its queue
  of orders; the operations are shown to insert an order at the end of its price's queue and to
  remove an order from its queue, keeping \<open>sb_ok\<close>.
\<close>

section \<open>The code\<close>

record SideBook =
  sb_side :: Side
  sb_ringPriceLadder :: RingPriceLadder
  sb_farPriceMap :: FarPriceMap
  sb_cachedBestLevel :: "level_ptr option"

definition make_side_book :: "Side \<Rightarrow> int64 \<Rightarrow> int64 \<Rightarrow> nat \<Rightarrow> SideBook" where
  "make_side_book side tick base capacity =
     \<lparr>sb_side = side, sb_ringPriceLadder = make_ladder side tick base capacity,
      sb_farPriceMap = make_far_price_map side, sb_cachedBestLevel = None\<rparr>"

definition get_or_create_level_for_price ::
    "Price \<Rightarrow> book_heap \<Rightarrow> SideBook \<Rightarrow> level_ptr option \<times> book_heap \<times> SideBook" where
  "get_or_create_level_for_price p h sb =
     (let ld = sb_ringPriceLadder sb;
          t = price_to_ladder_tick p (rl_tickSizeTicks ld)
      in if contains_tick ld t
         then (let (l, h, ld) = ladder_get_or_create_level p h ld
               in (l, h, sb\<lparr>sb_ringPriceLadder := ld\<rparr>))
         else (let (l, h, fm) = far_get_or_create_level p h (sb_farPriceMap sb)
               in (l, h, sb\<lparr>sb_farPriceMap := fm\<rparr>)))"

definition insert_resting_order ::
    "order_ptr \<Rightarrow> book_heap \<Rightarrow> SideBook \<Rightarrow> (book_heap \<times> SideBook) option" where
  "insert_resting_order p h sb = do {
     ord \<leftarrow> oread h p;
     let (lo, h, sb) = get_or_create_level_for_price (o_price ord) h sb;
     l \<leftarrow> lo;
     h \<leftarrow> push_back l (Some p) h;
     L \<leftarrow> lread h l;
     better \<leftarrow> (case sb_cachedBestLevel sb of
                  None \<Rightarrow> Some True
                | Some c \<Rightarrow> do { C \<leftarrow> lread h c;
                                 Some (is_better_price (sb_side sb) (pl_price L) (pl_price C)) });
     Some (h, if better then sb\<lparr>sb_cachedBestLevel := Some l\<rparr> else sb) }"

definition side_best_level :: "book_heap \<Rightarrow> SideBook \<Rightarrow> level_ptr option option" where
  "side_best_level h sb =
     (case sb_cachedBestLevel sb of
        None \<Rightarrow> Some None
      | Some c \<Rightarrow> do { C \<leftarrow> lread h c; Some (if level_empty C then None else Some c) })"

definition best_order :: "book_heap \<Rightarrow> SideBook \<Rightarrow> order_ptr option option" where
  "best_order h sb = do {
     lo \<leftarrow> side_best_level h sb;
     (case lo of None \<Rightarrow> Some None | Some l \<Rightarrow> do { L \<leftarrow> lread h l; Some (level_front L) }) }"

text \<open>
  \<open>refresh_cached_best\<close>: the better of the two containers' best levels, then the assignment to
  the cache.
\<close>

definition scan_best :: "book_heap \<Rightarrow> SideBook \<Rightarrow> (SideBook \<times> level_ptr option) option" where
  "scan_best h sb = do {
     let (ld, ringBest) = ladder_best_level (sb_ringPriceLadder sb);
     let sb = sb\<lparr>sb_ringPriceLadder := ld\<rparr>;
     farBest \<leftarrow> far_best_level h (sb_farPriceMap sb);
     (case ringBest of
        None \<Rightarrow> Some (sb, farBest)
      | Some r \<Rightarrow>
          (case farBest of
             None \<Rightarrow> Some (sb, ringBest)
           | Some f \<Rightarrow> do {
               R \<leftarrow> lread h r;
               F \<leftarrow> lread h f;
               Some (sb, if is_better_price (sb_side sb) (pl_price R) (pl_price F) then ringBest
                         else farBest) })) }"

definition refresh_cached_best :: "book_heap \<Rightarrow> SideBook \<Rightarrow> SideBook option" where
  "refresh_cached_best h sb = do {
     (sb, best) \<leftarrow> scan_best h sb;
     Some (sb\<lparr>sb_cachedBestLevel := best\<rparr>) }"

text \<open>The removal of an emptied level from the container that owns it.\<close>

definition drop_level ::
    "Price \<Rightarrow> level_ptr \<Rightarrow> book_heap \<Rightarrow> SideBook \<Rightarrow> (book_heap \<times> SideBook) option" where
  "drop_level price l h sb =
     (if ladder_get_level price (sb_ringPriceLadder sb) = Some l
      then do { (h, ld) \<leftarrow> ladder_remove_level_if_empty price h (sb_ringPriceLadder sb);
                Some (h, sb\<lparr>sb_ringPriceLadder := ld\<rparr>) }
      else do { (h, fm) \<leftarrow> far_remove_level_if_empty price h (sb_farPriceMap sb);
                Some (h, sb\<lparr>sb_farPriceMap := fm\<rparr>) })"

text \<open>\<open>wasCachedBest || cachedBestLevel==nullptr || cachedBestLevel->empty()\<close>.\<close>

definition needs_refresh :: "bool \<Rightarrow> book_heap \<Rightarrow> SideBook \<Rightarrow> bool option" where
  "needs_refresh wasCachedBest h sb =
     (if wasCachedBest then Some True
      else (case sb_cachedBestLevel sb of
              None \<Rightarrow> Some True
            | Some c \<Rightarrow> do { C \<leftarrow> lread h c; Some (level_empty C) }))"

definition update_after_fill_or_cancel ::
    "level_ptr option \<Rightarrow> book_heap \<Rightarrow> SideBook \<Rightarrow> (book_heap \<times> SideBook) option" where
  "update_after_fill_or_cancel lo h sb =
     (case lo of None \<Rightarrow> Some (h, sb) | Some l \<Rightarrow> do {
        L \<leftarrow> lread h l;
        let price = pl_price L;
        let wasCachedBest = (sb_cachedBestLevel sb = Some l);
        (h, sb) \<leftarrow> (if level_empty L \<or> quantity_is_zero (pl_totalQuantity L)
                    then drop_level price l h sb else Some (h, sb));
        refresh \<leftarrow> needs_refresh wasCachedBest h sb;
        if refresh then do { sb \<leftarrow> refresh_cached_best h sb; Some (h, sb) }
        else Some (h, sb) })"

definition remove_order ::
    "order_ptr option \<Rightarrow> book_heap \<Rightarrow> SideBook \<Rightarrow> (book_heap \<times> SideBook) option" where
  "remove_order po h sb =
     (case po of None \<Rightarrow> Some (h, sb) | Some p \<Rightarrow> do {
        ord \<leftarrow> oread h p;
        (case o_priceLevel ord of None \<Rightarrow> Some (h, sb) | Some l \<Rightarrow> do {
           h \<leftarrow> unlink_order l p h;
           update_after_fill_or_cancel (Some l) h sb }) })"

definition price_crosses :: "Price \<Rightarrow> book_heap \<Rightarrow> SideBook \<Rightarrow> bool option" where
  "price_crosses incomingPrice h sb = do {
     lo \<leftarrow> side_best_level h sb;
     (case lo of
        None \<Rightarrow> Some False
      | Some l \<Rightarrow> do {
          L \<leftarrow> lread h l;
          Some (if sb_side sb = Sell then incomingPrice \<ge> pl_price L
                else incomingPrice \<le> pl_price L) }) }"

section \<open>What a side book represents\<close>

text \<open>The levels, best first: price, address, queue.\<close>

type_synonym glevel = "Price \<times> level_ptr \<times> order_ptr list"

definition g_level :: "glevel \<Rightarrow> Price \<times> level_ptr" where
  "g_level e = (fst e, fst (snd e))"

definition g_queue :: "glevel \<Rightarrow> order_ptr list" where
  "g_queue e = snd (snd e)"

text \<open>The orders of a side in the order in which they are matched.\<close>

definition g_orders :: "glevel list \<Rightarrow> order_ptr list" where
  "g_orders G = concat (map g_queue G)"

lemma g_simps [simp]:
  "g_level (p, l, ps) = (p, l)" "g_queue (p, l, ps) = ps"
  "g_orders [] = []" "g_orders (e # G) = g_queue e @ g_orders G"
  "g_orders (G @ G') = g_orders G @ g_orders G'"
  by (simp_all add: g_level_def g_queue_def g_orders_def)

definition side_covers :: "SideBook \<Rightarrow> Price \<Rightarrow> bool" where
  "side_covers sb p \<longleftrightarrow> on_tick (rl_tickSizeTicks (sb_ringPriceLadder sb)) p"

definition side_lookup :: "SideBook \<Rightarrow> Price \<Rightarrow> level_ptr option" where
  "side_lookup sb p =
     (if ladder_covers (sb_ringPriceLadder sb) p then ladder_lookup (sb_ringPriceLadder sb) p
      else far_lookup (sb_farPriceMap sb) p)"

text \<open>The two containers together: no price is in both, and the far map holds none on the ladder.\<close>

definition containers_ok :: "SideBook \<Rightarrow> bool" where
  "containers_ok sb \<longleftrightarrow>
     ladder_ok (sb_ringPriceLadder sb) \<and> far_ok (sb_farPriceMap sb) \<and>
     rl_side (sb_ringPriceLadder sb) = sb_side sb \<and> fm_side (sb_farPriceMap sb) = sb_side sb \<and>
     (\<forall>p l. far_lookup (sb_farPriceMap sb) p = Some l \<longrightarrow>
        side_covers sb p \<and> \<not> ladder_covers (sb_ringPriceLadder sb) p)"

definition entry_ok :: "book_heap \<Rightarrow> Side \<Rightarrow> glevel \<Rightarrow> bool" where
  "entry_ok h side e \<longleftrightarrow> (case e of (p, l, ps) \<Rightarrow>
     (\<exists>L. lread h l = Some L \<and> pl_price L = p \<and> level_ok (oread h) l L ps) \<and>
     (\<forall>q \<in> set ps. \<exists>x. oread h q = Some x \<and> o_price x = p \<and> o_side x = side))"

definition sb_core :: "book_heap \<Rightarrow> SideBook \<Rightarrow> glevel list \<Rightarrow> bool" where
  "sb_core h sb G \<longleftrightarrow>
     containers_ok sb \<and> best_first (sb_side sb) (map g_level G) \<and>
     (\<forall>p l. side_covers sb p \<longrightarrow> side_lookup sb p = Some l \<longleftrightarrow> (p, l) \<in> set (map g_level G)) \<and>
     (\<forall>e \<in> set G. side_covers sb (fst e) \<and> entry_ok h (sb_side sb) e) \<and>
     distinct (map (snd \<circ> g_level) G) \<and> distinct (g_orders G)"

text \<open>No zombie orders, no empty levels, and the cache points at the best level.\<close>

definition alive :: "book_heap \<Rightarrow> order_ptr list \<Rightarrow> bool" where
  "alive h ps \<longleftrightarrow> (\<forall>q \<in> set ps. rem (oread h) q \<noteq> 0)"

definition best_of :: "glevel list \<Rightarrow> level_ptr option" where
  "best_of G = first_or (map (snd \<circ> g_level) G) None"

definition sb_ok :: "book_heap \<Rightarrow> SideBook \<Rightarrow> glevel list \<Rightarrow> bool" where
  "sb_ok h sb G \<longleftrightarrow>
     sb_core h sb G \<and> (\<forall>e \<in> set G. g_queue e \<noteq> []) \<and> alive h (g_orders G) \<and>
     sb_cachedBestLevel sb = best_of G"

section \<open>The side book as one container\<close>

definition side_config :: "SideBook \<Rightarrow>
    Side \<times> (Side \<times> int64 \<times> int64 \<times> nat \<times> nat) \<times> Side \<times> level_ptr option" where
  "side_config sb = (sb_side sb, ladder_config (sb_ringPriceLadder sb),
     fm_side (sb_farPriceMap sb), sb_cachedBestLevel sb)"

lemma side_configD:
  assumes "side_config sb' = side_config sb"
  shows "sb_side sb' = sb_side sb" "sb_cachedBestLevel sb' = sb_cachedBestLevel sb"
    "side_covers sb' = side_covers sb"
  using assms by (auto simp: side_config_def side_covers_def ladder_config_def fun_eq_iff)

definition side_remove_level :: "Price \<Rightarrow> book_heap \<Rightarrow> SideBook \<Rightarrow> (book_heap \<times> SideBook) option"
  where
  "side_remove_level p h sb =
     (case side_lookup sb p of Some l \<Rightarrow> drop_level p l h sb | None \<Rightarrow> Some (h, sb))"

lemma side_covers_ladder:
  "side_covers sb p \<Longrightarrow> ladder_covers (sb_ringPriceLadder sb) p \<longleftrightarrow>
     contains_tick (sb_ringPriceLadder sb)
       (price_to_ladder_tick p (rl_tickSizeTicks (sb_ringPriceLadder sb)))"
  by (simp add: side_covers_def ladder_covers_def in_window_def ladder_tick_def)

lemma ladder_covers_side: "ladder_covers (sb_ringPriceLadder sb) p \<Longrightarrow> side_covers sb p"
  by (simp add: side_covers_def ladder_covers_def)

lemma goc_ladder:
  assumes "containers_ok sb" "ladder_covers (sb_ringPriceLadder sb) p"
    and goc: "ladder_get_or_create_level p h (sb_ringPriceLadder sb) = (lo, h', ld')"
    and ld': "ladder_ok ld'" "ladder_config ld' = ladder_config (sb_ringPriceLadder sb)"
    and look: "\<And>q. ladder_covers (sb_ringPriceLadder sb) q \<Longrightarrow>
      ladder_lookup ld' q = (if q = p then lo else ladder_lookup (sb_ringPriceLadder sb) q)"
  shows "\<exists>sb'. get_or_create_level_for_price p h sb = (lo, h', sb') \<and> containers_ok sb' \<and>
    side_config sb' = side_config sb \<and>
    side_lookup sb' = (\<lambda>q. if q = p then lo else side_lookup sb q)"
proof -
  have cov: "ladder_covers ld' = ladder_covers (sb_ringPriceLadder sb)"
    "rl_side ld' = rl_side (sb_ringPriceLadder sb)"
    "rl_tickSizeTicks ld' = rl_tickSizeTicks (sb_ringPriceLadder sb)"
    using ladder.same_config [OF ld'(2)] ld'(2) by (auto simp: ladder_config_def)
  show ?thesis
    using assms(1,2) goc ld' look cov side_covers_ladder [OF ladder_covers_side [OF assms(2)]]
    by (auto simp: get_or_create_level_for_price_def containers_ok_def side_config_def
        side_lookup_def side_covers_def Let_def fun_eq_iff)
qed

lemma goc_far:
  assumes "containers_ok sb" "side_covers sb p" "\<not> ladder_covers (sb_ringPriceLadder sb) p"
    and goc: "far_get_or_create_level p h (sb_farPriceMap sb) = (lo, h', fm')"
    and fm': "far_ok fm'" "fm_side fm' = fm_side (sb_farPriceMap sb)"
    and look: "\<And>q. far_lookup fm' q = (if q = p then lo else far_lookup (sb_farPriceMap sb) q)"
  shows "\<exists>sb'. get_or_create_level_for_price p h sb = (lo, h', sb') \<and> containers_ok sb' \<and>
    side_config sb' = side_config sb \<and>
    side_lookup sb' = (\<lambda>q. if q = p then lo else side_lookup sb q)"
  using assms(1-3) goc fm' look side_covers_ladder [OF assms(2)]
  by (auto simp: get_or_create_level_for_price_def containers_ok_def side_config_def
      side_lookup_def side_covers_def Let_def fun_eq_iff)

lemma scan_best_is_best:
  assumes ok: "containers_ok s"
    and live: "\<And>q k. side_covers s q \<Longrightarrow> side_lookup s q = Some k \<Longrightarrow>
      \<exists>L. lread h k = Some L \<and> \<not> level_empty L \<and> pl_price L = q"
  shows "\<exists>r. scan_best h s = Some (s, r) \<and> is_best (sb_side s) (side_covers s) (side_lookup s) r"
proof -
  let ?ld = "sb_ringPriceLadder s" and ?fm = "sb_farPriceMap s"
  have live_ld: "\<exists>L. lread h k = Some L \<and> \<not> level_empty L \<and> pl_price L = q"
    if "ladder_covers ?ld q" "ladder_lookup ?ld q = Some k" for q k
    using live [of q k] ladder_covers_side [OF that(1)] that by (simp add: side_lookup_def)
  have live_fm: "\<exists>L. lread h k = Some L \<and> \<not> level_empty L \<and> pl_price L = q"
    if "far_lookup ?fm q = Some k" for q k
    using live [of q k] that ok by (auto simp: side_lookup_def containers_ok_def)
  have fm_cov: "far_lookup ?fm q = Some k \<Longrightarrow> side_covers s q \<and> side_lookup s q = Some k" for q k
    using ok by (auto simp: side_lookup_def containers_ok_def)
  have ld_cov: "ladder_covers ?ld q \<Longrightarrow> side_covers s q \<and> side_lookup s q = ladder_lookup ?ld q" for q
    using ladder_covers_side by (auto simp: side_lookup_def)
  have sides: "rl_side ?ld = sb_side s" "fm_side ?fm = sb_side s"
    using ok by (auto simp: containers_ok_def)
  obtain rb where rb: "ladder_best_level ?ld = (?ld, rb)"
    "is_best (sb_side s) (ladder_covers ?ld) (ladder_lookup ?ld) rb"
    using ladder.best_level [of ?ld h] live_ld ok by (auto simp: containers_ok_def)
  obtain fb where fb: "far_best_level h ?fm = Some fb"
    "is_best (sb_side s) (\<lambda>p. True) (far_lookup ?fm) fb"
    using far.best_level [of ?fm h] live_fm ok by (auto simp: containers_ok_def)
  have split: "side_lookup s q = (if ladder_covers ?ld q then ladder_lookup ?ld q
      else far_lookup ?fm q)" for q
    by (simp add: side_lookup_def)
  show ?thesis
  proof (cases rb)
    case None
    then have ld_none: "ladder_covers ?ld q \<Longrightarrow> ladder_lookup ?ld q = None" for q
      using rb(2) by (simp add: is_best_None)
    have "is_best (sb_side s) (side_covers s) (side_lookup s) fb"
    proof (cases fb)
      case None
      then show ?thesis
        using fb(2) ld_none by (auto simp: is_best_None split split: if_splits)
    next
      case (Some f)
      then obtain p where "far_lookup ?fm p = Some f"
        "\<And>q. far_lookup ?fm q \<noteq> None \<Longrightarrow> q = p \<or> is_better_price (sb_side s) p q"
        using fb(2) by (auto simp: is_best_Some)
      then show ?thesis
        using fm_cov [of p f] ld_none
        unfolding Some is_best_Some by (intro exI [of _ p]) (auto simp: split)
    qed
    then show ?thesis
      using None rb(1) fb(1) by (simp add: scan_best_def)
  next
    case (Some r)
    note rb' = this
    obtain p where p: "ladder_covers ?ld p" "ladder_lookup ?ld p = Some r"
      "\<And>q. ladder_covers ?ld q \<Longrightarrow> ladder_lookup ?ld q \<noteq> None \<Longrightarrow> q = p \<or> is_better_price (sb_side s) p q"
      using rb(2) Some by (auto simp: is_best_Some)
    obtain R where R: "lread h r = Some R" "pl_price R = p" using live_ld [OF p(1,2)] by auto
    show ?thesis
    proof (cases fb)
      case None
      then have "is_best (sb_side s) (side_covers s) (side_lookup s) rb"
        using fb(2) rb' p ld_cov
        by (auto simp: is_best_None is_best_Some split split: if_splits intro!: exI [of _ p])
      then show ?thesis
        using None rb' rb(1) fb(1) by (simp add: scan_best_def)
    next
      case (Some f)
      obtain p' where p': "far_lookup ?fm p' = Some f"
        "\<And>q. far_lookup ?fm q \<noteq> None \<Longrightarrow> q = p' \<or> is_better_price (sb_side s) p' q"
        using fb(2) Some by (auto simp: is_best_Some)
      obtain F where F: "lread h f = Some F" "pl_price F = p'" using live_fm [OF p'(1)] by auto
      have ne: "p \<noteq> p'" using p(1) p'(1) ok by (auto simp: containers_ok_def)
      define b where "b = is_better_price (sb_side s) p p'"
      have scan: "scan_best h s = Some (s, if b then rb else fb)"
        using rb' Some rb(1) fb(1) R F by (simp add: scan_best_def b_def)
      have "is_best (sb_side s) (side_covers s) (side_lookup s) (if b then rb else fb)"
      proof (cases b)
        case True
        have "q = p \<or> is_better_price (sb_side s) p q" if "side_lookup s q \<noteq> None" for q
          using that p(3) [of q] p'(2) [of q] True is_better_price_trans [of "sb_side s" p p' q]
          by (auto simp: split b_def split: if_splits)
        then show ?thesis
          using True rb' p ld_cov [OF p(1)] by (auto simp: is_best_Some intro!: exI [of _ p])
      next
        case False
        then have b': "is_better_price (sb_side s) p' p"
          using ne is_better_price_linear [of "sb_side s" p p'] by (auto simp: b_def)
        have "q = p' \<or> is_better_price (sb_side s) p' q" if "side_lookup s q \<noteq> None" for q
          using that p(3) [of q] p'(2) [of q] b' is_better_price_trans [of "sb_side s" p' p q]
          by (auto simp: split split: if_splits)
        then show ?thesis
          using False Some fm_cov [OF p'(1)] by (auto simp: is_best_Some intro!: exI [of _ p'])
      qed
      then show ?thesis using scan by blast
    qed
  qed
qed


lemma drop_level_removed:
  assumes ok: "containers_ok sb" "side_covers sb p" "side_lookup sb p = Some l"
    and L: "lread h l = Some L" "level_empty L" "free_level l h = Some h'"
  shows "\<exists>sb'. drop_level p l h sb = Some (h', sb') \<and> containers_ok sb' \<and>
    side_config sb' = side_config sb \<and>
    (\<forall>q. side_covers sb q \<longrightarrow> side_lookup sb' q = (if q = p then None else side_lookup sb q))"
proof (cases "ladder_covers (sb_ringPriceLadder sb) p")
  case True
  then have lk: "ladder_lookup (sb_ringPriceLadder sb) p = Some l"
    using ok(3) by (simp add: side_lookup_def)
  obtain ld' where ld': "ladder_remove_level_if_empty p h (sb_ringPriceLadder sb) = Some (h', ld')"
    "ladder_ok ld'" "ladder_config ld' = ladder_config (sb_ringPriceLadder sb)"
    "\<And>q. ladder_covers (sb_ringPriceLadder sb) q \<Longrightarrow> ladder_lookup ld' q =
       (if q = p then None else ladder_lookup (sb_ringPriceLadder sb) q)"
    using ladder.removed [OF _ True lk L] ok(1) by (auto simp: containers_ok_def)
  have cov: "ladder_covers ld' = ladder_covers (sb_ringPriceLadder sb)"
    "rl_side ld' = rl_side (sb_ringPriceLadder sb)"
    "rl_tickSizeTicks ld' = rl_tickSizeTicks (sb_ringPriceLadder sb)"
    using ladder.same_config [OF ld'(3)] ld'(3) by (auto simp: ladder_config_def)
  show ?thesis
    using ok(1) True ld' cov lk
    by (auto simp: drop_level_def ladder_lookup_def containers_ok_def side_config_def
        side_lookup_def side_covers_def)
next
  case False
  then have lk: "far_lookup (sb_farPriceMap sb) p = Some l"
    "ladder_get_level p (sb_ringPriceLadder sb) = None"
    using ok(2,3) by (auto simp: side_lookup_def ladder_get_level_window ladder_covers_def side_covers_def)
  obtain fm' where "far_remove_level_if_empty p h (sb_farPriceMap sb) = Some (h', fm')"
    "far_ok fm'" "fm_side fm' = fm_side (sb_farPriceMap sb)"
    "\<And>q. far_lookup fm' q = (if q = p then None else far_lookup (sb_farPriceMap sb) q)"
    using far.removed [OF _ TrueI lk(1) L] ok(1) by (auto simp: containers_ok_def)
  then show ?thesis
    using ok(1) False lk
    by (auto simp: drop_level_def containers_ok_def side_config_def side_lookup_def side_covers_def)
qed

interpretation side: level_container side_config sb_side containers_ok side_covers side_lookup
  get_or_create_level_for_price side_remove_level scan_best
proof
  fix s s' :: SideBook
  assume "side_config s' = side_config s"
  then show "sb_side s' = sb_side s \<and> side_covers s' = side_covers s"
    using side_configD by blast
next
  fix s :: SideBook and p :: Price and l :: level_ptr and h :: book_heap
  assume ok: "containers_ok s" and cov: "side_covers s p" and lk: "side_lookup s p = Some l"
  have id: "side_lookup s = (\<lambda>q. if q = p then Some l else side_lookup s q)"
    using lk by auto
  show "\<exists>s'. get_or_create_level_for_price p h s = (Some l, h, s') \<and> containers_ok s' \<and>
      side_config s' = side_config s \<and> side_lookup s' = side_lookup s"
  proof (cases "ladder_covers (sb_ringPriceLadder s) p")
    case True
    then have "ladder_lookup (sb_ringPriceLadder s) p = Some l" using lk by (simp add: side_lookup_def)
    then show ?thesis
      using ladder.found [OF _ True, of l h] goc_ladder [OF ok True, of h "Some l" h] ok id
      by (auto simp: containers_ok_def)
  next
    case False
    then have "far_lookup (sb_farPriceMap s) p = Some l" using lk by (simp add: side_lookup_def)
    then obtain fm' where "far_get_or_create_level p h (sb_farPriceMap s) = (Some l, h, fm')"
      "far_ok fm'" "fm_side fm' = fm_side (sb_farPriceMap s)"
      "\<And>q. far_lookup fm' q = (if q = p then Some l else far_lookup (sb_farPriceMap s) q)"
      using far.found [OF _ TrueI, of "sb_farPriceMap s" p l h] ok
      by (auto simp: containers_ok_def)
    from goc_far [OF ok cov False this] show ?thesis using id by auto
  qed
next
  fix s :: SideBook and p :: Price and l :: level_ptr and h h' :: book_heap
  assume ok: "containers_ok s" and cov: "side_covers s p" and lk: "side_lookup s p = None"
    and n: "new_level p h = (l, h')"
  show "\<exists>s'. get_or_create_level_for_price p h s = (Some l, h', s') \<and> containers_ok s' \<and>
      side_config s' = side_config s \<and>
      (\<forall>q. side_covers s q \<longrightarrow> side_lookup s' q = (if q = p then Some l else side_lookup s q))"
  proof (cases "ladder_covers (sb_ringPriceLadder s) p")
    case True
    then have "ladder_lookup (sb_ringPriceLadder s) p = None" using lk by (simp add: side_lookup_def)
    then obtain ld' where "ladder_get_or_create_level p h (sb_ringPriceLadder s) = (Some l, h', ld')"
      "ladder_ok ld'" "ladder_config ld' = ladder_config (sb_ringPriceLadder s)"
      "\<And>q. ladder_covers (sb_ringPriceLadder s) q \<Longrightarrow> ladder_lookup ld' q =
         (if q = p then Some l else ladder_lookup (sb_ringPriceLadder s) q)"
      using ladder.created [OF _ True _ n] ok by (auto simp: containers_ok_def)
    from goc_ladder [OF ok True this] show ?thesis by auto
  next
    case False
    then have "far_lookup (sb_farPriceMap s) p = None" using lk by (simp add: side_lookup_def)
    then obtain fm' where "far_get_or_create_level p h (sb_farPriceMap s) = (Some l, h', fm')"
      "far_ok fm'" "fm_side fm' = fm_side (sb_farPriceMap s)"
      "\<And>q. far_lookup fm' q = (if q = p then Some l else far_lookup (sb_farPriceMap s) q)"
      using far.created [OF _ TrueI _ n, of "sb_farPriceMap s"] ok by (auto simp: containers_ok_def)
    from goc_far [OF ok cov False this] show ?thesis by auto
  qed
next
  fix s :: SideBook and p :: Price and l :: level_ptr and h h' :: book_heap and L
  assume "containers_ok s" "side_covers s p" and lk: "side_lookup s p = Some l"
    and "lread h l = Some L" "level_empty L" "free_level l h = Some h'"
  from drop_level_removed [OF this]
  show "\<exists>s'. side_remove_level p h s = Some (h', s') \<and> containers_ok s' \<and>
      side_config s' = side_config s \<and>
      (\<forall>q. side_covers s q \<longrightarrow> side_lookup s' q = (if q = p then None else side_lookup s q))"
    using lk by (simp add: side_remove_level_def)
next
  fix s :: SideBook and h :: book_heap
  assume "containers_ok s"
    "\<And>q k. side_covers s q \<Longrightarrow> side_lookup s q = Some k \<Longrightarrow>
       \<exists>L. lread h k = Some L \<and> \<not> level_empty L \<and> pl_price L = q"
  then show "\<exists>r. scan_best h s = Some (s, r) \<and> is_best (sb_side s) (side_covers s) (side_lookup s) r"
    by (rule scan_best_is_best)
qed

section \<open>Changing one level\<close>

lemma entry_ok_cong:
  assumes "lread h' l = lread h l" "\<And>q. q \<in> set ps \<Longrightarrow> oread h' q = oread h q"
  shows "entry_ok h' side (p, l, ps) = entry_ok h side (p, l, ps)"
proof -
  have "level_ok (oread h') l L ps = level_ok (oread h) l L ps" for L
    by (rule level_ok_cong) (rule assms(2))
  then show ?thesis using assms by (auto simp: entry_ok_def)
qed

lemma g_orders_mem: "q \<in> set (g_orders G) \<longleftrightarrow> (\<exists>e \<in> set G. q \<in> set (g_queue e))"
  by (auto simp: g_orders_def)

definition g_levels :: "glevel list \<Rightarrow> level_ptr set" where
  "g_levels G = set (map (snd \<circ> g_level) G)"

lemma g_levels_simps [simp]:
  "g_levels [] = {}" "g_levels (e # G) = insert (snd (g_level e)) (g_levels G)"
  "g_levels (G @ G') = g_levels G \<union> g_levels G'"
  by (auto simp: g_levels_def)

text \<open>What an operation on one side may touch: its own orders and levels and fresh ones.\<close>

definition heap_frame :: "book_heap \<Rightarrow> glevel list \<Rightarrow> book_heap \<Rightarrow> glevel list \<Rightarrow> bool" where
  "heap_frame h G h' G' \<longleftrightarrow>
     (\<forall>q. q \<notin> set (g_orders G) \<union> set (g_orders G') \<longrightarrow> oread h' q = oread h q) \<and>
     (\<forall>k. k \<notin> g_levels G \<union> g_levels G' \<longrightarrow> lread h' k = lread h k) \<and>
     (\<forall>k \<in> g_levels G' - g_levels G. lread h k = None) \<and>
     (\<forall>k \<in> g_levels G - g_levels G'. lread h' k = None)"

lemma sb_core_replace:
  assumes core: "sb_core h sb (A @ (p, l, ps) # B)"
    and lr: "lread h' = (lread h)(l \<mapsto> L')" and L': "pl_price L' = p" "level_ok (oread h') l L' ps'"
    and mem: "\<And>q. q \<in> set ps' \<Longrightarrow> \<exists>x. oread h' q = Some x \<and> o_price x = p \<and> o_side x = sb_side sb"
    and frame: "\<And>q. q \<notin> set ps \<union> set ps' \<Longrightarrow> oread h' q = oread h q"
    and disj: "set ps' \<inter> set (g_orders (A @ B)) = {}"
  shows "sb_core h' sb (A @ (p, l, ps') # B)"
proof -
  have c: "containers_ok sb" "best_first (sb_side sb) (map g_level (A @ (p, l, ps) # B))"
    "\<And>q k. side_covers sb q \<Longrightarrow> side_lookup sb q = Some k \<longleftrightarrow>
        (q, k) \<in> set (map g_level (A @ (p, l, ps) # B))"
    "\<And>e. e \<in> set (A @ (p, l, ps) # B) \<Longrightarrow> side_covers sb (fst e) \<and> entry_ok h (sb_side sb) e"
    "distinct (map (snd \<circ> g_level) (A @ (p, l, ps) # B))" "distinct (g_orders (A @ (p, l, ps) # B))"
    using core by (auto simp: sb_core_def)
  have other: "entry_ok h' (sb_side sb) e" if e: "e \<in> set (A @ B)" for e
  proof -
    obtain q k qs where e': "e = (q, k, qs)" by (cases e)
    have "k \<noteq> l" using c(5) e e' by (force simp: g_level_def)
    moreover have "x \<notin> set ps \<union> set ps'" if x: "x \<in> set qs" for x
    proof -
      have "x \<in> set (g_orders (A @ B))" using x e e' by (force simp: g_orders_mem)
      then show ?thesis using disj c(6) by auto
    qed
    ultimately show ?thesis
      using c(4) [of e] e frame unfolding e'
      by (subst entry_ok_cong [of _ _ h]) (auto simp: lr)
  qed
  have "entry_ok h' (sb_side sb) (p, l, ps')"
    using lr L' mem by (auto simp: entry_ok_def)
  moreover have "distinct (g_orders (A @ (p, l, ps') # B))"
    using c(6) disj L'(2) by (auto simp: level_ok_def)
  moreover have "side_covers sb p" using c(4) [of "(p, l, ps)"] by simp
  ultimately show ?thesis
    using c other by (auto simp: sb_core_def)
qed

lemma sb_core_new_level:
  assumes core: "sb_core h sb (A @ B)" and cov: "side_covers sb p"
    and pos: "\<forall>e \<in> set A. is_better_price (sb_side sb) (fst e) p"
      "\<forall>e \<in> set B. is_better_price (sb_side sb) p (fst e)"
    and sb': "containers_ok sb'" "side_config sb' = side_config sb"
    and look: "\<forall>q. side_covers sb q \<longrightarrow> side_lookup sb' q = (if q = p then Some l else side_lookup sb q)"
    and h': "lread h l = None" "lread h' = (lread h)(l \<mapsto> make_price_level p)" "oread h' = oread h"
  shows "sb_core h' sb' (A @ (p, l, []) # B)"
proof -
  have c: "best_first (sb_side sb) (map g_level (A @ B))"
    "\<And>q k. side_covers sb q \<Longrightarrow> side_lookup sb q = Some k \<longleftrightarrow> (q, k) \<in> set (map g_level (A @ B))"
    "\<And>e. e \<in> set (A @ B) \<Longrightarrow> side_covers sb (fst e) \<and> entry_ok h (sb_side sb) e"
    "distinct (map (snd \<circ> g_level) (A @ B))" "distinct (g_orders (A @ B))"
    using core by (auto simp: sb_core_def)
  note cfg = side_configD [OF sb'(2)]
  have live: "lread h (snd (g_level e)) \<noteq> None" if "e \<in> set (A @ B)" for e
    using c(3) [OF that] by (cases e) (auto simp: entry_ok_def)
  then have l: "l \<notin> snd ` g_level ` set (A @ B)"
    using h'(1) by force
  have ent: "entry_ok h' (sb_side sb) e" if e: "e \<in> set (A @ B)" for e
  proof -
    obtain q k qs where e': "e = (q, k, qs)" by (cases e)
    then have "k \<noteq> l" using l e by force
    then show ?thesis
      using c(3) [OF e] h'(2,3) unfolding e' by (subst entry_ok_cong [of _ _ h]) auto
  qed
  have "entry_ok h' (sb_side sb) (p, l, [])"
    using h'(2) by (auto simp: entry_ok_def make_price_level_def [of p])
       (metis level_ok_empty make_price_level_def)
  moreover have "p \<notin> fst ` set (A @ B)"
    using pos by auto
  then have "(p, k) \<notin> set (map g_level (A @ B))" for k
    by (force simp: g_level_def)
  then have "side_lookup sb' q = Some k \<longleftrightarrow> (q, k) \<in> set (map g_level (A @ (p, l, []) # B))"
    if "side_covers sb q" for q k
    using look that c(2) [OF that, of k] by auto
  moreover have "best_first (sb_side sb) (map g_level (A @ (p, l, []) # B))"
    using c(1) pos by (auto simp: best_first_append g_level_def)
  moreover have "distinct (map (snd \<circ> g_level) (A @ (p, l, []) # B))"
    using c(4) l by (auto simp: image_comp)
  ultimately show ?thesis
    using c(3,5) ent sb'(1) cfg cov by (auto simp: sb_core_def)
qed

lemma sb_core_drop_level:
  assumes core: "sb_core h sb (A @ (p, l, []) # B)"
    and sb': "containers_ok sb'" "side_config sb' = side_config sb"
    and look: "\<forall>q. side_covers sb q \<longrightarrow> side_lookup sb' q = (if q = p then None else side_lookup sb q)"
    and h': "lread h' = (lread h)(l := None)" "oread h' = oread h"
  shows "sb_core h' sb' (A @ B)"
proof -
  have c: "best_first (sb_side sb) (map g_level (A @ (p, l, []) # B))"
    "\<And>q k. side_covers sb q \<Longrightarrow> side_lookup sb q = Some k \<longleftrightarrow>
        (q, k) \<in> set (map g_level (A @ (p, l, []) # B))"
    "\<And>e. e \<in> set (A @ (p, l, []) # B) \<Longrightarrow> side_covers sb (fst e) \<and> entry_ok h (sb_side sb) e"
    "distinct (map (snd \<circ> g_level) (A @ (p, l, []) # B))" "distinct (g_orders (A @ (p, l, []) # B))"
    using core by (auto simp: sb_core_def)
  note cfg = side_configD [OF sb'(2)]
  have ent: "entry_ok h' (sb_side sb) e" if e: "e \<in> set (A @ B)" for e
  proof -
    obtain q k qs where e': "e = (q, k, qs)" by (cases e)
    have "k \<noteq> l" using c(4) e e' by (force simp: g_level_def)
    then show ?thesis
      using c(3) [of e] e h' unfolding e' by (subst entry_ok_cong [of _ _ h]) auto
  qed
  have "p \<notin> fst ` set A" "p \<notin> fst ` set B"
    using best_first_distinct [OF c(1)] by (auto simp: image_comp g_level_def)
  then have "(p, k) \<notin> set (map g_level (A @ B))" for k
    by (force simp: g_level_def)
  then have "side_lookup sb' q = Some k \<longleftrightarrow> (q, k) \<in> set (map g_level (A @ B))"
    if "side_covers sb q" for q k
    using look that c(2) [OF that, of k] by (cases "q = p") auto
  then show ?thesis
    using c ent sb'(1) cfg by (auto simp: sb_core_def best_first_append)
qed


section \<open>The cached best level\<close>

lemma sb_core_entryD:
  assumes "sb_core h sb G" "(p, l, ps) \<in> set G"
  shows "\<exists>L. lread h l = Some L \<and> pl_price L = p \<and> level_ok (oread h) l L ps"
    and "q \<in> set ps \<Longrightarrow> \<exists>x. oread h q = Some x \<and> o_price x = p \<and> o_side x = sb_side sb \<and>
      o_priceLevel x = Some l"
    and "side_covers sb p"
proof -
  have e: "entry_ok h (sb_side sb) (p, l, ps)" and "side_covers sb p"
    using assms by (auto simp: sb_core_def)
  then show "side_covers sb p" by simp
  show L: "\<exists>L. lread h l = Some L \<and> pl_price L = p \<and> level_ok (oread h) l L ps"
    using e by (simp add: entry_ok_def)
  assume q: "q \<in> set ps"
  then obtain x where "oread h q = Some x" "o_priceLevel x = Some l"
    using L by (auto simp: level_ok_def dest: dll_live)
  then show "\<exists>x. oread h q = Some x \<and> o_price x = p \<and> o_side x = sb_side sb \<and> o_priceLevel x = Some l"
    using e q by (auto simp: entry_ok_def)
qed

lemma scan_best_core:
  assumes core: "sb_core h sb G" and ne: "\<forall>e \<in> set G. g_queue e \<noteq> []"
  shows "scan_best h sb = Some (sb, best_of G)"
proof -
  have "scan_best h sb = Some (sb, first_or (map snd (map g_level G)) None)"
  proof (rule side.best_is_first)
    show "containers_ok sb" "best_first (sb_side sb) (map g_level G)"
      using core by (auto simp: sb_core_def)
    show "side_lookup sb p = Some l \<longleftrightarrow> (p, l) \<in> set (map g_level G)" if "side_covers sb p" for p l
      using core that by (auto simp: sb_core_def)
    show "side_covers sb p \<and> (\<exists>L. lread h l = Some L \<and> \<not> level_empty L \<and> pl_price L = p)"
      if mem: "(p, l) \<in> set (map g_level G)" for p l
    proof -
      obtain e where e: "e \<in> set G" "g_level e = (p, l)" using mem by auto
      obtain ps where "e = (p, l, ps)" using e(2) by (cases e) simp
      then have ps: "(p, l, ps) \<in> set G" "ps \<noteq> []"
        using e(1) ne by auto
      show ?thesis
        using sb_core_entryD(1,3) [OF core ps(1)] ps(2) level_ok_is_empty by blast
    qed
  qed
  then show ?thesis by (simp add: best_of_def)
qed

lemma refresh_core:
  "sb_core h sb G \<Longrightarrow> \<forall>e \<in> set G. g_queue e \<noteq> [] \<Longrightarrow>
     refresh_cached_best h sb = Some (sb\<lparr>sb_cachedBestLevel := best_of G\<rparr>)"
  by (simp add: refresh_cached_best_def scan_best_core)

lemma sb_core_cached [simp]: "sb_core h (sb\<lparr>sb_cachedBestLevel := c\<rparr>) G = sb_core h sb G"
  by (simp add: sb_core_def containers_ok_def side_covers_def side_lookup_def)

lemma side_covers_cached [simp]: "side_covers (sb\<lparr>sb_cachedBestLevel := c\<rparr>) = side_covers sb"
  by (simp add: side_covers_def fun_eq_iff)

lemma best_of_simps [simp]: "best_of [] = None" "best_of (e # G) = Some (snd (g_level e))"
  by (simp_all add: best_of_def)

lemma best_of_append: "best_of (A @ B) = (case best_of A of Some l \<Rightarrow> Some l | None \<Rightarrow> best_of B)"
  by (cases A) simp_all

lemma sum_rem_zero: "sum_list (map (rem M) ps) = 0 \<longleftrightarrow> (\<forall>q \<in> set ps. rem M q = 0)"
  by (induction ps) auto

lemma update_after_ok:
  assumes core: "sb_core h sb (A @ (p, l, ps) # B)"
    and ne: "\<forall>e \<in> set (A @ B). g_queue e \<noteq> []" and al: "alive h (g_orders (A @ (p, l, ps) # B))"
    and cached: "sb_cachedBestLevel sb = best_of (A @ (p, l, ps) # B)"
  shows "\<exists>h' sb'. update_after_fill_or_cancel (Some l) h sb = Some (h', sb') \<and>
    sb_ok h' sb' (A @ (if ps = [] then [] else [(p, l, ps)]) @ B) \<and> oread h' = oread h \<and>
    lread h' = (if ps = [] then (lread h)(l := None) else lread h) \<and>
    sb_side sb' = sb_side sb \<and> side_covers sb' = side_covers sb \<and>
    (heap_ok h \<longrightarrow> heap_ok h') \<and> norders h' = norders h"
proof -
  obtain L where L: "lread h l = Some L" "pl_price L = p" "level_ok (oread h) l L ps"
    using sb_core_entryD(1) [OF core, of p l ps] by auto
  have zero: "quantity_is_zero (pl_totalQuantity L) \<longleftrightarrow> ps = []"
  proof -
    have "unat (pl_totalQuantity L) = 0 \<longleftrightarrow> (\<forall>q \<in> set ps. rem (oread h) q = 0)"
      using L(3) by (simp add: level_ok_def sum_rem_zero)
    moreover have "\<forall>q \<in> set ps. rem (oread h) q \<noteq> 0" using al by (auto simp: alive_def)
    ultimately show ?thesis
      by (cases ps) (auto simp: quantity_is_zero_def unat_eq_0)
  qed
  have empty: "level_empty L \<longleftrightarrow> ps = []"
    using level_ok_is_empty [OF L(3)] .
  have refresh: "needs_refresh (sb_cachedBestLevel sb = Some l) h' sb' = Some (sb_cachedBestLevel sb = Some l)"
    if h': "\<And>k. k \<noteq> l \<Longrightarrow> lread h' k = lread h k"
      and c: "sb_cachedBestLevel sb' = sb_cachedBestLevel sb" for h' sb'
  proof (cases A)
    case (Cons e A')
    obtain q k qs where e: "e = (q, k, qs)" by (cases e)
    then have kl: "k \<noteq> l" "qs \<noteq> []"
      using core ne Cons by (auto simp: sb_core_def)
    obtain K where "lread h k = Some K" "level_ok (oread h) k K qs"
      using sb_core_entryD(1) [OF core, of q k qs] Cons e by auto
    then have "lread h' k = Some K" "\<not> level_empty K"
      using h' [OF kl(1)] level_ok_is_empty kl(2) by auto
    then show ?thesis using cached c Cons e kl by (simp add: needs_refresh_def)
  qed (use cached in \<open>simp add: needs_refresh_def\<close>)
  show ?thesis
  proof (cases "ps = []")
    case False
    then have ne': "\<forall>e \<in> set (A @ (p, l, ps) # B). g_queue e \<noteq> []" using ne by auto
    have id: "sb\<lparr>sb_cachedBestLevel := best_of (A @ (p, l, ps) # B)\<rparr> = sb"
      using cached by simp
    have "update_after_fill_or_cancel (Some l) h sb = Some (h, sb)"
      using L empty zero False refresh [of h sb] refresh_core [OF core ne'] id
      by (simp add: update_after_fill_or_cancel_def)
    then show ?thesis
      using False core ne' al cached by (auto simp: sb_ok_def)
  next
    case True
    have cov: "side_covers sb p" "side_lookup sb p = Some l" "containers_ok sb"
      using core by (auto simp: sb_core_def)
    obtain h' where h': "free_level l h = Some h'" "lread h' = (lread h)(l := None)" "oread h' = oread h"
      using free_level_Some [OF L(1)] by auto
    obtain sb' where sb': "drop_level p l h sb = Some (h', sb')" "containers_ok sb'"
      "side_config sb' = side_config sb"
      "\<forall>q. side_covers sb q \<longrightarrow> side_lookup sb' q = (if q = p then None else side_lookup sb q)"
      using drop_level_removed [OF cov(3,1,2) L(1) _ h'(1)] empty True by auto
    have core': "sb_core h' sb' (A @ B)"
      using sb_core_drop_level [OF core [unfolded True] sb'(2-4) h'(2,3)] .
    note cfg = side_configD [OF sb'(3)]
    have upd: "update_after_fill_or_cancel (Some l) h sb =
        (if sb_cachedBestLevel sb = Some l then map_option (Pair h') (refresh_cached_best h' sb')
         else Some (h', sb'))"
      using L True zero empty sb'(1) refresh [of h' sb', OF _ cfg(2)] h'(2)
      by (cases "refresh_cached_best h' sb'") (simp_all add: update_after_fill_or_cancel_def)
    moreover have "best_of (A @ B) = sb_cachedBestLevel sb" if "sb_cachedBestLevel sb \<noteq> Some l"
      using cached that by (cases A) auto
    ultimately have "\<exists>sb''. update_after_fill_or_cancel (Some l) h sb = Some (h', sb'') \<and>
        sb'' = sb'\<lparr>sb_cachedBestLevel := best_of (A @ B)\<rparr>"
      using refresh_core [OF core' ne] cfg(2) by auto
    then show ?thesis
      using True core' ne al cfg h' heap_ok_free_level [OF _ h'(1)] norders_upd(3) [OF h'(1)]
      by (auto simp: sb_ok_def alive_def)
  qed
qed

section \<open>The operations of the side book\<close>

subsection \<open>Reading the best level\<close>

lemma side_best_level_ok:
  assumes "sb_ok h sb G"
  shows "side_best_level h sb = Some (best_of G)"
proof (cases G)
  case (Cons e G')
  obtain p l ps where e: "e = (p, l, ps)" by (cases e)
  have core: "sb_core h sb G" and c: "sb_cachedBestLevel sb = Some l" "ps \<noteq> []"
    using assms Cons e by (auto simp: sb_ok_def)
  obtain L where "lread h l = Some L" "level_ok (oread h) l L ps"
    using sb_core_entryD(1) [OF core, of p l ps] Cons e by auto
  then show ?thesis
    using c Cons e level_ok_is_empty [of "oread h" l L ps] by (simp add: side_best_level_def)
qed (use assms in \<open>simp add: sb_ok_def side_best_level_def\<close>)

lemma best_order_ok:
  assumes "sb_ok h sb G"
  shows "best_order h sb = Some (first_or (g_orders G) None)"
proof (cases G)
  case Nil
  then show ?thesis using side_best_level_ok [OF assms] by (simp add: best_order_def)
next
  case (Cons e G')
  obtain p l ps where e: "e = (p, l, ps)" by (cases e)
  have core: "sb_core h sb G" and "ps \<noteq> []"
    using assms Cons e by (auto simp: sb_ok_def)
  then obtain q qs where ps: "ps = q # qs" by (cases ps) auto
  obtain L where "lread h l = Some L" "level_ok (oread h) l L ps"
    using sb_core_entryD(1) [OF core, of p l ps] Cons e by auto
  then show ?thesis
    using side_best_level_ok [OF assms] Cons e ps level_ok_front [of "oread h" l L q qs]
    by (simp add: best_order_def)
qed

definition crosses :: "Side \<Rightarrow> Price \<Rightarrow> Price \<Rightarrow> bool" where
  "crosses restingSide incoming resting =
     (if restingSide = Sell then incoming \<ge> resting else incoming \<le> resting)"

lemma price_crosses_ok:
  assumes "sb_ok h sb G"
  shows "price_crosses pr h sb =
    Some (case G of [] \<Rightarrow> False | e # _ \<Rightarrow> crosses (sb_side sb) pr (fst e))"
proof (cases G)
  case Nil
  then show ?thesis using side_best_level_ok [OF assms] by (simp add: price_crosses_def)
next
  case (Cons e G')
  obtain p l ps where e: "e = (p, l, ps)" by (cases e)
  have core: "sb_core h sb G" using assms by (simp add: sb_ok_def)
  obtain L where "lread h l = Some L" "pl_price L = p"
    using sb_core_entryD(1) [OF core, of p l ps] Cons e by auto
  then show ?thesis
    using side_best_level_ok [OF assms] Cons e by (simp add: price_crosses_def crosses_def)
qed

subsection \<open>Removing an order\<close>

definition g_remove :: "order_ptr \<Rightarrow> glevel list \<Rightarrow> glevel list" where
  "g_remove p G = filter (\<lambda>e. g_queue e \<noteq> []) (map (\<lambda>(pr, l, ps). (pr, l, remove1 p ps)) G)"

lemma g_remove_absent:
  assumes "p \<notin> set (g_orders A)" "\<forall>e \<in> set A. g_queue e \<noteq> []"
  shows "g_remove p A = A"
  using assms by (induction A) (auto simp: g_remove_def remove1_idem)

lemma g_remove_split:
  assumes "distinct (g_orders (A @ (pr, l, xs @ p # ys) # B))" "\<forall>e \<in> set (A @ B). g_queue e \<noteq> []"
  shows "g_remove p (A @ (pr, l, xs @ p # ys) # B) =
    A @ (if xs @ ys = [] then [] else [(pr, l, xs @ ys)]) @ B"
proof -
  have "g_remove p A = A" "g_remove p B = B"
    using assms by (auto intro!: g_remove_absent)
  then show ?thesis
    using assms by (simp add: g_remove_def remove1_append)
qed

lemma g_orders_remove: "g_orders (g_remove p G) = concat (map (remove1 p \<circ> g_queue) G)"
  by (induction G) (auto simp: g_remove_def)

lemma g_orders_remove_distinct:
  "distinct (g_orders G) \<Longrightarrow> g_orders (g_remove p G) = remove1 p (g_orders G)"
proof (induction G)
  case (Cons e G)
  then have "p \<in> set (g_queue e) \<Longrightarrow> remove1 p (g_orders G) = g_orders G"
    by (auto simp: remove1_idem disjoint_iff)
  with Cons show ?case
    by (auto simp: g_orders_remove remove1_append remove1_idem)
qed (simp add: g_remove_def)

text \<open>The level that holds an order.\<close>

lemma g_orders_split:
  assumes "p \<in> set (g_orders G)"
  obtains A pr l xs ys B where "G = A @ (pr, l, xs @ p # ys) # B"
proof -
  obtain e where "e \<in> set G" "p \<in> set (g_queue e)" using assms by (auto simp: g_orders_mem)
  then obtain A B xs ys where "G = A @ e # B" "g_queue e = xs @ p # ys"
    by (metis split_list)
  moreover obtain pr l ps where "e = (pr, l, ps)" by (cases e)
  ultimately show ?thesis using that by auto
qed

lemma remove_order_ok:
  assumes core: "sb_core h sb G" and ne: "\<forall>e \<in> set G. g_queue e \<noteq> []"
    and al: "\<And>q. q \<in> set (g_orders G) \<Longrightarrow> q \<noteq> p \<Longrightarrow> rem (oread h) q \<noteq> 0"
    and cached: "sb_cachedBestLevel sb = best_of G"
    and p: "p \<in> set (g_orders G)" "oread h p = Some x"
  shows "\<exists>h' sb'. remove_order (Some p) h sb = Some (h', sb') \<and> sb_ok h' sb' (g_remove p G) \<and>
    oread h' p = Some (detach_links x) \<and> payload (oread h') = payload (oread h) \<and>
    heap_frame h G h' (g_remove p G) \<and>
    sb_side sb' = sb_side sb \<and> side_covers sb' = side_covers sb \<and>
    (heap_ok h \<longrightarrow> heap_ok h') \<and> norders h' = norders h"
proof -
  obtain A pr l xs ys B where G: "G = A @ (pr, l, xs @ p # ys) # B"
    using g_orders_split [OF p(1)] by blast
  have mem: "(pr, l, xs @ p # ys) \<in> set G" using G by simp
  have d: "distinct (g_orders G)" using core by (simp add: sb_core_def)
  obtain L where L: "lread h l = Some L" "pl_price L = pr" "level_ok (oread h) l L (xs @ p # ys)"
    using sb_core_entryD(1) [OF core mem] by auto
  have xl: "o_priceLevel x = Some l"
    using sb_core_entryD(2) [OF core mem, of p] p(2) by auto
  obtain h1 L1 where h1: "unlink_order l p h = Some h1" "lread h1 = (lread h)(l \<mapsto> L1)"
    "pl_price L1 = pl_price L" "level_ok (oread h1) l L1 (xs @ ys)"
    "payload (oread h1) = payload (oread h)"
    "\<forall>q. q \<notin> set (xs @ p # ys) \<longrightarrow> oread h1 q = oread h q" "oread h1 p = Some (detach_links x)"
    using unlink_level_ok [OF L(1,3) p(2)] by blast
  have pay: "\<exists>y. oread h1 q = Some y \<and> o_price y = pr \<and> o_side y = sb_side sb"
    if qm: "q \<in> set (xs @ p # ys)" for q
  proof -
    obtain y where y: "oread h q = Some y" "o_price y = pr" "o_side y = sb_side sb"
      using sb_core_entryD(2) [OF core mem qm] by auto
    have "payload (oread h1) q = payload (oread h) q" using h1(5) by simp
    then obtain z where "oread h1 q = Some z" "detach_links z = detach_links y"
      using y(1) by (auto simp: payload_def)
    then show ?thesis
      using y by (metis detach_links_simps(5,6))
  qed
  have core1: "sb_core h1 sb (A @ (pr, l, xs @ ys) # B)"
  proof (rule sb_core_replace [OF core [unfolded G] h1(2)])
    show "pl_price L1 = pr" "level_ok (oread h1) l L1 (xs @ ys)" using h1 L by auto
    show "\<exists>x. oread h1 q = Some x \<and> o_price x = pr \<and> o_side x = sb_side sb"
      if "q \<in> set (xs @ ys)" for q using pay [of q] that by auto
    show "oread h1 q = oread h q" if "q \<notin> set (xs @ p # ys) \<union> set (xs @ ys)" for q
      using h1(6) that by auto
    show "set (xs @ ys) \<inter> set (g_orders (A @ B)) = {}" using d G by auto
  qed
  have al1: "alive h1 (g_orders (A @ (pr, l, xs @ ys) # B))"
    using al rem_payload [of "oread h1" _ "oread h"] h1(5) d G by (fastforce simp: alive_def)
  have cached1: "sb_cachedBestLevel sb = best_of (A @ (pr, l, xs @ ys) # B)"
    using cached G by (cases A) simp_all
  obtain h2 sb' where h2: "update_after_fill_or_cancel (Some l) h1 sb = Some (h2, sb')"
    "sb_ok h2 sb' (A @ (if xs @ ys = [] then [] else [(pr, l, xs @ ys)]) @ B)" "oread h2 = oread h1"
    "lread h2 = (if xs @ ys = [] then (lread h1)(l := None) else lread h1)"
    "sb_side sb' = sb_side sb" "side_covers sb' = side_covers sb"
    "heap_ok h1 \<longrightarrow> heap_ok h2" "norders h2 = norders h1"
    using update_after_ok [OF core1 _ al1 cached1] ne G by auto
  have G': "g_remove p G = A @ (if xs @ ys = [] then [] else [(pr, l, xs @ ys)]) @ B"
    unfolding G by (rule g_remove_split) (use d ne G in auto)
  have rm: "remove_order (Some p) h sb = Some (h2, sb')"
    using p(2) xl h1(1) h2(1) by (simp add: remove_order_def)
  have l_ab: "l \<notin> g_levels A \<union> g_levels B"
    using core G by (auto simp: sb_core_def g_levels_def)
  have "heap_frame h G h2 (g_remove p G)"
    unfolding heap_frame_def G' unfolding G
    using h2(3,4) h1(2,6) l_ab by (auto split: if_splits)
  then show ?thesis
    using rm h2 h1(5,7) G' keeps_heap_unlink [OF h1(1)] by (auto simp: keeps_heap_def)
qed


subsection \<open>A fill\<close>

lemma level_ok_reduce:
  assumes ok: "level_ok M l L ps" and p: "p \<in> set ps" "M p = Some x" "q \<le> o_remainingQuantity x"
  shows "level_ok (M(p \<mapsto> reduce q x)) l (decrease_total q L) ps"
proof -
  let ?M = "M(p \<mapsto> reduce q x)"
  obtain xs ys where ps: "ps = xs @ p # ys" using p(1) by (meson split_list)
  have d: "distinct ps" using ok by (simp add: level_ok_def)
  have dll: "dll ?M l prv zs nxt = dll M l prv zs nxt" for prv zs nxt
    by (induction zs arbitrary: prv) (use p(2) in auto)
  have "rem ?M p = rem M p - unat q"
    using p(2,3) by (simp add: rem_def unat_minus_le)
  moreover have "unat q \<le> rem M p"
    using p(2,3) by (simp add: rem_def word_le_nat_alt)
  moreover have "sum_list (map (rem ?M) zs) = sum_list (map (rem M) zs)" if "p \<notin> set zs" for zs
    using that by (induction zs) (auto simp: rem_def)
  then have "sum_list (map (rem ?M) xs) = sum_list (map (rem M) xs)"
    "sum_list (map (rem ?M) ys) = sum_list (map (rem M) ys)"
    using d ps by auto
  ultimately have "sum_list (map (rem ?M) ps) = sum_list (map (rem M) ps) - unat q"
    unfolding ps map_append list.map(2) sum_list_append sum_list.Cons by linarith
  then show ?thesis
    using ok unfolding level_ok_def dll by (simp add: unat_decrease_total)
qed

lemma sb_core_fill:
  assumes core: "sb_core h sb G" and mem: "(pr, l, ps) \<in> set G" "p \<in> set ps"
    and x: "oread h p = Some x" "q \<le> o_remainingQuantity x" and L: "lread h l = Some L"
  shows "sb_core (write_level l (decrease_total q L) (write_order p (reduce q x) h)) sb G"
proof -
  let ?h = "write_level l (decrease_total q L) (write_order p (reduce q x) h)"
  obtain A B where G: "G = A @ (pr, l, ps) # B" using mem(1) by (meson split_list)
  have lv: "pl_price L = pr" "level_ok (oread h) l L ps"
    using sb_core_entryD(1) [OF core mem(1)] L by auto
  show ?thesis
    unfolding G
  proof (rule sb_core_replace [OF core [unfolded G]])
    show "lread ?h = (lread h)(l \<mapsto> decrease_total q L)" by (simp add: heap_simps)
    show "pl_price (decrease_total q L) = pr" using lv by simp
    show "level_ok (oread ?h) l (decrease_total q L) ps"
      using level_ok_reduce [OF lv(2) mem(2) x] by (simp add: heap_simps)
    show "\<exists>y. oread ?h r = Some y \<and> o_price y = pr \<and> o_side y = sb_side sb" if "r \<in> set ps" for r
      using sb_core_entryD(2) [OF core mem(1), of r] sb_core_entryD(2) [OF core mem] that x(1)
      by (auto simp: heap_simps)
    show "oread ?h r = oread h r" if "r \<notin> set ps \<union> set ps" for r
      using that mem(2) by (auto simp: heap_simps)
    show "set ps \<inter> set (g_orders (A @ B)) = {}"
      using core G by (auto simp: sb_core_def)
  qed
qed

subsection \<open>Inserting an order\<close>

fun g_insert :: "Side \<Rightarrow> Price \<Rightarrow> level_ptr \<Rightarrow> order_ptr \<Rightarrow> glevel list \<Rightarrow> glevel list" where
  "g_insert side pr l p [] = [(pr, l, [p])]"
| "g_insert side pr l p ((pr', l', ps) # G) =
     (if pr' = pr then (pr', l', ps @ [p]) # G
      else if is_better_price side pr pr' then (pr, l, [p]) # (pr', l', ps) # G
      else (pr', l', ps) # g_insert side pr l p G)"

lemma g_insert_cases:
  assumes "best_first side (map g_level G)"
  obtains (old) A l' ps B where "G = A @ (pr, l', ps) # B"
      "\<And>l. g_insert side pr l p G = A @ (pr, l', ps @ [p]) # B"
    | (new) A B where "G = A @ B" "\<And>l. g_insert side pr l p G = A @ (pr, l, [p]) # B"
      "\<forall>e \<in> set A. is_better_price side (fst e) pr" "\<forall>e \<in> set B. is_better_price side pr (fst e)"
proof -
  have "(\<exists>A l' ps B. G = A @ (pr, l', ps) # B \<and>
      (\<forall>l. g_insert side pr l p G = A @ (pr, l', ps @ [p]) # B)) \<or>
    (\<exists>A B. G = A @ B \<and> (\<forall>l. g_insert side pr l p G = A @ (pr, l, [p]) # B) \<and>
      (\<forall>e \<in> set A. is_better_price side (fst e) pr) \<and>
      (\<forall>e \<in> set B. is_better_price side pr (fst e)))" (is "?old G \<or> ?new G")
    using assms
  proof (induction G)
    case (Cons e G)
    obtain pr' l' ps where e: "e = (pr', l', ps)" by (cases e)
    consider "pr' = pr" | "pr' \<noteq> pr" "is_better_price side pr pr'"
      | "pr' \<noteq> pr" "\<not> is_better_price side pr pr'" by blast
    then show ?case
    proof cases
      case 1
      have "?old (e # G)"
        by (rule exI [of _ "[]"], rule exI [of _ l'], rule exI [of _ ps], rule exI [of _ G])
          (use 1 e in simp)
      then show ?thesis by blast
    next
      case 2
      have "\<forall>e' \<in> set (e # G). is_better_price side pr (fst e')"
        using 2 Cons.prems e is_better_price_trans [OF 2(2)] by (auto simp: g_level_def)
      then have "?new (e # G)"
        by (intro exI [of _ "[]"] exI [of _ "e # G"]) (use 2 e in simp)
      then show ?thesis by blast
    next
      case 3
      then have b: "is_better_price side pr' pr" using is_better_price_linear [of side pr pr'] by auto
      have "?old G \<or> ?new G" using Cons by simp
      then show ?thesis
      proof
        assume "?old G"
        then obtain A l2 ps2 B where "G = A @ (pr, l2, ps2) # B"
          "\<forall>l. g_insert side pr l p G = A @ (pr, l2, ps2 @ [p]) # B" by blast
        then have "?old (e # G)"
          by (intro exI [of _ "e # A"] exI [of _ l2] exI [of _ ps2] exI [of _ B]) (use 3 e in simp)
        then show ?thesis by blast
      next
        assume "?new G"
        then obtain A B where "G = A @ B" "\<forall>l. g_insert side pr l p G = A @ (pr, l, [p]) # B"
          "\<forall>e \<in> set A. is_better_price side (fst e) pr" "\<forall>e \<in> set B. is_better_price side pr (fst e)"
          by blast
        then have "?new (e # G)"
          by (intro exI [of _ "e # A"] exI [of _ B]) (use 3 e b in simp)
        then show ?thesis by blast
      qed
    qed
  qed simp
  then show ?thesis using old new by blast
qed

lemma best_of_g_insert:
  "best_of (g_insert side pr l p G) = (case G of [] \<Rightarrow> Some l
     | (pr', l', ps) # _ \<Rightarrow> Some (if is_better_price side pr pr' then l else l'))"
  by (cases G) auto

text \<open>The quantity resting at a price.\<close>

definition level_qty :: "(order_ptr \<Rightarrow> Order option) \<Rightarrow> Price \<Rightarrow> glevel list \<Rightarrow> nat" where
  "level_qty M pr G = sum_list (map (\<lambda>e. if fst e = pr then sum_list (map (rem M) (g_queue e)) else 0) G)"


lemma level_qty_split:
  assumes "best_first side (map g_level (A @ (pr, l, ps) # B))"
  shows "level_qty M pr (A @ (pr, l, ps) # B) = sum_list (map (rem M) ps)"
proof -
  have "\<forall>e \<in> set A. fst e \<noteq> pr" "\<forall>e \<in> set B. fst e \<noteq> pr"
    using best_first_distinct [OF assms] by (auto simp: g_level_def image_iff)
  moreover have "level_qty M pr C = 0" if "\<forall>e \<in> set C. fst e \<noteq> pr" for C
    using that by (induction C) (auto simp: level_qty_def)
  ultimately show ?thesis by (simp add: level_qty_def)
qed

lemma alive_length_le: "\<forall>q \<in> set ps. rem M q \<noteq> 0 \<Longrightarrow> length ps \<le> sum_list (map (rem M) ps)"
  by (induction ps) auto

text \<open>
  After \<open>get_or_create_level_for_price\<close> and \<open>push_back\<close>, up to the assignment to the cache.
\<close>

lemma insert_core:
  assumes ok: "sb_ok h sb G" "heap_ok h" and p: "oread h p = Some x" "p \<notin> set (g_orders G)"
    and x: "side_covers sb (o_price x)" "o_side x = sb_side sb" "o_remainingQuantity x \<noteq> 0"
    and fits: "level_qty (oread h) (o_price x) G + unat (o_remainingQuantity x) < 2 ^ 64"
  shows "\<exists>l h1 sb1 h2 L. get_or_create_level_for_price (o_price x) h sb = (Some l, h1, sb1) \<and>
    push_back l (Some p) h1 = Some h2 \<and> lread h2 l = Some L \<and> pl_price L = o_price x \<and>
    unat (pl_totalQuantity L) = level_qty (oread h) (o_price x) G + unat (o_remainingQuantity x) \<and>
    sb_core h2 sb1 (g_insert (sb_side sb) (o_price x) l p G) \<and>
    side_config sb1 = side_config sb \<and> payload (oread h2) = payload (oread h) \<and>
    (\<exists>y. oread h2 p = Some y \<and> o_priceLevel y = Some l) \<and>
    heap_frame h G h2 (g_insert (sb_side sb) (o_price x) l p G) \<and>
    heap_ok h2 \<and> norders h2 = norders h"
proof -
  let ?pr = "o_price x"
  have core: "sb_core h sb G" and ne: "\<forall>e \<in> set G. g_queue e \<noteq> []" and al: "alive h (g_orders G)"
    using ok(1) by (auto simp: sb_ok_def)
  have c: "containers_ok sb" "best_first (sb_side sb) (map g_level G)"
    "\<And>q k. side_covers sb q \<Longrightarrow> side_lookup sb q = Some k \<longleftrightarrow> (q, k) \<in> set (map g_level G)"
    using core by (auto simp: sb_core_def)
  have push: "\<exists>h2 L. push_back l (Some p) h1 = Some h2 \<and> lread h2 l = Some L \<and> pl_price L = ?pr \<and>
      unat (pl_totalQuantity L) = level_qty (oread h) ?pr G + unat (o_remainingQuantity x) \<and>
      sb_core h2 sb1 (A @ (?pr, l, ps @ [p]) # B) \<and> payload (oread h2) = payload (oread h) \<and>
      (\<exists>y. oread h2 p = Some y \<and> o_priceLevel y = Some l) \<and>
      (\<forall>q. q \<notin> set (ps @ [p]) \<longrightarrow> oread h2 q = oread h q) \<and>
      (\<forall>k. k \<noteq> l \<longrightarrow> lread h2 k = lread h1 k) \<and> heap_ok h2 \<and> norders h2 = norders h1"
    if core1: "sb_core h1 sb1 (A @ (?pr, l, ps) # B)" and h1: "oread h1 = oread h" "heap_ok h1"
      and side1: "sb_side sb1 = sb_side sb" and sub: "set (g_orders (A @ (?pr, l, ps) # B)) = set (g_orders G)"
      and qty: "sum_list (map (rem (oread h)) ps) = level_qty (oread h) ?pr G"
    for h1 sb1 A B l ps
  proof -
    obtain L where L: "lread h1 l = Some L" "pl_price L = ?pr" "level_ok (oread h1) l L ps"
      using sb_core_entryD(1) [OF core1, of ?pr l ps] by auto
    have tot: "unat (pl_totalQuantity L) = level_qty (oread h) ?pr G"
      using L(3) qty h1(1) by (simp add: level_ok_def)
    have p_ps: "p \<notin> set (g_orders (A @ (?pr, l, ps) # B))" using p(2) sub by blast
    have "\<forall>q \<in> set ps. rem (oread h) q \<noteq> 0" using al sub by (auto simp: alive_def)
    then have "length ps \<le> level_qty (oread h) ?pr G" using alive_length_le qty by metis
    then have cnt: "Suc (length ps) < 2 ^ 64"
      using fits x(3) by (simp add: unat_gt_0 [symmetric] del: unat_gt_0)
    have px: "oread h1 p = Some x" using p(1) h1(1) by simp
    obtain h2 L2 where h2: "push_back l (Some p) h1 = Some h2" "lread h2 = (lread h1)(l \<mapsto> L2)"
      "pl_price L2 = pl_price L" "level_ok (oread h2) l L2 (ps @ [p])"
      "payload (oread h2) = payload (oread h1)"
      "\<forall>q. q \<notin> set (ps @ [p]) \<longrightarrow> oread h2 q = oread h1 q"
      "pl_totalQuantity L2 = pl_totalQuantity L + o_remainingQuantity x"
      using push_back_level_ok [OF L(1,3) px _ _ cnt] p_ps tot fits by auto
    have "sb_core h2 sb1 (A @ (?pr, l, ps @ [p]) # B)"
    proof (rule sb_core_replace [OF core1 h2(2)])
      show "pl_price L2 = ?pr" "level_ok (oread h2) l L2 (ps @ [p])" using h2 L by auto
      show "\<exists>y. oread h2 q = Some y \<and> o_price y = ?pr \<and> o_side y = sb_side sb1"
        if qm: "q \<in> set (ps @ [p])" for q
      proof -
        obtain y where y: "oread h1 q = Some y" "o_price y = ?pr" "o_side y = sb_side sb1"
          using sb_core_entryD(2) [OF core1, of ?pr l ps q] qm px x(2) side1 by auto
        have "payload (oread h2) q = payload (oread h1) q" using h2(5) by simp
        then obtain z where "oread h2 q = Some z" "detach_links z = detach_links y"
          using y(1) by (auto simp: payload_def)
        then show ?thesis using y by (metis detach_links_simps(5,6))
      qed
      show "oread h2 q = oread h1 q" if "q \<notin> set ps \<union> set (ps @ [p])" for q
        using h2(6) that by auto
      show "set (ps @ [p]) \<inter> set (g_orders (A @ B)) = {}"
        using core1 p_ps by (auto simp: sb_core_def)
    qed
    moreover have "unat (pl_totalQuantity L2) = level_qty (oread h) ?pr G + unat (o_remainingQuantity x)"
      using h2(7) tot fits by (simp add: unat_plus_no_overflow)
    moreover have "\<exists>y. oread h2 p = Some y \<and> o_priceLevel y = Some l"
      using h2(4) by (auto simp: level_ok_def)
    ultimately show ?thesis
      using h2 h1 L keeps_heap_push_back [OF h2(1)] by (auto simp: keeps_heap_def)
  qed
  from c(2) show ?thesis
  proof (cases rule: g_insert_cases [of _ _ ?pr p])
    case (old A l ps B)
    then have "side_lookup sb ?pr = Some l" using c(3) x(1) by simp
    from side.found [OF c(1) x(1) this, of h] obtain sb1 where
      sb1: "get_or_create_level_for_price ?pr h sb = (Some l, h, sb1)" "containers_ok sb1"
        "side_config sb1 = side_config sb" "side_lookup sb1 = side_lookup sb" by blast
    have core1: "sb_core h sb1 (A @ (?pr, l, ps) # B)"
      using core sb1 side_configD [OF sb1(3)] old(1) by (auto simp: sb_core_def)
    have "sum_list (map (rem (oread h)) ps) = level_qty (oread h) ?pr G"
      using c(2) unfolding old(1) by (rule level_qty_split [symmetric])
    from push [OF core1 refl ok(2) _ _ this] obtain h2 L where
      h2: "push_back l (Some p) h = Some h2" "lread h2 l = Some L" "pl_price L = ?pr"
        "unat (pl_totalQuantity L) = level_qty (oread h) ?pr G + unat (o_remainingQuantity x)"
        "sb_core h2 sb1 (A @ (?pr, l, ps @ [p]) # B)" "payload (oread h2) = payload (oread h)"
        "\<exists>y. oread h2 p = Some y \<and> o_priceLevel y = Some l"
        "\<forall>q. q \<notin> set (ps @ [p]) \<longrightarrow> oread h2 q = oread h q"
        "\<forall>k. k \<noteq> l \<longrightarrow> lread h2 k = lread h k" "heap_ok h2" "norders h2 = norders h"
      using old(1) side_configD [OF sb1(3)] by auto
    have "heap_frame h G h2 (A @ (?pr, l, ps @ [p]) # B)"
      using h2 unfolding heap_frame_def old(1) by auto
    then show ?thesis
      using sb1(1,3) h2 old(2) by (intro exI [of _ l] exI [of _ h] exI [of _ sb1] exI [of _ h2] exI [of _ L]) simp
  next
    case (new A B)
    have "(?pr, k) \<notin> set (map g_level G)" for k
      using new(1,3,4) by (force simp: g_level_def)
    then have none: "side_lookup sb ?pr = None" using c(3) [OF x(1)] by (metis not_Some_eq)
    obtain l h1 where n: "new_level ?pr h = (l, h1)" by (cases "new_level ?pr h")
    have nn: "norders h1 = norders h"
      using n by (auto simp: new_level_def norders_def Let_def split: prod.splits)
    note n' = new_level_props [OF ok(2) n]
    from side.created [OF c(1) x(1) none n] obtain sb1 where
      sb1: "get_or_create_level_for_price ?pr h sb = (Some l, h1, sb1)" "containers_ok sb1"
        "side_config sb1 = side_config sb"
        "\<forall>q. side_covers sb q \<longrightarrow> side_lookup sb1 q = (if q = ?pr then Some l else side_lookup sb q)"
      by blast
    have core1: "sb_core h1 sb1 (A @ (?pr, l, []) # B)"
      by (rule sb_core_new_level [OF core [unfolded new(1)] x(1) new(3,4) sb1(2-4) n'(2-4)])
    have "level_qty (oread h) ?pr C = 0" if "\<forall>e \<in> set C. fst e \<noteq> ?pr" for C
      using that by (induction C) (auto simp: level_qty_def)
    moreover have "\<forall>e \<in> set G. fst e \<noteq> ?pr" using new(1,3,4) by auto
    ultimately have "sum_list (map (rem (oread h)) []) = level_qty (oread h) ?pr G" by simp
    from push [OF core1 n'(4,1) _ _ this] obtain h2 L where
      h2: "push_back l (Some p) h1 = Some h2" "lread h2 l = Some L" "pl_price L = ?pr"
        "unat (pl_totalQuantity L) = level_qty (oread h) ?pr G + unat (o_remainingQuantity x)"
        "sb_core h2 sb1 (A @ (?pr, l, [p]) # B)" "payload (oread h2) = payload (oread h)"
        "\<exists>y. oread h2 p = Some y \<and> o_priceLevel y = Some l"
        "\<forall>q. q \<noteq> p \<longrightarrow> oread h2 q = oread h q"
        "\<forall>k. k \<noteq> l \<longrightarrow> lread h2 k = lread h1 k" "heap_ok h2" "norders h2 = norders h1"
      using new(1) side_configD [OF sb1(3)] by auto
    have "heap_frame h G h2 (A @ (?pr, l, [p]) # B)"
      using h2 n'(2,3) unfolding heap_frame_def new(1) by auto
    then show ?thesis
      using sb1(1,3) h2 nn new(2)
      by (intro exI [of _ l] exI [of _ h1] exI [of _ sb1] exI [of _ h2] exI [of _ L]) simp
  qed
qed


lemma g_orders_insert: "\<exists>xs ys. g_orders G = xs @ ys \<and> g_orders (g_insert side pr l p G) = xs @ p # ys"
proof (induction G)
  case Nil
  then show ?case by simp
next
  case (Cons e G)
  obtain pr' l' ps where e: "e = (pr', l', ps)" by (cases e)
  obtain xs ys where "g_orders G = xs @ ys" "g_orders (g_insert side pr l p G) = xs @ p # ys"
    using Cons by blast
  then show ?case
    using e by (auto intro: exI [of _ "ps @ xs"] exI [of _ "[]"] exI [of _ ps])
qed

lemma set_g_orders_insert [simp]:
  "set (g_orders (g_insert side pr l p G)) = insert p (set (g_orders G))"
  using g_orders_insert [of G side pr l p] by auto

lemma insert_resting_order_ok:
  assumes ok: "sb_ok h sb G" "heap_ok h" and p: "oread h p = Some x" "p \<notin> set (g_orders G)"
    and x: "side_covers sb (o_price x)" "o_side x = sb_side sb" "o_remainingQuantity x \<noteq> 0"
    and fits: "level_qty (oread h) (o_price x) G + unat (o_remainingQuantity x) < 2 ^ 64"
  shows "\<exists>h' sb' l k L y. insert_resting_order p h sb = Some (h', sb') \<and>
    sb_ok h' sb' (g_insert (sb_side sb) (o_price x) l p G) \<and>
    oread h' p = Some y \<and> o_priceLevel y = Some k \<and> lread h' k = Some L \<and>
    unat (pl_totalQuantity L) = level_qty (oread h) (o_price x) G + unat (o_remainingQuantity x) \<and>
    payload (oread h') = payload (oread h) \<and>
    heap_frame h G h' (g_insert (sb_side sb) (o_price x) l p G) \<and>
    sb_side sb' = sb_side sb \<and> side_covers sb' = side_covers sb \<and>
    heap_ok h' \<and> norders h' = norders h"
proof -
  let ?pr = "o_price x" and ?side = "sb_side sb"
  obtain l h1 sb1 h2 L y where i:
    "get_or_create_level_for_price ?pr h sb = (Some l, h1, sb1)"
    "push_back l (Some p) h1 = Some h2" "lread h2 l = Some L" "pl_price L = ?pr"
    "unat (pl_totalQuantity L) = level_qty (oread h) ?pr G + unat (o_remainingQuantity x)"
    "sb_core h2 sb1 (g_insert ?side ?pr l p G)" "side_config sb1 = side_config sb"
    "payload (oread h2) = payload (oread h)" "oread h2 p = Some y" "o_priceLevel y = Some l"
    "heap_frame h G h2 (g_insert ?side ?pr l p G)" "heap_ok h2" "norders h2 = norders h"
    using insert_core [OF assms] by blast
  note cfg = side_configD [OF i(7)]
  have cached: "sb_cachedBestLevel sb1 = best_of G"
    using ok(1) cfg(2) by (simp add: sb_ok_def)
  define better where "better = (case G of [] \<Rightarrow> True | e # _ \<Rightarrow> is_better_price ?side ?pr (fst e))"
  have C: "\<exists>C. lread h2 l0 = Some C \<and> pl_price C = fst e" if G: "G = e # G'" "l0 = snd (g_level e)" for e G' l0
  proof -
    obtain p0 ps0 where e: "e = (p0, l0, ps0)" using G(2) by (cases e) auto
    have "\<exists>qs. (p0, l0, qs) \<in> set (g_insert ?side ?pr l p G)" using G(1) e by auto
    then show ?thesis using sb_core_entryD(1) [OF i(6)] e by fastforce
  qed
  have test: "(case sb_cachedBestLevel sb1 of None \<Rightarrow> Some True
      | Some c \<Rightarrow> do { C \<leftarrow> lread h2 c; Some (is_better_price (sb_side sb1) (pl_price L) (pl_price C)) })
      = Some better"
    using C cached i(4) cfg(1) by (cases G) (fastforce simp: better_def)+
  have ins: "insert_resting_order p h sb =
      Some (h2, if better then sb1\<lparr>sb_cachedBestLevel := Some l\<rparr> else sb1)" (is "_ = Some (h2, ?sb')")
    using p(1) i(1,2,3) test by (simp add: insert_resting_order_def)
  have best: "best_of (g_insert ?side ?pr l p G) = sb_cachedBestLevel ?sb'"
    using cached by (auto simp: best_of_g_insert better_def split: list.split)
  have "rem (oread h) p \<noteq> 0" using p(1) x(3) by (simp add: rem_def unat_eq_0)
  then have "alive h2 (g_orders (g_insert ?side ?pr l p G))"
    using ok(1) rem_payload [of "oread h2" _ "oread h"] i(8) by (auto simp: sb_ok_def alive_def)
  moreover have "\<forall>e \<in> set (g_insert ?side ?pr l p G). g_queue e \<noteq> []"
  proof -
    have "list_all (\<lambda>e. g_queue e \<noteq> []) G \<Longrightarrow>
        list_all (\<lambda>e. g_queue e \<noteq> []) (g_insert ?side ?pr l p G)"
      by (induction ?side ?pr l p G rule: g_insert.induct) auto
    then show ?thesis using ok(1) by (simp add: sb_ok_def list_all_iff)
  qed
  ultimately have "sb_ok h2 ?sb' (g_insert ?side ?pr l p G)"
    using i(6) best by (simp add: sb_ok_def)
  then show ?thesis
    using ins i cfg
    by (intro exI [of _ h2] exI [of _ ?sb'] exI [of _ l] exI [of _ l] exI [of _ L] exI [of _ y]) simp
qed

subsection \<open>The number of orders\<close>

text \<open>No operation of a side book creates or destroys an order.\<close>

lemma norders_drop_level: "drop_level p l h sb = Some (h', sb') \<Longrightarrow> norders h' = norders h"
  by (auto simp: drop_level_def ladder_remove_level_if_empty_def far_remove_level_if_empty_def
      clear_slot_def Let_def bind_eq_Some_conv
      split: if_split_asm option.split_asm dest!: norders_upd(3))

lemma norders_update_after:
  "update_after_fill_or_cancel lo h sb = Some (h', sb') \<Longrightarrow> norders h' = norders h"
  by (auto simp: update_after_fill_or_cancel_def bind_eq_Some_conv Let_def
      split: if_split_asm option.split_asm dest!: norders_drop_level)

lemma norders_remove_order: "remove_order po h sb = Some (h', sb') \<Longrightarrow> norders h' = norders h"
  by (auto simp: remove_order_def bind_eq_Some_conv keeps_heap_def
      split: option.split_asm dest!: norders_update_after keeps_heap_unlink)

end
