(* ===== verification/SequenceGenerator.thy ===== *)
theory SequenceGenerator
  imports CoreTypes
begin

text \<open>
  \<open>src/include/core/SequenceGenerator.hpp\<close> and \<open>src/src/core/SequenceGenerator.cpp\<close>: the three
  counters that number events, engine sequences and trades.  \<open>stamped sg evs sg'\<close> says that the
  events \<open>evs\<close> took exactly the numbers between the two states, in order and without a gap.
\<close>

section \<open>The code\<close>

record SequenceState =
  ss_nextSequence :: EngineSequence
  ss_nextTradeId :: TradeId
  ss_nextEventId :: EventId

record SequenceGenerator =
  sg_nextSequence :: EngineSequence
  sg_nextTradeId :: TradeId
  sg_nextEventId :: EventId

definition initial_sequence_generator :: SequenceGenerator where
  "initial_sequence_generator = \<lparr>sg_nextSequence = 1, sg_nextTradeId = 1, sg_nextEventId = 1\<rparr>"

definition next_sequence :: "SequenceGenerator \<Rightarrow> EngineSequence \<times> SequenceGenerator" where
  "next_sequence sg = (sg_nextSequence sg, sg\<lparr>sg_nextSequence := sg_nextSequence sg + 1\<rparr>)"

definition next_trade_id :: "SequenceGenerator \<Rightarrow> TradeId \<times> SequenceGenerator" where
  "next_trade_id sg = (sg_nextTradeId sg, sg\<lparr>sg_nextTradeId := sg_nextTradeId sg + 1\<rparr>)"

definition next_event_id :: "SequenceGenerator \<Rightarrow> EventId \<times> SequenceGenerator" where
  "next_event_id sg = (sg_nextEventId sg, sg\<lparr>sg_nextEventId := sg_nextEventId sg + 1\<rparr>)"

definition sequence_snapshot :: "SequenceGenerator \<Rightarrow> SequenceState" where
  "sequence_snapshot sg = \<lparr>ss_nextSequence = sg_nextSequence sg,
     ss_nextTradeId = sg_nextTradeId sg, ss_nextEventId = sg_nextEventId sg\<rparr>"

definition sequence_restore :: "SequenceState \<Rightarrow> SequenceGenerator" where
  "sequence_restore st = \<lparr>sg_nextSequence = ss_nextSequence st,
     sg_nextTradeId = ss_nextTradeId st, sg_nextEventId = ss_nextEventId st\<rparr>"

lemma sequence_restore_snapshot [simp]: "sequence_restore (sequence_snapshot sg) = sg"
  by (simp add: sequence_restore_def sequence_snapshot_def)

section \<open>Numbering events\<close>

text \<open>The events and engine sequences are drawn together, the event id first.\<close>

definition next_stamp :: "SequenceGenerator \<Rightarrow> EventId \<times> EngineSequence \<times> SequenceGenerator" where
  "next_stamp sg = (let (e, sg) = next_event_id sg; (s, sg) = next_sequence sg in (e, s, sg))"

definition advance :: "nat \<Rightarrow> nat \<Rightarrow> SequenceGenerator \<Rightarrow> SequenceGenerator" where
  "advance n t sg = \<lparr>sg_nextSequence = sg_nextSequence sg + of_nat n,
     sg_nextTradeId = sg_nextTradeId sg + of_nat t, sg_nextEventId = sg_nextEventId sg + of_nat n\<rparr>"

lemma advance_0 [simp]: "advance 0 0 sg = sg"
  by (simp add: advance_def)

lemma advance_advance [simp]: "advance n t (advance n' t' sg) = advance (n' + n) (t' + t) sg"
  by (simp add: advance_def)

lemma advance_sel [simp]:
  "sg_nextSequence (advance n t sg) = sg_nextSequence sg + of_nat n"
  "sg_nextTradeId (advance n t sg) = sg_nextTradeId sg + of_nat t"
  "sg_nextEventId (advance n t sg) = sg_nextEventId sg + of_nat n"
  by (simp_all add: advance_def)

lemma next_stamp_advance [simp]:
  "next_stamp sg = (sg_nextEventId sg, sg_nextSequence sg, advance 1 0 sg)"
  by (simp add: next_stamp_def next_event_id_def next_sequence_def advance_def Let_def)

lemma next_trade_id_advance [simp]: "next_trade_id sg = (sg_nextTradeId sg, advance 0 1 sg)"
  by (simp add: next_trade_id_def advance_def)

fun trade_id_of :: "EngineEvent \<Rightarrow> TradeId list" where
  "trade_id_of (TradeExecuted e s t sy m k p q) = [t]"
| "trade_id_of _ = []"

definition trade_ids :: "EngineEvent list \<Rightarrow> TradeId list" where
  "trade_ids evs = concat (map trade_id_of evs)"

lemma trade_ids_simps [simp]:
  "trade_ids [] = []" "trade_ids (e # evs) = trade_id_of e @ trade_ids evs"
  "trade_ids (evs @ evs') = trade_ids evs @ trade_ids evs'"
  by (simp_all add: trade_ids_def)

definition id_range :: "u64 \<Rightarrow> nat \<Rightarrow> u64 list" where
  "id_range a n = map (\<lambda>i. a + of_nat i) [0..<n]"

lemma id_range_simps [simp]: "id_range a 0 = []" "id_range a (Suc n) = a # id_range (a + 1) n"
  "length (id_range a n) = n"
proof -
  have "map (\<lambda>i. a + of_nat i) [0..<Suc n] = a # map (\<lambda>i. a + of_nat (Suc i)) [0..<n]"
    by (simp add: upt_conv_Cons map_Suc_upt [symmetric] del: upt_Suc)
  then show "id_range a (Suc n) = a # id_range (a + 1) n"
    by (simp add: id_range_def add.assoc)
qed (simp_all add: id_range_def)

lemma id_range_append: "id_range a (m + n) = id_range a m @ id_range (a + of_nat m) n"
  by (induction m arbitrary: a) (simp_all add: add.assoc)

text \<open>Below the wrap-around no two of the numbers are equal.\<close>

lemma id_range_distinct: "n < 2 ^ 64 \<Longrightarrow> distinct (id_range a n)"
proof -
  assume n: "n < 2 ^ 64"
  have "inj_on (\<lambda>i. a + of_nat i :: u64) {0..<n}"
  proof (rule inj_onI)
    fix i j assume ij: "i \<in> {0..<n}" "j \<in> {0..<n}" "a + of_nat i = (a + of_nat j :: u64)"
    then have "unat (of_nat i :: u64) = unat (of_nat j :: u64)" by simp
    moreover have "unat (of_nat k :: u64) = k" if "k < n" for k
      using that n by (simp add: unat_of_nat take_bit_nat_eq_self)
    ultimately show "i = j" using ij(1,2) by (metis atLeastLessThan_iff)
  qed
  then show ?thesis by (simp add: id_range_def distinct_map)
qed

definition stamped :: "SequenceGenerator \<Rightarrow> EngineEvent list \<Rightarrow> SequenceGenerator \<Rightarrow> bool" where
  "stamped sg evs sg' \<longleftrightarrow>
     map event_id evs = id_range (sg_nextEventId sg) (length evs) \<and>
     map event_sequence evs = id_range (sg_nextSequence sg) (length evs) \<and>
     trade_ids evs = id_range (sg_nextTradeId sg) (length (trade_ids evs)) \<and>
     sg' = advance (length evs) (length (trade_ids evs)) sg"

lemma stamped_Nil [simp]: "stamped sg [] sg"
  by (simp add: stamped_def)

lemma stamped_append: "stamped sg evs sg1 \<Longrightarrow> stamped sg1 evs' sg2 \<Longrightarrow> stamped sg (evs @ evs') sg2"
  by (auto simp: stamped_def id_range_append)

end
