(* ===== verification/OrderBook.thy ===== *)
theory OrderBook
  imports SideBook SequenceGenerator
begin

text \<open>
  \<open>src/include/core/OrderBook.hpp\<close> and \<open>src/src/core/OrderBook.cpp\<close>: a symbol's two sides, the
  two indexes of its orders and the matching loop.  The record holds the heap of the book as
  well, since the book is the sole owner of its orders and levels.
\<close>

section \<open>The code\<close>

record OrderBook =
  ob_symbolConfig :: SymbolConfig
  ob_bids :: SideBook
  ob_asks :: SideBook
  ob_orderById :: "(OrderId \<times> order_ptr) list"
  ob_clientOrderIdToOrderId :: "(ClientOrderId \<times> OrderId) list"
  ob_lastTradePrice :: "Price option"
  ob_heap :: book_heap

definition make_order_book :: "SymbolConfig \<Rightarrow> OrderBook" where
  "make_order_book c = \<lparr>ob_symbolConfig = c,
     ob_bids = make_side_book Buy (sc_tickSize c) (sc_initialBaseTick c)
                 (unat (sc_ringCapacityTicks c)),
     ob_asks = make_side_book Sell (sc_tickSize c) (sc_initialBaseTick c)
                 (unat (sc_ringCapacityTicks c)),
     ob_orderById = [], ob_clientOrderIdToOrderId = [], ob_lastTradePrice = None,
     ob_heap = empty_heap\<rparr>"

definition optional_order_id :: "OrderId \<Rightarrow> OrderId option" where
  "optional_order_id i = (if i = 0 then None else Some i)"

definition make_rejection ::
    "SequenceGenerator \<Rightarrow> CommandId \<Rightarrow> OrderId option \<Rightarrow> UserId \<Rightarrow> SymbolId \<Rightarrow> RejectReason \<Rightarrow>
     EngineEvent \<times> SequenceGenerator" where
  "make_rejection sg c oid u sy r =
     (let (e, s, sg) = next_stamp sg in (OrderRejected e s c oid u sy r, sg))"

definition filled_quantity :: "Order \<Rightarrow> Quantity" where
  "filled_quantity x = o_originalQuantity x - o_remainingQuantity x"

definition book_for_side :: "OrderBook \<Rightarrow> Side \<Rightarrow> SideBook" where
  "book_for_side ob s = (if s = Buy then ob_bids ob else ob_asks ob)"

text \<open>\<open>opposing_book(b, s)\<close> is \<open>book_for_side\<close> of the opposite side.\<close>

definition opposing_book :: "OrderBook \<Rightarrow> Side \<Rightarrow> SideBook" where
  "opposing_book ob s = (if s = Buy then ob_asks ob else ob_bids ob)"

text \<open>The effect of an operation on the book of a side: the side book and the heap change.\<close>

definition set_book :: "Side \<Rightarrow> book_heap \<times> SideBook \<Rightarrow> OrderBook \<Rightarrow> OrderBook" where
  "set_book s hs ob =
     (if s = Buy then ob\<lparr>ob_heap := fst hs, ob_bids := snd hs\<rparr>
      else ob\<lparr>ob_heap := fst hs, ob_asks := snd hs\<rparr>)"

definition crosses_level :: "Side \<Rightarrow> Price \<Rightarrow> Price \<Rightarrow> bool" where
  "crosses_level restingSide incomingPrice restingPrice =
     (if restingSide = Sell then incomingPrice \<ge> restingPrice else incomingPrice \<le> restingPrice)"

text \<open>
  \<open>active_levels_sorted\<close>: the non-empty levels of the ladder and of the far map, sorted by
  price with the comparison of the side.
\<close>

fun active_levels :: "book_heap \<Rightarrow> level_ptr option list \<Rightarrow> PriceLevel list option" where
  "active_levels h [] = Some []"
| "active_levels h (None # ls) = active_levels h ls"
| "active_levels h (Some l # ls) = do {
     L \<leftarrow> lread h l;
     Ls \<leftarrow> active_levels h ls;
     Some (if level_empty L then Ls else L # Ls) }"

definition sort_levels :: "Side \<Rightarrow> PriceLevel list \<Rightarrow> PriceLevel list" where
  "sort_levels s Ls = (if s = Buy then sort_key (\<lambda>L. - pl_price L) Ls else sort_key pl_price Ls)"

definition active_levels_sorted :: "book_heap \<Rightarrow> SideBook \<Rightarrow> PriceLevel list option" where
  "active_levels_sorted h sb = do {
     Ls \<leftarrow> active_levels h (rl_slots (sb_ringPriceLadder sb) @
            map (Some \<circ> snd) (fm_levels (sb_farPriceMap sb)));
     Some (sort_levels (sb_side sb) Ls) }"

fun crossing_lots :: "Side \<Rightarrow> Price \<Rightarrow> u64 \<Rightarrow> u64 \<Rightarrow> PriceLevel list \<Rightarrow> u64" where
  "crossing_lots s incomingPrice stopAtLots acc [] = acc"
| "crossing_lots s incomingPrice stopAtLots acc (L # Ls) =
     (if \<not> crosses_level s incomingPrice (pl_price L) then acc
      else let lots = pl_totalQuantity L in
        if (-1) - acc < lots then -1
        else let acc = acc + lots in
          if acc \<ge> stopAtLots then acc else crossing_lots s incomingPrice stopAtLots acc Ls)"

definition available_crossing_lots :: "book_heap \<Rightarrow> SideBook \<Rightarrow> Price \<Rightarrow> u64 \<Rightarrow> u64 option" where
  "available_crossing_lots h sb incomingPrice stopAtLots = do {
     Ls \<leftarrow> active_levels_sorted h sb;
     Some (crossing_lots (sb_side sb) incomingPrice stopAtLots 0 Ls) }"

definition matching_price_for_command :: "PlaceOrderCommand \<Rightarrow> Price" where
  "matching_price_for_command cmd =
     (if pc_orderType cmd = Market then (if pc_side cmd = Buy then price_max else price_min)
      else pc_price cmd)"

subsection \<open>Lookups\<close>

definition find_order :: "OrderBook \<Rightarrow> OrderId \<Rightarrow> order_ptr option" where
  "find_order ob i = um_find (ob_orderById ob) i"

definition has_order :: "OrderBook \<Rightarrow> OrderId \<Rightarrow> bool" where
  "has_order ob i \<longleftrightarrow> find_order ob i \<noteq> None"

definition best_bid :: "OrderBook \<Rightarrow> level_ptr option option" where
  "best_bid ob = side_best_level (ob_heap ob) (ob_bids ob)"

definition best_ask :: "OrderBook \<Rightarrow> level_ptr option option" where
  "best_ask ob = side_best_level (ob_heap ob) (ob_asks ob)"

subsection \<open>The matching loop\<close>

text \<open>The event that reports what is left of an order after a fill.\<close>

definition fill_event :: "SequenceGenerator \<Rightarrow> Order \<Rightarrow> EngineEvent \<times> SequenceGenerator" where
  "fill_event sg x =
     (let (e, s, sg) = next_stamp sg in
      (if is_filled x then OrderFilled e s (o_orderId x)
       else OrderPartial e s (o_orderId x) (filled_quantity x) (o_remainingQuantity x), sg))"

text \<open>
  The body of the loop of \<open>match_incoming_order\<close> once a crossing maker is found: the new state
  and the events the iteration appends.
\<close>

definition execute_trade :: "OrderBook \<Rightarrow> SequenceGenerator \<Rightarrow> Order \<Rightarrow> order_ptr \<Rightarrow>
    (OrderBook \<times> SequenceGenerator \<times> Order \<times> EngineEvent list) option" where
  "execute_trade ob sg incoming m = do {
     let opp = opposite_side (o_side incoming);
     let opposite = opposing_book ob (o_side incoming);
     let h = ob_heap ob;
     M \<leftarrow> oread h m;
     let level = o_priceLevel M;
     let fill = quantity_min (o_remainingQuantity incoming) (o_remainingQuantity M);
     let executionPrice = o_price M;
     let makerSide = o_side M;
     let makerOrderId = o_orderId M;
     let makerClientOrderId = o_clientOrderId M;
     h \<leftarrow> upd_order m (reduce fill) h;
     let incoming = reduce fill incoming;
     h \<leftarrow> (case level of Some l \<Rightarrow> upd_level l (decrease_total fill) h | None \<Rightarrow> Some h);
     let ob = ob\<lparr>ob_lastTradePrice := Some executionPrice\<rparr>;
     totalAtPrice \<leftarrow> (case level of None \<Rightarrow> Some 0
                     | Some l \<Rightarrow> do { L \<leftarrow> lread h l; Some (pl_totalQuantity L) });
     let (e, s, sg) = next_stamp sg;
     let (t, sg) = next_trade_id sg;
     let trade = TradeExecuted e s t (sc_symbolId (ob_symbolConfig ob)) makerOrderId
                   (o_orderId incoming) executionPrice fill;
     M \<leftarrow> oread h m;
     (ob, sg, makerEvent) \<leftarrow>
       (if is_filled M then do {
          let ob = ob\<lparr>ob_orderById := um_erase makerOrderId (ob_orderById ob),
                      ob_clientOrderIdToOrderId :=
                        um_erase makerClientOrderId (ob_clientOrderIdToOrderId ob)\<rparr>;
          (h, sb) \<leftarrow> remove_order (Some m) h opposite;
          h \<leftarrow> delete_order m h;
          let (e, s, sg) = next_stamp sg;
          Some (set_book opp (h, sb) ob, sg, OrderFilled e s makerOrderId) }
        else do {
          (h, sb) \<leftarrow> update_after_fill_or_cancel level h opposite;
          let (e, s, sg) = next_stamp sg;
          M \<leftarrow> oread h m;
          Some (set_book opp (h, sb) ob, sg,
                OrderPartial e s makerOrderId (filled_quantity M) (o_remainingQuantity M)) });
     let (takerEvent, sg) = fill_event sg incoming;
     let (e, s, sg) = next_stamp sg;
     let delta = OrderBookDelta e s (sc_symbolId (ob_symbolConfig ob)) makerSide
                   executionPrice totalAtPrice;
     Some (ob, sg, incoming, [trade, makerEvent, takerEvent, delta]) }"

text \<open>The loop's condition and its \<open>break\<close>: \<open>Some None\<close> leaves the loop.\<close>

definition match_step :: "OrderBook \<Rightarrow> SequenceGenerator \<Rightarrow> Order \<Rightarrow>
    (OrderBook \<times> SequenceGenerator \<times> Order \<times> EngineEvent list) option option" where
  "match_step ob sg incoming =
     (if quantity_is_zero (o_remainingQuantity incoming) then Some None
      else do {
        let opposite = opposing_book ob (o_side incoming);
        maker \<leftarrow> best_order (ob_heap ob) opposite;
        (case maker of None \<Rightarrow> Some None | Some m \<Rightarrow> do {
           c \<leftarrow> price_crosses (o_price incoming) (ob_heap ob) opposite;
           if \<not> c then Some None
           else map_option Some (execute_trade ob sg incoming m) }) })"

lemma set_book_heap [simp]: "ob_heap (set_book s hs ob) = fst hs"
  by (simp add: set_book_def)

text \<open>
  Every iteration deletes an order of the book or uses up the incoming quantity, which bounds
  the number of iterations.
\<close>

lemma execute_trade_progress:
  assumes "execute_trade ob sg incoming m = Some (ob', sg', incoming', evs)"
  shows "norders (ob_heap ob') < norders (ob_heap ob) \<or>
    norders (ob_heap ob') = norders (ob_heap ob) \<and> o_remainingQuantity incoming' = 0"
proof -
  obtain M where M: "oread (ob_heap ob) m = Some M"
    using assms by (auto simp: execute_trade_def bind_eq_Some_conv Let_def)
  let ?fill = "quantity_min (o_remainingQuantity incoming) (o_remainingQuantity M)"
  obtain h1 h2 M2 where h: "upd_order m (reduce ?fill) (ob_heap ob) = Some h1"
      "(case o_priceLevel M of Some l \<Rightarrow> upd_level l (decrease_total ?fill) h1 | None \<Rightarrow> Some h1) = Some h2"
      "oread h2 m = Some M2" "incoming' = reduce ?fill incoming"
    and r: "(\<exists>h3 sb3 sb. is_filled M2 \<and> remove_order (Some m) h2 sb = Some (h3, sb3) \<and>
        delete_order m h3 = Some (ob_heap ob')) \<or>
      (\<exists>sb3 sb. \<not> is_filled M2 \<and>
        update_after_fill_or_cancel (o_priceLevel M) h2 sb = Some (ob_heap ob', sb3))"
    using assms M
    by (auto simp: execute_trade_def bind_eq_Some_conv Let_def fill_event_def split: if_split_asm) blast+
  have n: "norders h2 = norders (ob_heap ob)" and M2: "M2 = reduce ?fill M"
    using h M by (auto simp: upd_order_Some upd_level_def bind_eq_Some_conv heap_simps
        split: option.split_asm dest: norders_upd)
  from r show ?thesis
  proof (elim disjE exE conjE)
    fix h3 sb3 sb
    assume "remove_order (Some m) h2 sb = Some (h3, sb3)" "delete_order m h3 = Some (ob_heap ob')"
    then show ?thesis using norders_remove_order norders_delete n by fastforce
  next
    fix sb3 sb
    assume f: "\<not> is_filled M2"
      and "update_after_fill_or_cancel (o_priceLevel M) h2 sb = Some (ob_heap ob', sb3)"
    then have "norders (ob_heap ob') = norders (ob_heap ob)"
      using norders_update_after n by metis
    moreover have "o_remainingQuantity incoming' = 0"
      using f M2 h(4) by (auto simp: is_filled_def quantity_is_zero_def quantity_min_def split: if_splits)
    ultimately show ?thesis by simp
  qed
qed

function match_loop :: "OrderBook \<Rightarrow> SequenceGenerator \<Rightarrow> Order \<Rightarrow> EngineEvent list \<Rightarrow>
    (OrderBook \<times> SequenceGenerator \<times> Order \<times> EngineEvent list) option" where
  "match_loop ob sg incoming events =
     (case match_step ob sg incoming of
        None \<Rightarrow> None
      | Some None \<Rightarrow> Some (ob, sg, incoming, events)
      | Some (Some (ob', sg', incoming', evs)) \<Rightarrow> match_loop ob' sg' incoming' (events @ evs))"
  by pat_completeness auto
termination
proof (relation "measure (\<lambda>(ob, sg, incoming, events). norders (ob_heap ob) +
    (if o_remainingQuantity incoming = 0 then 0 else 1))", goal_cases)
  case (2 ob sg incoming events x2 x a b aa ba ab bb)
  then show ?case
    by (auto simp: match_step_def quantity_is_zero_def bind_eq_Some_conv Let_def
        dest!: execute_trade_progress split: if_split_asm option.split_asm)
qed simp

declare match_loop.simps [simp del]

definition match_incoming_order :: "OrderBook \<Rightarrow> SequenceGenerator \<Rightarrow> Order \<Rightarrow>
    (OrderBook \<times> SequenceGenerator \<times> Order \<times> EngineEvent list) option" where
  "match_incoming_order ob sg incoming = match_loop ob sg incoming []"

subsection \<open>Placing and cancelling\<close>

definition insert_remaining_as_resting :: "order_ptr option \<Rightarrow> OrderBook \<Rightarrow> OrderBook option" where
  "insert_remaining_as_resting po ob = (case po of None \<Rightarrow> Some ob | Some p \<Rightarrow> do {
     x \<leftarrow> oread (ob_heap ob) p;
     let ob = ob\<lparr>ob_orderById := um_assign (o_orderId x) p (ob_orderById ob),
                 ob_clientOrderIdToOrderId :=
                   um_assign (o_clientOrderId x) (o_orderId x) (ob_clientOrderIdToOrderId ob)\<rparr>;
     hs \<leftarrow> insert_resting_order p (ob_heap ob) (book_for_side ob (o_side x));
     Some (set_book (o_side x) hs ob) })"

definition incoming_order :: "PlaceOrderCommand \<Rightarrow> Price \<Rightarrow> EngineSequence \<Rightarrow> Order" where
  "incoming_order cmd matchPrice acceptedSequence =
     \<lparr>o_orderId = pc_orderId cmd, o_clientOrderId = pc_clientOrderId cmd, o_userId = pc_userId cmd,
      o_symbolId = pc_symbolId cmd, o_side = pc_side cmd, o_price = matchPrice,
      o_originalQuantity = pc_quantity cmd, o_remainingQuantity = pc_quantity cmd,
      o_sequenceAccepted = acceptedSequence, o_previousOrder = None, o_nextOrder = None,
      o_priceLevel = None\<rparr>"

text \<open>The last part of \<open>process_place\<close>: the remainder of a limit order comes to rest.\<close>

definition rest_remainder :: "PlaceOrderCommand \<Rightarrow> OrderBook \<Rightarrow> SequenceGenerator \<Rightarrow> Order \<Rightarrow>
    (OrderBook \<times> SequenceGenerator \<times> EngineEvent list) option" where
  "rest_remainder cmd ob sg incoming =
     (let canRest = (pc_orderType cmd = Limit \<and> (pc_timeInForce cmd = GTC \<or> pc_timeInForce cmd = PO))
      in if canRest \<and> \<not> quantity_is_zero (o_remainingQuantity incoming) then do {
           let (p, h) = new_order (detach_links (incoming\<lparr>o_price := pc_price cmd\<rparr>)) (ob_heap ob);
           ob \<leftarrow> insert_remaining_as_resting (Some p) (ob\<lparr>ob_heap := h\<rparr>);
           let (e, s, sg) = next_stamp sg;
           x \<leftarrow> oread (ob_heap ob) p;
           l \<leftarrow> o_priceLevel x;
           L \<leftarrow> lread (ob_heap ob) l;
           Some (ob, sg, [OrderBookDelta e s (pc_symbolId cmd) (pc_side cmd) (o_price x)
                            (pl_totalQuantity L)]) }
         else Some (ob, sg, []))"

definition accept_order :: "PlaceOrderCommand \<Rightarrow> OrderBook \<Rightarrow> SequenceGenerator \<Rightarrow>
    (OrderBook \<times> SequenceGenerator \<times> EngineEvent list) option" where
  "accept_order cmd ob sg = do {
     let matchPrice = matching_price_for_command cmd;
     let (acceptedSequence, sg) = next_sequence sg;
     let (e, sg) = next_event_id sg;
     let accepted = OrderAccepted e acceptedSequence (pc_orderId cmd) (pc_clientOrderId cmd)
                      (pc_userId cmd) (pc_symbolId cmd) (pc_side cmd) (pc_price cmd) (pc_quantity cmd);
     let incoming = incoming_order cmd matchPrice acceptedSequence;
     (ob, sg, incoming, matchEvents) \<leftarrow> match_incoming_order ob sg incoming;
     (ob, sg, restEvents) \<leftarrow> rest_remainder cmd ob sg incoming;
     Some (ob, sg, accepted # matchEvents @ restEvents) }"

text \<open>The checks of \<open>process_place\<close> in its order: the reason of the rejection, if any.\<close>

definition place_reject_reason :: "PlaceOrderCommand \<Rightarrow> OrderBook \<Rightarrow> RejectReason option option" where
  "place_reject_reason cmd ob =
     (if has_order ob (pc_orderId cmd) \<or>
         um_find (ob_clientOrderIdToOrderId ob) (pc_clientOrderId cmd) \<noteq> None
      then Some (Some DuplicateOrder)
      else if \<not> sc_tradingEnabled (ob_symbolConfig ob) then Some (Some MarketClosed)
      else if \<not> validate_symbol_quantity (pc_quantity cmd) (ob_symbolConfig ob)
      then Some (Some InvalidQuantity)
      else if pc_orderType cmd = Limit \<and> \<not> validate_symbol_price (pc_price cmd) (ob_symbolConfig ob)
      then Some (Some InvalidPrice)
      else do {
        let matchPrice = matching_price_for_command cmd;
        let opposite = opposing_book ob (pc_side cmd);
        postOnlyCrosses \<leftarrow> (if pc_timeInForce cmd = PO
                            then price_crosses (pc_price cmd) (ob_heap ob) opposite else Some False);
        if postOnlyCrosses then Some (Some InvalidPrice)
        else if pc_timeInForce cmd = FOK then do {
          availableLots \<leftarrow> available_crossing_lots (ob_heap ob) opposite matchPrice (pc_quantity cmd);
          Some (if availableLots < pc_quantity cmd then Some InsufficientBalanceLiquidity else None) }
        else Some None })"

definition process_place :: "PlaceOrderCommand \<Rightarrow> OrderBook \<Rightarrow> SequenceGenerator \<Rightarrow>
    (OrderBook \<times> SequenceGenerator \<times> EngineEvent list) option" where
  "process_place cmd ob sg = do {
     reason \<leftarrow> place_reject_reason cmd ob;
     (case reason of
        Some r \<Rightarrow> (let (ev, sg) = make_rejection sg (pc_commandId cmd)
                          (optional_order_id (pc_orderId cmd)) (pc_userId cmd) (pc_symbolId cmd) r
                   in Some (ob, sg, [ev]))
      | None \<Rightarrow> accept_order cmd ob sg) }"

definition cancel_existing_order :: "OrderId \<Rightarrow> OrderBook \<Rightarrow> SequenceGenerator \<Rightarrow>
    (OrderBook \<times> SequenceGenerator \<times> EngineEvent list) option" where
  "cancel_existing_order orderId ob sg =
     (case find_order ob orderId of
        None \<Rightarrow> (let (ev, sg) = make_rejection sg 0 (optional_order_id orderId) 0
                        (sc_symbolId (ob_symbolConfig ob)) OrderNotFound
                 in Some (ob, sg, [ev]))
      | Some p \<Rightarrow> do {
          x \<leftarrow> oread (ob_heap ob) p;
          let side = o_side x;
          let sideBook = book_for_side ob side;
          let price = o_price x;
          let releasedQuantity = o_remainingQuantity x;
          let level = o_priceLevel x;
          totalAfterCancel \<leftarrow> (case level of None \<Rightarrow> Some 0
             | Some l \<Rightarrow> do {
                 L \<leftarrow> lread (ob_heap ob) l;
                 Some (if pl_totalQuantity L > releasedQuantity
                       then pl_totalQuantity L - releasedQuantity else 0) });
          let ob = ob\<lparr>ob_orderById := um_erase (o_orderId x) (ob_orderById ob),
                      ob_clientOrderIdToOrderId :=
                        um_erase (o_clientOrderId x) (ob_clientOrderIdToOrderId ob)\<rparr>;
          (h, sb) \<leftarrow> remove_order (Some p) (ob_heap ob) sideBook;
          h \<leftarrow> delete_order p h;
          let ob = set_book side (h, sb) ob;
          let (e1, s1, sg) = next_stamp sg;
          let (e2, s2, sg) = next_stamp sg;
          Some (ob, sg, [OrderCancelled e1 s1 orderId releasedQuantity,
                         OrderBookDelta e2 s2 (sc_symbolId (ob_symbolConfig ob)) side price
                           totalAfterCancel]) })"

definition process_cancel :: "CancelOrderCommand \<Rightarrow> OrderBook \<Rightarrow> SequenceGenerator \<Rightarrow>
    (OrderBook \<times> SequenceGenerator \<times> EngineEvent list) option" where
  "process_cancel cmd ob sg = do {
     let targetOrderId =
       (if cc_orderId cmd = 0
        then (case um_find (ob_clientOrderIdToOrderId ob) (cc_clientOrderId cmd) of
                Some i \<Rightarrow> i | None \<Rightarrow> cc_orderId cmd)
        else cc_orderId cmd);
     notFound \<leftarrow> (case find_order ob targetOrderId of
                    None \<Rightarrow> Some True
                  | Some p \<Rightarrow> do { x \<leftarrow> oread (ob_heap ob) p; Some (o_userId x \<noteq> cc_userId cmd) });
     if notFound
     then (let (ev, sg) = make_rejection sg (cc_commandId cmd) (optional_order_id targetOrderId)
                            (cc_userId cmd) (cc_symbolId cmd) OrderNotFound
           in Some (ob, sg, [ev]))
     else cancel_existing_order targetOrderId ob sg }"

end
