(* ===== verification/OrderBookInv.thy ===== *)
theory OrderBookInv
  imports OrderBook
begin

text \<open>
  The invariant of an order book and the lemmas on its parts.  \<open>books_ok\<close> describes the heap by
  the ghost levels of the two sides (every order and level of the heap is reachable from exactly
  one queue), \<open>maps_ok\<close> says that the two indexes hold exactly the resting orders, and \<open>ob_inv\<close>
  adds that the book is not crossed.
\<close>

section \<open>The invariant\<close>

type_synonym ghost = "Side \<Rightarrow> glevel list"

definition all_orders :: "ghost \<Rightarrow> order_ptr set" where
  "all_orders g = set (g_orders (g Buy)) \<union> set (g_orders (g Sell))"

definition all_levels :: "ghost \<Rightarrow> level_ptr set" where
  "all_levels g = g_levels (g Buy) \<union> g_levels (g Sell)"

lemma Side_all: "(\<forall>s. P s) \<longleftrightarrow> P Buy \<and> P Sell"
  by (metis Side.exhaust)

text \<open>
  Both sides represent their ghost levels, share nothing, and together with the addresses in
  \<open>E\<close> (an order just allocated) they are everything that lives in the heap: nothing leaks.
\<close>

definition books_ok :: "book_heap \<Rightarrow> (Side \<Rightarrow> SideBook) \<Rightarrow> ghost \<Rightarrow> int64 \<Rightarrow> order_ptr set \<Rightarrow> bool" where
  "books_ok h bk g tick E \<longleftrightarrow>
     heap_ok h \<and>
     (\<forall>s. sb_ok h (bk s) (g s) \<and> sb_side (bk s) = s \<and> side_covers (bk s) = on_tick tick) \<and>
     g_levels (g Buy) \<inter> g_levels (g Sell) = {} \<and>
     set (g_orders (g Buy)) \<inter> set (g_orders (g Sell)) = {} \<and>
     E \<inter> all_orders g = {} \<and>
     dom (oread h) = all_orders g \<union> E \<and> dom (lread h) = all_levels g"

lemma books_okD:
  assumes "books_ok h bk g tick E"
  shows "heap_ok h" "g_levels (g Buy) \<inter> g_levels (g Sell) = {}"
    "set (g_orders (g Buy)) \<inter> set (g_orders (g Sell)) = {}" "E \<inter> all_orders g = {}"
    "dom (oread h) = all_orders g \<union> E" "dom (lread h) = all_levels g"
    "sb_ok h (bk s) (g s)" "sb_side (bk s) = s" "side_covers (bk s) = on_tick tick"
  using assms by (auto simp: books_ok_def)

lemma sb_ok_frame:
  assumes ok: "sb_ok h sb G"
    and same: "\<And>q. q \<in> set (g_orders G) \<Longrightarrow> oread h' q = oread h q"
      "\<And>k. k \<in> g_levels G \<Longrightarrow> lread h' k = lread h k"
  shows "sb_ok h' sb G"
proof -
  have "entry_ok h' (sb_side sb) e = entry_ok h (sb_side sb) e" if "e \<in> set G" for e
  proof -
    obtain p l ps where e: "e = (p, l, ps)" by (cases e)
    have "l \<in> g_levels G" using that e by (force simp: g_levels_def)
    moreover have "q \<in> set (g_orders G)" if "q \<in> set ps" for q
      using that \<open>e \<in> set G\<close> e by (force simp: g_orders_mem)
    ultimately show ?thesis unfolding e by (intro entry_ok_cong) (auto simp: same)
  qed
  moreover have "alive h' (g_orders G) = alive h (g_orders G)"
    using same(1) by (simp add: alive_def rem_def)
  ultimately show ?thesis
    using ok by (auto simp: sb_ok_def sb_core_def)
qed

lemma g_levels_live: "sb_core h sb G \<Longrightarrow> k \<in> g_levels G \<Longrightarrow> lread h k \<noteq> None"
  by (force simp: g_levels_def g_level_def dest: sb_core_entryD(1))

lemma g_orders_live:
  assumes "sb_core h sb G" "q \<in> set (g_orders G)"
  shows "\<exists>x. oread h q = Some x \<and> o_side x = sb_side sb \<and> side_covers sb (o_price x)"
proof -
  obtain e where e: "e \<in> set G" "q \<in> set (g_queue e)" using assms(2) by (auto simp: g_orders_mem)
  obtain p l ps where "e = (p, l, ps)" by (cases e)
  then show ?thesis
    using sb_core_entryD(2,3) [OF assms(1), of p l ps] e by fastforce
qed

text \<open>An operation on one side, described by its frame, keeps both sides.\<close>

lemma books_ok_upd:
  assumes ok: "books_ok h bk g tick E" and sb': "sb_ok h' sb' G'"
    and fr: "heap_frame h (g s) h' G'" and h': "heap_ok h'"
    and cfg: "sb_side sb' = s" "side_covers sb' = on_tick tick"
    and E': "dom (oread h') = all_orders (g(s := G')) \<union> E'" "E' \<inter> all_orders (g(s := G')) = {}"
    and disj: "set (g_orders G') \<inter> set (g_orders (g (opposite_side s))) = {}"
  shows "books_ok h' (bk(s := sb')) (g(s := G')) tick E'"
proof -
  let ?o = "opposite_side s"
  have o: "sb_ok h (bk ?o) (g ?o)" using ok by (simp add: books_ok_def)
  have lv: "g_levels (g s) \<inter> g_levels (g ?o) = {}" "set (g_orders (g s)) \<inter> set (g_orders (g ?o)) = {}"
    using books_okD(2,3) [OF ok] by (cases s; simp add: Int_commute)+
  have live: "lread h k \<noteq> None" if "k \<in> g_levels (g ?o)" for k
    using o that g_levels_live by (auto simp: sb_ok_def)
  have lv': "g_levels G' \<inter> g_levels (g ?o) = {}"
  proof (rule ccontr)
    assume "g_levels G' \<inter> g_levels (g ?o) \<noteq> {}"
    then obtain k where k: "k \<in> g_levels G'" "k \<in> g_levels (g ?o)" by blast
    then have "k \<notin> g_levels (g s)" using lv(1) by blast
    then have "lread h k = None" using fr k(1) unfolding heap_frame_def by blast
    then show False using live [OF k(2)] by simp
  qed
  have o': "sb_ok h' (bk ?o) (g ?o)"
  proof (rule sb_ok_frame [OF o])
    show "oread h' q = oread h q" if "q \<in> set (g_orders (g ?o))" for q
      using fr that lv(2) disj unfolding heap_frame_def by blast
    show "lread h' k = lread h k" if "k \<in> g_levels (g ?o)" for k
      using fr that lv(1) lv' unfolding heap_frame_def by blast
  qed
  have dom: "dom (lread h) = g_levels (g s) \<union> g_levels (g ?o)"
    using books_okD(6) [OF ok] by (cases s; auto simp: all_levels_def)
  have "dom (lread h') = g_levels G' \<union> g_levels (g ?o)"
  proof (rule set_eqI)
    fix k
    have live': "k \<in> g_levels G' \<Longrightarrow> lread h' k \<noteq> None"
      using g_levels_live [of h' sb' G'] sb' by (auto simp: sb_ok_def)
    show "k \<in> dom (lread h') \<longleftrightarrow> k \<in> g_levels G' \<union> g_levels (g ?o)"
    proof (cases "k \<in> g_levels (g s) \<union> g_levels G'")
      case True
      have "k \<notin> g_levels G' \<Longrightarrow> lread h' k = None \<and> k \<notin> g_levels (g ?o)"
        using True fr lv(1) unfolding heap_frame_def by blast
      then show ?thesis using live' by (cases "k \<in> g_levels G'") auto
    next
      case False
      then have "lread h' k = lread h k" using fr by (simp add: heap_frame_def)
      then have "k \<in> dom (lread h') \<longleftrightarrow> k \<in> dom (lread h)" by (simp add: dom_def)
      then show ?thesis using False dom by auto
    qed
  qed
  then have doml: "dom (lread h') = all_levels (g(s := G'))"
    by (cases s) (auto simp: all_levels_def)
  have sides: "\<forall>t. sb_ok h' ((bk(s := sb')) t) ((g(s := G')) t) \<and> sb_side ((bk(s := sb')) t) = t \<and>
      side_covers ((bk(s := sb')) t) = on_tick tick"
  proof
    fix t
    have "sb_side (bk ?o) = ?o" "side_covers (bk ?o) = on_tick tick"
      using ok by (simp_all add: books_ok_def)
    moreover have "t = s \<or> t = ?o" by (cases s; cases t) auto
    ultimately show "sb_ok h' ((bk(s := sb')) t) ((g(s := G')) t) \<and> sb_side ((bk(s := sb')) t) = t \<and>
      side_covers ((bk(s := sb')) t) = on_tick tick"
      using sb' cfg o' by auto
  qed
  have "g_levels ((g(s := G')) Buy) \<inter> g_levels ((g(s := G')) Sell) = {}"
    "set (g_orders ((g(s := G')) Buy)) \<inter> set (g_orders ((g(s := G')) Sell)) = {}"
    using lv' disj by (cases s; simp add: Int_commute)+
  then show ?thesis
    unfolding books_ok_def using h' sides E' doml by blast
qed

text \<open>The two indexes hold exactly the resting orders.\<close>

definition maps_ok :: "OrderBook \<Rightarrow> (order_ptr \<Rightarrow> Order option) \<Rightarrow> order_ptr set \<Rightarrow> bool" where
  "maps_ok ob M P \<longleftrightarrow>
     um_ok (ob_orderById ob) \<and> um_ok (ob_clientOrderIdToOrderId ob) \<and>
     (\<forall>i p. um_find (ob_orderById ob) i = Some p \<longleftrightarrow>
        p \<in> P \<and> (\<exists>x. M p = Some x \<and> o_orderId x = i)) \<and>
     (\<forall>c i. um_find (ob_clientOrderIdToOrderId ob) c = Some i \<longleftrightarrow>
        (\<exists>p \<in> P. \<exists>x. M p = Some x \<and> o_clientOrderId x = c \<and> o_orderId x = i))"

lemma payload_field:
  assumes "payload M' p = payload M p"
  shows "(\<exists>x. M' p = Some x \<and> P (detach_links x)) \<longleftrightarrow> (\<exists>x. M p = Some x \<and> P (detach_links x))"
  using assms by (cases "M p"; cases "M' p") (auto simp: payload_def)

lemma dom_payload: "dom (payload M) = dom M"
  by (auto simp: payload_def)

lemma payload_dom: "payload M' = payload M \<Longrightarrow> dom M' = dom M"
  by (metis dom_payload)

lemma maps_ok_payload:
  assumes "\<And>p. p \<in> P \<Longrightarrow> payload M' p = payload M p"
  shows "maps_ok ob M' P = maps_ok ob M P"
proof -
  have 1: "p \<in> P \<and> (\<exists>x. M' p = Some x \<and> o_orderId x = i) \<longleftrightarrow>
      p \<in> P \<and> (\<exists>x. M p = Some x \<and> o_orderId x = i)" for p i
    using payload_field [OF assms, of p "\<lambda>x. o_orderId x = i"] by auto
  have 2: "(\<exists>p \<in> P. \<exists>x. M' p = Some x \<and> o_clientOrderId x = c \<and> o_orderId x = i) \<longleftrightarrow>
      (\<exists>p \<in> P. \<exists>x. M p = Some x \<and> o_clientOrderId x = c \<and> o_orderId x = i)" for c i
    using payload_field [OF assms, of _ "\<lambda>x. o_clientOrderId x = c \<and> o_orderId x = i"] by auto
  show ?thesis by (simp add: maps_ok_def 1 2)
qed

definition erase_maps :: "Order \<Rightarrow> OrderBook \<Rightarrow> OrderBook" where
  "erase_maps x ob = ob\<lparr>ob_orderById := um_erase (o_orderId x) (ob_orderById ob),
     ob_clientOrderIdToOrderId := um_erase (o_clientOrderId x) (ob_clientOrderIdToOrderId ob)\<rparr>"

lemma maps_ok_erase:
  assumes ok: "maps_ok ob M P" and p: "p \<in> P" "M p = Some x"
    and ob': "ob_orderById ob' = um_erase (o_orderId x) (ob_orderById ob)"
      "ob_clientOrderIdToOrderId ob' = um_erase (o_clientOrderId x) (ob_clientOrderIdToOrderId ob)"
    and M': "\<And>q. q \<in> P - {p} \<Longrightarrow> M' q = M q"
  shows "maps_ok ob' M' (P - {p})"
proof -
  have id: "um_find (ob_orderById ob) i = Some q \<longleftrightarrow> q \<in> P \<and> (\<exists>x. M q = Some x \<and> o_orderId x = i)"
    and cl: "um_find (ob_clientOrderIdToOrderId ob) c = Some i \<longleftrightarrow>
      (\<exists>q \<in> P. \<exists>x. M q = Some x \<and> o_clientOrderId x = c \<and> o_orderId x = i)" for q i c
    using ok by (auto simp: maps_ok_def)
  have uniq: "q = p" if "q \<in> P" "M q = Some y" "o_orderId y = o_orderId x" for q y
    using id [of "o_orderId x" p] id [of "o_orderId x" q] that p by auto
  have uniq_c: "q = p" if "q \<in> P" "M q = Some y" "o_clientOrderId y = o_clientOrderId x" for q y
  proof -
    have "um_find (ob_clientOrderIdToOrderId ob) (o_clientOrderId x) = Some (o_orderId x)"
      "um_find (ob_clientOrderIdToOrderId ob) (o_clientOrderId x) = Some (o_orderId y)"
      using cl p that by fastforce+
    then show ?thesis using uniq that by simp
  qed
  have "(um_find (ob_orderById ob') i = Some q) \<longleftrightarrow>
      q \<in> P - {p} \<and> (\<exists>x. M' q = Some x \<and> o_orderId x = i)" for q i
  proof (cases "i = o_orderId x")
    case True
    have "o_orderId y \<noteq> o_orderId x" if "q \<noteq> p" "q \<in> P" "M' q = Some y" for y
      using uniq [of q y] M' [of q] that by auto
    then show ?thesis using True by (auto simp: ob' container_simps)
  next
    case False
    then have "(\<exists>y. M q = Some y \<and> o_orderId y = i) \<Longrightarrow> q \<noteq> p" using p(2) by auto
    then show ?thesis
      using id [of i q] False M' [of q] by (cases "M q") (auto simp: ob' container_simps)
  qed
  moreover have "(um_find (ob_clientOrderIdToOrderId ob') c = Some i) \<longleftrightarrow>
      (\<exists>q \<in> P - {p}. \<exists>x. M' q = Some x \<and> o_clientOrderId x = c \<and> o_orderId x = i)" for c i
  proof (cases "c = o_clientOrderId x")
    case True
    then have "um_find (ob_clientOrderIdToOrderId ob') c = None" by (simp add: ob' container_simps)
    moreover have "\<not> (\<exists>q \<in> P - {p}. \<exists>x. M' q = Some x \<and> o_clientOrderId x = c \<and> o_orderId x = i)"
    proof
      assume "\<exists>q \<in> P - {p}. \<exists>x. M' q = Some x \<and> o_clientOrderId x = c \<and> o_orderId x = i"
      then obtain q y where "q \<in> P - {p}" "M' q = Some y" "o_clientOrderId y = c" by blast
      then show False using uniq_c [of q y] M' [of q] True by simp
    qed
    ultimately show ?thesis by simp
  next
    case False
    then have "um_find (ob_clientOrderIdToOrderId ob') c = um_find (ob_clientOrderIdToOrderId ob) c"
      by (simp add: ob' container_simps)
    moreover have "(\<exists>q \<in> P. \<exists>x. M q = Some x \<and> o_clientOrderId x = c \<and> o_orderId x = i) \<longleftrightarrow>
        (\<exists>q \<in> P - {p}. \<exists>x. M' q = Some x \<and> o_clientOrderId x = c \<and> o_orderId x = i)"
      using False p(2) M' by (metis Diff_iff option.inject singletonD)
    ultimately show ?thesis using cl [of c i] by simp
  qed
  ultimately show ?thesis
    using ok by (simp add: maps_ok_def ob' container_simps)
qed

lemma maps_ok_add:
  assumes ok: "maps_ok ob M P" and p: "p \<notin> P" "M' p = Some x" and M': "\<And>q. q \<in> P \<Longrightarrow> M' q = M q"
    and new: "um_find (ob_orderById ob) (o_orderId x) = None"
      "um_find (ob_clientOrderIdToOrderId ob) (o_clientOrderId x) = None"
    and ob': "ob_orderById ob' = um_assign (o_orderId x) p (ob_orderById ob)"
      "ob_clientOrderIdToOrderId ob' = um_assign (o_clientOrderId x) (o_orderId x) (ob_clientOrderIdToOrderId ob)"
  shows "maps_ok ob' M' (insert p P)"
proof -
  have id: "um_find (ob_orderById ob) i = Some q \<longleftrightarrow> q \<in> P \<and> (\<exists>x. M q = Some x \<and> o_orderId x = i)"
    and cl: "um_find (ob_clientOrderIdToOrderId ob) c = Some i \<longleftrightarrow>
      (\<exists>q \<in> P. \<exists>x. M q = Some x \<and> o_clientOrderId x = c \<and> o_orderId x = i)" for q i c
    using ok by (auto simp: maps_ok_def)
  have "(um_find (ob_orderById ob') i = Some q) \<longleftrightarrow>
      q \<in> insert p P \<and> (\<exists>x. M' q = Some x \<and> o_orderId x = i)" for q i
    using id [of i q] p M' new(1) by (auto simp: ob' container_simps)
  moreover have "(um_find (ob_clientOrderIdToOrderId ob') c = Some i) \<longleftrightarrow>
      (\<exists>q \<in> insert p P. \<exists>x. M' q = Some x \<and> o_clientOrderId x = c \<and> o_orderId x = i)" for c i
    using cl [of c i] p M' new(2) by (auto simp: ob' container_simps)
  ultimately show ?thesis
    using ok by (simp add: maps_ok_def ob' container_simps)
qed

definition uncrossed :: "ghost \<Rightarrow> bool" where
  "uncrossed g \<longleftrightarrow> (\<forall>b \<in> set (g Buy). \<forall>a \<in> set (g Sell). fst b < fst a)"

definition ob_inv :: "OrderBook \<Rightarrow> ghost \<Rightarrow> bool" where
  "ob_inv ob g \<longleftrightarrow>
     books_ok (ob_heap ob) (book_for_side ob) g (sc_tickSize (ob_symbolConfig ob)) {} \<and>
     maps_ok ob (oread (ob_heap ob)) (all_orders g) \<and> uncrossed g"

text \<open>What the outside sees of a resting order, and of a side in matching order.\<close>

type_synonym order_view = "OrderId \<times> Price \<times> Quantity"

definition order_view :: "Order \<Rightarrow> order_view" where
  "order_view x = (o_orderId x, o_price x, o_remainingQuantity x)"

definition side_view :: "OrderBook \<Rightarrow> glevel list \<Rightarrow> order_view list" where
  "side_view ob G = map (\<lambda>p. order_view (the (oread (ob_heap ob) p))) (g_orders G)"

lemma opposing_book_side: "opposing_book ob s = book_for_side ob (opposite_side s)"
  by (cases s) (simp_all add: opposing_book_def book_for_side_def)

lemma book_for_side_set [simp]:
  "book_for_side (set_book s hs ob) = (book_for_side ob)(s := snd hs)"
proof
  fix t show "book_for_side (set_book s hs ob) t = ((book_for_side ob)(s := snd hs)) t"
    by (cases s; cases t) (simp_all add: book_for_side_def set_book_def)
qed

lemma set_book_simps [simp]:
  "ob_symbolConfig (set_book s hs ob) = ob_symbolConfig ob"
  "ob_orderById (set_book s hs ob) = ob_orderById ob"
  "ob_clientOrderIdToOrderId (set_book s hs ob) = ob_clientOrderIdToOrderId ob"
  "ob_lastTradePrice (set_book s hs ob) = ob_lastTradePrice ob"
  by (simp_all add: set_book_def)

lemma book_for_side_cong [simp]:
  "book_for_side (ob\<lparr>ob_orderById := a\<rparr>) = book_for_side ob"
  "book_for_side (ob\<lparr>ob_clientOrderIdToOrderId := b\<rparr>) = book_for_side ob"
  "book_for_side (ob\<lparr>ob_lastTradePrice := c\<rparr>) = book_for_side ob"
  "book_for_side (ob\<lparr>ob_heap := h\<rparr>) = book_for_side ob"
  by (simp_all add: book_for_side_def fun_eq_iff)

subsection \<open>Removing and deleting an order\<close>

lemma remove_delete_ok:
  assumes core: "sb_core h sb G" and ne: "\<forall>e \<in> set G. g_queue e \<noteq> []"
    and al: "\<And>q. q \<in> set (g_orders G) \<Longrightarrow> q \<noteq> p \<Longrightarrow> rem (oread h) q \<noteq> 0"
    and cached: "sb_cachedBestLevel sb = best_of G"
    and p: "p \<in> set (g_orders G)" "oread h p = Some x" and h: "heap_ok h"
  shows "\<exists>h3 sb' h4. remove_order (Some p) h sb = Some (h3, sb') \<and> delete_order p h3 = Some h4 \<and>
    sb_ok h4 sb' (g_remove p G) \<and> payload (oread h4) = (payload (oread h))(p := None) \<and>
    heap_frame h G h4 (g_remove p G) \<and> sb_side sb' = sb_side sb \<and>
    side_covers sb' = side_covers sb \<and> heap_ok h4"
proof -
  obtain h3 sb' where r: "remove_order (Some p) h sb = Some (h3, sb')" "sb_ok h3 sb' (g_remove p G)"
    "oread h3 p = Some (detach_links x)" "payload (oread h3) = payload (oread h)"
    "heap_frame h G h3 (g_remove p G)" "sb_side sb' = sb_side sb" "side_covers sb' = side_covers sb"
    "heap_ok h3"
    using remove_order_ok [OF core ne al cached p] h by blast
  obtain h4 where d: "delete_order p h3 = Some h4" "oread h4 = (oread h3)(p := None)" "lread h4 = lread h3"
    using delete_order_Some [OF r(3)] by blast
  have p': "p \<notin> set (g_orders (g_remove p G))"
    using core by (simp add: sb_core_def g_orders_remove_distinct)
  have "sb_ok h4 sb' (g_remove p G)"
    by (rule sb_ok_frame [OF r(2)]) (use d p' in auto)
  moreover have "heap_frame h G h4 (g_remove p G)"
    using r(5) d p(1) by (auto simp: heap_frame_def)
  moreover have "payload (oread h4) = (payload (oread h))(p := None)"
    using r(4) d(2) by (auto simp: payload_def fun_eq_iff)
  ultimately show ?thesis
    using r d heap_ok_delete_order [OF r(8) d(1)] by blast
qed

lemma set_g_orders_remove:
  "distinct (g_orders G) \<Longrightarrow> set (g_orders (g_remove p G)) = set (g_orders G) - {p}"
  by (simp add: g_orders_remove_distinct)

lemma g_remove_subset: "e \<in> set (g_remove p G) \<Longrightarrow> \<exists>e' \<in> set G. fst e' = fst e \<and> fst (snd e') = fst (snd e)"
  by (force simp: g_remove_def)

lemma uncrossed_remove: "uncrossed g \<Longrightarrow> uncrossed (g(s := g_remove p (g s)))"
  by (cases s) (fastforce simp: uncrossed_def dest: g_remove_subset)+

lemma all_orders_remove:
  assumes "books_ok h bk g tick E" "p \<in> set (g_orders (g s))"
  shows "all_orders (g(s := g_remove p (g s))) = all_orders g - {p}"
    and "set (g_orders (g_remove p (g s))) \<inter> set (g_orders (g (opposite_side s))) = {}"
proof -
  note b = books_okD [OF assms(1)]
  have d: "distinct (g_orders (g s))" using b(7) [of s] by (simp add: sb_ok_def sb_core_def)
  note rm = set_g_orders_remove [OF d, of p]
  show "all_orders (g(s := g_remove p (g s))) = all_orders g - {p}"
    using b(3) assms(2) rm by (cases s) (auto simp: all_orders_def)
  show "set (g_orders (g_remove p (g s))) \<inter> set (g_orders (g (opposite_side s))) = {}"
    using b(3) rm by (cases s) auto
qed

text \<open>The order's payload is what a side's view is made of.\<close>

lemma side_view_cong:
  assumes "\<And>q. q \<in> set (g_orders G) \<Longrightarrow> payload (oread (ob_heap ob')) q = payload (oread (ob_heap ob)) q"
    and "set (g_orders G) \<subseteq> dom (oread (ob_heap ob))"
  shows "side_view ob' G = side_view ob G"
proof -
  have "order_view (the (oread (ob_heap ob') q)) = order_view (the (oread (ob_heap ob) q))"
    if q: "q \<in> set (g_orders G)" for q
  proof -
    obtain x where "oread (ob_heap ob) q = Some x" using assms(2) q by auto
    moreover from this obtain y where "oread (ob_heap ob') q = Some y" "detach_links y = detach_links x"
      using assms(1) [OF q] by (auto simp: payload_def)
    moreover have "order_view (detach_links z) = order_view z" for z
      by (simp add: order_view_def)
    ultimately show ?thesis by (metis option.sel)
  qed
  then show ?thesis by (simp add: side_view_def)
qed

lemma level_qty_remove:
  assumes "rem M p = 0"
  shows "level_qty M pr (g_remove p G) = level_qty M pr G"
proof (induction G)
  case Nil
  then show ?case by (simp add: g_remove_def level_qty_def)
next
  case (Cons e G)
  obtain q l ps where e: "e = (q, l, ps)" by (cases e)
  have "sum_list (map (rem M) (remove1 p ps)) = sum_list (map (rem M) ps)"
    using assms by (induction ps) auto
  moreover have "remove1 p ps = [] \<Longrightarrow> sum_list (map (rem M) ps) = 0"
    using calculation by simp
  ultimately show ?case
    using Cons e by (auto simp: g_remove_def level_qty_def)
qed

lemma level_qty_rem_cong:
  "(\<And>q. q \<in> set (g_orders G) \<Longrightarrow> rem M' q = rem M q) \<Longrightarrow> level_qty M' pr G = level_qty M pr G"
proof (induction G)
  case (Cons e G)
  then have "map (rem M') (g_queue e) = map (rem M) (g_queue e)" "level_qty M' pr G = level_qty M pr G"
    by auto
  then show ?case by (simp add: level_qty_def del: map_eq_conv)
qed (simp add: level_qty_def)

lemma level_total:
  assumes "sb_core h sb G" "(pr, l, ps) \<in> set G" "lread h l = Some L"
  shows "unat (pl_totalQuantity L) = level_qty (oread h) pr G"
proof -
  obtain A B where "G = A @ (pr, l, ps) # B" using assms(2) by (meson split_list)
  moreover have "unat (pl_totalQuantity L) = sum_list (map (rem (oread h)) ps)"
    using sb_core_entryD(1) [OF assms(1,2)] assms(3) by (auto simp: level_ok_def)
  ultimately show ?thesis
    using assms(1) level_qty_split [of "sb_side sb" A pr l ps B] by (simp add: sb_core_def)
qed


lemma heap_frame_pre:
  assumes "heap_frame h2 G h' G'" "\<And>q. q \<notin> set (g_orders G) \<Longrightarrow> oread h2 q = oread h q"
    "\<And>k. k \<notin> g_levels G \<Longrightarrow> lread h2 k = lread h k"
  shows "heap_frame h G h' G'"
  using assms by (simp add: heap_frame_def)

text \<open>Matching only takes entries out of the two indexes.\<close>

definition maps_shrink :: "OrderBook \<Rightarrow> OrderBook \<Rightarrow> bool" where
  "maps_shrink ob ob' \<longleftrightarrow>
     (\<forall>i. um_find (ob_orderById ob) i = None \<longrightarrow> um_find (ob_orderById ob') i = None) \<and>
     (\<forall>c. um_find (ob_clientOrderIdToOrderId ob) c = None \<longrightarrow>
          um_find (ob_clientOrderIdToOrderId ob') c = None)"

lemma maps_shrink_refl [simp]: "maps_shrink ob ob"
  by (simp add: maps_shrink_def)

lemma maps_shrink_trans: "maps_shrink ob ob1 \<Longrightarrow> maps_shrink ob1 ob2 \<Longrightarrow> maps_shrink ob ob2"
  by (simp add: maps_shrink_def)

section \<open>One iteration of the matching loop\<close>

definition trade_events ::
    "SequenceGenerator \<Rightarrow> SymbolId \<Rightarrow> Order \<Rightarrow> Order \<Rightarrow> Quantity \<Rightarrow> EngineEvent list" where
  "trade_events sg sy M incoming totalAtPrice =
     (let fill = quantity_min (o_remainingQuantity incoming) (o_remainingQuantity M);
          e = sg_nextEventId sg; s = sg_nextSequence sg
      in [TradeExecuted e s (sg_nextTradeId sg) sy (o_orderId M) (o_orderId incoming) (o_price M) fill,
          fst (fill_event (advance 1 1 sg) (reduce fill M)),
          fst (fill_event (advance 2 1 sg) (reduce fill incoming)),
          OrderBookDelta (e + 3) (s + 3) sy (o_side M) (o_price M) totalAtPrice])"

text \<open>The side the maker came from, after the fill.\<close>

fun view_after_fill :: "Quantity \<Rightarrow> order_view list \<Rightarrow> order_view list" where
  "view_after_fill q [] = []"
| "view_after_fill q ((i, p, r) # vs) = (if r \<le> q then vs else (i, p, r - q) # vs)"

lemma fill_stamped: "fill_event sg x = (fst (fill_event sg x), advance 1 0 sg)"
  by (simp add: fill_event_def)

lemma fill_event_ids [simp]:
  "event_id (fst (fill_event sg x)) = sg_nextEventId sg"
  "event_sequence (fst (fill_event sg x)) = sg_nextSequence sg"
  "trade_id_of (fst (fill_event sg x)) = []"
  by (simp_all add: fill_event_def)

lemma trade_events_stamped: "stamped sg (trade_events sg sy M x tot) (advance 4 1 sg)"
  by (simp add: stamped_def trade_events_def Let_def numeral_eq_Suc add.commute)

lemma execute_trade_ok:
  assumes inv: "ob_inv ob g" and s: "s = opposite_side (o_side incoming)"
    and m: "g_orders (g s) = m # ms" and M: "oread (ob_heap ob) m = Some M"
    and nz: "o_remainingQuantity incoming \<noteq> 0"
  defines "fill \<equiv> quantity_min (o_remainingQuantity incoming) (o_remainingQuantity M)"
  shows "\<exists>ob' tot g'. execute_trade ob sg incoming m =
      Some (ob', advance 4 1 sg, reduce fill incoming,
            trade_events sg (sc_symbolId (ob_symbolConfig ob)) M incoming tot) \<and>
    ob_inv ob' g' \<and> g' = g(s := if o_remainingQuantity M \<le> o_remainingQuantity incoming
                                 then g_remove m (g s) else g s) \<and>
    unat tot = level_qty (oread (ob_heap ob')) (o_price M) (g' s) \<and>
    side_view ob' (g' s) = view_after_fill (o_remainingQuantity incoming) (side_view ob (g s)) \<and>
    side_view ob' (g' (opposite_side s)) = side_view ob (g (opposite_side s)) \<and>
    ob_symbolConfig ob' = ob_symbolConfig ob \<and> ob_lastTradePrice ob' = Some (o_price M) \<and>
    maps_shrink ob ob'"
proof -
  let ?h = "ob_heap ob" and ?sb = "book_for_side ob s" and ?tick = "sc_tickSize (ob_symbolConfig ob)"
  have bk: "books_ok ?h (book_for_side ob) g ?tick {}" and mp: "maps_ok ob (oread ?h) (all_orders g)"
    and un: "uncrossed g" using inv by (auto simp: ob_inv_def)
  note b = books_okD [OF bk]
  have core: "sb_core ?h ?sb (g s)" and ne: "\<forall>e \<in> set (g s). g_queue e \<noteq> []"
    and al: "alive ?h (g_orders (g s))" and cached: "sb_cachedBestLevel ?sb = best_of (g s)"
    using b(7) [of s] by (auto simp: sb_ok_def)
  have dist: "distinct (g_orders (g s))" using core by (simp add: sb_core_def)
  have m_in: "m \<in> set (g_orders (g s))" using m by simp
  then obtain A pr l xs ys B where G: "g s = A @ (pr, l, xs @ m # ys) # B" by (rule g_orders_split)
  have mem: "(pr, l, xs @ m # ys) \<in> set (g s)" using G by simp
  obtain L where L: "lread ?h l = Some L" "pl_price L = pr"
    using sb_core_entryD(1) [OF core mem] by auto
  have Mf: "o_price M = pr" "o_side M = s" "o_priceLevel M = Some l"
    using sb_core_entryD(2) [OF core mem, of m] M b(8) [of s] by auto
  have fle: "fill \<le> o_remainingQuantity M" by (simp add: fill_def)
  define h1 where "h1 = write_order m (reduce fill M) ?h"
  define h2 where "h2 = write_level l (decrease_total fill L) h1"
  have u1: "upd_order m (reduce fill) ?h = Some h1" using M by (simp add: h1_def heap_simps)
  have u2: "upd_level l (decrease_total fill) h1 = Some h2"
    using L by (simp add: h2_def h1_def heap_simps)
  have r2: "oread h2 = (oread ?h)(m \<mapsto> reduce fill M)" "lread h2 = (lread ?h)(l \<mapsto> decrease_total fill L)"
    by (simp_all add: h1_def h2_def heap_simps)
  have ok2: "heap_ok h2"
    using b(1) M L by (simp add: h2_def h1_def heap_simps)
  have core2: "sb_core h2 ?sb (g s)"
    unfolding h2_def h1_def using sb_core_fill [OF core mem _ M fle L(1)] by simp
  let ?tot = "pl_totalQuantity (decrease_total fill L)"
  have tot2: "unat ?tot = level_qty (oread h2) pr (g s)"
    by (rule level_total [OF core2 mem]) (simp add: r2)
  have l_in: "l \<in> g_levels (g s)" using G by simp
  have o_dis: "set (g_orders (g s)) \<inter> set (g_orders (g (opposite_side s))) = {}"
    using b(3) by (cases s) auto
  have o_live: "set (g_orders (g t)) \<subseteq> dom (oread ?h)" for t
    using b(5) by (cases t) (auto simp: all_orders_def)
  have view: "side_view ob (g s) = order_view M # map (\<lambda>p. order_view (the (oread ?h p))) ms"
    using m M by (simp add: side_view_def)
  have fl: "is_filled (reduce fill M) \<longleftrightarrow> o_remainingQuantity M \<le> o_remainingQuantity incoming"
    using nz by (auto simp: is_filled_def quantity_is_zero_def fill_def quantity_min_def)
  show ?thesis
  proof (cases "o_remainingQuantity M \<le> o_remainingQuantity incoming")
    case True
    then have full: "fill = o_remainingQuantity M" by (auto simp: fill_def quantity_min_def)
    have al2: "rem (oread h2) q \<noteq> 0" if "q \<in> set (g_orders (g s))" "q \<noteq> m" for q
      using al that by (simp add: alive_def r2 rem_def)
    have rd: "oread h2 m = Some (reduce fill M)" by (simp add: r2)
    obtain h3 sb' h4 where r: "remove_order (Some m) h2 ?sb = Some (h3, sb')"
      "delete_order m h3 = Some h4" "sb_ok h4 sb' (g_remove m (g s))"
      "payload (oread h4) = (payload (oread h2))(m := None)"
      "heap_frame h2 (g s) h4 (g_remove m (g s))" "sb_side sb' = sb_side ?sb"
      "side_covers sb' = side_covers ?sb" "heap_ok h4"
      using remove_delete_ok [OF core2 ne al2 cached m_in rd ok2] by blast
    let ?g = "g(s := g_remove m (g s))"
    define ob' where "ob' = set_book s (h4, sb') (erase_maps M (ob\<lparr>ob_lastTradePrice := Some (o_price M)\<rparr>))"
    have ob': "ob_heap ob' = h4" "book_for_side ob' = (book_for_side ob)(s := sb')"
      "ob_symbolConfig ob' = ob_symbolConfig ob" "ob_lastTradePrice ob' = Some (o_price M)"
      "maps_shrink ob ob'"
      by (simp_all add: ob'_def erase_maps_def maps_shrink_def container_simps)
    have ex: "execute_trade ob sg incoming m = Some (ob', advance 4 1 sg, reduce fill incoming,
        trade_events sg (sc_symbolId (ob_symbolConfig ob)) M incoming ?tot)"
      using M Mf u1 u2 r(1,2) rd fl True s full
      by (simp add: execute_trade_def trade_events_def Let_def opposing_book_side ob'_def erase_maps_def
          fill_event_def numeral_eq_Suc r2 flip: fill_def)
    have pay: "payload (oread h4) q = payload (oread ?h) q" if "q \<noteq> m" for q
      using r(4) that by (simp add: r2 payload_def)
    have frame: "heap_frame ?h (g s) h4 (g_remove m (g s))"
      by (rule heap_frame_pre [OF r(5)]) (use l_in m_in in \<open>auto simp: r2\<close>)
    note rm = all_orders_remove [OF bk m_in]
    have d4: "dom (oread h4) = dom (oread ?h) - {m}"
      using r(4) M dom_payload [of "oread h4"] dom_payload [of "oread h2"] by (auto simp: r2)
    have bk': "books_ok h4 ((book_for_side ob)(s := sb')) ?g ?tick {}"
      by (rule books_ok_upd [OF bk r(3) frame r(8)])
        (use r(6,7) b(5,8,9) rm d4 in auto)
    have m_all: "m \<in> all_orders g" using m_in by (cases s) (auto simp: all_orders_def)
    have "maps_ok ob' (oread ?h) (all_orders g - {m})"
      by (rule maps_ok_erase [OF mp m_all M]) (simp_all add: ob'_def erase_maps_def)
    then have mp': "maps_ok ob' (oread h4) (all_orders g - {m})"
      by (subst maps_ok_payload [of _ _ "oread ?h"]) (use pay in auto)
    have inv': "ob_inv ob' ?g"
      unfolding ob_inv_def ob' rm(1) using bk' mp' uncrossed_remove [OF un] by simp
    have remz: "rem (oread h2) m = 0" using full by (simp add: r2 rem_def)
    have "rem (oread h4) q = rem (oread h2) q" if "q \<noteq> m" for q
      using rem_payload [of "oread h4" q "oread h2"] r(4) that by simp
    then have "level_qty (oread h4) pr (g_remove m (g s)) = level_qty (oread h2) pr (g_remove m (g s))"
      using dist by (intro level_qty_rem_cong) (auto simp: set_g_orders_remove)
    then have tot: "unat ?tot = level_qty (oread h4) pr (g_remove m (g s))"
      using tot2 level_qty_remove [OF remz] by simp
    have ms: "g_orders (g_remove m (g s)) = ms"
      using m by (simp add: g_orders_remove_distinct [OF dist])
    have "side_view ob' (g_remove m (g s)) = side_view ob (g_remove m (g s))"
    proof (rule side_view_cong)
      fix q assume "q \<in> set (g_orders (g_remove m (g s)))"
      then have "q \<noteq> m" using dist by (auto simp: set_g_orders_remove)
      then show "payload (oread (ob_heap ob')) q = payload (oread ?h) q" using pay ob'(1) by simp
    qed (use ms m o_live [of s] in auto)
    then have v1: "side_view ob' (g_remove m (g s)) =
        view_after_fill (o_remainingQuantity incoming) (side_view ob (g s))"
      using True by (simp add: view order_view_def) (simp add: side_view_def ms order_view_def)
    have v2: "side_view ob' (g (opposite_side s)) = side_view ob (g (opposite_side s))"
    proof (rule side_view_cong)
      fix q assume "q \<in> set (g_orders (g (opposite_side s)))"
      then have "q \<noteq> m" using o_dis m_in by auto
      then show "payload (oread (ob_heap ob')) q = payload (oread ?h) q" using pay ob'(1) by simp
    qed (rule o_live)
    show ?thesis
      using ex inv' tot v1 v2 ob' Mf(1) True by (intro exI [of _ ob'] exI [of _ ?tot] exI [of _ ?g]) simp
  next
    case False
    then have part: "fill = o_remainingQuantity incoming" "fill < o_remainingQuantity M"
      by (auto simp: fill_def quantity_min_def)
    have "unat (o_remainingQuantity M - fill) \<noteq> 0"
      using part(2) unat_sub [OF less_imp_le [OF part(2)]] by (simp add: word_less_nat_alt)
    then have al2: "alive h2 (g_orders (g s))"
      using al by (auto simp: alive_def r2 rem_def)
    obtain h' sb' where r: "update_after_fill_or_cancel (Some l) h2 ?sb = Some (h', sb')"
      "sb_ok h' sb' (g s)" "oread h' = oread h2" "lread h' = lread h2" "sb_side sb' = sb_side ?sb"
      "side_covers sb' = side_covers ?sb" "heap_ok h'"
      using update_after_ok [OF core2 [unfolded G]] ne al2 cached ok2 unfolding G by auto
    define ob' where "ob' = set_book s (h', sb') (ob\<lparr>ob_lastTradePrice := Some (o_price M)\<rparr>)"
    have ob': "ob_heap ob' = h'" "book_for_side ob' = (book_for_side ob)(s := sb')"
      "ob_symbolConfig ob' = ob_symbolConfig ob" "ob_lastTradePrice ob' = Some (o_price M)"
      "maps_shrink ob ob'"
      by (simp_all add: ob'_def maps_shrink_def)
    have rd: "oread h2 m = Some (reduce fill M)" by (simp add: r2)
    have ex: "execute_trade ob sg incoming m = Some (ob', advance 4 1 sg, reduce fill incoming,
        trade_events sg (sc_symbolId (ob_symbolConfig ob)) M incoming ?tot)"
      using M Mf u1 u2 r(1,3) rd fl False s
      by (simp add: execute_trade_def trade_events_def Let_def opposing_book_side ob'_def
          fill_event_def numeral_eq_Suc r2 flip: fill_def)
    have g_id: "g(s := g s) = g" by simp
    have frame: "heap_frame ?h (g s) h' (g s)"
      using l_in m_in r(3,4) by (auto simp: heap_frame_def r2)
    have d': "dom (oread h') = dom (oread ?h)" using M by (auto simp: r(3) r2)
    have bk': "books_ok h' ((book_for_side ob)(s := sb')) g ?tick {}"
      using books_ok_upd [OF bk r(2) frame r(7)] r(5,6) b(5,8,9) d' o_dis by simp
    have fields: "(\<exists>y. oread h' p = Some y \<and> P (o_orderId y) (o_clientOrderId y)) \<longleftrightarrow>
        (\<exists>y. oread ?h p = Some y \<and> P (o_orderId y) (o_clientOrderId y))" for p P
      using M by (auto simp: r(3) r2)
    have mp': "maps_ok ob' (oread h') (all_orders g)"
      using mp fields [of _ "\<lambda>i c. i = _"] fields [of _ "\<lambda>i c. c = _ \<and> i = _"]
      by (simp add: maps_ok_def ob'_def)
    have inv': "ob_inv ob' g"
      unfolding ob_inv_def ob' using bk' mp' un by simp
    have tot: "unat ?tot = level_qty (oread h') pr (g s)"
      using tot2 r(3) by simp
    have "m \<notin> set ms" using m dist by simp
    then have v1: "side_view ob' (g s) = view_after_fill (o_remainingQuantity incoming) (side_view ob (g s))"
      using False M by (simp add: view order_view_def)
        (simp add: side_view_def m ob'(1) r(3) r2 order_view_def part(1))
    have v2: "side_view ob' (g (opposite_side s)) = side_view ob (g (opposite_side s))"
      by (rule side_view_cong) (use ob'(1) o_dis m_in o_live r(3) r2 in \<open>auto simp: payload_def\<close>)
    show ?thesis
      using ex inv' tot v1 v2 ob' Mf(1) False g_id
      by (intro exI [of _ ob'] exI [of _ ?tot] exI [of _ g]) simp
  qed
qed

end
