(* ===== verification/Matching.thy ===== *)
theory Matching
  imports OrderBookInv
begin

text \<open>
  The loop of \<open>OrderBook::match_incoming_order\<close> refines price-time priority matching on the flat
  list of resting orders (\<open>match_spec\<close>): the trades it reports are the fills of the reference,
  what is left of both sides is what the reference leaves, and the loop always terminates
  without undefined behaviour.
\<close>

section \<open>Matching\<close>

text \<open>
  The reference: price-time priority on the flat list of resting orders, best first.  It returns
  the fills (maker, price, quantity), the quantity left over and the orders that stay.
\<close>

fun match_spec :: "Side \<Rightarrow> Price \<Rightarrow> Quantity \<Rightarrow> order_view list \<Rightarrow>
    order_view list \<times> Quantity \<times> order_view list" where
  "match_spec s pr q [] = ([], q, [])"
| "match_spec s pr q ((i, p, r) # vs) =
     (if q = 0 \<or> \<not> crosses s pr p then ([], q, (i, p, r) # vs)
      else if r \<le> q then
        (let (fills, q', vs') = match_spec s pr (q - r) vs in ((i, p, r) # fills, q', vs'))
      else ([(i, p, q)], 0, (i, p, r - q) # vs))"

fun trade_of :: "EngineEvent \<Rightarrow> order_view list" where
  "trade_of (TradeExecuted e s t sy maker taker p q) = [(maker, p, q)]"
| "trade_of _ = []"

definition trades_of :: "EngineEvent list \<Rightarrow> order_view list" where
  "trades_of evs = concat (map trade_of evs)"

lemma trades_of_simps [simp]:
  "trades_of [] = []" "trades_of (e # evs) = trade_of e @ trades_of evs"
  "trades_of (evs @ evs') = trades_of evs @ trades_of evs'"
  by (simp_all add: trades_of_def)

lemma trade_of_fill_event [simp]: "trade_of (fst (fill_event sg x)) = []"
  by (simp add: fill_event_def)

lemma trades_of_trade_events:
  "trades_of (trade_events sg sy M x tot) =
     [(o_orderId M, o_price M, quantity_min (o_remainingQuantity x) (o_remainingQuantity M))]"
  by (simp add: trade_events_def Let_def)

lemma trade_events_length [simp]:
  "length (trade_events sg sy M x tot) = 4" "length (trade_ids (trade_events sg sy M x tot)) = 1"
  by (simp_all add: trade_events_def Let_def)

lemma match_spec_nothing:
  "(case vs of [] \<Rightarrow> True | (i, p, r) # _ \<Rightarrow> \<not> crosses s pr p) \<or> q = 0 \<Longrightarrow> match_spec s pr q vs = ([], q, vs)"
  by (cases vs) (auto split: prod.splits)

lemma crosses_level_eq: "crosses_level = crosses"
  by (simp add: crosses_level_def crosses_def fun_eq_iff)

text \<open>The head of a side: the order the loop looks at, and the price it compares with.\<close>

lemma side_head:
  assumes inv: "ob_inv ob g"
  shows "best_order (ob_heap ob) (book_for_side ob s) = Some (first_or (g_orders (g s)) None)"
    and "g_orders (g s) = m # ms \<Longrightarrow>
      \<exists>M. oread (ob_heap ob) m = Some M \<and>
        price_crosses pr (ob_heap ob) (book_for_side ob s) = Some (crosses s pr (o_price M)) \<and>
        side_view ob (g s) = order_view M # map (\<lambda>p. order_view (the (oread (ob_heap ob) p))) ms \<and>
        o_remainingQuantity M \<noteq> 0"
proof -
  have bk: "books_ok (ob_heap ob) (book_for_side ob) g (sc_tickSize (ob_symbolConfig ob)) {}"
    using inv by (simp add: ob_inv_def)
  note b = books_okD(7,8) [OF bk, of s]
  show "best_order (ob_heap ob) (book_for_side ob s) = Some (first_or (g_orders (g s)) None)"
    by (rule best_order_ok [OF b(1)])
  assume m: "g_orders (g s) = m # ms"
  then obtain p l ps G where G: "g s = (p, l, ps) # G" by (cases "g s") auto
  have core: "sb_core (ob_heap ob) (book_for_side ob s) (g s)" and "ps \<noteq> []"
    using b(1) G by (auto simp: sb_ok_def)
  then have "m \<in> set ps" using m G by (cases ps) auto
  then obtain M where M: "oread (ob_heap ob) m = Some M" "o_price M = p"
    using sb_core_entryD(2) [OF core, of p l ps m] G by auto
  have "rem (oread (ob_heap ob)) m \<noteq> 0" using b(1) m by (auto simp: sb_ok_def alive_def)
  then have "o_remainingQuantity M \<noteq> 0" using M by (auto simp: rem_def)
  then show "\<exists>M. oread (ob_heap ob) m = Some M \<and>
        price_crosses pr (ob_heap ob) (book_for_side ob s) = Some (crosses s pr (o_price M)) \<and>
        side_view ob (g s) = order_view M # map (\<lambda>p. order_view (the (oread (ob_heap ob) p))) ms \<and>
        o_remainingQuantity M \<noteq> 0"
    using M price_crosses_ok [OF b(1), of pr] b(2) G m by (auto simp: side_view_def)
qed

lemma match_step_none:
  assumes inv: "ob_inv ob g" and s: "s = opposite_side (o_side incoming)"
    and stop: "o_remainingQuantity incoming = 0 \<or>
      (case side_view ob (g s) of [] \<Rightarrow> True | (i, p, r) # _ \<Rightarrow> \<not> crosses s (o_price incoming) p)"
  shows "match_step ob sg incoming = Some None"
proof (cases "g_orders (g s)")
  case Nil
  then show ?thesis
    using side_head(1) [OF inv, of s] s
    by (simp add: match_step_def Let_def opposing_book_side)
next
  case (Cons m ms)
  obtain M where "oread (ob_heap ob) m = Some M"
    "price_crosses (o_price incoming) (ob_heap ob) (book_for_side ob s) =
       Some (crosses s (o_price incoming) (o_price M))"
    "side_view ob (g s) = order_view M # map (\<lambda>p. order_view (the (oread (ob_heap ob) p))) ms"
    using side_head(2) [OF inv Cons] by blast
  then show ?thesis
    using side_head(1) [OF inv, of s] s stop Cons
    by (auto simp: match_step_def Let_def opposing_book_side quantity_is_zero_def order_view_def)
qed

lemma match_loop_ok:
  assumes inv: "ob_inv ob g" and s: "s = opposite_side (o_side incoming)"
  shows "\<exists>ob' evs g'. match_loop ob sg incoming events =
      Some (ob', advance (length evs) (length (trade_ids evs)) sg,
            incoming\<lparr>o_remainingQuantity :=
              fst (snd (match_spec s (o_price incoming) (o_remainingQuantity incoming) (side_view ob (g s))))\<rparr>,
            events @ evs) \<and>
    ob_inv ob' g' \<and> g' (opposite_side s) = g (opposite_side s) \<and>
    match_spec s (o_price incoming) (o_remainingQuantity incoming) (side_view ob (g s)) =
      (trades_of evs, fst (snd (match_spec s (o_price incoming) (o_remainingQuantity incoming) (side_view ob (g s)))),
       side_view ob' (g' s)) \<and>
    side_view ob' (g' (opposite_side s)) = side_view ob (g (opposite_side s)) \<and>
    ob_symbolConfig ob' = ob_symbolConfig ob \<and> maps_shrink ob ob' \<and>
    stamped sg evs (advance (length evs) (length (trade_ids evs)) sg)"
  using assms
proof (induction "length (g_orders (g s))" arbitrary: ob g incoming sg events)
  case n: (0 g ob incoming sg events)
  then have v: "side_view ob (g s) = []" by (simp add: side_view_def)
  have "match_step ob sg incoming = Some None"
    by (rule match_step_none [OF n.prems]) (simp add: v)
  then have "match_loop ob sg incoming events = Some (ob, sg, incoming, events)"
    by (simp add: match_loop.simps)
  then show ?case
    using n.prems v by (intro exI [of _ ob] exI [of _ "[]"] exI [of _ g]) simp
next
  case (Suc n g ob incoming sg events)
  let ?spec = "match_spec s (o_price incoming) (o_remainingQuantity incoming) (side_view ob (g s))"
  show ?case
  proof (cases "o_remainingQuantity incoming = 0 \<or>
      (case side_view ob (g s) of [] \<Rightarrow> True | (i, p, r) # _ \<Rightarrow> \<not> crosses s (o_price incoming) p)")
    case True
    have "match_step ob sg incoming = Some None"
      by (rule match_step_none [OF Suc.prems True])
    then have "match_loop ob sg incoming events = Some (ob, sg, incoming, events)"
      by (simp add: match_loop.simps)
    moreover have "?spec = ([], o_remainingQuantity incoming, side_view ob (g s))"
      by (rule match_spec_nothing) (use True in auto)
    ultimately show ?thesis
      using Suc.prems by (intro exI [of _ ob] exI [of _ "[]"] exI [of _ g]) simp
  next
    case False
    obtain m ms where m: "g_orders (g s) = m # ms" using Suc.hyps(2) by (cases "g_orders (g s)") auto
    obtain M where M: "oread (ob_heap ob) m = Some M"
      "price_crosses (o_price incoming) (ob_heap ob) (book_for_side ob s) =
         Some (crosses s (o_price incoming) (o_price M))"
      "side_view ob (g s) = order_view M # map (\<lambda>p. order_view (the (oread (ob_heap ob) p))) ms"
      using side_head(2) [OF Suc.prems(1) m] by blast
    let ?vs = "map (\<lambda>p. order_view (the (oread (ob_heap ob) p))) ms"
    have nz: "o_remainingQuantity incoming \<noteq> 0" and cr: "crosses s (o_price incoming) (o_price M)"
      using False M(3) by (auto simp: order_view_def)
    let ?fill = "quantity_min (o_remainingQuantity incoming) (o_remainingQuantity M)"
    let ?in = "reduce ?fill incoming"
    obtain ob1 tot g1 where e: "execute_trade ob sg incoming m = Some (ob1, advance 4 1 sg, ?in,
        trade_events sg (sc_symbolId (ob_symbolConfig ob)) M incoming tot)"
      "ob_inv ob1 g1" "g1 = g(s := if o_remainingQuantity M \<le> o_remainingQuantity incoming
          then g_remove m (g s) else g s)"
      "side_view ob1 (g1 s) = view_after_fill (o_remainingQuantity incoming) (side_view ob (g s))"
      "side_view ob1 (g1 (opposite_side s)) = side_view ob (g (opposite_side s))"
      "ob_symbolConfig ob1 = ob_symbolConfig ob" "maps_shrink ob ob1"
      using execute_trade_ok [OF Suc.prems m M(1) nz] by blast
    let ?evs = "trade_events sg (sc_symbolId (ob_symbolConfig ob)) M incoming tot"
    have step: "match_step ob sg incoming = Some (Some (ob1, advance 4 1 sg, ?in, ?evs))"
      using side_head(1) [OF Suc.prems(1), of s] m M(2) cr nz e(1) Suc.prems(2)
      by (simp add: match_step_def quantity_is_zero_def opposing_book_side)
    have loop: "match_loop ob sg incoming events = match_loop ob1 (advance 4 1 sg) ?in (events @ ?evs)"
      using step by (subst match_loop.simps) simp
    have st: "stamped sg ?evs (advance 4 1 sg)" by (rule trade_events_stamped)
    have s': "s = opposite_side (o_side ?in)" using Suc.prems(2) by simp
    show ?thesis
    proof (cases "o_remainingQuantity M \<le> o_remainingQuantity incoming")
      case True
      then have full: "?fill = o_remainingQuantity M" by (auto simp: quantity_min_def)
      have dist: "distinct (g_orders (g s))"
        using books_okD(7) [of _ _ g _ _ s] Suc.prems(1) by (auto simp: ob_inv_def sb_ok_def sb_core_def)
      have len: "n = length (g_orders (g1 s))"
        using Suc.hyps(2) m True by (simp add: e(3) g_orders_remove_distinct [OF dist])
      have v1: "side_view ob1 (g1 s) = ?vs" using e(4) M(3) True by (simp add: order_view_def)
      obtain ob2 evs2 g2 where IH: "match_loop ob1 (advance 4 1 sg) ?in (events @ ?evs) =
          Some (ob2, advance (length evs2) (length (trade_ids evs2)) (advance 4 1 sg),
            ?in\<lparr>o_remainingQuantity := fst (snd (match_spec s (o_price ?in) (o_remainingQuantity ?in) ?vs))\<rparr>,
            (events @ ?evs) @ evs2)"
        "ob_inv ob2 g2" "g2 (opposite_side s) = g1 (opposite_side s)"
        "match_spec s (o_price ?in) (o_remainingQuantity ?in) ?vs =
          (trades_of evs2, fst (snd (match_spec s (o_price ?in) (o_remainingQuantity ?in) ?vs)),
           side_view ob2 (g2 s))"
        "side_view ob2 (g2 (opposite_side s)) = side_view ob1 (g1 (opposite_side s))"
        "ob_symbolConfig ob2 = ob_symbolConfig ob1" "maps_shrink ob1 ob2"
        "stamped (advance 4 1 sg) evs2 (advance (length evs2) (length (trade_ids evs2)) (advance 4 1 sg))"
        using Suc.hyps(1) [OF len e(2) s', of "advance 4 1 sg" "events @ ?evs"] unfolding v1 by blast
      have spec: "?spec = (let (fills, q', vs') = match_spec s (o_price incoming)
            (o_remainingQuantity incoming - o_remainingQuantity M) ?vs
          in ((o_orderId M, o_price M, o_remainingQuantity M) # fills, q', vs'))"
        using M(3) nz cr True by (simp add: order_view_def)
      have st2: "stamped sg (?evs @ evs2) (advance (length (?evs @ evs2)) (length (trade_ids (?evs @ evs2))) sg)"
        using stamped_append [OF st IH(8)] by simp
      show ?thesis
      proof (intro exI [of _ ob2] exI [of _ "?evs @ evs2"] exI [of _ g2] conjI)
        show "?spec = (trades_of (?evs @ evs2), fst (snd ?spec), side_view ob2 (g2 s))"
          using IH(4) full
          by (cases "match_spec s (o_price incoming) (o_remainingQuantity incoming - o_remainingQuantity M) ?vs")
            (simp add: spec trades_of_trade_events)
        show "match_loop ob sg incoming events = Some (ob2, advance (length (?evs @ evs2))
            (length (trade_ids (?evs @ evs2))) sg, incoming\<lparr>o_remainingQuantity := fst (snd ?spec)\<rparr>,
            events @ ?evs @ evs2)"
          using loop IH(1) full
          by (cases "match_spec s (o_price incoming) (o_remainingQuantity incoming - o_remainingQuantity M) ?vs")
            (simp add: spec reduce_def)
      qed (use IH e st2 maps_shrink_trans [OF e(7) IH(7)] in simp_all)
    next
      case False
      then have part: "?fill = o_remainingQuantity incoming" by (simp add: quantity_min_def not_le)
      have v1: "side_view ob1 (g1 s) =
          (o_orderId M, o_price M, o_remainingQuantity M - o_remainingQuantity incoming) # ?vs"
        using e(4) M(3) False by (simp add: order_view_def)
      have spec: "?spec = ([(o_orderId M, o_price M, o_remainingQuantity incoming)], 0, side_view ob1 (g1 s))"
        using M(3) nz cr False v1 by (simp add: order_view_def)
      have "match_step ob1 (advance 4 1 sg) ?in = Some None"
        by (rule match_step_none [OF e(2) s']) (simp add: part)
      then have "match_loop ob1 (advance 4 1 sg) ?in (events @ ?evs) =
          Some (ob1, advance 4 1 sg, ?in, events @ ?evs)"
        by (simp add: match_loop.simps)
      then show ?thesis
        using loop e st part False
        by (intro exI [of _ ob1] exI [of _ ?evs] exI [of _ g1])
          (simp add: spec trades_of_trade_events reduce_def)
    qed
  qed
qed

end
