(* ===== verification/Placing.thy ===== *)
theory Placing
  imports Matching
begin

text \<open>
  Placing and cancelling (\<open>OrderBook::process_place\<close>, \<open>process_cancel\<close>): the fill-or-kill check
  agrees with the reference matcher, an accepted order is matched and its remainder rests behind
  the orders of its price, a cancel releases exactly what was left, and every branch keeps the
  invariant of the book and numbers its events without a gap.
\<close>

section \<open>The quantity a side offers\<close>

text \<open>The lots the reference matcher could take: the crossing prefix of the side.\<close>

definition crossing_qty :: "Side \<Rightarrow> Price \<Rightarrow> order_view list \<Rightarrow> nat" where
  "crossing_qty s pr vs =
     sum_list (map (\<lambda>(i, p, r). unat r) (takeWhile (\<lambda>(i, p, r). crosses s pr p) vs))"

lemma crossing_qty_simps [simp]:
  "crossing_qty s pr [] = 0"
  "crossing_qty s pr ((i, p, r) # vs) = (if crosses s pr p then unat r + crossing_qty s pr vs else 0)"
  by (simp_all add: crossing_qty_def)

lemma match_spec_left:
  "unat (fst (snd (match_spec s pr q vs))) = unat q - crossing_qty s pr vs"
proof (induction s pr q vs rule: match_spec.induct)
  case (2 s pr q i p r vs)
  then show ?case
    by (auto simp: Let_def unat_minus_le word_le_nat_alt split: prod.splits)
qed simp

definition traded :: "order_view list \<Rightarrow> nat" where
  "traded vs = sum_list (map (\<lambda>(i, p, r). unat r) vs)"

lemma traded_simps [simp]: "traded [] = 0" "traded ((i, p, r) # vs) = unat r + traded vs"
  by (simp_all add: traded_def)

text \<open>Nothing is created or lost: the fills and the leftover add up to the incoming quantity.\<close>

lemma match_spec_conserves:
  "match_spec s pr q vs = (fills, q', vs') \<Longrightarrow>
     traded fills + unat q' = unat q \<and> traded fills + traded vs' = traded vs"
proof (induction s pr q vs arbitrary: fills q' vs' rule: match_spec.induct)
  case (2 s pr q i p r vs)
  show ?case
  proof (cases "\<not> (q = 0 \<or> \<not> crosses s pr p) \<and> r \<le> q")
    case True
    obtain f1 q1 v1 where m: "match_spec s pr (q - r) vs = (f1, q1, v1)"
      by (cases "match_spec s pr (q - r) vs")
    have "traded f1 + unat q1 = unat (q - r) \<and> traded f1 + traded v1 = traded vs"
      using 2(1) m True by blast
    moreover have "unat (q - r) = unat q - unat r" "unat r \<le> unat q"
      using True by (simp_all add: unat_minus_le word_le_nat_alt)
    ultimately show ?thesis using 2(2) True m by auto
  next
    case False
    have "\<not> r \<le> q \<Longrightarrow> unat (r - q) = unat r - unat q \<and> unat q \<le> unat r"
      by (simp add: unat_minus_le not_le word_less_nat_alt less_imp_le word_le_nat_alt)
    then show ?thesis using 2(2) False by (auto split: if_splits)
  qed
qed simp

text \<open>When something is left over, the side that remains no longer crosses.\<close>

lemma match_spec_rest:
  "match_spec s pr q vs = (fills, q', vs') \<Longrightarrow> q' \<noteq> 0 \<Longrightarrow>
     (case vs' of [] \<Rightarrow> True | (i, p, r) # _ \<Rightarrow> \<not> crosses s pr p)"
proof (induction s pr q vs arbitrary: fills rule: match_spec.induct)
  case (2 s pr q i p r vs)
  show ?case
  proof (cases "\<not> (q = 0 \<or> \<not> crosses s pr p) \<and> r \<le> q")
    case True
    obtain f1 q1 v1 where m: "match_spec s pr (q - r) vs = (f1, q1, v1)"
      by (cases "match_spec s pr (q - r) vs")
    then have "q1 = q'" "v1 = vs'" using 2(2) True by auto
    then show ?thesis using 2(1) m True 2(3) by blast
  next
    case False
    then show ?thesis using 2(2,3) by (auto split: if_splits)
  qed
qed simp

text \<open>Each fill is at the maker's price, which the incoming price crosses.\<close>

lemma match_spec_prices:
  "match_spec s pr q vs = (fills, q', vs') \<Longrightarrow> \<forall>(i, p, r) \<in> set fills. crosses s pr p"
proof (induction s pr q vs arbitrary: fills q' vs' rule: match_spec.induct)
  case (2 s pr q i p r vs)
  then show ?case
    by (auto simp: Let_def split: if_splits prod.splits) blast+
qed simp

section \<open>The levels of a side, collected and sorted\<close>

fun occupied :: "level_ptr option list \<Rightarrow> level_ptr list" where
  "occupied [] = []"
| "occupied (None # ls) = occupied ls"
| "occupied (Some l # ls) = l # occupied ls"

lemma set_occupied: "l \<in> set (occupied ls) \<longleftrightarrow> Some l \<in> set ls"
  by (induction ls rule: occupied.induct) auto

lemma occupied_append: "occupied (xs @ ys) = occupied xs @ occupied ys"
  by (induction xs rule: occupied.induct) auto

lemma occupied_map_Some: "occupied (map (Some \<circ> f) xs) = map f xs"
  by (induction xs) auto

lemma distinct_occupied:
  "(\<And>i j l. i < length ls \<Longrightarrow> j < length ls \<Longrightarrow> ls ! i = Some l \<Longrightarrow> ls ! j = Some l \<Longrightarrow> i = j) \<Longrightarrow>
     distinct (occupied ls)"
proof (induction ls rule: occupied.induct)
  case (2 ls)
  have "i = j" if "i < length ls" "j < length ls" "ls ! i = Some l" "ls ! j = Some l" for i j l
    using "2.prems" [of "Suc i" "Suc j" l] that by simp
  then show ?case using "2.IH" by simp
next
  case (3 l ls)
  have "i = j" if "i < length ls" "j < length ls" "ls ! i = Some k" "ls ! j = Some k" for i j k
    using "3.prems" [of "Suc i" "Suc j" k] that by simp
  moreover have "Some l \<notin> set ls"
    using "3.prems" [of 0 "Suc _" l] by (auto simp: in_set_conv_nth)
  ultimately show ?case using "3.IH" by (simp add: set_occupied)
qed simp

lemma active_levels_eq:
  "(\<And>l. l \<in> set (occupied ls) \<Longrightarrow> \<exists>L. lread h l = Some L \<and> \<not> level_empty L) \<Longrightarrow>
     active_levels h ls = Some (map (\<lambda>l. the (lread h l)) (occupied ls))"
proof (induction h ls rule: active_levels.induct)
  case (3 h l ls)
  then obtain L where "lread h l = Some L" "\<not> level_empty L" by auto
  then show ?case using 3 by auto
qed simp_all

lemma slot_surj:
  assumes "ladder_ok ld" "i < rl_capacity ld"
  shows "\<exists>p. ladder_covers ld p \<and> slot_of ld p = i"
proof -
  have h: "rl_headIndex ld < rl_capacity ld" using assms by (auto simp: ladder_ok_def)
  let ?k = "if i < rl_headIndex ld then i + rl_capacity ld - rl_headIndex ld else i - rl_headIndex ld"
  have "?k < rl_capacity ld" "(rl_headIndex ld + ?k) mod rl_capacity ld = i"
    using h assms(2) by (auto simp: mod_if)
  then show ?thesis
    using offset_surj [of ?k ld] by (auto simp: slot_of_offset)
qed

text \<open>The addresses the code collects are exactly the levels of the side, each once.\<close>

lemma collected_levels:
  assumes ok: "sb_ok h sb G"
  defines "ls \<equiv> rl_slots (sb_ringPriceLadder sb) @ map (Some \<circ> snd) (fm_levels (sb_farPriceMap sb))"
  shows "set (occupied ls) = snd ` set (map g_level G)" and "distinct (occupied ls)"
proof -
  let ?ld = "sb_ringPriceLadder sb" and ?fm = "sb_farPriceMap sb"
  have core: "sb_core h sb G" using ok by (simp add: sb_ok_def)
  have c: "containers_ok sb"
    "\<And>p l. side_covers sb p \<Longrightarrow> side_lookup sb p = Some l \<longleftrightarrow> (p, l) \<in> set (map g_level G)"
    "\<And>e. e \<in> set G \<Longrightarrow> side_covers sb (fst e)" "distinct (map snd (map g_level G))"
    using core by (auto simp: sb_core_def)
  have lad: "ladder_ok ?ld" "length (rl_slots ?ld) = rl_capacity ?ld"
    using c(1) by (auto simp: containers_ok_def ladder_ok_def)
  have slot: "\<exists>p. slot_of ?ld p = i \<and> ladder_covers ?ld p \<and> (p, l) \<in> set (map g_level G)"
    if i: "i < length (rl_slots ?ld)" "rl_slots ?ld ! i = Some l" for i l
  proof -
    obtain p where p: "ladder_covers ?ld p" "slot_of ?ld p = i"
      using slot_surj [OF lad(1), of i] i(1) lad(2) by auto
    then have "side_lookup sb p = Some l"
      using i by (simp add: side_lookup_def ladder_lookup_def ladder_get_level_window ladder_covers_def)
    then show ?thesis using c(2) ladder_covers_side [OF p(1)] p by blast
  qed
  have far: "(p, l) \<in> set (fm_levels ?fm) \<longleftrightarrow> far_lookup ?fm p = Some l" for p l
    using c(1) by (simp add: containers_ok_def far_ok_def far_lookup_def sm_ok_find_iff)
  have far_cov: "side_covers sb p \<and> \<not> ladder_covers ?ld p \<and> (p, l) \<in> set (map g_level G)"
    if "far_lookup ?fm p = Some l" for p l
  proof -
    have "side_covers sb p" "\<not> ladder_covers ?ld p" using c(1) that by (auto simp: containers_ok_def)
    then show ?thesis using c(2) [of p l] that by (simp add: side_lookup_def)
  qed
  have inj: "p = q" if "(p, l) \<in> set (map g_level G)" "(q, l) \<in> set (map g_level G)" for p q l
    using c(4) that by (metis eq_key_imp_eq_value distinct_map inj_onD snd_conv fst_conv)
  have 1: "l \<in> snd ` set (map g_level G)" if l: "l \<in> set (occupied ls)" for l
  proof -
    consider "Some l \<in> set (rl_slots ?ld)" | "l \<in> snd ` set (fm_levels ?fm)"
      using l by (auto simp: ls_def occupied_append occupied_map_Some set_occupied)
    then show ?thesis
    proof cases
      case 1
      then show ?thesis using slot by (metis in_set_conv_nth snd_conv image_eqI)
    next
      case 2
      then obtain p where "(p, l) \<in> set (fm_levels ?fm)" by auto
      then have "(p, l) \<in> set (map g_level G)" using far far_cov by blast
      then show ?thesis by force
    qed
  qed
  have 2: "l \<in> set (occupied ls)" if l: "(p, l) \<in> set (map g_level G)" for p l
  proof -
    obtain e where "e \<in> set G" "g_level e = (p, l)" using l by auto
    then have cov: "side_covers sb p" using c(3) [of e] by (auto simp: g_level_def)
    then have lk: "side_lookup sb p = Some l" using c(2) l by blast
    show ?thesis
    proof (cases "ladder_covers ?ld p")
      case True
      then have "rl_slots ?ld ! slot_of ?ld p = Some l" "slot_of ?ld p < rl_capacity ?ld"
        using lk slot_of_less by (auto simp: side_lookup_def ladder_lookup_def ladder_get_level_window
            ladder_covers_def)
      then have "Some l \<in> set (rl_slots ?ld)" using lad(2) by (metis nth_mem)
      then show ?thesis by (simp add: ls_def occupied_append set_occupied)
    next
      case False
      then have "(p, l) \<in> set (fm_levels ?fm)" using lk far by (simp add: side_lookup_def)
      then show ?thesis by (force simp: ls_def occupied_append occupied_map_Some)
    qed
  qed
  show "set (occupied ls) = snd ` set (map g_level G)"
    using 1 2 by force
  have "distinct (occupied (rl_slots ?ld))"
  proof (rule distinct_occupied)
    fix i j l
    assume i: "i < length (rl_slots ?ld)" "rl_slots ?ld ! i = Some l"
      and j: "j < length (rl_slots ?ld)" "rl_slots ?ld ! j = Some l"
    obtain p q where "slot_of ?ld p = i" "(p, l) \<in> set (map g_level G)"
      "slot_of ?ld q = j" "(q, l) \<in> set (map g_level G)"
      using slot [OF i] slot [OF j] by blast
    then show "i = j" using inj by metis
  qed
  moreover have "distinct (map snd (fm_levels ?fm))"
  proof -
    have "distinct (fm_levels ?fm)"
      using c(1) sm_ok_distinct [of "fm_levels ?fm"] by (simp add: containers_ok_def far_ok_def distinct_map)
    moreover have "inj_on snd (set (fm_levels ?fm))"
    proof (rule inj_onI)
      fix a b assume ab: "a \<in> set (fm_levels ?fm)" "b \<in> set (fm_levels ?fm)" "snd a = snd b"
      then have "(fst a, snd a) \<in> set (map g_level G)" "(fst b, snd a) \<in> set (map g_level G)"
        using far far_cov by (metis prod.collapse)+
      then show "a = b" using inj ab(3) by (metis prod.collapse)
    qed
    ultimately show ?thesis by (simp add: distinct_map)
  qed
  moreover have "l \<notin> snd ` set (fm_levels ?fm)" if l: "l \<in> set (occupied (rl_slots ?ld))" for l
  proof
    assume "l \<in> snd ` set (fm_levels ?fm)"
    then obtain q where "(q, l) \<in> set (fm_levels ?fm)" by auto
    then have "far_lookup ?fm q = Some l" by (simp only: far)
    from far_cov [OF this] have q: "\<not> ladder_covers ?ld q" "(q, l) \<in> set (map g_level G)"
      by simp_all
    have "Some l \<in> set (rl_slots ?ld)" using l by (simp add: set_occupied)
    then obtain i where i: "i < length (rl_slots ?ld)" "rl_slots ?ld ! i = Some l"
      by (auto simp: in_set_conv_nth)
    from slot [OF i] obtain p where "ladder_covers ?ld p" "(p, l) \<in> set (map g_level G)" by blast
    then show False using q inj [of p l q] by simp
  qed
  ultimately show "distinct (occupied ls)"
    unfolding ls_def occupied_append occupied_map_Some distinct_append by (simp add: disjoint_iff)
qed


lemma sort_levels_sorted:
  assumes "distinct (map pl_price Ls)"
  shows "sorted_wrt (\<lambda>a b. is_better_price s (pl_price a) (pl_price b)) (sort_levels s Ls)"
    and "set (sort_levels s Ls) = set Ls"
proof -
  have strict: "sorted_wrt (\<lambda>a b. f a < f b) (sort_key f Ls)" if f: "distinct (map f Ls)"
    for f :: "PriceLevel \<Rightarrow> int"
  proof -
    have "distinct (map f (sort_key f Ls))" using f by (simp add: distinct_map)
    then have "sorted_wrt (<) (map f (sort_key f Ls))"
      by (simp add: strict_sorted_iff)
    then show ?thesis by (simp add: sorted_wrt_map)
  qed
  have "distinct (map (\<lambda>L. - pl_price L) Ls)"
    using assms by (simp add: distinct_map inj_on_def)
  then show "sorted_wrt (\<lambda>a b. is_better_price s (pl_price a) (pl_price b)) (sort_levels s Ls)"
    using strict [of "\<lambda>L. - pl_price L"] strict [OF assms]
    by (simp add: sort_levels_def is_better_price_def)
  show "set (sort_levels s Ls) = set Ls" by (simp add: sort_levels_def)
qed

definition level_records :: "book_heap \<Rightarrow> glevel list \<Rightarrow> PriceLevel list" where
  "level_records h G = map (\<lambda>e. the (lread h (snd (g_level e)))) G"

lemma active_levels_sorted_ok:
  assumes ok: "sb_ok h sb G"
  shows "active_levels_sorted h sb = Some (level_records h G)"
proof -
  let ?ls = "rl_slots (sb_ringPriceLadder sb) @ map (Some \<circ> snd) (fm_levels (sb_farPriceMap sb))"
  let ?rec = "\<lambda>l. the (lread h l)"
  have core: "sb_core h sb G" and ne: "\<forall>e \<in> set G. g_queue e \<noteq> []" using ok by (auto simp: sb_ok_def)
  have ent: "\<exists>L. lread h (snd (g_level e)) = Some L \<and> pl_price L = fst e \<and> \<not> level_empty L"
    if "e \<in> set G" for e
  proof -
    obtain p l ps where e: "e = (p, l, ps)" by (cases e)
    then show ?thesis
      using sb_core_entryD(1) [OF core, of p l ps] that ne level_ok_is_empty by fastforce
  qed
  note col = collected_levels [OF ok]
  have set_ls: "set (occupied ?ls) = (\<lambda>e. snd (g_level e)) ` set G"
    using col(1) by (simp add: image_image)
  have al: "active_levels h ?ls = Some (map ?rec (occupied ?ls))"
    by (rule active_levels_eq) (use set_ls ent in fastforce)
  have price: "pl_price (?rec (snd (g_level e))) = fst e" if "e \<in> set G" for e
    using ent [OF that] by auto
  have bf: "best_first (sb_side sb) (map g_level G)" using core by (simp add: sb_core_def)
  have inj_p: "inj_on (\<lambda>l. pl_price (?rec l)) (set (occupied ?ls))"
  proof (rule inj_onI)
    fix k l assume "k \<in> set (occupied ?ls)" "l \<in> set (occupied ?ls)"
      and eq: "pl_price (?rec k) = pl_price (?rec l)"
    then obtain d e where de: "d \<in> set G" "k = snd (g_level d)" "e \<in> set G" "l = snd (g_level e)"
      using set_ls by auto
    then have "fst (g_level d) = fst (g_level e)"
      using eq price by (simp add: g_level_def)
    moreover have "distinct (map fst (map g_level G))" using best_first_distinct [OF bf] .
    ultimately have "g_level d = g_level e"
      using de(1,3) by (metis distinct_map image_eqI inj_onD list.set_map)
    then show "k = l" using de by simp
  qed
  have dp: "distinct (map pl_price (map ?rec (occupied ?ls)))"
    using col(2) inj_p by (simp add: distinct_map comp_def)
  have sorted_rec: "sorted_wrt (\<lambda>a b. is_better_price (sb_side sb) (pl_price a) (pl_price b)) (level_records h G)"
  proof -
    have "sorted_wrt (\<lambda>a b. is_better_price (sb_side sb) (fst a) (fst b)) G"
      using bf by (simp add: best_first_def sorted_wrt_map g_level_def)
    then have "sorted_wrt (\<lambda>a b. is_better_price (sb_side sb) (pl_price (?rec (snd (g_level a))))
        (pl_price (?rec (snd (g_level b))))) G"
      by (rule sorted_wrt_mono_rel [rotated]) (simp add: price)
    then show ?thesis by (simp add: level_records_def sorted_wrt_map)
  qed
  have "sort_levels (sb_side sb) (map ?rec (occupied ?ls)) = level_records h G"
  proof (rule sorted_wrt_distinct_unique [OF sort_levels_sorted(1) [OF dp] sorted_rec])
    show "set (sort_levels (sb_side sb) (map ?rec (occupied ?ls))) = set (level_records h G)"
      using sort_levels_sorted(2) [OF dp] set_ls by (simp add: level_records_def image_image)
  qed (auto dest: is_better_price_asym)
  then show ?thesis using al by (simp add: active_levels_sorted_def)
qed

lemma unat_max_u64: "unat (-1 :: u64) = 2 ^ 64 - 1"
  by (simp add: unsigned_minus_1_eq_mask mask_eq_exp_minus_1)

lemma unat_u64_less: "unat (w :: u64) < 2 ^ 64"
  using unsigned_less [of w] by simp

text \<open>\<open>available_crossing_lots\<close> decides whether the side can fill the requested lots.\<close>

lemma crossing_lots_ok:
  assumes "list_all2 (\<lambda>L (p, n). pl_price L = p \<and> unat (pl_totalQuantity L) = n) Ls es" "unat acc < unat stop"
  shows "unat stop \<le> unat (crossing_lots s pr stop acc Ls) \<longleftrightarrow>
    unat stop \<le> unat acc + sum_list (map snd (takeWhile (\<lambda>(p, n). crosses s pr p) es))"
  using assms
proof (induction Ls es arbitrary: acc rule: list_all2_induct)
  case (Cons L Ls e es)
  obtain p n where e: "e = (p, n)" by (cases e)
  have L: "pl_price L = p" "unat (pl_totalQuantity L) = n" using Cons(1) e by auto
  show ?case
  proof (cases "crosses s pr p")
    case cr: True
    have max: "unat ((-1) - acc) = 2 ^ 64 - 1 - unat acc"
    proof -
      have "acc \<le> -1" by simp
      then show ?thesis using unat_sub [of acc "-1"] by (simp add: unat_max_u64)
    qed
    have st: "unat stop < 2 ^ 64" using unat_u64_less [of stop] by simp
    have ac: "unat acc < 2 ^ 64" using unat_u64_less [of acc] by simp
    show ?thesis
    proof (cases "(-1) - acc < pl_totalQuantity L")
      case True
      then have "2 ^ 64 \<le> unat acc + n" using max L(2) ac by (simp add: word_less_nat_alt)
      then have "unat stop \<le> unat acc + n" using st by simp
      moreover have "unat stop \<le> unat (-1 :: u64)" using st by (simp add: unat_max_u64)
      ultimately show ?thesis using True cr L e by (simp add: crosses_level_eq)
    next
      case False
      then have sum: "unat (acc + pl_totalQuantity L) = unat acc + n"
        using max L(2) ac by (intro trans [OF unat_plus_no_overflow]) (simp_all add: word_less_nat_alt)
      show ?thesis
      proof (cases "stop \<le> acc + pl_totalQuantity L")
        case True
        then have "unat stop \<le> unat acc + n" using sum by (simp add: word_le_nat_alt)
        then show ?thesis using True False cr L e by (simp add: crosses_level_eq word_le_nat_alt)
      next
        case F: False
        then have "unat (acc + pl_totalQuantity L) < unat stop" by (simp add: word_le_nat_alt)
        from Cons(3) [OF this] show ?thesis
          using F False cr L e sum by (simp add: crosses_level_eq add.assoc)
      qed
    qed
  next
    case False
    then show ?thesis using L e by (simp add: crosses_level_eq)
  qed
qed simp

lemma crossing_qty_flat:
  assumes "\<And>e. e \<in> set G \<Longrightarrow> g_queue e \<noteq> [] \<and> (\<forall>q \<in> set (g_queue e). \<exists>x. M q = Some x \<and> o_price x = fst e)"
  shows "crossing_qty s pr (map (\<lambda>p. order_view (the (M p))) (g_orders G)) =
    sum_list (map snd (takeWhile (\<lambda>(p, n). crosses s pr p)
      (map (\<lambda>e. (fst e, sum_list (map (rem M) (g_queue e)))) G)))"
  using assms
proof (induction G)
  case (Cons e G)
  let ?vs = "map (\<lambda>p. order_view (the (M p)))"
  have q: "crossing_qty s pr (?vs qs @ vs) = (if crosses s pr (fst e)
      then sum_list (map (rem M) qs) + crossing_qty s pr vs else if qs = [] then crossing_qty s pr vs else 0)"
    if "\<forall>q \<in> set qs. \<exists>x. M q = Some x \<and> o_price x = fst e" for qs vs
    using that by (induction qs) (auto simp: order_view_def rem_def)
  show ?case
    using Cons.IH Cons.prems q [of "g_queue e" "?vs (g_orders G)"] Cons.prems [of e] by simp
qed simp

lemma available_crossing_lots_ok:
  assumes inv: "ob_inv ob g" and nz: "stop \<noteq> 0"
  shows "\<exists>a. available_crossing_lots (ob_heap ob) (book_for_side ob s) pr stop = Some a \<and>
    (stop \<le> a \<longleftrightarrow> unat stop \<le> crossing_qty s pr (side_view ob (g s)))"
proof -
  let ?h = "ob_heap ob" and ?G = "g s"
  have bk: "books_ok ?h (book_for_side ob) g (sc_tickSize (ob_symbolConfig ob)) {}"
    using inv by (simp add: ob_inv_def)
  note b = books_okD(7,8) [OF bk, of s]
  have core: "sb_core ?h (book_for_side ob s) ?G" and ne: "\<forall>e \<in> set ?G. g_queue e \<noteq> []"
    using b(1) by (auto simp: sb_ok_def)
  let ?es = "map (\<lambda>e. (fst e, sum_list (map (rem (oread ?h)) (g_queue e)))) ?G"
  have flat: "crossing_qty s pr (side_view ob ?G) =
      sum_list (map snd (takeWhile (\<lambda>(p, n). crosses s pr p) ?es))"
    unfolding side_view_def
  proof (rule crossing_qty_flat)
    fix e assume e: "e \<in> set ?G"
    obtain p l ps where "e = (p, l, ps)" by (cases e)
    then show "g_queue e \<noteq> [] \<and> (\<forall>q \<in> set (g_queue e). \<exists>x. oread ?h q = Some x \<and> o_price x = fst e)"
      using sb_core_entryD(2) [OF core, of p l ps] e ne by auto
  qed
  have "list_all2 (\<lambda>L (p, n). pl_price L = p \<and> unat (pl_totalQuantity L) = n) (level_records ?h ?G) ?es"
    unfolding level_records_def list_all2_map1 list_all2_map2
  proof (rule list.rel_refl_strong)
    fix e assume e: "e \<in> set ?G"
    obtain p l ps where "e = (p, l, ps)" by (cases e)
    then show "case (fst e, sum_list (map (rem (oread ?h)) (g_queue e))) of (p, n) \<Rightarrow>
        pl_price (the (lread ?h (snd (g_level e)))) = p \<and>
        unat (pl_totalQuantity (the (lread ?h (snd (g_level e))))) = n"
      using sb_core_entryD(1) [OF core, of p l ps] e by (auto simp: level_ok_def)
  qed
  then have "unat stop \<le> unat (crossing_lots s pr stop 0 (level_records ?h ?G)) \<longleftrightarrow>
      unat stop \<le> crossing_qty s pr (side_view ob ?G)"
    using crossing_lots_ok [of "level_records ?h ?G" ?es 0 stop s pr] nz flat
    by (simp add: unat_gt_0)
  then show ?thesis
    using active_levels_sorted_ok [OF b(1)] b(2)
    by (simp add: available_crossing_lots_def word_le_nat_alt)
qed

section \<open>Coming to rest\<close>

text \<open>A new order goes behind the orders of its price, before the first worse one.\<close>

fun book_insert :: "Side \<Rightarrow> order_view \<Rightarrow> order_view list \<Rightarrow> order_view list" where
  "book_insert s v [] = [v]"
| "book_insert s v (u # us) =
     (if is_better_price s (fst (snd v)) (fst (snd u)) then v # u # us else u # book_insert s v us)"

lemma book_insert_equal:
  "\<forall>u \<in> set us. \<not> is_better_price s (fst (snd v)) (fst (snd u)) \<Longrightarrow>
     book_insert s v (us @ ws) = us @ book_insert s v ws"
  by (induction us) auto

lemma book_insert_front:
  "\<forall>u \<in> set us. is_better_price s (fst (snd v)) (fst (snd u)) \<Longrightarrow> book_insert s v us = v # us"
  by (cases us) auto

text \<open>The quantity resting at a price, seen from outside.\<close>

definition view_qty :: "Price \<Rightarrow> order_view list \<Rightarrow> nat" where
  "view_qty pr vs = sum_list (map (\<lambda>(i, p, r). if p = pr then unat r else 0) vs)"

definition flat_view :: "(order_ptr \<Rightarrow> Order option) \<Rightarrow> order_ptr list \<Rightarrow> order_view list" where
  "flat_view M ps = map (\<lambda>p. order_view (the (M p))) ps"

lemma flat_view_append [simp]: "flat_view M (ps @ qs) = flat_view M ps @ flat_view M qs"
  "flat_view M [] = []" "flat_view M (p # ps) = order_view (the (M p)) # flat_view M ps"
  by (simp_all add: flat_view_def)

lemma side_view_flat: "side_view ob G = flat_view (oread (ob_heap ob)) (g_orders G)"
  by (simp add: side_view_def flat_view_def)

text \<open>The orders of a level have its price.\<close>

definition priced :: "(order_ptr \<Rightarrow> Order option) \<Rightarrow> glevel list \<Rightarrow> bool" where
  "priced M G \<longleftrightarrow> (\<forall>e \<in> set G. \<forall>q \<in> set (g_queue e). \<exists>x. M q = Some x \<and> o_price x = fst e)"

lemma sb_core_priced: "sb_core h sb G \<Longrightarrow> priced (oread h) G"
  unfolding priced_def
proof (intro ballI)
  fix e q assume c: "sb_core h sb G" and e: "e \<in> set G" and q: "q \<in> set (g_queue e)"
  obtain p l ps where t: "e = (p, l, ps)" by (cases e)
  show "\<exists>x. oread h q = Some x \<and> o_price x = fst e"
    using sb_core_entryD(2) [OF c e [unfolded t]] q t by auto
qed

lemma view_qty_append [simp]: "view_qty pr (us @ vs) = view_qty pr us + view_qty pr vs"
  by (simp add: view_qty_def)

lemma view_qty_level:
  assumes "\<forall>q \<in> set qs. \<exists>x. M q = Some x \<and> o_price x = p"
  shows "view_qty pr (flat_view M qs) = (if p = pr then sum_list (map (rem M) qs) else 0)"
  using assms
proof (induction qs)
  case (Cons q qs)
  then obtain x where x: "M q = Some x" "o_price x = p" by auto
  have "\<forall>q \<in> set qs. \<exists>x. M q = Some x \<and> o_price x = p" using Cons.prems by simp
  moreover have "rem M q = unat (o_remainingQuantity x)" using x by (simp add: rem_def)
  ultimately show ?case
    using Cons.IH x by (simp add: view_qty_def order_view_def)
qed (simp add: view_qty_def)

lemma level_qty_view:
  "priced M G \<Longrightarrow> level_qty M pr G = view_qty pr (flat_view M (g_orders G))"
proof (induction G)
  case (Cons e G)
  have 1: "\<forall>q \<in> set (g_queue e). \<exists>x. M q = Some x \<and> o_price x = fst e" and 2: "priced M G"
    using Cons.prems by (simp_all add: priced_def)
  show ?case
    using Cons.IH [OF 2] view_qty_level [OF 1, of pr] by (simp add: level_qty_def)
qed (simp add: level_qty_def view_qty_def)

lemma flat_view_insert:
  assumes bf: "best_first s (map g_level G)" and pr: "priced M G"
    and p: "M' p = Some x" "o_price x = q"
    and same: "\<And>r. r \<in> set (g_orders G) \<Longrightarrow> order_view (the (M' r)) = order_view (the (M r))"
  shows "flat_view M' (g_orders (g_insert s q l p G)) =
    book_insert s (order_view x) (flat_view M (g_orders G))"
proof -
  have prices: "u \<in> set (flat_view M (g_queue e)) \<Longrightarrow> e \<in> set G \<Longrightarrow> fst (snd u) = fst e" for u e
    using pr by (fastforce simp: priced_def flat_view_def order_view_def)
  have flat: "u \<in> set (flat_view M (g_orders H)) \<Longrightarrow> set H \<subseteq> set G \<Longrightarrow> \<exists>e \<in> set H. fst (snd u) = fst e"
    for u H
  proof (induction H)
    case (Cons e H)
    then show ?case using prices [of u e] by auto
  qed simp
  have keep: "flat_view M' qs = flat_view M qs" if "set qs \<subseteq> set (g_orders G)" for qs
    using that same by (auto simp: flat_view_def)
  have q: "fst (snd (order_view x)) = q" using p(2) by (simp add: order_view_def)
  from bf show ?thesis
  proof (cases rule: g_insert_cases [of s G q p])
    case (old A l' ps B)
    have A: "\<forall>u \<in> set (flat_view M (g_orders A @ ps)). \<not> is_better_price s q (fst (snd u))"
    proof
      fix u assume "u \<in> set (flat_view M (g_orders A @ ps))"
      then have "u \<in> set (flat_view M (g_orders (A @ [(q, l', ps)])))" by simp
      moreover have "set (A @ [(q, l', ps)]) \<subseteq> set G" using old(1) by auto
      ultimately have "\<exists>e \<in> set (A @ [(q, l', ps)]). fst (snd u) = fst e" by (rule flat)
      then obtain e where e: "e \<in> set (A @ [(q, l', ps)])" "fst (snd u) = fst e" by blast
      have "e \<in> set A \<Longrightarrow> is_better_price s (fst e) q"
        using bf old(1) by (fastforce simp: best_first_append g_level_def)
      then show "\<not> is_better_price s q (fst (snd u))"
        using e is_better_price_asym by auto
    qed
    have B: "\<forall>u \<in> set (flat_view M (g_orders B)). is_better_price s q (fst (snd u))"
    proof
      fix u assume "u \<in> set (flat_view M (g_orders B))"
      moreover have "set B \<subseteq> set G" using old(1) by auto
      ultimately have "\<exists>e \<in> set B. fst (snd u) = fst e" by (rule flat)
      then obtain e where "e \<in> set B" "fst (snd u) = fst e" by blast
      then show "is_better_price s q (fst (snd u))"
        using bf old(1) by (fastforce simp: best_first_append g_level_def)
    qed
    have "book_insert s (order_view x) (flat_view M (g_orders A @ ps) @ flat_view M (g_orders B)) =
        flat_view M (g_orders A @ ps) @ order_view x # flat_view M (g_orders B)"
      using book_insert_equal [of "flat_view M (g_orders A @ ps)" s "order_view x"] A
        book_insert_front [of "flat_view M (g_orders B)" s "order_view x"] B q by simp
    moreover have "flat_view M' (g_orders A) = flat_view M (g_orders A)" "flat_view M' ps = flat_view M ps"
      "flat_view M' (g_orders B) = flat_view M (g_orders B)"
      by (rule keep; use old(1) in auto)+
    ultimately show ?thesis
      using p(1) unfolding old(2) unfolding old(1) by simp
  next
    case (new A B)
    have sub: "set A \<subseteq> set G" "set B \<subseteq> set G" using new(1) by auto
    have A: "\<forall>u \<in> set (flat_view M (g_orders A)). \<not> is_better_price s q (fst (snd u))"
      by (metis flat [OF _ sub(1)] new(3) is_better_price_asym)
    have B: "\<forall>u \<in> set (flat_view M (g_orders B)). is_better_price s q (fst (snd u))"
      by (metis flat [OF _ sub(2)] new(4))
    have "flat_view M' (g_orders A) = flat_view M (g_orders A)"
      "flat_view M' (g_orders B) = flat_view M (g_orders B)"
      by (rule keep; use new(1) in auto)+
    moreover have "book_insert s (order_view x) (flat_view M (g_orders A) @ flat_view M (g_orders B)) =
        flat_view M (g_orders A) @ order_view x # flat_view M (g_orders B)"
      using book_insert_equal [of "flat_view M (g_orders A)" s "order_view x"] A
        book_insert_front [of "flat_view M (g_orders B)" s "order_view x"] B q by simp
    ultimately show ?thesis
      using p(1) unfolding new(2) unfolding new(1) by simp
  qed
qed


lemma crosses_price:
  "\<not> crosses (opposite_side s) q a \<longleftrightarrow> (if s = Buy then q < a else a < q)"
  by (cases s) (auto simp: crosses_def)

lemma books_ok_new_order:
  assumes bk: "books_ok h bk g tick {}" and new: "new_order x h = (p, h')"
  shows "books_ok h' bk g tick {p}" "p \<notin> all_orders g" "oread h' = (oread h)(p \<mapsto> x)" "lread h' = lread h"
proof -
  note b = books_okD [OF bk]
  note n = new_order_props [OF b(1) new]
  show p: "p \<notin> all_orders g" using b(5) n(2) by auto
  have "sb_ok h' (bk s) (g s)" for s
    by (rule sb_ok_frame [OF b(7)]) (use p n in \<open>cases s; auto simp: all_orders_def\<close>)+
  then show "books_ok h' bk g tick {p}"
    using bk n p by (auto simp: books_ok_def)
  show "oread h' = (oread h)(p \<mapsto> x)" "lread h' = lread h" by (fact n)+
qed

lemma all_orders_side: "all_orders g = set (g_orders (g s)) \<union> set (g_orders (g (opposite_side s)))"
  by (cases s) (auto simp: all_orders_def)

lemma set_all_orders_insert:
  "set (g_orders (g_insert s q l p G)) = insert p (set (g_orders G))"
  by (induction s q l p G rule: g_insert.induct) auto

lemma prices_g_insert: "set (map fst (g_insert s q l p G)) = insert q (set (map fst G))"
  by (induction s q l p G rule: g_insert.induct) auto

lemma uncrossed_prices:
  "uncrossed g \<longleftrightarrow> (\<forall>b \<in> fst ` set (g Buy). \<forall>a \<in> fst ` set (g Sell). b < a)"
  by (simp add: uncrossed_def)

lemma detach_view: "detach_links y = detach_links x \<Longrightarrow> o_price y = o_price x \<and> order_view y = order_view x"
proof -
  assume e: "detach_links y = detach_links x"
  show ?thesis
    using arg_cong [OF e, of o_price] arg_cong [OF e, of o_orderId] arg_cong [OF e, of o_remainingQuantity]
    by (simp add: order_view_def)
qed

lemma payload_view:
  assumes "payload M' r = payload M r" "M r = Some z"
  shows "order_view (the (M' r)) = order_view z"
proof -
  have "map_option detach_links (M' r) = Some (detach_links z)"
    using assms by (simp add: payload_def)
  then obtain y where y: "M' r = Some y" "detach_links y = detach_links z" by (cases "M' r") simp_all
  then show ?thesis using detach_view [OF y(2)] by simp
qed

text \<open>Resting brings one order id and one client order id into the indexes.\<close>

definition maps_grow :: "OrderId \<Rightarrow> ClientOrderId \<Rightarrow> OrderBook \<Rightarrow> OrderBook \<Rightarrow> bool" where
  "maps_grow i c ob ob' \<longleftrightarrow>
     (\<forall>j. j \<noteq> i \<longrightarrow> um_find (ob_orderById ob) j = None \<longrightarrow> um_find (ob_orderById ob') j = None) \<and>
     (\<forall>d. d \<noteq> c \<longrightarrow> um_find (ob_clientOrderIdToOrderId ob) d = None \<longrightarrow>
          um_find (ob_clientOrderIdToOrderId ob') d = None)"

lemma maps_shrink_grow: "maps_shrink ob ob' \<Longrightarrow> maps_grow i c ob ob'"
  by (simp add: maps_shrink_def maps_grow_def)

lemma maps_grow_trans: "maps_grow i c ob ob1 \<Longrightarrow> maps_grow i c ob1 ob2 \<Longrightarrow> maps_grow i c ob ob2"
  by (simp add: maps_grow_def)

lemma insert_new_ok:
  assumes inv: "ob_inv ob g" and new: "new_order x (ob_heap ob) = (p, h)"
    and x: "o_remainingQuantity x \<noteq> 0" "on_tick (sc_tickSize (ob_symbolConfig ob)) (o_price x)"
    and ids: "um_find (ob_orderById ob) (o_orderId x) = None"
      "um_find (ob_clientOrderIdToOrderId ob) (o_clientOrderId x) = None"
    and s: "s = o_side x" and nc: "\<forall>e \<in> set (g (opposite_side s)). \<not> crosses (opposite_side s) (o_price x) (fst e)"
    and fits: "view_qty (o_price x) (side_view ob (g s)) + unat (o_remainingQuantity x) < 2 ^ 64"
  shows "\<exists>ob' g' y k L. insert_remaining_as_resting (Some p) (ob\<lparr>ob_heap := h\<rparr>) = Some ob' \<and>
    ob_inv ob' g' \<and> oread (ob_heap ob') p = Some y \<and> o_price y = o_price x \<and>
    o_priceLevel y = Some k \<and> lread (ob_heap ob') k = Some L \<and>
    unat (pl_totalQuantity L) = view_qty (o_price x) (side_view ob (g s)) + unat (o_remainingQuantity x) \<and>
    side_view ob' (g' s) = book_insert s (order_view x) (side_view ob (g s)) \<and>
    side_view ob' (g' (opposite_side s)) = side_view ob (g (opposite_side s)) \<and>
    ob_symbolConfig ob' = ob_symbolConfig ob \<and> ob_lastTradePrice ob' = ob_lastTradePrice ob \<and>
    maps_grow (o_orderId x) (o_clientOrderId x) ob ob' \<and> payload (oread (ob_heap ob')) = payload (oread h)"
proof -
  let ?tick = "sc_tickSize (ob_symbolConfig ob)" and ?sb = "book_for_side ob s" and ?o = "opposite_side s"
  have bk: "books_ok (ob_heap ob) (book_for_side ob) g ?tick {}"
    and mp: "maps_ok ob (oread (ob_heap ob)) (all_orders g)" and un: "uncrossed g"
    using inv by (auto simp: ob_inv_def)
  note n = books_ok_new_order [OF bk new]
  note b = books_okD [OF n(1)]
  have core: "sb_core h ?sb (g s)" using b(7) [of s] by (simp add: sb_ok_def)
  have p: "oread h p = Some x" "p \<notin> set (g_orders (g s))" "p \<notin> set (g_orders (g ?o))"
    using n(2,3) by (auto simp: all_orders_side [of g s])
  have old: "oread h q = oread (ob_heap ob) q" if "q \<noteq> p" for q using n(3) that by simp
  have flat: "flat_view (oread h) (g_orders (g s)) = side_view ob (g s)"
    unfolding side_view_flat flat_view_def using old p(2) by (intro map_cong refl) metis
  have qty: "level_qty (oread h) (o_price x) (g s) = view_qty (o_price x) (side_view ob (g s))"
    using level_qty_view [OF sb_core_priced [OF core]] flat by simp
  have fits': "level_qty (oread h) (o_price x) (g s) + unat (o_remainingQuantity x) < 2 ^ 64"
    using fits qty by simp
  obtain h' sb' l k L y where i: "insert_resting_order p h ?sb = Some (h', sb')"
    "sb_ok h' sb' (g_insert s (o_price x) l p (g s))"
    "oread h' p = Some y" "o_priceLevel y = Some k" "lread h' k = Some L"
    "unat (pl_totalQuantity L) = level_qty (oread h) (o_price x) (g s) + unat (o_remainingQuantity x)"
    "payload (oread h') = payload (oread h)"
    "heap_frame h (g s) h' (g_insert s (o_price x) l p (g s))"
    "sb_side sb' = s" "side_covers sb' = on_tick ?tick" "heap_ok h'"
    using insert_resting_order_ok [OF b(7) b(1) p(1,2), unfolded b(8,9), OF x(2) s [symmetric] x(1) fits']
    by blast
  let ?G = "g_insert s (o_price x) l p (g s)" and ?g = "g(s := g_insert s (o_price x) l p (g s))"
  let ?ob1 = "ob\<lparr>ob_heap := h, ob_orderById := um_assign (o_orderId x) p (ob_orderById ob),
    ob_clientOrderIdToOrderId := um_assign (o_clientOrderId x) (o_orderId x) (ob_clientOrderIdToOrderId ob)\<rparr>"
  define ob' where "ob' = set_book s (h', sb') ?ob1"
  have ob': "ob_heap ob' = h'" "book_for_side ob' = (book_for_side ob)(s := sb')"
    "ob_symbolConfig ob' = ob_symbolConfig ob" "ob_lastTradePrice ob' = ob_lastTradePrice ob"
    "maps_grow (o_orderId x) (o_clientOrderId x) ob ob'"
    by (simp_all add: ob'_def maps_grow_def container_simps)
  have ins: "insert_remaining_as_resting (Some p) (ob\<lparr>ob_heap := h\<rparr>) = Some ob'"
    using p(1) i(1) s by (simp add: insert_remaining_as_resting_def ob'_def)
  have all': "all_orders ?g = insert p (all_orders g)"
    by (simp add: all_orders_side [of _ s] set_all_orders_insert)
  have dom': "dom (oread h') = all_orders ?g \<union> {}"
    using payload_dom [OF i(7)] b(5) all' by auto
  have bk': "books_ok h' ((book_for_side ob)(s := sb')) ?g ?tick {}"
  proof (rule books_ok_upd [OF n(1) i(2,8,11,9,10) dom'])
    show "set (g_orders ?G) \<inter> set (g_orders (g ?o)) = {}"
      using b(2,3) p(3) by (cases s) (auto simp: set_all_orders_insert)
  qed simp
  have "maps_ok ob' (oread h) (insert p (all_orders g))"
  proof (rule maps_ok_add [where M' = "oread h", OF mp n(2) p(1)])
    show "oread h q = oread (ob_heap ob) q" if "q \<in> all_orders g" for q
      using that n(2) by (intro old) blast
  qed (use ids in \<open>simp_all add: ob'_def\<close>)
  then have mp': "maps_ok ob' (oread h') (all_orders ?g)"
    unfolding all' using maps_ok_payload [of _ "oread h'" "oread h" ob'] i(7) by simp
  have pr: "fst ` set ?G = insert (o_price x) (fst ` set (g s))"
    using prices_g_insert [of s "o_price x" l p "g s"] by simp
  have "uncrossed ?g"
    unfolding uncrossed_prices using un [unfolded uncrossed_prices] nc pr
    by (cases s) (auto simp: crosses_def)
  then have inv': "ob_inv ob' ?g" unfolding ob_inv_def ob' using bk' mp' by simp
  have pay: "payload (oread h') q = payload (oread h) q" for q using i(7) by simp
  have y: "o_price y = o_price x" "order_view y = order_view x"
  proof -
    have "detach_links y = detach_links x" using pay [of p] p(1) i(3) by (simp add: payload_def)
    from detach_view [OF this] show "o_price y = o_price x" "order_view y = order_view x" by simp_all
  qed
  have "flat_view (oread h') (g_orders ?G) = book_insert s (order_view y) (flat_view (oread h) (g_orders (g s)))"
  proof (rule flat_view_insert [where M' = "oread h'", OF _ sb_core_priced [OF core] i(3) y(1)])
    show "best_first s (map g_level (g s))" using core b(8) [of s] by (simp add: sb_core_def)
    fix r assume "r \<in> set (g_orders (g s))"
    then obtain z where "oread h r = Some z" using g_orders_live [OF core] by blast
    then show "order_view (the (oread h' r)) = order_view (the (oread h r))"
      using payload_view [OF pay] by simp
  qed
  then have v1: "side_view ob' ?G = book_insert s (order_view x) (side_view ob (g s))"
    using flat y(2) by (simp add: side_view_flat ob'(1))
  have v2: "side_view ob' (g ?o) = side_view ob (g ?o)"
  proof (rule side_view_cong)
    show "set (g_orders (g ?o)) \<subseteq> dom (oread (ob_heap ob))"
      using books_okD(5) [OF bk] by (auto simp: all_orders_side [of g s])
    show "payload (oread (ob_heap ob')) q = payload (oread (ob_heap ob)) q" if "q \<in> set (g_orders (g ?o))" for q
    proof -
      have "q \<noteq> p" using that p(3) by blast
      from pay [of q] old [OF this] show ?thesis by (simp add: ob'(1) payload_def)
    qed
  qed
  show ?thesis
    using ins inv' i(3,4,5,6,7) y(1) qty v1 v2 ob'
    by (intro exI [of _ ob'] exI [of _ ?g] exI [of _ y] exI [of _ k] exI [of _ L]) simp
qed

end
