(* ===== verification/PlaceCancel.thy ===== *)
theory PlaceCancel
  imports Placing
begin

text \<open>
  The two entry points of a book, \<open>process_place\<close> and \<open>process_cancel\<close> of
  \<open>src/src/core/OrderBook.cpp\<close>, on a book that keeps its invariant: a rejected command leaves
  the book alone, an accepted order is matched as the reference matches it and its remainder
  comes to rest, a cancel takes exactly the named order out of the book.
\<close>

section \<open>The remainder of an accepted order\<close>

definition can_rest :: "PlaceOrderCommand \<Rightarrow> bool" where
  "can_rest cmd \<longleftrightarrow> pc_orderType cmd = Limit \<and> (pc_timeInForce cmd = GTC \<or> pc_timeInForce cmd = PO)"

lemma head_not_crossing:
  assumes inv: "ob_inv ob g"
    and head: "case side_view ob (g s) of [] \<Rightarrow> True | (i, p, r) # _ \<Rightarrow> \<not> crosses s pr p"
  shows "\<forall>e \<in> set (g s). \<not> crosses s pr (fst e)"
proof (cases "g s")
  case (Cons e0 G)
  obtain p0 l0 ps0 where e0: "e0 = (p0, l0, ps0)" by (cases e0)
  have bk: "books_ok (ob_heap ob) (book_for_side ob) g (sc_tickSize (ob_symbolConfig ob)) {}"
    using inv by (simp add: ob_inv_def)
  note b = books_okD(7,8) [OF bk, of s]
  have core: "sb_core (ob_heap ob) (book_for_side ob s) (g s)" and "ps0 \<noteq> []"
    using b(1) Cons e0 by (auto simp: sb_ok_def)
  then obtain m ps where m: "ps0 = m # ps" by (cases ps0) auto
  obtain M where M: "oread (ob_heap ob) m = Some M" "o_price M = p0"
    using sb_core_entryD(2) [OF core, of p0 l0 ps0 m] Cons e0 m by auto
  then have p0: "\<not> crosses s pr p0"
    using head Cons e0 m by (simp add: side_view_def order_view_def)
  have "is_better_price s p0 (fst e)" if "e \<in> set G" for e
    using core b(2) Cons e0 that by (auto simp: sb_core_def g_level_def)
  then show ?thesis
    using p0 Cons e0 by (cases s) (fastforce simp: crosses_def is_better_price_def)+
qed simp

lemma rest_remainder_ok:
  assumes inv: "ob_inv ob g" and s: "s = pc_side cmd"
    and inc: "incoming = (incoming_order cmd mp sq)\<lparr>o_remainingQuantity := left\<rparr>"
    and tick: "can_rest cmd \<Longrightarrow> on_tick (sc_tickSize (ob_symbolConfig ob)) (pc_price cmd)"
    and ids: "um_find (ob_orderById ob) (pc_orderId cmd) = None"
      "um_find (ob_clientOrderIdToOrderId ob) (pc_clientOrderId cmd) = None"
    and nc: "can_rest cmd \<Longrightarrow> left \<noteq> 0 \<Longrightarrow> (case side_view ob (g (opposite_side s)) of
        [] \<Rightarrow> True | (i, p, r) # _ \<Rightarrow> \<not> crosses (opposite_side s) (pc_price cmd) p)"
    and fits: "view_qty (pc_price cmd) (side_view ob (g s)) + unat left < 2 ^ 64"
  shows "\<exists>ob' evs g'. rest_remainder cmd ob sg incoming = Some (ob', advance (length evs) 0 sg, evs) \<and>
    ob_inv ob' g' \<and> stamped sg evs (advance (length evs) 0 sg) \<and> trades_of evs = [] \<and> trade_ids evs = [] \<and>
    side_view ob' (g' s) = (if can_rest cmd \<and> left \<noteq> 0
      then book_insert s (pc_orderId cmd, pc_price cmd, left) (side_view ob (g s))
      else side_view ob (g s)) \<and>
    side_view ob' (g' (opposite_side s)) = side_view ob (g (opposite_side s)) \<and>
    ob_symbolConfig ob' = ob_symbolConfig ob \<and> maps_grow (pc_orderId cmd) (pc_clientOrderId cmd) ob ob'"
proof (cases "can_rest cmd \<and> left \<noteq> 0")
  case False
  then have "rest_remainder cmd ob sg incoming = Some (ob, sg, [])"
    by (auto simp: rest_remainder_def can_rest_def inc quantity_is_zero_def)
  then show ?thesis
    using inv False by (intro exI [of _ ob] exI [of _ "[]"] exI [of _ g]) (auto simp: maps_grow_def)
next
  case True
  define x where "x = detach_links (incoming\<lparr>o_price := pc_price cmd\<rparr>)"
  have x: "o_remainingQuantity x = left" "o_price x = pc_price cmd" "o_side x = s"
    "o_orderId x = pc_orderId cmd" "o_clientOrderId x = pc_clientOrderId cmd"
    by (simp_all add: x_def inc incoming_order_def s)
  obtain p h where new: "new_order x (ob_heap ob) = (p, h)" by (cases "new_order x (ob_heap ob)")
  obtain ob' g' y k L where i: "insert_remaining_as_resting (Some p) (ob\<lparr>ob_heap := h\<rparr>) = Some ob'"
    "ob_inv ob' g'" "oread (ob_heap ob') p = Some y" "o_price y = o_price x"
    "o_priceLevel y = Some k" "lread (ob_heap ob') k = Some L"
    "side_view ob' (g' s) = book_insert s (order_view x) (side_view ob (g s))"
    "side_view ob' (g' (opposite_side s)) = side_view ob (g (opposite_side s))"
    "ob_symbolConfig ob' = ob_symbolConfig ob" "maps_grow (pc_orderId cmd) (pc_clientOrderId cmd) ob ob'"
    using insert_new_ok [OF inv new, of s] x True tick ids fits
      head_not_crossing [OF inv nc] by auto
  let ?ev = "OrderBookDelta (sg_nextEventId sg) (sg_nextSequence sg) (pc_symbolId cmd) (pc_side cmd)
    (o_price y) (pl_totalQuantity L)"
  have rest: "pc_orderType cmd = Limit \<and> (pc_timeInForce cmd = GTC \<or> pc_timeInForce cmd = PO)"
    "\<not> quantity_is_zero (o_remainingQuantity incoming)"
    using True by (simp_all add: can_rest_def quantity_is_zero_def inc)
  have "rest_remainder cmd ob sg incoming = Some (ob', advance 1 0 sg, [?ev])"
    using new i(1,3,5,6) rest by (simp add: rest_remainder_def Let_def flip: x_def)
  moreover have "order_view x = (pc_orderId cmd, pc_price cmd, left)" by (simp add: order_view_def x)
  ultimately show ?thesis
    using i(2,7,8,9,10) True
    by (intro exI [of _ ob'] exI [of _ "[?ev]"] exI [of _ g']) (simp add: stamped_def)
qed

section \<open>The checks\<close>

text \<open>The reason of a rejection, read off the resting orders of the book.\<close>

definition place_reason_spec :: "PlaceOrderCommand \<Rightarrow> OrderBook \<Rightarrow> order_view list \<Rightarrow> RejectReason option" where
  "place_reason_spec cmd ob opp =
     (let s = opposite_side (pc_side cmd) in
      if has_order ob (pc_orderId cmd) \<or>
         um_find (ob_clientOrderIdToOrderId ob) (pc_clientOrderId cmd) \<noteq> None then Some DuplicateOrder
      else if \<not> sc_tradingEnabled (ob_symbolConfig ob) then Some MarketClosed
      else if \<not> validate_symbol_quantity (pc_quantity cmd) (ob_symbolConfig ob) then Some InvalidQuantity
      else if pc_orderType cmd = Limit \<and> \<not> validate_symbol_price (pc_price cmd) (ob_symbolConfig ob)
      then Some InvalidPrice
      else if pc_timeInForce cmd = PO \<and>
         (case opp of [] \<Rightarrow> False | (i, p, r) # _ \<Rightarrow> crosses s (pc_price cmd) p) then Some InvalidPrice
      else if pc_timeInForce cmd = FOK \<and>
         crossing_qty s (matching_price_for_command cmd) opp < unat (pc_quantity cmd)
      then Some InsufficientBalanceLiquidity
      else None)"

lemma price_crosses_view:
  assumes inv: "ob_inv ob g"
  shows "price_crosses pr (ob_heap ob) (book_for_side ob s) =
    Some (case side_view ob (g s) of [] \<Rightarrow> False | (i, p, r) # _ \<Rightarrow> crosses s pr p)"
proof (cases "g_orders (g s)")
  case Nil
  have bk: "books_ok (ob_heap ob) (book_for_side ob) g (sc_tickSize (ob_symbolConfig ob)) {}"
    using inv by (simp add: ob_inv_def)
  note b = books_okD(7,8) [OF bk, of s]
  have "g s = []" using Nil b(1) by (cases "g s") (auto simp: sb_ok_def)
  then show ?thesis using price_crosses_ok [OF b(1)] by (simp add: side_view_def)
next
  case (Cons m ms)
  then show ?thesis using side_head(2) [OF inv Cons, of pr] by (auto simp: order_view_def)
qed

lemma place_reject_reason_ok:
  assumes inv: "ob_inv ob g"
  shows "place_reject_reason cmd ob =
    Some (place_reason_spec cmd ob (side_view ob (g (opposite_side (pc_side cmd)))))"
proof -
  let ?s = "opposite_side (pc_side cmd)"
  have nz: "validate_symbol_quantity (pc_quantity cmd) c \<Longrightarrow> pc_quantity cmd \<noteq> 0" for c
    by (auto simp: validate_symbol_quantity_def quantity_is_valid_def)
  obtain a where a: "validate_symbol_quantity (pc_quantity cmd) (ob_symbolConfig ob) \<Longrightarrow>
      available_crossing_lots (ob_heap ob) (book_for_side ob ?s) (matching_price_for_command cmd)
        (pc_quantity cmd) = Some a \<and>
      (pc_quantity cmd \<le> a \<longleftrightarrow> unat (pc_quantity cmd) \<le> crossing_qty ?s (matching_price_for_command cmd)
        (side_view ob (g ?s)))"
    using available_crossing_lots_ok [OF inv nz] by blast
  show ?thesis
    unfolding place_reject_reason_def place_reason_spec_def
    using a price_crosses_view [OF inv, of _ ?s]
    by (simp add: Let_def opposing_book_side not_le [symmetric])
qed

section \<open>Placing\<close>

lemma trade_ids_length: "length (trade_ids evs) = length (trades_of evs)"
proof (induction evs)
  case (Cons e evs)
  then show ?case by (cases e) simp_all
qed simp

definition accepted_event :: "PlaceOrderCommand \<Rightarrow> SequenceGenerator \<Rightarrow> EngineEvent" where
  "accepted_event cmd sg = OrderAccepted (sg_nextEventId sg) (sg_nextSequence sg) (pc_orderId cmd)
     (pc_clientOrderId cmd) (pc_userId cmd) (pc_symbolId cmd) (pc_side cmd) (pc_price cmd) (pc_quantity cmd)"

definition rejected_event :: "CommandId \<Rightarrow> OrderId option \<Rightarrow> UserId \<Rightarrow> SymbolId \<Rightarrow> RejectReason \<Rightarrow>
    SequenceGenerator \<Rightarrow> EngineEvent" where
  "rejected_event c i u sy r sg = OrderRejected (sg_nextEventId sg) (sg_nextSequence sg) c i u sy r"

lemma make_rejection_eq: "make_rejection sg c i u sy r = (rejected_event c i u sy r sg, advance 1 0 sg)"
  by (simp add: make_rejection_def rejected_event_def)

lemma stamped_rejected: "stamped sg [rejected_event c i u sy r sg] (advance 1 0 sg)"
  by (simp add: rejected_event_def stamped_def)

lemma reason_noneD:
  assumes "place_reason_spec cmd ob opp = None"
  shows "um_find (ob_orderById ob) (pc_orderId cmd) = None"
    "um_find (ob_clientOrderIdToOrderId ob) (pc_clientOrderId cmd) = None"
    "validate_symbol_quantity (pc_quantity cmd) (ob_symbolConfig ob)"
    "pc_orderType cmd = Limit \<Longrightarrow> validate_symbol_price (pc_price cmd) (ob_symbolConfig ob)"
    "pc_timeInForce cmd = PO \<Longrightarrow> (case opp of [] \<Rightarrow> True
       | (i, p, r) # _ \<Rightarrow> \<not> crosses (opposite_side (pc_side cmd)) (pc_price cmd) p)"
    "pc_timeInForce cmd = FOK \<Longrightarrow> unat (pc_quantity cmd) \<le>
       crossing_qty (opposite_side (pc_side cmd)) (matching_price_for_command cmd) opp"
  using assms
  by (auto simp: place_reason_spec_def Let_def has_order_def find_order_def
      split: if_split_asm list.splits prod.splits)

lemma accept_order_ok:
  assumes inv: "ob_inv ob g" and s: "s = pc_side cmd"
    and acc: "place_reason_spec cmd ob (side_view ob (g (opposite_side s))) = None"
    and m: "match_spec (opposite_side s) (matching_price_for_command cmd) (pc_quantity cmd)
      (side_view ob (g (opposite_side s))) = (fills, left, rest)"
    and fits: "view_qty (pc_price cmd) (side_view ob (g s)) + unat (pc_quantity cmd) < 2 ^ 64"
  shows "\<exists>ob' evs g'. accept_order cmd ob sg =
      Some (ob', advance (Suc (length evs)) (length fills) sg, accepted_event cmd sg # evs) \<and>
    ob_inv ob' g' \<and>
    stamped sg (accepted_event cmd sg # evs) (advance (Suc (length evs)) (length fills) sg) \<and>
    trades_of evs = fills \<and> side_view ob' (g' (opposite_side s)) = rest \<and>
    side_view ob' (g' s) = (if can_rest cmd \<and> left \<noteq> 0
      then book_insert s (pc_orderId cmd, pc_price cmd, left) (side_view ob (g s))
      else side_view ob (g s)) \<and> ob_symbolConfig ob' = ob_symbolConfig ob \<and>
    maps_grow (pc_orderId cmd) (pc_clientOrderId cmd) ob ob'"
proof -
  let ?o = "opposite_side s" and ?mp = "matching_price_for_command cmd"
  let ?in = "incoming_order cmd ?mp (sg_nextSequence sg)" and ?sg = "advance 1 0 sg"
  note r = reason_noneD [OF acc]
  have in_sel: "o_side ?in = s" "o_price ?in = ?mp" "o_remainingQuantity ?in = pc_quantity cmd"
    by (simp_all add: incoming_order_def s)
  obtain ob1 evs1 g1 where l: "match_loop ob ?sg ?in [] = Some (ob1,
      advance (length evs1) (length (trade_ids evs1)) ?sg, ?in\<lparr>o_remainingQuantity := left\<rparr>, evs1)"
    "ob_inv ob1 g1" "g1 s = g s" "trades_of evs1 = fills" "side_view ob1 (g1 ?o) = rest"
    "side_view ob1 (g1 s) = side_view ob (g s)" "ob_symbolConfig ob1 = ob_symbolConfig ob"
    "maps_shrink ob ob1" "stamped ?sg evs1 (advance (length evs1) (length (trade_ids evs1)) ?sg)"
    using match_loop_ok [OF inv, of ?o ?in ?sg "[]"] in_sel m by auto
  have len: "length (trade_ids evs1) = length fills" using l(4) by (simp add: trade_ids_length)
  have price: "can_rest cmd \<Longrightarrow> ?mp = pc_price cmd"
    by (simp add: can_rest_def matching_price_for_command_def)
  have lq: "unat left \<le> unat (pc_quantity cmd)"
    using match_spec_conserves [OF m] by simp
  have fits1: "view_qty (pc_price cmd) (side_view ob1 (g1 s)) + unat left < 2 ^ 64"
    using fits lq by (simp add: l(6))
  have tick: "on_tick (sc_tickSize (ob_symbolConfig ob1)) (pc_price cmd)" if "can_rest cmd"
    using validate_symbol_priceD [OF r(4)] that by (simp add: l(7) on_tick_def can_rest_def)
  have ids: "um_find (ob_orderById ob1) (pc_orderId cmd) = None"
    "um_find (ob_clientOrderIdToOrderId ob1) (pc_clientOrderId cmd) = None"
    using l(8) r(1,2) by (auto simp: maps_shrink_def)
  have nc: "(case side_view ob1 (g1 ?o) of [] \<Rightarrow> True | (i, p, q) # _ \<Rightarrow> \<not> crosses ?o (pc_price cmd) p)"
    if "can_rest cmd" "left \<noteq> 0"
    using match_spec_rest [OF m that(2)] unfolding price [OF that(1)] l(5) .
  obtain ob2 evs2 g2 where t: "rest_remainder cmd ob1 (advance (length evs1) (length fills) ?sg)
      (?in\<lparr>o_remainingQuantity := left\<rparr>) =
      Some (ob2, advance (length evs2) 0 (advance (length evs1) (length fills) ?sg), evs2)"
    "ob_inv ob2 g2" "stamped (advance (length evs1) (length fills) ?sg) evs2
      (advance (length evs2) 0 (advance (length evs1) (length fills) ?sg))"
    "trades_of evs2 = []" "side_view ob2 (g2 s) = (if can_rest cmd \<and> left \<noteq> 0
      then book_insert s (pc_orderId cmd, pc_price cmd, left) (side_view ob1 (g1 s))
      else side_view ob1 (g1 s))"
    "side_view ob2 (g2 ?o) = side_view ob1 (g1 ?o)" "ob_symbolConfig ob2 = ob_symbolConfig ob1"
    "maps_grow (pc_orderId cmd) (pc_clientOrderId cmd) ob1 ob2"
    using rest_remainder_ok [OF l(2) s refl tick ids nc fits1] by blast
  have sg1: "sg\<lparr>sg_nextSequence := sg_nextSequence sg + 1, sg_nextEventId := sg_nextEventId sg + 1\<rparr> = ?sg"
    by (simp add: advance_def)
  have st0: "stamped sg [accepted_event cmd sg] ?sg" by (simp add: stamped_def accepted_event_def)
  have "stamped sg ([accepted_event cmd sg] @ evs1 @ evs2)
      (advance (length evs2) 0 (advance (length evs1) (length fills) ?sg))"
    by (rule stamped_append [OF st0 stamped_append [OF l(9) [unfolded len] t(3)]])
  moreover have "accept_order cmd ob sg = Some (ob2,
      advance (length evs2) 0 (advance (length evs1) (length fills) ?sg),
      accepted_event cmd sg # evs1 @ evs2)"
    using l(1) t(1) len
    by (simp add: accept_order_def match_incoming_order_def accepted_event_def next_sequence_def
        next_event_id_def Let_def sg1 del: advance_advance)
  ultimately show ?thesis
    using t(2,4-7) l(4-7) maps_grow_trans [OF maps_shrink_grow [OF l(8)] t(8)]
    by (intro exI [of _ ob2] exI [of _ "evs1 @ evs2"] exI [of _ g2])
      (simp add: add.commute add.left_commute)
qed

text \<open>A rejected command leaves the book alone and reports one event.\<close>

lemma process_place_rejected:
  assumes inv: "ob_inv ob g"
    and r: "place_reason_spec cmd ob (side_view ob (g (opposite_side (pc_side cmd)))) = Some r"
  shows "process_place cmd ob sg = Some (ob, advance 1 0 sg,
    [rejected_event (pc_commandId cmd) (optional_order_id (pc_orderId cmd)) (pc_userId cmd)
       (pc_symbolId cmd) r sg])"
  using place_reject_reason_ok [OF inv, of cmd] r
  by (simp add: process_place_def make_rejection_eq)

lemma process_place_accepted:
  assumes inv: "ob_inv ob g"
    and r: "place_reason_spec cmd ob (side_view ob (g (opposite_side (pc_side cmd)))) = None"
  shows "process_place cmd ob sg = accept_order cmd ob sg"
  using place_reject_reason_ok [OF inv, of cmd] r by (simp add: process_place_def)

section \<open>Cancelling\<close>

lemma find_order_iff:
  assumes "ob_inv ob g"
  shows "find_order ob i = Some p \<longleftrightarrow>
    p \<in> all_orders g \<and> (\<exists>x. oread (ob_heap ob) p = Some x \<and> o_orderId x = i)"
  using assms by (auto simp: ob_inv_def maps_ok_def find_order_def)

lemma order_ids_unique:
  assumes "ob_inv ob g" "p \<in> all_orders g" "q \<in> all_orders g"
    "oread (ob_heap ob) p = Some x" "oread (ob_heap ob) q = Some y" "o_orderId x = o_orderId y"
  shows "p = q"
  using find_order_iff [OF assms(1), of "o_orderId x" p] find_order_iff [OF assms(1), of "o_orderId x" q]
    assms(2-) by simp

lemma filter_view:
  assumes "distinct qs" "\<And>q. q \<in> set qs \<Longrightarrow> f q = i \<longleftrightarrow> q = p"
  shows "map v (remove1 p qs) = map v (filter (\<lambda>q. f q \<noteq> i) qs)"
proof -
  have "remove1 p qs = filter (\<lambda>q. q \<noteq> p) qs"
    using assms(1) by (induction qs) (auto intro!: filter_True [symmetric])
  also have "\<dots> = filter (\<lambda>q. f q \<noteq> i) qs" using assms(2) by (intro filter_cong) auto
  finally show ?thesis by simp
qed

lemma view_qty_remove:
  assumes "p \<in> set qs" "M p = Some x" "o_price x = pr"
  shows "view_qty pr (flat_view M (remove1 p qs)) + unat (o_remainingQuantity x) = view_qty pr (flat_view M qs)"
  using assms by (induction qs) (auto simp: view_qty_def order_view_def)

lemma cancel_existing_order_ok:
  assumes inv: "ob_inv ob g" and f: "find_order ob i = Some p" and x: "oread (ob_heap ob) p = Some x"
  defines "s \<equiv> o_side x"
  shows "\<exists>ob' g' tot. cancel_existing_order i ob sg = Some (ob', advance 2 0 sg,
      [OrderCancelled (sg_nextEventId sg) (sg_nextSequence sg) i (o_remainingQuantity x),
       OrderBookDelta (sg_nextEventId sg + 1) (sg_nextSequence sg + 1)
         (sc_symbolId (ob_symbolConfig ob)) s (o_price x) tot]) \<and>
    ob_inv ob' g' \<and> order_view x \<in> set (side_view ob (g s)) \<and>
    side_view ob' (g' s) = filter (\<lambda>v. fst v \<noteq> i) (side_view ob (g s)) \<and>
    side_view ob' (g' (opposite_side s)) = side_view ob (g (opposite_side s)) \<and>
    unat tot = view_qty (o_price x) (side_view ob' (g' s)) \<and>
    find_order ob' i = None \<and> maps_shrink ob ob' \<and> ob_symbolConfig ob' = ob_symbolConfig ob"
proof -
  let ?h = "ob_heap ob" and ?sb = "book_for_side ob s" and ?tick = "sc_tickSize (ob_symbolConfig ob)"
  have bk: "books_ok ?h (book_for_side ob) g ?tick {}" and mp: "maps_ok ob (oread ?h) (all_orders g)"
    and un: "uncrossed g" using inv by (auto simp: ob_inv_def)
  note b = books_okD [OF bk]
  have p_all: "p \<in> all_orders g" and id: "o_orderId x = i"
    using f x find_order_iff [OF inv] by auto
  have "p \<in> set (g_orders (g s))"
  proof (rule ccontr)
    assume "p \<notin> set (g_orders (g s))"
    then have "p \<in> set (g_orders (g (opposite_side s)))" using p_all by (simp add: all_orders_side [of g s])
    then have "o_side x = opposite_side s"
      using g_orders_live [of ?h "book_for_side ob (opposite_side s)" "g (opposite_side s)" p]
        b(7,8) [of "opposite_side s"] x by (auto simp: sb_ok_def)
    then show False by (cases "o_side x") (simp_all add: s_def)
  qed
  note p_in = this
  have core: "sb_core ?h ?sb (g s)" and ne: "\<forall>e \<in> set (g s). g_queue e \<noteq> []"
    and al: "alive ?h (g_orders (g s))" and cached: "sb_cachedBestLevel ?sb = best_of (g s)"
    using b(7) [of s] by (auto simp: sb_ok_def)
  have dist: "distinct (g_orders (g s))" using core by (simp add: sb_core_def)
  from p_in obtain A pr l xs ys B where G: "g s = A @ (pr, l, xs @ p # ys) # B" by (rule g_orders_split)
  have mem: "(pr, l, xs @ p # ys) \<in> set (g s)" using G by simp
  obtain L where L: "lread ?h l = Some L" using sb_core_entryD(1) [OF core mem] by auto
  have xf: "o_price x = pr" "o_priceLevel x = Some l"
    using sb_core_entryD(2) [OF core mem, of p] x by auto
  have tot: "unat (pl_totalQuantity L) = view_qty pr (side_view ob (g s))"
    using level_total [OF core mem L] level_qty_view [OF sb_core_priced [OF core]]
    by (simp add: side_view_flat)
  obtain h3 sb' h4 where r: "remove_order (Some p) ?h ?sb = Some (h3, sb')"
    "delete_order p h3 = Some h4" "sb_ok h4 sb' (g_remove p (g s))"
    "payload (oread h4) = (payload (oread ?h))(p := None)"
    "heap_frame ?h (g s) h4 (g_remove p (g s))" "sb_side sb' = sb_side ?sb"
    "side_covers sb' = side_covers ?sb" "heap_ok h4"
    using remove_delete_ok [OF core ne _ cached p_in x b(1)] al by (auto simp: alive_def)
  let ?g = "g(s := g_remove p (g s))"
  define ob' where "ob' = set_book s (h4, sb') (erase_maps x ob)"
  have ob': "ob_heap ob' = h4" "book_for_side ob' = (book_for_side ob)(s := sb')"
    "ob_symbolConfig ob' = ob_symbolConfig ob" "maps_shrink ob ob'"
    by (simp_all add: ob'_def erase_maps_def maps_shrink_def container_simps)
  have pay: "payload (oread h4) q = payload (oread ?h) q" if "q \<noteq> p" for q
    using r(4) that by simp
  note rm = all_orders_remove [OF bk p_in]
  have d4: "dom (oread h4) = dom (oread ?h) - {p}"
    using r(4) dom_payload [of "oread h4"] dom_payload [of "oread ?h"] by auto
  have bk': "books_ok h4 ((book_for_side ob)(s := sb')) ?g ?tick {}"
    by (rule books_ok_upd [OF bk r(3,5,8)]) (use r(6,7) b(5,8,9) rm d4 in auto)
  have "maps_ok ob' (oread ?h) (all_orders g - {p})"
    by (rule maps_ok_erase [OF mp p_all x]) (simp_all add: ob'_def erase_maps_def)
  then have mp': "maps_ok ob' (oread h4) (all_orders g - {p})"
    by (subst maps_ok_payload [of _ _ "oread ?h"]) (use pay in auto)
  have inv': "ob_inv ob' ?g"
    unfolding ob_inv_def ob' rm(1) using bk' mp' uncrossed_remove [OF un] by simp
  have live: "set (g_orders (g t)) \<subseteq> dom (oread ?h)" for t
    using b(5) by (cases t) (auto simp: all_orders_def)
  have v0: "side_view ob' (g_remove p (g s)) = flat_view (oread ?h) (remove1 p (g_orders (g s)))"
  proof -
    have "side_view ob' (g_remove p (g s)) = side_view ob (g_remove p (g s))"
    proof (rule side_view_cong)
      fix q assume "q \<in> set (g_orders (g_remove p (g s)))"
      then have "q \<noteq> p" using dist by (auto simp: set_g_orders_remove)
      then show "payload (oread (ob_heap ob')) q = payload (oread ?h) q" using pay ob'(1) by simp
    qed (use live [of s] set_g_orders_remove [OF dist, of p] in auto)
    then show ?thesis by (simp add: side_view_flat g_orders_remove_distinct [OF dist])
  qed
  have v1: "side_view ob' (g_remove p (g s)) = filter (\<lambda>v. fst v \<noteq> i) (side_view ob (g s))"
  proof -
    have "o_orderId (the (oread ?h q)) = i \<longleftrightarrow> q = p" if q: "q \<in> set (g_orders (g s))" for q
    proof -
      obtain y where y: "oread ?h q = Some y" using live q by blast
      have "q \<in> all_orders g" using q by (simp add: all_orders_side [of g s])
      then show ?thesis using order_ids_unique [OF inv p_all _ x y] id x y by auto
    qed
    from filter_view [OF dist this] show ?thesis
      unfolding v0 unfolding side_view_flat flat_view_def
      by (simp add: filter_map comp_def order_view_def)
  qed
  have v2: "side_view ob' (g (opposite_side s)) = side_view ob (g (opposite_side s))"
  proof (rule side_view_cong)
    fix q assume "q \<in> set (g_orders (g (opposite_side s)))"
    then have "q \<noteq> p" using b(3) p_in by (cases s) auto
    then show "payload (oread (ob_heap ob')) q = payload (oread ?h) q" using pay ob'(1) by simp
  qed (rule live)
  let ?q = "o_remainingQuantity x"
  have sum: "view_qty pr (side_view ob' (g_remove p (g s))) + unat ?q = unat (pl_totalQuantity L)"
    using view_qty_remove [of p "g_orders (g s)" "oread ?h" x pr] p_in x xf(1)
    unfolding v0 tot unfolding side_view_flat by simp
  define T where "T = (if pl_totalQuantity L > ?q then pl_totalQuantity L - ?q else 0)"
  have T: "unat T = view_qty pr (side_view ob' (g_remove p (g s)))"
    using sum by (auto simp: T_def word_less_nat_alt unat_minus_le word_le_nat_alt)
  have ex: "cancel_existing_order i ob sg = Some (ob', advance 2 0 sg,
      [OrderCancelled (sg_nextEventId sg) (sg_nextSequence sg) i ?q,
       OrderBookDelta (sg_nextEventId sg + 1) (sg_nextSequence sg + 1)
         (sc_symbolId (ob_symbolConfig ob)) s pr T])"
    using f x L xf r(1,2)
    by (simp add: cancel_existing_order_def Let_def ob'_def erase_maps_def T_def numeral_eq_Suc flip: s_def)
  have gone: "find_order ob' i = None"
    using id by (simp add: find_order_def ob'_def erase_maps_def container_simps)
  have "order_view x \<in> set (side_view ob (g s))"
    using p_in x by (force simp: side_view_def)
  then show ?thesis
    using ex inv' v1 v2 T gone ob'(3,4) xf(1)
    by (intro exI [of _ ob'] exI [of _ ?g] exI [of _ T]) simp
qed

text \<open>
  The order a cancel command names: the client order id is looked up when no order id is given.
\<close>

definition cancel_target :: "CancelOrderCommand \<Rightarrow> OrderBook \<Rightarrow> OrderId" where
  "cancel_target cmd ob = (if cc_orderId cmd = 0
     then (case um_find (ob_clientOrderIdToOrderId ob) (cc_clientOrderId cmd) of
             Some i \<Rightarrow> i | None \<Rightarrow> cc_orderId cmd)
     else cc_orderId cmd)"

lemma process_cancel_cases:
  assumes inv: "ob_inv ob g"
  obtains (missing) "find_order ob (cancel_target cmd ob) = None"
    | (foreign) p x where "find_order ob (cancel_target cmd ob) = Some p"
      "oread (ob_heap ob) p = Some x" "o_userId x \<noteq> cc_userId cmd"
    | (own) p x where "find_order ob (cancel_target cmd ob) = Some p"
      "oread (ob_heap ob) p = Some x" "o_userId x = cc_userId cmd"
proof (cases "find_order ob (cancel_target cmd ob)")
  case (Some p)
  then obtain x where "oread (ob_heap ob) p = Some x" using find_order_iff [OF inv] by blast
  with Some foreign own show thesis by blast
qed (rule missing)

lemma process_cancel_not_found:
  assumes "find_order ob (cancel_target cmd ob) = None \<or>
    (\<exists>p x. find_order ob (cancel_target cmd ob) = Some p \<and> oread (ob_heap ob) p = Some x \<and>
       o_userId x \<noteq> cc_userId cmd)"
  shows "process_cancel cmd ob sg = Some (ob, advance 1 0 sg,
    [rejected_event (cc_commandId cmd) (optional_order_id (cancel_target cmd ob)) (cc_userId cmd)
       (cc_symbolId cmd) OrderNotFound sg])"
  using assms by (auto simp: process_cancel_def make_rejection_eq Let_def simp flip: cancel_target_def)

lemma process_cancel_own:
  assumes "find_order ob (cancel_target cmd ob) = Some p" "oread (ob_heap ob) p = Some x"
    "o_userId x = cc_userId cmd"
  shows "process_cancel cmd ob sg = cancel_existing_order (cancel_target cmd ob) ob sg"
  using assms by (auto simp: process_cancel_def Let_def simp flip: cancel_target_def)

end
