(* ===== verification/BookView.thy ===== *)
theory BookView
  imports PlaceCancel
begin

text \<open>
  What can be read off a book with the code's own loops: \<open>resting\<close> walks the sorted active levels
  of a side.  On a book that keeps its invariant the walk ends and lists the orders best first,
  so the properties can speak of \<open>resting\<close> instead of the ghost levels.
\<close>

section \<open>Walking a level\<close>

text \<open>
  The loop \<open>for(order=level->head; order!=nullptr; order=order->nextOrder)\<close> of
  \<open>append_level_snapshot\<close>.  On a cyclic queue it would not return, so its value there is \<open>None\<close>.
\<close>

partial_function (option) walk_level :: "book_heap \<Rightarrow> order_ptr option \<Rightarrow> Order list option" where
  "walk_level h po = (case po of
      None \<Rightarrow> Some []
    | Some p \<Rightarrow> Option.bind (oread h p) (\<lambda>x.
        Option.bind (walk_level h (o_nextOrder x)) (\<lambda>xs. Some (x # xs))))"

declare walk_level.simps [code]

lemma walk_level_simps [simp]:
  "walk_level h None = Some []"
  "oread h p = Some x \<Longrightarrow> walk_level h (Some p) = map_option ((#) x) (walk_level h (o_nextOrder x))"
  by (subst walk_level.simps, simp add: map_conv_bind_option comp_def)+

lemma walk_level_dll:
  "dll (oread h) l prev ps None \<Longrightarrow>
     walk_level h (first_or ps None) = Some (map (\<lambda>p. the (oread h p)) ps)"
  by (induction ps arbitrary: prev) auto

lemma walk_level_ok:
  "level_ok (oread h) l L ps \<Longrightarrow> walk_level h (pl_head L) = Some (map (\<lambda>p. the (oread h p)) ps)"
  using walk_level_dll [of h l None ps] by (simp add: level_ok_def)

section \<open>The resting orders of a side\<close>

text \<open>
  What the program itself sees of a side: the active levels in their sorted order, each walked
  from its head.
\<close>

fun walk_levels :: "book_heap \<Rightarrow> PriceLevel list \<Rightarrow> Order list option" where
  "walk_levels h [] = Some []"
| "walk_levels h (L # Ls) = do {
     xs \<leftarrow> walk_level h (pl_head L);
     ys \<leftarrow> walk_levels h Ls;
     Some (xs @ ys) }"

definition resting :: "OrderBook \<Rightarrow> Side \<Rightarrow> order_view list option" where
  "resting ob s = do {
     Ls \<leftarrow> active_levels_sorted (ob_heap ob) (book_for_side ob s);
     xs \<leftarrow> walk_levels (ob_heap ob) Ls;
     Some (map order_view xs) }"

definition book_ok :: "OrderBook \<Rightarrow> bool" where
  "book_ok ob \<longleftrightarrow> (\<exists>g. ob_inv ob g)"

lemma walk_levels_ok:
  assumes "sb_core h sb G0" "set G \<subseteq> set G0"
  shows "walk_levels h (level_records h G) = Some (map (\<lambda>p. the (oread h p)) (g_orders G))"
  using assms(2)
proof (induction G)
  case (Cons e G)
  obtain p l ps where e: "e = (p, l, ps)" by (cases e)
  then obtain L where "lread h l = Some L" "level_ok (oread h) l L ps"
    using sb_core_entryD(1) [OF assms(1), of p l ps] Cons.prems by auto
  then show ?case
    using Cons e walk_level_ok by (simp add: level_records_def g_level_def)
qed (simp add: level_records_def)

lemma resting_ok:
  assumes inv: "ob_inv ob g"
  shows "resting ob s = Some (side_view ob (g s))"
proof -
  have bk: "books_ok (ob_heap ob) (book_for_side ob) g (sc_tickSize (ob_symbolConfig ob)) {}"
    using inv by (simp add: ob_inv_def)
  note b = books_okD(7) [OF bk, of s]
  then have core: "sb_core (ob_heap ob) (book_for_side ob s) (g s)" by (simp add: sb_ok_def)
  show ?thesis
    using active_levels_sorted_ok [OF b] walk_levels_ok [OF core order.refl]
    by (simp add: resting_def side_view_def)
qed

section \<open>A new book\<close>

lemma ladder_lookup_make [simp]: "ladder_lookup (make_ladder s tick base cap) p = None"
  by (simp add: ladder_lookup_def ladder_get_level_def make_ladder_def price_tick_to_slot_def
      contains_tick_def Let_def)

lemma sb_ok_make: "sb_ok h (make_side_book s tick base cap) []"
proof -
  let ?sb = "make_side_book s tick base cap"
  have f: "far_ok (make_far_price_map s)" "far_lookup (make_far_price_map s) p = None" for p
    by (simp_all add: make_far_price_map_def far_ok_def far_lookup_def container_simps)
  have sel: "sb_ringPriceLadder ?sb = make_ladder s tick base cap" "sb_farPriceMap ?sb = make_far_price_map s"
    "sb_side ?sb = s" "sb_cachedBestLevel ?sb = None"
    by (simp_all add: make_side_book_def)
  have "containers_ok ?sb"
    using f by (simp add: containers_ok_def sel) (simp add: make_ladder_def make_far_price_map_def)
  then show ?thesis
    using f by (simp add: sb_ok_def sb_core_def best_first_def alive_def best_of_def side_lookup_def sel)
qed

lemma empty_heap_reads: "oread empty_heap = Map.empty" "lread empty_heap = Map.empty"
  by (simp_all add: empty_heap_def oread_def lread_def fun_eq_iff heap_simps)

lemma ob_inv_make: "ob_inv (make_order_book c) (\<lambda>_. [])"
proof -
  have "side_covers (book_for_side (make_order_book c) s) = on_tick (sc_tickSize c)"
    "sb_side (book_for_side (make_order_book c) s) = s"
    "sb_ok h (book_for_side (make_order_book c) s) []" for s h
    by (cases s; simp add: book_for_side_def make_order_book_def sb_ok_make side_covers_def fun_eq_iff;
        simp add: make_side_book_def make_ladder_def)+
  then show ?thesis
    by (simp add: ob_inv_def books_ok_def maps_ok_def uncrossed_def)
      (simp add: make_order_book_def empty_heap_reads all_orders_def all_levels_def container_simps)
qed

lemma make_order_book_ok: "book_ok (make_order_book c)"
  using ob_inv_make by (auto simp: book_ok_def)

lemma resting_make: "resting (make_order_book c) s = Some []"
  using resting_ok [OF ob_inv_make] by (simp add: side_view_def)

end
