(* ===== verification/IdempotencyIndex.thy ===== *)
theory IdempotencyIndex
  imports SequenceGenerator
begin

text \<open>
  \<open>src/include/core/IdempotencyIndex.hpp\<close>, \<open>src/src/core/IdempotencyIndex.cpp\<close> and the command
  summaries of \<open>src/include/core/Snapshot.hpp\<close>: which commands were processed, which order ids
  and client order ids were ever accepted.  \<open>src/src/core/Validation.cpp\<close> decides on it whether
  a place command may go to its book.
\<close>

section \<open>The index\<close>

record CommandResultSummary =
  cr_commandId :: CommandId
  cr_accepted :: bool
  cr_orderId :: "OrderId option"
  cr_rejectReason :: "RejectReason option"
  cr_sequence :: EngineSequence

text \<open>The unordered set of order ids is a list without repetitions.\<close>

record IdempotencyIndex =
  ii_processedCommandIds :: "(CommandId \<times> CommandResultSummary) list"
  ii_clientOrderIdToOrderId :: "(ClientOrderId \<times> OrderId) list"
  ii_orderIds :: "OrderId list"

type_synonym IdempotencySnapshot = IdempotencyIndex

definition empty_index :: IdempotencyIndex where
  "empty_index = \<lparr>ii_processedCommandIds = [], ii_clientOrderIdToOrderId = [], ii_orderIds = []\<rparr>"

definition has_command :: "IdempotencyIndex \<Rightarrow> CommandId \<Rightarrow> bool" where
  "has_command ii c \<longleftrightarrow> um_find (ii_processedCommandIds ii) c \<noteq> None"

definition record_command ::
    "CommandId \<Rightarrow> CommandResultSummary \<Rightarrow> IdempotencyIndex \<Rightarrow> IdempotencyIndex" where
  "record_command c r ii = ii\<lparr>ii_processedCommandIds :=
     um_assign c (r\<lparr>cr_commandId := c\<rparr>) (ii_processedCommandIds ii)\<rparr>"

definition has_order_id :: "IdempotencyIndex \<Rightarrow> OrderId \<Rightarrow> bool" where
  "has_order_id ii i \<longleftrightarrow> i \<in> set (ii_orderIds ii)"

definition has_client_order_id :: "IdempotencyIndex \<Rightarrow> ClientOrderId \<Rightarrow> bool" where
  "has_client_order_id ii c \<longleftrightarrow> um_find (ii_clientOrderIdToOrderId ii) c \<noteq> None"

definition record_order_id :: "OrderId \<Rightarrow> IdempotencyIndex \<Rightarrow> IdempotencyIndex" where
  "record_order_id i ii = ii\<lparr>ii_orderIds := List.insert i (ii_orderIds ii)\<rparr>"

definition record_client_order_id ::
    "ClientOrderId \<Rightarrow> OrderId \<Rightarrow> IdempotencyIndex \<Rightarrow> IdempotencyIndex" where
  "record_client_order_id c i ii = ii\<lparr>ii_clientOrderIdToOrderId :=
     um_assign c i (ii_clientOrderIdToOrderId ii)\<rparr>"

definition idempotency_snapshot :: "IdempotencyIndex \<Rightarrow> IdempotencySnapshot" where
  "idempotency_snapshot ii = \<lparr>ii_processedCommandIds = ii_processedCommandIds ii,
     ii_clientOrderIdToOrderId = ii_clientOrderIdToOrderId ii, ii_orderIds = ii_orderIds ii\<rparr>"

definition idempotency_restore :: "IdempotencySnapshot \<Rightarrow> IdempotencyIndex" where
  "idempotency_restore st = \<lparr>ii_processedCommandIds = ii_processedCommandIds st,
     ii_clientOrderIdToOrderId = ii_clientOrderIdToOrderId st, ii_orderIds = ii_orderIds st\<rparr>"

lemma idempotency_restore_snapshot [simp]: "idempotency_restore (idempotency_snapshot ii) = ii"
  by (simp add: idempotency_restore_def idempotency_snapshot_def)

lemma has_record [simp]:
  "has_command (record_command c r ii) c' \<longleftrightarrow> c' = c \<or> has_command ii c'"
  "has_command (record_order_id i ii) c' = has_command ii c'"
  "has_command (record_client_order_id cl i ii) c' = has_command ii c'"
  "has_order_id (record_command c r ii) i' = has_order_id ii i'"
  "has_order_id (record_order_id i ii) i' \<longleftrightarrow> i' = i \<or> has_order_id ii i'"
  "has_order_id (record_client_order_id cl i ii) i' = has_order_id ii i'"
  "has_client_order_id (record_command c r ii) cl' = has_client_order_id ii cl'"
  "has_client_order_id (record_order_id i ii) cl' = has_client_order_id ii cl'"
  "has_client_order_id (record_client_order_id cl i ii) cl' \<longleftrightarrow> cl' = cl \<or> has_client_order_id ii cl'"
  by (auto simp: has_command_def has_order_id_def has_client_order_id_def record_command_def
      record_order_id_def record_client_order_id_def container_simps)

section \<open>Validation (\<open>Validation.cpp\<close>)\<close>

record ValidationResult =
  vr_valid :: bool
  vr_reason :: "RejectReason option"

definition valid_result :: ValidationResult where
  "valid_result = \<lparr>vr_valid = True, vr_reason = None\<rparr>"

definition invalid_result :: "RejectReason \<Rightarrow> ValidationResult" where
  "invalid_result r = \<lparr>vr_valid = False, vr_reason = Some r\<rparr>"

definition validate_price :: "Price \<Rightarrow> SymbolConfig \<Rightarrow> ValidationResult" where
  "validate_price p c =
     (if \<not> validate_symbol_price p c then invalid_result InvalidPrice else valid_result)"

definition validate_quantity :: "Quantity \<Rightarrow> SymbolConfig \<Rightarrow> ValidationResult" where
  "validate_quantity q c =
     (if \<not> validate_symbol_quantity q c then invalid_result InvalidQuantity else valid_result)"

definition validate_place_order ::
    "PlaceOrderCommand \<Rightarrow> SymbolConfig \<Rightarrow> IdempotencyIndex \<Rightarrow> ValidationResult" where
  "validate_place_order cmd c ii =
     (if has_command ii (pc_commandId cmd) then invalid_result DuplicateCommand
      else if has_order_id ii (pc_orderId cmd) \<or> has_client_order_id ii (pc_clientOrderId cmd)
      then invalid_result DuplicateOrder
      else if \<not> sc_tradingEnabled c then invalid_result MarketClosed
      else let quantityResult = validate_quantity (pc_quantity cmd) c in
        if \<not> vr_valid quantityResult then quantityResult
        else if pc_orderType cmd = Limit then
          (let priceResult = validate_price (pc_price cmd) c in
           if \<not> vr_valid priceResult then priceResult else valid_result)
        else valid_result)"

definition validate_cancel_order :: "CancelOrderCommand \<Rightarrow> SymbolConfig \<Rightarrow> ValidationResult" where
  "validate_cancel_order cmd c = valid_result"

lemma validation_simps [simp]:
  "vr_valid valid_result" "\<not> vr_valid (invalid_result r)" "vr_reason (invalid_result r) = Some r"
  by (simp_all add: valid_result_def invalid_result_def)

lemma validate_place_order_valid:
  "vr_valid (validate_place_order cmd c ii) \<longleftrightarrow>
     \<not> has_command ii (pc_commandId cmd) \<and> \<not> has_order_id ii (pc_orderId cmd) \<and>
     \<not> has_client_order_id ii (pc_clientOrderId cmd) \<and> sc_tradingEnabled c \<and>
     validate_symbol_quantity (pc_quantity cmd) c \<and>
     (pc_orderType cmd = Limit \<longrightarrow> validate_symbol_price (pc_price cmd) c)"
  by (auto simp: validate_place_order_def validate_quantity_def validate_price_def Let_def)

lemma validate_place_order_reason:
  "\<not> vr_valid (validate_place_order cmd c ii) \<Longrightarrow> vr_reason (validate_place_order cmd c ii) \<noteq> None"
  by (auto simp: validate_place_order_def validate_quantity_def validate_price_def Let_def
      split: if_splits)

end
