(* ===== verification/EngineCore.thy ===== *)
theory EngineCore
  imports BookView IdempotencyIndex
begin

text \<open>
  \<open>src/include/core/EngineCore.hpp\<close>, \<open>src/src/core/EngineCore.cpp\<close> and the snapshot records of
  \<open>src/include/core/Snapshot.hpp\<close>: the books of all symbols behind the idempotency index, the
  dispatch of a command, and taking and restoring a snapshot.
\<close>

section \<open>The records\<close>

record EngineCore =
  core_orderBooks :: "(SymbolId \<times> OrderBook) list"
  core_symbolConfigs :: "(SymbolId \<times> SymbolConfig) list"
  core_sequenceGenerator :: SequenceGenerator
  core_idempotencyIndex :: IdempotencyIndex

definition make_engine_core :: EngineCore where
  "make_engine_core = \<lparr>core_orderBooks = [], core_symbolConfigs = [],
     core_sequenceGenerator = initial_sequence_generator, core_idempotencyIndex = empty_index\<rparr>"

record OrderSnapshot =
  os_orderId :: OrderId
  os_clientOrderId :: ClientOrderId
  os_userId :: UserId
  os_symbolId :: SymbolId
  os_side :: Side
  os_price :: Price
  os_originalQuantity :: Quantity
  os_remainingQuantity :: Quantity
  os_sequenceAccepted :: EngineSequence

record PriceLevelSnapshot =
  ls_price :: Price
  ls_totalQuantity :: Quantity
  ls_orderIds :: "OrderId list"

record OrderBookSnapshot =
  bs_symbolId :: SymbolId
  bs_symbolConfig :: SymbolConfig
  bs_bidLevels :: "PriceLevelSnapshot list"
  bs_askLevels :: "PriceLevelSnapshot list"
  bs_activeOrders :: "OrderSnapshot list"
  bs_clientOrderIdToOrderId :: "(ClientOrderId \<times> OrderId) list"

record EngineSnapshot =
  es_symbolSnapshots :: "OrderBookSnapshot list"
  es_sequenceState :: SequenceState
  es_idempotencyState :: IdempotencySnapshot

section \<open>Helpers\<close>

text \<open>\<open>release_order_storage\<close> deletes every indexed order; deleting one twice is undefined.\<close>

fun delete_orders :: "(OrderId \<times> order_ptr) list \<Rightarrow> book_heap \<Rightarrow> book_heap option" where
  "delete_orders [] h = Some h"
| "delete_orders ((i, p) # es) h = do { h \<leftarrow> delete_order p h; delete_orders es h }"

definition release_order_storage :: "OrderBook \<Rightarrow> OrderBook option" where
  "release_order_storage ob = do {
     h \<leftarrow> delete_orders (ob_orderById ob) (ob_heap ob);
     Some (ob\<lparr>ob_heap := h, ob_orderById := [], ob_clientOrderIdToOrderId := []\<rparr>) }"

fun rejected_reason :: "EngineEvent list \<Rightarrow> RejectReason option" where
  "rejected_reason [] = None"
| "rejected_reason (OrderRejected e s c i u sy r # evs) = Some r"
| "rejected_reason (ev # evs) = rejected_reason evs"

fun is_order_accepted :: "EngineEvent \<Rightarrow> bool" where
  "is_order_accepted (OrderAccepted e s oid coid u sy sd p q) = True"
| "is_order_accepted _ = False"

fun is_order_cancelled :: "EngineEvent \<Rightarrow> bool" where
  "is_order_cancelled (OrderCancelled e s oid r) = True"
| "is_order_cancelled _ = False"

definition has_event_order_accepted :: "EngineEvent list \<Rightarrow> bool" where
  "has_event_order_accepted evs \<longleftrightarrow> list_ex is_order_accepted evs"

definition has_event_order_cancelled :: "EngineEvent list \<Rightarrow> bool" where
  "has_event_order_cancelled evs \<longleftrightarrow> list_ex is_order_cancelled evs"

definition command_summary :: "CommandId \<Rightarrow> bool \<Rightarrow> OrderId option \<Rightarrow> RejectReason option \<Rightarrow>
    EngineEvent list \<Rightarrow> CommandResultSummary" where
  "command_summary c accepted oid reason evs = \<lparr>cr_commandId = c, cr_accepted = accepted,
     cr_orderId = oid, cr_rejectReason = reason,
     cr_sequence = (case evs of [] \<Rightarrow> 0 | ev # _ \<Rightarrow> event_sequence ev)\<rparr>"

section \<open>Processing a command\<close>

definition add_symbol :: "SymbolConfig \<Rightarrow> EngineCore \<Rightarrow> EngineCore option" where
  "add_symbol c core = do {
     books \<leftarrow> (case um_find (core_orderBooks core) (sc_symbolId c) of
         None \<Rightarrow> Some (core_orderBooks core)
       | Some ob \<Rightarrow> do {
           _ \<leftarrow> release_order_storage ob;
           Some (um_erase (sc_symbolId c) (core_orderBooks core)) });
     Some (core\<lparr>core_symbolConfigs := um_assign (sc_symbolId c) c (core_symbolConfigs core),
                core_orderBooks := snd (um_emplace (sc_symbolId c) (make_order_book c) books)\<rparr>) }"

text \<open>
  The four places where \<open>process\<close> answers with a rejection of its own and, but for duplicate
  commands, records the command.
\<close>

definition reject_only :: "CommandId \<Rightarrow> OrderId option \<Rightarrow> UserId \<Rightarrow> SymbolId \<Rightarrow> RejectReason \<Rightarrow>
    EngineCore \<Rightarrow> EngineCore \<times> EngineEvent list" where
  "reject_only c oid u sy r core =
     (let (ev, sg) = make_rejection (core_sequenceGenerator core) c oid u sy r
      in (core\<lparr>core_sequenceGenerator := sg\<rparr>, [ev]))"

definition reject_recorded :: "CommandId \<Rightarrow> OrderId option \<Rightarrow> UserId \<Rightarrow> SymbolId \<Rightarrow> RejectReason \<Rightarrow>
    EngineCore \<Rightarrow> EngineCore \<times> EngineEvent list" where
  "reject_recorded c oid u sy r core =
     (let (core, events) = reject_only c oid u sy r core
      in (core\<lparr>core_idempotencyIndex := record_command c (command_summary c False oid (Some r) events)
                 (core_idempotencyIndex core)\<rparr>, events))"

definition process_place_command :: "PlaceOrderCommand \<Rightarrow> EngineCore \<Rightarrow>
    (EngineCore \<times> EngineEvent list) option" where
  "process_place_command place core =
     (let oid = optional_order_id (pc_orderId place) in
      if has_command (core_idempotencyIndex core) (pc_commandId place)
      then Some (reject_only (pc_commandId place) oid (pc_userId place) (pc_symbolId place)
                   DuplicateCommand core)
      else (case (um_find (core_symbolConfigs core) (pc_symbolId place),
                  um_find (core_orderBooks core) (pc_symbolId place)) of
          (Some config, Some book) \<Rightarrow>
            (let validation = validate_place_order place config (core_idempotencyIndex core) in
             if \<not> vr_valid validation
             then do {
               reason \<leftarrow> vr_reason validation;
               Some (reject_recorded (pc_commandId place) oid (pc_userId place) (pc_symbolId place)
                       reason core) }
             else do {
               (book, sg, events) \<leftarrow> process_place place book (core_sequenceGenerator core);
               let accepted = has_event_order_accepted events;
               let ii = core_idempotencyIndex core;
               let ii = (if accepted then record_client_order_id (pc_clientOrderId place)
                                            (pc_orderId place) (record_order_id (pc_orderId place) ii)
                         else ii);
               let ii = record_command (pc_commandId place) (command_summary (pc_commandId place)
                          accepted oid (rejected_reason events) events) ii;
               Some (core\<lparr>core_orderBooks := um_assign (pc_symbolId place) book (core_orderBooks core),
                          core_sequenceGenerator := sg, core_idempotencyIndex := ii\<rparr>, events) })
        | _ \<Rightarrow> Some (reject_recorded (pc_commandId place) oid (pc_userId place) (pc_symbolId place)
                       InvalidSymbol core)))"

definition process_cancel_command :: "CancelOrderCommand \<Rightarrow> EngineCore \<Rightarrow>
    (EngineCore \<times> EngineEvent list) option" where
  "process_cancel_command cancel core =
     (let oid = optional_order_id (cc_orderId cancel) in
      if has_command (core_idempotencyIndex core) (cc_commandId cancel)
      then Some (reject_only (cc_commandId cancel) oid (cc_userId cancel) (cc_symbolId cancel)
                   DuplicateCommand core)
      else (case (um_find (core_symbolConfigs core) (cc_symbolId cancel),
                  um_find (core_orderBooks core) (cc_symbolId cancel)) of
          (Some config, Some book) \<Rightarrow>
            (let validation = validate_cancel_order cancel config in
             if \<not> vr_valid validation
             then do {
               reason \<leftarrow> vr_reason validation;
               Some (reject_recorded (cc_commandId cancel) oid (cc_userId cancel) (cc_symbolId cancel)
                       reason core) }
             else do {
               (book, sg, events) \<leftarrow> process_cancel cancel book (core_sequenceGenerator core);
               let accepted = has_event_order_cancelled events;
               let ii = record_command (cc_commandId cancel) (command_summary (cc_commandId cancel)
                          accepted oid (rejected_reason events) events) (core_idempotencyIndex core);
               Some (core\<lparr>core_orderBooks := um_assign (cc_symbolId cancel) book (core_orderBooks core),
                          core_sequenceGenerator := sg, core_idempotencyIndex := ii\<rparr>, events) })
        | _ \<Rightarrow> Some (reject_recorded (cc_commandId cancel) oid (cc_userId cancel) (cc_symbolId cancel)
                       InvalidSymbol core)))"

definition process :: "EngineCommand \<Rightarrow> EngineCore \<Rightarrow> (EngineCore \<times> EngineEvent list) option" where
  "process command core =
     (case (ec_kind command, ec_placeOrder command, ec_cancelOrder command) of
        (PlaceOrder, Some place, _) \<Rightarrow> process_place_command place core
      | (CancelOrder, _, Some cancel) \<Rightarrow> process_cancel_command cancel core
      | _ \<Rightarrow> Some (reject_only 0 None 0 0 InvalidSymbol core))"

definition get_order_book :: "SymbolId \<Rightarrow> EngineCore \<Rightarrow> OrderBook option" where
  "get_order_book sy core = um_find (core_orderBooks core) sy"

section \<open>Snapshots\<close>

definition append_level_snapshot :: "book_heap \<Rightarrow> level_ptr option \<Rightarrow> PriceLevelSnapshot list \<Rightarrow>
    PriceLevelSnapshot list option" where
  "append_level_snapshot h lo snapshots = (case lo of
      None \<Rightarrow> Some snapshots
    | Some l \<Rightarrow> do {
        L \<leftarrow> lread h l;
        if level_empty L then Some snapshots
        else do {
          xs \<leftarrow> walk_level h (pl_head L);
          Some (snapshots @ [\<lparr>ls_price = pl_price L, ls_totalQuantity = pl_totalQuantity L,
                              ls_orderIds = map o_orderId xs\<rparr>]) } })"

fun append_level_snapshots :: "book_heap \<Rightarrow> level_ptr option list \<Rightarrow> PriceLevelSnapshot list \<Rightarrow>
    PriceLevelSnapshot list option" where
  "append_level_snapshots h [] snapshots = Some snapshots"
| "append_level_snapshots h (lo # los) snapshots = do {
     snapshots \<leftarrow> append_level_snapshot h lo snapshots;
     append_level_snapshots h los snapshots }"

definition append_side_snapshots :: "book_heap \<Rightarrow> SideBook \<Rightarrow> PriceLevelSnapshot list option" where
  "append_side_snapshots h sb = do {
     snapshots \<leftarrow> append_level_snapshots h (rl_slots (sb_ringPriceLadder sb)) [];
     snapshots \<leftarrow> append_level_snapshots h (map (Some \<circ> snd) (fm_levels (sb_farPriceMap sb))) snapshots;
     Some (if sb_side sb = Buy then sort_key (\<lambda>x. - ls_price x) snapshots
           else sort_key ls_price snapshots) }"

definition snapshot_order :: "Order \<Rightarrow> OrderSnapshot" where
  "snapshot_order x = \<lparr>os_orderId = o_orderId x, os_clientOrderId = o_clientOrderId x,
     os_userId = o_userId x, os_symbolId = o_symbolId x, os_side = o_side x, os_price = o_price x,
     os_originalQuantity = o_originalQuantity x, os_remainingQuantity = o_remainingQuantity x,
     os_sequenceAccepted = o_sequenceAccepted x\<rparr>"

definition restore_order :: "OrderSnapshot \<Rightarrow> Order" where
  "restore_order x = \<lparr>o_orderId = os_orderId x, o_clientOrderId = os_clientOrderId x,
     o_userId = os_userId x, o_symbolId = os_symbolId x, o_side = os_side x, o_price = os_price x,
     o_originalQuantity = os_originalQuantity x, o_remainingQuantity = os_remainingQuantity x,
     o_sequenceAccepted = os_sequenceAccepted x, o_previousOrder = None, o_nextOrder = None,
     o_priceLevel = None\<rparr>"

fun snapshot_orders :: "book_heap \<Rightarrow> (OrderId \<times> order_ptr) list \<Rightarrow> OrderSnapshot list option" where
  "snapshot_orders h [] = Some []"
| "snapshot_orders h ((i, p) # es) = do {
     x \<leftarrow> oread h p;
     xs \<leftarrow> snapshot_orders h es;
     Some (snapshot_order x # xs) }"

definition snapshot_book :: "SymbolId \<times> OrderBook \<Rightarrow> OrderBookSnapshot option" where
  "snapshot_book entry = (let ob = snd entry; h = ob_heap ob in do {
     bids \<leftarrow> append_side_snapshots h (ob_bids ob);
     asks \<leftarrow> append_side_snapshots h (ob_asks ob);
     orders \<leftarrow> snapshot_orders h (ob_orderById ob);
     Some \<lparr>bs_symbolId = fst entry, bs_symbolConfig = ob_symbolConfig ob, bs_bidLevels = bids,
       bs_askLevels = asks, bs_activeOrders = sort_key os_orderId orders,
       bs_clientOrderIdToOrderId = ob_clientOrderIdToOrderId ob\<rparr> })"

fun snapshot_books :: "(SymbolId \<times> OrderBook) list \<Rightarrow> OrderBookSnapshot list option" where
  "snapshot_books [] = Some []"
| "snapshot_books (e # es) = do {
     b \<leftarrow> snapshot_book e;
     bs \<leftarrow> snapshot_books es;
     Some (b # bs) }"

definition engine_snapshot :: "EngineCore \<Rightarrow> EngineSnapshot option" where
  "engine_snapshot core = do {
     bs \<leftarrow> snapshot_books (core_orderBooks core);
     Some \<lparr>es_symbolSnapshots = sort_key bs_symbolId bs,
       es_sequenceState = sequence_snapshot (core_sequenceGenerator core),
       es_idempotencyState = idempotency_snapshot (core_idempotencyIndex core)\<rparr> }"

fun restore_orders :: "OrderSnapshot list \<Rightarrow> OrderBook \<Rightarrow> OrderBook option" where
  "restore_orders [] ob = Some ob"
| "restore_orders (s # ss) ob = do {
     let (p, h) = new_order (restore_order s) (ob_heap ob);
     ob \<leftarrow> insert_remaining_as_resting (Some p) (ob\<lparr>ob_heap := h\<rparr>);
     restore_orders ss ob }"

definition restore_book :: "OrderBookSnapshot \<Rightarrow> OrderBook option" where
  "restore_book b = do {
     ob \<leftarrow> restore_orders (bs_activeOrders b) (make_order_book (bs_symbolConfig b));
     Some (ob\<lparr>ob_clientOrderIdToOrderId := bs_clientOrderIdToOrderId b\<rparr>) }"

fun restore_books :: "OrderBookSnapshot list \<Rightarrow> EngineCore \<Rightarrow> EngineCore option" where
  "restore_books [] core = Some core"
| "restore_books (b # bs) core = do {
     ob \<leftarrow> restore_book b;
     restore_books bs (core\<lparr>
       core_symbolConfigs := um_assign (bs_symbolId b) (bs_symbolConfig b) (core_symbolConfigs core),
       core_orderBooks := snd (um_emplace (bs_symbolId b) ob (core_orderBooks core))\<rparr>) }"

fun release_books :: "(SymbolId \<times> OrderBook) list \<Rightarrow> unit option" where
  "release_books [] = Some ()"
| "release_books ((i, ob) # es) = do { _ \<leftarrow> release_order_storage ob; release_books es }"

definition engine_restore :: "EngineSnapshot \<Rightarrow> EngineCore \<Rightarrow> EngineCore option" where
  "engine_restore snap core = do {
     _ \<leftarrow> release_books (core_orderBooks core);
     restore_books (es_symbolSnapshots snap)
       \<lparr>core_orderBooks = [], core_symbolConfigs = [],
        core_sequenceGenerator = sequence_restore (es_sequenceState snap),
        core_idempotencyIndex = idempotency_restore (es_idempotencyState snap)\<rparr> }"

section \<open>What the engine needs of a book\<close>

definition place_fits :: "PlaceOrderCommand \<Rightarrow> OrderBook \<Rightarrow> bool" where
  "place_fits cmd ob \<longleftrightarrow> (case resting ob (pc_side cmd) of
     None \<Rightarrow> False | Some vs \<Rightarrow> view_qty (pc_price cmd) vs + unat (pc_quantity cmd) < 2 ^ 64)"

definition book_order_ids :: "OrderBook \<Rightarrow> OrderId set" where
  "book_order_ids ob = {i. find_order ob i \<noteq> None}"

definition book_client_ids :: "OrderBook \<Rightarrow> ClientOrderId set" where
  "book_client_ids ob = {c. um_find (ob_clientOrderIdToOrderId ob) c \<noteq> None}"

text \<open>
  The contract of a book: under the invariant both operations return, number their events from
  the generator they are given, and bring no id into the book but that of an accepted order.
\<close>

locale book_contract =
  fixes inv :: "'b \<Rightarrow> bool"
    and fits :: "PlaceOrderCommand \<Rightarrow> 'b \<Rightarrow> bool"
    and place :: "PlaceOrderCommand \<Rightarrow> 'b \<Rightarrow> SequenceGenerator \<Rightarrow>
      ('b \<times> SequenceGenerator \<times> EngineEvent list) option"
    and cancel :: "CancelOrderCommand \<Rightarrow> 'b \<Rightarrow> SequenceGenerator \<Rightarrow>
      ('b \<times> SequenceGenerator \<times> EngineEvent list) option"
    and config :: "'b \<Rightarrow> SymbolConfig"
    and ids :: "'b \<Rightarrow> OrderId set" and client_ids :: "'b \<Rightarrow> ClientOrderId set"
  assumes place_ok: "inv b \<Longrightarrow> fits cmd b \<Longrightarrow> \<exists>b' sg' evs. place cmd b sg = Some (b', sg', evs) \<and>
      inv b' \<and> evs \<noteq> [] \<and> stamped sg evs sg' \<and> config b' = config b \<and>
      ids b' \<subseteq> ids b \<union> (if has_event_order_accepted evs then {pc_orderId cmd} else {}) \<and>
      client_ids b' \<subseteq> client_ids b \<union>
        (if has_event_order_accepted evs then {pc_clientOrderId cmd} else {})"
    and cancel_ok: "inv b \<Longrightarrow> \<exists>b' sg' evs. cancel c b sg = Some (b', sg', evs) \<and>
      inv b' \<and> evs \<noteq> [] \<and> stamped sg evs sg' \<and> config b' = config b \<and>
      ids b' \<subseteq> ids b \<and> client_ids b' \<subseteq> client_ids b"
begin

lemma place_total: "inv b \<Longrightarrow> fits cmd b \<Longrightarrow> place cmd b sg \<noteq> None"
  using place_ok by fastforce

lemma cancel_total: "inv b \<Longrightarrow> cancel c b sg \<noteq> None"
  using cancel_ok by fastforce

text \<open>An index that covers the book still covers it after the accepted id is recorded.\<close>

lemma place_covered:
  assumes "inv b" "fits cmd b" "place cmd b sg = Some (b', sg', evs)"
    and "\<forall>i \<in> ids b. has_order_id ii i" "\<forall>c \<in> client_ids b. has_client_order_id ii c"
    and "ii' = (if has_event_order_accepted evs
      then record_client_order_id (pc_clientOrderId cmd) (pc_orderId cmd)
             (record_order_id (pc_orderId cmd) ii) else ii)"
  shows "\<forall>i \<in> ids b'. has_order_id ii' i" "\<forall>c \<in> client_ids b'. has_client_order_id ii' c"
  using place_ok [OF assms(1,2), of sg] assms(3-6) by (auto split: if_splits)

end

lemma maps_shrink_ids:
  assumes "maps_shrink ob ob'"
  shows "book_order_ids ob' \<subseteq> book_order_ids ob" "book_client_ids ob' \<subseteq> book_client_ids ob"
  using assms by (auto simp: maps_shrink_def book_order_ids_def book_client_ids_def find_order_def)

lemma book_place_ok:
  assumes ok: "book_ok ob" and fits: "place_fits cmd ob"
  shows "\<exists>ob' sg' evs. process_place cmd ob sg = Some (ob', sg', evs) \<and>
      book_ok ob' \<and> evs \<noteq> [] \<and> stamped sg evs sg' \<and> ob_symbolConfig ob' = ob_symbolConfig ob \<and>
      book_order_ids ob' \<subseteq> book_order_ids ob \<union>
        (if has_event_order_accepted evs then {pc_orderId cmd} else {}) \<and>
      book_client_ids ob' \<subseteq> book_client_ids ob \<union>
        (if has_event_order_accepted evs then {pc_clientOrderId cmd} else {})"
proof -
  obtain g where inv: "ob_inv ob g" using ok by (auto simp: book_ok_def)
  let ?s = "pc_side cmd"
  show ?thesis
  proof (cases "place_reason_spec cmd ob (side_view ob (g (opposite_side ?s)))")
    case (Some r)
    then show ?thesis
      using process_place_rejected [OF inv Some, of sg] ok stamped_rejected
      by auto
  next
    case None
    have f: "view_qty (pc_price cmd) (side_view ob (g ?s)) + unat (pc_quantity cmd) < 2 ^ 64"
      using fits resting_ok [OF inv] by (simp add: place_fits_def)
    obtain fills left rest where m: "match_spec (opposite_side ?s) (matching_price_for_command cmd)
        (pc_quantity cmd) (side_view ob (g (opposite_side ?s))) = (fills, left, rest)"
      by (cases "match_spec (opposite_side ?s) (matching_price_for_command cmd)
        (pc_quantity cmd) (side_view ob (g (opposite_side ?s)))")
    obtain ob' evs g' where a: "accept_order cmd ob sg =
        Some (ob', advance (Suc (length evs)) (length fills) sg, accepted_event cmd sg # evs)"
      "ob_inv ob' g'" "stamped sg (accepted_event cmd sg # evs) (advance (Suc (length evs)) (length fills) sg)"
      "ob_symbolConfig ob' = ob_symbolConfig ob" "maps_grow (pc_orderId cmd) (pc_clientOrderId cmd) ob ob'"
      using accept_order_ok [OF inv refl None m f, of sg] by blast
    have "has_event_order_accepted (accepted_event cmd sg # evs)"
      by (simp add: has_event_order_accepted_def accepted_event_def)
    then show ?thesis
      using a process_place_accepted [OF inv None, of sg]
      by (auto simp: book_ok_def maps_grow_def book_order_ids_def book_client_ids_def find_order_def)
  qed
qed

lemma book_cancel_ok:
  assumes ok: "book_ok ob"
  shows "\<exists>ob' sg' evs. process_cancel cmd ob sg = Some (ob', sg', evs) \<and>
      book_ok ob' \<and> evs \<noteq> [] \<and> stamped sg evs sg' \<and> ob_symbolConfig ob' = ob_symbolConfig ob \<and>
      book_order_ids ob' \<subseteq> book_order_ids ob \<and> book_client_ids ob' \<subseteq> book_client_ids ob"
proof -
  obtain g where inv: "ob_inv ob g" using ok by (auto simp: book_ok_def)
  from inv show ?thesis
  proof (cases rule: process_cancel_cases [of ob g cmd])
    case missing
    then show ?thesis
      using process_cancel_not_found [of ob cmd sg] ok stamped_rejected by auto
  next
    case (foreign p x)
    then show ?thesis
      using process_cancel_not_found [of ob cmd sg] ok stamped_rejected by auto
  next
    case (own p x)
    show ?thesis
      using cancel_existing_order_ok [OF inv own(1,2), of sg] process_cancel_own [OF own, of sg]
        maps_shrink_ids
      by (fastforce simp: book_ok_def stamped_def)
  qed
qed

interpretation book: book_contract book_ok place_fits process_place process_cancel
  ob_symbolConfig book_order_ids book_client_ids
  by unfold_locales (simp_all add: book_place_ok book_cancel_ok)

section \<open>The invariant of the engine\<close>

text \<open>
  Every book keeps its invariant and the configuration it was made with, and every id a book
  knows is in the idempotency index.
\<close>

definition core_ok :: "EngineCore \<Rightarrow> bool" where
  "core_ok core \<longleftrightarrow>
     um_ok (core_orderBooks core) \<and>
     (\<forall>sy. (um_find (core_orderBooks core) sy = None) = (um_find (core_symbolConfigs core) sy = None)) \<and>
     (\<forall>sy ob. um_find (core_orderBooks core) sy = Some ob \<longrightarrow>
        book_ok ob \<and> um_find (core_symbolConfigs core) sy = Some (ob_symbolConfig ob) \<and>
        (\<forall>i \<in> book_order_ids ob. has_order_id (core_idempotencyIndex core) i) \<and>
        (\<forall>c \<in> book_client_ids ob. has_client_order_id (core_idempotencyIndex core) c))"

definition command_fits :: "EngineCommand \<Rightarrow> EngineCore \<Rightarrow> bool" where
  "command_fits command core \<longleftrightarrow> (case (ec_kind command, ec_placeOrder command) of
     (PlaceOrder, Some place) \<Rightarrow>
       (case um_find (core_orderBooks core) (pc_symbolId place) of
          None \<Rightarrow> True | Some ob \<Rightarrow> place_fits place ob)
   | _ \<Rightarrow> True)"

lemma core_ok_D:
  assumes "core_ok core" "um_find (core_orderBooks core) sy = Some ob"
  shows "book_ok ob" "um_find (core_symbolConfigs core) sy = Some (ob_symbolConfig ob)"
    "\<forall>i \<in> book_order_ids ob. has_order_id (core_idempotencyIndex core) i"
    "\<forall>c \<in> book_client_ids ob. has_client_order_id (core_idempotencyIndex core) c"
  using assms unfolding core_ok_def by blast+

lemma core_ok_cong:
  assumes "core_ok core" "core_orderBooks core' = core_orderBooks core"
    "core_symbolConfigs core' = core_symbolConfigs core"
    "\<And>i. has_order_id (core_idempotencyIndex core) i \<Longrightarrow> has_order_id (core_idempotencyIndex core') i"
    "\<And>c. has_client_order_id (core_idempotencyIndex core) c \<Longrightarrow>
      has_client_order_id (core_idempotencyIndex core') c"
  shows "core_ok core'"
  using assms by (auto simp: core_ok_def)

lemma core_ok_make: "core_ok make_engine_core"
  by (simp add: core_ok_def make_engine_core_def container_simps)

text \<open>One book changes, the index only grows.\<close>

lemma core_ok_update:
  assumes ok: "core_ok core" and b: "um_find (core_orderBooks core) sy = Some ob"
    and b': "book_ok ob'" "ob_symbolConfig ob' = ob_symbolConfig ob"
    and ids: "\<forall>i \<in> book_order_ids ob'. has_order_id ii i" "\<forall>c \<in> book_client_ids ob'. has_client_order_id ii c"
    and mono: "\<And>i. has_order_id (core_idempotencyIndex core) i \<Longrightarrow> has_order_id ii i"
      "\<And>c. has_client_order_id (core_idempotencyIndex core) c \<Longrightarrow> has_client_order_id ii c"
  shows "core_ok (core\<lparr>core_orderBooks := um_assign sy ob' (core_orderBooks core),
    core_sequenceGenerator := sg, core_idempotencyIndex := ii\<rparr>)"
proof -
  have c: "um_find (core_symbolConfigs core) sy = Some (ob_symbolConfig ob)"
    using core_ok_D [OF ok b] by simp
  show ?thesis
    using ok b' ids mono c unfolding core_ok_def
    by (auto simp: container_simps)
qed

lemma reject_only_ok:
  assumes "core_ok core"
  shows "\<exists>core' evs. reject_only c oid u sy r core = (core', evs) \<and> core_ok core' \<and> evs \<noteq> [] \<and>
    stamped (core_sequenceGenerator core) evs (core_sequenceGenerator core')"
    and "\<exists>core' evs. reject_recorded c oid u sy r core = (core', evs) \<and> core_ok core' \<and> evs \<noteq> [] \<and>
    stamped (core_sequenceGenerator core) evs (core_sequenceGenerator core')"
  using core_ok_cong [OF assms] stamped_rejected
  by (simp_all add: reject_only_def reject_recorded_def make_rejection_eq)

lemma process_place_command_ok:
  assumes ok: "core_ok core"
    and fits: "\<And>ob. um_find (core_orderBooks core) (pc_symbolId cmd) = Some ob \<Longrightarrow> place_fits cmd ob"
  shows "\<exists>core' evs. process_place_command cmd core = Some (core', evs) \<and> core_ok core' \<and> evs \<noteq> [] \<and>
    stamped (core_sequenceGenerator core) evs (core_sequenceGenerator core')"
proof (cases "has_command (core_idempotencyIndex core) (pc_commandId cmd)")
  case True
  then show ?thesis using reject_only_ok(1) [OF ok] by (simp add: process_place_command_def Let_def)
next
  case new: False
  show ?thesis
  proof (cases "um_find (core_orderBooks core) (pc_symbolId cmd)")
    case None
    then have "um_find (core_symbolConfigs core) (pc_symbolId cmd) = None" using ok by (simp add: core_ok_def)
    then show ?thesis
      using reject_only_ok(2) [OF ok] new by (simp add: process_place_command_def Let_def)
  next
    case (Some ob)
    note d = core_ok_D [OF ok Some]
    show ?thesis
    proof (cases "vr_valid (validate_place_order cmd (ob_symbolConfig ob) (core_idempotencyIndex core))")
      case False
      then obtain r where "vr_reason (validate_place_order cmd (ob_symbolConfig ob)
          (core_idempotencyIndex core)) = Some r"
        using validate_place_order_reason by blast
      then show ?thesis
        using reject_only_ok(2) [OF ok] new False d(2) Some
        by (simp add: process_place_command_def Let_def)
    next
      case True
      obtain ob' sg' evs where p: "process_place cmd ob (core_sequenceGenerator core) = Some (ob', sg', evs)"
        "book_ok ob'" "evs \<noteq> []" "stamped (core_sequenceGenerator core) evs sg'"
        "ob_symbolConfig ob' = ob_symbolConfig ob"
        using book.place_ok [OF d(1) fits [OF Some]] by blast
      let ?ii = "if has_event_order_accepted evs
        then record_client_order_id (pc_clientOrderId cmd) (pc_orderId cmd)
               (record_order_id (pc_orderId cmd) (core_idempotencyIndex core))
        else core_idempotencyIndex core"
      note cov = book.place_covered [OF d(1) fits [OF Some] p(1) d(3,4) refl]
      have "core_ok (core\<lparr>core_orderBooks := um_assign (pc_symbolId cmd) ob' (core_orderBooks core),
          core_sequenceGenerator := sg', core_idempotencyIndex := record_command c r ?ii\<rparr>)" for c r
        by (rule core_ok_update [OF ok Some p(2,5)]) (use cov in auto)
      then show ?thesis
        using p(1,3,4) new True d(2) Some
        by (simp add: process_place_command_def Let_def)
    qed
  qed
qed

lemma process_cancel_command_ok:
  assumes ok: "core_ok core"
  shows "\<exists>core' evs. process_cancel_command cmd core = Some (core', evs) \<and> core_ok core' \<and> evs \<noteq> [] \<and>
    stamped (core_sequenceGenerator core) evs (core_sequenceGenerator core')"
proof (cases "has_command (core_idempotencyIndex core) (cc_commandId cmd)")
  case True
  then show ?thesis using reject_only_ok(1) [OF ok] by (simp add: process_cancel_command_def Let_def)
next
  case new: False
  show ?thesis
  proof (cases "um_find (core_orderBooks core) (cc_symbolId cmd)")
    case None
    then have "um_find (core_symbolConfigs core) (cc_symbolId cmd) = None" using ok by (simp add: core_ok_def)
    then show ?thesis
      using reject_only_ok(2) [OF ok] new by (simp add: process_cancel_command_def Let_def)
  next
    case (Some ob)
    note d = core_ok_D [OF ok Some]
    obtain ob' sg' evs where p: "process_cancel cmd ob (core_sequenceGenerator core) = Some (ob', sg', evs)"
      "book_ok ob'" "evs \<noteq> []" "stamped (core_sequenceGenerator core) evs sg'"
      "ob_symbolConfig ob' = ob_symbolConfig ob" "book_order_ids ob' \<subseteq> book_order_ids ob"
      "book_client_ids ob' \<subseteq> book_client_ids ob"
      using book.cancel_ok [OF d(1)] by blast
    have "core_ok (core\<lparr>core_orderBooks := um_assign (cc_symbolId cmd) ob' (core_orderBooks core),
        core_sequenceGenerator := sg',
        core_idempotencyIndex := record_command c r (core_idempotencyIndex core)\<rparr>)" for c r
      by (rule core_ok_update [OF ok Some p(2,5)]) (use d p(6,7) in auto)
    then show ?thesis
      using p(1,3,4) new d(2) Some
      by (simp add: process_cancel_command_def validate_cancel_order_def Let_def)
  qed
qed

lemma process_ok:
  assumes ok: "core_ok core" and fits: "command_fits command core"
  shows "\<exists>core' evs. process command core = Some (core', evs) \<and> core_ok core' \<and> evs \<noteq> [] \<and>
    stamped (core_sequenceGenerator core) evs (core_sequenceGenerator core')"
proof -
  have p: "\<exists>core' evs. process_place_command cmd core = Some (core', evs) \<and> core_ok core' \<and> evs \<noteq> [] \<and>
      stamped (core_sequenceGenerator core) evs (core_sequenceGenerator core')"
    if "ec_kind command = PlaceOrder" "ec_placeOrder command = Some cmd" for cmd
    by (rule process_place_command_ok [OF ok]) (use fits that in \<open>simp add: command_fits_def\<close>)
  show ?thesis
    using p process_cancel_command_ok [OF ok] reject_only_ok(1) [OF ok]
    by (cases "ec_kind command"; cases "ec_placeOrder command"; cases "ec_cancelOrder command")
      (simp_all add: process_def)
qed

section \<open>Commands are processed once\<close>

definition command_id :: "EngineCommand \<Rightarrow> CommandId option" where
  "command_id command = (case (ec_kind command, ec_placeOrder command, ec_cancelOrder command) of
     (PlaceOrder, Some place, _) \<Rightarrow> Some (pc_commandId place)
   | (CancelOrder, _, Some cancel) \<Rightarrow> Some (cc_commandId cancel)
   | _ \<Rightarrow> None)"

lemma has_command_index [simp]:
  "has_command (core_idempotencyIndex (fst (reject_recorded c oid u sy r core))) c' \<longleftrightarrow>
     c' = c \<or> has_command (core_idempotencyIndex core) c'"
  "core_idempotencyIndex (fst (reject_only c oid u sy r core)) = core_idempotencyIndex core"
  "core_orderBooks (fst (reject_only c oid u sy r core)) = core_orderBooks core"
  "core_symbolConfigs (fst (reject_only c oid u sy r core)) = core_symbolConfigs core"
  "core_orderBooks (fst (reject_recorded c oid u sy r core)) = core_orderBooks core"
  "core_symbolConfigs (fst (reject_recorded c oid u sy r core)) = core_symbolConfigs core"
  by (simp_all add: reject_recorded_def reject_only_def make_rejection_eq)

lemma reject_eq: "f = (core', evs) \<longleftrightarrow> core' = fst f \<and> evs = snd f"
  by (cases f) auto

lemma process_records:
  assumes "process command core = Some (core', evs)" "command_id command = Some c"
  shows "has_command (core_idempotencyIndex core') c"
  using assms
  by (auto simp: process_def command_id_def process_place_command_def process_cancel_command_def
      Let_def bind_eq_Some_conv reject_eq
      split: EngineCommandKind.splits option.splits if_splits)

lemma process_duplicate:
  assumes "command_id command = Some c" "has_command (core_idempotencyIndex core) c"
  obtains oid u sy where "process command core = Some (core\<lparr>core_sequenceGenerator :=
      advance 1 0 (core_sequenceGenerator core)\<rparr>,
      [rejected_event c oid u sy DuplicateCommand (core_sequenceGenerator core)])"
  using assms
  by (auto simp: process_def command_id_def process_place_command_def process_cancel_command_def
      Let_def reject_only_def make_rejection_eq split: EngineCommandKind.splits option.splits)

text \<open>An order id or client order id that was accepted once is never accepted again.\<close>

lemma accepted_ids_fresh:
  assumes "process command core = Some (core', evs)" "has_event_order_accepted evs"
  obtains place where "ec_kind command = PlaceOrder" "ec_placeOrder command = Some place"
    "\<not> has_order_id (core_idempotencyIndex core) (pc_orderId place)"
    "\<not> has_client_order_id (core_idempotencyIndex core) (pc_clientOrderId place)"
    "has_order_id (core_idempotencyIndex core') (pc_orderId place)"
    "has_client_order_id (core_idempotencyIndex core') (pc_clientOrderId place)"
proof -
  have no: "\<not> has_event_order_accepted (snd (reject_only c oid u sy r k))"
    "\<not> has_event_order_accepted (snd (reject_recorded c oid u sy r k))" for c oid u sy r k
    by (simp_all add: reject_only_def reject_recorded_def make_rejection_eq has_event_order_accepted_def
        rejected_event_def)
  have cancel: "\<not> has_event_order_accepted evs" if "process_cancel c ob sg = Some (ob', sg', evs)" for c ob sg ob' sg' evs
    using that
    by (auto simp: process_cancel_def cancel_existing_order_def bind_eq_Some_conv Let_def make_rejection_eq
        has_event_order_accepted_def rejected_event_def split: if_splits option.splits)
  show thesis
  proof (cases "ec_kind command")
    case PlaceOrder
    then obtain place where p: "ec_placeOrder command = Some place" "process_place_command place core = Some (core', evs)"
      using assms no by (auto simp: process_def reject_eq split: option.splits)
    then have "\<not> has_order_id (core_idempotencyIndex core) (pc_orderId place) \<and>
      \<not> has_client_order_id (core_idempotencyIndex core) (pc_clientOrderId place) \<and>
      has_order_id (core_idempotencyIndex core') (pc_orderId place) \<and>
      has_client_order_id (core_idempotencyIndex core') (pc_clientOrderId place)"
      using assms(2) no
      by (auto simp: process_place_command_def Let_def bind_eq_Some_conv reject_eq validate_place_order_valid
          split: if_splits option.splits)
    then show thesis using that PlaceOrder p by blast
  next
    case CancelOrder
    then show thesis
      using assms no cancel
      by (auto simp: process_def process_cancel_command_def Let_def bind_eq_Some_conv reject_eq
          split: if_splits option.splits)
  qed
qed

section \<open>Runs of the engine\<close>

text \<open>Processing the commands of a log one after the other, with all events it emitted.\<close>

inductive engine_run :: "EngineCore \<Rightarrow> EngineCommand list \<Rightarrow> EngineEvent list \<Rightarrow> EngineCore \<Rightarrow> bool" where
  run_done: "engine_run core [] [] core"
| run_step: "process command core = Some (core1, evs) \<Longrightarrow> command_fits command core \<Longrightarrow>
    engine_run core1 commands evs1 core2 \<Longrightarrow> engine_run core (command # commands) (evs @ evs1) core2"

inductive_cases run_NilE: "engine_run core [] evs core'"
inductive_cases run_ConsE: "engine_run core (command # commands) evs core'"

lemma engine_run_ok:
  "engine_run core commands evs core' \<Longrightarrow> core_ok core \<Longrightarrow>
     core_ok core' \<and> stamped (core_sequenceGenerator core) evs (core_sequenceGenerator core')"
proof (induction rule: engine_run.induct)
  case (run_step command core core1 evs commands evs1 core2)
  obtain core1' evs' where p: "process command core = Some (core1', evs')" "core_ok core1'"
      "stamped (core_sequenceGenerator core) evs' (core_sequenceGenerator core1')"
    using process_ok [OF run_step.prems run_step.hyps(2)] by blast
  then show ?case
    using run_step.IH run_step.hyps(1) stamped_append by auto
qed simp

lemma stamped_distinct:
  assumes "stamped sg evs sg'" "length evs < 2 ^ 64"
  shows "distinct (map event_id evs)" "distinct (map event_sequence evs)" "distinct (trade_ids evs)"
proof -
  show "distinct (map event_id evs)" "distinct (map event_sequence evs)"
    using assms id_range_distinct by (simp_all add: stamped_def)
  have "length (trade_ids evs) \<le> length evs"
  proof (induction evs)
    case (Cons e evs)
    then show ?case by (cases e) simp_all
  qed simp
  then have n: "length (trade_ids evs) < 2 ^ 64" using assms(2) by simp
  have "trade_ids evs = id_range (sg_nextTradeId sg) (length (trade_ids evs))"
    using assms(1) by (simp add: stamped_def)
  then show "distinct (trade_ids evs)" using id_range_distinct [OF n] by metis
qed

section \<open>A symbol is added\<close>

lemma release_total:
  assumes "book_ok ob"
  shows "release_order_storage ob \<noteq> None"
proof -
  obtain g where inv: "ob_inv ob g" using assms by (auto simp: book_ok_def)
  have maps: "um_ok (ob_orderById ob)"
    and live: "\<And>i p. (i, p) \<in> set (ob_orderById ob) \<Longrightarrow> oread (ob_heap ob) p \<noteq> None"
    and inj: "\<And>i j p. (i, p) \<in> set (ob_orderById ob) \<Longrightarrow> (j, p) \<in> set (ob_orderById ob) \<Longrightarrow> i = j"
  proof -
    have m: "maps_ok ob (oread (ob_heap ob)) (all_orders g)" using inv by (simp add: ob_inv_def)
    then show ok: "um_ok (ob_orderById ob)" by (simp add: maps_ok_def)
    have f: "(i, p) \<in> set (ob_orderById ob) \<Longrightarrow> \<exists>x. oread (ob_heap ob) p = Some x \<and> o_orderId x = i" for i p
      using m um_ok_find_iff [OF ok, of i p] by (auto simp: maps_ok_def)
    show "(i, p) \<in> set (ob_orderById ob) \<Longrightarrow> oread (ob_heap ob) p \<noteq> None" for i p using f by fastforce
    show "(i, p) \<in> set (ob_orderById ob) \<Longrightarrow> (j, p) \<in> set (ob_orderById ob) \<Longrightarrow> i = j" for i j p
      using f [of i p] f [of j p] by auto
  qed
  have "\<lbrakk>distinct (map snd es); \<And>p. p \<in> set (map snd es) \<Longrightarrow> oread h p \<noteq> None\<rbrakk> \<Longrightarrow> delete_orders es h \<noteq> None" for es h
  proof (induction es arbitrary: h)
    case (Cons e es)
    obtain i p where e: "e = (i, p)" by (cases e)
    then obtain x where x: "oread h p = Some x" using Cons.prems(2) [of p] by auto
    obtain h' where h': "delete_order p h = Some h'" "oread h' = (oread h)(p := None)"
      using delete_order_Some [OF x] by blast
    have "delete_orders es h' \<noteq> None"
      using Cons.prems e by (intro Cons.IH) (auto simp: h'(2))
    then show ?case using e h'(1) by simp
  qed simp
  moreover have "distinct (map snd (ob_orderById ob))"
  proof -
    have "distinct (ob_orderById ob)" using maps by (simp add: um_ok_def distinct_map)
    moreover have "inj_on snd (set (ob_orderById ob))"
    proof (rule inj_onI)
      fix e e' assume "e \<in> set (ob_orderById ob)" "e' \<in> set (ob_orderById ob)" "snd e = snd e'"
      then show "e = e'" by (metis prod.collapse inj)
    qed
    ultimately show ?thesis by (simp add: distinct_map)
  qed
  ultimately show ?thesis
    using live by (fastforce simp: release_order_storage_def)
qed

lemma add_symbol_ok:
  assumes "core_ok core"
  shows "\<exists>core'. add_symbol c core = Some core' \<and> core_ok core' \<and>
    get_order_book (sc_symbolId c) core' = Some (make_order_book c) \<and>
    (\<forall>sy. sy \<noteq> sc_symbolId c \<longrightarrow> get_order_book sy core' = get_order_book sy core) \<and>
    core_idempotencyIndex core' = core_idempotencyIndex core"
proof -
  let ?sy = "sc_symbolId c"
  define books where "books = (if um_find (core_orderBooks core) ?sy = None then core_orderBooks core
    else um_erase ?sy (core_orderBooks core))"
  define core' where "core' = core\<lparr>core_symbolConfigs := um_assign ?sy c (core_symbolConfigs core),
    core_orderBooks := snd (um_emplace ?sy (make_order_book c) books)\<rparr>"
  have rel: "release_order_storage ob \<noteq> None" if "um_find (core_orderBooks core) ?sy = Some ob" for ob
    using release_total core_ok_D(1) [OF assms that] by blast
  have a: "add_symbol c core = Some core'"
    using rel by (cases "um_find (core_orderBooks core) ?sy") (auto simp: add_symbol_def core'_def books_def)
  have f: "um_find (core_orderBooks core') sy =
      (if sy = ?sy then Some (make_order_book c) else um_find (core_orderBooks core) sy)" for sy
    by (auto simp: core'_def books_def container_simps)
  have "um_ok (core_orderBooks core)" using assms by (simp add: core_ok_def)
  then have "um_ok (core_orderBooks core')" by (simp add: core'_def books_def container_simps)
  moreover have "book_order_ids (make_order_book c) = {}" "book_client_ids (make_order_book c) = {}"
    by (simp_all add: book_order_ids_def book_client_ids_def find_order_def make_order_book_def container_simps)
  moreover have "ob_symbolConfig (make_order_book c) = c" by (simp add: make_order_book_def)
  ultimately have "core_ok core'"
    using assms make_order_book_ok unfolding core_ok_def f
    by (auto simp: core'_def container_simps)
  then show ?thesis using a f by (auto simp: get_order_book_def core'_def)
qed

end
