(* ===== verification/CoreProperties.thy ===== *)
theory CoreProperties
  imports EngineCore
begin

text \<open>
  The properties of the matching core, each stated over the code's definitions and proved from
  the lemmas of the component theories.
\<close>

section \<open>The ring ladder\<close>

text \<open>
  C38: \<open>RingPriceLadder::best_level\<close>, which scans the bitmap word by word and clears stale bits,
  returns the level of the best occupied slot in tick order (the highest for bids, the lowest
  for asks), or none, and leaves a consistent ladder unchanged.
\<close>

theorem ladder_best_level_correct:
  assumes "ladder_ok ld"
  shows "ladder_best_level ld = (ld, best_slot_spec ld)"
  by (rule ladder_best_level_spec [OF assms])

definition ladder_example :: RingPriceLadder where
  "ladder_example = mark_active 66 ((make_ladder Buy 1 100 70)\<lparr>rl_slots := (replicate 70 None)[66 := Some 7]\<rparr>)"

lemma ladder_example_ok: "ladder_ok ladder_example"
  using ladder_ok_set_slot(1) [OF ladder_ok_make, of 66 Buy 1 100 70 7]
  by (simp add: ladder_example_def make_ladder_def)

theorem ladder_best_level_witness:
  "ladder_ok ladder_example \<and> ladder_best_level ladder_example = (ladder_example, Some 7)"
proof -
  have "best_slot_spec ladder_example = Some 7"
    by code_simp
  then show ?thesis
    using ladder_best_level_correct [OF ladder_example_ok] ladder_example_ok by simp
qed

section \<open>A concrete book for the witnesses\<close>

text \<open>
  A ring of four ticks starting at 99 on each side; two sell orders rest, the second one beyond
  the ring after prices have moved on, as the code places it.
\<close>

definition demo_config :: SymbolConfig where
  "demo_config = \<lparr>sc_symbolId = 1, sc_baseAssetId = 1, sc_quoteAssetId = 2, sc_tickSize = 1, sc_lotSize = 1,
     sc_minQuantity = 1, sc_maxQuantity = 1000, sc_minPrice = 1, sc_maxPrice = 1000,
     sc_ringCapacityTicks = 4, sc_thresholdPercentage = 80, sc_initialBaseTick = 99,
     sc_priceScale = 0, sc_quantityScale = 0, sc_makerFeeRate = 0, sc_takerFeeRate = 0,
     sc_tradingEnabled = True\<rparr>"

definition demo_place :: "OrderId \<Rightarrow> UserId \<Rightarrow> Side \<Rightarrow> TimeInForce \<Rightarrow> Price \<Rightarrow> Quantity \<Rightarrow> PlaceOrderCommand" where
  "demo_place i u s tif p q = \<lparr>pc_commandId = i, pc_clientOrderId = i, pc_orderId = i, pc_userId = u,
     pc_symbolId = 1, pc_side = s, pc_orderType = Limit, pc_timeInForce = tif, pc_price = p,
     pc_quantity = q, pc_receivedSequence = 0\<rparr>"

definition demo_cancel :: "CommandId \<Rightarrow> UserId \<Rightarrow> OrderId \<Rightarrow> CancelOrderCommand" where
  "demo_cancel c u i = \<lparr>cc_commandId = c, cc_userId = u, cc_symbolId = 1, cc_orderId = i,
     cc_clientOrderId = 0, cc_receivedSequence = 0\<rparr>"

definition place_on :: "PlaceOrderCommand \<Rightarrow> OrderBook \<Rightarrow> OrderBook" where
  "place_on cmd ob = fst (the (process_place cmd ob initial_sequence_generator))"

definition place_events :: "PlaceOrderCommand \<Rightarrow> OrderBook \<Rightarrow> EngineEvent list" where
  "place_events cmd ob = snd (snd (the (process_place cmd ob initial_sequence_generator)))"

definition place_generator :: "PlaceOrderCommand \<Rightarrow> OrderBook \<Rightarrow> SequenceGenerator" where
  "place_generator cmd ob = fst (snd (the (process_place cmd ob initial_sequence_generator)))"

lemma place_on_ok:
  assumes "book_ok ob" "place_fits cmd ob"
  shows "book_ok (place_on cmd ob)"
    and "process_place cmd ob initial_sequence_generator =
      Some (place_on cmd ob, place_generator cmd ob, place_events cmd ob)"
  using book.place_ok [OF assms, of initial_sequence_generator]
  by (auto simp: place_on_def place_events_def place_generator_def)

definition demo_book :: OrderBook where
  "demo_book = place_on (demo_place 2 8 Sell GTC 104 5)
     (place_on (demo_place 1 7 Sell GTC 100 10) (make_order_book demo_config))"

lemma demo_book_views: "resting demo_book Sell = Some [(1, 100, 10), (2, 104, 5)]" "resting demo_book Buy = Some []"
  by code_simp+

lemma demo_fits:
  assumes "resting ob s = Some vs" "view_qty p vs + unat q < 2 ^ 64"
  shows "place_fits (demo_place i u s tif p q) ob"
  using assms by (simp add: place_fits_def demo_place_def)

lemma demo_book_ok: "book_ok demo_book"
proof -
  have "place_fits (demo_place 1 7 Sell GTC 100 10) (make_order_book demo_config)"
    by (rule demo_fits [OF resting_make]) (simp add: view_qty_def)
  moreover have "resting (place_on (demo_place 1 7 Sell GTC 100 10) (make_order_book demo_config)) Sell =
    Some [(1, 100, 10)]" by code_simp
  then have "place_fits (demo_place 2 8 Sell GTC 104 5)
    (place_on (demo_place 1 7 Sell GTC 100 10) (make_order_book demo_config))"
    by (rule demo_fits) (simp add: view_qty_def)
  ultimately show ?thesis
    by (simp add: demo_book_def place_on_ok(1) make_order_book_ok)
qed

lemma demo_book_fits: "unat q < 2 ^ 64 \<Longrightarrow> place_fits (demo_place i u Buy tif p q) demo_book"
  by (rule demo_fits [OF demo_book_views(2)]) (simp add: view_qty_def)

lemma demo_sides:
  "resting demo_book (pc_side (demo_place i u Buy tif p q)) = Some []"
  "resting demo_book (opposite_side (pc_side (demo_place i u Buy tif p q))) = Some [(1, 100, 10), (2, 104, 5)]"
  using demo_book_views by (simp_all add: demo_place_def)

section \<open>What a place command does to a book\<close>

text \<open>The two outcomes of \<open>process_place\<close> on a consistent book, in terms of what \<open>resting\<close> shows.\<close>

lemma place_outcome:
  assumes ok: "book_ok ob" and fits: "place_fits cmd ob"
  obtains (rejected) own opp r where "resting ob (pc_side cmd) = Some own"
      "resting ob (opposite_side (pc_side cmd)) = Some opp" "place_reason_spec cmd ob opp = Some r"
      "process_place cmd ob sg = Some (ob, advance 1 0 sg, [rejected_event (pc_commandId cmd)
        (optional_order_id (pc_orderId cmd)) (pc_userId cmd) (pc_symbolId cmd) r sg])"
  | (accepted) own opp fills left rest ob' evs where "resting ob (pc_side cmd) = Some own"
      "resting ob (opposite_side (pc_side cmd)) = Some opp" "place_reason_spec cmd ob opp = None"
      "match_spec (opposite_side (pc_side cmd)) (matching_price_for_command cmd) (pc_quantity cmd) opp =
        (fills, left, rest)"
      "process_place cmd ob sg = Some (ob', advance (Suc (length evs)) (length fills) sg,
         accepted_event cmd sg # evs)"
      "book_ok ob'" "trades_of evs = fills" "resting ob' (opposite_side (pc_side cmd)) = Some rest"
      "resting ob' (pc_side cmd) = Some (if can_rest cmd \<and> left \<noteq> 0
         then book_insert (pc_side cmd) (pc_orderId cmd, pc_price cmd, left) own else own)"
proof -
  let ?s = "pc_side cmd"
  obtain g where inv: "ob_inv ob g" using ok by (auto simp: book_ok_def)
  note r = resting_ok [OF inv]
  show thesis
  proof (cases "place_reason_spec cmd ob (side_view ob (g (opposite_side ?s)))")
    case (Some reason)
    then show thesis using rejected [OF r r Some process_place_rejected [OF inv Some]] by simp
  next
    case None
    have f: "view_qty (pc_price cmd) (side_view ob (g ?s)) + unat (pc_quantity cmd) < 2 ^ 64"
      using fits r by (simp add: place_fits_def)
    obtain fills left rest where m: "match_spec (opposite_side ?s) (matching_price_for_command cmd)
        (pc_quantity cmd) (side_view ob (g (opposite_side ?s))) = (fills, left, rest)"
      by (cases "match_spec (opposite_side ?s) (matching_price_for_command cmd)
        (pc_quantity cmd) (side_view ob (g (opposite_side ?s)))")
    obtain ob' evs g' where a: "accept_order cmd ob sg =
        Some (ob', advance (Suc (length evs)) (length fills) sg, accepted_event cmd sg # evs)"
      "ob_inv ob' g'" "trades_of evs = fills" "side_view ob' (g' (opposite_side ?s)) = rest"
      "side_view ob' (g' ?s) = (if can_rest cmd \<and> left \<noteq> 0
        then book_insert ?s (pc_orderId cmd, pc_price cmd, left) (side_view ob (g ?s)) else side_view ob (g ?s))"
      using accept_order_ok [OF inv refl None m f, of sg] by blast
    show thesis
      using accepted [OF r r None m, of ob' evs] a process_place_accepted [OF inv None, of sg]
        resting_ok [OF a(2)] by (auto simp: book_ok_def)
  qed
qed

lemma match_spec_makers:
  "match_spec s pr q vs = (fills, q', vs') \<Longrightarrow> (i, p, t) \<in> set fills \<Longrightarrow> \<exists>r \<ge> t. (i, p, r) \<in> set vs"
proof (induction s pr q vs arbitrary: fills q' vs' rule: match_spec.induct)
  case (2 s pr q j p' r vs)
  show ?case
  proof (cases "\<not> (q = 0 \<or> \<not> crosses s pr p') \<and> r \<le> q")
    case True
    obtain f1 q1 v1 where m: "match_spec s pr (q - r) vs = (f1, q1, v1)"
      by (cases "match_spec s pr (q - r) vs")
    then have "fills = (j, p', r) # f1" using 2(2) True by auto
    then show ?thesis using 2(1) [OF _ _ m] True 2(3) by (auto intro: exI [of _ r])
  qed (use 2(2,3) in \<open>auto simp: not_le intro!: exI [of _ r] split: if_splits prod.splits\<close>)
qed simp

lemma book_ok_uncrossed:
  assumes "book_ok ob" "resting ob Buy = Some bids" "resting ob Sell = Some asks"
  shows "\<forall>(i, b, r) \<in> set bids. \<forall>(j, a, t) \<in> set asks. b < a"
proof -
  obtain g where inv: "ob_inv ob g" using assms(1) by (auto simp: book_ok_def)
  have price: "p \<in> fst ` set (g s)" if "(i, p, r) \<in> set (side_view ob (g s))" for i p r s
  proof -
    have bk: "books_ok (ob_heap ob) (book_for_side ob) g (sc_tickSize (ob_symbolConfig ob)) {}"
      using inv by (simp add: ob_inv_def)
    have core: "sb_core (ob_heap ob) (book_for_side ob s) (g s)"
      using books_okD(7) [OF bk, of s] by (simp add: sb_ok_def)
    obtain m where m: "m \<in> set (g_orders (g s))" "(i, p, r) = order_view (the (oread (ob_heap ob) m))"
      using \<open>(i, p, r) \<in> set (side_view ob (g s))\<close> by (auto simp: side_view_def)
    then obtain e where e: "e \<in> set (g s)" "m \<in> set (g_queue e)" by (auto simp: g_orders_def)
    obtain q l ps where eq: "e = (q, l, ps)" by (cases e)
    then show ?thesis
      using sb_core_entryD(2) [OF core, of q l ps m] e m(2) by (force simp: g_queue_def order_view_def)
  qed
  have v: "side_view ob (g Buy) = bids" "side_view ob (g Sell) = asks"
    using resting_ok [OF inv] assms(2,3) by auto
  have "\<forall>b \<in> fst ` set (g Buy). \<forall>a \<in> fst ` set (g Sell). b < a"
    using inv by (simp add: ob_inv_def uncrossed_prices)
  then have "b < a" if "(i, b, r) \<in> set bids" "(j, a, t) \<in> set asks" for i b r j a t
    using price [of i b r Buy] price [of j a t Sell] that v by blast
  then show ?thesis by auto
qed

text \<open>
  C1: an order that passes the checks is matched exactly as price-time priority matching on the
  flat list of resting orders matches it (\<open>match_spec\<close>): the trades are the fills of the
  reference, the other side keeps what the reference leaves, and the remainder rests behind the
  orders of its price only for a limit order that is GTC or post-only.
\<close>

theorem place_refines_matching:
  assumes "book_ok ob" "place_fits cmd ob"
    and "resting ob (pc_side cmd) = Some own" "resting ob (opposite_side (pc_side cmd)) = Some opp"
    and "place_reason_spec cmd ob opp = None"
    and "match_spec (opposite_side (pc_side cmd)) (matching_price_for_command cmd) (pc_quantity cmd) opp =
      (fills, left, rest)"
  shows "\<exists>ob' sg' evs. process_place cmd ob sg = Some (ob', sg', accepted_event cmd sg # evs) \<and>
    book_ok ob' \<and> trades_of evs = fills \<and> resting ob' (opposite_side (pc_side cmd)) = Some rest \<and>
    resting ob' (pc_side cmd) = Some (if can_rest cmd \<and> left \<noteq> 0
      then book_insert (pc_side cmd) (pc_orderId cmd, pc_price cmd, left) own else own)"
  using place_outcome [OF assms(1,2), of sg] by cases (use assms(3-) in auto)

theorem place_refines_matching_witness:
  "\<exists>ob' sg' evs. process_place (demo_place 3 9 Buy GTC 104 12) demo_book initial_sequence_generator =
      Some (ob', sg', accepted_event (demo_place 3 9 Buy GTC 104 12) initial_sequence_generator # evs) \<and>
    book_ok ob' \<and> trades_of evs = [(1, 100, 10), (2, 104, 2)] \<and>
    resting ob' Sell = Some [(2, 104, 3)] \<and> resting ob' Buy = Some []"
proof -
  let ?c = "demo_place 3 9 Buy GTC 104 12"
  have c: "pc_side ?c = Buy" by (simp add: demo_place_def)
  have f: "place_fits ?c demo_book" by (simp add: demo_book_fits)
  have r: "place_reason_spec ?c demo_book [(1, 100, 10), (2, 104, 5)] = None"
    and m: "match_spec (opposite_side (pc_side ?c)) (matching_price_for_command ?c) (pc_quantity ?c) [(1, 100, 10), (2, 104, 5)] =
      ([(1, 100, 10), (2, 104, 2)], 0, [(2, 104, 3)])" by code_simp+
  then show ?thesis
    using place_refines_matching [OF demo_book_ok f demo_sides r m, of initial_sequence_generator] by (simp add: c)
qed

text \<open>
  C15: an order that fails a check - a duplicate id, trading disabled, a quantity or a limit price
  outside the rules of the symbol, a post-only order that would trade, a fill-or-kill order the
  book cannot fill - is answered by one rejection with that reason and leaves the book as it was.
\<close>

theorem place_rejected_unchanged:
  assumes "book_ok ob" "place_fits cmd ob"
    and "resting ob (opposite_side (pc_side cmd)) = Some opp" "place_reason_spec cmd ob opp = Some r"
  shows "process_place cmd ob sg = Some (ob, advance 1 0 sg, [rejected_event (pc_commandId cmd)
    (optional_order_id (pc_orderId cmd)) (pc_userId cmd) (pc_symbolId cmd) r sg])"
  using place_outcome [OF assms(1,2), of sg] by cases (use assms(3-) in auto)

theorem place_rejected_unchanged_witness:
  "process_place (demo_place 3 9 Buy FOK 104 16) demo_book initial_sequence_generator =
    Some (demo_book, advance 1 0 initial_sequence_generator,
      [OrderRejected 1 1 3 (Some 3) 9 1 InsufficientBalanceLiquidity])"
proof -
  let ?c = "demo_place 3 9 Buy FOK 104 16"
  have c: "pc_side ?c = Buy" by (simp add: demo_place_def)
  have f: "place_fits ?c demo_book" by (simp add: demo_book_fits)
  have "place_reason_spec ?c demo_book [(1, 100, 10), (2, 104, 5)] = Some InsufficientBalanceLiquidity" by code_simp+
  then show ?thesis
    using place_rejected_unchanged [OF demo_book_ok f] demo_book_views
    by (simp add: c rejected_event_def initial_sequence_generator_def optional_order_id_def)
      (simp add: demo_place_def)
qed

lemma traded_book_insert: "traded (book_insert s v vs) = traded (v # vs)"
  by (induction s v vs rule: book_insert.induct) (auto simp: traded_def)

text \<open>
  C3: no quantity appears or disappears: what the trades of an accepted order take from the other
  side is what they give to the order, and what rests afterwards on both sides together with
  twice the traded quantity is what rested before plus the order, less what an order that may
  not rest leaves unfilled.
\<close>

theorem place_conserves_quantity:
  assumes "book_ok ob" "place_fits cmd ob" "process_place cmd ob sg = Some (ob', sg', evs)"
    and "resting ob (pc_side cmd) = Some own" "resting ob (opposite_side (pc_side cmd)) = Some opp"
    and "has_event_order_accepted evs"
  shows "\<exists>own' opp' left. resting ob' (pc_side cmd) = Some own' \<and>
    resting ob' (opposite_side (pc_side cmd)) = Some opp' \<and>
    traded (trades_of evs) + left = unat (pc_quantity cmd) \<and>
    traded opp' + traded (trades_of evs) = traded opp \<and>
    traded own' = traded own + (if can_rest cmd then left else 0)"
proof (cases rule: place_outcome [OF assms(1,2), of sg, case_names rejected accepted])
  case (accepted own2 opp2 fills left rest ob2 evs2)
  then have "traded fills + unat left = unat (pc_quantity cmd)" "traded fills + traded rest = traded opp"
    using match_spec_conserves [OF accepted(4)] assms(5) by auto
  then show ?thesis
    using accepted assms(3-5) by (auto simp: accepted_event_def traded_book_insert intro: exI [of _ "unat left"])
qed (use assms(3,6) in \<open>auto simp: has_event_order_accepted_def rejected_event_def\<close>)

theorem place_conserves_quantity_witness:
  "\<exists>own' opp' left. resting (place_on (demo_place 3 9 Buy GTC 102 14) demo_book) Buy = Some own' \<and>
    resting (place_on (demo_place 3 9 Buy GTC 102 14) demo_book) Sell = Some opp' \<and>
    traded (trades_of (place_events (demo_place 3 9 Buy GTC 102 14) demo_book)) + left = 14 \<and>
    traded opp' + traded (trades_of (place_events (demo_place 3 9 Buy GTC 102 14) demo_book)) = 15 \<and>
    traded own' = left"
proof -
  let ?c = "demo_place 3 9 Buy GTC 102 14"
  have f: "place_fits ?c demo_book" by (simp add: demo_book_fits)
  have "has_event_order_accepted (place_events ?c demo_book)" "pc_side ?c = Buy" "can_rest ?c"
    by code_simp+
  moreover have "unat (pc_quantity ?c) = 14" by (simp add: demo_place_def)
  ultimately show ?thesis
    using place_conserves_quantity [OF demo_book_ok f place_on_ok(2) [OF demo_book_ok f] demo_sides]
    by (simp add: traded_def)
qed

text \<open>
  C14: a fill-or-kill order is filled completely or leaves the book as it was: there is no partial fill.
\<close>

theorem fill_or_kill_all_or_nothing:
  assumes "book_ok ob" "place_fits cmd ob" "process_place cmd ob sg = Some (ob', sg', evs)"
    and "pc_timeInForce cmd = FOK"
  shows "(if has_event_order_accepted evs then traded (trades_of evs) = unat (pc_quantity cmd)
          else ob' = ob \<and> trades_of evs = [])"
proof (cases rule: place_outcome [OF assms(1,2), of sg, case_names rejected accepted])
  case (accepted own opp fills left rest ob2 evs2)
  let ?s = "opposite_side (pc_side cmd)" and ?pr = "matching_price_for_command cmd"
  have "unat (pc_quantity cmd) \<le> crossing_qty ?s ?pr opp"
    using reason_noneD(6) [OF accepted(3)] assms(4) by simp
  then have "unat left = 0"
    using match_spec_left [of ?s ?pr "pc_quantity cmd" opp] accepted(4) by simp
  then have "traded fills = unat (pc_quantity cmd)"
    using match_spec_conserves [OF accepted(4)] by simp
  then show ?thesis
    using accepted assms(3) by (auto simp: accepted_event_def has_event_order_accepted_def)
qed (use assms(3) in \<open>auto simp: has_event_order_accepted_def rejected_event_def\<close>)

theorem fill_or_kill_all_or_nothing_witness:
  "traded (trades_of (place_events (demo_place 3 9 Buy FOK 104 10) demo_book)) = 10 \<and>
   place_on (demo_place 3 9 Buy FOK 103 15) demo_book = demo_book"
proof -
  let ?c = "demo_place 3 9 Buy FOK 104 10" and ?d = "demo_place 3 9 Buy FOK 103 15"
  have f: "place_fits ?c demo_book" "place_fits ?d demo_book" by (simp_all add: demo_book_fits)
  have "has_event_order_accepted (place_events ?c demo_book)"
    "\<not> has_event_order_accepted (place_events ?d demo_book)" by code_simp+
  then show ?thesis
    using fill_or_kill_all_or_nothing [OF demo_book_ok f(1) place_on_ok(2) [OF demo_book_ok f(1)]]
      fill_or_kill_all_or_nothing [OF demo_book_ok f(2) place_on_ok(2) [OF demo_book_ok f(2)]]
    by (simp add: demo_place_def)
qed

text \<open>A post-only order never trades.\<close>

theorem post_only_never_trades:
  assumes "book_ok ob" "place_fits cmd ob" "process_place cmd ob sg = Some (ob', sg', evs)"
    and "pc_timeInForce cmd = PO" "pc_orderType cmd = Limit"
  shows "trades_of evs = []"
proof (cases rule: place_outcome [OF assms(1,2), of sg, case_names rejected accepted])
  case (accepted own opp fills left rest ob2 evs2)
  have "case opp of [] \<Rightarrow> True | (i, p, r) # _ \<Rightarrow>
      \<not> crosses (opposite_side (pc_side cmd)) (matching_price_for_command cmd) p"
    using reason_noneD(5) [OF accepted(3) assms(4)] assms(5)
    by (auto simp: matching_price_for_command_def split: list.splits)
  then have "fills = []" using match_spec_nothing accepted(4) by (metis prod.inject)
  then show ?thesis
    using accepted assms(3) by (auto simp: accepted_event_def)
qed (use assms(3) in \<open>auto simp: rejected_event_def\<close>)

theorem post_only_never_trades_witness:
  "trades_of (place_events (demo_place 3 9 Buy PO 99 15) demo_book) = [] \<and>
   has_event_order_accepted (place_events (demo_place 3 9 Buy PO 99 15) demo_book)"
proof -
  let ?c = "demo_place 3 9 Buy PO 99 15"
  have f: "place_fits ?c demo_book" by (simp add: demo_book_fits)
  have "has_event_order_accepted (place_events ?c demo_book)" by code_simp
  then show ?thesis
    using post_only_never_trades [OF demo_book_ok f place_on_ok(2) [OF demo_book_ok f]]
    by (simp add: demo_place_def)
qed

text \<open>
  Every trade of a limit order is at a price its limit allows, and at the price and against
  the id of an order that was resting.
\<close>

theorem trades_respect_limit:
  assumes "book_ok ob" "place_fits cmd ob" "process_place cmd ob sg = Some (ob', sg', evs)"
    and "pc_orderType cmd = Limit" "resting ob (opposite_side (pc_side cmd)) = Some opp"
    and "(maker, p, q) \<in> set (trades_of evs)"
  shows "(if pc_side cmd = Buy then p \<le> pc_price cmd else pc_price cmd \<le> p) \<and> (\<exists>r \<ge> q. (maker, p, r) \<in> set opp)"
proof (cases rule: place_outcome [OF assms(1,2), of sg, case_names rejected accepted])
  case (accepted own opp2 fills left rest ob2 evs2)
  then have f: "(maker, p, q) \<in> set fills" "opp2 = opp"
    using assms(3,5,6) by (auto simp: accepted_event_def)
  have "crosses (opposite_side (pc_side cmd)) (pc_price cmd) p"
    using match_spec_prices [OF accepted(4)] f assms(4) by (auto simp: matching_price_for_command_def)
  then show ?thesis
    using match_spec_makers [OF accepted(4) f(1)] f(2) by (cases "pc_side cmd") (auto simp: crosses_def)
qed (use assms(3,6) in \<open>auto simp: rejected_event_def\<close>)

theorem trades_respect_limit_witness:
  "(100 :: int) \<le> 103 \<and> (\<exists>r \<ge> 10. (1, 100, r) \<in> set (the (resting demo_book Sell)))"
proof -
  let ?c = "demo_place 3 9 Buy IOC 103 15"
  have f: "place_fits ?c demo_book" by (simp add: demo_book_fits)
  have "(1, 100, 10) \<in> set (trades_of (place_events ?c demo_book))" by code_simp
  then show ?thesis
    using trades_respect_limit [OF demo_book_ok f place_on_ok(2) [OF demo_book_ok f], of _ 1 100 10] demo_book_views
    by (simp add: demo_place_def)
qed

text \<open>
  C8: however a place command ends, the book keeps its invariant and is not crossed: every
  resting bid is below every resting ask.
\<close>

theorem book_never_crossed:
  assumes "book_ok ob" "place_fits cmd ob" "process_place cmd ob sg = Some (ob', sg', evs)"
    and "resting ob' Buy = Some bids" "resting ob' Sell = Some asks"
  shows "book_ok ob' \<and> (\<forall>(i, b, r) \<in> set bids. \<forall>(j, a, t) \<in> set asks. b < a)"
proof -
  have ok: "book_ok ob'" using book.place_ok [OF assms(1,2), of sg] assms(3) by auto
  then show ?thesis using book_ok_uncrossed [OF ok assms(4,5)] by blast
qed

theorem book_never_crossed_witness:
  "book_ok (place_on (demo_place 3 9 Buy GTC 103 15) demo_book) \<and>
   resting (place_on (demo_place 3 9 Buy GTC 103 15) demo_book) Buy = Some [(3, 103, 5)] \<and> (103 :: int) < 104"
proof -
  let ?c = "demo_place 3 9 Buy GTC 103 15"
  have f: "place_fits ?c demo_book" by (simp add: demo_book_fits)
  have "resting (place_on ?c demo_book) Buy = Some [(3, 103, 5)]"
    "resting (place_on ?c demo_book) Sell = Some [(2, 104, 5)]" by code_simp+
  then show ?thesis
    using book_never_crossed [OF demo_book_ok f place_on_ok(2) [OF demo_book_ok f]] by simp
qed

text \<open>
  C36: cancelling a resting order of the caller takes exactly that order out of the book, reports
  exactly the quantity that was left of it and the new total of its price, and changes nothing else.
\<close>

theorem cancel_releases_remaining:
  assumes "book_ok ob" "resting ob s = Some vs" "resting ob (opposite_side s) = Some ws"
    and "find_order ob (cancel_target cmd ob) = Some p" "oread (ob_heap ob) p = Some x"
    and "o_userId x = cc_userId cmd" "o_side x = s"
  shows "\<exists>ob' tot. process_cancel cmd ob sg = Some (ob', advance 2 0 sg,
      [OrderCancelled (sg_nextEventId sg) (sg_nextSequence sg) (cancel_target cmd ob) (o_remainingQuantity x),
       OrderBookDelta (sg_nextEventId sg + 1) (sg_nextSequence sg + 1)
         (sc_symbolId (ob_symbolConfig ob)) s (o_price x) tot]) \<and>
    book_ok ob' \<and> order_view x \<in> set vs \<and>
    resting ob' s = Some (filter (\<lambda>v. fst v \<noteq> cancel_target cmd ob) vs) \<and>
    resting ob' (opposite_side s) = Some ws \<and>
    unat tot = view_qty (o_price x) (filter (\<lambda>v. fst v \<noteq> cancel_target cmd ob) vs) \<and>
    find_order ob' (cancel_target cmd ob) = None"
proof -
  obtain g where inv: "ob_inv ob g" using assms(1) by (auto simp: book_ok_def)
  obtain ob' g' tot where c: "cancel_existing_order (cancel_target cmd ob) ob sg = Some (ob', advance 2 0 sg,
      [OrderCancelled (sg_nextEventId sg) (sg_nextSequence sg) (cancel_target cmd ob) (o_remainingQuantity x),
       OrderBookDelta (sg_nextEventId sg + 1) (sg_nextSequence sg + 1)
         (sc_symbolId (ob_symbolConfig ob)) (o_side x) (o_price x) tot])"
    "ob_inv ob' g'" "order_view x \<in> set (side_view ob (g (o_side x)))"
    "side_view ob' (g' (o_side x)) = filter (\<lambda>v. fst v \<noteq> cancel_target cmd ob) (side_view ob (g (o_side x)))"
    "side_view ob' (g' (opposite_side (o_side x))) = side_view ob (g (opposite_side (o_side x)))"
    "unat tot = view_qty (o_price x) (side_view ob' (g' (o_side x)))"
    "find_order ob' (cancel_target cmd ob) = None"
    using cancel_existing_order_ok [OF inv assms(4,5), of sg] by blast
  then show ?thesis
    using process_cancel_own [OF assms(4,5,6), of sg] resting_ok [OF inv] resting_ok [OF c(2)] assms(2,3,7)
    by (auto simp: book_ok_def)
qed

theorem cancel_releases_remaining_witness:
  "\<exists>ob' tot. process_cancel (demo_cancel 5 7 1) demo_book initial_sequence_generator =
      Some (ob', advance 2 0 initial_sequence_generator,
        [OrderCancelled 1 1 1 10, OrderBookDelta 2 2 1 Sell 100 tot]) \<and>
    resting ob' Sell = Some [(2, 104, 5)] \<and> unat tot = 0"
proof -
  have f: "find_order demo_book (cancel_target (demo_cancel 5 7 1) demo_book) = Some 0"
    "cancel_target (demo_cancel 5 7 1) demo_book = 1" by code_simp+
  obtain x where x: "oread (ob_heap demo_book) 0 = Some x"
      "o_userId x = 7 \<and> o_side x = Sell \<and> o_price x = 100 \<and> o_remainingQuantity x = 10"
  proof -
    have "case oread (ob_heap demo_book) 0 of None \<Rightarrow> False | Some x \<Rightarrow>
        o_userId x = 7 \<and> o_side x = Sell \<and> o_price x = 100 \<and> o_remainingQuantity x = 10" by code_simp
    then show thesis using that by (auto split: option.splits)
  qed
  have "sc_symbolId (ob_symbolConfig demo_book) = 1" by code_simp
  then show ?thesis
    using cancel_releases_remaining [OF demo_book_ok demo_book_views(1) _ f(1) x(1), of "[]" initial_sequence_generator]
      demo_book_views x(2) f(2)
    by (auto simp add: demo_cancel_def initial_sequence_generator_def view_qty_def)
qed

text \<open>
  A cancel that names no resting order, or an order of another user, is rejected with
  \<open>OrderNotFound\<close> and leaves the book as it was.
\<close>

theorem cancel_not_owner:
  assumes "case find_order ob (cancel_target cmd ob) of None \<Rightarrow> True
    | Some p \<Rightarrow> (case oread (ob_heap ob) p of None \<Rightarrow> False | Some x \<Rightarrow> o_userId x \<noteq> cc_userId cmd)"
  shows "process_cancel cmd ob sg = Some (ob, advance 1 0 sg,
    [rejected_event (cc_commandId cmd) (optional_order_id (cancel_target cmd ob)) (cc_userId cmd)
       (cc_symbolId cmd) OrderNotFound sg])"
  by (rule process_cancel_not_found) (use assms in \<open>auto split: option.splits\<close>)
theorem cancel_not_owner_witness:
  "process_cancel (demo_cancel 5 9 1) demo_book initial_sequence_generator =
    Some (demo_book, advance 1 0 initial_sequence_generator, [OrderRejected 1 1 5 (Some 1) 9 1 OrderNotFound])"
proof -
  have "case find_order demo_book (cancel_target (demo_cancel 5 9 1) demo_book) of None \<Rightarrow> True
    | Some p \<Rightarrow> (case oread (ob_heap demo_book) p of None \<Rightarrow> False | Some x \<Rightarrow> o_userId x \<noteq> cc_userId (demo_cancel 5 9 1))"
    "cancel_target (demo_cancel 5 9 1) demo_book = 1" by code_simp+
  then show ?thesis
    using cancel_not_owner [of "demo_cancel 5 9 1" demo_book initial_sequence_generator]
    by (simp add: rejected_event_def initial_sequence_generator_def optional_order_id_def) (simp add: demo_cancel_def)
qed

end
