(* ===== verification/Restore.thy ===== *)
theory Restore
  imports EngineCore "HOL-Library.Multiset"
begin

text \<open>
  What \<open>EngineCore::restore\<close> makes of a snapshot (\<open>src/src/core/EngineCore.cpp\<close>): taking a snapshot of a
  consistent engine and restoring it always returns; every order is back with all its members, and the orders
  of a level stand by order id.
\<close>

section \<open>Orders inserted one after the other\<close>

text \<open>The price of an order, smaller the better.\<close>

definition priority_key :: "Side \<Rightarrow> order_view \<Rightarrow> int" where
  "priority_key s v = (if s = Buy then - fst (snd v) else fst (snd v))"

lemma is_better_key: "is_better_price s (fst (snd v)) (fst (snd u)) \<longleftrightarrow> priority_key s v < priority_key s u"
  by (simp add: is_better_price_def priority_key_def)

lemma book_insert_mset: "mset (book_insert s v us) = add_mset v (mset us)"
  by (induction us) auto

lemma book_insert_set [simp]: "set (book_insert s v us) = insert v (set us)"
  by (induction us) auto

lemma book_insert_sorted:
  "sorted (map (priority_key s) us) \<Longrightarrow> sorted (map (priority_key s) (book_insert s v us))"
  by (induction us) (auto simp: is_better_key)

lemma book_insert_filter:
  "sorted (map (priority_key s) us) \<Longrightarrow> filter (\<lambda>u. k = priority_key s u) (book_insert s v us) =
     filter (\<lambda>u. k = priority_key s u) us @ (if k = priority_key s v then [v] else [])"
proof (induction us)
  case (Cons u us)
  show ?case
  proof (cases "priority_key s v < priority_key s u")
    case True
    then have "filter (\<lambda>u. priority_key s v = priority_key s u) (u # us) = []"
      using Cons.prems by (auto simp: filter_empty_conv)
    then show ?thesis using True by (auto simp: is_better_key)
  qed (use Cons in \<open>auto simp: is_better_key\<close>)
qed simp

lemma fold_book_insert:
  "sorted (map (priority_key s) us) \<Longrightarrow>
     mset (fold (book_insert s) vs us) = mset vs + mset us \<and>
     sorted (map (priority_key s) (fold (book_insert s) vs us)) \<and>
     filter (\<lambda>u. k = priority_key s u) (fold (book_insert s) vs us) =
       filter (\<lambda>u. k = priority_key s u) us @ filter (\<lambda>u. k = priority_key s u) vs"
proof (induction vs arbitrary: us)
  case (Cons v vs)
  note step = Cons.IH [OF book_insert_sorted [OF Cons.prems], of v]
  show ?case using step book_insert_filter [OF Cons.prems, of k v] by (simp add: book_insert_mset)
qed simp

text \<open>Orders that arrive in some sequence stand in price order, and in that sequence within a price.\<close>

lemma book_inserts_sort: "fold (book_insert s) vs [] = sort_key (priority_key s) vs"
  using fold_book_insert [of s "[]" vs] by (intro properties_for_sort_key [symmetric]) auto

text \<open>What a restored side lists: the orders by price, and within a price by id.\<close>

definition restored_view :: "Side \<Rightarrow> order_view list \<Rightarrow> order_view list" where
  "restored_view s vs = sort_key (priority_key s) (sort_key fst vs)"

lemma restored_view_kept:
  "mset (restored_view s vs) = mset vs" "sorted (map (priority_key s) (restored_view s vs))"
  by (simp_all add: restored_view_def)

lemma restored_view_level:
  "filter (\<lambda>v. fst (snd v) = p) (restored_view s vs) = sort_key fst (filter (\<lambda>v. fst (snd v) = p) vs)"
proof -
  have k: "(\<lambda>v :: order_view. fst (snd v) = p) = (\<lambda>v. priority_key s v = (if s = Buy then - p else p))"
    by (auto simp: priority_key_def fun_eq_iff)
  have "filter (\<lambda>v. fst (snd v) = p) (restored_view s vs) = filter (\<lambda>v. fst (snd v) = p) (sort_key fst vs)"
    unfolding k restored_view_def by (rule sort_key_stable)
  also have "\<dots> = sort_key fst (filter (\<lambda>v. fst (snd v) = p) vs)" by (rule filter_sort)
  finally show ?thesis .
qed

section \<open>The orders of a book by id\<close>

definition order_at :: "OrderBook \<Rightarrow> OrderId \<Rightarrow> OrderSnapshot option" where
  "order_at ob i = Option.bind (find_order ob i) (\<lambda>p. map_option snapshot_order (oread (ob_heap ob) p))"

definition order_snapshot_view :: "OrderSnapshot \<Rightarrow> order_view" where
  "order_snapshot_view x = (os_orderId x, os_price x, os_remainingQuantity x)"

lemma snapshot_order_simps [simp]:
  "snapshot_order (restore_order x) = x" "snapshot_order (detach_links y) = snapshot_order y"
  "order_snapshot_view (snapshot_order y) = order_view y" "order_view (restore_order x) = order_snapshot_view x"
  "os_side (snapshot_order y) = o_side y" "os_orderId (snapshot_order y) = o_orderId y"
  "os_clientOrderId (snapshot_order y) = o_clientOrderId y" "os_price (snapshot_order y) = o_price y"
  "os_remainingQuantity (snapshot_order y) = o_remainingQuantity y"
  by (simp_all add: snapshot_order_def restore_order_def order_snapshot_view_def order_view_def detach_links_def)

lemma restore_order_simps [simp]:
  "o_side (restore_order x) = os_side x" "o_price (restore_order x) = os_price x"
  "o_orderId (restore_order x) = os_orderId x" "o_clientOrderId (restore_order x) = os_clientOrderId x"
  "o_remainingQuantity (restore_order x) = os_remainingQuantity x"
  by (simp_all add: restore_order_def)

lemma payload_snapshot:
  assumes "payload M' p = payload M p"
  shows "map_option snapshot_order (M' p) = map_option snapshot_order (M p)"
proof -
  have "map_option snapshot_order (M p) = map_option snapshot_order (payload M p)" for M :: "order_ptr \<Rightarrow> Order option"
    by (simp add: payload_def option.map_comp comp_def)
  then show ?thesis using assms by metis
qed

lemma client_order_at:
  assumes "ob_inv ob g"
  shows "um_find (ob_clientOrderIdToOrderId ob) c = Some i \<longleftrightarrow> (\<exists>x. order_at ob i = Some x \<and> os_clientOrderId x = c)"
proof -
  have "um_find (ob_clientOrderIdToOrderId ob) c = Some i \<longleftrightarrow>
      (\<exists>p \<in> all_orders g. \<exists>x. oread (ob_heap ob) p = Some x \<and> o_clientOrderId x = c \<and> o_orderId x = i)"
    using assms by (simp add: ob_inv_def maps_ok_def)
  moreover have "order_at ob i = Some z \<longleftrightarrow>
      (\<exists>p \<in> all_orders g. \<exists>x. oread (ob_heap ob) p = Some x \<and> o_orderId x = i \<and> z = snapshot_order x)" for z
    using find_order_iff [OF assms, of i] unfolding order_at_def bind_eq_Some_conv by auto blast
  ultimately show ?thesis by (simp only:) (metis snapshot_order_simps(7))
qed

lemma order_at_id: "ob_inv ob g \<Longrightarrow> order_at ob i = Some x \<Longrightarrow> os_orderId x = i"
  using find_order_iff [of ob g i] by (auto simp: order_at_def bind_eq_Some_conv)

lemma order_at_None: "ob_inv ob g \<Longrightarrow> order_at ob i = None \<longleftrightarrow> um_find (ob_orderById ob) i = None"
  using find_order_iff [of ob g i]
  by (cases "um_find (ob_orderById ob) i") (auto simp: order_at_def find_order_def bind_eq_None_conv)

section \<open>Restoring the orders\<close>

lemma priced_prices:
  assumes "priced M G" "\<forall>e \<in> set G. g_queue e \<noteq> []"
  shows "fst ` set G = (\<lambda>v. fst (snd v)) ` set (flat_view M (g_orders G))"
proof -
  have price: "fst (snd (order_view (the (M q)))) = fst e" if "e \<in> set G" "q \<in> set (g_queue e)" for e q
    using assms(1) that by (fastforce simp: priced_def order_view_def)
  show ?thesis
  proof (intro set_eqI iffI)
    fix pr assume "pr \<in> fst ` set G"
    then obtain e where e: "e \<in> set G" "pr = fst e" by auto
    then obtain q where "q \<in> set (g_queue e)" using assms(2) by (meson last_in_set)
    then show "pr \<in> (\<lambda>v. fst (snd v)) ` set (flat_view M (g_orders G))"
      using e price [OF e(1)] by (auto simp: flat_view_def g_orders_mem image_image intro!: rev_image_eqI [of q])
  next
    fix pr assume "pr \<in> (\<lambda>v. fst (snd v)) ` set (flat_view M (g_orders G))"
    then obtain e q where "e \<in> set G" "q \<in> set (g_queue e)" "pr = fst (snd (order_view (the (M q))))"
      by (auto simp: flat_view_def g_orders_mem)
    then show "pr \<in> fst ` set G" using price by auto
  qed
qed

lemma ghost_prices:
  assumes "ob_inv ob g"
  shows "fst ` set (g s) = (\<lambda>v. fst (snd v)) ` set (side_view ob (g s))"
proof -
  have "sb_ok (ob_heap ob) (book_for_side ob s) (g s)"
    using assms books_okD(7) by (auto simp: ob_inv_def)
  then show ?thesis unfolding side_view_flat by (intro priced_prices) (auto simp: sb_ok_def intro: sb_core_priced)
qed

lemma view_qty_insert: "view_qty pr (book_insert s v us) = view_qty pr (v # us)"
  by (induction us) (auto simp: view_qty_def)

text \<open>What comes to rest on a side: the orders there and those still to be restored.\<close>

definition resting_and_pending :: "OrderBook \<Rightarrow> ghost \<Rightarrow> OrderSnapshot list \<Rightarrow> Side \<Rightarrow> order_view list" where
  "resting_and_pending ob g ss s = map order_snapshot_view (filter (\<lambda>x. os_side x = s) ss) @ side_view ob (g s)"

definition restorable :: "OrderBook \<Rightarrow> ghost \<Rightarrow> OrderSnapshot list \<Rightarrow> bool" where
  "restorable ob g ss \<longleftrightarrow>
     (\<forall>x \<in> set ss. os_remainingQuantity x \<noteq> 0 \<and> on_tick (sc_tickSize (ob_symbolConfig ob)) (os_price x)) \<and>
     distinct (map os_orderId ss) \<and> distinct (map os_clientOrderId ss) \<and>
     (\<forall>x \<in> set ss. order_at ob (os_orderId x) = None) \<and>
     (\<forall>x \<in> set ss. \<forall>i y. order_at ob i = Some y \<longrightarrow> os_clientOrderId y \<noteq> os_clientOrderId x) \<and>
     (\<forall>u \<in> set (resting_and_pending ob g ss Buy). \<forall>v \<in> set (resting_and_pending ob g ss Sell). fst (snd u) < fst (snd v)) \<and>
     (\<forall>s pr. view_qty pr (resting_and_pending ob g ss s) < 2 ^ 64)"

lemma order_at_insert:
  assumes inv: "ob_inv ob g" and new: "new_order (restore_order x) (ob_heap ob) = (p, h)"
    and ins: "insert_remaining_as_resting (Some p) (ob\<lparr>ob_heap := h\<rparr>) = Some ob'"
    and pay: "payload (oread (ob_heap ob')) = payload (oread h)"
  shows "order_at ob' i = (if i = os_orderId x then Some x else order_at ob i)"
proof -
  have bk: "books_ok (ob_heap ob) (book_for_side ob) g (sc_tickSize (ob_symbolConfig ob)) {}"
    using inv by (simp add: ob_inv_def)
  note n = books_ok_new_order [OF bk new]
  have by_id: "ob_orderById ob' = um_assign (os_orderId x) p (ob_orderById ob)"
    using ins n(3) by (auto simp: insert_remaining_as_resting_def bind_eq_Some_conv)
  have read: "map_option snapshot_order (oread (ob_heap ob') q) = map_option snapshot_order (oread h q)" for q
    using pay by (intro payload_snapshot) simp
  have "q \<noteq> p" if "find_order ob i = Some q" for q
    using that n(2) find_order_iff [OF inv] by blast
  then show ?thesis
    by (cases "find_order ob i") (auto simp: order_at_def find_order_def by_id container_simps read n(3))
qed

lemma restore_first:
  assumes inv: "ob_inv ob g" and ok: "restorable ob g (x # ss)"
  shows "\<exists>ob' g'. restore_orders (x # ss) ob = restore_orders ss ob' \<and> ob_inv ob' g' \<and>
    ob_symbolConfig ob' = ob_symbolConfig ob \<and> ob_lastTradePrice ob' = ob_lastTradePrice ob \<and>
    (\<forall>s. side_view ob' (g' s) =
       (if s = os_side x then book_insert s (order_snapshot_view x) (side_view ob (g s)) else side_view ob (g s))) \<and>
    (\<forall>i. order_at ob' i = (if i = os_orderId x then Some x else order_at ob i))"
proof -
  let ?s = "os_side x" and ?x = "restore_order x"
  note r = ok [unfolded restorable_def]
  obtain p h where new: "new_order ?x (ob_heap ob) = (p, h)" by (cases "new_order ?x (ob_heap ob)")
  have ids: "um_find (ob_orderById ob) (os_orderId x) = None"
    using r order_at_None [OF inv] by simp
  have client: "um_find (ob_clientOrderIdToOrderId ob) (os_clientOrderId x) = None"
  proof (cases "um_find (ob_clientOrderIdToOrderId ob) (os_clientOrderId x)")
    case (Some i)
    then obtain y where "order_at ob i = Some y" "os_clientOrderId y = os_clientOrderId x"
      using client_order_at [OF inv] by blast
    then show ?thesis using r by auto
  qed
  have nc: "\<forall>e \<in> set (g (opposite_side ?s)). \<not> crosses (opposite_side ?s) (os_price x) (fst e)"
  proof
    fix e assume "e \<in> set (g (opposite_side ?s))"
    then have "fst e \<in> (\<lambda>v. fst (snd v)) ` set (side_view ob (g (opposite_side ?s)))"
      using ghost_prices [OF inv, of "opposite_side ?s"] by blast
    then obtain v where v: "v \<in> set (side_view ob (g (opposite_side ?s)))" "fst e = fst (snd v)" by auto
    have "fst (snd (order_snapshot_view x)) = os_price x" by (simp add: order_snapshot_view_def)
    moreover have "order_snapshot_view x \<in> set (resting_and_pending ob g (x # ss) ?s)"
      "v \<in> set (resting_and_pending ob g (x # ss) (opposite_side ?s))"
      using v by (simp_all add: resting_and_pending_def)
    ultimately show "\<not> crosses (opposite_side ?s) (os_price x) (fst e)"
      using r v(2) unfolding crosses_price by (cases ?s) (simp_all, fastforce+)
  qed
  have fits: "view_qty (os_price x) (side_view ob (g ?s)) + unat (os_remainingQuantity x) < 2 ^ 64"
  proof -
    have "view_qty (os_price x) (resting_and_pending ob g (x # ss) ?s) < 2 ^ 64" using r by blast
    then show ?thesis by (simp add: resting_and_pending_def view_qty_def order_snapshot_view_def)
  qed
  obtain ob' g' where i: "insert_remaining_as_resting (Some p) (ob\<lparr>ob_heap := h\<rparr>) = Some ob'" "ob_inv ob' g'"
    "side_view ob' (g' ?s) = book_insert ?s (order_snapshot_view x) (side_view ob (g ?s))"
    "side_view ob' (g' (opposite_side ?s)) = side_view ob (g (opposite_side ?s))"
    "ob_symbolConfig ob' = ob_symbolConfig ob" "ob_lastTradePrice ob' = ob_lastTradePrice ob"
    "payload (oread (ob_heap ob')) = payload (oread h)"
    using insert_new_ok [OF inv new, of ?s] r ids client nc fits by auto
  have "\<forall>s. side_view ob' (g' s) =
      (if s = ?s then book_insert s (order_snapshot_view x) (side_view ob (g s)) else side_view ob (g s))"
    using i(3,4) by (cases ?s) (auto simp: Side_all)
  then show ?thesis
    using i(1,2,5,6) new order_at_insert [OF inv new i(1) i(7)] by (intro exI [of _ ob'] exI [of _ g']) simp
qed

lemma restore_orders_ok:
  assumes "ob_inv ob g" "restorable ob g ss"
  shows "\<exists>ob' g'. restore_orders ss ob = Some ob' \<and> ob_inv ob' g' \<and>
    ob_symbolConfig ob' = ob_symbolConfig ob \<and> ob_lastTradePrice ob' = ob_lastTradePrice ob \<and>
    (\<forall>s. side_view ob' (g' s) =
       fold (book_insert s) (map order_snapshot_view (filter (\<lambda>x. os_side x = s) ss)) (side_view ob (g s))) \<and>
    (\<forall>i. order_at ob' i = (case find (\<lambda>x. os_orderId x = i) ss of Some x \<Rightarrow> Some x | None \<Rightarrow> order_at ob i))"
  using assms
proof (induction ss arbitrary: ob g)
  case Nil
  then show ?case by (intro exI [of _ ob] exI [of _ g]) simp
next
  case (Cons x ss)
  note r = Cons.prems(2) [unfolded restorable_def]
  obtain ob1 g1 where s: "restore_orders (x # ss) ob = restore_orders ss ob1" "ob_inv ob1 g1"
    "ob_symbolConfig ob1 = ob_symbolConfig ob" "ob_lastTradePrice ob1 = ob_lastTradePrice ob"
    "\<And>s. side_view ob1 (g1 s) =
       (if s = os_side x then book_insert s (order_snapshot_view x) (side_view ob (g s)) else side_view ob (g s))"
    "\<And>i. order_at ob1 i = (if i = os_orderId x then Some x else order_at ob i)"
    using restore_first [OF Cons.prems] by auto
  have all: "set (resting_and_pending ob1 g1 ss s) = set (resting_and_pending ob g (x # ss) s)"
    "view_qty pr (resting_and_pending ob1 g1 ss s) = view_qty pr (resting_and_pending ob g (x # ss) s)" for s pr
    by (auto simp: resting_and_pending_def s(5) view_qty_insert) (simp_all add: view_qty_def)
  have "restorable ob1 g1 ss"
    unfolding restorable_def all s(3) using r by (auto simp: s(6) image_iff split: if_splits)
  from Cons.IH [OF s(2) this] obtain ob' g' where t: "restore_orders ss ob1 = Some ob'" "ob_inv ob' g'"
    "ob_symbolConfig ob' = ob_symbolConfig ob" "ob_lastTradePrice ob' = ob_lastTradePrice ob"
    "\<And>s. side_view ob' (g' s) =
       fold (book_insert s) (map order_snapshot_view (filter (\<lambda>x. os_side x = s) ss)) (side_view ob1 (g1 s))"
    "\<And>i. order_at ob' i = (case find (\<lambda>x. os_orderId x = i) ss of Some x \<Rightarrow> Some x | None \<Rightarrow> order_at ob1 i)"
    unfolding s(3,4) by blast
  have "order_at ob' i = (case find (\<lambda>x. os_orderId x = i) (x # ss) of Some x \<Rightarrow> Some x | None \<Rightarrow> order_at ob i)" for i
  proof (cases "i = os_orderId x")
    case True
    then have "find (\<lambda>x. os_orderId x = i) ss = None" using r by (auto simp: find_None_iff image_iff)
    then show ?thesis using True by (simp add: t(6) s(6))
  qed (auto simp: t(6) s(6) split: option.split)
  then show ?case
    using s(1) t by (intro exI [of _ ob'] exI [of _ g']) (auto simp: s(5))
qed

section \<open>The snapshot of a book\<close>

lemma order_live:
  assumes "ob_inv ob g" "p \<in> all_orders g"
  shows "\<exists>x. oread (ob_heap ob) p = Some x"
proof -
  have "dom (oread (ob_heap ob)) = all_orders g" using assms(1) by (simp add: ob_inv_def books_ok_def)
  then show ?thesis using assms(2) by auto
qed

lemma order_pointers:
  assumes "ob_inv ob g"
  shows "set (map snd (ob_orderById ob)) = all_orders g" "distinct (map snd (ob_orderById ob))"
    "(i, p) \<in> set (ob_orderById ob) \<longleftrightarrow> p \<in> all_orders g \<and> (\<exists>x. oread (ob_heap ob) p = Some x \<and> o_orderId x = i)"
proof -
  have ok: "um_ok (ob_orderById ob)" using assms by (simp add: ob_inv_def maps_ok_def)
  have mem: "(i, p) \<in> set (ob_orderById ob) \<longleftrightarrow> p \<in> all_orders g \<and> (\<exists>x. oread (ob_heap ob) p = Some x \<and> o_orderId x = i)" for i p
    using find_order_iff [OF assms, of i p] um_ok_find_iff [OF ok, of i p] by (simp add: find_order_def)
  then show "(i, p) \<in> set (ob_orderById ob) \<longleftrightarrow> p \<in> all_orders g \<and> (\<exists>x. oread (ob_heap ob) p = Some x \<and> o_orderId x = i)" .
  have live: "\<exists>x. oread (ob_heap ob) p = Some x" if "p \<in> all_orders g" for p
    using assms that by (rule order_live)
  show "set (map snd (ob_orderById ob)) = all_orders g"
  proof (intro set_eqI iffI)
    fix p assume "p \<in> all_orders g"
    moreover from live [OF this] obtain x where "oread (ob_heap ob) p = Some x" by blast
    ultimately have "(o_orderId x, p) \<in> set (ob_orderById ob)" using mem by blast
    then show "p \<in> set (map snd (ob_orderById ob))" by force
  qed (use mem in auto)
  have "inj_on snd (set (ob_orderById ob))"
  proof (rule inj_onI)
    fix d e assume "d \<in> set (ob_orderById ob)" "e \<in> set (ob_orderById ob)" "snd d = snd e"
    then have "(fst d, snd d) \<in> set (ob_orderById ob)" "(fst e, snd d) \<in> set (ob_orderById ob)" "snd d = snd e"
      by (simp_all, metis prod.collapse)
    then show "d = e" unfolding mem by (auto simp: prod_eq_iff)
  qed
  moreover have "distinct (ob_orderById ob)" using ok by (simp add: um_ok_def distinct_map)
  ultimately show "distinct (map snd (ob_orderById ob))" by (simp add: distinct_map)
qed

definition order_snapshots :: "OrderBook \<Rightarrow> OrderSnapshot list" where
  "order_snapshots ob = map (\<lambda>p. snapshot_order (the (oread (ob_heap ob) p))) (map snd (ob_orderById ob))"

lemma snapshot_orders_ok:
  assumes "ob_inv ob g"
  shows "snapshot_orders (ob_heap ob) (ob_orderById ob) = Some (order_snapshots ob)"
proof -
  have "snapshot_orders h es = Some (map (\<lambda>p. snapshot_order (the (oread h p))) (map snd es))"
    if "\<forall>(i, p) \<in> set es. oread h p \<noteq> None" for h es
    using that by (induction h es rule: snapshot_orders.induct) auto
  moreover have "\<forall>(i, p) \<in> set (ob_orderById ob). oread (ob_heap ob) p \<noteq> None"
    using order_pointers(3) [OF assms] by fastforce
  ultimately show ?thesis by (simp add: order_snapshots_def)
qed

lemma in_order_snapshots:
  assumes "ob_inv ob g"
  shows "x \<in> set (order_snapshots ob) \<longleftrightarrow> order_at ob (os_orderId x) = Some x"
proof -
  have "x \<in> set (order_snapshots ob) \<longleftrightarrow>
      (\<exists>p \<in> all_orders g. \<exists>y. oread (ob_heap ob) p = Some y \<and> x = snapshot_order y)"
  proof -
    have "\<exists>y. oread (ob_heap ob) p = Some y" if "p \<in> all_orders g" for p
      using assms that by (rule order_live)
    then show ?thesis
      unfolding order_snapshots_def set_map order_pointers(1) [OF assms, unfolded set_map] by force
  qed
  also have "\<dots> \<longleftrightarrow> order_at ob (os_orderId x) = Some x"
    using find_order_iff [OF assms, of "os_orderId x"] by (auto simp: order_at_def bind_eq_Some_conv)
  finally show ?thesis .
qed

lemma snapshot_ids_distinct:
  assumes "ob_inv ob g"
  shows "distinct (map os_orderId (order_snapshots ob))" "distinct (map os_clientOrderId (order_snapshots ob))"
proof -
  let ?f = "\<lambda>p. snapshot_order (the (oread (ob_heap ob) p))"
  have live: "\<exists>y. oread (ob_heap ob) p = Some y" if "p \<in> all_orders g" for p
    using assms that by (rule order_live)
  have ids: "inj_on (os_orderId \<circ> ?f) (all_orders g)"
  proof (rule inj_onI)
    fix p q assume pq: "p \<in> all_orders g" "q \<in> all_orders g" "(os_orderId \<circ> ?f) p = (os_orderId \<circ> ?f) q"
    obtain x y where xy: "oread (ob_heap ob) p = Some x" "oread (ob_heap ob) q = Some y" using live pq(1,2) by blast
    then have "o_orderId x = o_orderId y" using pq(3) by simp
    then show "p = q" by (rule order_ids_unique [OF assms pq(1,2) xy])
  qed
  have "map os_orderId (order_snapshots ob) = map (os_orderId \<circ> ?f) (map snd (ob_orderById ob))"
    by (simp add: order_snapshots_def)
  then show 1: "distinct (map os_orderId (order_snapshots ob))"
    using ids order_pointers(2) [OF assms] by (simp only: distinct_map order_pointers(1) [OF assms] simp_thms)
  have "inj_on os_clientOrderId (set (order_snapshots ob))"
  proof (rule inj_onI)
    fix x y assume xy: "x \<in> set (order_snapshots ob)" "y \<in> set (order_snapshots ob)" "os_clientOrderId x = os_clientOrderId y"
    then have "order_at ob (os_orderId x) = Some x" "order_at ob (os_orderId y) = Some y"
      by (simp_all add: in_order_snapshots [OF assms])
    moreover from this have "um_find (ob_clientOrderIdToOrderId ob) (os_clientOrderId x) = Some (os_orderId x)"
      "um_find (ob_clientOrderIdToOrderId ob) (os_clientOrderId x) = Some (os_orderId y)"
      by (simp_all add: client_order_at [OF assms] xy(3))
    ultimately show "x = y" by simp
  qed
  moreover have "distinct (order_snapshots ob)" using 1 by (simp add: distinct_map)
  ultimately show "distinct (map os_clientOrderId (order_snapshots ob))" by (simp add: distinct_map)
qed

lemma snapshot_side_view:
  assumes "ob_inv ob g"
  shows "mset (map order_snapshot_view (filter (\<lambda>x. os_side x = s) (order_snapshots ob))) = mset (side_view ob (g s))"
proof -
  let ?h = "ob_heap ob"
  have bk: "books_ok ?h (book_for_side ob) g (sc_tickSize (ob_symbolConfig ob)) {}"
    using assms by (simp add: ob_inv_def)
  have core: "sb_core ?h (book_for_side ob t) (g t)" "sb_side (book_for_side ob t) = t" for t
    using books_okD(7,8) [OF bk, of t] by (simp_all add: sb_ok_def)
  have side: "o_side (the (oread ?h p)) = t" if "p \<in> set (g_orders (g t))" for p t
    using g_orders_live [OF core(1) that] core(2) by auto
  let ?ps = "filter (\<lambda>p. o_side (the (oread ?h p)) = s) (map snd (ob_orderById ob))"
  have "set ?ps = set (g_orders (g s))"
  proof -
    have "set ?ps = {p \<in> all_orders g. o_side (the (oread ?h p)) = s}"
      using order_pointers(1) [OF assms] by auto
    also have "\<dots> = set (g_orders (g s))"
      using side unfolding all_orders_side [of g s] by (cases s) fastforce+
    finally show ?thesis .
  qed
  moreover have "distinct ?ps" using order_pointers(2) [OF assms] by simp
  moreover have "distinct (g_orders (g s))" using core(1) [of s] by (simp add: sb_core_def)
  ultimately have "mset ?ps = mset (g_orders (g s))" by (rule iffD1 [OF set_eq_iff_mset_eq_distinct, rotated 2])
  moreover have "map order_snapshot_view (filter (\<lambda>x. os_side x = s) (order_snapshots ob)) =
      map (\<lambda>p. order_view (the (oread ?h p))) ?ps"
    by (simp add: order_snapshots_def filter_map comp_def)
  ultimately show ?thesis by (metis (no_types, lifting) mset_map side_view_def)
qed

lemma view_qty_mset: "mset us = mset vs \<Longrightarrow> view_qty pr us = view_qty pr vs"
  by (simp add: view_qty_def flip: sum_mset_sum_list)

lemma side_view_qty_fits:
  assumes "ob_inv ob g"
  shows "view_qty pr (side_view ob (g s)) < 2 ^ 64"
proof (cases "pr \<in> fst ` set (g s)")
  case True
  then obtain l ps where e: "(pr, l, ps) \<in> set (g s)" by force
  have core: "sb_core (ob_heap ob) (book_for_side ob s) (g s)"
    using assms books_okD(7) by (fastforce simp: ob_inv_def sb_ok_def)
  obtain L where "lread (ob_heap ob) l = Some L" using sb_core_entryD(1) [OF core e] by blast
  then have "unat (pl_totalQuantity L) = view_qty pr (side_view ob (g s))"
    using level_total [OF core e] level_qty_view [OF sb_core_priced [OF core]] by (simp add: side_view_flat)
  then show ?thesis using unat_u64_less by metis
next
  case False
  then have "\<forall>v \<in> set (side_view ob (g s)). fst (snd v) \<noteq> pr" using ghost_prices [OF assms, of s] by auto
  then have "view_qty pr (side_view ob (g s)) = 0" unfolding view_qty_def by (induction "side_view ob (g s)") auto
  then show ?thesis by simp
qed

lemma level_snapshots_return:
  "(\<And>l. Some l \<in> set los \<Longrightarrow> \<exists>L xs. lread h l = Some L \<and> walk_level h (pl_head L) = Some xs) \<Longrightarrow>
     \<exists>r. append_level_snapshots h los acc = Some r"
proof (induction los arbitrary: acc)
  case (Cons lo los)
  have "\<exists>r. append_level_snapshot h lo acc = Some r"
    using Cons.prems [of "the lo"] by (cases lo) (auto simp: append_level_snapshot_def)
  then show ?case using Cons by auto
qed simp

lemma side_snapshots_return:
  assumes "sb_ok h sb G"
  shows "\<exists>r. append_side_snapshots h sb = Some r"
proof -
  have core: "sb_core h sb G" using assms by (simp add: sb_ok_def)
  have level: "\<exists>L xs. lread h l = Some L \<and> walk_level h (pl_head L) = Some xs"
    if "Some l \<in> set (rl_slots (sb_ringPriceLadder sb)) \<or> Some l \<in> set (map (Some \<circ> snd) (fm_levels (sb_farPriceMap sb)))" for l
  proof -
    have "Some l \<in> set (rl_slots (sb_ringPriceLadder sb) @ map (Some \<circ> snd) (fm_levels (sb_farPriceMap sb)))"
      using that by auto
    then have "l \<in> snd ` set (map g_level G)" by (simp only: collected_levels(1) [OF assms] flip: set_occupied)
    then obtain p ps where "(p, l, ps) \<in> set G" by (force simp: g_level_def)
    then show ?thesis using sb_core_entryD(1) [OF core] walk_level_ok by blast
  qed
  obtain r1 where "append_level_snapshots h (rl_slots (sb_ringPriceLadder sb)) [] = Some r1"
    using level_snapshots_return level by blast
  moreover obtain r2 where "append_level_snapshots h (map (Some \<circ> snd) (fm_levels (sb_farPriceMap sb))) r1 = Some r2"
    using level_snapshots_return level by blast
  ultimately show ?thesis by (simp add: append_side_snapshots_def)
qed

text \<open>\<open>b\<close> is a snapshot of \<open>ob\<close>, up to the order of its map of client order ids.\<close>

definition book_snapshot_of :: "OrderBook \<Rightarrow> OrderBookSnapshot \<Rightarrow> bool" where
  "book_snapshot_of ob b \<longleftrightarrow> bs_symbolConfig b = ob_symbolConfig ob \<and>
     bs_activeOrders b = sort_key os_orderId (order_snapshots ob) \<and> um_ok (bs_clientOrderIdToOrderId b) \<and>
     (\<forall>c. um_find (bs_clientOrderIdToOrderId b) c = um_find (ob_clientOrderIdToOrderId ob) c)"

lemma snapshot_book_ok:
  assumes "book_ok ob"
  shows "\<exists>b. snapshot_book (sy, ob) = Some b \<and> bs_symbolId b = sy \<and> book_snapshot_of ob b"
proof -
  obtain g where inv: "ob_inv ob g" using assms by (auto simp: book_ok_def)
  then have "sb_ok (ob_heap ob) (book_for_side ob s) (g s)" for s using books_okD(7) by (auto simp: ob_inv_def)
  from side_snapshots_return [OF this [of Buy]] side_snapshots_return [OF this [of Sell]]
  obtain bids asks where "append_side_snapshots (ob_heap ob) (ob_bids ob) = Some bids"
    "append_side_snapshots (ob_heap ob) (ob_asks ob) = Some asks"
    by (auto simp: book_for_side_def)
  moreover have "um_ok (ob_clientOrderIdToOrderId ob)" using inv by (simp add: ob_inv_def maps_ok_def)
  ultimately show ?thesis
    by (simp add: snapshot_book_def Let_def snapshot_orders_ok [OF inv] book_snapshot_of_def)
qed

section \<open>Restoring a book\<close>

text \<open>
  What a restored book has of the one before: its configuration, every order with all its members, the client
  order ids, and on each side the same orders in price order; but the orders of a level now stand by order id,
  and the last trade price is gone.
\<close>

definition restored_book :: "OrderBook \<Rightarrow> OrderBook \<Rightarrow> bool" where
  "restored_book ob ob' \<longleftrightarrow> ob_symbolConfig ob' = ob_symbolConfig ob \<and> ob_lastTradePrice ob' = None \<and>
     (\<forall>i. order_at ob' i = order_at ob i) \<and>
     (\<forall>c. um_find (ob_clientOrderIdToOrderId ob') c = um_find (ob_clientOrderIdToOrderId ob) c) \<and>
     (\<forall>s. \<exists>vs. resting ob s = Some vs \<and> resting ob' s = Some (restored_view s vs))"

lemma make_order_book_simps [simp]:
  "ob_symbolConfig (make_order_book c) = c" "ob_lastTradePrice (make_order_book c) = None"
  "order_at (make_order_book c) i = None"
  by (simp_all add: make_order_book_def order_at_def find_order_def container_simps)

lemma snapshot_restorable:
  assumes inv: "ob_inv ob g"
  shows "restorable (make_order_book (ob_symbolConfig ob)) (\<lambda>_. []) (sort_key os_orderId (order_snapshots ob))"
proof -
  let ?ss = "sort_key os_orderId (order_snapshots ob)" and ?ob0 = "make_order_book (ob_symbolConfig ob)"
  have bk: "books_ok (ob_heap ob) (book_for_side ob) g (sc_tickSize (ob_symbolConfig ob)) {}"
    using inv by (simp add: ob_inv_def)
  have orders: "os_remainingQuantity x \<noteq> 0 \<and> on_tick (sc_tickSize (ob_symbolConfig ob)) (os_price x)"
    if mem: "x \<in> set (order_snapshots ob)" for x
  proof -
    obtain p where p: "p \<in> all_orders g" "x = snapshot_order (the (oread (ob_heap ob) p))"
    proof -
      have "x \<in> (\<lambda>p. snapshot_order (the (oread (ob_heap ob) p))) ` set (map snd (ob_orderById ob))"
        using mem by (simp only: order_snapshots_def set_map)
      then show thesis using that unfolding order_pointers(1) [OF inv] by blast
    qed
    then obtain s where s: "p \<in> set (g_orders (g s))" by (auto simp: all_orders_def)
    have ok: "sb_ok (ob_heap ob) (book_for_side ob s) (g s)" by (rule books_okD(7) [OF bk])
    then obtain y where y: "oread (ob_heap ob) p = Some y" "side_covers (book_for_side ob s) (o_price y)"
      using g_orders_live [OF _ s, of "ob_heap ob" "book_for_side ob s"] by (auto simp: sb_ok_def)
    have "rem (oread (ob_heap ob)) p \<noteq> 0" using ok s by (simp add: sb_ok_def alive_def)
    then show ?thesis using p(2) y books_okD(9) [OF bk, of s] by (auto simp: rem_def)
  qed
  have mset: "mset (resting_and_pending ?ob0 (\<lambda>_. []) ?ss s) = mset (side_view ob (g s))" for s
  proof -
    have "mset (filter (\<lambda>x. os_side x = s) ?ss) = mset (filter (\<lambda>x. os_side x = s) (order_snapshots ob))" by simp
    then show ?thesis
      using snapshot_side_view [OF inv, of s] by (simp add: resting_and_pending_def side_view_def)
  qed
  have views: "set (resting_and_pending ?ob0 (\<lambda>_. []) ?ss s) = set (side_view ob (g s))" for s
    using mset by (rule mset_eq_setD)
  have apart: "fst (snd u) < fst (snd v)" if "u \<in> set (side_view ob (g Buy))" "v \<in> set (side_view ob (g Sell))" for u v
  proof -
    have "fst (snd u) \<in> fst ` set (g Buy)" "fst (snd v) \<in> fst ` set (g Sell)"
      using that by (simp_all add: ghost_prices [OF inv])
    then show ?thesis using inv unfolding ob_inv_def uncrossed_prices by blast
  qed
  have qty: "view_qty pr (resting_and_pending ?ob0 (\<lambda>_. []) ?ss s) < 2 ^ 64" for s pr
    using view_qty_mset [OF mset] side_view_qty_fits [OF inv] by metis
  have "distinct (map os_orderId ?ss)" "distinct (map os_clientOrderId ?ss)"
    using snapshot_ids_distinct [OF inv] by (simp_all add: distinct_map)
  then show ?thesis
    unfolding restorable_def using orders views apart qty by simp
qed

lemma restored_side:
  assumes inv: "ob_inv ob g"
  shows "fold (book_insert s) (map order_snapshot_view (filter (\<lambda>x. os_side x = s) (sort_key os_orderId (order_snapshots ob)))) []
    = restored_view s (side_view ob (g s))"
proof -
  let ?ys = "map order_snapshot_view (filter (\<lambda>x. os_side x = s) (sort_key os_orderId (order_snapshots ob)))"
  have fst: "fst (order_snapshot_view x) = os_orderId x" for x by (simp add: order_snapshot_view_def)
  have mset: "mset (side_view ob (g s)) = mset ?ys" using snapshot_side_view [OF inv, of s] by simp
  have "distinct (map fst ?ys)"
    using snapshot_ids_distinct(1) [OF inv] by (auto simp: distinct_map fst inj_on_def comp_def)
  then have "inj_on fst (set (side_view ob (g s)))"
    using mset_eq_setD [OF mset] by (simp only: distinct_map simp_thms)
  moreover have "sorted (map fst ?ys)"
    using sorted_filter [of os_orderId "sort_key os_orderId (order_snapshots ob)"] by (simp add: fst comp_def)
  ultimately have "sort_key fst (side_view ob (g s)) = ?ys" by (rule sort_key_inj_key_eq [OF mset])
  then show ?thesis by (simp only: book_inserts_sort restored_view_def)
qed

lemma restore_book_ok:
  assumes "book_ok ob" "book_snapshot_of ob b"
  shows "\<exists>ob'. restore_book b = Some ob' \<and> book_ok ob' \<and> restored_book ob ob'"
proof -
  obtain g where inv: "ob_inv ob g" using assms(1) by (auto simp: book_ok_def)
  note b = assms(2) [unfolded book_snapshot_of_def]
  have found: "(case m of Some x \<Rightarrow> Some x | None \<Rightarrow> order_at (make_order_book c) i) = m" for m c i
    by (cases m) simp_all
  obtain ob1 g1 where r: "restore_orders (bs_activeOrders b) (make_order_book (ob_symbolConfig ob)) = Some ob1" "ob_inv ob1 g1"
    "ob_symbolConfig ob1 = ob_symbolConfig ob" "ob_lastTradePrice ob1 = None"
    "\<And>s. side_view ob1 (g1 s) = restored_view s (side_view ob (g s))"
    "\<And>i. order_at ob1 i = find (\<lambda>x. os_orderId x = i) (bs_activeOrders b)"
    using restore_orders_ok [OF ob_inv_make snapshot_restorable [OF inv]] b
    by (auto simp: restored_side [OF inv] side_view_def [of "make_order_book _"] found)
  have orders: "order_at ob1 i = order_at ob i" for i
  proof (cases "order_at ob i")
    case None
    then have "\<forall>x \<in> set (order_snapshots ob). os_orderId x \<noteq> i" using in_order_snapshots [OF inv] by auto
    then show ?thesis using None b by (simp add: r(6) find_None_iff)
  next
    case (Some x)
    then have x: "x \<in> set (bs_activeOrders b)" "os_orderId x = i"
      using order_at_id [OF inv Some] in_order_snapshots [OF inv, of x] b by auto
    have "inj_on os_orderId (set (bs_activeOrders b))"
      using snapshot_ids_distinct(1) [OF inv] b by (simp add: distinct_map)
    then have "find (\<lambda>x. os_orderId x = i) (bs_activeOrders b) = Some x"
    proof (cases "find (\<lambda>x. os_orderId x = i) (bs_activeOrders b)")
      case None
      then show ?thesis using x by (simp add: find_None_iff)
    next
      case (Some y)
      then have "y \<in> set (bs_activeOrders b)" "os_orderId y = i" by (auto simp: find_Some_iff)
      then show ?thesis using Some x \<open>inj_on os_orderId (set (bs_activeOrders b))\<close> by (auto simp: inj_on_def)
    qed
    then show ?thesis using Some by (simp add: r(6))
  qed
  have clients: "um_find (ob_clientOrderIdToOrderId ob1) c = um_find (ob_clientOrderIdToOrderId ob) c" for c
  proof -
    have "um_find (ob_clientOrderIdToOrderId ob1) c = Some i \<longleftrightarrow> um_find (ob_clientOrderIdToOrderId ob) c = Some i" for i
      unfolding client_order_at [OF r(2)] client_order_at [OF inv] orders ..
    then show ?thesis by (metis not_None_eq)
  qed
  let ?ob = "ob1\<lparr>ob_clientOrderIdToOrderId := bs_clientOrderIdToOrderId b\<rparr>"
  have inv': "ob_inv ?ob g1"
    using r(2) b clients by (simp add: ob_inv_def maps_ok_def)
  have "restored_book ob ?ob"
  proof -
    have "order_at ?ob i = order_at ob1 i" "side_view ?ob G = side_view ob1 G" for i G
      by (simp_all add: order_at_def find_order_def side_view_def)
    then show ?thesis
      using r b orders resting_ok [OF inv] resting_ok [OF inv'] by (simp add: restored_book_def)
  qed
  moreover have "restore_book b = Some ?ob" using r(1) b by (simp add: restore_book_def)
  ultimately show ?thesis using inv' by (auto simp: book_ok_def)
qed

section \<open>Restoring the engine\<close>

text \<open>\<open>snap\<close> is a snapshot of \<open>core\<close>, up to the order of books and of entries of maps.\<close>

definition core_snapshot_of :: "EngineCore \<Rightarrow> EngineSnapshot \<Rightarrow> bool" where
  "core_snapshot_of core snap \<longleftrightarrow>
     es_sequenceState snap = sequence_snapshot (core_sequenceGenerator core) \<and>
     (\<forall>i. has_order_id (es_idempotencyState snap) i = has_order_id (core_idempotencyIndex core) i) \<and>
     (\<forall>c. has_client_order_id (es_idempotencyState snap) c = has_client_order_id (core_idempotencyIndex core) c) \<and>
     distinct (map bs_symbolId (es_symbolSnapshots snap)) \<and>
     bs_symbolId ` set (es_symbolSnapshots snap) = fst ` set (core_orderBooks core) \<and>
     (\<forall>b \<in> set (es_symbolSnapshots snap). \<forall>ob. um_find (core_orderBooks core) (bs_symbolId b) = Some ob \<longrightarrow>
        book_snapshot_of ob b)"

text \<open>What a restored engine has of the one before.\<close>

definition restored_core :: "EngineCore \<Rightarrow> EngineCore \<Rightarrow> bool" where
  "restored_core core core' \<longleftrightarrow>
     core_sequenceGenerator core' = core_sequenceGenerator core \<and>
     (\<forall>sy. um_find (core_symbolConfigs core') sy = um_find (core_symbolConfigs core) sy) \<and>
     (\<forall>sy. rel_option restored_book (get_order_book sy core) (get_order_book sy core'))"

lemma engine_snapshot_ok:
  assumes "core_ok core"
  shows "\<exists>snap. engine_snapshot core = Some snap \<and> core_snapshot_of core snap \<and>
    es_idempotencyState snap = core_idempotencyIndex core"
proof -
  have um: "um_ok (core_orderBooks core)" using assms by (simp add: core_ok_def)
  have "\<exists>bs. snapshot_books es = Some bs \<and>
      list_all2 (\<lambda>e b. bs_symbolId b = fst e \<and> book_snapshot_of (snd e) b) es bs"
    if "\<forall>(sy, ob) \<in> set es. book_ok ob" for es
    using that
  proof (induction es)
    case (Cons e es)
    obtain b where "snapshot_book e = Some b" "bs_symbolId b = fst e" "book_snapshot_of (snd e) b"
      using snapshot_book_ok [of "snd e" "fst e"] Cons.prems by (cases e) auto
    then show ?case using Cons by auto
  qed simp
  moreover have "\<forall>(sy, ob) \<in> set (core_orderBooks core). book_ok ob"
    using core_ok_D(1) [OF assms] by (auto simp: um_ok_find_iff [OF um])
  ultimately obtain bs where bs: "snapshot_books (core_orderBooks core) = Some bs"
    "list_all2 (\<lambda>e b. bs_symbolId b = fst e \<and> book_snapshot_of (snd e) b) (core_orderBooks core) bs"
    by blast
  have ids: "map bs_symbolId bs = map fst (core_orderBooks core)"
    using bs(2) by (induction rule: list_all2_induct) auto
  have "book_snapshot_of ob b" if b: "b \<in> set bs" "um_find (core_orderBooks core) (bs_symbolId b) = Some ob" for b ob
  proof -
    obtain n where n: "n < length bs" "b = bs ! n" using b(1) by (auto simp: in_set_conv_nth)
    let ?e = "core_orderBooks core ! n"
    have e: "?e \<in> set (core_orderBooks core)" "bs_symbolId b = fst ?e" "book_snapshot_of (snd ?e) b"
      using n list_all2_lengthD [OF bs(2)] list_all2_nthD2 [OF bs(2) n(1)] by auto
    then have "um_find (core_orderBooks core) (bs_symbolId b) = Some (snd ?e)"
      by (simp add: um_ok_find_iff [OF um])
    then show ?thesis using b(2) e(3) by simp
  qed
  moreover have "distinct (map bs_symbolId bs)" "bs_symbolId ` set bs = fst ` set (core_orderBooks core)"
    using um ids by (simp_all add: um_ok_def) (metis list.set_map)
  ultimately show ?thesis
    using bs(1) by (simp add: engine_snapshot_def core_snapshot_of_def idempotency_snapshot_def distinct_map
        has_order_id_def has_client_order_id_def)
qed

lemma release_books_return:
  assumes "core_ok core"
  shows "release_books (core_orderBooks core) = Some ()"
proof -
  have um: "um_ok (core_orderBooks core)" using assms by (simp add: core_ok_def)
  have "release_books es = Some ()" if "\<forall>(sy, ob) \<in> set es. book_ok ob" for es
    using that by (induction es rule: release_books.induct) (auto dest: release_total)
  moreover have "\<forall>(sy, ob) \<in> set (core_orderBooks core). book_ok ob"
    using core_ok_D(1) [OF assms] by (auto simp: um_ok_find_iff [OF um])
  ultimately show ?thesis by blast
qed

text \<open>Every book of the snapshot is emplaced under its symbol.\<close>

lemma restore_books_ok:
  assumes "\<forall>b \<in> set bs. restore_book b \<noteq> None" "distinct (map bs_symbolId bs)"
    and "\<forall>b \<in> set bs. um_find (core_orderBooks core) (bs_symbolId b) = None"
  shows "\<exists>core'. restore_books bs core = Some core' \<and>
    (um_ok (core_orderBooks core) \<longrightarrow> um_ok (core_orderBooks core')) \<and>
    core_sequenceGenerator core' = core_sequenceGenerator core \<and>
    core_idempotencyIndex core' = core_idempotencyIndex core \<and>
    (\<forall>b \<in> set bs. um_find (core_orderBooks core') (bs_symbolId b) = restore_book b \<and>
       um_find (core_symbolConfigs core') (bs_symbolId b) = Some (bs_symbolConfig b)) \<and>
    (\<forall>sy. sy \<notin> bs_symbolId ` set bs \<longrightarrow> um_find (core_orderBooks core') sy = um_find (core_orderBooks core) sy \<and>
       um_find (core_symbolConfigs core') sy = um_find (core_symbolConfigs core) sy)"
  using assms
proof (induction bs arbitrary: core)
  case (Cons b bs)
  obtain ob where ob: "restore_book b = Some ob" using Cons.prems(1) by auto
  let ?core = "core\<lparr>core_symbolConfigs := um_assign (bs_symbolId b) (bs_symbolConfig b) (core_symbolConfigs core),
       core_orderBooks := snd (um_emplace (bs_symbolId b) ob (core_orderBooks core))\<rparr>"
  have "\<forall>c \<in> set bs. um_find (core_orderBooks ?core) (bs_symbolId c) = None"
    using Cons.prems(2,3) by (auto simp: container_simps image_iff)
  from Cons.IH [OF _ _ this] Cons.prems obtain core' where c: "restore_books bs ?core = Some core'"
    "um_ok (core_orderBooks ?core) \<longrightarrow> um_ok (core_orderBooks core')"
    "core_sequenceGenerator core' = core_sequenceGenerator core"
    "core_idempotencyIndex core' = core_idempotencyIndex core"
    "\<forall>b \<in> set bs. um_find (core_orderBooks core') (bs_symbolId b) = restore_book b \<and>
       um_find (core_symbolConfigs core') (bs_symbolId b) = Some (bs_symbolConfig b)"
    "\<And>sy. sy \<notin> bs_symbolId ` set bs \<Longrightarrow> um_find (core_orderBooks core') sy = um_find (core_orderBooks ?core) sy \<and>
       um_find (core_symbolConfigs core') sy = um_find (core_symbolConfigs ?core) sy"
    by auto
  have "bs_symbolId b \<notin> bs_symbolId ` set bs" using Cons.prems(2) by auto
  then show ?case
    using c(1-5) c(6) [of "bs_symbolId b"] c(6) Cons.prems(3) ob
    by (intro exI [of _ core']) (auto simp: container_simps)
qed simp

lemma engine_restore_ok:
  assumes core: "core_ok core" and core0: "core_ok core0" and snap: "core_snapshot_of core snap"
  shows "\<exists>core'. engine_restore snap core0 = Some core' \<and> core_ok core' \<and> restored_core core core' \<and>
    core_idempotencyIndex core' = es_idempotencyState snap"
proof -
  note s = snap [unfolded core_snapshot_of_def]
  let ?bs = "es_symbolSnapshots snap"
  have um: "um_ok (core_orderBooks core)" using core by (simp add: core_ok_def)
  have book: "\<exists>ob ob'. um_find (core_orderBooks core) (bs_symbolId b) = Some ob \<and> book_snapshot_of ob b \<and>
      restore_book b = Some ob' \<and> book_ok ob' \<and> restored_book ob ob'" if b: "b \<in> set ?bs" for b
  proof -
    have "bs_symbolId b \<in> fst ` set (core_orderBooks core)" using s b by blast
    then obtain ob where ob: "um_find (core_orderBooks core) (bs_symbolId b) = Some ob"
      by (auto simp: um_ok_find_iff [OF um])
    then have "book_snapshot_of ob b" using s b by blast
    then show ?thesis using restore_book_ok [OF core_ok_D(1) [OF core ob]] ob by blast
  qed
  let ?start = "\<lparr>core_orderBooks = [], core_symbolConfigs = [],
        core_sequenceGenerator = sequence_restore (es_sequenceState snap),
        core_idempotencyIndex = idempotency_restore (es_idempotencyState snap)\<rparr>"
  obtain core' where c: "restore_books ?bs ?start = Some core'" "um_ok (core_orderBooks core')"
    "core_sequenceGenerator core' = sequence_restore (es_sequenceState snap)"
    "core_idempotencyIndex core' = idempotency_restore (es_idempotencyState snap)"
    "\<And>b. b \<in> set ?bs \<Longrightarrow> um_find (core_orderBooks core') (bs_symbolId b) = restore_book b \<and>
       um_find (core_symbolConfigs core') (bs_symbolId b) = Some (bs_symbolConfig b)"
    "\<And>sy. sy \<notin> bs_symbolId ` set ?bs \<Longrightarrow> um_find (core_orderBooks core') sy = None \<and>
       um_find (core_symbolConfigs core') sy = None"
  proof -
    have "\<forall>b \<in> set ?bs. restore_book b \<noteq> None" using book by force
    then show thesis using that restore_books_ok [of ?bs ?start] s by (force simp: container_simps)
  qed
  have known: "sy \<in> bs_symbolId ` set ?bs \<longleftrightarrow> um_find (core_orderBooks core) sy \<noteq> None" for sy
    using s by (simp add: um_find_None_iff)
  have books: "(um_find (core_orderBooks core) sy = None \<and> um_find (core_orderBooks core') sy = None \<and>
      um_find (core_symbolConfigs core) sy = None \<and> um_find (core_symbolConfigs core') sy = None) \<or>
    (\<exists>ob ob'. um_find (core_orderBooks core) sy = Some ob \<and> um_find (core_orderBooks core') sy = Some ob' \<and>
      um_find (core_symbolConfigs core) sy = Some (ob_symbolConfig ob) \<and>
      um_find (core_symbolConfigs core') sy = Some (ob_symbolConfig ob) \<and> book_ok ob' \<and> restored_book ob ob')" for sy
  proof (cases "sy \<in> bs_symbolId ` set ?bs")
    case True
    then obtain b where b: "b \<in> set ?bs" "sy = bs_symbolId b" by blast
    obtain ob ob' where ob: "um_find (core_orderBooks core) sy = Some ob" "book_snapshot_of ob b"
      "restore_book b = Some ob'" "book_ok ob'" "restored_book ob ob'"
      using book [OF b(1)] b(2) by blast
    then show ?thesis
      using c(5) [OF b(1)] b(2) core_ok_D(2) [OF core ob(1)] by (simp add: book_snapshot_of_def)
  next
    case False
    then have "um_find (core_orderBooks core) sy = None" using known by blast
    moreover from this have "um_find (core_symbolConfigs core) sy = None" using core by (simp add: core_ok_def)
    ultimately show ?thesis using c(6) [OF False] by simp
  qed
  have index: "has_order_id (core_idempotencyIndex core') i = has_order_id (core_idempotencyIndex core) i"
    "has_client_order_id (core_idempotencyIndex core') cl = has_client_order_id (core_idempotencyIndex core) cl" for i cl
    using s by (simp_all add: c(4) idempotency_restore_def has_order_id_def has_client_order_id_def)
  have ids: "book_order_ids ob' = book_order_ids ob" "book_client_ids ob' = book_client_ids ob"
    if same: "restored_book ob ob'" "book_ok ob" "book_ok ob'" for ob ob'
  proof -
    obtain g g' where inv: "ob_inv ob g" "ob_inv ob' g'" using same(2,3) by (auto simp: book_ok_def)
    show "book_order_ids ob' = book_order_ids ob"
      using same(1) by (simp add: book_order_ids_def find_order_def restored_book_def flip: order_at_None [OF inv(1)] order_at_None [OF inv(2)])
    show "book_client_ids ob' = book_client_ids ob"
      using same(1) by (simp add: book_client_ids_def restored_book_def)
  qed
  have "core_ok core'"
    unfolding core_ok_def
  proof (intro conjI allI impI)
    fix sy show "(um_find (core_orderBooks core') sy = None) = (um_find (core_symbolConfigs core') sy = None)"
      using books [of sy] by auto
  next
    fix sy ob' assume ob': "um_find (core_orderBooks core') sy = Some ob'"
    then obtain ob where ob: "um_find (core_orderBooks core) sy = Some ob" "restored_book ob ob'" "book_ok ob'"
        "um_find (core_symbolConfigs core') sy = Some (ob_symbolConfig ob)"
      using books [of sy] by auto
    note d = core_ok_D [OF core ob(1)]
    show "book_ok ob'" "um_find (core_symbolConfigs core') sy = Some (ob_symbolConfig ob')"
      using ob by (simp_all add: restored_book_def)
    show "\<forall>i \<in> book_order_ids ob'. has_order_id (core_idempotencyIndex core') i"
      "\<forall>c \<in> book_client_ids ob'. has_client_order_id (core_idempotencyIndex core') c"
      using d(3,4) unfolding index ids [OF ob(2) d(1) ob(3)] by simp_all
  qed (rule c(2))
  moreover have "restored_core core core'"
    unfolding restored_core_def
  proof (intro conjI allI)
    fix sy
    show "um_find (core_symbolConfigs core') sy = um_find (core_symbolConfigs core) sy"
      "rel_option restored_book (get_order_book sy core) (get_order_book sy core')"
      using books [of sy] by (auto simp: get_order_book_def)
  qed (use s c(3) in \<open>simp add: sequence_restore_def sequence_snapshot_def\<close>)
  moreover have "core_idempotencyIndex core' = es_idempotencyState snap"
    by (simp add: c(4) idempotency_restore_def)
  moreover have "engine_restore snap core0 = Some core'"
    using release_books_return [OF core0] c(1) by (simp add: engine_restore_def)
  ultimately show ?thesis by blast
qed

end
