(* ===== verification/EngineProperties.thy ===== *)
theory EngineProperties
  imports CoreProperties Restore
begin

text \<open>
  The properties of the engine behind the books: its invariant, the ids it hands out over a log of
  commands, idempotency, adding a symbol and the snapshot round trip.
\<close>

section \<open>Accepted orders\<close>

fun accepted_id :: "EngineEvent \<Rightarrow> OrderId list" where
  "accepted_id (OrderAccepted e s oid coid u sy sd p q) = [oid]"
| "accepted_id _ = []"

definition accepted_ids :: "EngineEvent list \<Rightarrow> OrderId list" where
  "accepted_ids evs = concat (map accepted_id evs)"

lemma accepted_ids_simps [simp]:
  "accepted_ids [] = []" "accepted_ids (e # evs) = accepted_id e @ accepted_ids evs"
  "accepted_ids (evs @ evs') = accepted_ids evs @ accepted_ids evs'"
  by (simp_all add: accepted_ids_def)

lemma accepted_ids_iff: "has_event_order_accepted evs \<longleftrightarrow> accepted_ids evs \<noteq> []"
proof (induction evs)
  case (Cons e evs)
  then show ?case by (cases e) (auto simp: has_event_order_accepted_def)
qed (simp add: has_event_order_accepted_def)

lemma accepted_ids_trade:
  "execute_trade ob sg incoming m = Some (ob', sg', incoming', evs) \<Longrightarrow> accepted_ids evs = []"
  by (auto simp: execute_trade_def fill_event_def bind_eq_Some_conv Let_def split: if_splits option.splits prod.splits)

lemma accepted_ids_match:
  "match_loop ob sg incoming events = Some (ob', sg', incoming', evs) \<Longrightarrow>
     accepted_ids evs = accepted_ids events"
proof (induction ob sg incoming events arbitrary: ob' sg' incoming' evs rule: match_loop.induct)
  case (1 ob sg incoming events)
  show ?case
  proof (cases "match_step ob sg incoming")
    case (Some r)
    show ?thesis
    proof (cases r)
      case None
      then show ?thesis using 1(2) Some by (simp add: match_loop.simps [of ob])
    next
      case r: (Some q)
      obtain ob1 sg1 inc1 evs1 where q: "q = (ob1, sg1, inc1, evs1)" by (cases q)
      then have "accepted_ids evs1 = []"
        using Some r accepted_ids_trade by (auto simp: match_step_def bind_eq_Some_conv Let_def split: if_splits option.splits)
      then show ?thesis
        using 1(1) [OF Some r q [symmetric] refl refl] 1(2) Some r q by (simp add: match_loop.simps [of ob])
    qed
  qed (use 1(2) in \<open>simp add: match_loop.simps [of ob]\<close>)
qed

lemma accepted_ids_rest:
  "rest_remainder cmd ob sg incoming = Some (ob', sg', evs) \<Longrightarrow> accepted_ids evs = []"
  by (auto simp: rest_remainder_def bind_eq_Some_conv Let_def split: if_splits prod.splits)

lemma accepted_ids_place:
  assumes "process_place cmd ob sg = Some (ob', sg', evs)"
  shows "accepted_ids evs = (if has_event_order_accepted evs then [pc_orderId cmd] else [])"
proof -
  have "accepted_ids evs = [] \<or> accepted_ids evs = [pc_orderId cmd]"
    using assms accepted_ids_rest
    by (auto simp: process_place_def accept_order_def make_rejection_def bind_eq_Some_conv Let_def
        match_incoming_order_def dest!: accepted_ids_match split: option.splits prod.splits)
  then show ?thesis by (auto simp: accepted_ids_iff)
qed


text \<open>
  What a command accepts is a fresh order id, and afterwards the index knows it; the index only
  grows.
\<close>

lemma accepted_ids_process:
  assumes "process command core = Some (core', evs)"
  shows "\<forall>i. has_order_id (core_idempotencyIndex core') i \<longleftrightarrow>
      has_order_id (core_idempotencyIndex core) i \<or> i \<in> set (accepted_ids evs)"
    and "\<forall>i \<in> set (accepted_ids evs). \<not> has_order_id (core_idempotencyIndex core) i"
    and "distinct (accepted_ids evs)"
proof -
  have no: "accepted_ids (snd (reject_only c oid u sy r k)) = []"
    "accepted_ids (snd (reject_recorded c oid u sy r k)) = []"
    "has_order_id (core_idempotencyIndex (fst (reject_recorded c oid u sy r k))) i \<longleftrightarrow>
       has_order_id (core_idempotencyIndex k) i" for c oid u sy r k i
    by (simp_all add: reject_only_def reject_recorded_def make_rejection_eq rejected_event_def)
  have cancel: "accepted_ids evs = []" if "process_cancel c ob sg = Some (ob', sg', evs)" for c ob sg ob' sg' evs
    using that
    by (auto simp: process_cancel_def cancel_existing_order_def bind_eq_Some_conv Let_def make_rejection_eq
        rejected_event_def split: if_splits option.splits)
  have "(\<forall>i. has_order_id (core_idempotencyIndex core') i \<longleftrightarrow>
      has_order_id (core_idempotencyIndex core) i \<or> i \<in> set (accepted_ids evs)) \<and>
    (\<forall>i \<in> set (accepted_ids evs). \<not> has_order_id (core_idempotencyIndex core) i) \<and>
    distinct (accepted_ids evs)"
  proof (cases "ec_kind command")
    case PlaceOrder
    show ?thesis
      using assms no PlaceOrder accepted_ids_place
      by (auto simp: process_def process_place_command_def Let_def bind_eq_Some_conv reject_eq
          validate_place_order_valid split: if_splits option.splits)
  next
    case CancelOrder
    show ?thesis
      using assms no cancel CancelOrder
      by (auto simp: process_def process_cancel_command_def Let_def bind_eq_Some_conv reject_eq
          split: if_splits option.splits)
  qed
  then show "\<forall>i. has_order_id (core_idempotencyIndex core') i \<longleftrightarrow>
      has_order_id (core_idempotencyIndex core) i \<or> i \<in> set (accepted_ids evs)"
    "\<forall>i \<in> set (accepted_ids evs). \<not> has_order_id (core_idempotencyIndex core) i"
    "distinct (accepted_ids evs)" by simp_all
qed

lemma engine_run_accepted:
  "engine_run core commands evs core' \<Longrightarrow> distinct (accepted_ids evs) \<and>
     (\<forall>i \<in> set (accepted_ids evs). \<not> has_order_id (core_idempotencyIndex core) i)"
proof (induction rule: engine_run.induct)
  case (run_step command core core1 evs commands evs1 core2)
  then show ?case using accepted_ids_process [OF run_step.hyps(1)] by auto
qed simp
section \<open>The engine\<close>

text \<open>
  C2: \<open>EngineCore::process\<close> returns on every command, keeps the invariant of the engine - every book
  consistent and uncrossed, made with the configuration of its symbol, its ids in the idempotency
  index - and emits at least one event, all numbered from the generator.
\<close>

theorem process_keeps_invariant:
  assumes "core_ok core" "command_fits command core"
  shows "\<exists>core' evs. process command core = Some (core', evs) \<and> core_ok core' \<and> evs \<noteq> [] \<and>
    stamped (core_sequenceGenerator core) evs (core_sequenceGenerator core')"
  by (rule process_ok [OF assms])

definition demo_engine :: EngineCore where
  "demo_engine = the (add_symbol demo_config make_engine_core)"

lemma demo_engine_ok: "core_ok demo_engine"
  using add_symbol_ok [OF core_ok_make, of demo_config] by (auto simp: demo_engine_def)

definition place_command :: "PlaceOrderCommand \<Rightarrow> EngineCommand" where
  "place_command cmd = \<lparr>ec_kind = PlaceOrder, ec_placeOrder = Some cmd, ec_cancelOrder = None\<rparr>"

definition cancel_command :: "CancelOrderCommand \<Rightarrow> EngineCommand" where
  "cancel_command cmd = \<lparr>ec_kind = CancelOrder, ec_placeOrder = None, ec_cancelOrder = Some cmd\<rparr>"

lemma demo_engine_book: "um_find (core_orderBooks demo_engine) 1 = Some (make_order_book demo_config)"
  using add_symbol_ok [OF core_ok_make, of demo_config]
  by (auto simp: demo_engine_def get_order_book_def demo_config_def)

lemma demo_engine_fits: "command_fits (place_command (demo_place i u s tif p q)) demo_engine"
proof -
  have "place_fits (demo_place i u s tif p q) (make_order_book demo_config)"
    using unsigned_less [of q] by (intro demo_fits [OF resting_make]) (simp add: view_qty_def)
  moreover have "pc_symbolId (demo_place i u s tif p q) = 1" by (simp add: demo_place_def)
  ultimately show ?thesis by (simp add: command_fits_def place_command_def demo_engine_book)
qed

theorem process_keeps_invariant_witness:
  "\<exists>core' evs. process (place_command (demo_place 1 7 Sell GTC 100 10)) demo_engine = Some (core', evs) \<and>
    core_ok core' \<and> evs \<noteq> []"
  using process_keeps_invariant [OF demo_engine_ok demo_engine_fits, of 1 7 Sell GTC 100 10] by auto

text \<open>
  Over any log of commands the event ids, the sequence numbers and the trade ids the engine
  hands out are pairwise distinct, and the engine is consistent at the end.
\<close>

theorem run_ids_distinct:
  assumes "core_ok core" "engine_run core commands evs core'" "length evs < 2 ^ 64"
  shows "core_ok core' \<and> distinct (map event_id evs) \<and> distinct (map event_sequence evs) \<and>
    distinct (trade_ids evs)"
  using engine_run_ok [OF assms(2,1)] stamped_distinct [OF _ assms(3)] by blast

text \<open>The log of the witnesses: one order, and a cancel of it by its owner.\<close>

definition demo_command :: EngineCommand where
  "demo_command = place_command (demo_place 1 7 Sell GTC 100 10)"

definition demo_core1 :: EngineCore where
  "demo_core1 = fst (the (process demo_command demo_engine))"

definition demo_events1 :: "EngineEvent list" where
  "demo_events1 = snd (the (process demo_command demo_engine))"

lemma demo_process: "process demo_command demo_engine = Some (demo_core1, demo_events1)"
  using process_ok [OF demo_engine_ok demo_engine_fits, of 1 7 Sell GTC 100 10]
  by (auto simp: demo_core1_def demo_events1_def demo_command_def)

lemma demo_run: "engine_run demo_engine [demo_command] demo_events1 demo_core1"
  using engine_run.intros(2) [OF demo_process _ run_done] demo_engine_fits by (simp add: demo_command_def)

lemma demo_events1_eq: "demo_events1 = [OrderAccepted 1 1 1 1 7 1 Sell 100 10, OrderBookDelta 2 2 1 Sell 100 10]"
  by code_simp

theorem run_ids_distinct_witness:
  "core_ok demo_core1 \<and> distinct (map event_id demo_events1) \<and> length demo_events1 = 2"
proof -
  have "length demo_events1 = 2" by (simp add: demo_events1_eq)
  then show ?thesis using run_ids_distinct [OF demo_engine_ok demo_run] by simp
qed

text \<open>
  A command is processed once.  Whatever the first processing of a command id did, a second
  command with that id is answered with \<open>DuplicateCommand\<close> and changes nothing but the sequence.
\<close>

theorem command_processed_once:
  assumes "process first core = Some (core', evs)" "command_id first = Some c" "command_id second = Some c"
  shows "\<exists>oid u sy. process second core' = Some (core'\<lparr>core_sequenceGenerator :=
      advance 1 0 (core_sequenceGenerator core')\<rparr>,
      [rejected_event c oid u sy DuplicateCommand (core_sequenceGenerator core')])"
  using process_duplicate [OF assms(3) process_records [OF assms(1,2)]] by metis

theorem command_processed_once_witness:
  "\<exists>oid u sy. process demo_command demo_core1 = Some (demo_core1\<lparr>core_sequenceGenerator :=
      advance 1 0 (core_sequenceGenerator demo_core1)\<rparr>,
      [rejected_event 1 oid u sy DuplicateCommand (core_sequenceGenerator demo_core1)])"
proof -
  have "command_id demo_command = Some 1"
    by (simp add: command_id_def demo_command_def place_command_def demo_place_def)
  then show ?thesis using command_processed_once [OF demo_process] by blast
qed

text \<open>
  C24: an order id is accepted at most once: over any log the ids of the accepted orders are
  distinct, and none of them was known to the engine before.
\<close>

theorem orders_accepted_once:
  assumes "engine_run core commands evs core'"
  shows "distinct (accepted_ids evs) \<and>
    (\<forall>i \<in> set (accepted_ids evs). \<not> has_order_id (core_idempotencyIndex core) i)"
  by (rule engine_run_accepted [OF assms])

theorem orders_accepted_once_witness:
  "accepted_ids demo_events1 = [1] \<and> \<not> has_order_id (core_idempotencyIndex demo_engine) 1"
proof -
  have "accepted_ids demo_events1 = [1]" by (simp add: demo_events1_eq)
  then show ?thesis using orders_accepted_once [OF demo_run] by simp
qed

text \<open>
  Adding a symbol gives it a fresh empty book with that configuration, frees the orders of a
  book it replaces, and touches no other book and no command or order id already seen.
\<close>

theorem add_symbol_correct:
  assumes "core_ok core"
  shows "\<exists>core'. add_symbol c core = Some core' \<and> core_ok core' \<and>
    get_order_book (sc_symbolId c) core' = Some (make_order_book c) \<and>
    (\<forall>sy. sy \<noteq> sc_symbolId c \<longrightarrow> get_order_book sy core' = get_order_book sy core) \<and>
    core_idempotencyIndex core' = core_idempotencyIndex core"
  by (rule add_symbol_ok [OF assms])

theorem add_symbol_correct_witness:
  "\<exists>core'. add_symbol demo_config demo_core1 = Some core' \<and>
    get_order_book 1 core' = Some (make_order_book demo_config)"
proof -
  have "core_ok demo_core1" using engine_run_ok [OF demo_run demo_engine_ok] by simp
  from add_symbol_correct [OF this, of demo_config] show ?thesis by (auto simp: demo_config_def)
qed

definition demo_log :: "EngineCommand list" where
  "demo_log = [place_command (demo_place 2 7 Sell GTC 100 10), place_command (demo_place 1 8 Sell GTC 100 5)]"

fun run_commands :: "EngineCommand list \<Rightarrow> EngineCore \<Rightarrow> EngineCore option" where
  "run_commands [] core = Some core"
| "run_commands (c # cs) core = Option.bind (process c core) (\<lambda>r. run_commands cs (fst r))"

definition resting_of :: "EngineCore \<Rightarrow> order_view list option" where
  "resting_of core = Option.bind (get_order_book 1 core) (\<lambda>ob. resting ob Sell)"

definition demo_core2 :: EngineCore where
  "demo_core2 = the (run_commands demo_log demo_engine)"

lemma demo_log_book: "resting_of demo_core2 = Some [(2, 100, 10), (1, 100, 5)]"
  by code_simp

lemma demo_core2_ok: "core_ok demo_core2"
proof -
  let ?c1 = "place_command (demo_place 2 7 Sell GTC 100 10)" and ?c2 = "place_command (demo_place 1 8 Sell GTC 100 5)"
  obtain core1 evs1 where first: "process ?c1 demo_engine = Some (core1, evs1)" "core_ok core1"
    using process_ok [OF demo_engine_ok demo_engine_fits, of 2 7 Sell GTC 100 10] by auto
  have "resting_of (fst (the (process ?c1 demo_engine))) = Some [(2, 100, 10)]" by code_simp
  then obtain ob where ob: "um_find (core_orderBooks core1) 1 = Some ob" "resting ob Sell = Some [(2, 100, 10)]"
    using first(1) by (auto simp: resting_of_def get_order_book_def bind_eq_Some_conv)
  have "place_fits (demo_place 1 8 Sell GTC 100 5) ob" by (rule demo_fits [OF ob(2)]) (simp add: view_qty_def)
  then have "command_fits ?c2 core1"
    using ob(1) by (simp add: command_fits_def place_command_def demo_place_def)
  then obtain core2 evs2 where "process ?c2 core1 = Some (core2, evs2)" "core_ok core2"
    using process_ok [OF first(2)] by blast
  then show ?thesis using first(1) by (simp add: demo_core2_def demo_log_def)
qed

text \<open>
  C30: a snapshot of a consistent engine can always be taken and restored, over any consistent engine.  The
  restored engine is consistent and has the generator, the idempotency index and the configurations of the one
  before, and in every book the same orders with all their members, best price first.  But time priority
  inside a level is lost: the orders of a level stand by order id, in whatever order they had arrived.
\<close>

theorem restore_sorts_levels_by_id:
  assumes "core_ok core" "core_ok core0"
  shows "\<exists>snap core'. engine_snapshot core = Some snap \<and> engine_restore snap core0 = Some core' \<and> core_ok core' \<and>
    restored_core core core' \<and> core_idempotencyIndex core' = core_idempotencyIndex core \<and>
    (\<forall>sy ob. get_order_book sy core = Some ob \<longrightarrow> (\<exists>ob'. get_order_book sy core' = Some ob' \<and>
      (\<forall>s. \<exists>vs vs'. resting ob s = Some vs \<and> resting ob' s = Some vs' \<and> mset vs' = mset vs \<and>
        (\<forall>p. filter (\<lambda>v. fst (snd v) = p) vs' = sort_key fst (filter (\<lambda>v. fst (snd v) = p) vs)))))"
proof -
  obtain snap where snap: "engine_snapshot core = Some snap" "core_snapshot_of core snap"
    "es_idempotencyState snap = core_idempotencyIndex core"
    using engine_snapshot_ok [OF assms(1)] by blast
  obtain core' where core': "engine_restore snap core0 = Some core'" "core_ok core'" "restored_core core core'"
    "core_idempotencyIndex core' = core_idempotencyIndex core"
    using engine_restore_ok [OF assms snap(2)] snap(3) by auto
  have "\<exists>ob'. get_order_book sy core' = Some ob' \<and>
      (\<forall>s. \<exists>vs vs'. resting ob s = Some vs \<and> resting ob' s = Some vs' \<and> mset vs' = mset vs \<and>
        (\<forall>p. filter (\<lambda>v. fst (snd v) = p) vs' = sort_key fst (filter (\<lambda>v. fst (snd v) = p) vs)))"
    if book: "get_order_book sy core = Some ob" for sy ob
  proof -
    obtain ob' where ob': "get_order_book sy core' = Some ob'" "restored_book ob ob'"
      using core'(3) book by (auto simp: restored_core_def option_rel_Some1 dest!: spec [of _ sy])
    have "\<exists>vs. resting ob s = Some vs \<and> resting ob' s = Some (restored_view s vs)" for s
      using ob'(2) by (simp add: restored_book_def)
    then show ?thesis using ob'(1) restored_view_kept(1) restored_view_level by blast
  qed
  then show ?thesis using snap(1) core' by blast
qed

theorem restore_sorts_levels_by_id_witness:
  "resting_of demo_core2 = Some [(2, 100, 10), (1, 100, 5)] \<and>
   (\<exists>snap core'. engine_snapshot demo_core2 = Some snap \<and> engine_restore snap make_engine_core = Some core' \<and>
     resting_of core' = Some [(1, 100, 5), (2, 100, 10)])"
proof -
  obtain ob where ob: "get_order_book 1 demo_core2 = Some ob" "resting ob Sell = Some [(2, 100, 10), (1, 100, 5)]"
    using demo_log_book by (auto simp: resting_of_def bind_eq_Some_conv)
  obtain snap core' where core': "engine_snapshot demo_core2 = Some snap" "engine_restore snap make_engine_core = Some core'"
    "restored_core demo_core2 core'"
    using restore_sorts_levels_by_id [OF demo_core2_ok core_ok_make] by blast
  then obtain ob' where "get_order_book 1 core' = Some ob'" "restored_book ob ob'"
    using ob(1) by (auto simp: restored_core_def option_rel_Some1 dest!: spec [of _ 1])
  moreover from this have "resting ob' Sell = Some (restored_view Sell [(2, 100, 10), (1, 100, 5)])"
    using ob(2) by (auto simp: restored_book_def dest!: spec [of _ Sell])
  moreover have "restored_view Sell [(2, 100, 10), (1, 100, 5)] = [(1, 100, 5), (2, 100, 10)]" by code_simp
  ultimately have "resting_of core' = Some [(1, 100, 5), (2, 100, 10)]"
    by (simp add: resting_of_def)
  then show ?thesis using core' demo_log_book by blast
qed

end
