(* ===== verification/Text.thy ===== *)
theory Text
  imports Prelude "HOL-Library.Char_ord" "HOL-Library.List_Lexorder"
begin

text \<open>
  What the text-handling components share: results of code that may throw, the decimal digits,
  \<open>std::to_string\<close> and \<open>std::from_chars\<close> on 64-bit integers.  A \<open>std::string\<close> is the list of its
  bytes, and its order is the lexicographic order on the bytes.
\<close>

section \<open>Results of code that may throw\<close>

text \<open>
  \<open>Inl\<close> is the exception that leaves the function.  \<open>ebind m f\<close> runs \<open>f\<close> on the result of \<open>m\<close>;
  \<open>catch m f\<close> is \<open>try { m } catch (e) { f(e) }\<close>.
\<close>

definition ebind :: "'e + 'a \<Rightarrow> ('a \<Rightarrow> 'e + 'b) \<Rightarrow> 'e + 'b" where
  "ebind m f = (case m of Inl e \<Rightarrow> Inl e | Inr x \<Rightarrow> f x)"

definition catch :: "'e + 'a \<Rightarrow> ('e \<Rightarrow> 'f + 'a) \<Rightarrow> 'f + 'a" where
  "catch m f = (case m of Inl e \<Rightarrow> f e | Inr x \<Rightarrow> Inr x)"

lemma ebind_simps [simp]: "ebind (Inl e) f = Inl e" "ebind (Inr x) f = f x"
  by (simp_all add: ebind_def)

lemma catch_simps [simp]: "catch (Inl e) f = f e" "catch (Inr x) f = Inr x"
  by (simp_all add: catch_def)

lemma ebind_cong [fundef_cong]:
  "m = m' \<Longrightarrow> (\<And>x. m' = Inr x \<Longrightarrow> f x = f' x) \<Longrightarrow> ebind m f = ebind m' f'"
  by (cases m') auto

lemma ebind_Inr_iff: "ebind m f = Inr y \<longleftrightarrow> (\<exists>x. m = Inr x \<and> f x = Inr y)"
  by (cases m) auto

lemma ebind_Inl_iff: "ebind m f = Inl e \<longleftrightarrow> m = Inl e \<or> (\<exists>x. m = Inr x \<and> f x = Inl e)"
  by (cases m) auto

definition require :: "bool \<Rightarrow> 'e \<Rightarrow> 'e + unit" where
  "require b e = (if b then Inr () else Inl e)"

lemma require_simps [simp]: "require True e = Inr ()" "require False e = Inl e"
  by (simp_all add: require_def)

lemma require_Inr [simp]: "require b e = Inr u \<longleftrightarrow> b"
  by (simp add: require_def)

section \<open>Digits\<close>

definition is_digit :: "char \<Rightarrow> bool" where
  "is_digit c \<longleftrightarrow> 48 \<le> (of_char c :: nat) \<and> (of_char c :: nat) \<le> 57"

definition digit_value :: "char \<Rightarrow> nat" where
  "digit_value c = of_char c - 48"

definition digit_char :: "nat \<Rightarrow> char" where
  "digit_char d = char_of (48 + d)"

lemma digit_char_simps [simp]:
  "d < 10 \<Longrightarrow> is_digit (digit_char d)" "d < 10 \<Longrightarrow> digit_value (digit_char d) = d"
  by (simp_all add: is_digit_def digit_value_def digit_char_def)

lemma digit_value_less [simp]: "is_digit c \<Longrightarrow> digit_value c < 10"
  by (auto simp: is_digit_def digit_value_def)

lemma digit_not_punct [simp]:
  "\<not> is_digit (CHR ''-'')" "\<not> is_digit (CHR ''+'')" "\<not> is_digit (CHR ''.'')" "\<not> is_digit (CHR 0x22)"
  "\<not> is_digit (CHR '' '')" "\<not> is_digit (CHR 0x09)" "\<not> is_digit (CHR 0x0A)" "\<not> is_digit (CHR 0x0D)"
  "is_digit (CHR ''0'')" "digit_value (CHR ''0'') = 0"
  by (simp_all add: is_digit_def digit_value_def)

lemma digit_char_0: "digit_char 0 = CHR ''0''"
proof -
  have "(of_char (digit_char 0) :: nat) = of_char (CHR ''0'')" by (simp add: digit_char_def)
  then show ?thesis by (simp only: of_char_eq_iff)
qed

lemma digit_char_zero: "d < 10 \<Longrightarrow> digit_char d = CHR ''0'' \<longleftrightarrow> d = 0"
  using digit_char_simps(2) [of d] digit_char_0 digit_not_punct(10) by metis

definition digits_value :: "string \<Rightarrow> nat" where
  "digits_value s = foldl (\<lambda>a c. a * 10 + digit_value c) 0 s"

lemma foldl_digits: "foldl (\<lambda>a c. a * 10 + digit_value c) n s = n * 10 ^ length s + digits_value s"
proof (induction s rule: rev_induct)
  case (snoc c s)
  then show ?case by (simp add: digits_value_def algebra_simps)
qed (simp add: digits_value_def)

lemma digits_value_Nil [simp]: "digits_value [] = 0"
  by (simp add: digits_value_def)

lemma digits_value_single [simp]: "digits_value [c] = digit_value c"
  by (simp add: digits_value_def)

lemma digits_value_append [simp]:
  "digits_value (s @ t) = digits_value s * 10 ^ length t + digits_value t"
  using foldl_digits [of "digits_value s" t] by (simp add: digits_value_def)

text \<open>The digits of a number, most significant first, without leading zeros.\<close>

fun nat_digits :: "nat \<Rightarrow> string" where
  "nat_digits n = (if n < 10 then [digit_char n] else nat_digits (n div 10) @ [digit_char (n mod 10)])"

declare nat_digits.simps [simp del]

lemma nat_digits_value [simp]: "digits_value (nat_digits n) = n"
  by (induction n rule: nat_digits.induct) (subst nat_digits.simps, auto)

lemma nat_digits_all [simp]: "list_all is_digit (nat_digits n)"
  by (induction n rule: nat_digits.induct) (subst nat_digits.simps, auto)

lemma nat_digits_not_Nil [simp]: "nat_digits n \<noteq> []"
  by (subst nat_digits.simps) simp

lemma nat_digits_head: "nat_digits n = c # s \<Longrightarrow> c = CHR ''0'' \<Longrightarrow> n = 0 \<and> s = []"
proof (induction n arbitrary: s rule: nat_digits.induct)
  case (1 n)
  show ?case
  proof (cases "n < 10")
    case True
    then show ?thesis
      using 1(2,3) by (subst (asm) nat_digits.simps) (auto simp: digit_char_zero)
  next
    case False
    then obtain s' where "nat_digits (n div 10) = c # s'"
      using 1(2) nat_digits_not_Nil [of "n div 10"]
      by (subst (asm) nat_digits.simps) (auto simp: append_eq_Cons_conv)
    then have "n div 10 = 0" using 1(1) [OF False _ 1(3)] by simp
    then show ?thesis using False by (simp add: div_eq_0_iff)
  qed
qed

section \<open>Integers as text\<close>

definition to_string :: "int \<Rightarrow> string" where
  "to_string i = (if i < 0 then CHR ''-'' # nat_digits (nat (- i)) else nat_digits (nat i))"

text \<open>
  \<open>std::from_chars\<close> into an \<open>int64_t\<close>, required to use up the text: an optional minus sign and at
  least one digit, within the range of the type.
\<close>

definition from_chars_i64 :: "string \<Rightarrow> int64 option" where
  "from_chars_i64 s =
     (let negative = (s \<noteq> [] \<and> hd s = CHR ''-'');
          ds = (if negative then tl s else s)
      in if ds = [] \<or> \<not> list_all is_digit ds then None
         else let i = (if negative then - int (digits_value ds) else int (digits_value ds)) in
           if in_i64 i then Some i else None)"

lemma from_chars_to_string [simp]: "in_i64 i \<Longrightarrow> from_chars_i64 (to_string i) = Some i"
proof (cases "i < 0")
  case False
  assume i: "in_i64 i"
  obtain c s where cs: "nat_digits (nat i) = c # s" by (cases "nat_digits (nat i)") auto
  then have "is_digit c" using nat_digits_all [of "nat i"] by simp
  then have "c \<noteq> CHR ''-''" by auto
  then show ?thesis
    using False i nat_digits_all [of "nat i"] nat_digits_value [of "nat i"]
    by (simp add: from_chars_i64_def to_string_def cs Let_def)
qed (simp add: from_chars_i64_def to_string_def Let_def)

lemma from_chars_range: "from_chars_i64 s = Some i \<Longrightarrow> in_i64 i"
  by (auto simp: from_chars_i64_def Let_def split: if_splits)

end
