(* ===== verification/FixedPoint.thy ===== *)
theory FixedPoint
  imports Text
begin

text \<open>
  \<open>src/src/core/FixedPoint.cpp\<close>: the parser of decimal prices.  \<open>decimal_spec\<close> is the number a
  decimal literal denotes at a scale; the parser computes it modulo \<open>2 ^ 128\<close>, the width of its
  accumulator, and \<open>price\<close> then checks the range.
\<close>

section \<open>The code\<close>

type_synonym u128 = "128 word"

datatype fixed_point_error = Invalid_argument string | Out_of_range string

definition is_ascii_space :: "char \<Rightarrow> bool" where
  "is_ascii_space c \<longleftrightarrow> c = CHR '' '' \<or> c = CHR 0x09 \<or> c = CHR 0x0A \<or> c = CHR 0x0D"

definition trim_ascii_space :: "string \<Rightarrow> string" where
  "trim_ascii_space s = rev (dropWhile is_ascii_space (rev (dropWhile is_ascii_space s)))"

definition append_digit :: "u128 \<Rightarrow> nat \<Rightarrow> u128" where
  "append_digit value digit = value * 10 + of_nat digit"

text \<open>The variables of the loop over the characters.\<close>

record scan_state =
  sn_result :: u128
  sn_seenDigit :: bool
  sn_seenDecimalPoint :: bool
  sn_fractionalDigits :: int32

definition scan_char :: "int32 \<Rightarrow> char \<Rightarrow> scan_state \<Rightarrow> fixed_point_error + scan_state" where
  "scan_char scale ch st =
     (if ch = CHR ''.'' then
        (if sn_seenDecimalPoint st
         then Inl (Invalid_argument ''fixed-point value has multiple decimal points'')
         else Inr (st\<lparr>sn_seenDecimalPoint := True\<rparr>))
      else if \<not> is_digit ch
      then Inl (Invalid_argument ''fixed-point value contains a non-digit'')
      else let st = st\<lparr>sn_seenDigit := True\<rparr>; digit = digit_value ch in
        if sn_seenDecimalPoint st \<and> sn_fractionalDigits st \<ge> scale then
          (if digit \<noteq> 0
           then Inl (Invalid_argument ''fixed-point value has too much precision'')
           else Inr st)
        else let st = (if sn_seenDecimalPoint st
                       then st\<lparr>sn_fractionalDigits := sn_fractionalDigits st + 1\<rparr> else st)
          in Inr (st\<lparr>sn_result := append_digit (sn_result st) digit\<rparr>))"

fun scan_chars :: "int32 \<Rightarrow> string \<Rightarrow> scan_state \<Rightarrow> fixed_point_error + scan_state" where
  "scan_chars scale [] st = Inr st"
| "scan_chars scale (ch # s) st = ebind (scan_char scale ch st) (scan_chars scale s)"

text \<open>The final loop \<open>while (fractionalDigits < scale)\<close>, which runs \<open>scale - fractionalDigits\<close> times.\<close>

definition pad_scale :: "int32 \<Rightarrow> int32 \<Rightarrow> u128 \<Rightarrow> u128" where
  "pad_scale fractionalDigits scale = (\<lambda>r. append_digit r 0) ^^ nat (scale - fractionalDigits)"

definition parse_scaled_magnitude :: "string \<Rightarrow> int32 \<Rightarrow> bool \<Rightarrow> fixed_point_error + (u128 \<times> bool)" where
  "parse_scaled_magnitude input scale allowNegative =
     (if scale < 0 then Inl (Invalid_argument ''fixed-point scale must be non-negative'')
      else let value = trim_ascii_space input in
        if value = [] then Inl (Invalid_argument ''fixed-point value is empty'')
        else let signed = (hd value = CHR ''+'' \<or> hd value = CHR ''-'');
            negative = (hd value = CHR ''-'');
            value = (if signed then tl value else value) in
          if negative \<and> \<not> allowNegative
          then Inl (Invalid_argument ''negative quantity is not allowed'')
          else if value = [] then Inl (Invalid_argument ''fixed-point value has no digits'')
          else ebind (scan_chars scale value \<lparr>sn_result = 0, sn_seenDigit = False,
                        sn_seenDecimalPoint = False, sn_fractionalDigits = 0\<rparr>)
            (\<lambda>st. if \<not> sn_seenDigit st
                  then Inl (Invalid_argument ''fixed-point value has no digits'')
                  else Inr (pad_scale (sn_fractionalDigits st) scale (sn_result st), negative)))"

text \<open>\<open>price(value, scale)\<close>: the magnitude must fit the positive range of \<open>int64_t\<close>.\<close>

definition parse_price :: "string \<Rightarrow> int32 \<Rightarrow> fixed_point_error + int64" where
  "parse_price value scale =
     ebind (parse_scaled_magnitude value scale True) (\<lambda>(magnitude, negative).
       if magnitude > 2 ^ 63 - 1 then Inl (Out_of_range ''price is outside int64 range'')
       else let ticks = int (unat magnitude) in Inr (if negative then - ticks else ticks))"

section \<open>The number a literal denotes\<close>

text \<open>
  The digits before the point and the first \<open>scale\<close> digits after it; what follows must be zeros.
\<close>

definition decimal_spec :: "nat \<Rightarrow> string \<Rightarrow> nat option" where
  "decimal_spec scale s =
     (let whole = takeWhile (\<lambda>c. c \<noteq> CHR ''.'') s;
          fraction = tl (dropWhile (\<lambda>c. c \<noteq> CHR ''.'') s)
      in if list_all is_digit (whole @ fraction) \<and> whole @ fraction \<noteq> [] \<and>
            list_all (\<lambda>c. c = CHR ''0'') (drop scale fraction)
         then Some (digits_value (whole @ take scale fraction) * 10 ^ (scale - length fraction))
         else None)"

lemma append_digit_of_nat: "append_digit (of_nat n) d = of_nat (n * 10 + d)"
  by (simp add: append_digit_def)

lemma pad_scale_of_nat: "pad_scale f scale (of_nat n) = of_nat (n * 10 ^ nat (scale - f))"
proof -
  have "((\<lambda>r. append_digit r 0) ^^ k) (of_nat n) = of_nat (n * 10 ^ k)" for k
    by (induction k) (simp_all add: append_digit_def algebra_simps)
  then show ?thesis by (simp add: pad_scale_def)
qed

lemma is_digit_zero: "is_digit c \<Longrightarrow> digit_value c = 0 \<longleftrightarrow> c = CHR ''0''"
proof
  assume "is_digit c" "digit_value c = 0"
  then have "(of_char c :: nat) = of_char (CHR ''0'')" by (simp add: is_digit_def digit_value_def)
  then show "c = CHR ''0''" by (simp only: of_char_eq_iff)
qed simp

text \<open>The loop before the point, and after it.\<close>

lemma scan_whole:
  assumes "list_all is_digit ds" "\<not> sn_seenDecimalPoint st" "sn_result st = of_nat (digits_value p)"
  shows "scan_chars scale (ds @ s) st = scan_chars scale s
    (st\<lparr>sn_result := of_nat (digits_value (p @ ds)), sn_seenDigit := sn_seenDigit st \<or> ds \<noteq> []\<rparr>)"
  using assms
proof (induction ds arbitrary: st p)
  case (Cons c ds)
  let ?st = "st\<lparr>sn_result := of_nat (digits_value (p @ [c])), sn_seenDigit := True\<rparr>"
  have "c \<noteq> CHR ''.''" using Cons.prems(1) by auto
  then have "scan_char scale c st = Inr ?st"
    using Cons.prems by (simp add: scan_char_def Let_def append_digit_of_nat)
  then show ?case
    using Cons.prems Cons.IH [of ?st "p @ [c]"] by simp
next
  case Nil
  then show ?case by (cases st) simp
qed

lemma scan_whole_bad:
  assumes "list_all (\<lambda>c. c \<noteq> CHR ''.'') ds" "\<not> list_all is_digit ds" "\<not> sn_seenDecimalPoint st"
  shows "\<exists>e. scan_chars scale (ds @ s) st = Inl e"
  using assms
proof (induction ds arbitrary: st)
  case (Cons c ds)
  show ?case
  proof (cases "is_digit c")
    case True
    then obtain st' where "scan_char scale c st = Inr st'" "\<not> sn_seenDecimalPoint st'"
      using Cons.prems by (simp add: scan_char_def Let_def)
    then show ?thesis using Cons True by simp
  qed (use Cons.prems in \<open>simp add: scan_char_def\<close>)
qed simp

lemma scan_fraction:
  assumes "sn_seenDecimalPoint st" "sn_fractionalDigits st = int (length f)" "length f \<le> scale"
    and "sn_result st = of_nat (digits_value (p @ f))"
  shows "if list_all is_digit s \<and> list_all (\<lambda>c. c = CHR ''0'') (drop (scale - length f) s)
     then scan_chars (int scale) s st =
       Inr (st\<lparr>sn_result := of_nat (digits_value (p @ take scale (f @ s))),
                  sn_seenDigit := sn_seenDigit st \<or> s \<noteq> [],
                  sn_fractionalDigits := int (min scale (length (f @ s)))\<rparr>)
     else \<exists>e. scan_chars (int scale) s st = Inl e"
  using assms
proof (induction s arbitrary: st f)
  case (Cons c s)
  note p = Cons.prems
  show ?case
  proof (cases "is_digit c")
    case False
    then have "\<exists>e. scan_char (int scale) c st = Inl e" using p(1) by (auto simp: scan_char_def)
    then show ?thesis using False by auto
  next
    case True
    then have dot: "c \<noteq> CHR ''.''" by auto
    show ?thesis
    proof (cases "length f < scale")
      case less: True
      let ?st = "st\<lparr>sn_seenDigit := True, sn_fractionalDigits := int (length (f @ [c])),
        sn_result := of_nat (digits_value (p @ f @ [c]))\<rparr>"
      have "scan_char (int scale) c st = Inr ?st"
        using True dot p less
        by (simp add: scan_char_def Let_def append_digit_def algebra_simps)
      moreover have "drop (scale - length f) (c # s) = drop (scale - length (f @ [c])) s"
        using less by (simp add: drop_Cons')
      ultimately show ?thesis
        using Cons.IH [of ?st "f @ [c]"] p less True
        by (auto simp del: digits_value_append of_nat_add of_nat_mult of_nat_power split: if_split_asm)
    next
      case False
      then have f: "length f = scale" using p(3) by simp
      show ?thesis
      proof (cases "c = CHR ''0''")
        case zero: True
        have "scan_char (int scale) c st = Inr (st\<lparr>sn_seenDigit := True\<rparr>)"
          using True dot p f zero by (simp add: scan_char_def Let_def)
        then show ?thesis
          using Cons.IH [of "st\<lparr>sn_seenDigit := True\<rparr>" f] p f True zero by simp
      next
        case False
        then have "\<exists>e. scan_char (int scale) c st = Inl e"
          using True dot p f is_digit_zero [OF True] by (simp add: scan_char_def Let_def)
        then show ?thesis using f False by auto
      qed
    qed
  qed
qed simp

lemma scan_spec:
  assumes "0 \<le> scale"
  shows "case decimal_spec (nat scale) s of
      Some v \<Rightarrow> \<exists>st. scan_chars scale s \<lparr>sn_result = 0, sn_seenDigit = False,
          sn_seenDecimalPoint = False, sn_fractionalDigits = 0\<rparr> = Inr st \<and> sn_seenDigit st \<and>
        pad_scale (sn_fractionalDigits st) scale (sn_result st) = of_nat v
    | None \<Rightarrow> \<forall>st. scan_chars scale s \<lparr>sn_result = 0, sn_seenDigit = False,
          sn_seenDecimalPoint = False, sn_fractionalDigits = 0\<rparr> = Inr st \<longrightarrow> \<not> sn_seenDigit st"
proof -
  define w where "w = takeWhile (\<lambda>c. c \<noteq> CHR ''.'') s"
  define r where "r = dropWhile (\<lambda>c. c \<noteq> CHR ''.'') s"
  let ?st = "\<lparr>sn_result = 0, sn_seenDigit = False, sn_seenDecimalPoint = False, sn_fractionalDigits = 0\<rparr>"
  have s: "s = w @ r" by (simp add: w_def r_def)
  have r: "r = [] \<or> (\<exists>f. r = CHR ''.'' # f)"
  proof (cases r)
    case (Cons c f)
    then have "dropWhile (\<lambda>c. c \<noteq> CHR ''.'') s = c # f" by (simp add: r_def)
    then show ?thesis using Cons by (auto simp: dropWhile_eq_Cons_conv)
  qed simp
  have wd: "list_all (\<lambda>c. c \<noteq> CHR ''.'') w" by (auto simp: w_def list_all_iff dest: set_takeWhileD)
  have spec: "decimal_spec (nat scale) s =
      (if list_all is_digit (w @ tl r) \<and> w @ tl r \<noteq> [] \<and>
          list_all (\<lambda>c. c = CHR ''0'') (drop (nat scale) (tl r))
       then Some (digits_value (w @ take (nat scale) (tl r)) * 10 ^ (nat scale - length (tl r))) else None)"
    by (simp add: decimal_spec_def Let_def w_def r_def)
  show ?thesis
  proof (cases "list_all is_digit w")
    case False
    then have "\<exists>e. scan_chars scale s ?st = Inl e"
      unfolding s by (intro scan_whole_bad wd) simp_all
    then show ?thesis using False spec by auto
  next
    case True
    let ?w = "?st\<lparr>sn_result := of_nat (digits_value w), sn_seenDigit := (w \<noteq> [])\<rparr>"
    have whole: "scan_chars scale s ?st = scan_chars scale r ?w"
      unfolding s using scan_whole [OF True, of ?st "[]" scale r] by simp
    from r show ?thesis
    proof
      assume r: "r = []"
      show ?thesis
        using whole spec True r pad_scale_of_nat [of 0 scale "digits_value w"] by simp
    next
      assume "\<exists>f. r = CHR ''.'' # f"
      then obtain f where r: "r = CHR ''.'' # f" by blast
      let ?d = "?w\<lparr>sn_seenDecimalPoint := True\<rparr>"
      have "scan_chars scale s ?st = scan_chars (int (nat scale)) f ?d"
        using whole r assms by (simp add: scan_char_def)
      moreover note scan_fraction [of ?d "[]" "nat scale" w f]
      moreover have "nat (scale - int (min (nat scale) (length f))) = nat scale - length f"
        using assms by (simp add: min_def nat_diff_distrib)
      ultimately show ?thesis
        using spec True r by (auto simp: pad_scale_of_nat simp del: digits_value_append of_nat_add of_nat_mult
            of_nat_power split: if_splits)
    qed
  qed
qed

section \<open>Correctness\<close>

text \<open>A price text: surrounding blanks, an optional sign, and a literal.\<close>

definition literal_of :: "string \<Rightarrow> string" where
  "literal_of s = (let v = trim_ascii_space s in
     if v \<noteq> [] \<and> (hd v = CHR ''+'' \<or> hd v = CHR ''-'') then tl v else v)"

definition negative_literal :: "string \<Rightarrow> bool" where
  "negative_literal s = (let v = trim_ascii_space s in v \<noteq> [] \<and> hd v = CHR ''-'')"

lemma decimal_spec_Nil: "decimal_spec n [] = None"
  by (simp add: decimal_spec_def)

lemma parse_scaled_magnitude_ok:
  assumes "0 \<le> scale"
  shows "case decimal_spec (nat scale) (literal_of s) of
      Some v \<Rightarrow> parse_scaled_magnitude s scale True = Inr (of_nat v, negative_literal s)
    | None \<Rightarrow> \<exists>e. parse_scaled_magnitude s scale True = Inl (Invalid_argument e)"
proof -
  have err: "\<exists>m. e = Invalid_argument m" if "scan_chars scale t st = Inl e" for t st e
    using that
  proof (induction t arbitrary: st)
    case (Cons c t)
    then show ?case
      by (auto simp: ebind_Inl_iff scan_char_def Let_def split: if_splits)
  qed simp
  let ?st = "\<lparr>sn_result = 0, sn_seenDigit = False, sn_seenDecimalPoint = False, sn_fractionalDigits = 0\<rparr>"
  let ?v = "trim_ascii_space s"
  show ?thesis
  proof (cases "?v = [] \<or> literal_of s = []")
    case True
    then show ?thesis
      using assms by (auto simp: parse_scaled_magnitude_def literal_of_def Let_def decimal_spec_Nil)
  next
    case False
    have neg: "negative_literal s \<longleftrightarrow> hd ?v = CHR ''-''"
      using False by (simp add: negative_literal_def Let_def)
    have eq: "parse_scaled_magnitude s scale True = ebind (scan_chars scale (literal_of s) ?st)
      (\<lambda>st. if \<not> sn_seenDigit st then Inl (Invalid_argument ''fixed-point value has no digits'')
            else Inr (pad_scale (sn_fractionalDigits st) scale (sn_result st), negative_literal s))"
      using assms False unfolding neg by (auto simp: parse_scaled_magnitude_def literal_of_def Let_def)
    show ?thesis
      unfolding eq using scan_spec [OF assms, of "literal_of s"] err
      by (cases "scan_chars scale (literal_of s) ?st"; cases "decimal_spec (nat scale) (literal_of s)")
        fastforce+
  qed
qed

text \<open>The range check sees the magnitude modulo \<open>2 ^ 128\<close>.\<close>

lemma parse_price_ok:
  assumes "0 \<le> scale" "decimal_spec (nat scale) (literal_of s) = Some v"
  shows "parse_price s scale =
    (if v mod 2 ^ 128 < 2 ^ 63 then Inr (if negative_literal s then - int (v mod 2 ^ 128) else int (v mod 2 ^ 128))
     else Inl (Out_of_range ''price is outside int64 range''))"
proof -
  have u: "unat (of_nat v :: u128) = v mod 2 ^ 128"
    by (simp add: unat_of_nat take_bit_eq_mod)
  then have "of_nat v > (2 ^ 63 - 1 :: u128) \<longleftrightarrow> \<not> v mod 2 ^ 128 < 2 ^ 63"
    by (auto simp: word_less_nat_alt)
  then show ?thesis
    using parse_scaled_magnitude_ok [OF assms(1), of s] assms(2) u
    by (simp add: parse_price_def Let_def)
qed

lemma parse_price_bad:
  assumes "0 \<le> scale" "decimal_spec (nat scale) (literal_of s) = None"
  shows "\<exists>e. parse_price s scale = Inl (Invalid_argument e)"
  using parse_scaled_magnitude_ok [OF assms(1), of s] assms(2) by (auto simp: parse_price_def)

end
