(* ===== verification/Json.thy ===== *)
theory Json
  imports Text
begin

text \<open>
  \<open>src/include/protocol/Json.hpp\<close>, \<open>src/src/protocol/Json.cpp\<close>: the JSON values and the recursive
  descent parser.  The position of the parser is the rest of the text.  A parse error carries
  the message of \<open>JsonParseError\<close>.  The mutually recursive functions take fuel, which
  \<open>parse_json\<close> sets to more than the length of the text; it never runs out.
\<close>

section \<open>Values\<close>

datatype json_value =
    JNull
  | JBool bool
  | JNumber string
  | JString string
  | JArray "json_value list"
  | JObject "(string \<times> json_value) list"

definition is_null :: "json_value \<Rightarrow> bool" where
  "is_null v \<longleftrightarrow> v = JNull"

fun as_bool :: "json_value \<Rightarrow> bool option" where
  "as_bool (JBool b) = Some b" | "as_bool _ = None"

fun as_number :: "json_value \<Rightarrow> string option" where
  "as_number (JNumber t) = Some t" | "as_number _ = None"

fun as_string :: "json_value \<Rightarrow> string option" where
  "as_string (JString t) = Some t" | "as_string _ = None"

fun as_array :: "json_value \<Rightarrow> json_value list option" where
  "as_array (JArray vs) = Some vs" | "as_array _ = None"

fun as_object :: "json_value \<Rightarrow> (string \<times> json_value) list option" where
  "as_object (JObject es) = Some es" | "as_object _ = None"

definition is_string :: "json_value \<Rightarrow> bool" where
  "is_string v \<longleftrightarrow> as_string v \<noteq> None"

definition is_object :: "json_value \<Rightarrow> bool" where
  "is_object v \<longleftrightarrow> as_object v \<noteq> None"

definition json_find :: "json_value \<Rightarrow> string \<Rightarrow> json_value option" where
  "json_find v key = (case as_object v of None \<Rightarrow> None | Some es \<Rightarrow> sm_find es key)"

section \<open>Characters\<close>

definition json_space :: "char \<Rightarrow> bool" where
  "json_space c \<longleftrightarrow> c = CHR '' '' \<or> c = CHR 0x09 \<or> c = CHR 0x0A \<or> c = CHR 0x0D"

definition skip_whitespace :: "string \<Rightarrow> string" where
  "skip_whitespace s = dropWhile json_space s"

definition peek_is :: "char \<Rightarrow> string \<Rightarrow> bool" where
  "peek_is c s \<longleftrightarrow> s \<noteq> [] \<and> hd s = c"

text \<open>\<open>consume(c)\<close>: whether the next character is \<open>c\<close>, and the position after it if so.\<close>

definition consume :: "char \<Rightarrow> string \<Rightarrow> bool \<times> string" where
  "consume c s = (if peek_is c s then (True, tl s) else (False, s))"

definition expect :: "char \<Rightarrow> string \<Rightarrow> string + string" where
  "expect c s = (if peek_is c s then Inr (tl s)
     else Inl (''expected '' @ [CHR 0x27, c, CHR 0x27]))"

definition hex_value :: "char \<Rightarrow> string + nat" where
  "hex_value c =
     (let v = (of_char c :: nat) in
      if 48 \<le> v \<and> v \<le> 57 then Inr (v - 48)
      else if 97 \<le> v \<and> v \<le> 102 then Inr (10 + (v - 97))
      else if 65 \<le> v \<and> v \<le> 70 then Inr (10 + (v - 65))
      else Inl ''invalid unicode escape'')"

section \<open>Strings\<close>

type_synonym u16 = "16 word"

fun hex_digits :: "u16 \<Rightarrow> string \<Rightarrow> string + u16" where
  "hex_digits value [] = Inr value"
| "hex_digits value (c # s) =
     ebind (hex_value c) (\<lambda>d. hex_digits (push_bit 4 value OR of_nat d) s)"

definition parse_hex_code_unit :: "string \<Rightarrow> string + (u16 \<times> string)" where
  "parse_hex_code_unit s =
     (if length s < 4 then Inl ''incomplete unicode escape''
      else ebind (hex_digits 0 (take 4 s)) (\<lambda>v. Inr (v, drop 4 s)))"

definition is_high_surrogate :: "u16 \<Rightarrow> bool" where
  "is_high_surrogate v \<longleftrightarrow> 0xD800 \<le> v \<and> v \<le> 0xDBFF"

definition is_low_surrogate :: "u16 \<Rightarrow> bool" where
  "is_low_surrogate v \<longleftrightarrow> 0xDC00 \<le> v \<and> v \<le> 0xDFFF"

definition byte_char :: "u32 \<Rightarrow> char" where
  "byte_char w = char_of (unat w)"

definition utf8 :: "u32 \<Rightarrow> string" where
  "utf8 cp =
     (if cp \<le> 0x7F then [byte_char cp]
      else if cp \<le> 0x7FF then [byte_char (0xC0 OR drop_bit 6 cp), byte_char (0x80 OR (cp AND 0x3F))]
      else if cp \<le> 0xFFFF then
        [byte_char (0xE0 OR drop_bit 12 cp), byte_char (0x80 OR (drop_bit 6 cp AND 0x3F)),
         byte_char (0x80 OR (cp AND 0x3F))]
      else [byte_char (0xF0 OR drop_bit 18 cp), byte_char (0x80 OR (drop_bit 12 cp AND 0x3F)),
            byte_char (0x80 OR (drop_bit 6 cp AND 0x3F)), byte_char (0x80 OR (cp AND 0x3F))])"

definition unicode_escape :: "string \<Rightarrow> string + (string \<times> string)" where
  "unicode_escape s =
     ebind (parse_hex_code_unit s) (\<lambda>(first, s).
       if is_high_surrogate first then
         (if \<not> (peek_is (CHR 0x5C) s \<and> peek_is (CHR ''u'') (tl s))
          then Inl ''expected low surrogate escape''
          else ebind (parse_hex_code_unit (tl (tl s))) (\<lambda>(second, s).
            if \<not> is_low_surrogate second then Inl ''expected low surrogate''
            else Inr (utf8 (0x10000 + (push_bit 10 (ucast first - 0xD800) OR (ucast second - 0xDC00))), s)))
       else if is_low_surrogate first then Inl ''unexpected low surrogate''
       else Inr (utf8 (ucast first), s))"

text \<open>The text an escape stands for, after the backslash.\<close>

definition parse_escape :: "string \<Rightarrow> string + (string \<times> string)" where
  "parse_escape s = (case s of
      [] \<Rightarrow> Inl ''unterminated escape sequence''
    | e # s \<Rightarrow>
        if e = CHR 0x22 \<or> e = CHR 0x5C \<or> e = CHR ''/'' then Inr ([e], s)
        else if e = CHR ''b'' then Inr ([CHR 0x08], s)
        else if e = CHR ''f'' then Inr ([CHR 0x0C], s)
        else if e = CHR ''n'' then Inr ([CHR 0x0A], s)
        else if e = CHR ''r'' then Inr ([CHR 0x0D], s)
        else if e = CHR ''t'' then Inr ([CHR 0x09], s)
        else if e = CHR ''u'' then unicode_escape s
        else Inl ''invalid escape sequence'')"

lemma parse_hex_code_unit_length: "parse_hex_code_unit s = Inr (v, s') \<Longrightarrow> length s' \<le> length s"
  by (auto simp: parse_hex_code_unit_def ebind_Inr_iff split: if_splits)

lemma unicode_escape_length: "unicode_escape s = Inr (t, s') \<Longrightarrow> length s' \<le> length s"
  by (fastforce simp: unicode_escape_def ebind_Inr_iff split: if_splits prod.splits
      dest: parse_hex_code_unit_length)

lemma parse_escape_length: "parse_escape s = Inr (t, s') \<Longrightarrow> length s' \<le> length s"
  by (auto simp: parse_escape_def split: list.splits if_splits dest: unicode_escape_length)

text \<open>The loop of \<open>parse_string\<close> with the text read so far.\<close>

function string_body :: "string \<Rightarrow> string \<Rightarrow> string + (string \<times> string)" where
  "string_body result [] = Inl ''unterminated string''"
| "string_body result (c # s) =
     (if c = CHR 0x22 then Inr (result, s)
      else if c = CHR 0x5C then ebind (parse_escape s) (\<lambda>p. string_body (result @ fst p) (snd p))
      else if (of_char c :: nat) < 0x20 then Inl ''unescaped control character in string''
      else string_body (result @ [c]) s)"
  by pat_completeness auto
termination
  by (relation "measure (length \<circ> snd)") (auto dest: parse_escape_length simp: less_Suc_eq_le)

definition parse_string :: "string \<Rightarrow> string + (string \<times> string)" where
  "parse_string s = ebind (expect (CHR 0x22) s) (string_body [])"

section \<open>Numbers and literals\<close>

definition consume_digits :: "string \<Rightarrow> string" where
  "consume_digits s = dropWhile is_digit s"

definition digit_next :: "string \<Rightarrow> bool" where
  "digit_next s \<longleftrightarrow> s \<noteq> [] \<and> is_digit (hd s)"

definition number_integer :: "string \<Rightarrow> string + string" where
  "number_integer s =
     (if s = [] then Inl ''incomplete number''
      else if peek_is (CHR ''0'') s then
        (if digit_next (tl s) then Inl ''leading zero in number'' else Inr (tl s))
      else if digit_next s then Inr (consume_digits s)
      else Inl ''expected number digits'')"

definition number_fraction :: "string \<Rightarrow> string + string" where
  "number_fraction s =
     (if peek_is (CHR ''.'') s then
        (if \<not> digit_next (tl s) then Inl ''expected fractional digits'' else Inr (consume_digits (tl s)))
      else Inr s)"

definition number_exponent :: "string \<Rightarrow> string + string" where
  "number_exponent s =
     (if peek_is (CHR ''e'') s \<or> peek_is (CHR ''E'') s then
        (let s = tl s; s = (if peek_is (CHR ''+'') s \<or> peek_is (CHR ''-'') s then tl s else s) in
         if \<not> digit_next s then Inl ''expected exponent digits'' else Inr (consume_digits s))
      else Inr s)"

definition parse_number :: "string \<Rightarrow> string + (string \<times> string)" where
  "parse_number s =
     ebind (number_integer (snd (consume (CHR ''-'') s))) (\<lambda>r.
     ebind (number_fraction r) (\<lambda>r.
     ebind (number_exponent r) (\<lambda>r. Inr (take (length s - length r) s, r))))"

definition parse_literal :: "string \<Rightarrow> string \<Rightarrow> string + string" where
  "parse_literal literal s =
     (if take (length literal) s \<noteq> literal then Inl ''invalid literal''
      else Inr (drop (length literal) s))"

section \<open>The recursive descent\<close>

text \<open>\<open>None\<close> is running out of fuel; \<open>tbind\<close> and \<open>texpect\<close> compose what may also throw.\<close>

definition tbind :: "('e + 'a) option \<Rightarrow> ('a \<Rightarrow> ('e + 'b) option) \<Rightarrow> ('e + 'b) option" where
  "tbind m f = (case m of None \<Rightarrow> None | Some (Inl e) \<Rightarrow> Some (Inl e) | Some (Inr x) \<Rightarrow> f x)"

lemma tbind_simps [simp]:
  "tbind None f = None" "tbind (Some (Inl e)) f = Some (Inl e)" "tbind (Some (Inr x)) f = f x"
  by (simp_all add: tbind_def)

lemma tbind_Inr_iff: "tbind m f = Some (Inr y) \<longleftrightarrow> (\<exists>x. m = Some (Inr x) \<and> f x = Some (Inr y))"
  by (auto simp: tbind_def split: option.splits sum.splits)

lemma tbind_None_iff: "tbind m f = None \<longleftrightarrow> m = None \<or> (\<exists>x. m = Some (Inr x) \<and> f x = None)"
  by (auto simp: tbind_def split: option.splits sum.splits)

fun parse_value :: "nat \<Rightarrow> string \<Rightarrow> (string + (json_value \<times> string)) option"
  and parse_members :: "nat \<Rightarrow> (string \<times> json_value) list \<Rightarrow> string \<Rightarrow>
    (string + ((string \<times> json_value) list \<times> string)) option"
  and parse_elements :: "nat \<Rightarrow> json_value list \<Rightarrow> string \<Rightarrow>
    (string + (json_value list \<times> string)) option" where
  "parse_value 0 s = None"
| "parse_value (Suc n) s0 =
     (let s = skip_whitespace s0 in
      if s = [] then Some (Inl ''expected JSON value'')
      else if hd s = CHR ''{'' then
        (let s = skip_whitespace (tl s) in
         if peek_is (CHR ''}'') s then Some (Inr (JObject [], tl s))
         else tbind (parse_members n [] s) (\<lambda>(es, s). Some (Inr (JObject es, s))))
      else if hd s = CHR ''['' then
        (let s = skip_whitespace (tl s) in
         if peek_is (CHR '']'') s then Some (Inr (JArray [], tl s))
         else tbind (parse_elements n [] s) (\<lambda>(vs, s). Some (Inr (JArray vs, s))))
      else if hd s = CHR 0x22 then
        Some (ebind (parse_string s) (\<lambda>(t, s). Inr (JString t, s)))
      else if hd s = CHR ''t'' then
        Some (ebind (parse_literal ''true'' s) (\<lambda>s. Inr (JBool True, s)))
      else if hd s = CHR ''f'' then
        Some (ebind (parse_literal ''false'' s) (\<lambda>s. Inr (JBool False, s)))
      else if hd s = CHR ''n'' then
        Some (ebind (parse_literal ''null'' s) (\<lambda>s. Inr (JNull, s)))
      else if hd s = CHR ''-'' \<or> is_digit (hd s) then
        Some (ebind (parse_number s) (\<lambda>(t, s). Inr (JNumber t, s)))
      else Some (Inl ''expected JSON value''))"
| "parse_members 0 object s = None"
| "parse_members (Suc n) object s0 =
     (let s = skip_whitespace s0 in
      if \<not> peek_is (CHR 0x22) s then Some (Inl ''expected object key string'')
      else tbind (Some (parse_string s)) (\<lambda>(key, s).
        tbind (Some (expect (CHR '':'') (skip_whitespace s))) (\<lambda>s.
        tbind (parse_value n s) (\<lambda>(value, s).
          if sm_find object key \<noteq> None then Some (Inl ''duplicate object key'')
          else let object = sm_assign key value object; s = skip_whitespace s in
            if peek_is (CHR ''}'') s then Some (Inr (object, tl s))
            else tbind (Some (expect (CHR '','') s)) (\<lambda>s. parse_members n object s)))))"
| "parse_elements 0 array s = None"
| "parse_elements (Suc n) array s0 =
     tbind (parse_value n s0) (\<lambda>(value, s).
       let array = array @ [value]; s = skip_whitespace s in
       if peek_is (CHR '']'') s then Some (Inr (array, tl s))
       else tbind (Some (expect (CHR '','') s)) (\<lambda>s. parse_elements n array s))"

declare parse_value.simps [simp del] parse_members.simps [simp del] parse_elements.simps [simp del]

definition parse_json :: "string \<Rightarrow> string + json_value" where
  "parse_json text = (case parse_value (Suc (2 * length text)) text of
      None \<Rightarrow> Inl ''out of fuel''
    | Some (Inl e) \<Rightarrow> Inl e
    | Some (Inr (v, s)) \<Rightarrow>
        if skip_whitespace s \<noteq> [] then Inl ''unexpected trailing content'' else Inr v)"

section \<open>The fuel suffices\<close>

lemma skip_whitespace_length [simp]: "length (skip_whitespace s) \<le> length s"
  by (simp add: skip_whitespace_def length_dropWhile_le)

lemma expect_length: "expect c s = Inr s' \<Longrightarrow> length s = Suc (length s')"
  by (cases s) (auto simp: expect_def peek_is_def split: if_splits)

lemma peek_is_length: "peek_is c s \<Longrightarrow> length s = Suc (length (tl s))"
  by (cases s) (auto simp: peek_is_def)

lemma string_body_length: "string_body r s = Inr (t, s') \<Longrightarrow> length s' < length s"
proof (induction r s arbitrary: t s' rule: string_body.induct)
  case (2 result c s)
  show ?case
  proof (cases "c = CHR 0x5C")
    case True
    then obtain u s1 where "parse_escape s = Inr (u, s1)" "string_body (result @ u) s1 = Inr (t, s')"
      using 2(3) by (auto simp: ebind_Inr_iff)
    then show ?thesis
      using 2(1) [OF _ True, of "(u, s1)"] True parse_escape_length by fastforce
  next
    case False
    then show ?thesis using 2 by (auto split: if_splits)
  qed
qed simp

lemma parse_string_length: "parse_string s = Inr (t, s') \<Longrightarrow> length s' < length s"
  using expect_length string_body_length by (fastforce simp: parse_string_def ebind_Inr_iff)

lemma consume_digits_length: "digit_next s \<Longrightarrow> length (consume_digits s) < length s"
  by (cases s) (auto simp: digit_next_def consume_digits_def less_Suc_eq_le length_dropWhile_le)

lemma number_parts_length:
  "number_integer s = Inr r \<Longrightarrow> length r < length s"
  "number_fraction s = Inr r \<Longrightarrow> length r \<le> length s"
  "number_exponent s = Inr r \<Longrightarrow> length r \<le> length s"
  using consume_digits_length [of s] consume_digits_length [of "tl s"] consume_digits_length [of "tl (tl s)"]
  by (auto simp: number_integer_def number_fraction_def number_exponent_def Let_def
      split: if_splits dest: peek_is_length)

lemma consume_length: "length (snd (consume c s)) \<le> length s"
  by (simp add: consume_def)

lemma parse_number_length: "parse_number s = Inr (t, r) \<Longrightarrow> length r < length s"
proof -
  assume "parse_number s = Inr (t, r)"
  then obtain r1 r2 where r: "number_integer (snd (consume (CHR ''-'') s)) = Inr r1"
      "number_fraction r1 = Inr r2" "number_exponent r2 = Inr r"
    by (auto simp: parse_number_def ebind_Inr_iff)
  show ?thesis
    using number_parts_length(1) [OF r(1)] number_parts_length(2) [OF r(2)]
      number_parts_length(3) [OF r(3)] consume_length [of "CHR ''-''" s] by linarith
qed

lemma parse_literal_length: "parse_literal l s = Inr s' \<Longrightarrow> l \<noteq> [] \<Longrightarrow> length s' < length s"
  by (cases s; cases l) (auto simp: parse_literal_def split: if_splits)

text \<open>With more fuel than text every parser returns, and a success has consumed something.\<close>

definition returns :: "(string + ('a \<times> string)) option \<Rightarrow> string \<Rightarrow> bool" where
  "returns m s \<longleftrightarrow> (case m of None \<Rightarrow> False | Some (Inl e) \<Rightarrow> True
     | Some (Inr (v, r)) \<Rightarrow> length r < length s)"

lemma returnsI [simp]: "returns (Some (Inl e)) s"
  "returns (Some (Inr (v, r))) s \<longleftrightarrow> length r < length s" "\<not> returns None s"
  by (simp_all add: returns_def)

lemma returns_mono: "returns m s \<Longrightarrow> length s \<le> length s' \<Longrightarrow> returns m s'"
  by (auto simp: returns_def split: option.splits sum.splits)

lemma returns_tbind:
  assumes "returns m s" "\<And>v r. m = Some (Inr (v, r)) \<Longrightarrow> length r < length s \<Longrightarrow> returns (f (v, r)) s'"
  shows "returns (tbind m f) s'"
  using assms by (auto simp: returns_def tbind_def split: option.splits sum.splits)

lemma returns_expect:
  assumes "\<And>r. expect c s = Inr r \<Longrightarrow> length s = Suc (length r) \<Longrightarrow> returns (f r) s'"
  shows "returns (tbind (Some (expect c s)) f) s'"
  using assms expect_length [of c s] by (cases "expect c s") auto

lemma returns_ebind:
  assumes "\<And>r. m = Inr r \<Longrightarrow> returns (Some (f r)) s"
  shows "returns (Some (ebind m f)) s"
  using assms by (cases m) auto

lemma parse_returns:
  "2 * length s < n \<Longrightarrow> returns (parse_value n s) s"
  "2 * length s < n \<Longrightarrow> returns (parse_members n es s) s"
  "2 * length s + 1 < n \<Longrightarrow> returns (parse_elements n vs s) s"
proof (induction n arbitrary: s es vs)
  case (Suc n)
  note sw = skip_whitespace_length
  {
    case 1
    let ?s = "skip_whitespace s"
    have tl: "?s \<noteq> [] \<Longrightarrow> length ?s = Suc (length (tl ?s))" by (cases ?s) auto
    have ls: "length ?s \<le> length s" by simp
    have lts: "length b < length ?s \<Longrightarrow> length b < length s" for b :: string using ls by linarith
    have lt: "length (skip_whitespace (tl ?s)) \<le> length (tl ?s)" by (rule sw)
    have mem: "returns (tbind (parse_members n [] (skip_whitespace (tl ?s))) (\<lambda>(es, s). Some (Inr (JObject es, s)))) s"
      if "?s \<noteq> []"
    proof (rule returns_tbind [where s = s])
      have "2 * length (skip_whitespace (tl ?s)) < n" using 1 tl [OF that] ls lt by linarith
      then show "returns (parse_members n [] (skip_whitespace (tl ?s))) s"
              by (rule returns_mono [OF Suc.IH(2)]) (use tl [OF that] ls lt in linarith)
    qed simp
    have elt: "returns (tbind (parse_elements n [] (skip_whitespace (tl ?s))) (\<lambda>(es, s). Some (Inr (JArray es, s)))) s"
      if "?s \<noteq> []"
    proof (rule returns_tbind [where s = s])
      have "2 * length (skip_whitespace (tl ?s)) + 1 < n" using 1 tl [OF that] ls lt by linarith
      then show "returns (parse_elements n [] (skip_whitespace (tl ?s))) s"
              by (rule returns_mono [OF Suc.IH(3)]) (use tl [OF that] ls lt in linarith)
    qed simp
    have leaf: "returns (Some (ebind (parse_string ?s) (\<lambda>(t, s). Inr (JString t, s)))) s"
      "returns (Some (ebind (parse_number ?s) (\<lambda>(t, s). Inr (JNumber t, s)))) s"
      "l \<noteq> [] \<Longrightarrow> returns (Some (ebind (parse_literal l ?s) (\<lambda>s. Inr (v, s)))) s" for l v
      by (auto intro!: returns_ebind lts dest!: parse_string_length parse_number_length parse_literal_length)
    have closing: "peek_is c (skip_whitespace (tl ?s)) \<Longrightarrow> ?s \<noteq> [] \<Longrightarrow>
        length (tl (skip_whitespace (tl ?s))) < length s" for c
      using peek_is_length [of c "skip_whitespace (tl ?s)"] tl ls lt by linarith
    show ?case
      using mem elt leaf(1,2) leaf(3) [of "''true''" "JBool True"] leaf(3) [of "''false''" "JBool False"]
        leaf(3) [of "''null''" JNull] closing
      by (simp add: parse_value.simps Let_def)
  next
    case 2
    let ?s = "skip_whitespace s"
    have ls: "length ?s \<le> length s" by simp
    have key: "returns (Some (parse_string ?s)) s"
    proof (cases "parse_string ?s")
      case (Inr q)
      obtain t r where "q = (t, r)" by (cases q)
      then show ?thesis
        using Inr less_le_trans [OF parse_string_length [of ?s t r] ls] by simp
    qed simp
    show ?case
      unfolding parse_members.simps Let_def
    proof (simp only: split: if_split, intro conjI impI)
      show "returns (Some (Inl ''expected object key string'')) s" by simp
      show "returns (tbind (Some (parse_string ?s)) (\<lambda>(key, s).
          tbind (Some (expect CHR '':'' (skip_whitespace s))) (\<lambda>s.
          tbind (parse_value n s) (\<lambda>(value, s).
            if sm_find es key \<noteq> None then Some (Inl ''duplicate object key'')
            else if peek_is CHR ''}'' (skip_whitespace s)
            then Some (Inr (sm_assign key value es, tl (skip_whitespace s)))
            else tbind (Some (expect CHR '','' (skip_whitespace s)))
              (parse_members n (sm_assign key value es)))))) s"
      proof (rule returns_tbind [OF key], unfold prod.case, rule returns_expect)
        fix k r1 r2 :: string assume r1: "length r1 < length s"
          and r2: "length (skip_whitespace r1) = Suc (length r2)"
        have l2: "length r2 < length r1" using sw [of r1] r2 by linarith
        then have "2 * length r2 < n" using r1 2 by linarith
        then show "returns (tbind (parse_value n r2) (\<lambda>(value, s).
            if sm_find es k \<noteq> None then Some (Inl ''duplicate object key'')
            else if peek_is CHR ''}'' (skip_whitespace s)
            then Some (Inr (sm_assign k value es, tl (skip_whitespace s)))
            else tbind (Some (expect CHR '','' (skip_whitespace s)))
              (parse_members n (sm_assign k value es)))) s"
        proof (rule returns_tbind [OF Suc.IH(1)])
          fix v and r3 :: string assume r3: "length r3 < length r2"
          have c: "peek_is CHR ''}'' (skip_whitespace r3) \<Longrightarrow> length (tl (skip_whitespace r3)) < length s"
            using peek_is_length [of "CHR ''}''" "skip_whitespace r3"] sw [of r3] r3 l2 r1 by linarith
          have "returns (tbind (Some (expect CHR '','' (skip_whitespace r3)))
              (parse_members n (sm_assign k v es))) s"
          proof (rule returns_expect)
            fix r4 :: string assume "length (skip_whitespace r3) = Suc (length r4)"
            then have r4: "length r4 < length r3" using sw [of r3] by linarith
            then have "2 * length r4 < n" using r3 l2 r1 2 by linarith
            then show "returns (parse_members n (sm_assign k v es) r4) s"
              by (rule returns_mono [OF Suc.IH(2)]) (use r4 r3 l2 r1 in linarith)
          qed
          then show "returns (case (v, r3) of (value, s) \<Rightarrow>
              if sm_find es k \<noteq> None then Some (Inl ''duplicate object key'')
              else if peek_is CHR ''}'' (skip_whitespace s)
              then Some (Inr (sm_assign k value es, tl (skip_whitespace s)))
              else tbind (Some (expect CHR '','' (skip_whitespace s)))
                (parse_members n (sm_assign k value es))) s"
            using c by simp
        qed
      qed
    qed
  next
    case 3
    have n: "2 * length s < n" using 3 by simp
    show ?case
      unfolding parse_elements.simps Let_def
    proof (rule returns_tbind [OF Suc.IH(1) [OF n]])
      fix v and r :: string assume r: "length r < length s"
      have c: "peek_is CHR '']'' (skip_whitespace r) \<Longrightarrow> length (tl (skip_whitespace r)) < length s"
        using peek_is_length [of "CHR '']''" "skip_whitespace r"] sw [of r] r by linarith
      have "returns (tbind (Some (expect CHR '','' (skip_whitespace r))) (parse_elements n (vs @ [v]))) s"
      proof (rule returns_expect)
        fix r4 :: string assume "length (skip_whitespace r) = Suc (length r4)"
        then have r4: "length r4 < length r" using sw [of r] by linarith
        then have "2 * length r4 + 1 < n" using r 3 by linarith
        then show "returns (parse_elements n (vs @ [v]) r4) s"
              by (rule returns_mono [OF Suc.IH(3)]) (use r4 r in linarith)
      qed
      then show "returns (case (v, r) of (value, s) \<Rightarrow>
          if peek_is CHR '']'' (skip_whitespace s) then Some (Inr (vs @ [value], tl (skip_whitespace s)))
          else tbind (Some (expect CHR '','' (skip_whitespace s))) (parse_elements n (vs @ [value]))) s"
        using c by simp
    qed
  }
qed simp_all

text \<open>The parser returns on every text: the fuel of \<open>parse_json\<close> never runs out.\<close>

lemma parse_json_returns: "parse_value (Suc (2 * length s)) s \<noteq> None"
  using parse_returns(1) [of s "Suc (2 * length s)"] by (auto simp: returns_def split: option.split_asm)

end
