(* ===== verification/Serializer.thy ===== *)
theory Serializer
  imports Json
begin

text \<open>
  \<open>src/include/runtime/EnginePayloadValue.hpp\<close> and \<open>src/src/runtime/EngineOutputSerializer.cpp\<close>:
  the payload values of the output records and their JSON text.  Every function that appends to
  the stream is the text it appends.  The section on the round trip relates it to the parser
  of \<open>Json\<close>.
\<close>

section \<open>Payload values\<close>

datatype payload_value =
    PNull
  | PBool bool
  | PNumber string
  | PString string
  | PArray "payload_value list"
  | PObject "(string \<times> payload_value) list"

definition payload_integer :: "int64 \<Rightarrow> payload_value" where
  "payload_integer i = PNumber (to_string i)"

fun payload_as_bool :: "payload_value \<Rightarrow> bool option" where
  "payload_as_bool (PBool b) = Some b" | "payload_as_bool _ = None"

fun payload_as_number :: "payload_value \<Rightarrow> string option" where
  "payload_as_number (PNumber t) = Some t" | "payload_as_number _ = None"

fun payload_as_string :: "payload_value \<Rightarrow> string option" where
  "payload_as_string (PString t) = Some t" | "payload_as_string _ = None"

fun payload_as_array :: "payload_value \<Rightarrow> payload_value list option" where
  "payload_as_array (PArray vs) = Some vs" | "payload_as_array _ = None"

fun payload_as_object :: "payload_value \<Rightarrow> (string \<times> payload_value) list option" where
  "payload_as_object (PObject es) = Some es" | "payload_as_object _ = None"

definition payload_value_equals_string :: "payload_value \<Rightarrow> string \<Rightarrow> bool" where
  "payload_value_equals_string left right =
     (case payload_as_string left of None \<Rightarrow> False | Some t \<Rightarrow> t = right)"

text \<open>An unordered map of fields is an association list without repeated keys.\<close>

type_synonym PayloadFields = "(string \<times> payload_value) list"

record EngineOutputRecord =
  eo_topic :: string
  eo_type :: string
  eo_key :: string
  eo_partition :: "int32 option"
  eo_payload :: PayloadFields

section \<open>The serializer\<close>

definition hex_char :: "nat \<Rightarrow> char" where
  "hex_char n = ''0123456789abcdef'' ! n"

definition escape_char :: "char \<Rightarrow> string" where
  "escape_char c =
     (if c = CHR 0x22 then [CHR 0x5C, CHR 0x22]
      else if c = CHR 0x5C then [CHR 0x5C, CHR 0x5C]
      else if c = CHR 0x08 then [CHR 0x5C, CHR ''b'']
      else if c = CHR 0x0C then [CHR 0x5C, CHR ''f'']
      else if c = CHR 0x0A then [CHR 0x5C, CHR ''n'']
      else if c = CHR 0x0D then [CHR 0x5C, CHR ''r'']
      else if c = CHR 0x09 then [CHR 0x5C, CHR ''t'']
      else let n = (of_char c :: nat) in
        if n < 0x20 then [CHR 0x5C, CHR ''u'', CHR ''0'', CHR ''0'', hex_char (n div 16), hex_char (n mod 16)]
        else [c])"

definition json_string :: "string \<Rightarrow> string" where
  "json_string value = CHR 0x22 # concat (map escape_char value) @ [CHR 0x22]"

definition integer_payload_fields :: "string list" where
  "integer_payload_fields =
     [''account_id'', ''amount'', ''base_asset_id'', ''credit_amount'', ''debit_amount'',
      ''engine_sequence'', ''engine_timestamp_ms'', ''fill_id'', ''index_price'', ''interval_end_ms'',
      ''interval_start_ms'', ''leverage'', ''maker_order_id'', ''maker_user_id'', ''market_id'',
      ''order_id'', ''position_id'', ''price'', ''quantity'', ''quote_asset_id'', ''released_amount'',
      ''released_quantity'', ''source_input_offset'', ''source_sequence'', ''source_timestamp_ms'',
      ''taker_order_id'', ''taker_user_id'', ''trade_id'', ''user_id'', ''wallet_id'', ''entry_price'',
      ''exit_price'', ''mark_price'', ''published_at_ms'', ''rate'', ''rate_scale'', ''valid_until_ms'']"

definition is_integer_payload_field :: "string \<Rightarrow> bool" where
  "is_integer_payload_field field \<longleftrightarrow> List.member integer_payload_fields field"

definition is_json_integer :: "string \<Rightarrow> bool" where
  "is_json_integer value =
     (if value = [] then False
      else let negative = (hd value = CHR ''-''); ds = (if negative then tl value else value) in
        if ds = [] then False
        else if hd ds = CHR ''0'' \<and> length ds > 1 then False
        else list_all is_digit ds)"

text \<open>The scan of \<open>is_json_number\<close>, as the rest of the text after each part.\<close>

definition scan_digits :: "string \<Rightarrow> string option" where
  "scan_digits s = (if digit_next s then Some (dropWhile is_digit s) else None)"

definition scan_integer :: "string \<Rightarrow> string option" where
  "scan_integer s =
     (let s = (if hd s = CHR ''-'' then tl s else s) in
      if s = [] then None
      else if hd s = CHR ''0'' then Some (tl s)
      else if is_digit (hd s) then scan_digits s
      else None)"

definition scan_fraction_part :: "string \<Rightarrow> string option" where
  "scan_fraction_part s = (if peek_is (CHR ''.'') s then scan_digits (tl s) else Some s)"

definition scan_exponent_part :: "string \<Rightarrow> string option" where
  "scan_exponent_part s =
     (if peek_is (CHR ''e'') s \<or> peek_is (CHR ''E'') s then
        (let s = tl s in scan_digits (if peek_is (CHR ''+'') s \<or> peek_is (CHR ''-'') s then tl s else s))
      else Some s)"

definition is_json_number :: "string \<Rightarrow> bool" where
  "is_json_number value =
     (if value = [] then False
      else do { s \<leftarrow> scan_integer value; s \<leftarrow> scan_fraction_part s; scan_exponent_part s } = Some [])"

definition string_value_text :: "string \<Rightarrow> string \<Rightarrow> string" where
  "string_value_text field value =
     (if is_integer_payload_field field \<and> is_json_integer value then value else json_string value)"

fun payload_value_text :: "string \<Rightarrow> payload_value \<Rightarrow> string"
  and payload_array_text :: "bool \<Rightarrow> payload_value list \<Rightarrow> string"
  and payload_object_text :: "bool \<Rightarrow> (string \<times> payload_value) list \<Rightarrow> string" where
  "payload_value_text field PNull = ''null''"
| "payload_value_text field (PBool b) = (if b then ''true'' else ''false'')"
| "payload_value_text field (PNumber t) = (if is_json_number t then t else json_string t)"
| "payload_value_text field (PString t) = string_value_text field t"
| "payload_value_text field (PArray vs) = CHR ''['' # payload_array_text True vs @ [CHR '']'']"
| "payload_value_text field (PObject es) = CHR ''{'' # payload_object_text True es @ [CHR ''}'']"
| "payload_array_text first [] = []"
| "payload_array_text first (v # vs) =
     (if first then [] else [CHR '','']) @ payload_value_text [] v @ payload_array_text False vs"
| "payload_object_text first [] = []"
| "payload_object_text first (e # es) =
     (if first then [] else [CHR '','']) @ json_string (fst e) @ CHR '':'' #
       payload_value_text (fst e) (snd e) @ payload_object_text False es"

definition serialize_engine_output_record :: "EngineOutputRecord \<Rightarrow> string" where
  "serialize_engine_output_record r =
     [CHR ''{'', CHR 0x22] @ ''type'' @ [CHR 0x22, CHR '':''] @ json_string (eo_type r) @
     [CHR '','', CHR 0x22] @ ''payload'' @ [CHR 0x22, CHR '':'', CHR ''{''] @
     payload_object_text True (sort_key fst (eo_payload r)) @ ''}}''"

section \<open>The round trip\<close>

text \<open>
  The JSON value a payload value is written as: texts of integer fields that look like integers
  become numbers, and number texts that are no JSON number become strings.
\<close>

fun json_of :: "string \<Rightarrow> payload_value \<Rightarrow> json_value"
  and json_of_list :: "payload_value list \<Rightarrow> json_value list"
  and json_of_fields :: "(string \<times> payload_value) list \<Rightarrow> (string \<times> json_value) list" where
  "json_of field PNull = JNull"
| "json_of field (PBool b) = JBool b"
| "json_of field (PNumber t) = (if is_json_number t then JNumber t else JString t)"
| "json_of field (PString t) =
     (if is_integer_payload_field field \<and> is_json_integer t then JNumber t else JString t)"
| "json_of field (PArray vs) = JArray (json_of_list vs)"
| "json_of field (PObject es) = JObject (json_of_fields es)"
| "json_of_list [] = []"
| "json_of_list (v # vs) = json_of [] v # json_of_list vs"
| "json_of_fields [] = []"
| "json_of_fields (e # es) = (fst e, json_of (fst e) (snd e)) # json_of_fields es"

text \<open>Objects are \<open>std::map\<close>s: their keys are strictly increasing.\<close>

fun payload_ok :: "payload_value \<Rightarrow> bool"
  and payload_list_ok :: "payload_value list \<Rightarrow> bool"
  and payload_fields_ok :: "(string \<times> payload_value) list \<Rightarrow> bool" where
  "payload_ok PNull = True"
| "payload_ok (PBool b) = True"
| "payload_ok (PNumber t) = True"
| "payload_ok (PString t) = True"
| "payload_ok (PArray vs) = payload_list_ok vs"
| "payload_ok (PObject es) = (sm_ok es \<and> payload_fields_ok es)"
| "payload_list_ok [] = True"
| "payload_list_ok (v # vs) = (payload_ok v \<and> payload_list_ok vs)"
| "payload_fields_ok [] = True"
| "payload_fields_ok (e # es) = (payload_ok (snd e) \<and> payload_fields_ok es)"

subsection \<open>Strings\<close>

lemma hex_value_hex_char: "n < 16 \<Longrightarrow> hex_value (hex_char n) = Inr n"
proof -
  have "\<forall>n \<in> set [0..<16]. hex_value (hex_char n) = Inr n" by code_simp
  then show "n < 16 \<Longrightarrow> ?thesis" by simp
qed

lemma hex_digits_low:
  assumes "n < 32"
  shows "hex_digits 0 [CHR ''0'', CHR ''0'', hex_char (n div 16), hex_char (n mod 16)] = Inr (of_nat n)"
proof -
  have "\<forall>n \<in> set [0..<32]. push_bit 4 (of_nat (n div 16)) OR of_nat (n mod 16) = (of_nat n :: u16)"
    by (simp add: upt_rec)
  then have "push_bit 4 (of_nat (n div 16)) OR of_nat (n mod 16) = (of_nat n :: u16)" using assms by simp
  moreover have "hex_value (CHR ''0'') = Inr 0" by (simp add: hex_value_def Let_def)
  moreover have "n div 16 < 16" "n mod 16 < 16" using assms by auto
  ultimately show ?thesis by (simp add: hex_value_hex_char)
qed

lemma unicode_escape_low:
  assumes "n < 32"
  shows "unicode_escape (CHR ''0'' # CHR ''0'' # hex_char (n div 16) # hex_char (n mod 16) # s) =
    Inr ([char_of n], s)"
proof -
  have u: "unat (of_nat n :: u16) = n" using assms by (simp add: unat_of_nat take_bit_nat_eq_self)
  have "\<not> is_high_surrogate (of_nat n)" "\<not> is_low_surrogate (of_nat n)"
    using assms u by (auto simp: is_high_surrogate_def is_low_surrogate_def word_le_nat_alt)
  moreover have "utf8 (ucast (of_nat n :: u16)) = [char_of n]"
    using assms u by (simp add: utf8_def byte_char_def word_le_nat_alt unsigned_ucast_eq take_bit_nat_eq_self)
  ultimately show ?thesis
    using hex_digits_low [OF assms] by (simp add: unicode_escape_def parse_hex_code_unit_def)
qed

lemma string_body_escape:
  "string_body acc (escape_char c @ s) = string_body (acc @ [c]) s"
proof -
  have "\<lbrakk>c \<noteq> CHR 0x22; c \<noteq> CHR 0x5C; c \<noteq> CHR 0x08; c \<noteq> CHR 0x0C; c \<noteq> CHR 0x0A; c \<noteq> CHR 0x0D;
      c \<noteq> CHR 0x09; (of_char c :: nat) < 0x20\<rbrakk> \<Longrightarrow> ?thesis"
    using unicode_escape_low [of "of_char c" s] by (simp add: escape_char_def parse_escape_def Let_def)
  then show ?thesis
    by (simp add: escape_char_def parse_escape_def Let_def)
qed

lemma string_body_text:
  "string_body acc (concat (map escape_char v) @ CHR 0x22 # s) = Inr (acc @ v, s)"
  by (induction v arbitrary: acc) (simp_all add: string_body_escape)

lemma parse_string_json_string [simp]: "parse_string (json_string v @ s) = Inr (v, s)"
  by (simp add: parse_string_def json_string_def expect_def peek_is_def string_body_text)

subsection \<open>Numbers\<close>

definition ends_value :: "string \<Rightarrow> bool" where
  "ends_value s \<longleftrightarrow> s \<noteq> [] \<and> (hd s = CHR '','' \<or> hd s = CHR '']'' \<or> hd s = CHR ''}'')"

lemma ends_valueD:
  assumes "ends_value s"
  shows "\<not> digit_next s" "\<not> peek_is (CHR ''.'') s" "\<not> peek_is (CHR ''e'') s" "\<not> peek_is (CHR ''E'') s"
    "\<not> peek_is (CHR ''+'') s" "\<not> peek_is (CHR ''-'') s"
  using assms by (auto simp: ends_value_def digit_next_def peek_is_def is_digit_def)

lemma digit_next_append: "\<not> digit_next r \<Longrightarrow> digit_next (t @ r) = digit_next t"
  by (cases t) (simp_all add: digit_next_def)

lemma peek_append: "\<not> peek_is c r \<Longrightarrow> peek_is c (t @ r) = peek_is c t"
  by (cases t) (simp_all add: peek_is_def)

lemma consume_digits_append: "\<not> digit_next r \<Longrightarrow> consume_digits (t @ r) = consume_digits t @ r"
  by (induction t) (auto simp: consume_digits_def digit_next_def dropWhile_eq_self_iff)

lemma sign_append:
  assumes "\<not> peek_is (CHR ''+'') r" "\<not> peek_is (CHR ''-'') r"
  shows "(if peek_is (CHR ''+'') (u @ r) \<or> peek_is (CHR ''-'') (u @ r) then tl (u @ r) else u @ r) =
    (if peek_is (CHR ''+'') u \<or> peek_is (CHR ''-'') u then tl u else u) @ r"
  using assms by (cases u) (auto simp: peek_is_def)

lemma number_parts_append:
  assumes "ends_value r"
  shows "scan_fraction_part t = Some t' \<Longrightarrow> number_fraction (t @ r) = Inr (t' @ r)"
    and "scan_exponent_part t = Some t' \<Longrightarrow> number_exponent (t @ r) = Inr (t' @ r)"
proof -
  note e = ends_valueD [OF assms]
  show "scan_fraction_part t = Some t' \<Longrightarrow> number_fraction (t @ r) = Inr (t' @ r)"
    using e by (cases t) (auto simp: scan_fraction_part_def scan_digits_def number_fraction_def peek_is_def
        digit_next_append consume_digits_append consume_digits_def [symmetric] split: if_splits)
  show "scan_exponent_part t = Some t' \<Longrightarrow> number_exponent (t @ r) = Inr (t' @ r)"
  proof (cases "peek_is (CHR ''e'') t \<or> peek_is (CHR ''E'') t")
    case False
    then show "scan_exponent_part t = Some t' \<Longrightarrow> ?thesis"
      using e by (simp add: scan_exponent_part_def number_exponent_def peek_append)
  next
    case True
    define u where "u = (if peek_is (CHR ''+'') (tl t) \<or> peek_is (CHR ''-'') (tl t) then tl (tl t) else tl t)"
    have "t \<noteq> []" using True by (auto simp: peek_is_def)
    then have "number_exponent (t @ r) =
        (if \<not> digit_next (u @ r) then Inl ''expected exponent digits'' else Inr (consume_digits (u @ r)))"
      using True e sign_append [OF e(5,6), of "tl t"]
      by (simp add: number_exponent_def peek_append Let_def u_def)
    moreover assume "scan_exponent_part t = Some t'"
    then have "digit_next u" "t' = consume_digits u"
      using True by (auto simp: scan_exponent_part_def scan_digits_def Let_def consume_digits_def
          simp flip: u_def split: if_splits)
    ultimately show ?thesis
      using e(1) by (simp add: digit_next_append consume_digits_append)
  qed
qed

lemma json_number_head: "is_json_number t \<Longrightarrow> t \<noteq> [] \<and> (hd t = CHR ''-'' \<or> is_digit (hd t))"
  by (auto simp: is_json_number_def scan_integer_def Let_def bind_eq_Some_conv split: if_splits)

lemma scan_fraction_digit: "scan_fraction_part t = Some t' \<Longrightarrow> digit_next t' \<Longrightarrow> digit_next t"
  using hd_dropWhile [of is_digit "tl t"]
  by (auto simp: scan_fraction_part_def scan_digits_def digit_next_def peek_is_def split: if_splits)

lemma scan_exponent_digit: "scan_exponent_part t = Some [] \<Longrightarrow> \<not> digit_next t"
  by (cases t) (auto simp: scan_exponent_part_def digit_next_def peek_is_def is_digit_def split: if_splits)

lemma parse_number_json_number:
  assumes t: "is_json_number t" and r: "ends_value r"
  shows "parse_number (t @ r) = Inr (t, r)"
proof -
  note e = ends_valueD [OF r]
  obtain s1 s2 where s: "t \<noteq> []" "scan_integer t = Some s1" "scan_fraction_part s1 = Some s2"
      "scan_exponent_part s2 = Some []"
    using t by (auto simp: is_json_number_def bind_eq_Some_conv split: if_splits)
  define u where "u = (if hd t = CHR ''-'' then tl t else t)"
  have c: "snd (consume (CHR ''-'') (t @ r)) = u @ r"
    using s(1) by (auto simp: consume_def peek_is_def u_def)
  have u: "u \<noteq> []" "s1 = (if hd u = CHR ''0'' then tl u else dropWhile is_digit u)"
    "hd u = CHR ''0'' \<or> is_digit (hd u)"
    using s(2) by (auto simp: scan_integer_def scan_digits_def Let_def u_def digit_next_def split: if_splits)
  have nd: "\<not> digit_next s1"
    using scan_exponent_digit [OF s(4)] scan_fraction_digit [OF s(3)] s(3)
    by (auto simp: scan_fraction_part_def peek_is_def digit_next_def split: if_splits)
  have "number_integer (u @ r) = Inr (s1 @ r)"
  proof (cases "hd u = CHR ''0''")
    case True
    have "\<not> digit_next (tl u @ r)" using nd u(2) True digit_next_append [OF e(1)] by simp
    then show ?thesis using u True by (simp add: number_integer_def peek_is_def)
  next
    case False
    then show ?thesis
      using u consume_digits_append [OF e(1), of u]
      by (simp add: number_integer_def peek_is_def digit_next_def consume_digits_def)
  qed
  then show ?thesis
    using c number_parts_append(1) [OF r s(3)] number_parts_append(2) [OF r s(4)]
    by (simp add: parse_number_def)
qed

lemma is_json_integer_number: "is_json_integer t \<Longrightarrow> is_json_number t"
proof -
  assume t: "is_json_integer t"
  define ds where "ds = (if hd t = CHR ''-'' then tl t else t)"
  have ds: "t \<noteq> []" "ds \<noteq> []" "list_all is_digit ds" "hd ds = CHR ''0'' \<Longrightarrow> tl ds = []"
    using t by (auto simp: is_json_integer_def Let_def ds_def split: if_splits; cases "tl t"; cases t; auto)+
  have "is_digit (hd ds)" using ds(2,3) by (cases ds) auto
  moreover have "dropWhile is_digit ds = []" using ds(3) by (simp add: list_all_iff dropWhile_eq_Nil_conv)
  ultimately have "scan_integer t = Some []"
    using ds by (simp add: scan_integer_def scan_digits_def digit_next_def flip: ds_def)
  then show ?thesis
    using ds(1) by (simp add: is_json_number_def scan_fraction_part_def scan_exponent_part_def peek_is_def)
qed

subsection \<open>Values\<close>

lemma skip_nonspace: "s \<noteq> [] \<Longrightarrow> \<not> json_space (hd s) \<Longrightarrow> skip_whitespace s = s"
  by (cases s) (simp_all add: skip_whitespace_def)

lemma skip_ends [simp]: "ends_value s \<Longrightarrow> skip_whitespace s = s"
  by (rule skip_nonspace) (auto simp: ends_value_def json_space_def)

lemma digit_not_space: "is_digit c \<Longrightarrow> \<not> json_space c"
  by (auto simp: json_space_def)

lemma json_string_head: "json_string v = CHR 0x22 # tl (json_string v)" "json_string v \<noteq> []"
  by (simp_all add: json_string_def)

lemma parse_value_string:
  "parse_value (Suc n) (json_string v @ s) = Some (Inr (JString v, s))"
proof -
  have "skip_whitespace (json_string v @ s) = json_string v @ s"
    by (rule skip_nonspace) (simp_all add: json_string_def json_space_def)
  then show ?thesis
    by (simp add: parse_value.simps Let_def) (simp add: json_string_def)
qed

lemma parse_value_number:
  assumes "is_json_number t" "ends_value s"
  shows "parse_value (Suc n) (t @ s) = Some (Inr (JNumber t, s))"
proof -
  note h = json_number_head [OF assms(1)]
  have sk: "skip_whitespace (t @ s) = t @ s"
    using h by (intro skip_nonspace) (auto simp: json_space_def)
  have "hd (t @ s) = CHR ''-'' \<or> is_digit (hd (t @ s))" "t @ s \<noteq> []" using h by auto
  moreover from this have "hd (t @ s) \<notin> {CHR ''{'', CHR ''['', CHR 0x22, CHR ''t'', CHR ''f'', CHR ''n''}"
    by (auto simp: is_digit_def)
  ultimately show ?thesis
    using parse_number_json_number [OF assms] by (simp add: parse_value.simps Let_def sk)
qed

lemma parse_value_literal:
  "parse_value (Suc n) (''null'' @ s) = Some (Inr (JNull, s))"
  "parse_value (Suc n) (''true'' @ s) = Some (Inr (JBool True, s))"
  "parse_value (Suc n) (''false'' @ s) = Some (Inr (JBool False, s))"
  by (simp_all add: parse_value.simps Let_def skip_nonspace json_space_def parse_literal_def)

lemma ends_value_cons [simp]:
  "ends_value (CHR '','' # s)" "ends_value (CHR '']'' # s)" "ends_value (CHR ''}'' # s)"
  by (simp_all add: ends_value_def)

text \<open>The text of a value does not begin with what ends an array or an object.\<close>

lemma number_not_closing: "is_json_number t \<Longrightarrow> \<not> json_space (hd (t @ s)) \<and> hd (t @ s) \<noteq> CHR '']'' \<and>
    t @ s \<noteq> []"
  using json_number_head [of t] by (auto simp: json_space_def is_digit_def)

lemma value_text_head:
  "\<not> json_space (hd (payload_value_text f v @ s)) \<and> hd (payload_value_text f v @ s) \<noteq> CHR '']'' \<and>
     payload_value_text f v @ s \<noteq> []"
proof (cases v)
  case (PNumber t)
  then show ?thesis
    using number_not_closing [of t s] json_number_head [of t] by (simp add: json_string_def json_space_def)
next
  case (PString t)
  then show ?thesis
    using number_not_closing [of t s] is_json_integer_number [of t] json_number_head [of t]
    by (simp add: string_value_text_def json_string_def json_space_def)
qed (simp_all add: json_space_def)

lemma sm_assign_last:
  "sm_ok (es @ [(k, v)]) \<Longrightarrow> sm_assign k v es = es @ [(k, v)]"
  by (induction es) (auto simp: sm_ok_def sorted_wrt_append)

lemma sm_find_last: "sm_ok (es @ [(k, v)]) \<Longrightarrow> sm_find es k = None"
  by (auto simp: sm_find_None_iff sm_ok_def sorted_wrt_append)

lemma json_of_fields_keys [simp]: "map fst (json_of_fields es) = map fst es"
  by (induction es) simp_all

lemma array_text_next:
  "payload_array_text False vs = (if vs = [] then [] else CHR '','' # payload_array_text True vs)"
  by (cases vs) simp_all

lemma object_text_next:
  "payload_object_text False es = (if es = [] then [] else CHR '','' # payload_object_text True es)"
  by (cases es) simp_all

lemma array_text_head:
  "vs \<noteq> [] \<Longrightarrow> skip_whitespace (payload_array_text True vs @ s) = payload_array_text True vs @ s \<and>
     \<not> peek_is (CHR '']'') (payload_array_text True vs @ s)"
proof (cases vs)
  case (Cons v us)
  then show ?thesis
    using value_text_head [of "[]" v "payload_array_text False us @ s"]
    by (auto simp: peek_is_def intro!: skip_nonspace)
qed simp

lemma object_text_head:
  "es \<noteq> [] \<Longrightarrow> skip_whitespace (payload_object_text True es @ s) = payload_object_text True es @ s \<and>
     \<not> peek_is (CHR ''}'') (payload_object_text True es @ s)"
  by (cases es) (simp_all add: json_string_def skip_nonspace json_space_def peek_is_def)

lemma skip_text [simp]: "skip_whitespace (payload_value_text f v @ s) = payload_value_text f v @ s"
  by (rule skip_nonspace) (use value_text_head in blast)+

lemma parse_serialized:
  "payload_ok v \<Longrightarrow> ends_value s \<Longrightarrow> length (payload_value_text f v) < n \<Longrightarrow>
     parse_value n (payload_value_text f v @ s) = Some (Inr (json_of f v, s))"
  "payload_list_ok vs \<Longrightarrow> vs \<noteq> [] \<Longrightarrow> Suc (length (payload_array_text True vs)) < n \<Longrightarrow>
     parse_elements n acc (payload_array_text True vs @ CHR '']'' # s) = Some (Inr (acc @ json_of_list vs, s))"
  "payload_fields_ok es \<Longrightarrow> es \<noteq> [] \<Longrightarrow> length (payload_object_text True es) < n \<Longrightarrow>
     sm_ok (obj @ json_of_fields es) \<Longrightarrow>
     parse_members n obj (payload_object_text True es @ CHR ''}'' # s) = Some (Inr (obj @ json_of_fields es, s))"
proof (induction f v and "b :: bool" vs and "b :: bool" es arbitrary: n s and n acc s and n obj s
    rule: payload_value_text_payload_array_text_payload_object_text.induct)
  case (1 field)
  then show ?case by (cases n) (simp_all add: parse_value_literal(1) [simplified])
next
  case (2 field b)
  then show ?case
    by (cases n) (simp_all add: parse_value_literal(2,3) [simplified])
next
  case (3 field t)
  then show ?case by (cases n) (simp_all add: parse_value_number parse_value_string)
next
  case (4 field t)
  then show ?case
    by (cases n) (simp_all add: parse_value_number parse_value_string string_value_text_def is_json_integer_number)
next
  case (5 field vs)
  then obtain m where n: "n = Suc m" by (cases n) auto
  show ?case
  proof (cases "vs = []")
    case True
    then show ?thesis using n by (simp add: parse_value.simps Let_def skip_nonspace json_space_def peek_is_def)
  next
    case False
    have "parse_elements m [] (payload_array_text True vs @ CHR '']'' # s) = Some (Inr ([] @ json_of_list vs, s))"
      by (rule "5.IH") (use "5.prems" False n in auto)
    then show ?thesis
      using n array_text_head [OF False] by (simp add: parse_value.simps Let_def skip_nonspace json_space_def)
  qed
next
  case (6 field es)
  then obtain m where n: "n = Suc m" by (cases n) auto
  show ?case
  proof (cases "es = []")
    case True
    then show ?thesis using n by (simp add: parse_value.simps Let_def skip_nonspace json_space_def peek_is_def)
  next
    case False
    have "sm_ok (json_of_fields es)" using "6.prems"(1) by (simp add: sm_ok_def)
    then have "parse_members m [] (payload_object_text True es @ CHR ''}'' # s) = Some (Inr ([] @ json_of_fields es, s))"
      by (intro "6.IH") (use "6.prems" False n in auto)
    then show ?thesis
      using n object_text_head [OF False] by (simp add: parse_value.simps Let_def skip_nonspace json_space_def)
  qed
next
  case (8 first v vs)
  then obtain m where n: "n = Suc m" by (cases n) auto
  let ?rest = "payload_array_text False vs @ CHR '']'' # s"
  have er: "ends_value ?rest" by (simp add: array_text_next)
  have v: "parse_value m (payload_value_text [] v @ ?rest) = Some (Inr (json_of [] v, ?rest))"
    by (rule "8.IH"(1)) (use "8.prems" n er in auto)
  show ?case
  proof (cases "vs = []")
    case True
    then show ?thesis using v n er by (simp add: parse_elements.simps Let_def peek_is_def)
  next
    case False
    have "parse_elements m (acc @ [json_of [] v]) (payload_array_text True vs @ CHR '']'' # s) =
        Some (Inr ((acc @ [json_of [] v]) @ json_of_list vs, s))"
      by (rule "8.IH"(2)) (use "8.prems" n False in \<open>auto simp: array_text_next\<close>)
    then show ?thesis
      using v n er False by (simp add: parse_elements.simps Let_def peek_is_def array_text_next expect_def)
  qed
next
  case (10 first e es)
  then obtain m where n: "n = Suc m" by (cases n) auto
  let ?k = "fst e" and ?v = "snd e"
  let ?rest = "payload_object_text False es @ CHR ''}'' # s"
  let ?obj = "obj @ [(?k, json_of ?k ?v)]"
  have er: "ends_value ?rest" by (simp add: object_text_next)
  have v: "parse_value m (payload_value_text ?k ?v @ ?rest) = Some (Inr (json_of ?k ?v, ?rest))"
    by (rule "10.IH"(1)) (use "10.prems" n er in auto)
  have ok: "sm_ok ?obj" using "10.prems"(4) by (simp add: sm_ok_def sorted_wrt_append)
  note asg = sm_assign_last [OF ok] sm_find_last [OF ok]
  have head: "skip_whitespace (json_string ?k @ r) = json_string ?k @ r" "peek_is (CHR 0x22) (json_string ?k @ r)" for r
    by (simp_all add: json_string_def skip_nonspace json_space_def peek_is_def)
  have colon: "skip_whitespace (CHR '':'' # r) = CHR '':'' # r" for r
    by (simp add: skip_nonspace json_space_def)
  show ?case
  proof (cases "es = []")
    case True
    then show ?thesis
      using v n er asg head colon by (simp add: parse_members.simps Let_def peek_is_def expect_def)
  next
    case False
    have "parse_members m ?obj (payload_object_text True es @ CHR ''}'' # s) =
        Some (Inr (?obj @ json_of_fields es, s))"
      by (rule "10.IH"(2)) (use "10.prems" n False in \<open>auto simp: object_text_next\<close>)
    then show ?thesis
      using v n er asg head colon False
      by (simp add: parse_members.simps Let_def peek_is_def object_text_next expect_def)
  qed
qed simp_all

text \<open>The record as a whole: an object with the type and the payload sorted by field.\<close>

lemma sort_key_sm_ok: "um_ok es \<Longrightarrow> sm_ok (sort_key fst es)"
proof -
  assume "um_ok es"
  then have "distinct (map fst (sort_key fst es))" by (simp add: um_ok_def distinct_map)
  then show ?thesis by (simp add: sm_ok_def strict_sorted_iff)
qed

lemma payload_fields_ok_iff: "payload_fields_ok es \<longleftrightarrow> (\<forall>e \<in> set es. payload_ok (snd e))"
  by (induction es) auto

definition record_json :: "EngineOutputRecord \<Rightarrow> json_value" where
  "record_json r = JObject [(''payload'', JObject (json_of_fields (sort_key fst (eo_payload r)))),
     (''type'', JString (eo_type r))]"

lemma parse_members_step:
  assumes "parse_value m t = Some (Inr (v, r))" "sm_find obj k = None" "ends_value r"
  shows "parse_members (Suc m) obj (json_string k @ CHR '':'' # t) =
    (if peek_is (CHR ''}'') r then Some (Inr (sm_assign k v obj, tl r))
     else tbind (Some (expect (CHR '','') r)) (\<lambda>s. parse_members m (sm_assign k v obj) s))"
proof -
  have head: "skip_whitespace (json_string k @ s) = json_string k @ s" "peek_is (CHR 0x22) (json_string k @ s)" for s
    by (simp_all add: json_string_def skip_nonspace json_space_def peek_is_def)
  have colon: "skip_whitespace (CHR '':'' # s) = CHR '':'' # s" "expect (CHR '':'') (CHR '':'' # s) = Inr s" for s
    by (simp_all add: skip_nonspace json_space_def expect_def peek_is_def)
  show ?thesis
    using assms by (simp add: parse_members.simps Let_def head colon)
qed

lemma parse_serialized_record:
  assumes "um_ok (eo_payload r)" "payload_fields_ok (eo_payload r)"
  shows "parse_json (serialize_engine_output_record r) = Inr (record_json r)"
proof -
  let ?es = "sort_key fst (eo_payload r)"
  let ?p = "payload_value_text ''payload'' (PObject ?es)"
  let ?out = "serialize_engine_output_record r"
  have es: "sm_ok ?es" "payload_fields_ok ?es"
    using sort_key_sm_ok [OF assms(1)] assms(2) by (simp_all add: payload_fields_ok_iff)
  have keys: "json_string ''type'' = CHR 0x22 # ''type'' @ [CHR 0x22]"
    "json_string ''payload'' = CHR 0x22 # ''payload'' @ [CHR 0x22]"
    by (simp_all add: json_string_def escape_char_def Let_def)
  have whole: "?out = CHR ''{'' # json_string ''type'' @ CHR '':'' # json_string (eo_type r) @ CHR '','' #
      json_string ''payload'' @ CHR '':'' # ?p @ [CHR ''}'']"
    by (simp add: serialize_engine_output_record_def keys)
  obtain n where n: "2 * length ?out = Suc (Suc (Suc n))" "length ?p < Suc n"
  proof -
    have "length ?out \<ge> length ?p + 10" by (simp add: whole keys)
    then show thesis by (intro that [of "2 * length ?out - 3"]) linarith+
  qed
  have p: "parse_value (Suc n) (?p @ [CHR ''}'']) = Some (Inr (JObject (json_of_fields ?es), [CHR ''}'']))"
    using parse_serialized(1) [of "PObject ?es" "[CHR ''}'']" "''payload''" "Suc n"] es n(2) by simp
  have m2: "parse_members (Suc (Suc n)) [(''type'', JString (eo_type r))]
      (json_string ''payload'' @ CHR '':'' # ?p @ [CHR ''}'']) =
      Some (Inr ([(''payload'', JObject (json_of_fields ?es)), (''type'', JString (eo_type r))], []))"
    using parse_members_step [OF p, of "[(''type'', JString (eo_type r))]" "''payload''"]
    by (simp add: sm_find_def peek_is_def)
  have v1: "parse_value (Suc (Suc n)) (json_string (eo_type r) @
      CHR '','' # json_string ''payload'' @ CHR '':'' # ?p @ [CHR ''}'']) = Some (Inr (JString (eo_type r),
      CHR '','' # json_string ''payload'' @ CHR '':'' # ?p @ [CHR ''}'']))"
    by (rule parse_value_string)
  have m1: "parse_members (Suc (Suc (Suc n))) []
      (json_string ''type'' @ CHR '':'' # json_string (eo_type r) @ CHR '','' #
       json_string ''payload'' @ CHR '':'' # ?p @ [CHR ''}'']) =
      Some (Inr ([(''payload'', JObject (json_of_fields ?es)), (''type'', JString (eo_type r))], []))"
    using parse_members_step [OF v1, of "[]" "''type''"] m2
    by (simp add: sm_find_def peek_is_def expect_def)
  have "skip_whitespace ?out = ?out" "skip_whitespace (tl ?out) = tl ?out" "hd ?out = CHR ''{''" "?out \<noteq> []"
    "\<not> peek_is (CHR ''}'') (tl ?out)"
    by (simp_all add: whole keys skip_nonspace json_space_def peek_is_def)
  then have "parse_value (Suc (2 * length ?out)) ?out = Some (Inr (record_json r, []))"
    using m1 unfolding n(1) by (simp add: parse_value.simps(2) Let_def record_json_def) (simp add: whole)
  then show ?thesis by (simp add: parse_json_def skip_whitespace_def)
qed

end
