(* ===== verification/Adapter.thy ===== *)
theory Adapter
  imports Text CoreTypes
begin

text \<open>
  \<open>src/include/adapter/EngineAdapter.hpp\<close>, \<open>src/src/adapter/EngineAdapter.cpp\<close>: the commands as
  the outside sends them, their translation into core commands, the metadata kept per order and
  the public sequence numbers per market.  A \<open>std::invalid_argument\<close> is \<open>Inl\<close> of its message.
\<close>

section \<open>The inputs\<close>

type_synonym MarketId = int64
type_synonym AdapterUserId = int64
type_synonym AdapterOrderId = int64
type_synonym AdapterPrice = int64
type_synonym AdapterQuantity = int64

datatype BrokerTopic = EngineInput | EngineReplies | EngineEvents

record BrokerRecordContext =
  bc_topic :: BrokerTopic
  bc_partition :: int32
  bc_offset :: int64
  bc_key :: "string option"

datatype AdapterSide = Long | Short
datatype AdapterOrderType = ALimit | AMarket
datatype AdapterTimeInForce = AGtc | AIoc | AFok | APostOnly

record CommandEnvelope =
  ce_request_id :: string
  ce_idempotency_key :: string
  ce_user_id :: AdapterUserId
  ce_reply_partition :: int32

record PlaceOrderInput =
  pi_input_id :: "string option"
  pi_envelope :: CommandEnvelope
  pi_order_id :: AdapterOrderId
  pi_reservation_id :: string
  pi_market_id :: MarketId
  pi_market_name :: string
  pi_side :: AdapterSide
  pi_order_type :: AdapterOrderType
  pi_time_in_force :: AdapterTimeInForce
  pi_price :: AdapterPrice
  pi_quantity :: AdapterQuantity
  pi_reduce_only :: bool
  pi_margin_asset :: string
  pi_reserved_margin_amount :: int64
  pi_leverage :: int32
  pi_source :: "BrokerRecordContext option"

record CancelOrderInput =
  ci_input_id :: "string option"
  ci_envelope :: CommandEnvelope
  ci_market_id :: MarketId
  ci_order_id :: AdapterOrderId
  ci_source :: "BrokerRecordContext option"

record LiquidatePositionInput =
  li_input_id :: "string option"
  li_envelope :: CommandEnvelope
  li_liquidation_id :: string
  li_market_id :: MarketId
  li_market_name :: string
  li_liquidated_user_id :: AdapterUserId
  li_position_side :: AdapterSide
  li_quantity :: AdapterQuantity
  li_price :: AdapterPrice
  li_request_source :: "string option"
  li_source :: "BrokerRecordContext option"

record MarkPriceUpdatedInput =
  mi_input_id :: "string option"
  mi_market_id :: MarketId
  mi_mark_price :: AdapterPrice
  mi_index_price :: AdapterPrice
  mi_source_timestamp_ms :: int64
  mi_published_at_ms :: int64
  mi_valid_until_ms :: int64
  mi_source_sequence :: int64
  mi_source_status :: string
  mi_source :: "BrokerRecordContext option"

record FundingRateUpdatedInput =
  fi_input_id :: "string option"
  fi_market_id :: MarketId
  fi_funding_interval_id :: string
  fi_rate :: int64
  fi_rate_scale :: int64
  fi_interval_start_ms :: int64
  fi_interval_end_ms :: int64
  fi_source_timestamp_ms :: int64
  fi_source :: "BrokerRecordContext option"

record FundingSettlementTickInput =
  ti_input_id :: "string option"
  ti_market_id :: MarketId
  ti_funding_interval_id :: string
  ti_settle_at_ms :: int64
  ti_source :: "BrokerRecordContext option"

record OrderMetadata =
  om_order_id :: OrderId
  om_market_id :: MarketId
  om_user_id :: AdapterUserId
  om_side :: AdapterSide
  om_original_quantity :: AdapterQuantity
  om_remaining_quantity :: AdapterQuantity
  om_reduce_only :: bool
  om_margin_asset :: string
  om_reserved_margin_amount :: int64
  om_remaining_reserved_margin :: int64
  om_leverage :: int32
  om_reservation_id :: string
  om_place_request_id :: string
  om_place_idempotency_key :: string
  om_place_input_id :: "string option"
  om_reply_partition :: int32
  om_core_client_order_id :: ClientOrderId
  om_core_place_command_id :: CommandId

section \<open>The metadata store\<close>

type_synonym OrderMetadataStore = "(OrderId \<times> OrderMetadata) list"

definition metadata_insert :: "OrderMetadata \<Rightarrow> OrderMetadataStore \<Rightarrow> bool \<times> OrderMetadataStore" where
  "metadata_insert m st = um_emplace (om_order_id m) m st"

definition metadata_find :: "OrderId \<Rightarrow> OrderMetadataStore \<Rightarrow> OrderMetadata option" where
  "metadata_find i st = um_find st i"

definition metadata_erase :: "OrderId \<Rightarrow> OrderMetadataStore \<Rightarrow> bool \<times> OrderMetadataStore" where
  "metadata_erase i st = (um_find st i \<noteq> None, um_erase i st)"

definition metadata_size :: "OrderMetadataStore \<Rightarrow> nat" where
  "metadata_size st = length st"

section \<open>Public sequence numbers\<close>

record MarketSequenceGenerator =
  ms_first_sequence :: EngineSequence
  ms_next_by_market :: "(MarketId \<times> EngineSequence) list"

definition make_market_sequences :: "EngineSequence \<Rightarrow> MarketSequenceGenerator" where
  "make_market_sequences first =
     \<lparr>ms_first_sequence = (if first = 0 then 1 else first), ms_next_by_market = []\<rparr>"

definition market_peek :: "MarketId \<Rightarrow> MarketSequenceGenerator \<Rightarrow> string + EngineSequence" where
  "market_peek m g =
     (if m \<le> 0 then Inl ''market_id must be positive''
      else Inr (case um_find (ms_next_by_market g) m of None \<Rightarrow> ms_first_sequence g | Some s \<Rightarrow> s))"

definition market_next ::
    "MarketId \<Rightarrow> MarketSequenceGenerator \<Rightarrow> string + (EngineSequence \<times> MarketSequenceGenerator)" where
  "market_next m g =
     (if m \<le> 0 then Inl ''market_id must be positive''
      else let entries = snd (um_emplace m (ms_first_sequence g) (ms_next_by_market g));
               sequence = (case um_find entries m of Some s \<Rightarrow> s | None \<Rightarrow> 0)
           in Inr (sequence, g\<lparr>ms_next_by_market := um_assign m (sequence + 1) entries\<rparr>))"

definition market_restore ::
    "MarketId \<Rightarrow> EngineSequence \<Rightarrow> MarketSequenceGenerator \<Rightarrow> string + MarketSequenceGenerator" where
  "market_restore m next g =
     (if m \<le> 0 then Inl ''market_id must be positive''
      else if next = 0 then Inl ''next_sequence must be positive''
      else Inr (g\<lparr>ms_next_by_market := um_assign m next (ms_next_by_market g)\<rparr>))"

definition market_snapshot :: "MarketSequenceGenerator \<Rightarrow> (MarketId \<times> EngineSequence) list" where
  "market_snapshot g = ms_next_by_market g"

section \<open>Translation into core commands\<close>

definition fnv_offset_basis :: u64 where "fnv_offset_basis = 14695981039346656037"
definition fnv_prime :: u64 where "fnv_prime = 1099511628211"

definition stable_string_id :: "string \<Rightarrow> u64" where
  "stable_string_id value =
     (let hash = foldl (\<lambda>hash c. (hash XOR of_nat (of_char c)) * fnv_prime) fnv_offset_basis value
      in if hash = 0 then 1 else hash)"

definition require_non_empty :: "string \<Rightarrow> string \<Rightarrow> string + unit" where
  "require_non_empty value field_name = require (value \<noteq> []) (field_name @ '' must not be empty'')"

definition to_core_symbol_id :: "MarketId \<Rightarrow> string + SymbolId" where
  "to_core_symbol_id m =
     (if m \<le> 0 \<or> m > 2 ^ 32 - 1 then Inl ''market_id is outside the core SymbolId range''
      else Inr (of_int m))"

definition to_core_user_id :: "AdapterUserId \<Rightarrow> string + UserId" where
  "to_core_user_id u =
     (if u < 0 then Inl ''user_id is outside the core UserId range'' else Inr (of_int u))"

definition to_core_order_id :: "AdapterOrderId \<Rightarrow> string + OrderId" where
  "to_core_order_id i = (if i \<le> 0 then Inl ''order_id must be positive'' else Inr (of_int i))"

definition to_core_price :: "AdapterPrice \<Rightarrow> AdapterOrderType \<Rightarrow> string + Price" where
  "to_core_price p ty =
     (if p < 0 then Inl ''price must not be negative''
      else if ty = ALimit \<and> p = 0 then Inl ''limit order price must be positive''
      else Inr p)"

definition to_core_quantity :: "AdapterQuantity \<Rightarrow> string + Quantity" where
  "to_core_quantity q = (if q \<le> 0 then Inl ''quantity must be positive'' else Inr (of_int q))"

fun to_core_side :: "AdapterSide \<Rightarrow> Side" where
  "to_core_side Long = Buy" | "to_core_side Short = Sell"

fun to_core_order_type :: "AdapterOrderType \<Rightarrow> OrderType" where
  "to_core_order_type ALimit = Limit" | "to_core_order_type AMarket = Market"

fun to_core_time_in_force :: "AdapterTimeInForce \<Rightarrow> TimeInForce" where
  "to_core_time_in_force AGtc = GTC" | "to_core_time_in_force AIoc = IOC"
| "to_core_time_in_force AFok = FOK" | "to_core_time_in_force APostOnly = PO"

definition validate_envelope :: "CommandEnvelope \<Rightarrow> string + unit" where
  "validate_envelope e =
     ebind (require_non_empty (ce_request_id e) ''request_id'') (\<lambda>_.
     ebind (require_non_empty (ce_idempotency_key e) ''idempotency_key'') (\<lambda>_.
     ebind (to_core_user_id (ce_user_id e)) (\<lambda>_. Inr ())))"

definition command_id_from_request_id :: "string \<Rightarrow> string + CommandId" where
  "command_id_from_request_id request_id =
     ebind (require_non_empty request_id ''request_id'') (\<lambda>_. Inr (stable_string_id request_id))"

definition client_order_id_from_idempotency_key :: "string \<Rightarrow> string + ClientOrderId" where
  "client_order_id_from_idempotency_key key =
     ebind (require_non_empty key ''idempotency_key'') (\<lambda>_. Inr (stable_string_id key))"

record MappedCommand =
  mc_command :: EngineCommand
  mc_metadata_to_record :: "OrderMetadata option"

definition place_metadata :: "PlaceOrderInput \<Rightarrow> OrderId \<Rightarrow> ClientOrderId \<Rightarrow> CommandId \<Rightarrow> OrderMetadata" where
  "place_metadata inp order_id client_order_id command_id = \<lparr>
     om_order_id = order_id, om_market_id = pi_market_id inp,
     om_user_id = ce_user_id (pi_envelope inp), om_side = pi_side inp,
     om_original_quantity = pi_quantity inp, om_remaining_quantity = pi_quantity inp,
     om_reduce_only = pi_reduce_only inp, om_margin_asset = pi_margin_asset inp,
     om_reserved_margin_amount = pi_reserved_margin_amount inp,
     om_remaining_reserved_margin = pi_reserved_margin_amount inp, om_leverage = pi_leverage inp,
     om_reservation_id = pi_reservation_id inp, om_place_request_id = ce_request_id (pi_envelope inp),
     om_place_idempotency_key = ce_idempotency_key (pi_envelope inp),
     om_place_input_id = pi_input_id inp, om_reply_partition = ce_reply_partition (pi_envelope inp),
     om_core_client_order_id = client_order_id, om_core_place_command_id = command_id\<rparr>"

definition map_place_order_to_core :: "PlaceOrderInput \<Rightarrow> EngineSequence \<Rightarrow> string + MappedCommand" where
  "map_place_order_to_core inp received_sequence =
     ebind (validate_envelope (pi_envelope inp)) (\<lambda>_.
     ebind (require_non_empty (pi_reservation_id inp) ''reservation_id'') (\<lambda>_.
     ebind (command_id_from_request_id (ce_request_id (pi_envelope inp))) (\<lambda>command_id.
     ebind (client_order_id_from_idempotency_key (ce_idempotency_key (pi_envelope inp))) (\<lambda>client_order_id.
     ebind (to_core_order_id (pi_order_id inp)) (\<lambda>order_id.
     ebind (to_core_user_id (ce_user_id (pi_envelope inp))) (\<lambda>user_id.
     ebind (to_core_symbol_id (pi_market_id inp)) (\<lambda>symbol_id.
     ebind (to_core_price (pi_price inp) (pi_order_type inp)) (\<lambda>price.
     ebind (to_core_quantity (pi_quantity inp)) (\<lambda>quantity.
       Inr \<lparr>mc_command = \<lparr>ec_kind = PlaceOrder,
              ec_placeOrder = Some \<lparr>pc_commandId = command_id, pc_clientOrderId = client_order_id,
                pc_orderId = order_id, pc_userId = user_id, pc_symbolId = symbol_id,
                pc_side = to_core_side (pi_side inp),
                pc_orderType = to_core_order_type (pi_order_type inp),
                pc_timeInForce = to_core_time_in_force (pi_time_in_force inp),
                pc_price = price, pc_quantity = quantity, pc_receivedSequence = received_sequence\<rparr>,
              ec_cancelOrder = None\<rparr>,
            mc_metadata_to_record = Some (place_metadata inp order_id client_order_id command_id)\<rparr>)))))))))"

definition map_cancel_order_to_core :: "CancelOrderInput \<Rightarrow> EngineSequence \<Rightarrow> string + MappedCommand" where
  "map_cancel_order_to_core inp received_sequence =
     ebind (validate_envelope (ci_envelope inp)) (\<lambda>_.
     ebind (command_id_from_request_id (ce_request_id (ci_envelope inp))) (\<lambda>command_id.
     ebind (to_core_user_id (ce_user_id (ci_envelope inp))) (\<lambda>user_id.
     ebind (to_core_symbol_id (ci_market_id inp)) (\<lambda>symbol_id.
     ebind (to_core_order_id (ci_order_id inp)) (\<lambda>order_id.
     ebind (client_order_id_from_idempotency_key (ce_idempotency_key (ci_envelope inp))) (\<lambda>client_order_id.
       Inr \<lparr>mc_command = \<lparr>ec_kind = CancelOrder, ec_placeOrder = None,
              ec_cancelOrder = Some \<lparr>cc_commandId = command_id, cc_userId = user_id,
                cc_symbolId = symbol_id, cc_orderId = order_id, cc_clientOrderId = client_order_id,
                cc_receivedSequence = received_sequence\<rparr>\<rparr>,
            mc_metadata_to_record = None\<rparr>))))))"

section \<open>Lemmas\<close>

lemma stable_string_id_nonzero [simp]: "stable_string_id s \<noteq> 0"
  by (simp add: stable_string_id_def Let_def)

lemma of_int_u64_pos: "in_i64 i \<Longrightarrow> 0 < i \<Longrightarrow> unat (of_int i :: u64) = nat i"
  by (simp add: unat_eq_nat_uint in_i64_def uint_word_of_int take_bit_int_eq_self)

text \<open>When a place command is accepted by the adapter, and what the core receives.\<close>

definition place_input_ok :: "PlaceOrderInput \<Rightarrow> bool" where
  "place_input_ok inp \<longleftrightarrow>
     ce_request_id (pi_envelope inp) \<noteq> [] \<and> ce_idempotency_key (pi_envelope inp) \<noteq> [] \<and>
     0 \<le> ce_user_id (pi_envelope inp) \<and> pi_reservation_id inp \<noteq> [] \<and> 0 < pi_order_id inp \<and>
     0 < pi_market_id inp \<and> pi_market_id inp < 2 ^ 32 \<and> 0 \<le> pi_price inp \<and>
     (pi_order_type inp = ALimit \<longrightarrow> 0 < pi_price inp) \<and> 0 < pi_quantity inp"

lemmas adapter_defs = validate_envelope_def require_non_empty_def command_id_from_request_id_def
  client_order_id_from_idempotency_key_def to_core_order_id_def to_core_user_id_def
  to_core_symbol_id_def to_core_price_def to_core_quantity_def require_def

lemma map_place_order_ok:
  "place_input_ok inp \<Longrightarrow> map_place_order_to_core inp sq =
     Inr \<lparr>mc_command = \<lparr>ec_kind = PlaceOrder,
              ec_placeOrder = Some \<lparr>pc_commandId = stable_string_id (ce_request_id (pi_envelope inp)),
                pc_clientOrderId = stable_string_id (ce_idempotency_key (pi_envelope inp)),
                pc_orderId = of_int (pi_order_id inp), pc_userId = of_int (ce_user_id (pi_envelope inp)),
                pc_symbolId = of_int (pi_market_id inp), pc_side = to_core_side (pi_side inp),
                pc_orderType = to_core_order_type (pi_order_type inp),
                pc_timeInForce = to_core_time_in_force (pi_time_in_force inp),
                pc_price = pi_price inp, pc_quantity = of_int (pi_quantity inp), pc_receivedSequence = sq\<rparr>,
              ec_cancelOrder = None\<rparr>,
          mc_metadata_to_record = Some (place_metadata inp (of_int (pi_order_id inp))
            (stable_string_id (ce_idempotency_key (pi_envelope inp)))
            (stable_string_id (ce_request_id (pi_envelope inp))))\<rparr>"
  by (auto simp: map_place_order_to_core_def adapter_defs place_input_ok_def)

lemma map_place_order_bad:
  "\<not> place_input_ok inp \<Longrightarrow> \<exists>e. map_place_order_to_core inp sq = Inl e"
  by (auto simp: map_place_order_to_core_def adapter_defs place_input_ok_def)

text \<open>The sequences of a market are consecutive and those of other markets do not move.\<close>

lemma market_next_peek:
  "0 < m \<Longrightarrow> \<exists>g'. market_next m g = Inr (projr (market_peek m g), g') \<and>
     market_peek m g' = Inr (projr (market_peek m g) + 1) \<and>
     (\<forall>k. k \<noteq> m \<longrightarrow> market_peek k g' = market_peek k g)"
  by (auto simp: market_next_def market_peek_def Let_def container_simps split: option.splits)

lemma market_restore_peek:
  "0 < m \<Longrightarrow> s \<noteq> 0 \<Longrightarrow> \<exists>g'. market_restore m s g = Inr g' \<and> market_peek m g' = Inr s \<and>
     (\<forall>k. k \<noteq> m \<longrightarrow> market_peek k g' = market_peek k g)"
  by (auto simp: market_restore_def market_peek_def container_simps split: option.splits)

lemma metadata_insert_find:
  "metadata_find i (snd (metadata_insert m st)) =
     (if i = om_order_id m \<and> metadata_find i st = None then Some m else metadata_find i st)"
  by (auto simp: metadata_insert_def metadata_find_def container_simps)

lemma metadata_erase_find:
  "metadata_find i (snd (metadata_erase k st)) = (if i = k then None else metadata_find i st)"
  by (simp add: metadata_erase_def metadata_find_def container_simps)

end
