(* ===== verification/InputParser.thy ===== *)
theory InputParser
  imports Json Adapter
begin

text \<open>
  \<open>src/src/protocol/Message.cpp\<close> and \<open>src/src/runtime/EngineInputParser.cpp\<close>: the envelope of a
  protocol message and the parser of the six kinds of engine input.  Whatever these functions
  throw is \<open>Inl\<close> of the message of the exception.
\<close>

section \<open>Protocol messages\<close>

datatype MessageClass = ClassInput | ClassReply | ClassEvent

record ProtocolMessage =
  msg_type :: string
  msg_payload :: json_value

text \<open>A text between single quotes, in a message.\<close>

definition quoted :: "string \<Rightarrow> string" where
  "quoted s = CHR 0x27 # s @ [CHR 0x27]"

definition parse_protocol_message :: "string \<Rightarrow> string + ProtocolMessage" where
  "parse_protocol_message s =
     ebind (parse_json s) (\<lambda>root.
       if as_object root = None then Inl ''protocol message root must be a JSON object''
       else (case map_option as_string (json_find root ''type'') of
           Some (Some ty) \<Rightarrow>
             if ty = [] then Inl ''protocol message type must not be empty''
             else (case json_find root ''payload'' of
                 Some payload \<Rightarrow>
                   if is_object payload then Inr \<lparr>msg_type = ty, msg_payload = payload\<rparr>
                   else Inl (''protocol message must contain top-level object field '' @ quoted ''payload'')
               | None \<Rightarrow> Inl (''protocol message must contain top-level object field '' @ quoted ''payload''))
         | _ \<Rightarrow> Inl (''protocol message must contain top-level string field '' @ quoted ''type'')))"

definition ends_with :: "string \<Rightarrow> string \<Rightarrow> bool" where
  "ends_with s suffix \<longleftrightarrow>
     length suffix \<le> length s \<and> drop (length s - length suffix) s = suffix"

definition classify_engine_fixture_path :: "string \<Rightarrow> MessageClass option" where
  "classify_engine_fixture_path filename =
     (if ends_with filename ''.command.json'' \<or> ends_with filename ''.input.json''
      then Some ClassInput
      else if ends_with filename ''.reply.json'' then Some ClassReply
      else if ends_with filename ''.event.json'' then Some ClassEvent
      else None)"

section \<open>Fields\<close>

definition field_path :: "string \<Rightarrow> string \<Rightarrow> string" where
  "field_path path field = path @ ''.'' @ field"

definition require_field :: "json_value \<Rightarrow> string \<Rightarrow> string \<Rightarrow> string + json_value" where
  "require_field obj field path =
     (case json_find obj field of
        None \<Rightarrow> Inl (field_path path field @ '' is required'')
      | Some v \<Rightarrow> Inr v)"

definition require_payload_field :: "ProtocolMessage \<Rightarrow> string \<Rightarrow> string + json_value" where
  "require_payload_field m field = require_field (msg_payload m) field ''payload''"

definition require_string :: "json_value \<Rightarrow> string \<Rightarrow> string \<Rightarrow> string + string" where
  "require_string obj field path =
     ebind (require_field obj field path) (\<lambda>v.
       case as_string v of
         Some t \<Rightarrow> if t = [] then Inl (field_path path field @ '' must be a non-empty string'') else Inr t
       | None \<Rightarrow> Inl (field_path path field @ '' must be a non-empty string''))"

definition require_payload_string :: "ProtocolMessage \<Rightarrow> string \<Rightarrow> string + string" where
  "require_payload_string m field =
     ebind (require_payload_field m field) (\<lambda>v.
       case as_string v of
         Some t \<Rightarrow> if t = [] then Inl (field_path ''payload'' field @ '' must be a non-empty string'') else Inr t
       | None \<Rightarrow> Inl (field_path ''payload'' field @ '' must be a non-empty string''))"

definition optional_payload_string :: "ProtocolMessage \<Rightarrow> string \<Rightarrow> string + string option" where
  "optional_payload_string m field =
     (case json_find (msg_payload m) field of
        None \<Rightarrow> Inr None
      | Some v \<Rightarrow>
          if is_null v then Inr None
          else (case as_string v of
              Some t \<Rightarrow>
                if t = [] then Inl (field_path ''payload'' field @ '' must be a non-empty string when present'')
                else Inr (Some t)
            | None \<Rightarrow> Inl (field_path ''payload'' field @ '' must be a non-empty string when present'')))"

definition parse_integer_text :: "string \<Rightarrow> string \<Rightarrow> string + int64" where
  "parse_integer_text s path =
     (case from_chars_i64 s of None \<Rightarrow> Inl (path @ '' must be an integer'') | Some i \<Rightarrow> Inr i)"

definition require_i64 :: "json_value \<Rightarrow> string \<Rightarrow> string \<Rightarrow> string + int64" where
  "require_i64 obj field path =
     ebind (require_field obj field path) (\<lambda>v.
       case as_number v of
         Some t \<Rightarrow> parse_integer_text t (field_path path field)
       | None \<Rightarrow> (case as_string v of
           Some t \<Rightarrow> parse_integer_text t (field_path path field)
         | None \<Rightarrow> Inl (field_path path field @ '' must be an integer'')))"

definition require_i32 :: "json_value \<Rightarrow> string \<Rightarrow> string \<Rightarrow> string + int32" where
  "require_i32 obj field path =
     ebind (require_i64 obj field path) (\<lambda>i.
       if i < - (2 ^ 31) \<or> i > 2 ^ 31 - 1 then Inl (field_path path field @ '' is outside int32 range'')
       else Inr i)"

definition require_bool :: "json_value \<Rightarrow> string \<Rightarrow> string \<Rightarrow> string + bool" where
  "require_bool obj field path =
     ebind (require_field obj field path) (\<lambda>v.
       case as_bool v of Some b \<Rightarrow> Inr b | None \<Rightarrow> Inl (field_path path field @ '' must be a boolean''))"

definition require_envelope :: "json_value \<Rightarrow> string + CommandEnvelope" where
  "require_envelope payload =
     ebind (require_field payload ''envelope'' ''payload'') (\<lambda>envelope.
       if \<not> is_object envelope then Inl ''payload.envelope must be an object''
       else
         ebind (require_string envelope ''request_id'' ''payload.envelope'') (\<lambda>request_id.
         ebind (require_string envelope ''idempotency_key'' ''payload.envelope'') (\<lambda>key.
         ebind (require_i64 envelope ''user_id'' ''payload.envelope'') (\<lambda>user_id.
         ebind (require_i32 envelope ''reply_partition'' ''payload.envelope'') (\<lambda>partition.
           Inr \<lparr>ce_request_id = request_id, ce_idempotency_key = key, ce_user_id = user_id,
                ce_reply_partition = partition\<rparr>)))))"

definition parse_side :: "string \<Rightarrow> string + AdapterSide" where
  "parse_side value =
     (if value = ''LONG'' then Inr Long else if value = ''SHORT'' then Inr Short
      else Inl ''payload.side must be LONG or SHORT'')"

definition parse_position_side :: "string \<Rightarrow> string + AdapterSide" where
  "parse_position_side value =
     (if value = ''LONG'' then Inr Long else if value = ''SHORT'' then Inr Short
      else Inl ''payload.position_side must be LONG or SHORT'')"

definition parse_order_type :: "string \<Rightarrow> string + AdapterOrderType" where
  "parse_order_type value =
     (if value = ''LIMIT'' then Inr ALimit else if value = ''MARKET'' then Inr AMarket
      else Inl ''payload.order_type must be LIMIT or MARKET'')"

definition parse_time_in_force :: "string \<Rightarrow> string + AdapterTimeInForce" where
  "parse_time_in_force value =
     (if value = ''GTC'' then Inr AGtc
      else if value = ''IOC'' then Inr AIoc
      else if value = ''FOK'' then Inr AFok
      else if value = ''POST_ONLY'' \<or> value = ''PO'' then Inr APostOnly
      else Inl ''payload.time_in_force must be GTC, IOC, FOK, POST_ONLY, or PO'')"

definition optional_time_in_force :: "json_value \<Rightarrow> string + AdapterTimeInForce" where
  "optional_time_in_force payload =
     (case json_find payload ''time_in_force'' of
        None \<Rightarrow> Inr AGtc
      | Some v \<Rightarrow>
          if is_null v then Inr AGtc
          else (case as_string v of
              Some t \<Rightarrow> if t = [] then Inl ''payload.time_in_force must be a non-empty string''
                        else parse_time_in_force t
            | None \<Rightarrow> Inl ''payload.time_in_force must be a non-empty string''))"

section \<open>The six inputs\<close>

datatype ParsedEngineInput =
    InPlaceOrder PlaceOrderInput
  | InCancelOrder CancelOrderInput
  | InLiquidatePosition LiquidatePositionInput
  | InMarkPriceUpdated MarkPriceUpdatedInput
  | InFundingRateUpdated FundingRateUpdatedInput
  | InFundingSettlementTick FundingSettlementTickInput

definition parse_place_order :: "ProtocolMessage \<Rightarrow> string + PlaceOrderInput" where
  "parse_place_order m =
     (if msg_type m \<noteq> ''PlaceOrder'' then Inl ''expected PlaceOrder message''
      else let payload = msg_payload m in
        ebind (optional_payload_string m ''input_id'') (\<lambda>input_id.
        ebind (require_envelope payload) (\<lambda>envelope.
        ebind (require_i64 payload ''order_id'' ''payload'') (\<lambda>order_id.
        ebind (require_payload_string m ''reservation_id'') (\<lambda>reservation_id.
        ebind (require_i64 payload ''market_id'' ''payload'') (\<lambda>market_id.
        ebind (require_payload_string m ''market_name'') (\<lambda>market_name.
        ebind (ebind (require_payload_string m ''side'') parse_side) (\<lambda>side.
        ebind (ebind (require_payload_string m ''order_type'') parse_order_type) (\<lambda>order_type.
        ebind (optional_time_in_force payload) (\<lambda>time_in_force.
        ebind (require_i64 payload ''price'' ''payload'') (\<lambda>price.
        ebind (require_i64 payload ''quantity'' ''payload'') (\<lambda>quantity.
        ebind (require_bool payload ''reduce_only'' ''payload'') (\<lambda>reduce_only.
        ebind (require_payload_string m ''margin_asset'') (\<lambda>margin_asset.
        ebind (require_i64 payload ''reserved_margin_amount'' ''payload'') (\<lambda>reserved.
        ebind (require_i32 payload ''leverage'' ''payload'') (\<lambda>leverage.
          Inr \<lparr>pi_input_id = input_id, pi_envelope = envelope, pi_order_id = order_id,
               pi_reservation_id = reservation_id, pi_market_id = market_id,
               pi_market_name = market_name, pi_side = side, pi_order_type = order_type,
               pi_time_in_force = time_in_force, pi_price = price, pi_quantity = quantity,
               pi_reduce_only = reduce_only, pi_margin_asset = margin_asset,
               pi_reserved_margin_amount = reserved, pi_leverage = leverage,
               pi_source = None\<rparr>))))))))))))))))"

definition parse_cancel_order :: "ProtocolMessage \<Rightarrow> string + CancelOrderInput" where
  "parse_cancel_order m =
     (if msg_type m \<noteq> ''CancelOrder'' then Inl ''expected CancelOrder message''
      else let payload = msg_payload m in
        ebind (optional_payload_string m ''input_id'') (\<lambda>input_id.
        ebind (require_envelope payload) (\<lambda>envelope.
        ebind (require_i64 payload ''market_id'' ''payload'') (\<lambda>market_id.
        ebind (require_i64 payload ''order_id'' ''payload'') (\<lambda>order_id.
          Inr \<lparr>ci_input_id = input_id, ci_envelope = envelope, ci_market_id = market_id,
               ci_order_id = order_id, ci_source = None\<rparr>)))))"

definition parse_liquidate_position :: "ProtocolMessage \<Rightarrow> string + LiquidatePositionInput" where
  "parse_liquidate_position m =
     (if msg_type m \<noteq> ''LiquidatePosition'' then Inl ''expected LiquidatePosition message''
      else let payload = msg_payload m in
        ebind (optional_payload_string m ''input_id'') (\<lambda>input_id.
        ebind (require_envelope payload) (\<lambda>envelope.
        ebind (require_payload_string m ''liquidation_id'') (\<lambda>liquidation_id.
        ebind (require_i64 payload ''market_id'' ''payload'') (\<lambda>market_id.
        ebind (require_payload_string m ''market_name'') (\<lambda>market_name.
        ebind (require_i64 payload ''liquidated_user_id'' ''payload'') (\<lambda>user_id.
        ebind (ebind (require_payload_string m ''position_side'') parse_position_side) (\<lambda>side.
        ebind (require_i64 payload ''quantity'' ''payload'') (\<lambda>quantity.
        ebind (require_i64 payload ''price'' ''payload'') (\<lambda>price.
        ebind (optional_payload_string m ''request_source'') (\<lambda>request_source.
          Inr \<lparr>li_input_id = input_id, li_envelope = envelope, li_liquidation_id = liquidation_id,
               li_market_id = market_id, li_market_name = market_name,
               li_liquidated_user_id = user_id, li_position_side = side, li_quantity = quantity,
               li_price = price, li_request_source = request_source, li_source = None\<rparr>)))))))))))"

definition parse_mark_price_updated :: "ProtocolMessage \<Rightarrow> string + MarkPriceUpdatedInput" where
  "parse_mark_price_updated m =
     (if msg_type m \<noteq> ''MarkPriceUpdated'' then Inl ''expected MarkPriceUpdated message''
      else let payload = msg_payload m in
        ebind (optional_payload_string m ''input_id'') (\<lambda>input_id.
        ebind (require_i64 payload ''market_id'' ''payload'') (\<lambda>market_id.
        ebind (require_i64 payload ''mark_price'' ''payload'') (\<lambda>mark_price.
        ebind (require_i64 payload ''index_price'' ''payload'') (\<lambda>index_price.
        ebind (require_i64 payload ''source_timestamp_ms'' ''payload'') (\<lambda>source_ts.
        ebind (require_i64 payload ''published_at_ms'' ''payload'') (\<lambda>published.
        ebind (require_i64 payload ''valid_until_ms'' ''payload'') (\<lambda>valid_until.
        ebind (require_i64 payload ''source_sequence'' ''payload'') (\<lambda>source_sequence.
        ebind (require_payload_string m ''source_status'') (\<lambda>source_status.
          Inr \<lparr>mi_input_id = input_id, mi_market_id = market_id, mi_mark_price = mark_price,
               mi_index_price = index_price, mi_source_timestamp_ms = source_ts,
               mi_published_at_ms = published, mi_valid_until_ms = valid_until,
               mi_source_sequence = source_sequence, mi_source_status = source_status,
               mi_source = None\<rparr>))))))))))"

definition parse_funding_rate_updated :: "ProtocolMessage \<Rightarrow> string + FundingRateUpdatedInput" where
  "parse_funding_rate_updated m =
     (if msg_type m \<noteq> ''FundingRateUpdated'' then Inl ''expected FundingRateUpdated message''
      else let payload = msg_payload m in
        ebind (optional_payload_string m ''input_id'') (\<lambda>input_id.
        ebind (require_i64 payload ''market_id'' ''payload'') (\<lambda>market_id.
        ebind (require_payload_string m ''funding_interval_id'') (\<lambda>interval_id.
        ebind (require_i64 payload ''rate'' ''payload'') (\<lambda>rate.
        ebind (require_i64 payload ''rate_scale'' ''payload'') (\<lambda>rate_scale.
        ebind (require_i64 payload ''interval_start_ms'' ''payload'') (\<lambda>start_ms.
        ebind (require_i64 payload ''interval_end_ms'' ''payload'') (\<lambda>end_ms.
        ebind (require_i64 payload ''source_timestamp_ms'' ''payload'') (\<lambda>source_ts.
          if rate_scale \<le> 0 then Inl ''payload.rate_scale must be greater than zero''
          else if end_ms \<le> start_ms
          then Inl ''payload.interval_end_ms must be greater than interval_start_ms''
          else Inr \<lparr>fi_input_id = input_id, fi_market_id = market_id,
               fi_funding_interval_id = interval_id, fi_rate = rate, fi_rate_scale = rate_scale,
               fi_interval_start_ms = start_ms, fi_interval_end_ms = end_ms,
               fi_source_timestamp_ms = source_ts, fi_source = None\<rparr>)))))))))"

definition parse_funding_settlement_tick :: "ProtocolMessage \<Rightarrow> string + FundingSettlementTickInput" where
  "parse_funding_settlement_tick m =
     (if msg_type m \<noteq> ''FundingSettlementTick'' then Inl ''expected FundingSettlementTick message''
      else let payload = msg_payload m in
        ebind (optional_payload_string m ''input_id'') (\<lambda>input_id.
        ebind (require_i64 payload ''market_id'' ''payload'') (\<lambda>market_id.
        ebind (require_payload_string m ''funding_interval_id'') (\<lambda>interval_id.
        ebind (require_i64 payload ''settle_at_ms'' ''payload'') (\<lambda>settle_at.
          Inr \<lparr>ti_input_id = input_id, ti_market_id = market_id,
               ti_funding_interval_id = interval_id, ti_settle_at_ms = settle_at,
               ti_source = None\<rparr>)))))"

definition parse_engine_input :: "string \<Rightarrow> string + ParsedEngineInput" where
  "parse_engine_input raw_json =
     ebind (catch (parse_protocol_message raw_json)
              (\<lambda>e. Inl (''failed to parse engine input: '' @ e))) (\<lambda>m.
       if msg_type m = ''PlaceOrder'' then ebind (parse_place_order m) (Inr \<circ> InPlaceOrder)
       else if msg_type m = ''CancelOrder'' then ebind (parse_cancel_order m) (Inr \<circ> InCancelOrder)
       else if msg_type m = ''LiquidatePosition''
       then ebind (parse_liquidate_position m) (Inr \<circ> InLiquidatePosition)
       else if msg_type m = ''MarkPriceUpdated''
       then ebind (parse_mark_price_updated m) (Inr \<circ> InMarkPriceUpdated)
       else if msg_type m = ''FundingRateUpdated''
       then ebind (parse_funding_rate_updated m) (Inr \<circ> InFundingRateUpdated)
       else if msg_type m = ''FundingSettlementTick''
       then ebind (parse_funding_settlement_tick m) (Inr \<circ> InFundingSettlementTick)
       else Inl (''unsupported engine input type '' @ quoted (msg_type m)))"

section \<open>What a parsed input satisfies\<close>

definition in_i32 :: "int \<Rightarrow> bool" where
  "in_i32 i \<longleftrightarrow> - (2 ^ 31) \<le> i \<and> i < 2 ^ 31"

lemma require_i64_range: "require_i64 obj field path = Inr i \<Longrightarrow> in_i64 i"
  by (auto simp: require_i64_def parse_integer_text_def ebind_Inr_iff dest: from_chars_range split: option.splits)

lemma require_i32_range: "require_i32 obj field path = Inr i \<Longrightarrow> in_i32 i"
  by (auto simp: require_i32_def ebind_Inr_iff in_i32_def split: if_splits)

lemma require_string_not_Nil:
  "require_string obj field path = Inr t \<Longrightarrow> t \<noteq> []"
  "require_payload_string m field = Inr t \<Longrightarrow> t \<noteq> []"
  by (auto simp: require_string_def require_payload_string_def ebind_Inr_iff split: option.splits if_splits)

definition envelope_ok :: "CommandEnvelope \<Rightarrow> bool" where
  "envelope_ok e \<longleftrightarrow> ce_request_id e \<noteq> [] \<and> ce_idempotency_key e \<noteq> [] \<and> in_i64 (ce_user_id e) \<and>
     in_i32 (ce_reply_partition e)"

lemma require_envelope_ok: "require_envelope payload = Inr e \<Longrightarrow> envelope_ok e"
  by (auto simp: require_envelope_def ebind_Inr_iff envelope_ok_def
      dest: require_i64_range require_i32_range require_string_not_Nil split: if_splits)

fun engine_input_ok :: "ParsedEngineInput \<Rightarrow> bool" where
  "engine_input_ok (InPlaceOrder i) \<longleftrightarrow> envelope_ok (pi_envelope i) \<and> in_i64 (pi_order_id i) \<and>
     pi_reservation_id i \<noteq> [] \<and> in_i64 (pi_market_id i) \<and> pi_market_name i \<noteq> [] \<and> in_i64 (pi_price i) \<and>
     in_i64 (pi_quantity i) \<and> pi_margin_asset i \<noteq> [] \<and> in_i64 (pi_reserved_margin_amount i) \<and>
     in_i32 (pi_leverage i) \<and> pi_source i = None"
| "engine_input_ok (InCancelOrder i) \<longleftrightarrow> envelope_ok (ci_envelope i) \<and> in_i64 (ci_market_id i) \<and>
     in_i64 (ci_order_id i) \<and> ci_source i = None"
| "engine_input_ok (InLiquidatePosition i) \<longleftrightarrow> envelope_ok (li_envelope i) \<and> li_liquidation_id i \<noteq> [] \<and>
     in_i64 (li_market_id i) \<and> li_market_name i \<noteq> [] \<and> in_i64 (li_liquidated_user_id i) \<and>
     in_i64 (li_quantity i) \<and> in_i64 (li_price i) \<and> li_source i = None"
| "engine_input_ok (InMarkPriceUpdated i) \<longleftrightarrow> in_i64 (mi_market_id i) \<and> in_i64 (mi_mark_price i) \<and>
     in_i64 (mi_index_price i) \<and> in_i64 (mi_source_timestamp_ms i) \<and> in_i64 (mi_published_at_ms i) \<and>
     in_i64 (mi_valid_until_ms i) \<and> in_i64 (mi_source_sequence i) \<and> mi_source_status i \<noteq> [] \<and>
     mi_source i = None"
| "engine_input_ok (InFundingRateUpdated i) \<longleftrightarrow> in_i64 (fi_market_id i) \<and> fi_funding_interval_id i \<noteq> [] \<and>
     in_i64 (fi_rate i) \<and> in_i64 (fi_rate_scale i) \<and> 0 < fi_rate_scale i \<and> in_i64 (fi_interval_start_ms i) \<and>
     in_i64 (fi_interval_end_ms i) \<and> fi_interval_start_ms i < fi_interval_end_ms i \<and>
     in_i64 (fi_source_timestamp_ms i) \<and> fi_source i = None"
| "engine_input_ok (InFundingSettlementTick i) \<longleftrightarrow> in_i64 (ti_market_id i) \<and>
     ti_funding_interval_id i \<noteq> [] \<and> in_i64 (ti_settle_at_ms i) \<and> ti_source i = None"

lemma parse_inputs_ok:
  "parse_place_order m = Inr i1 \<Longrightarrow> engine_input_ok (InPlaceOrder i1)"
  "parse_cancel_order m = Inr i2 \<Longrightarrow> engine_input_ok (InCancelOrder i2)"
  "parse_liquidate_position m = Inr i3 \<Longrightarrow> engine_input_ok (InLiquidatePosition i3)"
  "parse_mark_price_updated m = Inr i4 \<Longrightarrow> engine_input_ok (InMarkPriceUpdated i4)"
  "parse_funding_rate_updated m = Inr i5 \<Longrightarrow> engine_input_ok (InFundingRateUpdated i5)"
  "parse_funding_settlement_tick m = Inr i6 \<Longrightarrow> engine_input_ok (InFundingSettlementTick i6)"
  by (auto simp: parse_place_order_def parse_cancel_order_def parse_liquidate_position_def
      parse_mark_price_updated_def parse_funding_rate_updated_def parse_funding_settlement_tick_def
      ebind_Inr_iff Let_def require_string_not_Nil not_le
      dest: require_i64_range require_i32_range require_envelope_ok split: if_split_asm)

lemma parse_engine_input_ok: "parse_engine_input s = Inr inp \<Longrightarrow> engine_input_ok inp"
  by (auto simp: parse_engine_input_def ebind_Inr_iff parse_inputs_ok simp del: engine_input_ok.simps
      split: if_split_asm)

end
