(* ===== verification/ProtocolProperties.thy ===== *)
theory ProtocolProperties
  imports FixedPoint Serializer InputParser
begin

text \<open>
  The properties of the texts the engine reads and writes: price literals, JSON, the serialized
  output records, the input messages and their translation to commands of the core.
\<close>

section \<open>Prices and integers as text\<close>

text \<open>
  C39: what \<open>price\<close> makes of every text at a scale that is not negative.  A decimal literal with at most
  \<open>scale\<close> significant decimals denotes a magnitude, itself times \<open>10 ^ scale\<close>: below \<open>2 ^ 63\<close> the result is
  exactly that, with its sign; from \<open>2 ^ 63\<close> on it is out of range as long as the magnitude fits 128 bits; but
  a larger one is first taken modulo \<open>2 ^ 128\<close>, and is accepted as a wrong price when the remainder is below
  \<open>2 ^ 63\<close>.  Every other text is an invalid argument.
\<close>

theorem price_text_correct:
  assumes "0 \<le> scale"
  shows "case decimal_spec (nat scale) (literal_of s) of
      None \<Rightarrow> \<exists>e. parse_price s scale = Inl (Invalid_argument e)
    | Some v \<Rightarrow> parse_price s scale =
        (if v < 2 ^ 63 then Inr (if negative_literal s then - int v else int v)
         else if v < 2 ^ 128 \<or> 2 ^ 63 \<le> v mod 2 ^ 128 then Inl (Out_of_range ''price is outside int64 range'')
         else Inr (if negative_literal s then - int (v mod 2 ^ 128) else int (v mod 2 ^ 128)))"
proof (cases "decimal_spec (nat scale) (literal_of s)")
  case (Some v)
  have "v mod 2 ^ 128 = v" if "v < 2 ^ 128" using that by simp
  moreover have "v < 2 ^ 128" if "v < 2 ^ 63" using that by simp
  ultimately show ?thesis using Some parse_price_ok [OF assms Some] by auto
qed (use parse_price_bad [OF assms, of s] in simp)

theorem price_text_correct_witness: "parse_price '' -12.340 '' 2 = Inr (-1234)"
proof -
  have "decimal_spec (nat 2) (literal_of '' -12.340 '') = Some 1234" "negative_literal '' -12.340 ''"
    by code_simp+
  then show ?thesis using price_text_correct [of 2 "'' -12.340 ''"] by simp
qed

text \<open>
  The range check of \<open>price\<close> comes too late for huge literals: the magnitude is accumulated
  modulo \<open>2 ^ 128\<close>, so a literal just above \<open>2 ^ 128\<close> is accepted as a small price.
\<close>

theorem price_text_wraps:
  "decimal_spec 0 ''340282366920938463463374607431768211461'' = Some (2 ^ 128 + 5) \<and>
   parse_price ''340282366920938463463374607431768211461'' 0 = Inr 5"
proof
  have "decimal_spec 0 ''340282366920938463463374607431768211461'' = Some 340282366920938463463374607431768211461"
    by (simp add: decimal_spec_def Let_def digits_value_def is_digit_def digit_value_def)
  then show "decimal_spec 0 ''340282366920938463463374607431768211461'' = Some (2 ^ 128 + 5)" by simp
  show "parse_price ''340282366920938463463374607431768211461'' 0 = Inr 5" by code_simp
qed

text \<open>
  Every 64-bit integer that is written into a payload is read back by the input parser as the
  same integer, and no text is read as an integer outside the 64-bit range.
\<close>

theorem integer_text_round_trip:
  assumes "in_i64 i"
  shows "\<exists>t. payload_as_number (payload_integer i) = Some t \<and> parse_integer_text t path = Inr i \<and>
    (\<forall>s j. parse_integer_text s path = Inr j \<longrightarrow> in_i64 j)"
  using assms from_chars_range by (auto simp: payload_integer_def parse_integer_text_def split: option.splits)

theorem integer_text_round_trip_witness:
  "\<exists>t. payload_as_number (payload_integer (- (2 ^ 63))) = Some t \<and> parse_integer_text t [] = Inr (- (2 ^ 63))"
  using integer_text_round_trip [of "- (2 ^ 63)" "[]"] by (auto simp: in_i64_def)

section \<open>JSON\<close>

text \<open>
  C40: the JSON parser terminates on every text: with the fuel \<open>parse_json\<close> gives it, a successful
  parse has consumed at least one character and a failed one has an error message; it never runs
  out of fuel.
\<close>

theorem json_parser_terminates:
  "case parse_value (Suc (2 * length s)) s of
     None \<Rightarrow> False | Some (Inl e) \<Rightarrow> True | Some (Inr (v, r)) \<Rightarrow> length r < length s"
  using parse_returns(1) [of s "Suc (2 * length s)"] by (simp add: returns_def)

text \<open>
  C37: an output record written by the serializer is read back by the protocol parser as a message
  of its type with its payload: the fields in key order, integer fields as JSON numbers, every
  other text as the same string, whatever characters it contains.
\<close>

theorem output_record_round_trip:
  assumes "um_ok (eo_payload r)" "payload_fields_ok (eo_payload r)" "eo_type r \<noteq> []"
  shows "parse_protocol_message (serialize_engine_output_record r) =
    Inr \<lparr>msg_type = eo_type r, msg_payload = JObject (json_of_fields (sort_key fst (eo_payload r)))\<rparr>"
  using parse_serialized_record [OF assms(1,2)] assms(3)
  by (simp add: parse_protocol_message_def record_json_def json_find_def is_object_def sm_find_def)

definition demo_record :: EngineOutputRecord where
  "demo_record = \<lparr>eo_topic = ''engine.events'', eo_type = ''OrderFilled'', eo_key = ''1'', eo_partition = None,
     eo_payload = [(''quantity'', PString ''25''), (''margin_asset'', PString ''US'' ),
       (''note'', PString [CHR 0x22, CHR 0x0A])]\<rparr>"

theorem output_record_round_trip_witness:
  "parse_protocol_message (serialize_engine_output_record demo_record) =
    Inr \<lparr>msg_type = ''OrderFilled'', msg_payload = JObject [(''margin_asset'', JString ''US''),
      (''note'', JString [CHR 0x22, CHR 0x0A]), (''quantity'', JNumber ''25'')]\<rparr>"
proof -
  have "um_ok (eo_payload demo_record)" "payload_fields_ok (eo_payload demo_record)" "eo_type demo_record \<noteq> []"
    "json_of_fields (sort_key fst (eo_payload demo_record)) = [(''margin_asset'', JString ''US''),
      (''note'', JString [CHR 0x22, CHR 0x0A]), (''quantity'', JNumber ''25'')]" by code_simp+
  moreover have "eo_type demo_record = ''OrderFilled''" by (simp add: demo_record_def)
  ultimately show ?thesis using output_record_round_trip [of demo_record] by simp
qed

section \<open>Input messages\<close>

text \<open>
  Whatever text arrives, an input the parser accepts has every integer within its width, no
  empty mandatory text, no source record yet, and for a funding rate a positive scale and an
  interval that ends after it starts.
\<close>

theorem parsed_input_in_range:
  assumes "parse_engine_input s = Inr inp"
  shows "engine_input_ok inp"
  by (rule parse_engine_input_ok [OF assms])

definition demo_tick_text :: string where
  "demo_tick_text = concat [''{'', json_string ''type'', '':'', json_string ''FundingSettlementTick'', '','',
     json_string ''payload'', '':{'', json_string ''market_id'', '':1,'', json_string ''funding_interval_id'',
     '':'', json_string ''f'', '','', json_string ''settle_at_ms'', '':5}}'']"

theorem parsed_input_in_range_witness:
  "engine_input_ok (InFundingSettlementTick \<lparr>ti_input_id = None, ti_market_id = 1,
     ti_funding_interval_id = ''f'', ti_settle_at_ms = 5, ti_source = None\<rparr>)"
proof -
  have "parse_engine_input demo_tick_text = Inr (InFundingSettlementTick \<lparr>ti_input_id = None, ti_market_id = 1,
     ti_funding_interval_id = ''f'', ti_settle_at_ms = 5, ti_source = None\<rparr>)" by code_simp
  from parsed_input_in_range [OF this] show ?thesis .
qed

section \<open>Commands for the core\<close>

text \<open>
  The adapter accepts a place request exactly when its envelope and reservation are filled in
  and its ids, price and quantity are in range; the command it then makes carries the same numbers
  without wrap-around, non-zero command and client order ids, and the metadata record starts with
  the whole quantity and the whole reserved margin outstanding.
\<close>

theorem place_request_mapping:
  assumes "in_i64 (pi_order_id inp)" "in_i64 (pi_quantity inp)" "in_i64 (ce_user_id (pi_envelope inp))"
  shows "if place_input_ok inp
    then \<exists>cmd md. map_place_order_to_core inp sq = Inr \<lparr>mc_command = \<lparr>ec_kind = PlaceOrder,
          ec_placeOrder = Some cmd, ec_cancelOrder = None\<rparr>, mc_metadata_to_record = Some md\<rparr> \<and>
        unat (pc_orderId cmd) = nat (pi_order_id inp) \<and> unat (pc_quantity cmd) = nat (pi_quantity inp) \<and>
        unat (pc_symbolId cmd) = nat (pi_market_id inp) \<and> pc_price cmd = pi_price inp \<and>
        unat (pc_userId cmd) = nat (ce_user_id (pi_envelope inp)) \<and>
        pc_commandId cmd \<noteq> 0 \<and> pc_clientOrderId cmd \<noteq> 0 \<and>
        om_order_id md = pc_orderId cmd \<and> om_remaining_quantity md = pi_quantity inp \<and>
        om_remaining_reserved_margin md = pi_reserved_margin_amount inp
    else \<exists>e. map_place_order_to_core inp sq = Inl e"
proof (cases "place_input_ok inp")
  case True
  have "unat (of_int (pi_market_id inp) :: u32) = nat (pi_market_id inp)"
    using True by (simp add: place_input_ok_def unat_eq_nat_uint uint_word_of_int take_bit_int_eq_self)
  moreover have "unat (of_int i :: u64) = nat i" if "0 \<le> i" "in_i64 i" for i
    using that by (simp add: in_i64_def unat_eq_nat_uint uint_word_of_int take_bit_int_eq_self)
  ultimately show ?thesis
    using map_place_order_ok [OF True, of sq] True assms by (simp add: place_input_ok_def place_metadata_def)
next
  case False
  then show ?thesis using map_place_order_bad by simp
qed

definition demo_input :: PlaceOrderInput where
  "demo_input = \<lparr>pi_input_id = None, pi_envelope = \<lparr>ce_request_id = ''r-1'', ce_idempotency_key = ''k-1'',
      ce_user_id = 7, ce_reply_partition = 0\<rparr>,
    pi_order_id = 11, pi_reservation_id = ''res'', pi_market_id = 1, pi_market_name = ''BTC'',
    pi_side = Long, pi_order_type = ALimit, pi_time_in_force = AGtc, pi_price = 100, pi_quantity = 10,
    pi_reduce_only = False, pi_margin_asset = ''USD'', pi_reserved_margin_amount = 500, pi_leverage = 2,
    pi_source = None\<rparr>"

theorem place_request_mapping_witness:
  "\<exists>cmd md. map_place_order_to_core demo_input 0 = Inr \<lparr>mc_command = \<lparr>ec_kind = PlaceOrder,
      ec_placeOrder = Some cmd, ec_cancelOrder = None\<rparr>, mc_metadata_to_record = Some md\<rparr> \<and>
    unat (pc_quantity cmd) = 10 \<and> om_remaining_reserved_margin md = 500"
  using place_request_mapping [of demo_input 0]
  by (simp add: demo_input_def place_input_ok_def in_i64_def) auto

text \<open>
  The engine sequence of a market grows by one with every use, starts at the first sequence or
  where it was restored, and the sequences of other markets do not move.
\<close>

theorem market_sequences_consecutive:
  assumes "0 < m"
  shows "\<exists>sq g'. market_peek m g = Inr sq \<and> market_next m g = Inr (sq, g') \<and>
    market_peek m g' = Inr (sq + 1) \<and> (\<forall>k. k \<noteq> m \<longrightarrow> market_peek k g' = market_peek k g)"
  using market_next_peek [OF assms, of g] assms by (auto simp: market_peek_def split: option.splits)

theorem market_sequences_consecutive_witness:
  "\<exists>g'. market_next 3 (make_market_sequences 0) = Inr (1, g') \<and> market_peek 3 g' = Inr 2"
  using market_sequences_consecutive [of 3 "make_market_sequences 0"]
  by (auto simp: make_market_sequences_def market_peek_def container_simps)

end
