(* ===== verification/RuntimeTypes.thy ===== *)
theory RuntimeTypes
  imports EngineCore Serializer InputParser
begin

text \<open>
  The records of \<open>src/include/runtime/EngineRuntimeConfig.hpp\<close> and
  \<open>EngineEventTranslator.hpp\<close>: inbound records, process results, the context of a translation,
  positions, risk states and mark prices.
\<close>

section \<open>Records in and out\<close>

definition EngineInputTopic :: string where "EngineInputTopic = ''engine.input''"
definition EngineRepliesTopic :: string where "EngineRepliesTopic = ''engine.replies''"
definition EngineEventsTopic :: string where "EngineEventsTopic = ''engine.events''"

record InboundEngineRecord =
  ir_topic :: string
  ir_partition :: int32
  ir_offset :: int64
  ir_key :: "string option"
  ir_raw_json :: string

record EngineTraceSummary =
  ts_request_id :: "string option"
  ts_source_input_id :: "string option"
  ts_reply_count :: nat
  ts_event_count :: nat
  ts_duplicate :: bool
  ts_no_output :: bool

datatype EngineProcessStatus = StatusProcessed | StatusDuplicate | StatusRejected

datatype ProcessingMode = Live | ReplaySilent

datatype EngineDuplicateReason = DuplicateNone | DuplicateInputId | DuplicateIdempotencyKey

record EngineDuplicateInfo =
  di_reason :: EngineDuplicateReason
  di_key :: string
  di_original_topic :: string
  di_original_partition :: int32
  di_original_offset :: int64
  di_original_input_id :: "string option"
  di_original_idempotency_key :: string

record EngineProcessResult =
  pr_status :: EngineProcessStatus
  pr_duplicate :: "EngineDuplicateInfo option"
  pr_replies :: "EngineOutputRecord list"
  pr_events :: "EngineOutputRecord list"

definition empty_result :: EngineProcessResult where
  "empty_result = \<lparr>pr_status = StatusProcessed, pr_duplicate = None, pr_replies = [], pr_events = []\<rparr>"

definition result_empty :: "EngineProcessResult \<Rightarrow> bool" where
  "result_empty r \<longleftrightarrow> pr_replies r = [] \<and> pr_events r = []"

text \<open>\<open>trace_summary\<close>: the first non-empty \<open>request_id\<close> and \<open>source_input_id\<close> of the outputs.\<close>

definition capture_field :: "string \<Rightarrow> EngineOutputRecord \<Rightarrow> string option \<Rightarrow> string option" where
  "capture_field field r found = (case found of
      Some t \<Rightarrow> Some t
    | None \<Rightarrow> (case um_find (eo_payload r) field of
        None \<Rightarrow> None
      | Some v \<Rightarrow> (case payload_as_string v of
          None \<Rightarrow> None
        | Some t \<Rightarrow> if t = [] then None else Some t)))"

definition trace_summary :: "EngineProcessResult \<Rightarrow> EngineTraceSummary" where
  "trace_summary r = (let outputs = pr_replies r @ pr_events r in
     \<lparr>ts_request_id = fold (capture_field ''request_id'') outputs None,
      ts_source_input_id = fold (capture_field ''source_input_id'') outputs None,
      ts_reply_count = length (pr_replies r), ts_event_count = length (pr_events r),
      ts_duplicate = (pr_status r = StatusDuplicate), ts_no_output = result_empty r\<rparr>)"

definition append_process_result :: "EngineProcessResult \<Rightarrow> EngineProcessResult \<Rightarrow> EngineProcessResult" where
  "append_process_result r translated = r\<lparr>pr_replies := pr_replies r @ pr_replies translated,
     pr_events := pr_events r @ pr_events translated\<rparr>"

definition push_reply :: "EngineOutputRecord \<Rightarrow> EngineProcessResult \<Rightarrow> EngineProcessResult" where
  "push_reply x r = r\<lparr>pr_replies := pr_replies r @ [x]\<rparr>"

definition push_event :: "EngineOutputRecord \<Rightarrow> EngineProcessResult \<Rightarrow> EngineProcessResult" where
  "push_event x r = r\<lparr>pr_events := pr_events r @ [x]\<rparr>"

section \<open>Clock and sequences\<close>

text \<open>
  The clock is a parameter: the reading of its \<open>n\<close>-th call.  \<open>None\<close> is an empty
  \<open>std::function\<close>, for which the code uses 0.  An emitter is what every event needs: the public
  sequences and the number of clock readings so far.
\<close>

type_synonym Clock = "(nat \<Rightarrow> int64) option"

record Emitter =
  em_sequences :: MarketSequenceGenerator
  em_clock_reads :: nat

definition read_clock :: "Clock \<Rightarrow> Emitter \<Rightarrow> int64 \<times> Emitter" where
  "read_clock clock em = (case clock of
      None \<Rightarrow> (0, em)
    | Some f \<Rightarrow> (f (em_clock_reads em), em\<lparr>em_clock_reads := Suc (em_clock_reads em)\<rparr>))"

record EngineRuntimeConfig =
  rc_symbols :: "SymbolConfig list"
  rc_first_public_sequence :: EngineSequence
  rc_first_trade_id :: TradeId
  rc_clock :: Clock

section \<open>Translation context, positions and risk\<close>

datatype RuntimeCommandKind =
    KindPlaceOrder | KindCancelOrder | KindMarkPriceUpdated | KindFundingRateUpdated
  | KindFundingSettlementTick | KindLiquidatePosition

record EngineEventTranslationContext =
  tc_command_kind :: RuntimeCommandKind
  tc_source :: InboundEngineRecord
  tc_request_id :: string
  tc_input_id :: "string option"
  tc_reply_partition :: int32
  tc_order_id :: AdapterOrderId
  tc_market_id :: MarketId
  tc_can_open_resting_order :: bool
  tc_pending_metadata :: "OrderMetadata option"
  tc_liquidation_id :: string
  tc_liquidated_user_id :: AdapterUserId
  tc_liquidation_position_side :: AdapterSide
  tc_adl_execution :: bool
  tc_adl_id :: string
  tc_adl_counterparty_user_id :: AdapterUserId
  tc_adl_priority_rank :: int64

text \<open>The key of a position, ordered by user and then by market.\<close>

datatype PositionRiskKey = PositionRiskKey (rk_user_id: AdapterUserId) (rk_market_id: MarketId)

definition position_risk_key_less :: "PositionRiskKey \<Rightarrow> PositionRiskKey \<Rightarrow> bool" where
  "position_risk_key_less left right \<longleftrightarrow>
     (if rk_user_id left \<noteq> rk_user_id right then rk_user_id left < rk_user_id right
      else rk_market_id left < rk_market_id right)"

instantiation PositionRiskKey :: linorder
begin

definition less_PositionRiskKey :: "PositionRiskKey \<Rightarrow> PositionRiskKey \<Rightarrow> bool" where
  "less_PositionRiskKey = position_risk_key_less"

definition less_eq_PositionRiskKey :: "PositionRiskKey \<Rightarrow> PositionRiskKey \<Rightarrow> bool" where
  "less_eq_PositionRiskKey left right \<longleftrightarrow> left = right \<or> left < right"

instance
  by standard (auto simp: less_PositionRiskKey_def less_eq_PositionRiskKey_def position_risk_key_less_def
      PositionRiskKey.expand split: if_splits)

end

record IsolatedPositionState =
  ps_user_id :: AdapterUserId
  ps_market_id :: MarketId
  ps_signed_quantity :: int64
  ps_average_entry_price :: AdapterPrice
  ps_margin_asset :: string
  ps_isolated_margin :: int64
  ps_leverage :: int32
  ps_updated_at_ms :: int64

definition empty_position :: IsolatedPositionState where
  "empty_position = \<lparr>ps_user_id = 0, ps_market_id = 0, ps_signed_quantity = 0,
     ps_average_entry_price = 0, ps_margin_asset = [], ps_isolated_margin = 0, ps_leverage = 0,
     ps_updated_at_ms = 0\<rparr>"

record IsolatedRiskState =
  rs_user_id :: AdapterUserId
  rs_market_id :: MarketId
  rs_status :: string
  rs_margin_asset :: string
  rs_signed_quantity :: int64
  rs_average_entry_price :: AdapterPrice
  rs_mark_price :: AdapterPrice
  rs_isolated_margin :: int64
  rs_unrealized_pnl :: int64
  rs_equity :: int64
  rs_maintenance_margin :: int64
  rs_margin_ratio :: int64
  rs_leverage :: int32
  rs_updated_at_ms :: int64

type_synonym IsolatedPositionMap = "(PositionRiskKey \<times> IsolatedPositionState) list"
type_synonym IsolatedRiskMap = "(PositionRiskKey \<times> IsolatedRiskState) list"

record MarkPriceState =
  mp_market_id :: MarketId
  mp_mark_price :: AdapterPrice
  mp_index_price :: AdapterPrice
  mp_source_timestamp_ms :: int64
  mp_published_at_ms :: int64
  mp_valid_until_ms :: int64
  mp_source_sequence :: int64
  mp_source_status :: string

type_synonym MarkPriceMap = "(MarketId \<times> MarkPriceState) list"

section \<open>Payload helpers\<close>

text \<open>
  \<open>payload.emplace(key, value)\<close>; \<open>text\<close> is \<open>std::to_string\<close>, \<open>number_value\<close> its JSON number.
\<close>

definition put_field :: "string \<Rightarrow> payload_value \<Rightarrow> PayloadFields \<Rightarrow> PayloadFields" where
  "put_field k v pf = snd (um_emplace k v pf)"

definition text_value :: "int \<Rightarrow> payload_value" where
  "text_value i = PString (to_string i)"

definition number_value :: "int \<Rightarrow> payload_value" where
  "number_value i = PNumber (to_string i)"

lemma put_field_find [simp]:
  "um_find (put_field k v p) k' = (if k' = k \<and> um_find p k = None then Some v else um_find p k')"
  by (simp add: put_field_def container_simps)

lemma um_ok_put_field [simp]: "um_ok p \<Longrightarrow> um_ok (put_field k v p)"
  by (simp add: put_field_def container_simps)

end
