(* ===== verification/Positions.thy ===== *)
theory Positions
  imports RuntimeTypes
begin

text \<open>
  The accounting of \<open>src/src/runtime/EngineEventTranslator.cpp\<close>: how a fill uses up the margin an
  order reserved, how it changes a position, what profit it realises and what risk state results.
\<close>

section \<open>Quantities and margins\<close>

definition abs_quantity :: "int64 \<Rightarrow> int64" where
  "abs_quantity q = (if q < 0 then i64 (- q) else q)"

definition notional_value :: "int64 \<Rightarrow> AdapterPrice \<Rightarrow> int64" where
  "notional_value signed_quantity price = i64 (abs_quantity signed_quantity * price)"

definition maintenance_margin_for :: "int64 \<Rightarrow> AdapterPrice \<Rightarrow> int64" where
  "maintenance_margin_for signed_quantity price = notional_value signed_quantity price sdiv 20"

definition margin_ratio_for :: "int64 \<Rightarrow> int64 \<Rightarrow> int64" where
  "margin_ratio_for equity maintenance_margin =
     (if maintenance_margin = 0 then 0 else i64 (equity * 10000) sdiv maintenance_margin)"

definition risk_status_for :: "int64 \<Rightarrow> int64 \<Rightarrow> int64 \<Rightarrow> string" where
  "risk_status_for signed_quantity equity maintenance_margin =
     (if signed_quantity = 0 then ''FLAT''
      else if equity \<le> maintenance_margin then ''LIQUIDATABLE''
      else ''HEALTHY'')"

definition same_direction :: "int64 \<Rightarrow> int64 \<Rightarrow> bool" where
  "same_direction left right \<longleftrightarrow> (left > 0 \<and> right > 0) \<or> (left < 0 \<and> right < 0)"

section \<open>The margin of a fill\<close>

definition fallback_margin :: "OrderMetadata \<Rightarrow> int64 \<Rightarrow> AdapterPrice \<Rightarrow> int64" where
  "fallback_margin md fill_quantity price =
     (let leverage = (if om_leverage md \<le> 0 then 1 else om_leverage md)
      in i64 (price * fill_quantity) sdiv leverage)"

definition preview_fill_margin :: "OrderMetadata \<Rightarrow> int64 \<Rightarrow> AdapterPrice \<Rightarrow> int64" where
  "preview_fill_margin md fill_quantity price =
     (let original_quantity = om_original_quantity md in
      if om_reserved_margin_amount md > 0 \<and> original_quantity > 0
      then if om_remaining_quantity md > 0 \<and> fill_quantity \<ge> om_remaining_quantity md
           then om_remaining_reserved_margin md
           else let allocated = i64 (om_reserved_margin_amount md * fill_quantity) sdiv original_quantity
                in if allocated > om_remaining_reserved_margin md
                   then om_remaining_reserved_margin md else allocated
      else fallback_margin md fill_quantity price)"

definition allocate_fill_margin ::
    "OrderMetadata \<Rightarrow> int64 \<Rightarrow> AdapterPrice \<Rightarrow> int64 \<times> OrderMetadata" where
  "allocate_fill_margin md fill_quantity price =
     (let original_quantity = om_original_quantity md;
          allocated =
            (if om_reserved_margin_amount md > 0 \<and> original_quantity > 0
             then let a = (if om_remaining_quantity md > 0 \<and> fill_quantity \<ge> om_remaining_quantity md
                           then om_remaining_reserved_margin md
                           else i64 (om_reserved_margin_amount md * fill_quantity) sdiv original_quantity)
                  in if a > om_remaining_reserved_margin md then om_remaining_reserved_margin md else a
             else fallback_margin md fill_quantity price);
          md = md\<lparr>om_remaining_quantity :=
            (if om_remaining_quantity md > fill_quantity
             then i64 (om_remaining_quantity md - fill_quantity) else 0)\<rparr>;
          md = md\<lparr>om_remaining_reserved_margin :=
            (if om_remaining_reserved_margin md > allocated
             then i64 (om_remaining_reserved_margin md - allocated) else 0)\<rparr>
      in (allocated, md))"

definition signed_fill_quantity :: "OrderMetadata \<Rightarrow> int64 \<Rightarrow> int64" where
  "signed_fill_quantity md fill_quantity =
     (if om_side md = Long then fill_quantity else i64 (- fill_quantity))"

section \<open>The position after a fill\<close>

definition apply_position_fill :: "IsolatedPositionState \<Rightarrow> OrderMetadata \<Rightarrow> int64 \<Rightarrow> AdapterPrice \<Rightarrow>
    int64 \<Rightarrow> int64 \<Rightarrow> IsolatedPositionState" where
  "apply_position_fill pos md signed_fill price fill_margin timestamp_ms =
     (let old_quantity = ps_signed_quantity pos;
          new_quantity = i64 (old_quantity + signed_fill);
          old_abs = abs_quantity old_quantity;
          fill_abs = abs_quantity signed_fill;
          (new_average, new_margin) =
            (if old_quantity = 0 then (price, fill_margin)
             else if same_direction old_quantity signed_fill
             then let new_abs = i64 (old_abs + fill_abs)
                  in (i64 (i64 (ps_average_entry_price pos * old_abs) + i64 (price * fill_abs)) sdiv new_abs,
                      i64 (ps_isolated_margin pos + fill_margin))
             else if new_quantity = 0 then (0, 0)
             else if same_direction old_quantity new_quantity
             then (ps_average_entry_price pos,
                   if old_abs = 0 then 0
                   else i64 (ps_isolated_margin pos * abs_quantity new_quantity) sdiv old_abs)
             else (price,
                   if fill_abs = 0 then 0
                   else i64 (fill_margin * abs_quantity new_quantity) sdiv fill_abs))
      in pos\<lparr>ps_user_id := om_user_id md, ps_market_id := om_market_id md,
           ps_signed_quantity := new_quantity, ps_average_entry_price := new_average,
           ps_margin_asset := (if om_margin_asset md \<noteq> [] then om_margin_asset md else ps_margin_asset pos),
           ps_isolated_margin := new_margin,
           ps_leverage := (if ps_leverage pos = 0 \<or> old_quantity = 0 then om_leverage md else ps_leverage pos),
           ps_updated_at_ms := timestamp_ms\<rparr>)"

definition mark_price_for :: "MarketId \<Rightarrow> AdapterPrice \<Rightarrow> MarkPriceMap \<Rightarrow> AdapterPrice" where
  "mark_price_for market_id trade_price mark_prices =
     (case um_find mark_prices market_id of None \<Rightarrow> trade_price | Some m \<Rightarrow> mp_mark_price m)"

definition risk_from_position :: "IsolatedPositionState \<Rightarrow> AdapterPrice \<Rightarrow> int64 \<Rightarrow> IsolatedRiskState" where
  "risk_from_position pos mark_price timestamp_ms =
     (let unrealized_pnl = i64 (i64 (mark_price - ps_average_entry_price pos) * ps_signed_quantity pos);
          maintenance_margin = maintenance_margin_for (ps_signed_quantity pos) mark_price;
          equity = i64 (ps_isolated_margin pos + unrealized_pnl)
      in \<lparr>rs_user_id = ps_user_id pos, rs_market_id = ps_market_id pos,
          rs_status = risk_status_for (ps_signed_quantity pos) equity maintenance_margin,
          rs_margin_asset = ps_margin_asset pos, rs_signed_quantity = ps_signed_quantity pos,
          rs_average_entry_price = ps_average_entry_price pos, rs_mark_price = mark_price,
          rs_isolated_margin = ps_isolated_margin pos, rs_unrealized_pnl = unrealized_pnl,
          rs_equity = equity, rs_maintenance_margin = maintenance_margin,
          rs_margin_ratio = margin_ratio_for equity maintenance_margin,
          rs_leverage = ps_leverage pos, rs_updated_at_ms = timestamp_ms\<rparr>)"

section \<open>The account of a fill\<close>

record FillAccountEffect =
  fe_realized_pnl :: int64
  fe_released_margin :: int64

definition account_effect_for_fill :: "IsolatedPositionState \<Rightarrow> int64 \<Rightarrow> AdapterPrice \<Rightarrow> FillAccountEffect" where
  "account_effect_for_fill pos signed_fill fill_price =
     (if ps_signed_quantity pos = 0 \<or> same_direction (ps_signed_quantity pos) signed_fill
      then \<lparr>fe_realized_pnl = 0, fe_released_margin = 0\<rparr>
      else let old_abs = abs_quantity (ps_signed_quantity pos);
               fill_abs = abs_quantity signed_fill;
               closed_quantity = min old_abs fill_abs;
               released_margin = (if closed_quantity \<ge> old_abs then ps_isolated_margin pos
                  else i64 (ps_isolated_margin pos * closed_quantity) sdiv old_abs);
               realized_pnl = (if ps_signed_quantity pos > 0
                  then i64 (i64 (fill_price - ps_average_entry_price pos) * closed_quantity)
                  else i64 (i64 (ps_average_entry_price pos - fill_price) * closed_quantity))
           in \<lparr>fe_realized_pnl = realized_pnl, fe_released_margin = released_margin\<rparr>)"

definition has_account_delta :: "FillAccountEffect \<Rightarrow> bool" where
  "has_account_delta effect \<longleftrightarrow> fe_realized_pnl effect \<noteq> 0"

section \<open>The reserved margin is used up exactly\<close>

definition reservation_ok :: "OrderMetadata \<Rightarrow> bool" where
  "reservation_ok md \<longleftrightarrow> 0 < om_reserved_margin_amount md \<and> 0 < om_original_quantity md \<and>
     0 \<le> om_remaining_reserved_margin md \<and> om_remaining_reserved_margin md \<le> om_reserved_margin_amount md \<and>
     0 \<le> om_remaining_quantity md \<and> om_remaining_quantity md \<le> om_original_quantity md \<and>
     om_reserved_margin_amount md * om_original_quantity md < 2 ^ 63"

lemma allocate_fill_margin_ok:
  assumes ok: "reservation_ok md" and f: "0 < f" "f \<le> om_remaining_quantity md"
    and a: "allocate_fill_margin md f price = (allocated, md')"
  shows "0 \<le> allocated \<and> allocated \<le> om_remaining_reserved_margin md \<and> reservation_ok md' \<and>
    om_remaining_quantity md' = om_remaining_quantity md - f \<and>
    om_remaining_reserved_margin md' = om_remaining_reserved_margin md - allocated \<and>
    (f = om_remaining_quantity md \<longrightarrow> allocated = om_remaining_reserved_margin md) \<and>
    preview_fill_margin md f price = allocated"
proof -
  let ?R = "om_reserved_margin_amount md" and ?Q = "om_original_quantity md"
  have R: "0 < ?R" "0 < ?Q" "?R * ?Q < 2 ^ 63" "f \<le> ?Q"
    "0 \<le> om_remaining_reserved_margin md" "om_remaining_reserved_margin md \<le> ?R"
    using ok f by (auto simp: reservation_ok_def)
  have "?R * f \<le> ?R * ?Q" using R by (simp add: mult_left_mono)
  moreover have "0 < ?R * f" using R f by simp
  moreover have "?R * f < 2 ^ 63" using \<open>?R * f \<le> ?R * ?Q\<close> R(3) by (rule le_less_trans)
  ultimately have "in_i64 (?R * f)" by (simp only: in_i64_def) simp
  then have p: "0 \<le> (?R * f) div ?Q" "i64 (?R * f) = ?R * f"
    using \<open>0 < ?R * f\<close> R(2) by (simp_all add: pos_imp_zdiv_nonneg_iff)
  have "?R \<le> ?R * ?Q" "?Q \<le> ?R * ?Q" using R by (simp_all add: mult_le_cancel_left1 mult_le_cancel_right1)
  then have "?R < 2 ^ 63" "?Q < 2 ^ 63" using R(3) by (blast intro: le_less_trans)+
  then have s: "in_i64 (om_remaining_quantity md - f)"
    "0 \<le> x \<Longrightarrow> x < om_remaining_reserved_margin md \<Longrightarrow> in_i64 (om_remaining_reserved_margin md - x)" for x
    using ok f R by (auto simp: in_i64_def reservation_ok_def)
  have "(?R * f) sdiv ?Q = (?R * f) div ?Q" using \<open>0 < ?R * f\<close> R by (simp add: sdiv_pos)
  then show ?thesis
    using a f ok R p s
    by (auto simp: allocate_fill_margin_def preview_fill_margin_def Let_def reservation_ok_def split: if_splits)
qed

text \<open>The margins of a list of fills, each with its quantity and price.\<close>

fun allocate_fills :: "OrderMetadata \<Rightarrow> (int64 \<times> AdapterPrice) list \<Rightarrow> int64 list \<times> OrderMetadata" where
  "allocate_fills md [] = ([], md)"
| "allocate_fills md ((f, price) # fs) =
     (let (a, md) = allocate_fill_margin md f price; (as, md) = allocate_fills md fs in (a # as, md))"

lemma allocate_fills_ok:
  assumes "reservation_ok md" "\<forall>(f, p) \<in> set fs. 0 < f"
    "sum_list (map fst fs) \<le> om_remaining_quantity md" "allocate_fills md fs = (as, md')"
  shows "(\<forall>a \<in> set as. 0 \<le> a) \<and> reservation_ok md' \<and>
    sum_list as + om_remaining_reserved_margin md' = om_remaining_reserved_margin md \<and>
    om_remaining_quantity md' = om_remaining_quantity md - sum_list (map fst fs) \<and>
    (fs \<noteq> [] \<longrightarrow> sum_list (map fst fs) = om_remaining_quantity md \<longrightarrow> om_remaining_reserved_margin md' = 0)"
  using assms
proof (induction fs arbitrary: md as)
  case (Cons e fs)
  obtain f price where e: "e = (f, price)" by (cases e)
  obtain a md1 where a: "allocate_fill_margin md f price = (a, md1)"
    by (cases "allocate_fill_margin md f price")
  obtain as1 where as1: "allocate_fills md1 fs = (as1, md')" "as = a # as1"
    using Cons.prems(4) e a by (auto split: prod.splits)
  have pos: "0 \<le> sum_list (map fst fs)" using Cons.prems(2) by (intro sum_list_nonneg) auto
  have f: "0 < f" "f \<le> om_remaining_quantity md" using Cons.prems(2,3) e pos by auto
  note m = allocate_fill_margin_ok [OF Cons.prems(1) f a]
  have IH: "(\<forall>a \<in> set as1. 0 \<le> a) \<and> reservation_ok md' \<and>
    sum_list as1 + om_remaining_reserved_margin md' = om_remaining_reserved_margin md1 \<and>
    om_remaining_quantity md' = om_remaining_quantity md1 - sum_list (map fst fs) \<and>
    (fs \<noteq> [] \<longrightarrow> sum_list (map fst fs) = om_remaining_quantity md1 \<longrightarrow> om_remaining_reserved_margin md' = 0)"
    using Cons.prems m e as1(1) by (intro Cons.IH) auto
  show ?case
    using IH m e as1 by (cases "fs = []") auto
qed simp

section \<open>Profit is neither created nor lost\<close>

lemma abs_quantity_abs: "abs q < 2 ^ 63 \<Longrightarrow> abs_quantity q = abs q"
  by (auto simp: abs_quantity_def in_i64_def abs_if split: if_splits)

lemma i64_mult:
  assumes "abs a \<le> 2 ^ 31" "abs b \<le> 2 ^ 31"
  shows "i64 (a * b) = a * b" "abs (a * b) \<le> 2 ^ 62"
proof -
  have "abs a * abs b \<le> 2 ^ 31 * 2 ^ 31" using assms by (intro mult_mono) auto
  then show "abs (a * b) \<le> 2 ^ 62" by (simp add: abs_mult)
  then show "i64 (a * b) = a * b" by (intro i64_id) (auto simp: in_i64_def abs_le_iff)
qed

lemma i64_small: "abs x < 2 ^ 63 \<Longrightarrow> i64 x = x"
  by (intro i64_id) (auto simp: in_i64_def)

text \<open>The bounds under which no product of a fill overflows.\<close>

definition fill_in_range :: "IsolatedPositionState \<Rightarrow> int64 \<Rightarrow> AdapterPrice \<Rightarrow> AdapterPrice \<Rightarrow> bool" where
  "fill_in_range pos f p mark \<longleftrightarrow> abs (ps_signed_quantity pos) \<le> 2 ^ 29 \<and> abs f \<le> 2 ^ 29 \<and>
     0 \<le> ps_average_entry_price pos \<and> ps_average_entry_price pos \<le> 2 ^ 30 \<and> 0 \<le> p \<and> p \<le> 2 ^ 30 \<and>
     0 \<le> mark \<and> mark \<le> 2 ^ 30"

lemma unrealized_in_range:
  assumes "abs q \<le> 2 ^ 30" "0 \<le> a" "a \<le> 2 ^ 30" "0 \<le> mark" "mark \<le> 2 ^ 30"
  shows "i64 (i64 (mark - a) * q) = (mark - a) * q"
proof -
  have "i64 (mark - a) = mark - a" using assms by (intro i64_small) auto
  then show ?thesis using i64_mult(1) [of "mark - a" q] assms by auto
qed

lemma average_in_range:
  assumes "0 < x" "0 < y" "x \<le> 2 ^ 29" "y \<le> 2 ^ 29" "0 \<le> a" "a \<le> 2 ^ 30" "0 \<le> p" "p \<le> 2 ^ 30"
  shows "i64 (i64 (a * x) + i64 (p * y)) sdiv i64 (x + y) = (a * x + p * y) div (x + y)"
    "0 \<le> (a * x + p * y) div (x + y)" "(a * x + p * y) div (x + y) \<le> 2 ^ 30"
proof -
  have m: "i64 (a * x) = a * x" "i64 (p * y) = p * y" "abs (a * x) \<le> 2 ^ 62" "abs (p * y) \<le> 2 ^ 62"
    using i64_mult [of a x] i64_mult [of p y] assms by auto
  have s: "a * x \<le> 2 ^ 30 * x" "p * y \<le> 2 ^ 30 * y" using assms by (simp_all add: mult_right_mono)
  have nn: "0 \<le> a * x + p * y" using assms by simp
  have le: "a * x + p * y \<le> 2 ^ 30 * (x + y)" using s by (simp add: algebra_simps)
  also have "\<dots> \<le> 2 ^ 30 * 2 ^ 30" using assms by (intro mult_left_mono) auto
  finally have b: "i64 (a * x + p * y) = a * x + p * y" "i64 (x + y) = x + y"
    using nn assms by (auto intro!: i64_small)
  then show "i64 (i64 (a * x) + i64 (p * y)) sdiv i64 (x + y) = (a * x + p * y) div (x + y)"
    using m nn assms by (simp add: sdiv_pos)
  show "0 \<le> (a * x + p * y) div (x + y)" using nn assms by (simp add: pos_imp_zdiv_nonneg_iff)
  have "(a * x + p * y) div (x + y) \<le> (2 ^ 30 * (x + y)) div (x + y)" using le assms by (intro zdiv_mono1) auto
  also have "(2 ^ 30 * (x + y)) div (x + y) = 2 ^ 30" using assms by (intro nonzero_mult_div_cancel_right) simp
  finally show "(a * x + p * y) div (x + y) \<le> 2 ^ 30" .
qed

text \<open>
  The profit of a fill: what is realised plus what is unrealised afterwards is what was
  unrealised before plus the profit of the fill against the mark, up to the rounding of the
  average price when a position grows.
\<close>

definition fill_profit_gap :: "IsolatedPositionState \<Rightarrow> OrderMetadata \<Rightarrow> int64 \<Rightarrow> AdapterPrice \<Rightarrow> int64 \<Rightarrow>
    AdapterPrice \<Rightarrow> int" where
  "fill_profit_gap pos md f p fill_margin mark =
     fe_realized_pnl (account_effect_for_fill pos f p) +
     rs_unrealized_pnl (risk_from_position (apply_position_fill pos md f p fill_margin 0) mark 0) -
     (rs_unrealized_pnl (risk_from_position pos mark 0) + (mark - p) * f)"

lemma fill_profit:
  assumes r: "fill_in_range pos f p mark"
  shows "if ps_signed_quantity pos \<noteq> 0 \<and> same_direction (ps_signed_quantity pos) f
    then abs (fill_profit_gap pos md f p fill_margin mark) < abs (ps_signed_quantity pos + f)
    else fill_profit_gap pos md f p fill_margin mark = 0"
proof -
  let ?q = "ps_signed_quantity pos" and ?a = "ps_average_entry_price pos"
  let ?pos = "apply_position_fill pos md f p fill_margin 0"
  have q: "abs ?q \<le> 2 ^ 29" "abs f \<le> 2 ^ 29" "0 \<le> ?a" "?a \<le> 2 ^ 30" "0 \<le> p" "p \<le> 2 ^ 30" "0 \<le> mark" "mark \<le> 2 ^ 30"
    using r by (auto simp: fill_in_range_def)
  have nq: "i64 (?q + f) = ?q + f" using q by (intro i64_small) auto
  have ab: "abs_quantity ?q = abs ?q" "abs_quantity f = abs f" using q by (auto intro!: abs_quantity_abs)
  have u: "rs_unrealized_pnl (risk_from_position x mark 0) = (mark - ps_average_entry_price x) * ps_signed_quantity x"
    if "abs (ps_signed_quantity x) \<le> 2 ^ 30" "0 \<le> ps_average_entry_price x" "ps_average_entry_price x \<le> 2 ^ 30" for x
    using unrealized_in_range that q by (simp add: risk_from_position_def Let_def)
  have real: "i64 (i64 (p - ?a) * c) = (p - ?a) * c" "i64 (i64 (?a - p) * c) = (?a - p) * c" if "abs c \<le> 2 ^ 30" for c
    using unrealized_in_range that q by simp_all
  have u0: "rs_unrealized_pnl (risk_from_position pos mark 0) = (mark - ?a) * ?q"
  proof -
    have "abs ?q \<le> 2 ^ 30" using q(1) by simp
    from u [OF this q(3,4)] show ?thesis .
  qed
  show ?thesis
  proof (cases "?q \<noteq> 0 \<and> same_direction ?q f")
    case True
    let ?x = "abs ?q" and ?y = "abs f"
    have xy: "0 < ?x" "0 < ?y" "?x + ?y = abs (?q + f)" using True by (auto simp: same_direction_def)
    note av = average_in_range [OF xy(1,2) q(1,2,3,4,5,6)]
    let ?A = "(?a * ?x + p * ?y) div (?x + ?y)"
    have s: "ps_signed_quantity ?pos = ?q + f" "ps_average_entry_price ?pos = ?A"
      using True by (simp_all add: apply_position_fill_def Let_def nq ab av(1))
    have up: "rs_unrealized_pnl (risk_from_position ?pos mark 0) = (mark - ?A) * (?q + f)"
    proof -
      have "abs (ps_signed_quantity ?pos) \<le> 2 ^ 30" unfolding s using q(1,2) by simp
      moreover have "0 \<le> ps_average_entry_price ?pos" unfolding s by (rule av(2))
      moreover have "ps_average_entry_price ?pos \<le> 2 ^ 30" unfolding s by (rule av(3))
      ultimately show ?thesis using u [of ?pos] unfolding s by blast
    qed
    have "fe_realized_pnl (account_effect_for_fill pos f p) = 0"
      using True by (simp add: account_effect_for_fill_def)
    then have gap: "fill_profit_gap pos md f p fill_margin mark = ?a * ?q + p * f - ?A * (?q + f)"
      unfolding fill_profit_gap_def up u0 by (simp add: algebra_simps)
    have "?a * ?x + p * ?y = ?A * (?x + ?y) + (?a * ?x + p * ?y) mod (?x + ?y)"
      by (rule div_mult_mod_eq [symmetric])
    moreover have "0 \<le> (?a * ?x + p * ?y) mod (?x + ?y)" "(?a * ?x + p * ?y) mod (?x + ?y) < ?x + ?y"
      using xy(1,2) by simp_all
    ultimately have b: "0 \<le> ?a * ?x + p * ?y - ?A * (?x + ?y)" "?a * ?x + p * ?y - ?A * (?x + ?y) < ?x + ?y"
      by linarith+
    have "(?q = ?x \<and> f = ?y) \<or> (?q = - ?x \<and> f = - ?y)" using True by (auto simp: same_direction_def)
    then have "abs (?a * ?q + p * f - ?A * (?q + f)) = ?a * ?x + p * ?y - ?A * (?x + ?y)"
    proof
      assume e: "?q = ?x \<and> f = ?y"
      then have "?a * ?q + p * f - ?A * (?q + f) = ?a * ?x + p * ?y - ?A * (?x + ?y)" by metis
      then show ?thesis using b(1) by linarith
    next
      assume e: "?q = - ?x \<and> f = - ?y"
      have "?a * (- ?x) + p * (- ?y) - ?A * (- ?x + - ?y) = - (?a * ?x + p * ?y - ?A * (?x + ?y))"
        by (simp add: algebra_simps)
      then have "?a * ?q + p * f - ?A * (?q + f) = - (?a * ?x + p * ?y - ?A * (?x + ?y))" using e by metis
      then show ?thesis using b(1) by linarith
    qed
    then have "abs (fill_profit_gap pos md f p fill_margin mark) < abs (?q + f)"
      using b(2) by (simp only: gap flip: xy(3))
    then show ?thesis using True by simp
  next
    case False
    let ?c = "min (abs ?q) (abs f)"
    have re: "fe_realized_pnl (account_effect_for_fill pos f p) = (p - ?a) * (if ?q > 0 then ?c else - ?c)"
      if "?q \<noteq> 0"
    proof -
      have c: "abs ?c \<le> 2 ^ 30" using q(1,2) by simp
      have "fe_realized_pnl (account_effect_for_fill pos f p) =
          (if ?q > 0 then (p - ?a) * ?c else (?a - p) * ?c)"
        unfolding account_effect_for_fill_def Let_def ab real [OF c] using that False by simp
      then show ?thesis by (simp add: algebra_simps)
    qed
    consider (opens) "?q = 0" | (flat) "?q \<noteq> 0" "?q + f = 0"
      | (reduces) "?q \<noteq> 0" "same_direction ?q (?q + f)" | (flips) "?q \<noteq> 0" "?q + f \<noteq> 0" "\<not> same_direction ?q (?q + f)"
      by blast
    then have "fill_profit_gap pos md f p fill_margin mark = 0"
    proof cases
      case opens
      have s: "ps_signed_quantity ?pos = f" "ps_average_entry_price ?pos = p"
        using opens nq by (simp_all add: apply_position_fill_def Let_def)
      have "abs (ps_signed_quantity ?pos) \<le> 2 ^ 30" unfolding s using q(2) by simp
      then have "rs_unrealized_pnl (risk_from_position ?pos mark 0) = (mark - p) * f"
        using u [of ?pos] q(5,6) unfolding s by blast
      then show ?thesis
        unfolding fill_profit_gap_def u0 using opens by (simp add: account_effect_for_fill_def)
    next
      case flat
      have s: "ps_signed_quantity ?pos = 0" using flat False nq by (simp add: apply_position_fill_def Let_def split: prod.split)
      have up: "rs_unrealized_pnl (risk_from_position ?pos mark 0) = 0"
        unfolding risk_from_position_def Let_def s by (simp add: i64_def)
      have f: "f = - ?q" using flat by linarith
      have "fe_realized_pnl (account_effect_for_fill pos f p) = (p - ?a) * ?q"
        using re [OF flat(1)] f by (cases "?q > 0") auto
      then show ?thesis unfolding fill_profit_gap_def up u0 unfolding f by (simp add: algebra_simps)
    next
      case reduces
      have f: "(if ?q > 0 then ?c else - ?c) = - f" using reduces False by (auto simp: same_direction_def)
      have "?q + f \<noteq> 0" using reduces by (auto simp: same_direction_def)
      then have s: "ps_signed_quantity ?pos = ?q + f" "ps_average_entry_price ?pos = ?a"
        using reduces False nq by (simp_all add: apply_position_fill_def Let_def)
      have "abs (ps_signed_quantity ?pos) \<le> 2 ^ 30" unfolding s using q(1,2) by simp
      then have up: "rs_unrealized_pnl (risk_from_position ?pos mark 0) = (mark - ?a) * (?q + f)"
        using u [of ?pos] q(3,4) unfolding s by blast
      show ?thesis
        unfolding fill_profit_gap_def up u0 re [OF reduces(1)] f by (simp add: algebra_simps)
    next
      case flips
      have f: "(if ?q > 0 then ?c else - ?c) = ?q" using flips False by (auto simp: same_direction_def)
      have s: "ps_signed_quantity ?pos = ?q + f" "ps_average_entry_price ?pos = p"
        using flips False nq by (simp_all add: apply_position_fill_def Let_def)
      have "abs (ps_signed_quantity ?pos) \<le> 2 ^ 30" unfolding s using q(1,2) by simp
      then have up: "rs_unrealized_pnl (risk_from_position ?pos mark 0) = (mark - p) * (?q + f)"
        using u [of ?pos] q(5,6) unfolding s by blast
      show ?thesis
        unfolding fill_profit_gap_def up u0 re [OF flips(1)] f by (simp add: algebra_simps)
    qed
    then show ?thesis unfolding if_not_P [OF False] .
  qed
qed

end
