(* ===== verification/Translator.thy ===== *)
theory Translator
  imports Positions
begin

text \<open>
  \<open>src/src/runtime/EngineEventTranslator.cpp\<close>: the replies and public events the events of the
  core are translated into, with the changes a trade makes to metadata, positions and risk
  states.  A throw (a market without a positive id has no sequence) is \<open>Inl\<close> of its message, with
  the state it leaves.
\<close>

section \<open>Texts\<close>

definition side_text :: "Side \<Rightarrow> string" where
  "side_text s = (if s = Buy then ''LONG'' else ''SHORT'')"

definition adapter_side_text :: "AdapterSide \<Rightarrow> string" where
  "adapter_side_text s = (if s = Long then ''LONG'' else ''SHORT'')"

definition position_side_text :: "int64 \<Rightarrow> string" where
  "position_side_text signed_quantity =
     (if signed_quantity > 0 then ''LONG'' else if signed_quantity < 0 then ''SHORT'' else ''FLAT'')"

definition position_id_text :: "AdapterUserId \<Rightarrow> MarketId \<Rightarrow> string" where
  "position_id_text user_id market_id = ''pos_'' @ to_string user_id @ ''_'' @ to_string market_id"

fun reason_text :: "RejectReason \<Rightarrow> string" where
  "reason_text InvalidSymbol = ''invalid_symbol''"
| "reason_text InvalidPrice = ''invalid_price''"
| "reason_text InvalidQuantity = ''invalid_quantity''"
| "reason_text DuplicateCommand = ''duplicate_command''"
| "reason_text DuplicateOrder = ''duplicate_order''"
| "reason_text OrderNotFound = ''order_not_found''"
| "reason_text WouldSelfTrade = ''would_self_trade''"
| "reason_text MarketClosed = ''market_closed''"
| "reason_text InsufficientBalanceLiquidity = ''insufficient_balance_liquidity''"

definition fill_reason_text :: "EngineEventTranslationContext \<Rightarrow> string" where
  "fill_reason_text context =
     (if tc_adl_execution context then ''ADL''
      else if tc_command_kind context = KindLiquidatePosition then ''LIQUIDATION'' else ''TRADE'')"

definition account_delta_reason_text :: "EngineEventTranslationContext \<Rightarrow> string" where
  "account_delta_reason_text context =
     (if tc_adl_execution context then ''ADL_SETTLEMENT''
      else if tc_command_kind context = KindLiquidatePosition then ''LIQUIDATION_SETTLEMENT''
      else ''POSITION_CLOSE_SETTLEMENT'')"

text \<open>Objects of payload values are \<open>std::map\<close>s.\<close>

definition object_value :: "(string \<times> payload_value) list \<Rightarrow> payload_value" where
  "object_value es = PObject (fold (\<lambda>(k, v). sm_assign k v) es [])"

definition price_level_delta :: "Price \<Rightarrow> Quantity \<Rightarrow> payload_value" where
  "price_level_delta price quantity = object_value
     [(''price'', number_value price), (''quantity'', number_value (uint quantity))]"

section \<open>Records\<close>

definition add_source_fields :: "EngineEventTranslationContext \<Rightarrow> PayloadFields \<Rightarrow> PayloadFields" where
  "add_source_fields context pf =
     (let pf = (case tc_input_id context of None \<Rightarrow> pf | Some i \<Rightarrow> put_field ''source_input_id'' (PString i) pf);
          pf = put_field ''source_input_topic'' (PString (ir_topic (tc_source context))) pf;
          pf = put_field ''source_input_partition'' (number_value (ir_partition (tc_source context))) pf
      in put_field ''source_input_offset'' (text_value (ir_offset (tc_source context))) pf)"

definition add_engine_fields :: "Clock \<Rightarrow> MarketId \<Rightarrow> Emitter \<Rightarrow> PayloadFields \<Rightarrow>
    string + (PayloadFields \<times> Emitter)" where
  "add_engine_fields clock market_id em pf =
     ebind (market_next market_id (em_sequences em)) (\<lambda>(sequence, ms).
       let (now, em) = read_clock clock (em\<lparr>em_sequences := ms\<rparr>);
           pf = put_field ''engine_sequence'' (text_value (uint sequence)) pf;
           pf = put_field ''engine_event_id'' (PString (''eng_'' @ to_string market_id @ ''_'' @
                  to_string (uint sequence))) pf;
           pf = put_field ''engine_timestamp_ms'' (text_value now) pf
       in Inr (pf, em))"

definition make_reply :: "string \<Rightarrow> EngineEventTranslationContext \<Rightarrow> PayloadFields \<Rightarrow> EngineOutputRecord" where
  "make_reply type context pf =
     \<lparr>eo_topic = EngineRepliesTopic, eo_type = type, eo_key = tc_request_id context,
      eo_partition = Some (tc_reply_partition context),
      eo_payload = add_source_fields context (put_field ''request_id'' (PString (tc_request_id context)) pf)\<rparr>"

definition make_event :: "Clock \<Rightarrow> string \<Rightarrow> MarketId \<Rightarrow> EngineEventTranslationContext \<Rightarrow> Emitter \<Rightarrow>
    PayloadFields \<Rightarrow> string + (EngineOutputRecord \<times> Emitter)" where
  "make_event clock type market_id context em pf =
     ebind (add_engine_fields clock market_id em pf) (\<lambda>(pf, em).
       let pf = add_source_fields context pf;
           pf = (if tc_request_id context \<noteq> [] then put_field ''request_id'' (PString (tc_request_id context)) pf
                 else pf);
           pf = put_field ''market_id'' (text_value market_id) pf
       in Inr (\<lparr>eo_topic = EngineEventsTopic, eo_type = type, eo_key = to_string market_id,
                eo_partition = None, eo_payload = pf\<rparr>, em))"

section \<open>Metadata of the orders of an event\<close>

definition find_metadata :: "OrderId \<Rightarrow> EngineEventTranslationContext \<Rightarrow> OrderMetadataStore \<Rightarrow>
    OrderMetadata option" where
  "find_metadata order_id context st =
     (case tc_pending_metadata context of
        Some md \<Rightarrow> if om_order_id md = order_id then Some md else metadata_find order_id st
      | None \<Rightarrow> metadata_find order_id st)"

text \<open>
  The write through the pointer \<open>find_metadata_mutable\<close> returned: into the pending record of the
  context, or into the store.
\<close>

definition write_metadata :: "OrderId \<Rightarrow> OrderMetadata \<Rightarrow> EngineEventTranslationContext \<Rightarrow>
    OrderMetadataStore \<Rightarrow> EngineEventTranslationContext \<times> OrderMetadataStore" where
  "write_metadata order_id new context st =
     (case tc_pending_metadata context of
        Some md \<Rightarrow> if om_order_id md = order_id then (context\<lparr>tc_pending_metadata := Some new\<rparr>, st)
                   else (context, um_assign order_id new st)
      | None \<Rightarrow> (context, um_assign order_id new st))"

fun filled_order_ids :: "EngineEvent list \<Rightarrow> OrderId list" where
  "filled_order_ids [] = []"
| "filled_order_ids (OrderFilled e s oid # evs) = oid # filled_order_ids evs"
| "filled_order_ids (ev # evs) = filled_order_ids evs"

section \<open>Trades\<close>

text \<open>The fields of a \<open>TradeExecuted\<close> event.\<close>

record TradeEvent =
  tx_tradeId :: TradeId
  tx_symbolId :: SymbolId
  tx_makerOrderId :: OrderId
  tx_takerOrderId :: OrderId
  tx_price :: Price
  tx_quantity :: Quantity

definition trade_market :: "TradeEvent \<Rightarrow> MarketId" where
  "trade_market trade = uint (tx_symbolId trade)"

definition account_delta_reference_id :: "TradeEvent \<Rightarrow> EngineEventTranslationContext \<Rightarrow> string" where
  "account_delta_reference_id trade context =
     (if tc_adl_execution context \<and> tc_adl_id context \<noteq> [] then tc_adl_id context
      else if tc_command_kind context = KindLiquidatePosition \<and> tc_liquidation_id context \<noteq> []
      then tc_liquidation_id context
      else ''fill_'' @ to_string (uint (tx_tradeId trade)))"

definition account_delta_asset_for :: "IsolatedPositionState \<Rightarrow> OrderMetadata \<Rightarrow> string" where
  "account_delta_asset_for pos md =
     (if ps_margin_asset pos \<noteq> [] then ps_margin_asset pos
      else if om_margin_asset md = [] then ''USDC'' else om_margin_asset md)"

definition make_account_delta_event :: "Clock \<Rightarrow> OrderMetadata \<Rightarrow> IsolatedPositionState \<Rightarrow> TradeEvent \<Rightarrow>
    FillAccountEffect \<Rightarrow> EngineEventTranslationContext \<Rightarrow> Emitter \<Rightarrow>
    string + (EngineOutputRecord \<times> Emitter)" where
  "make_account_delta_event clock md previous trade effect context em =
     make_event clock ''AccountDelta'' (om_market_id md) context em
       [(''account_delta_id'', PString (''acct_fill_'' @ to_string (uint (tx_tradeId trade)) @ ''_'' @
           to_string (om_user_id md) @ ''_'' @ to_string (uint (om_order_id md)))),
        (''user_id'', number_value (om_user_id md)),
        (''asset'', PString (account_delta_asset_for previous md)),
        (''total_delta'', number_value (fe_realized_pnl effect)),
        (''locked_delta'', number_value 0),
        (''reason'', PString (account_delta_reason_text context)),
        (''reference_id'', PString (account_delta_reference_id trade context))]"

definition make_position_changed_event :: "Clock \<Rightarrow> IsolatedPositionState \<Rightarrow> int64 \<Rightarrow> AdapterPrice \<Rightarrow>
    int64 \<Rightarrow> AdapterPrice \<Rightarrow> EngineEventTranslationContext \<Rightarrow> Emitter \<Rightarrow>
    string + (EngineOutputRecord \<times> Emitter)" where
  "make_position_changed_event clock pos fill_quantity fill_price realized_pnl mark_price context em =
     (let unrealized_pnl = i64 (i64 (mark_price - ps_average_entry_price pos) * ps_signed_quantity pos);
          maintenance_margin = maintenance_margin_for (ps_signed_quantity pos) mark_price in
      make_event clock ''PositionChanged'' (ps_market_id pos) context em
       [(''user_id'', number_value (ps_user_id pos)),
        (''position_id'', PString (position_id_text (ps_user_id pos) (ps_market_id pos))),
        (''side'', PString (position_side_text (ps_signed_quantity pos))),
        (''signed_quantity'', number_value (ps_signed_quantity pos)),
        (''quantity'', number_value (abs_quantity (ps_signed_quantity pos))),
        (''average_entry_price'', number_value (ps_average_entry_price pos)),
        (''entry_price'', number_value (ps_average_entry_price pos)),
        (''mark_price'', number_value mark_price),
        (''isolated_margin'', number_value (ps_isolated_margin pos)),
        (''realized_pnl'', number_value realized_pnl),
        (''unrealized_pnl'', number_value unrealized_pnl),
        (''maintenance_margin'', number_value maintenance_margin),
        (''liquidation_price'', number_value 0),
        (''reason'', PString (fill_reason_text context)),
        (''margin_asset'', PString (ps_margin_asset pos)),
        (''leverage'', number_value (ps_leverage pos)),
        (''last_fill_quantity'', number_value fill_quantity),
        (''last_fill_price'', number_value fill_price)])"

text \<open>The payload of a risk state, which the runtime's own risk events share.\<close>

definition risk_payload :: "IsolatedRiskState \<Rightarrow> PayloadFields" where
  "risk_payload risk =
     [(''user_id'', number_value (rs_user_id risk)),
      (''position_id'', PString (position_id_text (rs_user_id risk) (rs_market_id risk))),
      (''status'', PString (rs_status risk)),
      (''signed_quantity'', number_value (rs_signed_quantity risk)),
      (''quantity'', number_value (abs_quantity (rs_signed_quantity risk))),
      (''average_entry_price'', number_value (rs_average_entry_price risk)),
      (''entry_price'', number_value (rs_average_entry_price risk)),
      (''mark_price'', number_value (rs_mark_price risk)),
      (''isolated_margin'', number_value (rs_isolated_margin risk)),
      (''unrealized_pnl'', number_value (rs_unrealized_pnl risk)),
      (''equity'', number_value (rs_equity risk)),
      (''maintenance_margin'', number_value (rs_maintenance_margin risk)),
      (''margin_ratio'', number_value (rs_margin_ratio risk)),
      (''margin_asset'', PString (rs_margin_asset risk)),
      (''leverage'', number_value (rs_leverage risk))]"

definition make_risk_state_updated_event :: "Clock \<Rightarrow> IsolatedRiskState \<Rightarrow> EngineEventTranslationContext \<Rightarrow>
    Emitter \<Rightarrow> string + (EngineOutputRecord \<times> Emitter)" where
  "make_risk_state_updated_event clock risk context em =
     make_event clock ''RiskStateUpdated'' (rs_market_id risk) context em (risk_payload risk)"

section \<open>The state of a translation\<close>

record TranslationState =
  tr_result :: EngineProcessResult
  tr_context :: EngineEventTranslationContext
  tr_metadata_store :: OrderMetadataStore
  tr_positions :: IsolatedPositionMap
  tr_risk_states :: IsolatedRiskMap
  tr_emitter :: Emitter

text \<open>A translation that throws leaves what it has changed so far behind.\<close>

type_synonym TranslationOutcome = "(string \<times> TranslationState) + TranslationState"

text \<open>Make an event in the current state and append it to the result.\<close>

definition emit :: "(EngineEventTranslationContext \<Rightarrow> Emitter \<Rightarrow> string + (EngineOutputRecord \<times> Emitter)) \<Rightarrow>
    TranslationState \<Rightarrow> TranslationOutcome" where
  "emit mk tr = ebind (catch (mk (tr_context tr) (tr_emitter tr)) (\<lambda>e. Inl (e, tr))) (\<lambda>(x, em).
     Inr (tr\<lparr>tr_result := push_event x (tr_result tr), tr_emitter := em\<rparr>))"

definition reply :: "EngineOutputRecord \<Rightarrow> TranslationState \<Rightarrow> TranslationState" where
  "reply x tr = tr\<lparr>tr_result := push_reply x (tr_result tr)\<rparr>"

text \<open>The body of the loop over the maker and the taker in \<open>append_position_and_risk_updates\<close>.\<close>

definition apply_fill_to_account :: "Clock \<Rightarrow> MarkPriceMap \<Rightarrow> TradeEvent \<Rightarrow> int64 \<Rightarrow> OrderId \<Rightarrow>
    TranslationState \<Rightarrow> TranslationOutcome" where
  "apply_fill_to_account clock mark_prices trade timestamp_ms order_id tr =
     (let fill_quantity = i64_of_u64 (tx_quantity trade);
          fill_price = tx_price trade in
      case find_metadata order_id (tr_context tr) (tr_metadata_store tr) of
        None \<Rightarrow> Inr tr
      | Some md \<Rightarrow>
          (let signed_fill = signed_fill_quantity md fill_quantity;
               (allocated_margin, md) = allocate_fill_margin md fill_quantity fill_price;
               (context, st) = write_metadata order_id md (tr_context tr) (tr_metadata_store tr);
               key = PositionRiskKey (om_user_id md) (om_market_id md);
               previous = (case sm_find (tr_positions tr) key of Some p \<Rightarrow> p | None \<Rightarrow> empty_position);
               effect = account_effect_for_fill previous signed_fill fill_price;
               pos = apply_position_fill previous md signed_fill fill_price allocated_margin timestamp_ms;
               risk = risk_from_position pos (mark_price_for (om_market_id md) fill_price mark_prices) timestamp_ms;
               tr = tr\<lparr>tr_context := context, tr_metadata_store := st,
                       tr_positions := sm_assign key pos (tr_positions tr),
                       tr_risk_states := sm_assign key risk (tr_risk_states tr)\<rparr> in
           ebind (if has_account_delta effect
                  then emit (make_account_delta_event clock md previous trade effect) tr else Inr tr) (\<lambda>tr.
           ebind (emit (make_position_changed_event clock pos fill_quantity fill_price
                    (fe_realized_pnl effect) (rs_mark_price risk)) tr) (\<lambda>tr.
           emit (make_risk_state_updated_event clock risk) tr))))"

definition append_position_and_risk_updates :: "Clock \<Rightarrow> MarkPriceMap \<Rightarrow> TradeEvent \<Rightarrow>
    TranslationState \<Rightarrow> TranslationOutcome" where
  "append_position_and_risk_updates clock mark_prices trade tr =
     (let (timestamp_ms, em) = read_clock clock (tr_emitter tr);
          tr = tr\<lparr>tr_emitter := em\<rparr> in
      ebind (apply_fill_to_account clock mark_prices trade timestamp_ms (tx_makerOrderId trade) tr)
        (apply_fill_to_account clock mark_prices trade timestamp_ms (tx_takerOrderId trade)))"

section \<open>Accepted and rejected orders\<close>

definition metadata_field :: "string \<Rightarrow> OrderMetadata option \<Rightarrow> (OrderMetadata \<Rightarrow> payload_value) \<Rightarrow>
    PayloadFields \<Rightarrow> PayloadFields" where
  "metadata_field k md f pf = (case md of None \<Rightarrow> pf | Some m \<Rightarrow> put_field k (f m) pf)"

definition append_order_accepted :: "Clock \<Rightarrow> OrderId \<Rightarrow> UserId \<Rightarrow> SymbolId \<Rightarrow> Side \<Rightarrow> Price \<Rightarrow> Quantity \<Rightarrow>
    OrderId list \<Rightarrow> TranslationState \<Rightarrow> TranslationOutcome" where
  "append_order_accepted clock oid user symbol side price quantity filled tr =
     (let context = tr_context tr;
          md = find_metadata oid context (tr_metadata_store tr);
          liquidation = (tc_command_kind context = KindLiquidatePosition);
          reply_pf = [(''order_id'', text_value (uint oid))];
          reply_type = (if liquidation then ''LiquidationAccepted'' else ''OrderAccepted'');
          reply_pf = (if liquidation
            then put_field ''liquidation_id'' (PString (tc_liquidation_id context)) reply_pf else reply_pf);
          reply_pf = metadata_field ''reservation_id'' md (PString \<circ> om_reservation_id) reply_pf;
          tr = reply (make_reply reply_type context reply_pf) tr in
      if liquidation \<or> \<not> tc_can_open_resting_order context \<or> oid \<in> set filled then Inr tr
      else emit (\<lambda>context em. make_event clock ''OrderOpened'' (uint symbol) context em
             (metadata_field ''reservation_id'' md (PString \<circ> om_reservation_id)
               [(''order_id'', text_value (uint oid)), (''user_id'', text_value (uint user)),
                (''side'', PString (side_text side)), (''price'', text_value price),
                (''quantity'', text_value (uint quantity))])) tr)"

definition settlement_asset_for :: "OrderMetadata option \<Rightarrow> string" where
  "settlement_asset_for md = (case md of
      None \<Rightarrow> ''USDC'' | Some m \<Rightarrow> if om_margin_asset m = [] then ''USDC'' else om_margin_asset m)"

definition append_order_rejected :: "Clock \<Rightarrow> OrderId option \<Rightarrow> RejectReason \<Rightarrow> TranslationState \<Rightarrow>
    TranslationOutcome" where
  "append_order_rejected clock rejected_id reason tr =
     (let context = tr_context tr;
          pf = [(''reason'', PString (reason_text reason))];
          oid = (case rejected_id of Some i \<Rightarrow> i | None \<Rightarrow> of_int (tc_order_id context));
          pf = (if oid \<noteq> 0 then put_field ''order_id'' (text_value (uint oid)) pf else pf);
          md = find_metadata oid context (tr_metadata_store tr);
          pf = metadata_field ''reservation_id'' md (PString \<circ> om_reservation_id) pf;
          liquidation = (tc_command_kind context = KindLiquidatePosition);
          reply_type = (if tc_command_kind context = KindCancelOrder then ''CancelRejected''
                        else if liquidation then ''LiquidationRejected'' else ''OrderRejected'');
          pf = (if liquidation then put_field ''liquidation_id'' (PString (tc_liquidation_id context)) pf else pf);
          tr = reply (make_reply reply_type context pf) tr in
      case md of
        None \<Rightarrow> Inr tr
      | Some m \<Rightarrow>
          if tc_command_kind context \<noteq> KindPlaceOrder \<or> om_reservation_id m = [] \<or>
             om_remaining_reserved_margin m \<le> 0
          then Inr tr
          else emit (\<lambda>context em. make_event clock ''ReservationReleased'' (om_market_id m) context em
             [(''reservation_id'', PString (om_reservation_id m)), (''user_id'', number_value (om_user_id m)),
              (''asset'', PString (settlement_asset_for md)),
              (''released_amount'', number_value (om_remaining_reserved_margin m)),
              (''reason'', PString ''ORDER_REJECTED_AFTER_RESERVATION'')]) tr)"

section \<open>Executed trades\<close>

definition liquidation_fee_for :: "TradeEvent \<Rightarrow> int64" where
  "liquidation_fee_for trade = i64 (tx_price trade * i64_of_u64 (tx_quantity trade)) sdiv 200"

definition liquidation_fee_for_context :: "TradeEvent \<Rightarrow> EngineEventTranslationContext \<Rightarrow> int64" where
  "liquidation_fee_for_context trade context =
     (if tc_adl_execution context then 0 else liquidation_fee_for trade)"

definition liquidation_fee_deltas :: "TradeEvent \<Rightarrow> OrderMetadata option \<Rightarrow> EngineEventTranslationContext \<Rightarrow>
    payload_value list" where
  "liquidation_fee_deltas trade taker context = [object_value
     [(''user_id'', number_value (tc_liquidated_user_id context)),
      (''asset'', PString (settlement_asset_for taker)),
      (''amount'', number_value (liquidation_fee_for_context trade context)),
      (''fee_type'', PString ''LIQUIDATION'')]]"

definition settlement_value :: "OrderMetadata \<Rightarrow> int64 \<Rightarrow> payload_value" where
  "settlement_value m margin = (let asset = settlement_asset_for (Some m) in object_value
     [(''reservation_id'', PString (om_reservation_id m)), (''debit_asset'', PString asset),
      (''debit_amount'', number_value margin), (''credit_asset'', PString asset),
      (''credit_amount'', number_value margin)])"

definition append_settlement_for :: "payload_value list \<Rightarrow> OrderMetadata option \<Rightarrow> TradeEvent \<Rightarrow>
    payload_value list" where
  "append_settlement_for settlements md trade = (case md of
      None \<Rightarrow> settlements
    | Some m \<Rightarrow>
        if om_reservation_id m = [] \<or> om_reduce_only m then settlements
        else let margin = preview_fill_margin m (i64_of_u64 (tx_quantity trade)) (tx_price trade)
             in if margin \<le> 0 then settlements else settlements @ [settlement_value m margin])"

definition normal_settlements :: "TradeEvent \<Rightarrow> OrderMetadata option \<Rightarrow> OrderMetadata option \<Rightarrow>
    payload_value list" where
  "normal_settlements trade maker taker =
     append_settlement_for (append_settlement_for [] maker trade) taker trade"

definition liquidation_settlements :: "TradeEvent \<Rightarrow> OrderMetadata option \<Rightarrow> payload_value list" where
  "liquidation_settlements trade maker = (case maker of
      None \<Rightarrow> []
    | Some m \<Rightarrow> if om_reservation_id m = [] then []
        else [settlement_value m (preview_fill_margin m (i64_of_u64 (tx_quantity trade)) (tx_price trade))])"

definition make_liquidation_executed_event :: "Clock \<Rightarrow> TradeEvent \<Rightarrow> OrderMetadata option \<Rightarrow>
    EngineEventTranslationContext \<Rightarrow> Emitter \<Rightarrow> string + (EngineOutputRecord \<times> Emitter)" where
  "make_liquidation_executed_event clock trade taker context em =
     (if tc_adl_execution context
      then make_event clock ''AdlExecuted'' (trade_market trade) context em
       [(''adl_id'', PString (tc_adl_id context)),
        (''liquidation_id'', PString (tc_liquidation_id context)),
        (''liquidated_user_id'', number_value (tc_liquidated_user_id context)),
        (''deleveraged_user_id'', number_value (tc_adl_counterparty_user_id context)),
        (''position_side'', PString (adapter_side_text (tc_liquidation_position_side context))),
        (''quantity'', number_value (uint (tx_quantity trade))),
        (''price'', number_value (tx_price trade)),
        (''rank'', number_value (tc_adl_priority_rank context)),
        (''reason'', PString ''INSURANCE_FUND_INSUFFICIENT'')]
      else make_event clock ''LiquidationExecuted'' (trade_market trade) context em
       [(''liquidation_id'', PString (tc_liquidation_id context)),
        (''fill_id'', number_value (uint (tx_tradeId trade))),
        (''trade_id'', number_value (uint (tx_tradeId trade))),
        (''price'', number_value (tx_price trade)),
        (''quantity'', number_value (uint (tx_quantity trade))),
        (''execution_reason'', PString ''LIQUIDATION''),
        (''liquidated_user_id'', number_value (tc_liquidated_user_id context)),
        (''user_id'', number_value (tc_liquidated_user_id context)),
        (''position_side'', PString (adapter_side_text (tc_liquidation_position_side context))),
        (''liquidation_fee'', number_value (liquidation_fee_for_context trade context)),
        (''fee_asset'', PString (settlement_asset_for taker))])"

definition trade_payload :: "TradeEvent \<Rightarrow> OrderMetadata option \<Rightarrow> OrderMetadata option \<Rightarrow>
    EngineEventTranslationContext \<Rightarrow> PayloadFields" where
  "trade_payload trade maker taker context =
     (let is_liquidation = (tc_command_kind context = KindLiquidatePosition);
          is_adl = tc_adl_execution context;
          pf = [(''trade_id'', text_value (uint (tx_tradeId trade))),
            (''fill_id'', text_value (uint (tx_tradeId trade))),
            (''price'', text_value (tx_price trade)),
            (''quantity'', text_value (uint (tx_quantity trade))),
            (''maker_order_id'', text_value (uint (tx_makerOrderId trade))),
            (''taker_order_id'', text_value (uint (tx_takerOrderId trade))),
            (''execution_reason'', PString (if is_liquidation then ''LIQUIDATION'' else ''TRADE'')),
            (''fee_deltas'', PArray (if is_liquidation \<and> \<not> is_adl
               then liquidation_fee_deltas trade taker context else [])),
            (''settlements'', PArray (if is_liquidation
               then (if \<not> is_adl then liquidation_settlements trade maker else [])
               else normal_settlements trade maker taker))];
          pf = metadata_field ''maker_user_id'' maker (text_value \<circ> om_user_id) pf;
          pf = metadata_field ''maker_reservation_id'' maker (PString \<circ> om_reservation_id) pf;
          pf = metadata_field ''taker_user_id'' taker (text_value \<circ> om_user_id) pf;
          pf = metadata_field ''taker_reservation_id'' taker (PString \<circ> om_reservation_id) pf;
          pf = (if is_liquidation
            then put_field ''liquidation_fee'' (number_value (liquidation_fee_for_context trade context))
                  (put_field ''position_side'' (PString (adapter_side_text (tc_liquidation_position_side context)))
                  (put_field ''liquidated_user_id'' (number_value (tc_liquidated_user_id context))
                  (put_field ''liquidation_id'' (PString (tc_liquidation_id context)) pf)))
            else pf)
      in if is_adl
         then put_field ''adl_priority_rank'' (number_value (tc_adl_priority_rank context))
               (put_field ''counterparty_user_id'' (number_value (tc_adl_counterparty_user_id context))
               (put_field ''adl_id'' (PString (tc_adl_id context)) pf))
         else pf)"

definition append_trade_executed :: "Clock \<Rightarrow> MarkPriceMap \<Rightarrow> TradeEvent \<Rightarrow> TranslationState \<Rightarrow>
    TranslationOutcome" where
  "append_trade_executed clock mark_prices trade tr =
     (let context = tr_context tr;
          maker = find_metadata (tx_makerOrderId trade) context (tr_metadata_store tr);
          taker = find_metadata (tx_takerOrderId trade) context (tr_metadata_store tr) in
      ebind (emit (\<lambda>context em. make_event clock ''TradeExecuted'' (trade_market trade) context em
               (trade_payload trade maker taker context)) tr) (\<lambda>tr.
      ebind (if tc_command_kind context = KindLiquidatePosition
             then emit (make_liquidation_executed_event clock trade taker) tr else Inr tr) (\<lambda>tr.
      append_position_and_risk_updates clock mark_prices trade tr)))"

section \<open>Cancelled orders and book changes\<close>

definition append_order_cancelled :: "Clock \<Rightarrow> OrderId \<Rightarrow> Quantity \<Rightarrow> TranslationState \<Rightarrow>
    TranslationOutcome" where
  "append_order_cancelled clock oid released tr =
     (let context = tr_context tr;
          md = find_metadata oid context (tr_metadata_store tr);
          market_id = (case md of Some m \<Rightarrow> om_market_id m | None \<Rightarrow> tc_market_id context);
          tr = reply (make_reply ''CancelAccepted'' context [(''order_id'', text_value (uint oid))]) tr;
          pf = [(''order_id'', text_value (uint oid)), (''released_quantity'', text_value (uint released))];
          pf = (case md of
              Some m \<Rightarrow> put_field ''released_amount'' (number_value (om_remaining_reserved_margin m))
                         (put_field ''user_id'' (text_value (om_user_id m))
                         (put_field ''reservation_id'' (PString (om_reservation_id m)) pf))
            | None \<Rightarrow> put_field ''released_amount'' (number_value 0) pf) in
      emit (\<lambda>context em. make_event clock ''OrderCancelled'' market_id context em pf) tr)"

definition append_orderbook_delta :: "Clock \<Rightarrow> SymbolId \<Rightarrow> Side \<Rightarrow> Price \<Rightarrow> Quantity \<Rightarrow> TranslationState \<Rightarrow>
    TranslationOutcome" where
  "append_orderbook_delta clock symbol side price tot tr =
     emit (\<lambda>context em. make_event clock ''OrderBookDelta'' (uint symbol) context em
       [(''side'', PString (side_text side)), (''price'', text_value price),
        (''quantity'', text_value (uint tot)),
        (''bids'', PArray (if side = Buy then [price_level_delta price tot] else [])),
        (''asks'', PArray (if side = Sell then [price_level_delta price tot] else []))]) tr"

section \<open>Translating the events of a command\<close>

fun translate_event :: "Clock \<Rightarrow> MarkPriceMap \<Rightarrow> OrderId list \<Rightarrow> EngineEvent \<Rightarrow> TranslationState \<Rightarrow>
    TranslationOutcome" where
  "translate_event clock mps filled (OrderAccepted e s oid coid user sy sd p q) tr =
     append_order_accepted clock oid user sy sd p q filled tr"
| "translate_event clock mps filled (OrderRejected e s c oid user sy reason) tr =
     append_order_rejected clock oid reason tr"
| "translate_event clock mps filled (TradeExecuted e s t sy maker taker p q) tr =
     append_trade_executed clock mps \<lparr>tx_tradeId = t, tx_symbolId = sy, tx_makerOrderId = maker,
       tx_takerOrderId = taker, tx_price = p, tx_quantity = q\<rparr> tr"
| "translate_event clock mps filled (OrderCancelled e s oid released) tr =
     append_order_cancelled clock oid released tr"
| "translate_event clock mps filled (OrderBookDelta e s sy sd p q) tr =
     append_orderbook_delta clock sy sd p q tr"
| "translate_event clock mps filled (OrderPartial e s oid f r) tr = Inr tr"
| "translate_event clock mps filled (OrderFilled e s oid) tr = Inr tr"

fun translate_events :: "Clock \<Rightarrow> MarkPriceMap \<Rightarrow> OrderId list \<Rightarrow> EngineEvent list \<Rightarrow> TranslationState \<Rightarrow>
    TranslationOutcome" where
  "translate_events clock mps filled [] tr = Inr tr"
| "translate_events clock mps filled (ev # evs) tr =
     ebind (translate_event clock mps filled ev tr) (translate_events clock mps filled evs)"

definition translate :: "Clock \<Rightarrow> MarkPriceMap \<Rightarrow> EngineEvent list \<Rightarrow> TranslationState \<Rightarrow>
    TranslationOutcome" where
  "translate clock mark_prices core_events tr =
     translate_events clock mark_prices (filled_order_ids core_events) core_events
       (tr\<lparr>tr_result := empty_result\<rparr>)"

end
