(* ===== verification/RuntimeRecords.thy ===== *)
theory RuntimeRecords
  imports Translator "HOL-Library.Product_Lexorder"
begin

text \<open>
  The free functions of \<open>src/src/runtime/EngineRuntime.cpp\<close> that look at positions and risk
  states: the reduce-only check, the prices and quantities of a liquidation, the selection of
  liquidation and deleveraging candidates.
\<close>

section \<open>Inbound records\<close>

definition broker_topic_from_string :: "string \<Rightarrow> BrokerTopic" where
  "broker_topic_from_string topic =
     (if topic = EngineRepliesTopic then EngineReplies
      else if topic = EngineEventsTopic then EngineEvents else EngineInput)"

definition broker_context :: "InboundEngineRecord \<Rightarrow> BrokerRecordContext" where
  "broker_context r = \<lparr>bc_topic = broker_topic_from_string (ir_topic r), bc_partition = ir_partition r,
     bc_offset = ir_offset r, bc_key = ir_key r\<rparr>"

definition received_sequence :: "InboundEngineRecord \<Rightarrow> EngineSequence" where
  "received_sequence r = (if ir_offset r < 0 then 0 else u64_of_i64 (ir_offset r))"

section \<open>Core events\<close>

definition has_order_accepted :: "EngineEvent list \<Rightarrow> bool" where
  "has_order_accepted evs \<longleftrightarrow> list_ex is_order_accepted evs"

fun is_trade_executed :: "EngineEvent \<Rightarrow> bool" where
  "is_trade_executed (TradeExecuted e s t sy m k p q) = True"
| "is_trade_executed _ = False"

definition has_trade_executed :: "EngineEvent list \<Rightarrow> bool" where
  "has_trade_executed evs \<longleftrightarrow> list_ex is_trade_executed evs"

fun cleanup_completed_order_metadata :: "EngineEvent list \<Rightarrow> OrderMetadataStore \<Rightarrow> OrderMetadataStore" where
  "cleanup_completed_order_metadata [] st = st"
| "cleanup_completed_order_metadata (OrderCancelled e s oid r # evs) st =
     cleanup_completed_order_metadata evs (snd (metadata_erase oid st))"
| "cleanup_completed_order_metadata (OrderFilled e s oid # evs) st =
     cleanup_completed_order_metadata evs (snd (metadata_erase oid st))"
| "cleanup_completed_order_metadata (ev # evs) st = cleanup_completed_order_metadata evs st"

definition reduce_only_filled_quantity :: "OrderId \<Rightarrow> EngineEvent list \<Rightarrow> int64" where
  "reduce_only_filled_quantity order_id evs = fold (\<lambda>ev filled. case ev of
      TradeExecuted e s t sy maker taker p q \<Rightarrow>
        if taker = order_id then i64 (filled + i64_of_u64 q) else filled
    | _ \<Rightarrow> filled) evs 0"

definition can_open_resting_order :: "PlaceOrderInput \<Rightarrow> bool" where
  "can_open_resting_order inp \<longleftrightarrow>
     pi_order_type inp = ALimit \<and> (pi_time_in_force inp = AGtc \<or> pi_time_in_force inp = APostOnly)"

section \<open>Positions, sides and prices\<close>

definition mark_state_from_input :: "MarkPriceUpdatedInput \<Rightarrow> MarkPriceState" where
  "mark_state_from_input inp = \<lparr>mp_market_id = mi_market_id inp, mp_mark_price = mi_mark_price inp,
     mp_index_price = mi_index_price inp, mp_source_timestamp_ms = mi_source_timestamp_ms inp,
     mp_published_at_ms = mi_published_at_ms inp, mp_valid_until_ms = mi_valid_until_ms inp,
     mp_source_sequence = mi_source_sequence inp, mp_source_status = mi_source_status inp\<rparr>"

record FundingRateState =
  fr_market_id :: MarketId
  fr_funding_interval_id :: string
  fr_rate :: int64
  fr_rate_scale :: int64
  fr_interval_start_ms :: int64
  fr_interval_end_ms :: int64
  fr_source_timestamp_ms :: int64

definition funding_rate_state_from_input :: "FundingRateUpdatedInput \<Rightarrow> FundingRateState" where
  "funding_rate_state_from_input inp = \<lparr>fr_market_id = fi_market_id inp,
     fr_funding_interval_id = fi_funding_interval_id inp, fr_rate = fi_rate inp,
     fr_rate_scale = fi_rate_scale inp, fr_interval_start_ms = fi_interval_start_ms inp,
     fr_interval_end_ms = fi_interval_end_ms inp, fr_source_timestamp_ms = fi_source_timestamp_ms inp\<rparr>"

definition side_matches_position :: "AdapterSide \<Rightarrow> int64 \<Rightarrow> bool" where
  "side_matches_position side signed_quantity \<longleftrightarrow>
     (side = Long \<and> signed_quantity > 0) \<or> (side = Short \<and> signed_quantity < 0)"

definition side_reduces_position :: "AdapterSide \<Rightarrow> int64 \<Rightarrow> bool" where
  "side_reduces_position side signed_quantity \<longleftrightarrow>
     (side = Long \<and> signed_quantity < 0) \<or> (side = Short \<and> signed_quantity > 0)"

definition liquidation_order_side :: "int64 \<Rightarrow> AdapterSide" where
  "liquidation_order_side signed_quantity = (if signed_quantity > 0 then Short else Long)"

definition position_adapter_side :: "int64 \<Rightarrow> AdapterSide" where
  "position_adapter_side signed_quantity = (if signed_quantity \<ge> 0 then Long else Short)"

definition liquidation_quantity :: "LiquidatePositionInput \<Rightarrow> IsolatedPositionState \<Rightarrow> AdapterQuantity" where
  "liquidation_quantity inp pos =
     (let position_quantity = abs_quantity (ps_signed_quantity pos) in
      if li_quantity inp \<le> 0 then position_quantity else min (li_quantity inp) position_quantity)"

definition liquidation_price :: "LiquidatePositionInput \<Rightarrow> IsolatedPositionState \<Rightarrow> MarkPriceMap \<Rightarrow>
    AdapterPrice" where
  "liquidation_price inp pos mark_prices =
     (if li_price inp > 0 then li_price inp
      else case um_find mark_prices (li_market_id inp) of
          Some m \<Rightarrow> if mp_mark_price m > 0 then mp_mark_price m else ps_average_entry_price pos
        | None \<Rightarrow> ps_average_entry_price pos)"

definition liquidation_order_id :: "string \<Rightarrow> string + AdapterOrderId" where
  "liquidation_order_id liquidation_id =
     ebind (command_id_from_request_id liquidation_id) (\<lambda>raw.
       let bounded = raw AND (2 ^ 63 - 1);
           bounded = (if bounded = 0 then 1 else bounded)
       in Inr (uint bounded))"

definition crossing_liquidity_exists :: "EngineCore \<Rightarrow> MarketId \<Rightarrow> AdapterSide \<Rightarrow> AdapterPrice \<Rightarrow>
    bool option" where
  "crossing_liquidity_exists core market_id order_side price =
     (if price \<le> 0 \<or> market_id \<le> 0 \<or> market_id > 2 ^ 32 - 1 then Some False
      else case get_order_book (of_int market_id) core of
          None \<Rightarrow> Some False
        | Some book \<Rightarrow> do {
            best \<leftarrow> (if order_side = Long then best_ask book else best_bid book);
            (case best of
               None \<Rightarrow> Some False
             | Some l \<Rightarrow> do {
                 L \<leftarrow> lread (ob_heap book) l;
                 Some (\<not> quantity_is_zero (pl_totalQuantity L) \<and>
                   (if order_side = Long then pl_price L \<le> price else pl_price L \<ge> price)) }) })"

definition settlement_mark_price_for :: "IsolatedPositionState \<Rightarrow> MarkPriceMap \<Rightarrow> AdapterPrice" where
  "settlement_mark_price_for pos mark_prices =
     (case um_find mark_prices (ps_market_id pos) of
        None \<Rightarrow> ps_average_entry_price pos | Some m \<Rightarrow> mp_mark_price m)"

definition position_settlement_asset :: "IsolatedPositionState \<Rightarrow> string" where
  "position_settlement_asset pos = (if ps_margin_asset pos = [] then ''USDC'' else ps_margin_asset pos)"

text \<open>
  The runtime's own \<open>risk_from_position\<close>: it carries over what funding payments and earlier fills
  have moved the equity away from margin plus unrealised profit.
\<close>

definition runtime_risk_from_position :: "IsolatedPositionState \<Rightarrow> AdapterPrice \<Rightarrow> int64 \<Rightarrow>
    IsolatedRiskState option \<Rightarrow> IsolatedRiskState" where
  "runtime_risk_from_position pos mark_price updated_at_ms previous_risk =
     (let unrealized_pnl = i64 (i64 (mark_price - ps_average_entry_price pos) * ps_signed_quantity pos);
          maintenance_margin = maintenance_margin_for (ps_signed_quantity pos) mark_price;
          equity_adjustment = (case previous_risk of
              None \<Rightarrow> 0
            | Some r \<Rightarrow> i64 (rs_equity r - i64 (rs_isolated_margin r + rs_unrealized_pnl r)));
          equity = i64 (i64 (ps_isolated_margin pos + unrealized_pnl) + equity_adjustment)
      in \<lparr>rs_user_id = ps_user_id pos, rs_market_id = ps_market_id pos,
          rs_status = risk_status_for (ps_signed_quantity pos) equity maintenance_margin,
          rs_margin_asset = position_settlement_asset pos, rs_signed_quantity = ps_signed_quantity pos,
          rs_average_entry_price = ps_average_entry_price pos, rs_mark_price = mark_price,
          rs_isolated_margin = ps_isolated_margin pos, rs_unrealized_pnl = unrealized_pnl,
          rs_equity = equity, rs_maintenance_margin = maintenance_margin,
          rs_margin_ratio = margin_ratio_for equity maintenance_margin,
          rs_leverage = ps_leverage pos, rs_updated_at_ms = updated_at_ms\<rparr>)"

section \<open>Reduce-only orders\<close>

record ReduceOnlyCheck =
  ro_allowed :: bool
  ro_reason :: string
  ro_capped_quantity :: AdapterQuantity

definition check_reduce_only_order :: "PlaceOrderInput \<Rightarrow> IsolatedPositionMap \<Rightarrow> ReduceOnlyCheck" where
  "check_reduce_only_order inp positions =
     (if \<not> pi_reduce_only inp
      then \<lparr>ro_allowed = True, ro_reason = [], ro_capped_quantity = pi_quantity inp\<rparr>
      else case sm_find positions (PositionRiskKey (ce_user_id (pi_envelope inp)) (pi_market_id inp)) of
          None \<Rightarrow> \<lparr>ro_allowed = False, ro_reason = ''reduce_only_no_position'', ro_capped_quantity = 0\<rparr>
        | Some pos \<Rightarrow>
            if ps_signed_quantity pos = 0
            then \<lparr>ro_allowed = False, ro_reason = ''reduce_only_no_position'', ro_capped_quantity = 0\<rparr>
            else if \<not> side_reduces_position (pi_side inp) (ps_signed_quantity pos)
            then \<lparr>ro_allowed = False, ro_reason = ''reduce_only_wrong_side'', ro_capped_quantity = 0\<rparr>
            else \<lparr>ro_allowed = True, ro_reason = [],
                  ro_capped_quantity = min (pi_quantity inp) (abs_quantity (ps_signed_quantity pos))\<rparr>)"

section \<open>Candidates for deleveraging and liquidation\<close>

record AdlCandidate =
  ac_key :: PositionRiskKey
  ac_position :: IsolatedPositionState
  ac_available_quantity :: int64
  ac_unrealized_pnl :: int64
  ac_leverage :: int32
  ac_margin_ratio :: int64

definition has_opposing_exposure :: "int64 \<Rightarrow> int64 \<Rightarrow> bool" where
  "has_opposing_exposure liquidated_quantity candidate_quantity \<longleftrightarrow>
     (liquidated_quantity > 0 \<and> candidate_quantity < 0) \<or> (liquidated_quantity < 0 \<and> candidate_quantity > 0)"

fun collect_adl_candidates :: "LiquidatePositionInput \<Rightarrow> IsolatedPositionState \<Rightarrow> IsolatedRiskMap \<Rightarrow>
    IsolatedPositionMap \<Rightarrow> AdlCandidate list" where
  "collect_adl_candidates inp liquidated risk_states [] = []"
| "collect_adl_candidates inp liquidated risk_states ((key, pos) # ps) =
     (let rest = collect_adl_candidates inp liquidated risk_states ps in
      if rk_market_id key \<noteq> li_market_id inp \<or> rk_user_id key = li_liquidated_user_id inp \<or>
         ps_signed_quantity pos = 0 \<or>
         \<not> has_opposing_exposure (ps_signed_quantity liquidated) (ps_signed_quantity pos)
      then rest
      else case sm_find risk_states key of
          None \<Rightarrow> rest
        | Some risk \<Rightarrow>
            if rs_unrealized_pnl risk \<le> 0 then rest
            else \<lparr>ac_key = key, ac_position = pos,
                   ac_available_quantity = abs_quantity (ps_signed_quantity pos),
                   ac_unrealized_pnl = rs_unrealized_pnl risk, ac_leverage = rs_leverage risk,
                   ac_margin_ratio = rs_margin_ratio risk\<rparr> # rest)"

text \<open>
  The order of \<open>std::sort\<close>: profit and leverage descending, margin ratio ascending, quantity
  descending, user id ascending; the last key makes it total.
\<close>

definition adl_rank :: "AdlCandidate \<Rightarrow> int \<times> int \<times> int \<times> int \<times> int" where
  "adl_rank c = (- ac_unrealized_pnl c, - ac_leverage c, ac_margin_ratio c, - ac_available_quantity c,
     rk_user_id (ac_key c))"

definition adl_candidates_for :: "LiquidatePositionInput \<Rightarrow> IsolatedPositionState \<Rightarrow> IsolatedPositionMap \<Rightarrow>
    IsolatedRiskMap \<Rightarrow> AdlCandidate list" where
  "adl_candidates_for inp liquidated positions risk_states =
     sort_key adl_rank (collect_adl_candidates inp liquidated risk_states positions)"

fun sum_adl_available :: "int64 \<Rightarrow> int64 \<Rightarrow> AdlCandidate list \<Rightarrow> int64" where
  "sum_adl_available limit available [] = available"
| "sum_adl_available limit available (c # cs) =
     (let available = i64 (available + ac_available_quantity c)
      in if available \<ge> limit then limit else sum_adl_available limit available cs)"

definition total_adl_available :: "AdlCandidate list \<Rightarrow> int64 \<Rightarrow> int64" where
  "total_adl_available cs limit = sum_adl_available limit 0 cs"

record AutomaticLiquidationCandidate =
  lc_key :: PositionRiskKey
  lc_position :: IsolatedPositionState
  lc_risk :: IsolatedRiskState
  lc_notional :: int64

fun collect_liquidation_candidates :: "MarketId \<Rightarrow> IsolatedPositionMap \<Rightarrow> PositionRiskKey set \<Rightarrow>
    IsolatedRiskMap \<Rightarrow> AutomaticLiquidationCandidate list" where
  "collect_liquidation_candidates market_id positions attempted [] = []"
| "collect_liquidation_candidates market_id positions attempted ((key, risk) # rs) =
     (let rest = collect_liquidation_candidates market_id positions attempted rs in
      if rk_market_id key \<noteq> market_id \<or> rs_status risk \<noteq> ''LIQUIDATABLE'' \<or> rs_signed_quantity risk = 0 \<or>
         key \<in> attempted
      then rest
      else case sm_find positions key of
          None \<Rightarrow> rest
        | Some pos \<Rightarrow>
            if ps_signed_quantity pos = 0 then rest
            else let price = (if rs_mark_price risk > 0 then rs_mark_price risk else ps_average_entry_price pos)
                 in \<lparr>lc_key = key, lc_position = pos, lc_risk = risk,
                     lc_notional = notional_value (ps_signed_quantity pos) price\<rparr> # rest)"

definition liquidation_rank :: "AutomaticLiquidationCandidate \<Rightarrow> int \<times> int \<times> int \<times> int" where
  "liquidation_rank c = (rs_margin_ratio (lc_risk c), rs_equity (lc_risk c), - lc_notional c,
     rk_user_id (lc_key c))"

definition automatic_liquidation_candidates_for :: "MarketId \<Rightarrow> IsolatedPositionMap \<Rightarrow> IsolatedRiskMap \<Rightarrow>
    PositionRiskKey set \<Rightarrow> AutomaticLiquidationCandidate list" where
  "automatic_liquidation_candidates_for market_id positions risk_states attempted =
     sort_key liquidation_rank (collect_liquidation_candidates market_id positions attempted risk_states)"

text \<open>The empty text is no rejection.\<close>

definition liquidation_rejection_reason :: "LiquidatePositionInput \<Rightarrow> IsolatedPositionMap \<Rightarrow>
    IsolatedRiskMap \<Rightarrow> string" where
  "liquidation_rejection_reason inp positions risk_states =
     (let key = PositionRiskKey (li_liquidated_user_id inp) (li_market_id inp) in
      case sm_find positions key of
        None \<Rightarrow> ''position is not liquidatable''
      | Some pos \<Rightarrow>
          if ps_signed_quantity pos = 0 then ''position is not liquidatable''
          else if \<not> side_matches_position (li_position_side inp) (ps_signed_quantity pos)
          then ''position side mismatch''
          else case sm_find risk_states key of
              None \<Rightarrow> ''position is not liquidatable''
            | Some risk \<Rightarrow>
                if rs_status risk \<noteq> ''LIQUIDATABLE'' \<and> rs_equity risk > rs_maintenance_margin risk
                then ''position is not liquidatable'' else [])"

end
