(* ===== verification/RuntimeEvents.thy ===== *)
theory RuntimeEvents
  imports RuntimeRecords
begin

text \<open>
  \<open>src/src/runtime/EngineRuntime.cpp\<close>: the replies and events the runtime makes itself, the
  orders and inputs it makes up for liquidations, and the fills of a deleveraging.
\<close>

section \<open>Events of a market\<close>

definition market_event_fields :: "InboundEngineRecord \<Rightarrow> MarketId \<Rightarrow> Clock \<Rightarrow> Emitter \<Rightarrow>
    string + (PayloadFields \<times> Emitter)" where
  "market_event_fields r market_id clock em =
     ebind (market_next market_id (em_sequences em)) (\<lambda>(sequence, ms).
       let (now, em) = read_clock clock (em\<lparr>em_sequences := ms\<rparr>) in
       Inr ([(''engine_sequence'', text_value (uint sequence)),
             (''engine_event_id'', PString (''eng_'' @ to_string market_id @ ''_'' @ to_string (uint sequence))),
             (''engine_timestamp_ms'', text_value now),
             (''source_input_topic'', PString (ir_topic r)),
             (''source_input_partition'', number_value (ir_partition r)),
             (''source_input_offset'', text_value (ir_offset r)),
             (''market_id'', text_value market_id)], em))"

definition add_input_id :: "string option \<Rightarrow> PayloadFields \<Rightarrow> PayloadFields" where
  "add_input_id input_id pf = (case input_id of
      None \<Rightarrow> pf | Some i \<Rightarrow> put_field ''source_input_id'' (PString i) pf)"

definition make_mark_price_updated_event :: "InboundEngineRecord \<Rightarrow> MarkPriceUpdatedInput \<Rightarrow> Clock \<Rightarrow>
    Emitter \<Rightarrow> string + (EngineOutputRecord \<times> Emitter)" where
  "make_mark_price_updated_event r inp clock em =
     ebind (market_event_fields r (mi_market_id inp) clock em) (\<lambda>(pf, em).
       Inr (\<lparr>eo_topic = EngineEventsTopic, eo_type = ''MarkPriceUpdated'',
             eo_key = to_string (mi_market_id inp), eo_partition = None,
             eo_payload = add_input_id (mi_input_id inp) (pf @
               [(''mark_price'', text_value (mi_mark_price inp)),
                (''index_price'', text_value (mi_index_price inp)),
                (''valid_until_ms'', text_value (mi_valid_until_ms inp)),
                (''source_sequence'', text_value (mi_source_sequence inp)),
                (''source_status'', PString (mi_source_status inp))])\<rparr>, em))"

definition make_funding_rate_updated_event :: "InboundEngineRecord \<Rightarrow> FundingRateUpdatedInput \<Rightarrow> Clock \<Rightarrow>
    Emitter \<Rightarrow> string + (EngineOutputRecord \<times> Emitter)" where
  "make_funding_rate_updated_event r inp clock em =
     ebind (market_event_fields r (fi_market_id inp) clock em) (\<lambda>(pf, em).
       Inr (\<lparr>eo_topic = EngineEventsTopic, eo_type = ''FundingRateUpdated'',
             eo_key = to_string (fi_market_id inp), eo_partition = None,
             eo_payload = add_input_id (fi_input_id inp) (pf @
               [(''funding_interval_id'', PString (fi_funding_interval_id inp)),
                (''rate'', text_value (fi_rate inp)),
                (''rate_scale'', text_value (fi_rate_scale inp)),
                (''interval_start_ms'', text_value (fi_interval_start_ms inp)),
                (''interval_end_ms'', text_value (fi_interval_end_ms inp))])\<rparr>, em))"

definition add_runtime_source_fields :: "InboundEngineRecord \<Rightarrow> string option \<Rightarrow> PayloadFields \<Rightarrow> PayloadFields" where
  "add_runtime_source_fields r input_id pf =
     put_field ''source_input_offset'' (number_value (ir_offset r))
    (put_field ''source_input_partition'' (number_value (ir_partition r))
    (put_field ''source_input_topic'' (PString (ir_topic r)) (add_input_id input_id pf)))"

definition add_runtime_engine_fields :: "MarketId \<Rightarrow> Clock \<Rightarrow> Emitter \<Rightarrow> PayloadFields \<Rightarrow>
    string + (PayloadFields \<times> Emitter)" where
  "add_runtime_engine_fields market_id clock em pf =
     ebind (market_next market_id (em_sequences em)) (\<lambda>(sequence, ms).
       let (now, em) = read_clock clock (em\<lparr>em_sequences := ms\<rparr>);
           pf = put_field ''engine_sequence'' (number_value (uint sequence)) pf;
           pf = put_field ''engine_event_id'' (PString (''eng_'' @ to_string market_id @ ''_'' @
                  to_string (uint sequence))) pf
       in Inr (put_field ''engine_timestamp_ms'' (number_value now) pf, em))"

definition make_runtime_market_event :: "string \<Rightarrow> MarketId \<Rightarrow> InboundEngineRecord \<Rightarrow> string option \<Rightarrow>
    string option \<Rightarrow> Clock \<Rightarrow> PayloadFields \<Rightarrow> Emitter \<Rightarrow> string + (EngineOutputRecord \<times> Emitter)" where
  "make_runtime_market_event type market_id r input_id request_id clock pf em =
     ebind (add_runtime_engine_fields market_id clock em pf) (\<lambda>(pf, em).
       let pf = add_runtime_source_fields r input_id pf;
           pf = (case request_id of None \<Rightarrow> pf
                 | Some i \<Rightarrow> if i = [] then pf else put_field ''request_id'' (PString i) pf);
           pf = put_field ''market_id'' (number_value market_id) pf
       in Inr (\<lparr>eo_topic = EngineEventsTopic, eo_type = type, eo_key = to_string market_id,
                eo_partition = None, eo_payload = pf\<rparr>, em))"

section \<open>Replies and events of reduce-only orders\<close>

definition make_order_rejected_reply :: "InboundEngineRecord \<Rightarrow> PlaceOrderInput \<Rightarrow> string \<Rightarrow> EngineOutputRecord" where
  "make_order_rejected_reply r inp reason =
     (let pf = [(''order_id'', number_value (pi_order_id inp)), (''reason'', PString reason)];
          pf = (if pi_reservation_id inp \<noteq> []
                then put_field ''reservation_id'' (PString (pi_reservation_id inp)) pf else pf);
          pf = put_field ''request_id'' (PString (ce_request_id (pi_envelope inp))) pf
      in \<lparr>eo_topic = EngineRepliesTopic, eo_type = ''OrderRejected'',
          eo_key = ce_request_id (pi_envelope inp),
          eo_partition = Some (ce_reply_partition (pi_envelope inp)),
          eo_payload = add_runtime_source_fields r (pi_input_id inp) pf\<rparr>)"

definition make_reservation_released_event :: "InboundEngineRecord \<Rightarrow> PlaceOrderInput \<Rightarrow> int64 \<Rightarrow> string \<Rightarrow>
    Clock \<Rightarrow> Emitter \<Rightarrow> string + (EngineOutputRecord \<times> Emitter)" where
  "make_reservation_released_event r inp released_amount reason clock em =
     make_runtime_market_event ''ReservationReleased'' (pi_market_id inp) r (pi_input_id inp)
       (Some (ce_request_id (pi_envelope inp))) clock
       [(''reservation_id'', PString (pi_reservation_id inp)),
        (''user_id'', number_value (ce_user_id (pi_envelope inp))),
        (''asset'', PString (if pi_margin_asset inp = [] then ''USDC'' else pi_margin_asset inp)),
        (''released_amount'', number_value released_amount),
        (''reason'', PString reason)] em"

definition make_reduce_only_expired_event :: "InboundEngineRecord \<Rightarrow> OrderMetadata \<Rightarrow> int64 \<Rightarrow> Clock \<Rightarrow>
    Emitter \<Rightarrow> string + (EngineOutputRecord \<times> Emitter)" where
  "make_reduce_only_expired_event r md expired_quantity clock em =
     make_runtime_market_event ''OrderExpired'' (om_market_id md) r (om_place_input_id md) None clock
       [(''order_id'', number_value (uint (om_order_id md))),
        (''reservation_id'', PString (om_reservation_id md)),
        (''user_id'', number_value (om_user_id md)),
        (''expired_quantity'', number_value expired_quantity),
        (''released_amount'', number_value (om_remaining_reserved_margin md)),
        (''reason'', PString ''REDUCE_ONLY_REMAINDER'')] em"

section \<open>Funding, risk and liquidation events\<close>

definition make_funding_payment_applied_event :: "InboundEngineRecord \<Rightarrow> FundingSettlementTickInput \<Rightarrow>
    payload_value list \<Rightarrow> Clock \<Rightarrow> Emitter \<Rightarrow> string + (EngineOutputRecord \<times> Emitter)" where
  "make_funding_payment_applied_event r inp payments clock em =
     make_runtime_market_event ''FundingPaymentApplied'' (ti_market_id inp) r (ti_input_id inp) None clock
       [(''funding_interval_id'', PString (ti_funding_interval_id inp)), (''payments'', PArray payments)] em"

definition make_runtime_risk_state_updated_event :: "InboundEngineRecord \<Rightarrow> string option \<Rightarrow>
    IsolatedRiskState \<Rightarrow> Clock \<Rightarrow> Emitter \<Rightarrow> string + (EngineOutputRecord \<times> Emitter)" where
  "make_runtime_risk_state_updated_event r input_id risk clock em =
     make_runtime_market_event ''RiskStateUpdated'' (rs_market_id risk) r input_id None clock
       (risk_payload risk) em"

definition make_liquidation_reply :: "string \<Rightarrow> InboundEngineRecord \<Rightarrow> LiquidatePositionInput \<Rightarrow>
    PayloadFields \<Rightarrow> EngineOutputRecord" where
  "make_liquidation_reply type r inp pf =
     \<lparr>eo_topic = EngineRepliesTopic, eo_type = type, eo_key = ce_request_id (li_envelope inp),
      eo_partition = Some (ce_reply_partition (li_envelope inp)),
      eo_payload = add_runtime_source_fields r (li_input_id inp)
        (put_field ''request_id'' (PString (ce_request_id (li_envelope inp))) pf)\<rparr>"

definition make_liquidation_rejected_reply :: "InboundEngineRecord \<Rightarrow> LiquidatePositionInput \<Rightarrow> string \<Rightarrow>
    EngineOutputRecord" where
  "make_liquidation_rejected_reply r inp reason = make_liquidation_reply ''LiquidationRejected'' r inp
     [(''liquidation_id'', PString (li_liquidation_id inp)), (''reason'', PString reason)]"

definition make_liquidation_accepted_reply :: "InboundEngineRecord \<Rightarrow> LiquidatePositionInput \<Rightarrow>
    OrderMetadata \<Rightarrow> EngineOutputRecord" where
  "make_liquidation_accepted_reply r inp md =
     (let pf = [(''liquidation_id'', PString (li_liquidation_id inp)),
                (''order_id'', text_value (uint (om_order_id md)))];
          pf = (if om_reservation_id md \<noteq> []
                then put_field ''reservation_id'' (PString (om_reservation_id md)) pf else pf)
      in make_liquidation_reply ''LiquidationAccepted'' r inp pf)"

definition make_liquidation_started_event :: "InboundEngineRecord \<Rightarrow> LiquidatePositionInput \<Rightarrow>
    IsolatedPositionState \<Rightarrow> IsolatedRiskState \<Rightarrow> Clock \<Rightarrow> Emitter \<Rightarrow>
    string + (EngineOutputRecord \<times> Emitter)" where
  "make_liquidation_started_event r inp pos risk clock em =
     make_runtime_market_event ''LiquidationStarted'' (li_market_id inp) r (li_input_id inp)
       (Some (ce_request_id (li_envelope inp))) clock
       [(''liquidation_id'', PString (li_liquidation_id inp)),
        (''user_id'', number_value (li_liquidated_user_id inp)),
        (''position_id'', PString (position_id_text (li_liquidated_user_id inp) (li_market_id inp))),
        (''side'', PString (position_side_text (ps_signed_quantity pos))),
        (''quantity'', number_value (abs_quantity (ps_signed_quantity pos))),
        (''mark_price'', number_value (rs_mark_price risk)),
        (''maintenance_margin'', number_value (rs_maintenance_margin risk)),
        (''equity'', number_value (rs_equity risk)),
        (''reason'', PString ''MAINTENANCE_MARGIN_BREACH'')] em"

definition make_liquidation_completed_event :: "InboundEngineRecord \<Rightarrow> LiquidatePositionInput \<Rightarrow> int64 \<Rightarrow>
    Clock \<Rightarrow> Emitter \<Rightarrow> string + (EngineOutputRecord \<times> Emitter)" where
  "make_liquidation_completed_event r inp remaining_quantity clock em =
     make_runtime_market_event ''LiquidationCompleted'' (li_market_id inp) r (li_input_id inp)
       (Some (ce_request_id (li_envelope inp))) clock
       [(''liquidation_id'', PString (li_liquidation_id inp)),
        (''user_id'', number_value (li_liquidated_user_id inp)),
        (''position_id'', PString (position_id_text (li_liquidated_user_id inp) (li_market_id inp))),
        (''final_status'', PString (if remaining_quantity = 0 then ''FLAT'' else ''PARTIAL'')),
        (''remaining_quantity'', number_value remaining_quantity),
        (''insurance_fund_delta'', number_value 0),
        (''bad_debt'', number_value 0)] em"

section \<open>The orders and inputs of a liquidation\<close>

definition synthetic_liquidation_order :: "LiquidatePositionInput \<Rightarrow> IsolatedPositionState \<Rightarrow>
    AdapterQuantity \<Rightarrow> AdapterPrice \<Rightarrow> string + PlaceOrderInput" where
  "synthetic_liquidation_order inp pos quantity price =
     (let id = ''liquidation-core-'' @ li_liquidation_id inp;
          envelope = (li_envelope inp)\<lparr>ce_request_id := id, ce_idempotency_key := id,
            ce_user_id := li_liquidated_user_id inp\<rparr> in
      ebind (liquidation_order_id (li_liquidation_id inp)) (\<lambda>order_id.
        Inr \<lparr>pi_input_id = map_option (\<lambda>i. ''liquidation-core-'' @ i) (li_input_id inp),
             pi_envelope = envelope, pi_order_id = order_id,
             pi_reservation_id = ''liquidation-'' @ li_liquidation_id inp,
             pi_market_id = li_market_id inp, pi_market_name = li_market_name inp,
             pi_side = liquidation_order_side (ps_signed_quantity pos), pi_order_type = ALimit,
             pi_time_in_force = AIoc, pi_price = price, pi_quantity = quantity, pi_reduce_only = True,
             pi_margin_asset = position_settlement_asset pos, pi_reserved_margin_amount = 0,
             pi_leverage = ps_leverage pos, pi_source = li_source inp\<rparr>))"

definition automatic_liquidation_id :: "InboundEngineRecord \<Rightarrow> string option \<Rightarrow> PositionRiskKey \<Rightarrow> int64 \<Rightarrow>
    string" where
  "automatic_liquidation_id source source_input_id key attempt =
     ''auto-liq-'' @ to_string (rk_market_id key) @ ''-'' @ to_string (rk_user_id key) @ ''-'' @
     to_string (ir_partition source) @ ''-'' @ to_string (ir_offset source) @ ''-'' @ to_string attempt @
     (case source_input_id of None \<Rightarrow> [] | Some i \<Rightarrow> ''-'' @ i)"

definition automatic_liquidation_input :: "InboundEngineRecord \<Rightarrow> string option \<Rightarrow>
    AutomaticLiquidationCandidate \<Rightarrow> int64 \<Rightarrow> LiquidatePositionInput" where
  "automatic_liquidation_input source source_input_id candidate attempt =
     (let id = automatic_liquidation_id source source_input_id (lc_key candidate) attempt;
          quantity = ps_signed_quantity (lc_position candidate)
      in \<lparr>li_input_id = source_input_id,
          li_envelope = \<lparr>ce_request_id = ''auto-req-'' @ id, ce_idempotency_key = ''auto-idem-'' @ id,
            ce_user_id = 0, ce_reply_partition = 0\<rparr>,
          li_liquidation_id = id, li_market_id = rk_market_id (lc_key candidate), li_market_name = [],
          li_liquidated_user_id = rk_user_id (lc_key candidate),
          li_position_side = position_adapter_side quantity, li_quantity = abs_quantity quantity,
          li_price = 0, li_request_source = Some ''ENGINE_AUTO'',
          li_source = Some (broker_context source)\<rparr>)"

section \<open>Deleveraging\<close>

definition adl_id_for :: "string \<Rightarrow> int64 \<Rightarrow> AdapterUserId \<Rightarrow> string" where
  "adl_id_for liquidation_id priority_rank user_id =
     liquidation_id @ ''-adl-'' @ to_string priority_rank @ ''-'' @ to_string user_id"

text \<open>The 1024 salts are tried in turn; the list is what is left of them.\<close>

fun adl_order_id_from :: "int64 list \<Rightarrow> string \<Rightarrow> OrderId \<Rightarrow> OrderMetadataStore \<Rightarrow> string + OrderId" where
  "adl_order_id_from [] adl_id liquidation_oid st = Inl ''unable to allocate deterministic ADL order id''"
| "adl_order_id_from (salt # salts) adl_id liquidation_oid st =
     ebind (command_id_from_request_id (''adl-order-'' @ adl_id @ ''-'' @ to_string salt)) (\<lambda>order_id.
       if order_id \<noteq> liquidation_oid \<and> metadata_find order_id st = None then Inr order_id
       else adl_order_id_from salts adl_id liquidation_oid st)"

definition adl_counterparty_order_id :: "string \<Rightarrow> OrderId \<Rightarrow> OrderMetadataStore \<Rightarrow> string + OrderId" where
  "adl_counterparty_order_id adl_id liquidation_oid st =
     adl_order_id_from [0..1023] adl_id liquidation_oid st"

definition adl_counterparty_metadata :: "LiquidatePositionInput \<Rightarrow> AdlCandidate \<Rightarrow> OrderId \<Rightarrow> int64 \<Rightarrow>
    int64 \<Rightarrow> string \<Rightarrow> string + OrderMetadata" where
  "adl_counterparty_metadata inp candidate order_id fill_quantity priority_rank adl_id =
     ebind (command_id_from_request_id adl_id) (\<lambda>stable_id. Inr
      \<lparr>om_order_id = order_id, om_market_id = li_market_id inp,
       om_user_id = rk_user_id (ac_key candidate),
       om_side = liquidation_order_side (ps_signed_quantity (ac_position candidate)),
       om_original_quantity = fill_quantity, om_remaining_quantity = fill_quantity,
       om_reduce_only = True, om_margin_asset = position_settlement_asset (ac_position candidate),
       om_reserved_margin_amount = 0, om_remaining_reserved_margin = 0,
       om_leverage = ps_leverage (ac_position candidate),
       om_reservation_id = ''adl-'' @ li_liquidation_id inp @ ''-'' @
         to_string (rk_user_id (ac_key candidate)) @ ''-'' @ to_string priority_rank,
       om_place_request_id = adl_id, om_place_idempotency_key = adl_id, om_place_input_id = None,
       om_reply_partition = ce_reply_partition (li_envelope inp),
       om_core_client_order_id = stable_id, om_core_place_command_id = stable_id\<rparr>)"

definition adl_trade_event :: "LiquidatePositionInput \<Rightarrow> EngineEventTranslationContext \<Rightarrow> string \<Rightarrow>
    OrderId \<Rightarrow> int64 \<Rightarrow> AdapterPrice \<Rightarrow> string + EngineEvent" where
  "adl_trade_event inp context adl_id counterparty_order_id fill_quantity price =
     (case tc_pending_metadata context of
        None \<Rightarrow> Inl ''ADL requires liquidation order metadata''
      | Some md \<Rightarrow> ebind (command_id_from_request_id (''adl-fill-'' @ adl_id)) (\<lambda>trade_id. Inr
          (TradeExecuted trade_id 0 trade_id (of_int (li_market_id inp)) counterparty_order_id
             (om_order_id md) price (u64_of_i64 fill_quantity))))"

end
