(* ===== verification/Runtime.thy ===== *)
theory Runtime
  imports RuntimeEvents
begin

text \<open>
  \<open>src/include/runtime/EngineRuntime.hpp\<close> and the liquidation part of
  \<open>src/src/runtime/EngineRuntime.cpp\<close>: the state of the runtime, how it emits events and runs the
  translator on it, and the execution of liquidations with their deleveraging.
\<close>

section \<open>The state\<close>

record ProcessedRuntimeRequest =
  rq_command_kind :: RuntimeCommandKind
  rq_topic :: string
  rq_partition :: int32
  rq_offset :: int64
  rq_input_id :: "string option"
  rq_idempotency_key :: string

datatype FundingSettlementKey = FundingSettlementKey (fk_market_id: MarketId) (fk_funding_interval_id: string)

type_synonym FundingSettlementSet = "FundingSettlementKey set"

record EngineRuntime =
  rt_core :: EngineCore
  rt_metadata_store :: OrderMetadataStore
  rt_emitter :: Emitter
  rt_config :: EngineRuntimeConfig
  rt_clock :: Clock
  rt_mark_prices :: MarkPriceMap
  rt_funding_rates :: "(MarketId \<times> FundingRateState) list"
  rt_settled_funding_intervals :: FundingSettlementSet
  rt_positions :: IsolatedPositionMap
  rt_risk_states :: IsolatedRiskMap
  rt_processed_input_ids :: "(string \<times> ProcessedRuntimeRequest) list"
  rt_processed_idempotency_keys :: "(string \<times> ProcessedRuntimeRequest) list"

text \<open>
  How an operation can fail: an exception with its message and the state it leaves behind, or
  undefined behaviour.
\<close>

datatype runtime_error = Thrown string EngineRuntime | Undefined

definition throwing :: "EngineRuntime \<Rightarrow> string + 'a \<Rightarrow> runtime_error + 'a" where
  "throwing rt m = catch m (\<lambda>e. Inl (Thrown e rt))"

definition defined :: "'a option \<Rightarrow> runtime_error + 'a" where
  "defined x = (case x of None \<Rightarrow> Inl Undefined | Some y \<Rightarrow> Inr y)"

text \<open>The constructor; the system clock it falls back to is a parameter.\<close>

fun add_symbols :: "SymbolConfig list \<Rightarrow> EngineCore \<Rightarrow> EngineCore option" where
  "add_symbols [] core = Some core"
| "add_symbols (c # cs) core = Option.bind (add_symbol c core) (add_symbols cs)"

definition make_engine_runtime :: "(nat \<Rightarrow> int64) \<Rightarrow> EngineRuntimeConfig \<Rightarrow> EngineRuntime option" where
  "make_engine_runtime system_clock config =
     (let sg = (core_sequenceGenerator make_engine_core)\<lparr>sg_nextTradeId := rc_first_trade_id config\<rparr> in
      map_option (\<lambda>core.
        \<lparr>rt_core = core, rt_metadata_store = [],
         rt_emitter = \<lparr>em_sequences = make_market_sequences (rc_first_public_sequence config),
           em_clock_reads = 0\<rparr>,
         rt_config = config,
         rt_clock = (case rc_clock config of None \<Rightarrow> Some system_clock | Some f \<Rightarrow> Some f),
         rt_mark_prices = [], rt_funding_rates = [], rt_settled_funding_intervals = {},
         rt_positions = [], rt_risk_states = [], rt_processed_input_ids = [],
         rt_processed_idempotency_keys = []\<rparr>)
        (add_symbols (rc_symbols config) (make_engine_core\<lparr>core_sequenceGenerator := sg\<rparr>)))"

definition runtime_add_symbol :: "SymbolConfig \<Rightarrow> EngineRuntime \<Rightarrow> EngineRuntime option" where
  "runtime_add_symbol c rt = map_option (\<lambda>core. rt\<lparr>rt_core := core\<rparr>) (add_symbol c (rt_core rt))"

section \<open>Emitting and translating\<close>

definition emit_event :: "(Clock \<Rightarrow> Emitter \<Rightarrow> string + (EngineOutputRecord \<times> Emitter)) \<Rightarrow>
    EngineProcessResult \<times> EngineRuntime \<Rightarrow> runtime_error + (EngineProcessResult \<times> EngineRuntime)" where
  "emit_event mk = (\<lambda>(result, rt).
     ebind (throwing rt (mk (rt_clock rt) (rt_emitter rt))) (\<lambda>(x, em).
       Inr (push_event x result, rt\<lparr>rt_emitter := em\<rparr>)))"

text \<open>The translator works on references into the runtime.\<close>

definition translation_state :: "EngineEventTranslationContext \<Rightarrow> EngineRuntime \<Rightarrow> TranslationState" where
  "translation_state context rt =
     \<lparr>tr_result = empty_result, tr_context = context, tr_metadata_store = rt_metadata_store rt,
      tr_positions = rt_positions rt, tr_risk_states = rt_risk_states rt, tr_emitter = rt_emitter rt\<rparr>"

definition after_translation :: "TranslationState \<Rightarrow> EngineRuntime \<Rightarrow> EngineRuntime" where
  "after_translation tr rt = rt\<lparr>rt_metadata_store := tr_metadata_store tr, rt_positions := tr_positions tr,
     rt_risk_states := tr_risk_states tr, rt_emitter := tr_emitter tr\<rparr>"

definition translate_in :: "EngineEvent list \<Rightarrow> EngineEventTranslationContext \<Rightarrow> EngineRuntime \<Rightarrow>
    runtime_error + (EngineProcessResult \<times> EngineEventTranslationContext \<times> EngineRuntime)" where
  "translate_in core_events context rt =
     (case translate (rt_clock rt) (rt_mark_prices rt) core_events (translation_state context rt) of
        Inl (e, tr) \<Rightarrow> Inl (Thrown e (after_translation tr rt))
      | Inr tr \<Rightarrow> Inr (tr_result tr, tr_context tr, after_translation tr rt))"

section \<open>Deleveraging fills\<close>

definition record_adl_metadata :: "OrderMetadata \<Rightarrow> EngineRuntime \<Rightarrow> runtime_error + EngineRuntime" where
  "record_adl_metadata md rt =
     (let (inserted, st) = metadata_insert md (rt_metadata_store rt) in
      if \<not> inserted then Inl (Thrown ''ADL counterparty metadata already exists'' rt)
      else Inr (rt\<lparr>rt_metadata_store := st\<rparr>))"

text \<open>One turn of the loop of \<open>append_adl_fills\<close> with a positive quantity.\<close>

definition adl_fill :: "LiquidatePositionInput \<Rightarrow> AdapterPrice \<Rightarrow> AdlCandidate \<Rightarrow> int64 \<Rightarrow> int64 \<Rightarrow>
    EngineProcessResult \<times> EngineEventTranslationContext \<times> EngineRuntime \<Rightarrow>
    runtime_error + (EngineProcessResult \<times> EngineEventTranslationContext \<times> EngineRuntime)" where
  "adl_fill inp price candidate fill_quantity priority_rank = (\<lambda>(result, context, rt).
     (let adl_id = adl_id_for (li_liquidation_id inp) priority_rank (rk_user_id (ac_key candidate));
          liquidation_oid = (case tc_pending_metadata context of Some md \<Rightarrow> om_order_id md | None \<Rightarrow> 0) in
      ebind (throwing rt (adl_counterparty_order_id adl_id liquidation_oid (rt_metadata_store rt))) (\<lambda>oid.
      ebind (throwing rt (adl_counterparty_metadata inp candidate oid fill_quantity priority_rank adl_id)) (\<lambda>md.
      ebind (record_adl_metadata md rt) (\<lambda>rt.
      let context = context\<lparr>tc_adl_execution := True, tc_adl_id := adl_id,
            tc_adl_counterparty_user_id := rk_user_id (ac_key candidate),
            tc_adl_priority_rank := priority_rank\<rparr> in
      ebind (throwing rt (adl_trade_event inp context adl_id oid fill_quantity price)) (\<lambda>trade.
      ebind (translate_in [trade] context rt) (\<lambda>(translated, context, rt).
        Inr (append_process_result result translated, context,
             rt\<lparr>rt_metadata_store := snd (metadata_erase oid (rt_metadata_store rt))\<rparr>))))))))"

fun adl_fills :: "LiquidatePositionInput \<Rightarrow> AdapterPrice \<Rightarrow> AdlCandidate list \<Rightarrow> int64 \<Rightarrow> int64 \<Rightarrow> int64 \<Rightarrow>
    EngineProcessResult \<times> EngineEventTranslationContext \<times> EngineRuntime \<Rightarrow>
    runtime_error + (int64 \<times> EngineProcessResult \<times> EngineEventTranslationContext \<times> EngineRuntime)" where
  "adl_fills inp price [] remaining executed priority_rank st = Inr (executed, st)"
| "adl_fills inp price (candidate # cs) remaining executed priority_rank st =
     (if remaining \<le> 0 then Inr (executed, st)
      else let fill_quantity = min remaining (ac_available_quantity candidate) in
        if fill_quantity \<le> 0 then adl_fills inp price cs remaining executed (i64 (priority_rank + 1)) st
        else ebind (adl_fill inp price candidate fill_quantity priority_rank st) (\<lambda>st.
          adl_fills inp price cs (i64 (remaining - fill_quantity)) (i64 (executed + fill_quantity))
            (i64 (priority_rank + 1)) st))"

definition append_adl_fills :: "LiquidatePositionInput \<Rightarrow> int64 \<Rightarrow> AdapterPrice \<Rightarrow>
    EngineProcessResult \<times> EngineEventTranslationContext \<times> EngineRuntime \<Rightarrow>
    runtime_error + (int64 \<times> EngineProcessResult \<times> EngineEventTranslationContext \<times> EngineRuntime)" where
  "append_adl_fills inp remaining price st = (let (result, context, rt) = st in
     case sm_find (rt_positions rt) (PositionRiskKey (li_liquidated_user_id inp) (li_market_id inp)) of
       None \<Rightarrow> Inr (0, st)
     | Some pos \<Rightarrow>
         if ps_signed_quantity pos = 0 \<or> remaining \<le> 0 then Inr (0, st)
         else ebind (adl_fills inp price (adl_candidates_for inp pos (rt_positions rt) (rt_risk_states rt))
                      remaining 0 1 st) (\<lambda>(executed, result, context', rt).
           Inr (executed, result, context'\<lparr>tc_adl_execution := tc_adl_execution context,
             tc_adl_id := tc_adl_id context,
             tc_adl_counterparty_user_id := tc_adl_counterparty_user_id context,
             tc_adl_priority_rank := tc_adl_priority_rank context\<rparr>, rt)))"

section \<open>Liquidations\<close>

definition reject_liquidation :: "InboundEngineRecord \<Rightarrow> LiquidatePositionInput \<Rightarrow> bool \<Rightarrow> string \<Rightarrow>
    EngineProcessResult" where
  "reject_liquidation r inp emit_replies reason =
     (if emit_replies then push_reply (make_liquidation_rejected_reply r inp reason) empty_result
      else empty_result)"

definition liquidation_context :: "InboundEngineRecord \<Rightarrow> LiquidatePositionInput \<Rightarrow> AdapterOrderId \<Rightarrow>
    OrderMetadata \<Rightarrow> EngineEventTranslationContext" where
  "liquidation_context r inp order_id md =
     \<lparr>tc_command_kind = KindLiquidatePosition, tc_source = r,
      tc_request_id = ce_request_id (li_envelope inp), tc_input_id = li_input_id inp,
      tc_reply_partition = ce_reply_partition (li_envelope inp), tc_order_id = order_id,
      tc_market_id = li_market_id inp, tc_can_open_resting_order = False,
      tc_pending_metadata = Some md, tc_liquidation_id = li_liquidation_id inp,
      tc_liquidated_user_id = li_liquidated_user_id inp,
      tc_liquidation_position_side = li_position_side inp, tc_adl_execution = False, tc_adl_id = [],
      tc_adl_counterparty_user_id = 0, tc_adl_priority_rank = 0\<rparr>"

text \<open>
  The second half of \<open>execute_liquidation\<close>, from the started event on.
\<close>

definition perform_liquidation :: "InboundEngineRecord \<Rightarrow> LiquidatePositionInput \<Rightarrow> bool \<Rightarrow> bool \<Rightarrow>
    AdapterPrice \<Rightarrow> IsolatedPositionState \<Rightarrow> IsolatedRiskState \<Rightarrow> OrderMetadata \<Rightarrow>
    EngineEventTranslationContext \<Rightarrow> EngineEvent list \<Rightarrow> EngineRuntime \<Rightarrow>
    runtime_error + (EngineProcessResult \<times> EngineRuntime)" where
  "perform_liquidation r inp emit_replies crossing price pos risk md context core_events rt =
     (let key = PositionRiskKey (li_liquidated_user_id inp) (li_market_id inp) in
      ebind (emit_event (make_liquidation_started_event r inp pos risk) (empty_result, rt)) (\<lambda>(result, rt).
      ebind (if crossing
             then ebind (translate_in core_events context rt) (\<lambda>(translated, context, rt).
               Inr (append_process_result result translated, context,
                    rt\<lparr>rt_metadata_store :=
                      cleanup_completed_order_metadata core_events (rt_metadata_store rt)\<rparr>))
             else Inr (if emit_replies then push_reply (make_liquidation_accepted_reply r inp md) result
                       else result, context, rt)) (\<lambda>(result, context, rt).
      let pending_remaining = (case tc_pending_metadata context of
              Some m \<Rightarrow> om_remaining_quantity m | None \<Rightarrow> 0);
          remaining_adl = (case sm_find (rt_positions rt) key of None \<Rightarrow> 0
            | Some p \<Rightarrow> min pending_remaining (abs_quantity (ps_signed_quantity p))) in
      ebind (if remaining_adl > 0
             then ebind (append_adl_fills inp remaining_adl price (result, context, rt))
                    (\<lambda>(executed, result, context, rt). Inr (result, rt))
             else Inr (result, rt)) (\<lambda>(result, rt).
      let remaining = (case sm_find (rt_positions rt) key of None \<Rightarrow> 0
            | Some p \<Rightarrow> abs_quantity (ps_signed_quantity p)) in
      ebind (emit_event (make_liquidation_completed_event r inp remaining) (result, rt)) (\<lambda>(result, rt).
        Inr (if emit_replies then result else result\<lparr>pr_replies := []\<rparr>, rt))))))"

text \<open>\<open>std::map::at\<close> throws on a missing key.\<close>

definition map_at :: "('k \<times> 'v) list \<Rightarrow> 'k \<Rightarrow> string + 'v" where
  "map_at m k = (case sm_find m k of None \<Rightarrow> Inl ''map::at'' | Some v \<Rightarrow> Inr v)"

definition execute_liquidation :: "InboundEngineRecord \<Rightarrow> LiquidatePositionInput \<Rightarrow> bool \<Rightarrow> EngineRuntime \<Rightarrow>
    runtime_error + (EngineProcessResult \<times> EngineRuntime)" where
  "execute_liquidation r inp emit_replies rt =
     (let reason = liquidation_rejection_reason inp (rt_positions rt) (rt_risk_states rt);
          key = PositionRiskKey (li_liquidated_user_id inp) (li_market_id inp) in
      if reason \<noteq> [] then Inr (reject_liquidation r inp emit_replies reason, rt)
      else
      ebind (throwing rt (map_at (rt_positions rt) key)) (\<lambda>pos.
      ebind (throwing rt (map_at (rt_risk_states rt) key)) (\<lambda>risk.
      let quantity = liquidation_quantity inp pos;
          price = liquidation_price inp pos (rt_mark_prices rt);
          side = liquidation_order_side (ps_signed_quantity pos) in
      ebind (defined (crossing_liquidity_exists (rt_core rt) (li_market_id inp) side price)) (\<lambda>crossing.
      let adl_available = total_adl_available
            (adl_candidates_for inp pos (rt_positions rt) (rt_risk_states rt)) quantity in
      if quantity \<le> 0 \<or> price \<le> 0 \<or> (\<not> crossing \<and> adl_available \<le> 0)
      then Inr (reject_liquidation r inp emit_replies ''no liquidation liquidity'', rt)
      else
      ebind (throwing rt (synthetic_liquidation_order inp pos quantity price)) (\<lambda>synthetic.
      ebind (throwing rt (map_place_order_to_core synthetic (received_sequence r))) (\<lambda>mapped.
      case mc_metadata_to_record mapped of
        None \<Rightarrow> Inl (Thrown ''liquidation order mapping did not produce metadata'' rt)
      | Some md \<Rightarrow>
          ebind (if crossing then defined (process (mc_command mapped) (rt_core rt))
                 else Inr (rt_core rt, [])) (\<lambda>(core, core_events).
          let rt = rt\<lparr>rt_core := core\<rparr> in
          if crossing \<and> \<not> has_trade_executed core_events \<and> adl_available \<le> 0
          then Inr (reject_liquidation r inp emit_replies ''no liquidation liquidity'', rt)
          else perform_liquidation r inp emit_replies crossing price pos risk md
                 (liquidation_context r inp (pi_order_id synthetic) md) core_events rt)))))))"

section \<open>Automatic liquidations\<close>

definition kMaxAutomaticLiquidationAttemptsPerTrigger :: int64 where
  "kMaxAutomaticLiquidationAttemptsPerTrigger = 16"

record LiquidationSweep =
  sw_attempts :: int64
  sw_attempted :: "PositionRiskKey set"
  sw_result :: EngineProcessResult

text \<open>The inner loop over the candidates of a scan: whether to scan again, and what was done.\<close>

fun attempt_candidates :: "InboundEngineRecord \<Rightarrow> string option \<Rightarrow> AutomaticLiquidationCandidate list \<Rightarrow>
    LiquidationSweep \<Rightarrow> EngineRuntime \<Rightarrow> runtime_error + (bool \<times> LiquidationSweep \<times> EngineRuntime)" where
  "attempt_candidates source input_id [] sw rt = Inr (False, sw, rt)"
| "attempt_candidates source input_id (candidate # cs) sw rt =
     (if sw_attempts sw \<ge> kMaxAutomaticLiquidationAttemptsPerTrigger then Inr (False, sw, rt)
      else
      let sw = sw\<lparr>sw_attempted := insert (lc_key candidate) (sw_attempted sw),
                 sw_attempts := sw_attempts sw + 1\<rparr>;
          inp = automatic_liquidation_input source input_id candidate (sw_attempts sw) in
      ebind (execute_liquidation source inp False rt) (\<lambda>(execution, rt).
      let sw = sw\<lparr>sw_result := append_process_result (sw_result sw) execution\<rparr> in
      if pr_events execution \<noteq> [] then Inr (True, sw, rt)
      else attempt_candidates source input_id cs sw rt))"

lemma attempt_candidates_progress:
  "attempt_candidates source input_id cs sw rt = Inr (rescan, sw', rt') \<Longrightarrow>
     sw_attempts sw \<le> sw_attempts sw' \<and> (rescan \<longrightarrow> sw_attempts sw < sw_attempts sw') \<and>
     sw_attempts sw' \<le> max (sw_attempts sw) kMaxAutomaticLiquidationAttemptsPerTrigger"
proof (induction cs arbitrary: sw rt)
  case (Cons c cs)
  let ?sw = "sw\<lparr>sw_attempted := insert (lc_key c) (sw_attempted sw), sw_attempts := sw_attempts sw + 1\<rparr>"
  let ?inp = "automatic_liquidation_input source input_id c (sw_attempts ?sw)"
  show ?case
  proof (cases "sw_attempts sw \<ge> kMaxAutomaticLiquidationAttemptsPerTrigger")
    case True
    then show ?thesis using Cons.prems by simp
  next
    case False
    note run = Cons.prems [unfolded attempt_candidates.simps Let_def if_not_P [OF False]]
    obtain execution rt1 where e: "execute_liquidation source ?inp False rt = Inr (execution, rt1)"
      using run by (cases "execute_liquidation source ?inp False rt") auto
    let ?sw1 = "?sw\<lparr>sw_result := append_process_result (sw_result ?sw) execution\<rparr>"
    have "rescan \<and> sw' = ?sw1 \<or> attempt_candidates source input_id cs ?sw1 rt1 = Inr (rescan, sw', rt')"
      using run unfolding e by (simp split: if_splits)
    then show ?thesis
      using False Cons.IH [of ?sw1 rt1] by (auto simp: max_def split: if_splits)
  qed
qed simp

function liquidation_sweep :: "MarketId \<Rightarrow> InboundEngineRecord \<Rightarrow> string option \<Rightarrow> LiquidationSweep \<Rightarrow>
    EngineRuntime \<Rightarrow> runtime_error + (LiquidationSweep \<times> EngineRuntime)" where
  "liquidation_sweep market_id source input_id sw rt =
     (if sw_attempts sw < kMaxAutomaticLiquidationAttemptsPerTrigger
      then let cs = automatic_liquidation_candidates_for market_id (rt_positions rt) (rt_risk_states rt)
                 (sw_attempted sw) in
        if cs = [] then Inr (sw, rt)
        else ebind (attempt_candidates source input_id cs sw rt) (\<lambda>(rescan, sw, rt).
          if rescan then liquidation_sweep market_id source input_id sw rt else Inr (sw, rt))
      else Inr (sw, rt))"
  by pat_completeness auto
termination
  by (relation "measure (\<lambda>(m, s, i, sw, rt).
        nat (kMaxAutomaticLiquidationAttemptsPerTrigger - sw_attempts sw))")
     (auto dest: attempt_candidates_progress simp: kMaxAutomaticLiquidationAttemptsPerTrigger_def)

declare liquidation_sweep.simps [simp del]

definition empty_sweep :: LiquidationSweep where
  "empty_sweep = \<lparr>sw_attempts = 0, sw_attempted = {}, sw_result = empty_result\<rparr>"

definition evaluate_automatic_liquidations_for_market :: "MarketId \<Rightarrow> InboundEngineRecord \<Rightarrow>
    string option \<Rightarrow> EngineRuntime \<Rightarrow> runtime_error + (EngineProcessResult \<times> EngineRuntime)" where
  "evaluate_automatic_liquidations_for_market market_id source input_id rt =
     ebind (liquidation_sweep market_id source input_id empty_sweep rt) (\<lambda>(sw, rt).
       Inr (sw_result sw, rt))"

text \<open>The markets of the liquidatable positions, in the order of \<open>std::set\<close>.\<close>

definition liquidatable_markets :: "IsolatedRiskMap \<Rightarrow> MarketId list" where
  "liquidatable_markets risk_states = sort (remdups (map (rk_market_id \<circ> fst)
     (filter (\<lambda>(key, risk). rs_status risk = ''LIQUIDATABLE'' \<and> rs_signed_quantity risk \<noteq> 0) risk_states)))"

fun liquidate_markets :: "MarketId list \<Rightarrow> InboundEngineRecord \<Rightarrow> string option \<Rightarrow>
    EngineProcessResult \<times> EngineRuntime \<Rightarrow> runtime_error + (EngineProcessResult \<times> EngineRuntime)" where
  "liquidate_markets [] source input_id st = Inr st"
| "liquidate_markets (m # ms) source input_id st =
     ebind (evaluate_automatic_liquidations_for_market m source input_id (snd st)) (\<lambda>(market_result, rt).
       liquidate_markets ms source input_id (append_process_result (fst st) market_result, rt))"

definition evaluate_all_automatic_liquidations :: "InboundEngineRecord \<Rightarrow> string option \<Rightarrow> EngineRuntime \<Rightarrow>
    runtime_error + (EngineProcessResult \<times> EngineRuntime)" where
  "evaluate_all_automatic_liquidations source input_id rt =
     liquidate_markets (liquidatable_markets (rt_risk_states rt)) source input_id (empty_result, rt)"

end
