(* ===== verification/RuntimeProcess.thy ===== *)
theory RuntimeProcess
  imports Runtime
begin

text \<open>
  The handling of inputs in \<open>src/src/runtime/EngineRuntime.cpp\<close>: duplicate detection, the six kinds
  of input, silent replay, and taking and restoring a snapshot of the whole state.
\<close>

section \<open>Duplicates\<close>

definition make_duplicate_result :: "EngineDuplicateReason \<Rightarrow> string \<Rightarrow> ProcessedRuntimeRequest \<Rightarrow>
    EngineProcessResult" where
  "make_duplicate_result reason key original = empty_result\<lparr>pr_status := StatusDuplicate,
     pr_duplicate := Some \<lparr>di_reason = reason, di_key = key, di_original_topic = rq_topic original,
       di_original_partition = rq_partition original, di_original_offset = rq_offset original,
       di_original_input_id = rq_input_id original,
       di_original_idempotency_key = rq_idempotency_key original\<rparr>\<rparr>"

definition duplicate_input_result_for :: "string option \<Rightarrow> EngineRuntime \<Rightarrow> EngineProcessResult option" where
  "duplicate_input_result_for input_id rt = (case input_id of
      None \<Rightarrow> None
    | Some i \<Rightarrow> map_option (make_duplicate_result DuplicateInputId i)
                 (um_find (rt_processed_input_ids rt) i))"

definition duplicate_result_for :: "string option \<Rightarrow> string \<Rightarrow> EngineRuntime \<Rightarrow> EngineProcessResult option" where
  "duplicate_result_for input_id idempotency_key rt =
     (case (case input_id of None \<Rightarrow> None | Some i \<Rightarrow> um_find (rt_processed_input_ids rt) i) of
        Some original \<Rightarrow> Some (make_duplicate_result DuplicateInputId (the input_id) original)
      | None \<Rightarrow> map_option (make_duplicate_result DuplicateIdempotencyKey idempotency_key)
          (um_find (rt_processed_idempotency_keys rt) idempotency_key))"

definition processed_request :: "RuntimeCommandKind \<Rightarrow> InboundEngineRecord \<Rightarrow> string option \<Rightarrow> string \<Rightarrow>
    ProcessedRuntimeRequest" where
  "processed_request kind r input_id idempotency_key =
     \<lparr>rq_command_kind = kind, rq_topic = ir_topic r, rq_partition = ir_partition r,
      rq_offset = ir_offset r, rq_input_id = input_id, rq_idempotency_key = idempotency_key\<rparr>"

definition mark_processed :: "RuntimeCommandKind \<Rightarrow> InboundEngineRecord \<Rightarrow> string option \<Rightarrow> string \<Rightarrow>
    EngineRuntime \<Rightarrow> EngineRuntime" where
  "mark_processed kind r input_id idempotency_key rt =
     (let processed = processed_request kind r input_id idempotency_key;
          rt = (case input_id of None \<Rightarrow> rt
                | Some i \<Rightarrow> rt\<lparr>rt_processed_input_ids :=
                    snd (um_emplace i processed (rt_processed_input_ids rt))\<rparr>)
      in rt\<lparr>rt_processed_idempotency_keys :=
           snd (um_emplace idempotency_key processed (rt_processed_idempotency_keys rt))\<rparr>)"

definition mark_input_processed :: "RuntimeCommandKind \<Rightarrow> InboundEngineRecord \<Rightarrow> string option \<Rightarrow>
    EngineRuntime \<Rightarrow> EngineRuntime" where
  "mark_input_processed kind r input_id rt = (case input_id of
      None \<Rightarrow> rt
    | Some i \<Rightarrow> rt\<lparr>rt_processed_input_ids :=
        snd (um_emplace i (processed_request kind r input_id []) (rt_processed_input_ids rt))\<rparr>)"

definition apply_processing_mode :: "ProcessingMode \<Rightarrow> EngineProcessResult \<Rightarrow> EngineProcessResult" where
  "apply_processing_mode mode result =
     (if mode = ReplaySilent then result\<lparr>pr_replies := [], pr_events := []\<rparr> else result)"

definition in_mode :: "ProcessingMode \<Rightarrow> EngineProcessResult \<times> EngineRuntime \<Rightarrow>
    runtime_error + (EngineProcessResult \<times> EngineRuntime)" where
  "in_mode mode = (\<lambda>(result, rt). Inr (apply_processing_mode mode result, rt))"

section \<open>Placing and cancelling orders\<close>

definition make_place_context :: "InboundEngineRecord \<Rightarrow> PlaceOrderInput \<Rightarrow> OrderMetadata \<Rightarrow>
    EngineEventTranslationContext" where
  "make_place_context r inp md =
     \<lparr>tc_command_kind = KindPlaceOrder, tc_source = r, tc_request_id = ce_request_id (pi_envelope inp),
      tc_input_id = pi_input_id inp, tc_reply_partition = ce_reply_partition (pi_envelope inp),
      tc_order_id = pi_order_id inp, tc_market_id = pi_market_id inp,
      tc_can_open_resting_order = can_open_resting_order inp, tc_pending_metadata = Some md,
      tc_liquidation_id = [], tc_liquidated_user_id = 0, tc_liquidation_position_side = Long,
      tc_adl_execution = False, tc_adl_id = [], tc_adl_counterparty_user_id = 0,
      tc_adl_priority_rank = 0\<rparr>"

definition make_cancel_context :: "InboundEngineRecord \<Rightarrow> CancelOrderInput \<Rightarrow>
    EngineEventTranslationContext" where
  "make_cancel_context r inp =
     \<lparr>tc_command_kind = KindCancelOrder, tc_source = r, tc_request_id = ce_request_id (ci_envelope inp),
      tc_input_id = ci_input_id inp, tc_reply_partition = ce_reply_partition (ci_envelope inp),
      tc_order_id = ci_order_id inp, tc_market_id = ci_market_id inp,
      tc_can_open_resting_order = False, tc_pending_metadata = None, tc_liquidation_id = [],
      tc_liquidated_user_id = 0, tc_liquidation_position_side = Long, tc_adl_execution = False,
      tc_adl_id = [], tc_adl_counterparty_user_id = 0, tc_adl_priority_rank = 0\<rparr>"

definition reduce_only_rejected_result :: "InboundEngineRecord \<Rightarrow> PlaceOrderInput \<Rightarrow> string \<Rightarrow>
    EngineRuntime \<Rightarrow> runtime_error + (EngineProcessResult \<times> EngineRuntime)" where
  "reduce_only_rejected_result r inp reason rt =
     (let result = push_reply (make_order_rejected_reply r inp reason) empty_result in
      if pi_reservation_id inp \<noteq> [] \<and> pi_reserved_margin_amount inp > 0
      then emit_event (make_reservation_released_event r inp (pi_reserved_margin_amount inp)
             ''ORDER_REJECTED_AFTER_RESERVATION'') (result, rt)
      else Inr (result, rt))"

text \<open>The order that reaches the core: a reduce-only order is capped and never rests.\<close>

definition core_place_input :: "PlaceOrderInput \<Rightarrow> AdapterQuantity \<Rightarrow> PlaceOrderInput" where
  "core_place_input inp capped_quantity =
     (if pi_reduce_only inp then inp\<lparr>pi_quantity := capped_quantity, pi_time_in_force := AIoc\<rparr> else inp)"

definition place_order_metadata :: "PlaceOrderInput \<Rightarrow> OrderMetadata \<Rightarrow> OrderMetadata" where
  "place_order_metadata inp md =
     (if pi_reduce_only inp
      then md\<lparr>om_original_quantity := pi_quantity inp, om_remaining_quantity := pi_quantity inp\<rparr> else md)"

definition record_accepted_metadata :: "EngineEvent list \<Rightarrow> EngineEventTranslationContext \<Rightarrow>
    EngineRuntime \<Rightarrow> runtime_error + EngineRuntime" where
  "record_accepted_metadata core_events context rt =
     (if \<not> has_order_accepted core_events then Inr rt
      else case tc_pending_metadata context of
          None \<Rightarrow> Inl (Thrown ''accepted order metadata was not available'' rt)
        | Some md \<Rightarrow>
            (let (inserted, st) = metadata_insert md (rt_metadata_store rt) in
             if \<not> inserted then Inl (Thrown ''accepted order metadata already exists'' rt)
             else Inr (rt\<lparr>rt_metadata_store := st\<rparr>)))"

definition expire_reduce_only :: "InboundEngineRecord \<Rightarrow> PlaceOrderInput \<Rightarrow> EngineEvent list \<Rightarrow>
    EngineEventTranslationContext \<Rightarrow> EngineProcessResult \<times> EngineRuntime \<Rightarrow>
    runtime_error + (EngineProcessResult \<times> EngineRuntime)" where
  "expire_reduce_only r inp core_events context st =
     (case tc_pending_metadata context of
        None \<Rightarrow> Inr st
      | Some md \<Rightarrow>
          if \<not> pi_reduce_only inp \<or> \<not> has_order_accepted core_events then Inr st
          else (let filled = reduce_only_filled_quantity (om_order_id md) core_events;
                    expired = i64 (pi_quantity inp - filled) in
            ebind (if expired > 0 then emit_event (make_reduce_only_expired_event r md expired) st
                   else Inr st) (\<lambda>(result, rt).
              Inr (result, rt\<lparr>rt_metadata_store :=
                snd (metadata_erase (om_order_id md) (rt_metadata_store rt))\<rparr>))))"

definition liquidate_after :: "bool \<Rightarrow> MarketId \<Rightarrow> InboundEngineRecord \<Rightarrow> string option \<Rightarrow>
    EngineProcessResult \<times> EngineRuntime \<Rightarrow> runtime_error + (EngineProcessResult \<times> EngineRuntime)" where
  "liquidate_after wanted market_id r input_id st =
     (if \<not> wanted then Inr st
      else ebind (evaluate_automatic_liquidations_for_market market_id r input_id (snd st))
        (\<lambda>(liquidations, rt). Inr (append_process_result (fst st) liquidations, rt)))"

definition place_accepted_input :: "InboundEngineRecord \<Rightarrow> PlaceOrderInput \<Rightarrow> AdapterQuantity \<Rightarrow>
    EngineRuntime \<Rightarrow> runtime_error + (EngineProcessResult \<times> EngineRuntime)" where
  "place_accepted_input r inp capped_quantity rt =
     (let core_input = core_place_input inp capped_quantity in
      ebind (throwing rt (map_place_order_to_core core_input (received_sequence r))) (\<lambda>mapped.
      case mc_metadata_to_record mapped of
        None \<Rightarrow> Inl (Thrown ''place order mapping did not produce metadata'' rt)
      | Some md \<Rightarrow>
      (let context = make_place_context r core_input (place_order_metadata inp md) in
      ebind (defined (process (mc_command mapped) (rt_core rt))) (\<lambda>(core, core_events).
      ebind (translate_in core_events context (rt\<lparr>rt_core := core\<rparr>)) (\<lambda>(result, context, rt).
      ebind (record_accepted_metadata core_events context rt) (\<lambda>rt.
      let rt = rt\<lparr>rt_metadata_store :=
            cleanup_completed_order_metadata core_events (rt_metadata_store rt)\<rparr> in
      ebind (expire_reduce_only r inp core_events context (result, rt))
        (liquidate_after (has_trade_executed core_events) (pi_market_id inp) r (pi_input_id inp))))))))"

definition process_place_order :: "InboundEngineRecord \<Rightarrow> ProcessingMode \<Rightarrow> PlaceOrderInput \<Rightarrow>
    EngineRuntime \<Rightarrow> runtime_error + (EngineProcessResult \<times> EngineRuntime)" where
  "process_place_order r mode inp rt =
     (case duplicate_result_for (pi_input_id inp) (ce_idempotency_key (pi_envelope inp)) rt of
        Some duplicate \<Rightarrow> Inr (duplicate, rt)
      | None \<Rightarrow>
          (let inp = inp\<lparr>pi_source := Some (broker_context r)\<rparr>;
               reduce_only = check_reduce_only_order inp (rt_positions rt) in
           ebind (if \<not> ro_allowed reduce_only
                  then reduce_only_rejected_result r inp (ro_reason reduce_only) rt
                  else place_accepted_input r inp (ro_capped_quantity reduce_only) rt) (\<lambda>(result, rt).
             in_mode mode (result, mark_processed KindPlaceOrder r (pi_input_id inp)
               (ce_idempotency_key (pi_envelope inp)) rt))))"

definition process_cancel_order :: "InboundEngineRecord \<Rightarrow> ProcessingMode \<Rightarrow> CancelOrderInput \<Rightarrow>
    EngineRuntime \<Rightarrow> runtime_error + (EngineProcessResult \<times> EngineRuntime)" where
  "process_cancel_order r mode inp rt =
     (case duplicate_result_for (ci_input_id inp) (ce_idempotency_key (ci_envelope inp)) rt of
        Some duplicate \<Rightarrow> Inr (duplicate, rt)
      | None \<Rightarrow>
          (let inp = inp\<lparr>ci_source := Some (broker_context r)\<rparr> in
           ebind (throwing rt (map_cancel_order_to_core inp (received_sequence r))) (\<lambda>mapped.
           ebind (defined (process (mc_command mapped) (rt_core rt))) (\<lambda>(core, core_events).
           ebind (translate_in core_events (make_cancel_context r inp) (rt\<lparr>rt_core := core\<rparr>))
             (\<lambda>(result, context, rt).
             let rt = rt\<lparr>rt_metadata_store :=
                   cleanup_completed_order_metadata core_events (rt_metadata_store rt)\<rparr>
             in in_mode mode (result, mark_processed KindCancelOrder r (ci_input_id inp)
                  (ce_idempotency_key (ci_envelope inp)) rt))))))"

section \<open>Liquidation requests and prices\<close>

definition process_liquidate_position :: "InboundEngineRecord \<Rightarrow> ProcessingMode \<Rightarrow>
    LiquidatePositionInput \<Rightarrow> EngineRuntime \<Rightarrow> runtime_error + (EngineProcessResult \<times> EngineRuntime)" where
  "process_liquidate_position r mode inp rt =
     (case duplicate_result_for (li_input_id inp) (ce_idempotency_key (li_envelope inp)) rt of
        Some duplicate \<Rightarrow> Inr (duplicate, rt)
      | None \<Rightarrow>
          (let inp = inp\<lparr>li_source := Some (broker_context r)\<rparr> in
           ebind (execute_liquidation r inp True rt) (\<lambda>(result, rt).
             in_mode mode (result, mark_processed KindLiquidatePosition r (li_input_id inp)
               (ce_idempotency_key (li_envelope inp)) rt))))"

text \<open>The first loop of \<open>append_mark_price_risk_updates\<close>: new risk states and their keys.\<close>

fun mark_price_risks :: "MarketId \<Rightarrow> AdapterPrice \<Rightarrow> int64 \<Rightarrow> IsolatedPositionMap \<Rightarrow> IsolatedRiskMap \<Rightarrow>
    PositionRiskKey list \<times> IsolatedRiskMap" where
  "mark_price_risks market_id mark_price now [] risk_states = ([], risk_states)"
| "mark_price_risks market_id mark_price now ((key, pos) # ps) risk_states =
     (if ps_market_id pos \<noteq> market_id \<or> ps_signed_quantity pos = 0
      then mark_price_risks market_id mark_price now ps risk_states
      else let risk = runtime_risk_from_position pos mark_price now (sm_find risk_states key);
               (keys, risk_states) = mark_price_risks market_id mark_price now ps
                  (sm_assign key risk risk_states)
           in (key # keys, risk_states))"

fun emit_risk_states :: "InboundEngineRecord \<Rightarrow> string option \<Rightarrow> PositionRiskKey list \<Rightarrow>
    EngineProcessResult \<times> EngineRuntime \<Rightarrow> runtime_error + (EngineProcessResult \<times> EngineRuntime)" where
  "emit_risk_states r input_id [] st = Inr st"
| "emit_risk_states r input_id (key # keys) st =
     ebind (throwing (snd st) (map_at (rt_risk_states (snd st)) key)) (\<lambda>risk.
     ebind (emit_event (make_runtime_risk_state_updated_event r input_id risk) st)
       (emit_risk_states r input_id keys))"

definition append_mark_price_risk_updates :: "InboundEngineRecord \<Rightarrow> string option \<Rightarrow> MarketId \<Rightarrow>
    AdapterPrice \<Rightarrow> int64 \<Rightarrow> EngineProcessResult \<times> EngineRuntime \<Rightarrow>
    runtime_error + (EngineProcessResult \<times> EngineRuntime)" where
  "append_mark_price_risk_updates r input_id market_id mark_price updated_at_ms = (\<lambda>(result, rt).
     (let (keys, risk_states) = mark_price_risks market_id mark_price updated_at_ms (rt_positions rt)
            (rt_risk_states rt)
      in emit_risk_states r input_id keys (result, rt\<lparr>rt_risk_states := risk_states\<rparr>)))"

definition process_mark_price_updated :: "InboundEngineRecord \<Rightarrow> ProcessingMode \<Rightarrow>
    MarkPriceUpdatedInput \<Rightarrow> EngineRuntime \<Rightarrow> runtime_error + (EngineProcessResult \<times> EngineRuntime)" where
  "process_mark_price_updated r mode inp rt =
     (case duplicate_input_result_for (mi_input_id inp) rt of
        Some duplicate \<Rightarrow> Inr (duplicate, rt)
      | None \<Rightarrow>
          (let inp = inp\<lparr>mi_source := Some (broker_context r)\<rparr>;
               state = mark_state_from_input inp in
           ebind (emit_event (make_mark_price_updated_event r inp) (empty_result, rt)) (\<lambda>(result, rt).
           ebind (append_mark_price_risk_updates r (mi_input_id inp) (mi_market_id inp)
             (mi_mark_price inp) (mi_published_at_ms inp)
             (result, rt\<lparr>rt_mark_prices := um_assign (mi_market_id inp) state (rt_mark_prices rt)\<rparr>)) (\<lambda>st.
           ebind (liquidate_after True (mi_market_id inp) r (mi_input_id inp) st) (\<lambda>(result, rt).
             in_mode mode (result,
               mark_input_processed KindMarkPriceUpdated r (mi_input_id inp) rt))))))"

section \<open>Funding\<close>

definition process_funding_rate_updated :: "InboundEngineRecord \<Rightarrow> ProcessingMode \<Rightarrow>
    FundingRateUpdatedInput \<Rightarrow> EngineRuntime \<Rightarrow> runtime_error + (EngineProcessResult \<times> EngineRuntime)" where
  "process_funding_rate_updated r mode inp rt =
     (case duplicate_input_result_for (fi_input_id inp) rt of
        Some duplicate \<Rightarrow> Inr (duplicate, rt)
      | None \<Rightarrow>
          (let inp = inp\<lparr>fi_source := Some (broker_context r)\<rparr>;
               state = funding_rate_state_from_input inp in
           ebind (emit_event (make_funding_rate_updated_event r inp) (empty_result, rt)) (\<lambda>(result, rt).
             in_mode mode (result, mark_input_processed KindFundingRateUpdated r (fi_input_id inp)
               (rt\<lparr>rt_funding_rates := um_assign (fi_market_id inp) state (rt_funding_rates rt)\<rparr>)))))"

definition funding_amount :: "int64 \<Rightarrow> AdapterPrice \<Rightarrow> FundingRateState \<Rightarrow> int64" where
  "funding_amount signed_quantity mark_price funding =
     i64 (- (i64 (i64 (signed_quantity * mark_price) * fr_rate funding) sdiv fr_rate_scale funding))"

definition funding_payment :: "IsolatedPositionState \<Rightarrow> int64 \<Rightarrow> payload_value" where
  "funding_payment pos amount = object_value
     [(''user_id'', number_value (ps_user_id pos)),
      (''position_id'', PString (position_id_text (ps_user_id pos) (ps_market_id pos))),
      (''side'', PString (position_side_text (ps_signed_quantity pos))),
      (''asset'', PString (position_settlement_asset pos)),
      (''amount'', number_value amount)]"

definition funding_risk :: "IsolatedPositionState \<Rightarrow> AdapterPrice \<Rightarrow> int64 \<Rightarrow> IsolatedRiskState option \<Rightarrow>
    int64 \<Rightarrow> IsolatedRiskState" where
  "funding_risk pos mark_price settle_at_ms previous amount =
     (let risk = runtime_risk_from_position pos mark_price settle_at_ms previous;
          risk = risk\<lparr>rs_equity := i64 (rs_equity risk + amount)\<rparr>;
          risk = risk\<lparr>rs_margin_ratio := margin_ratio_for (rs_equity risk) (rs_maintenance_margin risk)\<rparr>
      in risk\<lparr>rs_status := (if rs_signed_quantity risk = 0 then ''FLAT''
           else if rs_equity risk \<le> rs_maintenance_margin risk then ''LIQUIDATABLE'' else ''HEALTHY'')\<rparr>)"

text \<open>The loop over the positions; dividing by a rate scale of 0 is undefined.\<close>

fun funding_payments :: "MarketId \<Rightarrow> FundingRateState \<Rightarrow> MarkPriceMap \<Rightarrow> int64 \<Rightarrow> IsolatedPositionMap \<Rightarrow>
    IsolatedRiskMap \<Rightarrow> (payload_value list \<times> PositionRiskKey list \<times> IsolatedRiskMap) option" where
  "funding_payments market_id funding mark_prices now [] risk_states = Some ([], [], risk_states)"
| "funding_payments market_id funding mark_prices now ((key, pos) # ps) risk_states =
     (if ps_market_id pos \<noteq> market_id \<or> ps_signed_quantity pos = 0
      then funding_payments market_id funding mark_prices now ps risk_states
      else if fr_rate_scale funding = 0 then None
      else let mark_price = settlement_mark_price_for pos mark_prices;
               amount = funding_amount (ps_signed_quantity pos) mark_price funding in
        if amount = 0 then funding_payments market_id funding mark_prices now ps risk_states
        else map_option (\<lambda>(payments, keys, risk_states).
               (funding_payment pos amount # payments, key # keys, risk_states))
             (funding_payments market_id funding mark_prices now ps (sm_assign key
               (funding_risk pos mark_price now (sm_find risk_states key) amount) risk_states)))"

definition settle_funding :: "InboundEngineRecord \<Rightarrow> FundingSettlementTickInput \<Rightarrow> FundingRateState \<Rightarrow>
    EngineRuntime \<Rightarrow> runtime_error + (EngineProcessResult \<times> EngineRuntime)" where
  "settle_funding r inp funding rt =
     ebind (defined (funding_payments (ti_market_id inp) funding (rt_mark_prices rt)
       (ti_settle_at_ms inp) (rt_positions rt) (rt_risk_states rt))) (\<lambda>(payments, keys, risk_states).
     ebind (emit_event (make_funding_payment_applied_event r inp payments)
       (empty_result, rt\<lparr>rt_risk_states := risk_states\<rparr>)) (\<lambda>st.
     ebind (emit_risk_states r (ti_input_id inp) keys st) (\<lambda>(result, rt).
     liquidate_after True (ti_market_id inp) r (ti_input_id inp)
       (result, rt\<lparr>rt_settled_funding_intervals :=
          insert (FundingSettlementKey (ti_market_id inp) (ti_funding_interval_id inp))
            (rt_settled_funding_intervals rt)\<rparr>))))"

definition rejected_no_output :: EngineProcessResult where
  "rejected_no_output = empty_result\<lparr>pr_status := StatusRejected\<rparr>"

definition process_funding_settlement_tick :: "InboundEngineRecord \<Rightarrow> ProcessingMode \<Rightarrow>
    FundingSettlementTickInput \<Rightarrow> EngineRuntime \<Rightarrow>
    runtime_error + (EngineProcessResult \<times> EngineRuntime)" where
  "process_funding_settlement_tick r mode inp rt =
     (case duplicate_input_result_for (ti_input_id inp) rt of
        Some duplicate \<Rightarrow> Inr (duplicate, rt)
      | None \<Rightarrow>
          (let inp = inp\<lparr>ti_source := Some (broker_context r)\<rparr>;
               mark = mark_input_processed KindFundingSettlementTick r (ti_input_id inp) in
           if FundingSettlementKey (ti_market_id inp) (ti_funding_interval_id inp) \<in>
              rt_settled_funding_intervals rt
           then Inr (empty_result, mark rt)
           else case um_find (rt_funding_rates rt) (ti_market_id inp) of
               None \<Rightarrow> Inr (rejected_no_output, mark rt)
             | Some funding \<Rightarrow>
                 if fr_funding_interval_id funding \<noteq> ti_funding_interval_id inp
                 then Inr (rejected_no_output, mark rt)
                 else ebind (settle_funding r inp funding rt) (\<lambda>(result, rt).
                   in_mode mode (result, mark rt))))"

section \<open>Processing a record\<close>

definition runtime_process :: "InboundEngineRecord \<Rightarrow> ProcessingMode \<Rightarrow> EngineRuntime \<Rightarrow>
    runtime_error + (EngineProcessResult \<times> EngineRuntime)" where
  "runtime_process r mode rt =
     ebind (throwing rt (parse_engine_input (ir_raw_json r))) (\<lambda>parsed. case parsed of
        InPlaceOrder inp \<Rightarrow> process_place_order r mode inp rt
      | InLiquidatePosition inp \<Rightarrow> process_liquidate_position r mode inp rt
      | InMarkPriceUpdated inp \<Rightarrow> process_mark_price_updated r mode inp rt
      | InFundingRateUpdated inp \<Rightarrow> process_funding_rate_updated r mode inp rt
      | InFundingSettlementTick inp \<Rightarrow> process_funding_settlement_tick r mode inp rt
      | InCancelOrder inp \<Rightarrow> process_cancel_order r mode inp rt)"

definition process_replay :: "InboundEngineRecord \<Rightarrow> EngineRuntime \<Rightarrow>
    runtime_error + (EngineProcessResult \<times> EngineRuntime)" where
  "process_replay r = runtime_process r ReplaySilent"

text \<open>The public overloads for the application, which take a mode and no input id.\<close>

definition evaluate_market_in_mode :: "MarketId \<Rightarrow> InboundEngineRecord \<Rightarrow> ProcessingMode \<Rightarrow>
    EngineRuntime \<Rightarrow> runtime_error + (EngineProcessResult \<times> EngineRuntime)" where
  "evaluate_market_in_mode market_id source mode rt =
     ebind (evaluate_automatic_liquidations_for_market market_id source None rt) (in_mode mode)"

definition evaluate_all_in_mode :: "InboundEngineRecord \<Rightarrow> ProcessingMode \<Rightarrow> EngineRuntime \<Rightarrow>
    runtime_error + (EngineProcessResult \<times> EngineRuntime)" where
  "evaluate_all_in_mode source mode rt =
     ebind (evaluate_all_automatic_liquidations source None rt) (in_mode mode)"

section \<open>Snapshots\<close>

record EngineRuntimeProcessedRequestSnapshot =
  qs_command_kind :: RuntimeCommandKind
  qs_topic :: string
  qs_partition :: int32
  qs_offset :: int64
  qs_input_id :: "string option"
  qs_idempotency_key :: string

record EngineRuntimeStateSnapshot =
  st_core_snapshot :: EngineSnapshot
  st_metadata_store :: OrderMetadataStore
  st_public_sequences :: "(MarketId \<times> EngineSequence) list"
  st_mark_prices :: MarkPriceMap
  st_funding_rates :: "(MarketId \<times> FundingRateState) list"
  st_settled_funding_intervals :: FundingSettlementSet
  st_positions :: IsolatedPositionMap
  st_risk_states :: IsolatedRiskMap
  st_processed_input_ids :: "(string \<times> EngineRuntimeProcessedRequestSnapshot) list"
  st_processed_idempotency_keys :: "(string \<times> EngineRuntimeProcessedRequestSnapshot) list"

definition snapshot_request :: "ProcessedRuntimeRequest \<Rightarrow> EngineRuntimeProcessedRequestSnapshot" where
  "snapshot_request q = \<lparr>qs_command_kind = rq_command_kind q, qs_topic = rq_topic q,
     qs_partition = rq_partition q, qs_offset = rq_offset q, qs_input_id = rq_input_id q,
     qs_idempotency_key = rq_idempotency_key q\<rparr>"

definition restore_request :: "EngineRuntimeProcessedRequestSnapshot \<Rightarrow> ProcessedRuntimeRequest" where
  "restore_request q = \<lparr>rq_command_kind = qs_command_kind q, rq_topic = qs_topic q,
     rq_partition = qs_partition q, rq_offset = qs_offset q, rq_input_id = qs_input_id q,
     rq_idempotency_key = qs_idempotency_key q\<rparr>"

text \<open>The loops that emplace the entries of one map into another.\<close>

definition copy_map :: "('a \<Rightarrow> 'b) \<Rightarrow> ('k \<times> 'a) list \<Rightarrow> ('k \<times> 'b) list" where
  "copy_map f m = fold (\<lambda>(k, v) copy. snd (um_emplace k (f v) copy)) m []"

definition snapshot_state :: "EngineRuntime \<Rightarrow> EngineRuntimeStateSnapshot option" where
  "snapshot_state rt = map_option (\<lambda>core.
     \<lparr>st_core_snapshot = core, st_metadata_store = rt_metadata_store rt,
      st_public_sequences = market_snapshot (em_sequences (rt_emitter rt)),
      st_mark_prices = rt_mark_prices rt, st_funding_rates = rt_funding_rates rt,
      st_settled_funding_intervals = rt_settled_funding_intervals rt, st_positions = rt_positions rt,
      st_risk_states = rt_risk_states rt,
      st_processed_input_ids = copy_map snapshot_request (rt_processed_input_ids rt),
      st_processed_idempotency_keys = copy_map snapshot_request (rt_processed_idempotency_keys rt)\<rparr>)
     (engine_snapshot (rt_core rt))"

fun restore_sequences :: "(MarketId \<times> EngineSequence) list \<Rightarrow> MarketSequenceGenerator \<Rightarrow>
    (string \<times> MarketSequenceGenerator) + MarketSequenceGenerator" where
  "restore_sequences [] g = Inr g"
| "restore_sequences ((market_id, sequence) # es) g =
     ebind (catch (market_restore market_id sequence g) (\<lambda>e. Inl (e, g))) (restore_sequences es)"

definition restore_state :: "EngineRuntimeStateSnapshot \<Rightarrow> EngineRuntime \<Rightarrow> runtime_error + EngineRuntime" where
  "restore_state snap rt =
     ebind (defined (engine_restore (st_core_snapshot snap) (rt_core rt))) (\<lambda>core.
     let rt = rt\<lparr>rt_core := core, rt_metadata_store := st_metadata_store snap\<rparr>;
         set_sequences = (\<lambda>g. rt\<lparr>rt_emitter := (rt_emitter rt)\<lparr>em_sequences := g\<rparr>\<rparr>) in
     ebind (catch (restore_sequences (st_public_sequences snap)
              (make_market_sequences (rc_first_public_sequence (rt_config rt))))
              (\<lambda>(e, g). Inl (Thrown e (set_sequences g)))) (\<lambda>g.
     Inr ((set_sequences g)\<lparr>rt_mark_prices := st_mark_prices snap,
       rt_funding_rates := st_funding_rates snap,
       rt_settled_funding_intervals := st_settled_funding_intervals snap,
       rt_positions := st_positions snap, rt_risk_states := st_risk_states snap,
       rt_processed_input_ids := copy_map restore_request (st_processed_input_ids snap),
       rt_processed_idempotency_keys := copy_map restore_request (st_processed_idempotency_keys snap)\<rparr>)))"

end
