(* ===== verification/RuntimeSteps.thy ===== *)
theory RuntimeSteps
  imports RuntimeProcess
begin

text \<open>
  How the runtime evolves: an interface for relations between the states before and after a run,
  with the events emitted in between.  A relation that is kept by the few elementary changes
  (an event is emitted, the core or the metadata changes, a position or risk state is replaced)
  is kept by every operation of the translator and of the runtime.
\<close>

section \<open>What holds of the result when there is one\<close>

definition post :: "'e + 'a \<Rightarrow> ('a \<Rightarrow> bool) \<Rightarrow> bool" where
  "post m Q \<longleftrightarrow> (\<forall>x. m = Inr x \<longrightarrow> Q x)"

lemma post_simps [simp]: "post (Inl e) Q" "post (Inr x) Q \<longleftrightarrow> Q x"
  by (simp_all add: post_def)

lemma post_ebind [simp]: "post (ebind m f) Q \<longleftrightarrow> post m (\<lambda>x. post (f x) Q)"
  by (cases m) simp_all

lemma post_mono: "post m P \<Longrightarrow> (\<And>x. P x \<Longrightarrow> Q x) \<Longrightarrow> post m Q"
  by (auto simp: post_def)

lemma post_bind: "post m P \<Longrightarrow> (\<And>x. P x \<Longrightarrow> post (f x) Q) \<Longrightarrow> post (ebind m f) Q"
  by (cases m) simp_all

lemma post_any: "(\<And>x. post (f x) Q) \<Longrightarrow> post (ebind m f) Q"
  by (cases m) simp_all

lemma post_elim: "post m Q \<Longrightarrow> m = Inr x \<Longrightarrow> Q x"
  by (simp add: post_def)

section \<open>The events of a market\<close>

definition market_event :: "MarketId \<Rightarrow> EngineSequence \<Rightarrow> EngineOutputRecord \<Rightarrow> bool" where
  "market_event m s x \<longleftrightarrow> eo_topic x = EngineEventsTopic \<and> eo_key x = to_string m \<and> eo_partition x = None \<and>
     (um_find (eo_payload x) ''engine_sequence'' = Some (text_value (uint s)) \<or>
      um_find (eo_payload x) ''engine_sequence'' = Some (number_value (uint s))) \<and>
     um_find (eo_payload x) ''engine_event_id'' =
       Some (PString (''eng_'' @ to_string m @ ''_'' @ to_string (uint s)))"

text \<open>The step an event takes: the next number of its market.\<close>

definition emits :: "Emitter \<Rightarrow> EngineOutputRecord \<Rightarrow> Emitter \<Rightarrow> bool" where
  "emits em x em' \<longleftrightarrow> (\<exists>m s. market_next m (em_sequences em) = Inr (s, em_sequences em') \<and> market_event m s x)"

definition no_engine_fields :: "PayloadFields \<Rightarrow> bool" where
  "no_engine_fields pf \<longleftrightarrow> um_find pf ''engine_sequence'' = None \<and> um_find pf ''engine_event_id'' = None"

lemma um_find_Cons [container_simps]: "um_find ((k, v) # m) k' = (if k = k' then Some v else um_find m k')"
  by (simp add: um_find_def)

lemma read_clock_sequences [simp]: "em_sequences (snd (read_clock clock em)) = em_sequences em"
  by (simp add: read_clock_def split: option.split)

lemma make_event_emits:
  assumes "no_engine_fields pf"
  shows "post (make_event clock type m context em pf) (\<lambda>(x, em'). emits em x em')"
proof (cases "market_next m (em_sequences em)")
  case (Inr p)
  obtain s ms where p: "p = (s, ms)" by (cases p)
  show ?thesis
    using assms Inr p
    by (simp add: make_event_def add_engine_fields_def add_source_fields_def Let_def split_beta emits_def
        market_event_def no_engine_fields_def exI [of _ m] split: option.split)
qed (simp add: make_event_def add_engine_fields_def)

lemma make_runtime_market_event_emits:
  assumes "no_engine_fields pf"
  shows "post (make_runtime_market_event type m r input_id request_id clock pf em) (\<lambda>(x, em'). emits em x em')"
proof (cases "market_next m (em_sequences em)")
  case (Inr p)
  obtain s ms where p: "p = (s, ms)" by (cases p)
  show ?thesis
    using assms Inr p
    by (simp add: make_runtime_market_event_def add_runtime_engine_fields_def add_runtime_source_fields_def
        add_input_id_def Let_def split_beta emits_def market_event_def no_engine_fields_def exI [of _ m]
        split: option.split)
qed (simp add: make_runtime_market_event_def add_runtime_engine_fields_def)

lemma no_engine_fields_simps [simp]:
  "no_engine_fields []"
  "k \<noteq> ''engine_sequence'' \<Longrightarrow> k \<noteq> ''engine_event_id'' \<Longrightarrow>
     no_engine_fields ((k, v) # pf) \<longleftrightarrow> no_engine_fields pf"
  "k \<noteq> ''engine_sequence'' \<Longrightarrow> k \<noteq> ''engine_event_id'' \<Longrightarrow>
     no_engine_fields (put_field k v pf) \<longleftrightarrow> no_engine_fields pf"
  "k \<noteq> ''engine_sequence'' \<Longrightarrow> k \<noteq> ''engine_event_id'' \<Longrightarrow>
     no_engine_fields (metadata_field k md f pf) \<longleftrightarrow> no_engine_fields pf"
  by (auto simp: no_engine_fields_def metadata_field_def container_simps split: option.split)

text \<open>What a function that makes an event does to the emitter.\<close>

definition event_maker :: "(Clock \<Rightarrow> Emitter \<Rightarrow> string + (EngineOutputRecord \<times> Emitter)) \<Rightarrow> bool" where
  "event_maker mk \<longleftrightarrow> (\<forall>clock em. post (mk clock em) (\<lambda>(x, em'). emits em x em'))"

lemma input_event_makers:
  "event_maker (make_mark_price_updated_event r mi)"
  "event_maker (make_funding_rate_updated_event r fi)"
proof -
  show "event_maker (make_mark_price_updated_event r mi)"
    unfolding event_maker_def
  proof (intro allI)
    fix clock em
    show "post (make_mark_price_updated_event r mi clock em) (\<lambda>(x, em'). emits em x em')"
    proof (cases "market_next (mi_market_id mi) (em_sequences em)")
      case (Inr p)
      obtain s ms where p: "p = (s, ms)" by (cases p)
      show ?thesis
        using Inr p
        by (simp add: make_mark_price_updated_event_def market_event_fields_def add_input_id_def Let_def
            split_beta emits_def market_event_def exI [of _ "mi_market_id mi"] container_simps split: option.split)
    qed (simp add: make_mark_price_updated_event_def market_event_fields_def)
  qed
  show "event_maker (make_funding_rate_updated_event r fi)"
    unfolding event_maker_def
  proof (intro allI)
    fix clock em
    show "post (make_funding_rate_updated_event r fi clock em) (\<lambda>(x, em'). emits em x em')"
    proof (cases "market_next (fi_market_id fi) (em_sequences em)")
      case (Inr p)
      obtain s ms where p: "p = (s, ms)" by (cases p)
      show ?thesis
        using Inr p
        by (simp add: make_funding_rate_updated_event_def market_event_fields_def add_input_id_def Let_def
            split_beta emits_def market_event_def exI [of _ "fi_market_id fi"] container_simps split: option.split)
    qed (simp add: make_funding_rate_updated_event_def market_event_fields_def)
  qed
qed

lemma event_makers:
  "event_maker (make_reservation_released_event r pin amount reason)"
  "event_maker (make_reduce_only_expired_event r md quantity)"
  "event_maker (make_funding_payment_applied_event r tin payments)"
  "event_maker (make_runtime_risk_state_updated_event r input_id risk)"
  "event_maker (make_liquidation_started_event r lin pos risk)"
  "event_maker (make_liquidation_completed_event r lin quantity)"
  unfolding event_maker_def make_reservation_released_event_def make_reduce_only_expired_event_def
    make_funding_payment_applied_event_def make_runtime_risk_state_updated_event_def
    make_liquidation_started_event_def make_liquidation_completed_event_def
  by (intro allI make_runtime_market_event_emits; simp add: risk_payload_def)+

lemma translator_makers:
  "post (make_account_delta_event clock md pos trade effect context em) (\<lambda>(x, em'). emits em x em')"
  "post (make_position_changed_event clock pos q p pnl mark context em) (\<lambda>(x, em'). emits em x em')"
  "post (make_risk_state_updated_event clock risk context em) (\<lambda>(x, em'). emits em x em')"
  "post (make_liquidation_executed_event clock trade taker context em) (\<lambda>(x, em'). emits em x em')"
  unfolding make_account_delta_event_def make_position_changed_event_def make_risk_state_updated_event_def
    make_liquidation_executed_event_def Let_def
  by (rule make_event_emits, simp add: risk_payload_def)+
    (cases "tc_adl_execution context", simp_all only: if_True if_False, (rule make_event_emits, simp)+)

lemma trade_payload_fields [simp]: "no_engine_fields (trade_payload trade maker taker context)"
  by (simp add: trade_payload_def Let_def)

section \<open>Risk states that match their position\<close>

definition risk_matches :: "IsolatedPositionState \<Rightarrow> IsolatedRiskState \<Rightarrow> bool" where
  "risk_matches pos risk \<longleftrightarrow>
     rs_user_id risk = ps_user_id pos \<and> rs_market_id risk = ps_market_id pos \<and>
     rs_signed_quantity risk = ps_signed_quantity pos \<and>
     rs_average_entry_price risk = ps_average_entry_price pos \<and>
     rs_isolated_margin risk = ps_isolated_margin pos \<and> rs_leverage risk = ps_leverage pos \<and>
     rs_maintenance_margin risk = maintenance_margin_for (ps_signed_quantity pos) (rs_mark_price risk) \<and>
     rs_margin_ratio risk = margin_ratio_for (rs_equity risk) (rs_maintenance_margin risk) \<and>
     rs_status risk = risk_status_for (ps_signed_quantity pos) (rs_equity risk) (rs_maintenance_margin risk)"

lemma risk_matches_makers [simp]:
  "risk_matches pos (risk_from_position pos price now)"
  "risk_matches pos (runtime_risk_from_position pos price now previous)"
  "risk_matches pos (funding_risk pos price now previous amount)"
  by (simp_all add: risk_matches_def risk_from_position_def runtime_risk_from_position_def funding_risk_def
      risk_status_for_def Let_def)

section \<open>Duplicates and marks of an input\<close>

fun duplicate_of :: "ParsedEngineInput \<Rightarrow> EngineRuntime \<Rightarrow> EngineProcessResult option" where
  "duplicate_of (InPlaceOrder i) = duplicate_result_for (pi_input_id i) (ce_idempotency_key (pi_envelope i))"
| "duplicate_of (InCancelOrder i) = duplicate_result_for (ci_input_id i) (ce_idempotency_key (ci_envelope i))"
| "duplicate_of (InLiquidatePosition i) = duplicate_result_for (li_input_id i) (ce_idempotency_key (li_envelope i))"
| "duplicate_of (InMarkPriceUpdated i) = duplicate_input_result_for (mi_input_id i)"
| "duplicate_of (InFundingRateUpdated i) = duplicate_input_result_for (fi_input_id i)"
| "duplicate_of (InFundingSettlementTick i) = duplicate_input_result_for (ti_input_id i)"

fun mark_input :: "ParsedEngineInput \<Rightarrow> InboundEngineRecord \<Rightarrow> EngineRuntime \<Rightarrow> EngineRuntime" where
  "mark_input (InPlaceOrder i) r =
     mark_processed KindPlaceOrder r (pi_input_id i) (ce_idempotency_key (pi_envelope i))"
| "mark_input (InCancelOrder i) r =
     mark_processed KindCancelOrder r (ci_input_id i) (ce_idempotency_key (ci_envelope i))"
| "mark_input (InLiquidatePosition i) r =
     mark_processed KindLiquidatePosition r (li_input_id i) (ce_idempotency_key (li_envelope i))"
| "mark_input (InMarkPriceUpdated i) r = mark_input_processed KindMarkPriceUpdated r (mi_input_id i)"
| "mark_input (InFundingRateUpdated i) r = mark_input_processed KindFundingRateUpdated r (fi_input_id i)"
| "mark_input (InFundingSettlementTick i) r = mark_input_processed KindFundingSettlementTick r (ti_input_id i)"

section \<open>The interface\<close>

locale runtime_evolution =
  fixes R :: "EngineRuntime \<Rightarrow> EngineOutputRecord list \<Rightarrow> EngineRuntime \<Rightarrow> bool"
  assumes R_refl: "R rt [] rt"
    and R_trans: "R rt es rt1 \<Longrightarrow> R rt1 es' rt2 \<Longrightarrow> R rt (es @ es') rt2"
    and R_core: "R rt [] (rt\<lparr>rt_core := core\<rparr>)"
    and R_metadata: "R rt [] (rt\<lparr>rt_metadata_store := st\<rparr>)"
    and R_emit: "emits (rt_emitter rt) x em \<Longrightarrow> R rt [x] (rt\<lparr>rt_emitter := em\<rparr>)"
    and R_clock: "em_sequences em = em_sequences (rt_emitter rt) \<Longrightarrow> R rt [] (rt\<lparr>rt_emitter := em\<rparr>)"
    and R_fill: "key = PositionRiskKey (ps_user_id pos) (ps_market_id pos) \<Longrightarrow> risk_matches pos risk \<Longrightarrow>
      R rt [] (rt\<lparr>rt_positions := sm_assign key pos (rt_positions rt),
                  rt_risk_states := sm_assign key risk (rt_risk_states rt)\<rparr>)"
    and R_risk: "(key, pos) \<in> set (rt_positions rt) \<Longrightarrow> risk_matches pos risk \<Longrightarrow>
      R rt [] (rt\<lparr>rt_risk_states := sm_assign key risk (rt_risk_states rt)\<rparr>)"
    and R_mark_prices: "R rt [] (rt\<lparr>rt_mark_prices := mps\<rparr>)"
    and R_funding_rates: "R rt [] (rt\<lparr>rt_funding_rates := rates\<rparr>)"
    and R_settled: "R rt [] (rt\<lparr>rt_settled_funding_intervals := insert k (rt_settled_funding_intervals rt)\<rparr>)"
begin

lemma R_trans1: "R rt [] rt1 \<Longrightarrow> R rt1 es rt2 \<Longrightarrow> R rt es rt2"
  using R_trans [of rt "[]" rt1 es rt2] by simp

lemma R_trans2: "R rt es rt1 \<Longrightarrow> R rt1 [] rt2 \<Longrightarrow> R rt es rt2"
  using R_trans [of rt es rt1 "[]" rt2] by simp

text \<open>Results and states of the runtime.\<close>

definition evolves :: "EngineProcessResult \<times> EngineRuntime \<Rightarrow> EngineProcessResult \<times> EngineRuntime \<Rightarrow> bool" where
  "evolves st st' \<longleftrightarrow> (\<exists>es. pr_events (fst st') = pr_events (fst st) @ es \<and> R (snd st) es (snd st'))"

lemma evolves_refl [simp]: "evolves st st"
  by (simp add: evolves_def R_refl)

lemma evolves_trans [trans]: "evolves st st1 \<Longrightarrow> evolves st1 st2 \<Longrightarrow> evolves st st2"
  by (auto simp: evolves_def intro: R_trans)

lemma evolves_quiet: "R (snd st) [] (snd st') \<Longrightarrow> pr_events (fst st') = pr_events (fst st) \<Longrightarrow> evolves st st'"
  by (auto simp: evolves_def)

lemma evolves_emit:
  assumes "event_maker mk"
  shows "post (emit_event mk st) (evolves st)"
proof -
  obtain result rt where st: "st = (result, rt)" by (cases st)
  have m: "post (mk (rt_clock rt) (rt_emitter rt)) (\<lambda>(x, em'). emits (rt_emitter rt) x em')"
    using assms by (simp add: event_maker_def)
  show ?thesis
  proof (cases "mk (rt_clock rt) (rt_emitter rt)")
    case (Inr p)
    obtain x em where p: "p = (x, em)" by (cases p)
    have "emits (rt_emitter rt) x em" using m Inr p by simp
    then show ?thesis
      using Inr p st by (simp add: emit_event_def throwing_def evolves_def push_event_def R_emit)
  qed (simp add: emit_event_def throwing_def st)
qed

text \<open>The state of a translation within a runtime.\<close>

definition tr_evolves :: "EngineRuntime \<Rightarrow> TranslationState \<Rightarrow> TranslationState \<Rightarrow> bool" where
  "tr_evolves rt tr tr' \<longleftrightarrow> (\<exists>es. pr_events (tr_result tr') = pr_events (tr_result tr) @ es \<and>
     R (after_translation tr rt) es (after_translation tr' rt))"

lemma tr_refl [simp]: "tr_evolves rt tr tr"
  by (simp add: tr_evolves_def R_refl)

lemma tr_trans: "tr_evolves rt tr tr1 \<Longrightarrow> tr_evolves rt tr1 tr2 \<Longrightarrow> tr_evolves rt tr tr2"
  by (auto simp: tr_evolves_def intro: R_trans)

lemma tr_step: "post m (tr_evolves rt tr1) \<Longrightarrow> tr_evolves rt tr tr1 \<Longrightarrow> post m (tr_evolves rt tr)"
  by (auto elim!: post_mono intro: tr_trans)

lemma tr_emit:
  assumes "\<And>context em. post (mk context em) (\<lambda>(x, em'). emits em x em')"
  shows "post (emit mk tr) (tr_evolves rt tr)"
proof (cases "mk (tr_context tr) (tr_emitter tr)")
  case (Inr p)
  obtain x em where p: "p = (x, em)" by (cases p)
  have "emits (rt_emitter (after_translation tr rt)) x em"
    using assms [of "tr_context tr" "tr_emitter tr"] Inr p by (simp add: after_translation_def)
  from R_emit [OF this] show ?thesis
    using Inr p by (simp add: emit_def tr_evolves_def push_event_def after_translation_def)
qed (simp add: emit_def)

lemma tr_reply [simp]: "tr_evolves rt tr (reply x tr')\<longleftrightarrow> tr_evolves rt tr tr'"
  by (simp add: tr_evolves_def reply_def push_reply_def after_translation_def)

lemma tr_if: "(b \<Longrightarrow> post m (tr_evolves rt tr)) \<Longrightarrow> post (if b then m else Inr tr) (tr_evolves rt tr)"
  by simp

lemma tr_bind:
  assumes "post m (tr_evolves rt tr)" "\<And>tr1. post (f tr1) (tr_evolves rt tr1)"
  shows "post (ebind m f) (tr_evolves rt tr)"
  unfolding post_ebind using assms(1) by (rule post_mono) (rule tr_step [OF assms(2)])

lemma tr_fill:
  assumes "key = PositionRiskKey (ps_user_id pos) (ps_market_id pos)" "risk_matches pos risk"
  shows "tr_evolves rt tr (tr\<lparr>tr_context := c, tr_metadata_store := st,
    tr_positions := sm_assign key pos (tr_positions tr),
    tr_risk_states := sm_assign key risk (tr_risk_states tr)\<rparr>)"
proof -
  let ?rt = "(after_translation tr rt)\<lparr>rt_metadata_store := st\<rparr>"
  have "after_translation (tr\<lparr>tr_context := c, tr_metadata_store := st,
      tr_positions := sm_assign key pos (tr_positions tr),
      tr_risk_states := sm_assign key risk (tr_risk_states tr)\<rparr>) rt =
    ?rt\<lparr>rt_positions := sm_assign key pos (rt_positions ?rt),
        rt_risk_states := sm_assign key risk (rt_risk_states ?rt)\<rparr>"
    by (cases rt) (simp add: after_translation_def)
  then show ?thesis
    using R_trans1 [OF R_metadata R_fill [OF assms], of "after_translation tr rt" st] by (simp add: tr_evolves_def)
qed

lemma apply_fill_to_account_evolves:
  "post (apply_fill_to_account clock mps trade now oid tr) (tr_evolves rt tr)"
proof (cases "find_metadata oid (tr_context tr) (tr_metadata_store tr)")
  case (Some md0)
  obtain margin md where md: "allocate_fill_margin md0 (i64_of_u64 (tx_quantity trade)) (tx_price trade) = (margin, md)"
    by (cases "allocate_fill_margin md0 (i64_of_u64 (tx_quantity trade)) (tx_price trade)")
  obtain ctx st where w: "write_metadata oid md (tr_context tr) (tr_metadata_store tr) = (ctx, st)"
    by (cases "write_metadata oid md (tr_context tr) (tr_metadata_store tr)")
  let ?key = "PositionRiskKey (om_user_id md) (om_market_id md)"
  let ?previous = "case sm_find (tr_positions tr) ?key of Some p \<Rightarrow> p | None \<Rightarrow> empty_position"
  let ?pos = "apply_position_fill ?previous md (signed_fill_quantity md0 (i64_of_u64 (tx_quantity trade)))
    (tx_price trade) margin now"
  let ?risk = "risk_from_position ?pos (mark_price_for (om_market_id md) (tx_price trade) mps) now"
  have key: "?key = PositionRiskKey (ps_user_id ?pos) (ps_market_id ?pos)"
    by (simp add: apply_position_fill_def Let_def split: prod.split)
  note step = tr_fill [OF key, where risk = ?risk and rt = rt and tr = tr and c = ctx and st = st, OF risk_matches_makers(1)]
  show ?thesis
    unfolding apply_fill_to_account_def Let_def Some option.case md w prod.case
    by (rule tr_step [OF _ step]) (intro tr_bind tr_if tr_emit translator_makers)
qed (simp add: apply_fill_to_account_def)

lemma append_position_and_risk_updates_evolves:
  "post (append_position_and_risk_updates clock mps trade tr) (tr_evolves rt tr)"
proof -
  obtain now em where c: "read_clock clock (tr_emitter tr) = (now, em)"
    by (cases "read_clock clock (tr_emitter tr)")
  have "em_sequences em = em_sequences (tr_emitter tr)"
    using read_clock_sequences [of clock "tr_emitter tr"] c by simp
  then have "tr_evolves rt tr (tr\<lparr>tr_emitter := em\<rparr>)"
    using R_clock [of em "after_translation tr rt"] by (simp add: tr_evolves_def after_translation_def)
  then show ?thesis
    unfolding append_position_and_risk_updates_def c Let_def prod.case
    by (rule tr_step [OF tr_bind, OF apply_fill_to_account_evolves apply_fill_to_account_evolves])
qed

lemma append_order_accepted_evolves:
  "post (append_order_accepted clock oid user sy side p q filled tr) (tr_evolves rt tr)"
  unfolding append_order_accepted_def Let_def
  by (auto intro!: tr_step [OF tr_emit] make_event_emits)

lemma append_order_rejected_evolves:
  "post (append_order_rejected clock oid reason tr) (tr_evolves rt tr)"
  unfolding append_order_rejected_def Let_def
  by (auto intro!: tr_step [OF tr_emit] make_event_emits split: option.split)

lemma append_trade_executed_evolves:
  "post (append_trade_executed clock mps trade tr) (tr_evolves rt tr)"
  unfolding append_trade_executed_def Let_def
  by (intro tr_bind tr_if tr_emit make_event_emits trade_payload_fields translator_makers
      append_position_and_risk_updates_evolves)

lemma append_order_cancelled_evolves:
  "post (append_order_cancelled clock oid released tr) (tr_evolves rt tr)"
  unfolding append_order_cancelled_def Let_def
  by (auto intro!: tr_step [OF tr_emit] make_event_emits split: option.split)

lemma append_orderbook_delta_evolves:
  "post (append_orderbook_delta clock sy side p q tr) (tr_evolves rt tr)"
  unfolding append_orderbook_delta_def by (intro tr_emit make_event_emits) simp

lemma translate_event_evolves: "post (translate_event clock mps filled ev tr) (tr_evolves rt tr)"
  by (cases ev) (simp_all add: append_order_accepted_evolves append_order_rejected_evolves
      append_trade_executed_evolves append_order_cancelled_evolves append_orderbook_delta_evolves)

lemma translate_events_evolves: "post (translate_events clock mps filled evs tr) (tr_evolves rt tr)"
  by (induction evs arbitrary: tr) (auto simp del: post_ebind intro: tr_bind translate_event_evolves)

lemma translate_in_evolves:
  "post (translate_in evs context rt) (\<lambda>(result, context', rt'). R rt (pr_events result) rt')"
proof -
  let ?tr = "translation_state context rt"
  have [simp]: "after_translation ?tr rt = rt" "pr_events (tr_result ?tr) = []" "?tr\<lparr>tr_result := empty_result\<rparr> = ?tr"
    by (simp_all add: after_translation_def translation_state_def empty_result_def)
  have "post (translate (rt_clock rt) (rt_mark_prices rt) evs ?tr) (tr_evolves rt ?tr)"
    unfolding translate_def by (simp add: translate_events_evolves)
  then show ?thesis
    by (auto simp: translate_in_def post_def tr_evolves_def split: sum.splits)
qed

text \<open>Deleveraging and liquidation.\<close>

lemma evolves_append:
  assumes "evolves st (result, rt)" "R rt (pr_events translated) rt'"
  shows "evolves st (append_process_result result translated, rt')"
  using assms by (auto simp: evolves_def append_process_result_def intro: R_trans)

lemma evolves_step: "evolves st (result, rt) \<Longrightarrow> R rt [] rt' \<Longrightarrow> evolves st (result, rt')"
  by (auto simp: evolves_def intro: R_trans2)

lemma evolves_replies: "evolves st (result, rt) \<Longrightarrow> pr_events result' = pr_events result \<Longrightarrow> evolves st (result', rt)"
  by (simp add: evolves_def)

lemma evolves_then: "evolves st st1 \<Longrightarrow> post m (evolves st1) \<Longrightarrow> post m (evolves st)"
  by (auto elim!: post_mono intro: evolves_trans)

lemma record_adl_metadata_R: "post (record_adl_metadata md rt) (R rt [])"
  by (simp add: record_adl_metadata_def Let_def split_beta R_metadata)

lemma adl_fill_evolves:
  assumes "evolves st0 (result, rt)"
  shows "post (adl_fill inp price candidate quantity rank (result, ctx, rt))
    (\<lambda>(result', ctx', rt'). evolves st0 (result', rt'))"
  unfolding adl_fill_def prod.case Let_def
  by (intro post_any post_bind [OF record_adl_metadata_R] post_bind [OF translate_in_evolves])
    (auto intro: evolves_step [OF evolves_append [OF evolves_step [OF assms]] R_metadata])

lemma adl_fills_evolves:
  "evolves st0 (fst st, snd (snd st)) \<Longrightarrow> post (adl_fills inp price cs remaining executed rank st)
     (\<lambda>(executed', result', ctx', rt'). evolves st0 (result', rt'))"
proof (induction cs arbitrary: remaining executed rank st)
  case (Cons c cs)
  obtain result ctx rt where st: "st = (result, ctx, rt)" by (cases st)
  show ?case
    using Cons.prems
    by (auto simp: st Let_def simp del: post_ebind intro!: Cons.IH post_bind [OF adl_fill_evolves])
qed (simp add: split_beta)

lemma append_adl_fills_evolves:
  "post (append_adl_fills inp remaining price (result, ctx, rt))
     (\<lambda>(executed', result', ctx', rt'). evolves (result, rt) (result', rt'))"
proof -
  have adl: "post (adl_fills inp price cs remaining 0 1 (result, ctx, rt))
     (\<lambda>(executed', result', ctx', rt'). evolves (result, rt) (result', rt'))" for cs
    by (rule adl_fills_evolves) simp
  show ?thesis
    by (auto simp: append_adl_fills_def Let_def split: option.split intro!: post_mono [OF adl])
qed

lemma liquidation_fills_evolve:
  assumes "evolves st0 (result, rt)"
  shows "post (if crossing
      then ebind (translate_in core_events ctx rt) (\<lambda>(translated, context, rt).
        Inr (append_process_result result translated, context,
             rt\<lparr>rt_metadata_store := cleanup_completed_order_metadata core_events (rt_metadata_store rt)\<rparr>))
      else Inr (if emit_replies then push_reply (make_liquidation_accepted_reply r inp md) result else result, ctx, rt))
    (\<lambda>(result', ctx', rt'). evolves st0 (result', rt'))"
  using assms
  by (auto simp: push_reply_def simp del: post_ebind intro!: post_bind [OF translate_in_evolves]
      evolves_step [OF evolves_append [OF assms] R_metadata] intro: evolves_replies)

lemma perform_liquidation_evolves:
  "post (perform_liquidation r inp emit_replies crossing price pos risk md ctx core_events rt)
     (evolves (empty_result, rt))"
proof -
  have adl: "post (if remaining > 0
        then ebind (append_adl_fills inp remaining price (result, ctx, rt))
               (\<lambda>(executed, result, context, rt). Inr (result, rt))
        else Inr (result, rt)) (evolves st0)" if "evolves st0 (result, rt)" for remaining result ctx rt st0
    using append_adl_fills_evolves [of inp remaining price result ctx rt] evolves_trans [OF that] that
    by (auto simp: split_beta elim!: post_mono)
  have quiet: "evolves st0 (if emit_replies then result else result\<lparr>pr_replies := []\<rparr>, rt)"
    if "evolves st0 (result, rt)" for result rt st0
    using that by (auto intro: evolves_replies)
  show ?thesis
    unfolding perform_liquidation_def Let_def
    apply (rule post_bind [OF evolves_emit], rule event_makers, clarify)
    apply (rule post_bind [OF liquidation_fills_evolve], assumption, clarify)
    apply (rule post_bind [OF adl], assumption, clarify)
    apply (rule post_bind [OF evolves_then [OF _ evolves_emit]], assumption, rule event_makers, clarify)
    apply (simp add: quiet)
    done
qed

lemma execute_liquidation_evolves:
  "post (execute_liquidation r inp emit_replies rt) (evolves (empty_result, rt))"
proof -
  have reject: "evolves (empty_result, rt) (reject_liquidation r inp emit_replies reason, rt')"
    if "R rt [] rt'" for reason rt'
    using that by (simp add: evolves_def reject_liquidation_def push_reply_def)
  have perform: "post (perform_liquidation r inp emit_replies crossing price pos risk md ctx core_events
      (rt\<lparr>rt_core := core\<rparr>)) (evolves (empty_result, rt))"
    for crossing price pos risk md ctx core_events core
    by (rule evolves_then [OF _ perform_liquidation_evolves]) (simp add: evolves_def R_core)
  show ?thesis
    unfolding execute_liquidation_def Let_def
    by (auto simp: reject R_refl R_core simp del: post_ebind intro!: post_any perform perform_liquidation_evolves
        split: option.split)
qed

text \<open>Automatic liquidations.\<close>

lemma attempt_candidates_evolves:
  "post (attempt_candidates source input_id cs sw rt)
     (\<lambda>(rescan, sw', rt'). evolves (sw_result sw, rt) (sw_result sw', rt'))"
proof (induction cs arbitrary: sw rt)
  case (Cons c cs)
  show ?case
  proof (cases "sw_attempts sw \<ge> kMaxAutomaticLiquidationAttemptsPerTrigger")
    case False
    show ?thesis
      unfolding attempt_candidates.simps Let_def if_not_P [OF False]
    proof (rule post_bind [OF execute_liquidation_evolves], clarify)
      fix execution rt1
      let ?sw = "sw\<lparr>sw_attempted := insert (lc_key c) (sw_attempted sw), sw_attempts := sw_attempts sw + 1\<rparr>"
      let ?sw1 = "?sw\<lparr>sw_result := append_process_result (sw_result ?sw) execution\<rparr>"
      assume "evolves (empty_result, rt) (execution, rt1)"
      then have e: "evolves (sw_result sw, rt) (sw_result ?sw1, rt1)"
        by (auto simp: evolves_def append_process_result_def empty_result_def)
      show "post (if pr_events execution \<noteq> [] then Inr (True, ?sw1, rt1)
          else attempt_candidates source input_id cs ?sw1 rt1)
        (\<lambda>(rescan, sw', rt'). evolves (sw_result sw, rt) (sw_result sw', rt'))"
        using Cons.IH [of ?sw1 rt1] e evolves_trans [OF e] by (auto elim!: post_mono)
    qed
  qed simp
qed simp

lemma liquidation_sweep_evolves:
  "post (liquidation_sweep market_id source input_id sw rt) (\<lambda>(sw', rt'). evolves (sw_result sw, rt) (sw_result sw', rt'))"
proof (induction market_id source input_id sw rt rule: liquidation_sweep.induct)
  case (1 market_id source input_id sw rt)
  let ?cs = "automatic_liquidation_candidates_for market_id (rt_positions rt) (rt_risk_states rt) (sw_attempted sw)"
  show ?case
  proof (cases "sw_attempts sw < kMaxAutomaticLiquidationAttemptsPerTrigger \<and> ?cs \<noteq> []")
    case True
    have "post (ebind (attempt_candidates source input_id ?cs sw rt) (\<lambda>(rescan, sw, rt).
        if rescan then liquidation_sweep market_id source input_id sw rt else Inr (sw, rt)))
      (\<lambda>(sw', rt'). evolves (sw_result sw, rt) (sw_result sw', rt'))"
    proof (cases "attempt_candidates source input_id ?cs sw rt")
      case (Inr p)
      obtain rescan sw1 rt1 where p: "p = (rescan, sw1, rt1)" by (cases p)
      have e: "evolves (sw_result sw, rt) (sw_result sw1, rt1)"
        using attempt_candidates_evolves [of source input_id ?cs sw rt] Inr p by simp
      show ?thesis
        using True e evolves_trans [OF e] Inr p by (auto intro!: post_mono [OF "1.IH" [of ?cs p rescan]])
    qed simp
    then show ?thesis
      using True by (subst liquidation_sweep.simps) (simp add: Let_def)
  qed (subst liquidation_sweep.simps, auto simp: Let_def)
qed

lemma evaluate_market_evolves:
  "post (evaluate_automatic_liquidations_for_market market_id source input_id rt) (evolves (empty_result, rt))"
  using liquidation_sweep_evolves [of market_id source input_id empty_sweep rt]
  by (auto simp: evaluate_automatic_liquidations_for_market_def empty_sweep_def split_beta elim!: post_mono)

text \<open>The handlers of the inputs.\<close>

lemma liquidate_after_evolves: "post (liquidate_after wanted market_id r input_id st) (evolves st)"
proof -
  obtain result rt where st: "st = (result, rt)" by (cases st)
  have e: "evolves (result, rt) (append_process_result result execution, rt1)"
    if "evolves (empty_result, rt) (execution, rt1)" for execution :: EngineProcessResult and rt1
    using that by (auto simp: evolves_def append_process_result_def empty_result_def)
  show ?thesis
    unfolding liquidate_after_def st
    by (auto simp del: post_ebind intro!: post_bind [OF evaluate_market_evolves] e)
qed

lemma reduce_only_rejected_evolves: "post (reduce_only_rejected_result r inp reason rt) (evolves (empty_result, rt))"
proof -
  let ?result = "push_reply (make_order_rejected_reply r inp reason) empty_result"
  have "evolves (empty_result, rt) (?result, rt)" by (simp add: evolves_def push_reply_def R_refl)
  then show ?thesis
    unfolding reduce_only_rejected_result_def Let_def
    by (auto intro: evolves_then evolves_emit event_makers)
qed

lemma record_accepted_metadata_R: "post (record_accepted_metadata evs ctx rt) (R rt [])"
  by (simp add: record_accepted_metadata_def Let_def split_beta R_metadata R_refl split: option.split)

lemma expire_reduce_only_evolves: "post (expire_reduce_only r inp evs ctx st) (evolves st)"
proof -
  have e: "post (if b then emit_event (make_reduce_only_expired_event r md q) st else Inr st) (evolves st)" for b md q
    by (simp add: evolves_emit event_makers)
  have "post (ebind (if b then emit_event (make_reduce_only_expired_event r md q) st else Inr st)
    (\<lambda>(result, rt). Inr (result, rt\<lparr>rt_metadata_store := f rt\<rparr>))) (evolves st)" for b md q f
    by (rule post_bind [OF e]) (auto intro: evolves_step [OF _ R_metadata])
  then show ?thesis
    unfolding expire_reduce_only_def Let_def by (simp del: post_ebind split: option.split split del: if_split) simp
qed

lemma place_accepted_input_evolves: "post (place_accepted_input r inp capped rt) (evolves (empty_result, rt))"
proof -
  have place: "post (ebind (translate_in core_events ctx (rt\<lparr>rt_core := core\<rparr>)) (\<lambda>(result, context, rt).
      ebind (record_accepted_metadata core_events context rt) (\<lambda>rt.
      ebind (expire_reduce_only r inp core_events context (result, rt\<lparr>rt_metadata_store :=
            cleanup_completed_order_metadata core_events (rt_metadata_store rt)\<rparr>))
        (liquidate_after wanted (pi_market_id inp) r (pi_input_id inp))))) (evolves (empty_result, rt))"
    for core_events ctx core wanted
  proof (rule post_bind [OF translate_in_evolves], clarify)
    fix result :: EngineProcessResult and ctx' rt1
    assume "R (rt\<lparr>rt_core := core\<rparr>) (pr_events result) rt1"
    then have e: "evolves (empty_result, rt) (result, rt1)"
      using R_trans1 [OF R_core] by (simp add: evolves_def empty_result_def)
    show "post (ebind (record_accepted_metadata core_events ctx' rt1) (\<lambda>rt.
      ebind (expire_reduce_only r inp core_events ctx' (result, rt\<lparr>rt_metadata_store :=
            cleanup_completed_order_metadata core_events (rt_metadata_store rt)\<rparr>))
        (liquidate_after wanted (pi_market_id inp) r (pi_input_id inp)))) (evolves (empty_result, rt))"
      apply (rule post_bind [OF record_accepted_metadata_R])
      apply (rule post_bind [OF evolves_then [OF _ expire_reduce_only_evolves]])
       apply (rule evolves_step [OF evolves_step [OF e] R_metadata], assumption)
      apply (rule evolves_then [OF _ liquidate_after_evolves], assumption)
      done
  qed
  show ?thesis
    unfolding place_accepted_input_def Let_def
    by (auto simp del: post_ebind intro!: post_any place split: option.split)
qed

text \<open>What a handler returns when the input is new: the mode applied, the input marked.\<close>

definition marked :: "EngineRuntime \<Rightarrow> ProcessingMode \<Rightarrow> (EngineRuntime \<Rightarrow> EngineRuntime) \<Rightarrow>
    EngineProcessResult \<times> EngineRuntime \<Rightarrow> bool" where
  "marked rt mode mark st' \<longleftrightarrow> (\<exists>result rt1. evolves (empty_result, rt) (result, rt1) \<and>
     st' = (apply_processing_mode mode result, mark rt1))"

lemma marked_bind:
  assumes "post m (evolves (empty_result, rt))"
  shows "post (ebind m (\<lambda>(result, rt). in_mode mode (result, mark rt))) (marked rt mode mark)"
  by (rule post_bind [OF assms]) (simp add: marked_def in_mode_def split_beta, metis prod.collapse)

lemma marked_now: "pr_events result = [] \<Longrightarrow> pr_replies result = [] \<Longrightarrow> marked rt mode mark (result, mark rt)"
  by (auto simp: marked_def evolves_def empty_result_def apply_processing_mode_def intro!: exI [of _ result] exI [of _ rt] R_refl)

text \<open>A duplicate is answered as such; every other input evolves the state and is marked.\<close>

definition handled :: "ParsedEngineInput \<Rightarrow> InboundEngineRecord \<Rightarrow> ProcessingMode \<Rightarrow> EngineRuntime \<Rightarrow>
    EngineProcessResult \<times> EngineRuntime \<Rightarrow> bool" where
  "handled parsed r mode rt st' = (case duplicate_of parsed rt of
      Some d \<Rightarrow> st' = (d, rt) | None \<Rightarrow> marked rt mode (mark_input parsed r) st')"

lemma process_place_order_handled:
  "post (process_place_order r mode inp rt) (handled (InPlaceOrder inp) r mode rt)"
proof (cases "duplicate_of (InPlaceOrder inp) rt")
  case None
  have m: "post (if b then reduce_only_rejected_result r inp' reason rt else place_accepted_input r inp' q rt)
    (evolves (empty_result, rt))" for b inp' reason q
    by (simp add: reduce_only_rejected_evolves place_accepted_input_evolves)
  show ?thesis
    using None marked_bind [OF m] unfolding process_place_order_def Let_def handled_def by simp
qed (simp add: process_place_order_def handled_def)

lemma process_cancel_order_handled:
  "post (process_cancel_order r mode inp rt) (handled (InCancelOrder inp) r mode rt)"
proof (cases "duplicate_of (InCancelOrder inp) rt")
  case None
  have e: "evolves (empty_result, rt) (result, rt1\<lparr>rt_metadata_store := st\<rparr>)"
    if "R (rt\<lparr>rt_core := core\<rparr>) (pr_events result) rt1" for core result rt1 st
    using R_trans2 [OF R_trans1 [OF R_core that] R_metadata] by (simp add: evolves_def empty_result_def)
  show ?thesis
    using None unfolding process_cancel_order_def Let_def handled_def
    by (auto simp: in_mode_def marked_def simp del: post_ebind
        intro!: post_any post_bind [OF translate_in_evolves]) (blast dest: e)
qed (simp add: process_cancel_order_def handled_def)

lemma process_liquidate_position_handled:
  "post (process_liquidate_position r mode inp rt) (handled (InLiquidatePosition inp) r mode rt)"
  using marked_bind [OF execute_liquidation_evolves]
  unfolding process_liquidate_position_def Let_def handled_def by (simp split: option.split)

text \<open>Prices and funding.\<close>

lemma mark_price_risks_R:
  "set ps \<subseteq> set (rt_positions rt) \<Longrightarrow>
   R rt [] (rt\<lparr>rt_risk_states := snd (mark_price_risks market_id price now ps (rt_risk_states rt))\<rparr>)"
proof (induction ps arbitrary: rt)
  case (Cons e ps)
  obtain key pos where e: "e = (key, pos)" by (cases e)
  show ?case
  proof (cases "ps_market_id pos \<noteq> market_id \<or> ps_signed_quantity pos = 0")
    case True
    then show ?thesis using Cons by (simp add: e)
  next
    case False
    let ?rt = "rt\<lparr>rt_risk_states := sm_assign key (runtime_risk_from_position pos price now
      (sm_find (rt_risk_states rt) key)) (rt_risk_states rt)\<rparr>"
    have "R rt [] ?rt" using Cons.prems by (intro R_risk [of key pos]) (simp_all add: e)
    from R_trans1 [OF this Cons.IH [of ?rt]] show ?thesis
      using False Cons.prems by (simp add: e Let_def split_beta)
  qed
qed (simp add: R_refl)

lemma emit_risk_states_evolves: "post (emit_risk_states r input_id keys st) (evolves st)"
proof (induction keys arbitrary: st)
  case (Cons key keys)
  show ?case
    unfolding emit_risk_states.simps
    by (rule post_any, rule post_bind [OF evolves_emit], rule event_makers, erule evolves_then [OF _ Cons.IH])
qed simp

lemma append_mark_price_risk_updates_evolves:
  "post (append_mark_price_risk_updates r input_id market_id price now (result, rt)) (evolves (result, rt))"
proof -
  let ?risks = "mark_price_risks market_id price now (rt_positions rt) (rt_risk_states rt)"
  have "evolves (result, rt) (result, rt\<lparr>rt_risk_states := snd ?risks\<rparr>)"
    using mark_price_risks_R [of "rt_positions rt" rt market_id price now] by (simp add: evolves_def)
  then show ?thesis
    by (simp add: append_mark_price_risk_updates_def split_beta Let_def evolves_then [OF _ emit_risk_states_evolves])
qed

lemma process_mark_price_updated_handled:
  "post (process_mark_price_updated r mode inp rt) (handled (InMarkPriceUpdated inp) r mode rt)"
proof (cases "duplicate_of (InMarkPriceUpdated inp) rt")
  case None
  have m: "post (ebind (emit_event (make_mark_price_updated_event r inp') (empty_result, rt)) (\<lambda>(result, rt).
      ebind (append_mark_price_risk_updates r i m p t (result, rt\<lparr>rt_mark_prices := f rt\<rparr>))
        (liquidate_after True m r i))) (evolves (empty_result, rt))" for inp' i m p t f
    by (rule post_bind [OF evolves_emit], rule input_event_makers, clarify,
        rule post_bind [OF evolves_then [OF evolves_step append_mark_price_risk_updates_evolves]], assumption,
        rule R_mark_prices, rule evolves_then [OF _ liquidate_after_evolves], assumption)
  have assoc: "ebind (ebind a f) g = ebind a (\<lambda>x. ebind (f x) g)" for a :: "'e + 'x" and f :: "'x \<Rightarrow> 'e + 'y" and g :: "'y \<Rightarrow> 'e + 'z"
    by (cases a) simp_all
  show ?thesis
    using None marked_bind [OF m] unfolding process_mark_price_updated_def Let_def handled_def
    by (simp add: assoc split_beta)
qed (simp add: process_mark_price_updated_def handled_def)

lemma process_funding_rate_updated_handled:
  "post (process_funding_rate_updated r mode inp rt) (handled (InFundingRateUpdated inp) r mode rt)"
proof (cases "duplicate_of (InFundingRateUpdated inp) rt")
  case None
  have e: "marked rt mode mark (apply_processing_mode mode result, mark (rt1\<lparr>rt_funding_rates := rates\<rparr>))"
    if "evolves (empty_result, rt) (result, rt1)" for mark :: "EngineRuntime \<Rightarrow> EngineRuntime" and result rt1 rates
    using evolves_step [OF that R_funding_rates] by (auto simp: marked_def)
  show ?thesis
    using None unfolding process_funding_rate_updated_def Let_def handled_def
    by (auto simp: in_mode_def simp del: post_ebind intro!: post_bind [OF evolves_emit] input_event_makers e)
qed (simp add: process_funding_rate_updated_def handled_def)

lemma funding_payments_R:
  "set ps \<subseteq> set (rt_positions rt) \<Longrightarrow>
   funding_payments market_id funding mps now ps (rt_risk_states rt) = Some (payments, keys, risks) \<Longrightarrow>
   R rt [] (rt\<lparr>rt_risk_states := risks\<rparr>)"
proof (induction ps arbitrary: rt payments keys)
  case Nil
  then have "rt\<lparr>rt_risk_states := risks\<rparr> = rt" by (cases rt) auto
  then show ?case by (simp add: R_refl)
next
  case (Cons e ps)
  obtain key pos where e: "e = (key, pos)" by (cases e)
  let ?price = "settlement_mark_price_for pos mps"
  let ?amount = "funding_amount (ps_signed_quantity pos) ?price funding"
  show ?case
  proof (cases "ps_market_id pos \<noteq> market_id \<or> ps_signed_quantity pos = 0 \<or> fr_rate_scale funding \<noteq> 0 \<and> ?amount = 0")
    case True
    then show ?thesis using Cons by (auto simp: e split: if_splits)
  next
    case False
    let ?rt = "rt\<lparr>rt_risk_states := sm_assign key (funding_risk pos ?price now
      (sm_find (rt_risk_states rt) key) ?amount) (rt_risk_states rt)\<rparr>"
    have "R rt [] ?rt" using Cons.prems by (intro R_risk [of key pos]) (simp_all add: e)
    moreover obtain payments' keys' where
      "funding_payments market_id funding mps now ps (rt_risk_states ?rt) = Some (payments', keys', risks)"
      using False Cons.prems(2) by (auto simp: e Let_def split: if_splits)
    ultimately show ?thesis
      using R_trans1 [OF _ Cons.IH [of ?rt payments' keys']] Cons.prems(1) by simp
  qed
qed

lemma settle_funding_evolves: "post (settle_funding r inp funding rt) (evolves (empty_result, rt))"
proof (cases "funding_payments (ti_market_id inp) funding (rt_mark_prices rt) (ti_settle_at_ms inp)
    (rt_positions rt) (rt_risk_states rt)")
  case (Some p)
  obtain payments keys risks where p: "p = (payments, keys, risks)" by (cases p)
  have e: "evolves (empty_result, rt) (empty_result, rt\<lparr>rt_risk_states := risks\<rparr>)"
    using funding_payments_R [of "rt_positions rt" rt] Some p by (simp add: evolves_def)
  show ?thesis
    unfolding settle_funding_def Some p defined_def option.case ebind_simps prod.case
    by (rule post_bind [OF evolves_then [OF e evolves_emit]], rule event_makers,
        rule post_bind [OF evolves_then [OF _ emit_risk_states_evolves]], assumption, clarify,
        rule evolves_then [OF evolves_step liquidate_after_evolves], assumption, rule R_settled)
qed (simp add: settle_funding_def defined_def)

lemma process_funding_settlement_tick_handled:
  "post (process_funding_settlement_tick r mode inp rt) (handled (InFundingSettlementTick inp) r mode rt)"
proof (cases "duplicate_of (InFundingSettlementTick inp) rt")
  case None
  note m = marked_bind [OF settle_funding_evolves]
  show ?thesis
    using None unfolding process_funding_settlement_tick_def Let_def handled_def
    by (auto simp: empty_result_def rejected_no_output_def simp del: post_ebind intro!: m marked_now
        split: option.split)
qed (simp add: process_funding_settlement_tick_def handled_def)

theorem runtime_process_handled:
  "post (runtime_process r mode rt)
     (\<lambda>st'. \<exists>parsed. parse_engine_input (ir_raw_json r) = Inr parsed \<and> handled parsed r mode rt st')"
proof (cases "parse_engine_input (ir_raw_json r)")
  case (Inr parsed)
  then show ?thesis
    by (cases parsed) (simp_all add: runtime_process_def throwing_def process_place_order_handled
        process_cancel_order_handled process_liquidate_position_handled process_mark_price_updated_handled
        process_funding_rate_updated_handled process_funding_settlement_tick_handled)
qed (simp add: runtime_process_def throwing_def)

end

end
