(* ===== verification/RuntimeInvariants.thy ===== *)
theory RuntimeInvariants
  imports RuntimeSteps
begin

text \<open>
  The relations the operations of the runtime keep, as interpretations of the interface of
  \<open>RuntimeSteps\<close>: what is never touched, settled funding intervals, public sequence numbers, and
  risk states that match their positions.
\<close>

section \<open>What no operation touches before it marks its input\<close>

definition keeps_requests :: "EngineRuntime \<Rightarrow> EngineOutputRecord list \<Rightarrow> EngineRuntime \<Rightarrow> bool" where
  "keeps_requests rt es rt' \<longleftrightarrow> rt_processed_input_ids rt' = rt_processed_input_ids rt \<and>
     rt_processed_idempotency_keys rt' = rt_processed_idempotency_keys rt \<and>
     rt_config rt' = rt_config rt \<and> rt_clock rt' = rt_clock rt"

interpretation requests: runtime_evolution keeps_requests
  by unfold_locales (simp_all add: keeps_requests_def)

section \<open>Settled funding intervals\<close>

definition keeps_settled :: "EngineRuntime \<Rightarrow> EngineOutputRecord list \<Rightarrow> EngineRuntime \<Rightarrow> bool" where
  "keeps_settled rt es rt' \<longleftrightarrow> rt_settled_funding_intervals rt \<subseteq> rt_settled_funding_intervals rt'"

interpretation settled: runtime_evolution keeps_settled
  by unfold_locales (auto simp: keeps_settled_def)

section \<open>Public sequence numbers\<close>

fun issued :: "MarketSequenceGenerator \<Rightarrow> EngineOutputRecord list \<Rightarrow> MarketSequenceGenerator \<Rightarrow> bool" where
  "issued g [] g' \<longleftrightarrow> g' = g"
| "issued g (x # xs) g' \<longleftrightarrow> (\<exists>m s g1. market_next m g = Inr (s, g1) \<and> market_event m s x \<and> issued g1 xs g')"

lemma issued_append: "issued g xs g1 \<Longrightarrow> issued g1 ys g2 \<Longrightarrow> issued g (xs @ ys) g2"
  by (induction xs arbitrary: g) auto

definition issues :: "EngineRuntime \<Rightarrow> EngineOutputRecord list \<Rightarrow> EngineRuntime \<Rightarrow> bool" where
  "issues rt es rt' \<longleftrightarrow> issued (em_sequences (rt_emitter rt)) es (em_sequences (rt_emitter rt'))"

interpretation sequences: runtime_evolution issues
  by unfold_locales (auto simp: issues_def emits_def intro: issued_append)

lemma nat_digits_no_minus: "nat_digits n \<noteq> CHR ''-'' # t"
proof
  assume "nat_digits n = CHR ''-'' # t"
  then have "list_all is_digit (CHR ''-'' # t)" by (metis nat_digits_all)
  then show False by simp
qed

lemma to_string_inj:
  assumes "to_string a = to_string b"
  shows "a = b"
proof -
  have "(a < 0) = (b < 0)"
    using assms nat_digits_no_minus by (metis to_string_def)
  then have "nat_digits (nat \<bar>a\<bar>) = nat_digits (nat \<bar>b\<bar>)"
    using assms by (cases "a < 0") (simp_all add: to_string_def)
  then have "nat \<bar>a\<bar> = nat \<bar>b\<bar>" by (metis nat_digits_value)
  then show ?thesis using \<open>(a < 0) = (b < 0)\<close> by (cases "a < 0") simp_all
qed

text \<open>The sequence text an event carries.\<close>

definition event_sequence_text :: "EngineOutputRecord \<Rightarrow> string option" where
  "event_sequence_text x = (case um_find (eo_payload x) ''engine_sequence'' of
      Some (PString t) \<Rightarrow> Some t | Some (PNumber t) \<Rightarrow> Some t | _ \<Rightarrow> None)"

lemma market_event_text: "market_event m s x \<Longrightarrow> event_sequence_text x = Some (to_string (uint s))"
  by (auto simp: market_event_def event_sequence_text_def text_value_def number_value_def)

lemma market_next_counts:
  assumes "market_next m g = Inr (s, g1)"
  shows "market_peek m g = Inr s" "market_peek m g1 = Inr (s + 1)"
    "m' \<noteq> m \<Longrightarrow> market_peek m' g1 = market_peek m' g"
  using assms
  by (auto simp: market_next_def market_peek_def Let_def container_simps split: if_splits option.splits)

lemma issued_consecutive:
  assumes "issued g xs g'" "market_peek m g = Inr s"
  shows "map event_sequence_text (filter (\<lambda>x. eo_key x = to_string m) xs) =
      map (\<lambda>i. Some (to_string (uint (s + of_nat i)))) [0..<length (filter (\<lambda>x. eo_key x = to_string m) xs)] \<and>
    market_peek m g' = Inr (s + of_nat (length (filter (\<lambda>x. eo_key x = to_string m) xs)))"
  using assms
proof (induction xs arbitrary: g s)
  case (Cons x xs)
  obtain m1 s1 g1 where n: "market_next m1 g = Inr (s1, g1)" "market_event m1 s1 x" "issued g1 xs g'"
    using Cons.prems(1) by auto
  have key: "eo_key x = to_string m1" using n(2) by (simp add: market_event_def)
  show ?case
  proof (cases "m1 = m")
    case True
    then have "s1 = s" "market_peek m g1 = Inr (s + 1)"
      using market_next_counts [OF n(1)] Cons.prems(2) by auto
    then show ?thesis
      using Cons.IH [OF n(3)] market_event_text [OF n(2)] True key
      by (simp add: map_upt_Suc add.assoc del: upt_Suc)
  next
    case False
    then show ?thesis
      using Cons.IH [OF n(3), of s] market_next_counts(3) [OF n(1), of m] Cons.prems(2) key to_string_inj [of m1 m] by auto
  qed
qed simp

section \<open>Risk states match their positions\<close>

definition risks_ok :: "EngineRuntime \<Rightarrow> bool" where
  "risks_ok rt \<longleftrightarrow> sm_ok (rt_positions rt) \<and> sm_ok (rt_risk_states rt) \<and>
     map fst (rt_positions rt) = map fst (rt_risk_states rt) \<and>
     (\<forall>(key, pos) \<in> set (rt_positions rt). key = PositionRiskKey (ps_user_id pos) (ps_market_id pos)) \<and>
     (\<forall>key pos risk. sm_find (rt_positions rt) key = Some pos \<longrightarrow> sm_find (rt_risk_states rt) key = Some risk \<longrightarrow>
        risk_matches pos risk)"

definition keeps_risks :: "EngineRuntime \<Rightarrow> EngineOutputRecord list \<Rightarrow> EngineRuntime \<Rightarrow> bool" where
  "keeps_risks rt es rt' \<longleftrightarrow> (risks_ok rt \<longrightarrow> risks_ok rt')"

lemma sm_assign_same_keys:
  "map fst m = map fst m' \<Longrightarrow> map fst (sm_assign k v m) = map fst (sm_assign k v' m')"
proof (induction k v m arbitrary: m' rule: sm_assign.induct)
  case (2 k v e m)
  then show ?case by (cases m') auto
qed simp

lemma sm_assign_set: "(k', v') \<in> set (sm_assign k v m) \<Longrightarrow> (k', v') = (k, v) \<or> (k', v') \<in> set m"
  by (induction k v m rule: sm_assign.induct) (auto split: if_splits)

lemma sm_assign_present: "sm_ok m \<Longrightarrow> k \<in> set (map fst m) \<Longrightarrow> map fst (sm_assign k v m) = map fst m"
  by (induction k v m rule: sm_assign.induct) (auto simp: sm_ok_def)

lemma risks_okD:
  assumes "risks_ok rt"
  shows "sm_ok (rt_positions rt)" "sm_ok (rt_risk_states rt)"
    "map fst (rt_positions rt) = map fst (rt_risk_states rt)"
    "(key, pos) \<in> set (rt_positions rt) \<Longrightarrow> key = PositionRiskKey (ps_user_id pos) (ps_market_id pos)"
    "sm_find (rt_positions rt) key = Some pos \<Longrightarrow> sm_find (rt_risk_states rt) key = Some risk \<Longrightarrow> risk_matches pos risk"
  using assms unfolding risks_ok_def by blast+

lemma risks_ok_risk:
  assumes ok: "risks_ok rt" and key: "(key, pos) \<in> set (rt_positions rt)" and m: "risk_matches pos risk"
  shows "risks_ok (rt\<lparr>rt_risk_states := sm_assign key risk (rt_risk_states rt)\<rparr>)"
proof -
  have pos: "sm_find (rt_positions rt) key = Some pos"
    using key risks_okD(1) [OF ok] by (simp add: sm_ok_find_iff)
  have "key \<in> set (map fst (rt_risk_states rt))"
    using key unfolding risks_okD(3) [OF ok, symmetric] by force
  note keys = sm_assign_present [OF risks_okD(2) [OF ok] this, of risk]
  have matches: "risk_matches p r" if "sm_find (rt_positions rt) k = Some p"
    "sm_find (sm_assign key risk (rt_risk_states rt)) k = Some r" for k p r
    using that pos m risks_okD(5) [OF ok] by (simp add: sm_find_assign split: if_splits)
  show ?thesis
    unfolding risks_ok_def
  proof (intro conjI)
    show "\<forall>(key, pos) \<in> set (rt_positions (rt\<lparr>rt_risk_states := sm_assign key risk (rt_risk_states rt)\<rparr>)).
        key = PositionRiskKey (ps_user_id pos) (ps_market_id pos)"
      using risks_okD(4) [OF ok] by auto
  qed (use risks_okD(1-3) [OF ok] keys matches in \<open>simp_all add: sm_ok_assign\<close>)
qed

lemma risks_ok_fill:
  assumes ok: "risks_ok rt" and key: "key = PositionRiskKey (ps_user_id pos) (ps_market_id pos)"
    and m: "risk_matches pos risk"
  shows "risks_ok (rt\<lparr>rt_positions := sm_assign key pos (rt_positions rt),
    rt_risk_states := sm_assign key risk (rt_risk_states rt)\<rparr>)"
proof -
  have matches: "risk_matches p r" if "sm_find (sm_assign key pos (rt_positions rt)) k = Some p"
    "sm_find (sm_assign key risk (rt_risk_states rt)) k = Some r" for k p r
    using that m risks_okD(5) [OF ok] by (simp add: sm_find_assign split: if_splits)
  have keys: "\<forall>(k, p) \<in> set (sm_assign key pos (rt_positions rt)). k = PositionRiskKey (ps_user_id p) (ps_market_id p)"
    using key risks_okD(4) [OF ok] by (auto dest!: sm_assign_set)
  show ?thesis
    unfolding risks_ok_def
    using risks_okD(1-3) [OF ok] keys matches
    by (simp add: sm_ok_assign sm_assign_same_keys [OF risks_okD(3) [OF ok]])
qed

lemma risks_ok_cong:
  "rt_positions rt' = rt_positions rt \<Longrightarrow> rt_risk_states rt' = rt_risk_states rt \<Longrightarrow> risks_ok rt \<Longrightarrow> risks_ok rt'"
  unfolding risks_ok_def by metis

interpretation risks: runtime_evolution keeps_risks
proof
  fix key pos risk and rt :: EngineRuntime
  assume "key = PositionRiskKey (ps_user_id pos) (ps_market_id pos)" "risk_matches pos risk"
  then show "keeps_risks rt [] (rt\<lparr>rt_positions := sm_assign key pos (rt_positions rt),
      rt_risk_states := sm_assign key risk (rt_risk_states rt)\<rparr>)"
    by (simp add: keeps_risks_def risks_ok_fill)
next
  fix key pos risk and rt :: EngineRuntime
  assume "(key, pos) \<in> set (rt_positions rt)" "risk_matches pos risk"
  then show "keeps_risks rt [] (rt\<lparr>rt_risk_states := sm_assign key risk (rt_risk_states rt)\<rparr>)"
    unfolding keeps_risks_def by (blast intro: risks_ok_risk)
qed (auto simp: keeps_risks_def elim: risks_ok_cong [rotated 2])

end
