(* ===== verification/Demo.thy ===== *)
theory Demo
  imports RuntimeProcess
begin

text \<open>
  A small runtime and input records at which the properties of the runtime are evaluated.
\<close>

definition demo_position :: "AdapterUserId \<Rightarrow> int64 \<Rightarrow> int64 \<Rightarrow> IsolatedPositionState" where
  "demo_position user q margin = \<lparr>ps_user_id = user, ps_market_id = 1, ps_signed_quantity = q,
     ps_average_entry_price = 100, ps_margin_asset = ''USDC'', ps_isolated_margin = margin, ps_leverage = 2,
     ps_updated_at_ms = 0\<rparr>"

definition demo_mark :: MarkPriceState where
  "demo_mark = \<lparr>mp_market_id = 1, mp_mark_price = 110, mp_index_price = 110, mp_source_timestamp_ms = 0,
     mp_published_at_ms = 0, mp_valid_until_ms = 9, mp_source_sequence = 1, mp_source_status = ''ok''\<rparr>"

definition demo_funding :: FundingRateState where
  "demo_funding = \<lparr>fr_market_id = 1, fr_funding_interval_id = ''f'', fr_rate = 1, fr_rate_scale = 2,
     fr_interval_start_ms = 0, fr_interval_end_ms = 5, fr_source_timestamp_ms = 0\<rparr>"

text \<open>Users 7 (long) and 8 (short) hold 10 contracts bought at 100, of margins given.\<close>

definition demo_runtime :: "int64 \<Rightarrow> int64 \<Rightarrow> EngineRuntime" where
  "demo_runtime margin7 margin8 =
     (let ps = [(PositionRiskKey 7 1, demo_position 7 10 margin7), (PositionRiskKey 8 1, demo_position 8 (- 10) margin8)] in
      \<lparr>rt_core = make_engine_core, rt_metadata_store = [],
       rt_emitter = \<lparr>em_sequences = make_market_sequences 1, em_clock_reads = 0\<rparr>,
       rt_config = \<lparr>rc_symbols = [], rc_first_public_sequence = 1, rc_first_trade_id = 1, rc_clock = Some (\<lambda>_. 3)\<rparr>,
       rt_clock = Some (\<lambda>_. 3),
       rt_mark_prices = [(1, demo_mark)], rt_funding_rates = [(1, demo_funding)], rt_settled_funding_intervals = {},
       rt_positions = ps, rt_risk_states = map (\<lambda>(k, p). (k, risk_from_position p 110 0)) ps,
       rt_processed_input_ids = [], rt_processed_idempotency_keys = []\<rparr>)"

definition demo_tick_json :: string where
  "demo_tick_json = concat [''{'', json_string ''type'', '':'', json_string ''FundingSettlementTick'', '','',
     json_string ''payload'', '':{'', json_string ''input_id'', '':'', json_string ''i-1'', '','',
     json_string ''market_id'', '':1,'', json_string ''funding_interval_id'',
     '':'', json_string ''f'', '','', json_string ''settle_at_ms'', '':5}}'']"

definition demo_tick :: InboundEngineRecord where
  "demo_tick = \<lparr>ir_topic = EngineInputTopic, ir_partition = 0, ir_offset = 4, ir_key = Some ''1'', ir_raw_json = demo_tick_json\<rparr>"

definition demo_tick_input :: FundingSettlementTickInput where
  "demo_tick_input = \<lparr>ti_input_id = Some ''i-1'', ti_market_id = 1, ti_funding_interval_id = ''f'',
     ti_settle_at_ms = 5, ti_source = None\<rparr>"

lemma demo_tick_parsed: "parse_engine_input (ir_raw_json demo_tick) = Inr (InFundingSettlementTick demo_tick_input)"
  by code_simp

lemma make_runtime_market_event_works:
  "0 < m \<Longrightarrow> \<exists>x em'. make_runtime_market_event type m r input_id request_id clock pf em = Inr (x, em')"
  by (simp add: make_runtime_market_event_def add_runtime_engine_fields_def market_next_def Let_def split_beta)

lemma emit_event_works:
  assumes "\<exists>x em. mk (rt_clock rt) (rt_emitter rt) = Inr (x, em)"
  shows "\<exists>x em. emit_event mk (result, rt) = Inr (push_event x result, rt\<lparr>rt_emitter := em\<rparr>)"
  using assms by (auto simp: emit_event_def throwing_def)

text \<open>The funding risks of the two positions after the tick, both healthy.\<close>

definition demo_funded :: IsolatedRiskMap where
  "demo_funded = [(PositionRiskKey 7 1, funding_risk (demo_position 7 10 700) 110 5
       (Some (risk_from_position (demo_position 7 10 700) 110 0)) (- 550)),
     (PositionRiskKey 8 1, funding_risk (demo_position 8 (- 10) 500) 110 5
       (Some (risk_from_position (demo_position 8 (- 10) 500) 110 0)) 550)]"

lemma demo_funding_payments:
  "\<exists>payments. funding_payments 1 demo_funding [(1, demo_mark)] 5 (rt_positions (demo_runtime 700 500))
     (rt_risk_states (demo_runtime 700 500)) = Some (payments, [PositionRiskKey 7 1, PositionRiskKey 8 1], demo_funded)"
proof -
  have "map_option snd (funding_payments 1 demo_funding [(1, demo_mark)] 5 (rt_positions (demo_runtime 700 500))
     (rt_risk_states (demo_runtime 700 500))) = Some ([PositionRiskKey 7 1, PositionRiskKey 8 1], demo_funded)"
    by code_simp
  then show ?thesis by auto
qed

lemma demo_no_candidates:
  "automatic_liquidation_candidates_for 1 (rt_positions (demo_runtime 700 500)) demo_funded {} = []"
  by code_simp

lemma demo_funded_keys:
  "map_at demo_funded (PositionRiskKey 7 1) = Inr (funding_risk (demo_position 7 10 700) 110 5
       (Some (risk_from_position (demo_position 7 10 700) 110 0)) (- 550))"
  "map_at demo_funded (PositionRiskKey 8 1) = Inr (funding_risk (demo_position 8 (- 10) 500) 110 5
       (Some (risk_from_position (demo_position 8 (- 10) 500) 110 0)) 550)"
  by (simp_all add: map_at_def demo_funded_def sm_find_def)

lemma demo_risk_event_works:
  "\<exists>x em'. make_runtime_risk_state_updated_event r i (funding_risk (demo_position u q g) p t pr a) clock em = Inr (x, em')"
  unfolding make_runtime_risk_state_updated_event_def
  by (rule make_runtime_market_event_works)
    (simp add: funding_risk_def runtime_risk_from_position_def demo_position_def Let_def)

lemma demo_tick_live:
  "\<exists>result rt. runtime_process demo_tick Live (demo_runtime 700 500) = Inr (result, rt) \<and> pr_events result \<noteq> [] \<and>
     pr_status result = StatusProcessed"
proof -
  let ?rt = "demo_runtime 700 500"
  let ?i = "demo_tick_input\<lparr>ti_source := Some (broker_context demo_tick)\<rparr>"
  obtain payments where p: "funding_payments 1 demo_funding [(1, demo_mark)] 5 (rt_positions ?rt) (rt_risk_states ?rt) =
      Some (payments, [PositionRiskKey 7 1, PositionRiskKey 8 1], demo_funded)"
    using demo_funding_payments by blast
  let ?rt1 = "?rt\<lparr>rt_risk_states := demo_funded\<rparr>"
  obtain x em where 1: "emit_event (make_funding_payment_applied_event demo_tick ?i payments) (empty_result, ?rt1) =
      Inr (push_event x empty_result, ?rt1\<lparr>rt_emitter := em\<rparr>)"
    using emit_event_works [of "make_funding_payment_applied_event demo_tick ?i payments" ?rt1 empty_result]
    by (auto simp: make_funding_payment_applied_event_def demo_tick_input_def make_runtime_market_event_works)
  have 2: "\<exists>x em. emit_event (make_runtime_risk_state_updated_event demo_tick (ti_input_id ?i)
      (funding_risk (demo_position u q g) p t pr a)) (result, rt) = Inr (push_event x result, rt\<lparr>rt_emitter := em\<rparr>)"
    for u q g p t pr a result rt
    by (rule emit_event_works) (rule demo_risk_event_works)
  let ?e = "\<lambda>u q g a. make_runtime_risk_state_updated_event demo_tick (ti_input_id ?i)
    (funding_risk (demo_position u q g) 110 5 (Some (risk_from_position (demo_position u q g) 110 0)) a)"
  obtain y em2 where 3: "emit_event (?e 7 10 700 (- 550)) (push_event x empty_result, ?rt1\<lparr>rt_emitter := em\<rparr>) =
      Inr (push_event y (push_event x empty_result), ?rt1\<lparr>rt_emitter := em\<rparr>\<lparr>rt_emitter := em2\<rparr>)"
    using 2 by blast
  obtain z em3 where 4: "emit_event (?e 8 (- 10) 500 550) (push_event y (push_event x empty_result), ?rt1\<lparr>rt_emitter := em2\<rparr>) =
      Inr (push_event z (push_event y (push_event x empty_result)), ?rt1\<lparr>rt_emitter := em2\<rparr>\<lparr>rt_emitter := em3\<rparr>)"
    using 2 by blast
  have ps: "rt_positions ?rt = [(PositionRiskKey 7 1, demo_position 7 10 700), (PositionRiskKey 8 1, demo_position 8 (- 10) 500)]"
    "rt_mark_prices ?rt = [(1, demo_mark)]"
    by (simp_all add: demo_runtime_def Let_def)
  have sweep: "evaluate_automatic_liquidations_for_market 1 demo_tick i rt = Inr (empty_result, rt)"
    if "rt_positions rt = rt_positions ?rt" "rt_risk_states rt = demo_funded" for i rt
    using that demo_no_candidates
    by (simp add: evaluate_automatic_liquidations_for_market_def liquidation_sweep.simps empty_sweep_def)
  have i: "ti_market_id ?i = 1" "ti_settle_at_ms ?i = 5" "ti_funding_interval_id ?i = ''f''" by (simp_all add: demo_tick_input_def)
  have "\<exists>result rt. settle_funding demo_tick ?i demo_funding ?rt = Inr (result, rt) \<and> pr_events result \<noteq> [] \<and>
     pr_status result = StatusProcessed"
    unfolding settle_funding_def i ps(2) p
    using 1 3 4 sweep by (simp add: defined_def throwing_def demo_funded_keys liquidate_after_def push_event_def
      append_process_result_def empty_result_def)
  then obtain result rt where s: "settle_funding demo_tick ?i demo_funding ?rt = Inr (result, rt)"
      "pr_events result \<noteq> []" "pr_status result = StatusProcessed" by blast
  have r: "rt_processed_input_ids ?rt = []" "rt_settled_funding_intervals ?rt = {}" "um_find (rt_funding_rates ?rt) 1 = Some demo_funding"
    by (simp_all add: demo_runtime_def Let_def um_find_def)
  have "fr_funding_interval_id demo_funding = ''f''" by (simp add: demo_funding_def)
  then show ?thesis
    using s r i by (simp add: runtime_process_def demo_tick_parsed throwing_def process_funding_settlement_tick_def Let_def
      duplicate_input_result_for_def demo_tick_input_def um_find_def in_mode_def apply_processing_mode_def)
qed

text \<open>A second tick for the same interval, without an input id.\<close>

definition demo_retick :: InboundEngineRecord where
  "demo_retick = demo_tick\<lparr>ir_offset := 5, ir_raw_json := concat [''{'', json_string ''type'', '':'',
     json_string ''FundingSettlementTick'', '','', json_string ''payload'', '':{'', json_string ''market_id'', '':1,'',
     json_string ''funding_interval_id'', '':'', json_string ''f'', '','', json_string ''settle_at_ms'', '':6}}'']\<rparr>"

lemma demo_retick_parsed: "parse_engine_input (ir_raw_json demo_retick) =
    Inr (InFundingSettlementTick \<lparr>ti_input_id = None, ti_market_id = 1, ti_funding_interval_id = ''f'',
      ti_settle_at_ms = 6, ti_source = None\<rparr>)"
  by code_simp

text \<open>User 8 alone, with no margin left and nobody to take over the position.\<close>

definition demo_lonely :: EngineRuntime where
  "demo_lonely = (demo_runtime 0 0)\<lparr>rt_positions := tl (rt_positions (demo_runtime 0 0)),
     rt_risk_states := tl (rt_risk_states (demo_runtime 0 0))\<rparr>"

lemma demo_sweep:
  "\<exists>sw rt. liquidation_sweep 1 demo_tick None empty_sweep demo_lonely = Inr (sw, rt) \<and> sw_attempts sw = 1"
proof -
  have "case liquidation_sweep 1 demo_tick None empty_sweep demo_lonely of Inr (sw, rt) \<Rightarrow> sw_attempts sw = 1 | Inl e \<Rightarrow> False"
    by code_simp
  then show ?thesis by (auto split: sum.splits)
qed

definition demo_metadata :: "OrderId \<Rightarrow> AdapterUserId \<Rightarrow> AdapterSide \<Rightarrow> OrderMetadata" where
  "demo_metadata oid user side = \<lparr>om_order_id = oid, om_market_id = 1, om_user_id = user, om_side = side,
     om_original_quantity = 10, om_remaining_quantity = 10, om_reduce_only = False, om_margin_asset = ''USDC'',
     om_reserved_margin_amount = 501, om_remaining_reserved_margin = 501, om_leverage = 2,
     om_reservation_id = ''res'', om_place_request_id = ''r'', om_place_idempotency_key = ''k'',
     om_place_input_id = None, om_reply_partition = 0, om_core_client_order_id = 1, om_core_place_command_id = 1\<rparr>"

definition demo_reduce_only :: PlaceOrderInput where
  "demo_reduce_only = \<lparr>pi_input_id = None, pi_envelope = \<lparr>ce_request_id = ''r-1'', ce_idempotency_key = ''k-1'',
      ce_user_id = 7, ce_reply_partition = 0\<rparr>,
    pi_order_id = 11, pi_reservation_id = ''res'', pi_market_id = 1, pi_market_name = ''BTC'',
    pi_side = Short, pi_order_type = ALimit, pi_time_in_force = AGtc, pi_price = 100, pi_quantity = 25,
    pi_reduce_only = True, pi_margin_asset = ''USDC'', pi_reserved_margin_amount = 500, pi_leverage = 2,
    pi_source = None\<rparr>"

definition demo_trade :: TradeEvent where
  "demo_trade = \<lparr>tx_tradeId = 1, tx_symbolId = 1, tx_makerOrderId = 1, tx_takerOrderId = 2, tx_price = 100, tx_quantity = 3\<rparr>"

definition demo_context :: EngineEventTranslationContext where
  "demo_context = \<lparr>tc_command_kind = KindPlaceOrder, tc_source = demo_tick, tc_request_id = ''r'', tc_input_id = None,
     tc_reply_partition = 0, tc_order_id = 2, tc_market_id = 1, tc_can_open_resting_order = True,
     tc_pending_metadata = Some (demo_metadata 2 8 Short), tc_liquidation_id = [], tc_liquidated_user_id = 0,
     tc_liquidation_position_side = Long, tc_adl_execution = False, tc_adl_id = [],
     tc_adl_counterparty_user_id = 0, tc_adl_priority_rank = 0\<rparr>"

definition demo_translation :: TranslationState where
  "demo_translation = \<lparr>tr_result = empty_result, tr_context = demo_context,
     tr_metadata_store = [(1, demo_metadata 1 7 Long)], tr_positions = [(PositionRiskKey 7 1, demo_position 7 5 500)],
     tr_risk_states = [], tr_emitter = \<lparr>em_sequences = make_market_sequences 1, em_clock_reads = 0\<rparr>\<rparr>"

end
