(* ===== verification/RuntimeProperties.thy ===== *)
theory RuntimeProperties
  imports RuntimeInvariants Demo
begin

text \<open>
  Properties of the engine runtime as a whole: silent replay gives the state of live processing,
  requests are processed once, public events are numbered without a gap, the risk states follow the
  positions, funding is settled once an interval, and the sweep of automatic liquidations ends
  with no account left out.  All of them rest on the interpretations of the locale of runtime
  evolutions in \<^verbatim>\<open>RuntimeInvariants\<close>.
\<close>

lemma demo_risks_ok: "risks_ok (demo_runtime margin7 margin8)"
  by (auto simp: risks_ok_def demo_runtime_def Let_def sm_ok_def demo_position_def sm_find_def risk_matches_def
      risk_from_position_def less_PositionRiskKey_def position_risk_key_less_def split: if_splits)

lemma demo_lonely_risks_ok: "risks_ok demo_lonely"
  by (auto simp: risks_ok_def demo_lonely_def demo_runtime_def Let_def sm_ok_def demo_position_def sm_find_def risk_matches_def
      risk_from_position_def split: if_splits)

section \<open>Silent replay\<close>

definition map_result :: "(EngineProcessResult \<Rightarrow> EngineProcessResult) \<Rightarrow>
    runtime_error + (EngineProcessResult \<times> EngineRuntime) \<Rightarrow> runtime_error + (EngineProcessResult \<times> EngineRuntime)" where
  "map_result f m = (case m of Inl e \<Rightarrow> Inl e | Inr (result, rt) \<Rightarrow> Inr (f result, rt))"

definition silent :: "EngineProcessResult \<Rightarrow> EngineProcessResult" where
  "silent result = result\<lparr>pr_replies := [], pr_events := []\<rparr>"

lemma map_result_simps [simp]:
  "map_result f (ebind m g) = ebind m (\<lambda>x. map_result f (g x))"
  "map_result f (Inr (result, rt)) = Inr (f result, rt)" "map_result f (Inl e) = Inl e"
  "map_result f (case p of (x, y) \<Rightarrow> h x y) = (case p of (x, y) \<Rightarrow> map_result f (h x y))"
  by (simp_all add: map_result_def ebind_def split: sum.split prod.split)

lemma in_mode_silent [simp]: "map_result silent (in_mode Live st) = in_mode ReplaySilent st"
  by (cases st) (simp add: in_mode_def apply_processing_mode_def silent_def)

lemma silent_duplicate [simp]:
  "duplicate_result_for i k rt = Some d \<Longrightarrow> silent d = d"
  "duplicate_input_result_for i rt = Some d \<Longrightarrow> silent d = d"
  "silent empty_result = empty_result" "silent rejected_no_output = rejected_no_output"
  by (auto simp: duplicate_result_for_def duplicate_input_result_for_def make_duplicate_result_def silent_def
      empty_result_def rejected_no_output_def split: option.splits)

lemma handlers_silent:
  "map_result silent (process_place_order r Live pin rt) = process_place_order r ReplaySilent pin rt"
  "map_result silent (process_cancel_order r Live cin rt) = process_cancel_order r ReplaySilent cin rt"
  "map_result silent (process_liquidate_position r Live lin rt) = process_liquidate_position r ReplaySilent lin rt"
  "map_result silent (process_mark_price_updated r Live mpi rt) = process_mark_price_updated r ReplaySilent mpi rt"
  "map_result silent (process_funding_rate_updated r Live fin rt) = process_funding_rate_updated r ReplaySilent fin rt"
  "map_result silent (process_funding_settlement_tick r Live tin rt) = process_funding_settlement_tick r ReplaySilent tin rt"
  by (auto simp: process_place_order_def process_cancel_order_def process_liquidate_position_def
      process_mark_price_updated_def process_funding_rate_updated_def process_funding_settlement_tick_def
      Let_def split: option.split)

lemma process_replay_silent: "process_replay r rt = map_result silent (runtime_process r Live rt)"
  unfolding process_replay_def runtime_process_def
  by (cases "parse_engine_input (ir_raw_json r)")
    (auto simp: throwing_def handlers_silent split: ParsedEngineInput.split)

text \<open>
  C9: silent replay of a record changes the runtime exactly as live processing does, fails exactly when
  it fails, and returns the same status without replies and events.
\<close>

theorem replay_matches_live:
  "process_replay r rt = (case runtime_process r Live rt of
     Inl e \<Rightarrow> Inl e
   | Inr (result, rt') \<Rightarrow> Inr (result\<lparr>pr_replies := [], pr_events := []\<rparr>, rt'))"
  by (simp add: process_replay_silent map_result_def silent_def [abs_def])

section \<open>Logs\<close>

fun process_log :: "InboundEngineRecord list \<Rightarrow> EngineRuntime \<Rightarrow>
    runtime_error + (EngineProcessResult list \<times> EngineRuntime)" where
  "process_log [] rt = Inr ([], rt)"
| "process_log (r # rs) rt =
     ebind (runtime_process r Live rt) (\<lambda>(result, rt).
     ebind (process_log rs rt) (\<lambda>(results, rt). Inr (result # results, rt)))"

lemma process_log_induct:
  assumes "process_log rs rt = Inr (results, rt')"
    and "\<And>rt. P rt rt"
    and "\<And>r rt result rt1 rt'. runtime_process r Live rt = Inr (result, rt1) \<Longrightarrow> P rt1 rt' \<Longrightarrow> P rt rt'"
  shows "P rt rt'"
  using assms(1)
proof (induction rs arbitrary: rt results)
  case (Cons r rs)
  then show ?case by (auto simp: ebind_Inr_iff intro: assms(3))
qed (simp add: assms(2))

section \<open>Requests are processed once\<close>

fun input_id_of :: "ParsedEngineInput \<Rightarrow> string option" where
  "input_id_of (InPlaceOrder i) = pi_input_id i"
| "input_id_of (InCancelOrder i) = ci_input_id i"
| "input_id_of (InLiquidatePosition i) = li_input_id i"
| "input_id_of (InMarkPriceUpdated i) = mi_input_id i"
| "input_id_of (InFundingRateUpdated i) = fi_input_id i"
| "input_id_of (InFundingSettlementTick i) = ti_input_id i"

fun idempotency_key_of :: "ParsedEngineInput \<Rightarrow> string option" where
  "idempotency_key_of (InPlaceOrder i) = Some (ce_idempotency_key (pi_envelope i))"
| "idempotency_key_of (InCancelOrder i) = Some (ce_idempotency_key (ci_envelope i))"
| "idempotency_key_of (InLiquidatePosition i) = Some (ce_idempotency_key (li_envelope i))"
| "idempotency_key_of _ = None"

text \<open>Two inputs are the same request when they share an input id or an idempotency key.\<close>

definition same_request :: "ParsedEngineInput \<Rightarrow> ParsedEngineInput \<Rightarrow> bool" where
  "same_request a b \<longleftrightarrow> (input_id_of a \<noteq> None \<and> input_id_of a = input_id_of b) \<or>
     (idempotency_key_of a \<noteq> None \<and> idempotency_key_of a = idempotency_key_of b)"

definition knows :: "EngineRuntime \<Rightarrow> ParsedEngineInput \<Rightarrow> bool" where
  "knows rt a \<longleftrightarrow> (case input_id_of a of None \<Rightarrow> False | Some i \<Rightarrow> um_find (rt_processed_input_ids rt) i \<noteq> None) \<or>
     (case idempotency_key_of a of None \<Rightarrow> False | Some k \<Rightarrow> um_find (rt_processed_idempotency_keys rt) k \<noteq> None)"

lemma duplicate_of_iff: "duplicate_of a rt \<noteq> None \<longleftrightarrow> knows rt a"
  by (cases a) (auto simp: knows_def duplicate_result_for_def duplicate_input_result_for_def split: option.splits)

lemma duplicate_of_result: "duplicate_of a rt = Some d \<Longrightarrow> pr_status d = StatusDuplicate \<and> result_empty d"
  by (cases a) (auto simp: duplicate_result_for_def duplicate_input_result_for_def make_duplicate_result_def
      empty_result_def result_empty_def split: option.splits)

definition knows_more :: "EngineRuntime \<Rightarrow> EngineRuntime \<Rightarrow> bool" where
  "knows_more rt rt' \<longleftrightarrow>
     (\<forall>i. um_find (rt_processed_input_ids rt) i \<noteq> None \<longrightarrow> um_find (rt_processed_input_ids rt') i \<noteq> None) \<and>
     (\<forall>k. um_find (rt_processed_idempotency_keys rt) k \<noteq> None \<longrightarrow>
        um_find (rt_processed_idempotency_keys rt') k \<noteq> None)"

lemma mark_input_knows:
  "knows_more rt (mark_input a r rt)"
  "input_id_of a = Some i \<Longrightarrow> um_find (rt_processed_input_ids (mark_input a r rt)) i \<noteq> None"
  "idempotency_key_of a = Some k \<Longrightarrow> um_find (rt_processed_idempotency_keys (mark_input a r rt)) k \<noteq> None"
  by (cases a; auto simp: knows_more_def mark_processed_def mark_input_processed_def Let_def um_find_emplace
      split: option.splits)+

lemma process_knows_more: "runtime_process r mode rt = Inr (result, rt') \<Longrightarrow> knows_more rt rt'"
  using requests.runtime_process_handled [of r mode rt] mark_input_knows(1)
  by (fastforce simp: requests.handled_def requests.marked_def requests.evolves_def keeps_requests_def knows_more_def
      split: option.splits)

lemma handled_cases:
  assumes "runtime_process r mode rt = Inr (result, rt')"
  obtains a where "parse_engine_input (ir_raw_json r) = Inr a" "duplicate_of a rt = Some result" "rt' = rt"
    | a rt1 where "parse_engine_input (ir_raw_json r) = Inr a" "duplicate_of a rt = None"
        "keeps_requests rt [] rt1" "rt' = mark_input a r rt1"
proof -
  obtain a where a: "parse_engine_input (ir_raw_json r) = Inr a" "requests.handled a r mode rt (result, rt')"
    using post_elim [OF requests.runtime_process_handled assms] by auto
  show thesis
  proof (cases "duplicate_of a rt")
    case None
    then obtain es rt1 where "keeps_requests rt es rt1" "rt' = mark_input a r rt1"
      using a(2) by (auto simp: requests.handled_def requests.marked_def requests.evolves_def)
    then show ?thesis using assms a(1) None by (intro that(2)) (auto simp: keeps_requests_def)
  next
    case (Some d)
    then show ?thesis using a by (intro that(1)) (auto simp: requests.handled_def)
  qed
qed

lemma runtime_process_duplicate:
  "parse_engine_input (ir_raw_json r) = Inr a \<Longrightarrow> duplicate_of a rt = Some d \<Longrightarrow>
   runtime_process r mode rt = Inr (d, rt)"
  by (cases a) (simp_all add: runtime_process_def throwing_def process_place_order_def process_cancel_order_def
      process_liquidate_position_def process_mark_price_updated_def process_funding_rate_updated_def
      process_funding_settlement_tick_def)

lemma process_log_knows_more: "process_log rs rt = Inr (results, rt') \<Longrightarrow> knows_more rt rt'"
  by (erule process_log_induct) (auto simp: knows_more_def dest!: process_knows_more)

text \<open>
  C10: a request that was processed is never processed again: any later record with the same input id
  or idempotency key, after any number of other records, is answered as a duplicate without replies or
  events, and the state of the runtime does not change.
\<close>

theorem request_processed_once:
  assumes first: "parse_engine_input (ir_raw_json r) = Inr a" "runtime_process r Live rt = Inr (result, rt1)"
      "pr_status result \<noteq> StatusDuplicate"
    and log: "process_log rs rt1 = Inr (results, rt2)"
    and again: "parse_engine_input (ir_raw_json r') = Inr b" "same_request a b"
  shows "\<exists>dup. runtime_process r' Live rt2 = Inr (dup, rt2) \<and> pr_status dup = StatusDuplicate \<and>
    pr_replies dup = [] \<and> pr_events dup = []"
proof -
  obtain rt0 where rt1: "rt1 = mark_input a r rt0"
    using first duplicate_of_result by (cases rule: handled_cases [OF first(2)]) auto
  have "knows rt1 b"
    using again(2) mark_input_knows(2,3) [of a _ r rt0] unfolding rt1 same_request_def knows_def
    by (auto split: option.splits) (metis option.distinct(1) option.inject)+
  then have "knows rt2 b"
    using process_log_knows_more [OF log] by (auto simp: knows_def knows_more_def split: option.splits)
  then obtain d where "duplicate_of b rt2 = Some d" using duplicate_of_iff by fastforce
  then show ?thesis
    using runtime_process_duplicate [OF again(1)] duplicate_of_result by (fastforce simp: result_empty_def)
qed

theorem request_processed_once_witness:
  "\<exists>result rt1 dup. runtime_process demo_tick Live (demo_runtime 700 500) = Inr (result, rt1) \<and>
     pr_events result \<noteq> [] \<and> runtime_process demo_tick Live rt1 = Inr (dup, rt1) \<and>
     pr_status dup = StatusDuplicate \<and> pr_events dup = []"
proof -
  obtain result rt1 where run: "runtime_process demo_tick Live (demo_runtime 700 500) = Inr (result, rt1)"
      "pr_events result \<noteq> []" "pr_status result \<noteq> StatusDuplicate"
    using demo_tick_live by auto
  have "process_log [] rt1 = Inr ([], rt1)" "same_request (InFundingSettlementTick demo_tick_input) (InFundingSettlementTick demo_tick_input)"
    by (simp_all add: same_request_def demo_tick_input_def)
  from request_processed_once [OF demo_tick_parsed run(1,3) this(1) demo_tick_parsed this(2)] show ?thesis
    using run(1,2) by blast
qed

lemma mark_input_frame [simp]:
  "rt_positions (mark_input a r rt) = rt_positions rt" "rt_risk_states (mark_input a r rt) = rt_risk_states rt"
  "rt_emitter (mark_input a r rt) = rt_emitter rt"
  "rt_settled_funding_intervals (mark_input a r rt) = rt_settled_funding_intervals rt"
  by (cases a; simp add: mark_processed_def mark_input_processed_def Let_def split: option.split)+

text \<open>
  C19: the public events of one market carry consecutive sequence numbers: those a record emits
  continue where the market stood, without gaps or repeats, whatever other markets emit in between,
  and the market stands right behind them afterwards.
\<close>

theorem public_sequences_consecutive:
  assumes "runtime_process r Live rt = Inr (result, rt')" "market_peek m (em_sequences (rt_emitter rt)) = Inr s"
  shows "map event_sequence_text (filter (\<lambda>x. eo_key x = to_string m) (pr_events result)) =
      map (\<lambda>i. Some (to_string (uint (s + of_nat i))))
        [0..<length (filter (\<lambda>x. eo_key x = to_string m) (pr_events result))] \<and>
    market_peek m (em_sequences (rt_emitter rt')) =
      Inr (s + of_nat (length (filter (\<lambda>x. eo_key x = to_string m) (pr_events result))))"
proof -
  have "issued (em_sequences (rt_emitter rt)) (pr_events result) (em_sequences (rt_emitter rt'))"
    using sequences.runtime_process_handled [of r Live rt] assms(1) duplicate_of_result
    by (fastforce simp: sequences.handled_def sequences.marked_def sequences.evolves_def issues_def empty_result_def
        apply_processing_mode_def result_empty_def split: option.splits)
  then show ?thesis using assms(2) by (rule issued_consecutive)
qed

theorem public_sequences_consecutive_witness:
  "\<exists>result rt' k. runtime_process demo_tick Live (demo_runtime 700 500) = Inr (result, rt') \<and>
     map event_sequence_text (filter (\<lambda>x. eo_key x = to_string 1) (pr_events result)) =
       map (\<lambda>i. Some (to_string (uint (1 + of_nat i :: 64 word)))) [0..<k] \<and>
     market_peek 1 (em_sequences (rt_emitter rt')) = Inr (1 + of_nat k)"
proof -
  obtain result rt' where run: "runtime_process demo_tick Live (demo_runtime 700 500) = Inr (result, rt')"
    using demo_tick_live by blast
  have "market_peek 1 (em_sequences (rt_emitter (demo_runtime 700 500))) = Inr 1"
    by (simp add: demo_runtime_def make_market_sequences_def market_peek_def container_simps Let_def)
  from public_sequences_consecutive [OF run this] run show ?thesis by blast
qed

lemma process_keeps_risks: "runtime_process r mode rt = Inr (result, rt') \<Longrightarrow> risks_ok rt \<Longrightarrow> risks_ok rt'"
  using risks.runtime_process_handled [of r mode rt]
  by (fastforce simp: risks.handled_def risks.marked_def risks.evolves_def keeps_risks_def elim: risks_ok_cong [rotated 2]
      split: option.splits)

text \<open>
  C13: over any log of records, fills, price updates, funding payments, liquidations and deleveragings
  keep every position and its risk state in step: each position has exactly one risk state, with the
  position's quantity, entry price, margin and leverage, and it is LIQUIDATABLE exactly when the
  position is open and its equity is at most its maintenance margin.
\<close>

theorem risk_states_match_positions:
  assumes "process_log rs rt = Inr (results, rt')" "risks_ok rt"
  shows "risks_ok rt' \<and> (\<forall>key pos. sm_find (rt_positions rt') key = Some pos \<longrightarrow>
    (\<exists>risk. sm_find (rt_risk_states rt') key = Some risk \<and> risk_matches pos risk \<and>
      (rs_status risk = ''LIQUIDATABLE'' \<longleftrightarrow>
         ps_signed_quantity pos \<noteq> 0 \<and> rs_equity risk \<le> rs_maintenance_margin risk)))"
proof -
  have ok: "risks_ok rt'"
    using process_log_induct [OF assms(1), of "\<lambda>rt rt'. risks_ok rt \<longrightarrow> risks_ok rt'"] assms(2)
    by (blast dest: process_keeps_risks)
  show ?thesis
  proof (intro conjI allI impI)
    fix key pos
    assume pos: "sm_find (rt_positions rt') key = Some pos"
    then have "key \<in> fst ` set (rt_risk_states rt')"
      using risks_okD(1,3) [OF ok] by (metis sm_find_None_iff option.distinct(1) list.set_map)
    then obtain risk where risk: "sm_find (rt_risk_states rt') key = Some risk"
      using sm_find_None_iff [of "rt_risk_states rt'" key] by (cases "sm_find (rt_risk_states rt') key") auto
    have m: "risk_matches pos risk" using risks_okD(5) [OF ok pos risk] .
    then show "\<exists>risk. sm_find (rt_risk_states rt') key = Some risk \<and> risk_matches pos risk \<and>
        (rs_status risk = ''LIQUIDATABLE'' \<longleftrightarrow> ps_signed_quantity pos \<noteq> 0 \<and> rs_equity risk \<le> rs_maintenance_margin risk)"
      using risk by (auto simp: risk_matches_def risk_status_for_def)
  qed (rule ok)
qed

theorem risk_states_match_positions_witness:
  "\<exists>results rt'. process_log [demo_tick] (demo_runtime 700 500) = Inr (results, rt') \<and> risks_ok rt'"
proof -
  obtain result rt' where run: "runtime_process demo_tick Live (demo_runtime 700 500) = Inr (result, rt')"
    using demo_tick_live by blast
  then have "process_log [demo_tick] (demo_runtime 700 500) = Inr ([result], rt')" by simp
  with risk_states_match_positions [OF this demo_risks_ok] show ?thesis by blast
qed

section \<open>Funding\<close>

lemma settle_funding_settles:
  "post (settle_funding r inp funding rt) (\<lambda>(result, rt').
     FundingSettlementKey (ti_market_id inp) (ti_funding_interval_id inp) \<in> rt_settled_funding_intervals rt')"
  unfolding settle_funding_def
  by (intro post_any, clarsimp simp del: post_ebind, intro post_any, clarsimp simp del: post_ebind)
    (auto simp: settled.evolves_def keeps_settled_def intro!: post_any post_mono [OF settled.liquidate_after_evolves])

lemma process_keeps_settled:
  "runtime_process r mode rt = Inr (result, rt') \<Longrightarrow> rt_settled_funding_intervals rt \<subseteq> rt_settled_funding_intervals rt'"
  using settled.runtime_process_handled [of r mode rt]
  by (fastforce simp: settled.handled_def settled.marked_def settled.evolves_def keeps_settled_def
      split: option.splits)

lemma process_log_keeps_settled:
  "process_log rs rt = Inr (results, rt') \<Longrightarrow> rt_settled_funding_intervals rt \<subseteq> rt_settled_funding_intervals rt'"
  by (erule process_log_induct) (auto dest: process_keeps_settled)

text \<open>
  C20: a funding interval is settled once: after a tick that emitted payments, and any number of other
  records, a tick for the same market and interval emits nothing and leaves everything but the record
  of processed input ids as it is.
\<close>

theorem funding_interval_settled_once:
  assumes first: "parse_engine_input (ir_raw_json r) = Inr (InFundingSettlementTick i)"
      "runtime_process r Live rt = Inr (result, rt1)" "pr_events result \<noteq> []"
    and log: "process_log rs rt1 = Inr (results, rt2)"
    and again: "parse_engine_input (ir_raw_json r') = Inr (InFundingSettlementTick j)"
      "ti_market_id j = ti_market_id i" "ti_funding_interval_id j = ti_funding_interval_id i"
  shows "\<exists>res ids. runtime_process r' Live rt2 = Inr (res, rt2\<lparr>rt_processed_input_ids := ids\<rparr>) \<and>
    pr_replies res = [] \<and> pr_events res = []"
proof -
  let ?key = "FundingSettlementKey (ti_market_id i) (ti_funding_interval_id i)"
  have "runtime_process r Live rt = process_funding_settlement_tick r Live i rt"
    using first(1) by (simp add: runtime_process_def throwing_def)
  then obtain funding where "ebind (settle_funding r (i\<lparr>ti_source := Some (broker_context r)\<rparr>) funding rt) (\<lambda>(result, rt).
         in_mode Live (result, mark_input_processed KindFundingSettlementTick r (ti_input_id i) rt)) = Inr (result, rt1)"
    using first(2,3)
    by (auto simp: process_funding_settlement_tick_def Let_def duplicate_input_result_for_def make_duplicate_result_def
        empty_result_def rejected_no_output_def split: option.splits if_splits)
  then have "?key \<in> rt_settled_funding_intervals rt1"
    using settle_funding_settles [of r "i\<lparr>ti_source := Some (broker_context r)\<rparr>" funding rt]
    by (auto simp: post_def ebind_Inr_iff in_mode_def mark_input_processed_def split: option.splits)
  then have key: "?key \<in> rt_settled_funding_intervals rt2" using process_log_keeps_settled [OF log] by blast
  have "rt2\<lparr>rt_processed_input_ids := rt_processed_input_ids rt2\<rparr> = rt2" by simp
  then show ?thesis
    using again key
    by (auto simp: runtime_process_def throwing_def process_funding_settlement_tick_def Let_def
        duplicate_input_result_for_def make_duplicate_result_def empty_result_def mark_input_processed_def
        split: option.split intro: exI [of _ "rt_processed_input_ids rt2"])
qed

theorem funding_interval_settled_once_witness:
  "\<exists>result rt1 res ids. runtime_process demo_tick Live (demo_runtime 700 500) = Inr (result, rt1) \<and> pr_events result \<noteq> [] \<and>
     runtime_process demo_retick Live rt1 = Inr (res, rt1\<lparr>rt_processed_input_ids := ids\<rparr>) \<and> pr_events res = []"
proof -
  obtain result rt1 where run: "runtime_process demo_tick Live (demo_runtime 700 500) = Inr (result, rt1)"
      "pr_events result \<noteq> []"
    using demo_tick_live by blast
  have "process_log [] rt1 = Inr ([], rt1)" by simp
  from funding_interval_settled_once [OF demo_tick_parsed run this demo_retick_parsed] show ?thesis
    using run by (auto simp: demo_tick_input_def)
qed

section \<open>Automatic liquidations\<close>

lemma perform_liquidation_emits:
  "post (perform_liquidation r inp emit_replies crossing price pos risk md ctx core_events rt)
     (\<lambda>(result, rt'). pr_events result \<noteq> [])"
proof -
  have e: "post (emit_event mk st) (\<lambda>(result, rt). pr_events result \<noteq> [])" for mk st
    by (auto simp: emit_event_def push_event_def split_beta post_def ebind_Inr_iff)
  show ?thesis
    unfolding perform_liquidation_def Let_def split_beta
    by (rule post_any, rule post_any, rule post_any, rule post_bind, rule e) auto
qed

text \<open>A liquidation that emits nothing has not touched positions or risk states.\<close>

lemma execute_liquidation_quiet:
  "post (execute_liquidation r inp emit_replies rt) (\<lambda>(result, rt'). pr_events result = [] \<longrightarrow>
     rt_positions rt' = rt_positions rt \<and> rt_risk_states rt' = rt_risk_states rt)"
proof -
  have p: "post (perform_liquidation r inp emit_replies crossing price pos risk md ctx core_events rt1)
     (\<lambda>(result, rt'). pr_events result = [] \<longrightarrow>
     rt_positions rt' = rt_positions rt \<and> rt_risk_states rt' = rt_risk_states rt)"
    for crossing price pos risk md ctx core_events rt1
    by (rule post_mono [OF perform_liquidation_emits]) auto
  show ?thesis
    unfolding execute_liquidation_def Let_def
    by (auto simp del: post_ebind intro!: post_any p split: option.split)
qed

lemma collect_liquidation_keys:
  "distinct (map fst rs) \<Longrightarrow> distinct (map lc_key (collect_liquidation_candidates m ps attempted rs)) \<and>
     lc_key ` set (collect_liquidation_candidates m ps attempted rs) \<subseteq> fst ` set rs - attempted"
proof (induction m ps attempted rs rule: collect_liquidation_candidates.induct)
  case (2 m ps attempted key risk rs)
  then show ?case by (auto simp: Let_def split: option.split)
qed simp

lemma collect_liquidation_complete:
  assumes "(key, risk) \<in> set rs" "rk_market_id key = m" "rs_status risk = ''LIQUIDATABLE''"
    "rs_signed_quantity risk \<noteq> 0" "key \<notin> attempted" "sm_find ps key = Some pos" "ps_signed_quantity pos \<noteq> 0"
  shows "key \<in> lc_key ` set (collect_liquidation_candidates m ps attempted rs)"
  using assms
proof (induction m ps attempted rs rule: collect_liquidation_candidates.induct)
  case (2 m ps attempted key' risk' rs)
  then show ?case by (cases "(key', risk') = (key, risk)") (auto simp: Let_def split: option.split)
qed simp

lemma candidates_keys:
  assumes "sm_ok risks"
  shows "distinct (map lc_key (automatic_liquidation_candidates_for m ps risks attempted))"
    "lc_key ` set (automatic_liquidation_candidates_for m ps risks attempted) \<inter> attempted = {}"
proof -
  let ?cs = "collect_liquidation_candidates m ps attempted risks"
  have k: "distinct (map lc_key ?cs) \<and> lc_key ` set ?cs \<subseteq> fst ` set risks - attempted"
    using sm_ok_distinct [OF assms] by (rule collect_liquidation_keys)
  have "distinct ?cs" "inj_on lc_key (set ?cs)" using k by (simp_all add: distinct_map)
  then show "distinct (map lc_key (automatic_liquidation_candidates_for m ps risks attempted))"
    by (simp add: automatic_liquidation_candidates_for_def distinct_map)
  show "lc_key ` set (automatic_liquidation_candidates_for m ps risks attempted) \<inter> attempted = {}"
    using k by (auto simp: automatic_liquidation_candidates_for_def)
qed

definition sweep_ok :: "LiquidationSweep \<Rightarrow> bool" where
  "sweep_ok sw \<longleftrightarrow> finite (sw_attempted sw) \<and> int (card (sw_attempted sw)) = sw_attempts sw"

lemma attempt_candidates_covers:
  "distinct (map lc_key cs) \<Longrightarrow> lc_key ` set cs \<inter> sw_attempted sw = {} \<Longrightarrow> sweep_ok sw \<Longrightarrow>
   post (attempt_candidates source input_id cs sw rt) (\<lambda>(rescan, sw', rt'). sweep_ok sw' \<and>
     (\<not> rescan \<longrightarrow> sw_attempts sw' \<ge> 16 \<or> sw_attempted sw \<union> lc_key ` set cs \<subseteq> sw_attempted sw' \<and>
        rt_positions rt' = rt_positions rt \<and> rt_risk_states rt' = rt_risk_states rt))"
proof (induction cs arbitrary: sw rt)
  case (Cons c cs)
  show ?case
  proof (cases "sw_attempts sw \<ge> kMaxAutomaticLiquidationAttemptsPerTrigger")
    case True
    then show ?thesis using Cons.prems by (simp add: kMaxAutomaticLiquidationAttemptsPerTrigger_def)
  next
    case False
    let ?sw = "sw\<lparr>sw_attempted := insert (lc_key c) (sw_attempted sw), sw_attempts := sw_attempts sw + 1\<rparr>"
    have ok: "sweep_ok (?sw\<lparr>sw_result := x\<rparr>)" for x
      using Cons.prems by (auto simp: sweep_ok_def)
    show ?thesis
      unfolding attempt_candidates.simps Let_def if_not_P [OF False]
    proof (rule post_bind [OF execute_liquidation_quiet], clarify)
      fix execution :: EngineProcessResult and rt1 :: EngineRuntime
      assume quiet: "pr_events execution = [] \<longrightarrow> rt_positions rt1 = rt_positions rt \<and> rt_risk_states rt1 = rt_risk_states rt"
      let ?sw1 = "?sw\<lparr>sw_result := append_process_result (sw_result ?sw) execution\<rparr>"
      have IH: "post (attempt_candidates source input_id cs ?sw1 rt1) (\<lambda>(rescan, sw', rt'). sweep_ok sw' \<and>
        (\<not> rescan \<longrightarrow> sw_attempts sw' \<ge> 16 \<or> sw_attempted ?sw1 \<union> lc_key ` set cs \<subseteq> sw_attempted sw' \<and>
        rt_positions rt' = rt_positions rt1 \<and> rt_risk_states rt' = rt_risk_states rt1))"
        using Cons.prems ok by (intro Cons.IH) auto
      show "post (if pr_events execution \<noteq> [] then Inr (True, ?sw1, rt1)
          else attempt_candidates source input_id cs ?sw1 rt1) (\<lambda>(rescan, sw', rt'). sweep_ok sw' \<and>
        (\<not> rescan \<longrightarrow> sw_attempts sw' \<ge> 16 \<or> sw_attempted sw \<union> lc_key ` set (c # cs) \<subseteq> sw_attempted sw' \<and>
        rt_positions rt' = rt_positions rt \<and> rt_risk_states rt' = rt_risk_states rt))"
      proof (cases "pr_events execution = []")
        case True
        have "post (attempt_candidates source input_id cs ?sw1 rt1) (\<lambda>(rescan, sw', rt'). sweep_ok sw' \<and>
          (\<not> rescan \<longrightarrow> sw_attempts sw' \<ge> 16 \<or> sw_attempted sw \<union> lc_key ` set (c # cs) \<subseteq> sw_attempted sw' \<and>
          rt_positions rt' = rt_positions rt \<and> rt_risk_states rt' = rt_risk_states rt))"
          by (rule post_mono [OF IH]) (use quiet True in auto)
        then show ?thesis using True by simp
      qed (use ok in simp)
    qed
  qed
qed simp

definition all_attempted :: "MarketId \<Rightarrow> PositionRiskKey set \<Rightarrow> EngineRuntime \<Rightarrow> bool" where
  "all_attempted m attempted rt \<longleftrightarrow> (\<forall>key risk. sm_find (rt_risk_states rt) key = Some risk \<longrightarrow>
     rk_market_id key = m \<longrightarrow> rs_status risk = ''LIQUIDATABLE'' \<longrightarrow> key \<in> attempted)"

lemma candidates_complete:
  assumes "risks_ok rt" "lc_key ` set (automatic_liquidation_candidates_for m (rt_positions rt) (rt_risk_states rt) attempted)
    \<subseteq> attempted'" "attempted \<subseteq> attempted'"
  shows "all_attempted m attempted' rt"
  unfolding all_attempted_def
proof (intro allI impI, rule ccontr)
  fix key risk
  assume r: "sm_find (rt_risk_states rt) key = Some risk" "rk_market_id key = m" "rs_status risk = ''LIQUIDATABLE''"
    "key \<notin> attempted'"
  have "key \<in> fst ` set (rt_positions rt)"
    using r(1) risks_okD(3) [OF assms(1)] by (metis sm_find_None_iff option.distinct(1) list.set_map)
  then obtain pos where pos: "sm_find (rt_positions rt) key = Some pos"
    using sm_find_None_iff [of "rt_positions rt" key] by (cases "sm_find (rt_positions rt) key") auto
  have m: "risk_matches pos risk" using risks_okD(5) [OF assms(1) pos r(1)] .
  then have q: "ps_signed_quantity pos \<noteq> 0" "rs_signed_quantity risk \<noteq> 0"
    using r(3) by (auto simp: risk_matches_def risk_status_for_def split: if_splits)
  have "(key, risk) \<in> set (rt_risk_states rt)"
    using r(1) risks_okD(2) [OF assms(1)] by (simp add: sm_ok_find_iff)
  then have "key \<in> lc_key ` set (collect_liquidation_candidates m (rt_positions rt) attempted (rt_risk_states rt))"
    using r assms(3) q pos by (intro collect_liquidation_complete) auto
  then show False using assms(2) r(4) by (auto simp: automatic_liquidation_candidates_for_def)
qed

lemma liquidation_sweep_covers:
  "sweep_ok sw \<Longrightarrow> risks_ok rt \<Longrightarrow> post (liquidation_sweep m source input_id sw rt) (\<lambda>(sw', rt').
     sweep_ok sw' \<and> (sw_attempts sw' \<ge> 16 \<or> all_attempted m (sw_attempted sw') rt'))"
proof (induction m source input_id sw rt rule: liquidation_sweep.induct)
  case (1 m source input_id sw rt)
  let ?cs = "automatic_liquidation_candidates_for m (rt_positions rt) (rt_risk_states rt) (sw_attempted sw)"
  note keys = candidates_keys [OF risks_okD(2) [OF "1.prems"(2)]]
  show ?case
  proof (cases "sw_attempts sw < kMaxAutomaticLiquidationAttemptsPerTrigger \<and> ?cs \<noteq> []")
    case True
    have "post (ebind (attempt_candidates source input_id ?cs sw rt) (\<lambda>(rescan, sw, rt).
        if rescan then liquidation_sweep m source input_id sw rt else Inr (sw, rt)))
      (\<lambda>(sw', rt'). sweep_ok sw' \<and> (sw_attempts sw' \<ge> 16 \<or> all_attempted m (sw_attempted sw') rt'))"
    proof (cases "attempt_candidates source input_id ?cs sw rt")
      case (Inr p)
      obtain rescan sw1 rt1 where p: "p = (rescan, sw1, rt1)" by (cases p)
      have c: "sweep_ok sw1 \<and> (\<not> rescan \<longrightarrow> sw_attempts sw1 \<ge> 16 \<or> sw_attempted sw \<union> lc_key ` set ?cs \<subseteq> sw_attempted sw1 \<and>
        rt_positions rt1 = rt_positions rt \<and> rt_risk_states rt1 = rt_risk_states rt)"
        using attempt_candidates_covers [OF keys "1.prems"(1), where source = source and input_id = input_id and rt = rt,
            of m "rt_positions rt"] by (simp add: Inr p)
      have ok: "risks_ok rt1"
        using risks.attempt_candidates_evolves [of source input_id ?cs sw rt] Inr p "1.prems"(2)
        by (auto simp: risks.evolves_def keeps_risks_def)
      show ?thesis
      proof (cases rescan)
        case True
        then show ?thesis
          using "1.IH" [of ?cs p rescan] \<open>sw_attempts sw < _ \<and> _\<close> Inr p c ok by auto
      next
        case False
        have "all_attempted m (sw_attempted sw1) rt1" if "\<not> sw_attempts sw1 \<ge> 16"
          using c False that by (intro candidates_complete [OF ok, of m "sw_attempted sw"]) auto
        then show ?thesis using c False Inr p by auto
      qed
    qed simp
    then show ?thesis using True by (subst liquidation_sweep.simps) (simp add: Let_def)
  next
    case False
    have "all_attempted m (sw_attempted sw) rt" if "?cs = []"
      using that by (intro candidates_complete [OF "1.prems"(2), of m "sw_attempted sw"]) auto
    then show ?thesis
      using False "1.prems" by (subst liquidation_sweep.simps)
        (auto simp: Let_def kMaxAutomaticLiquidationAttemptsPerTrigger_def)
  qed
qed

lemma liquidation_sweep_bound:
  "liquidation_sweep m source input_id sw rt = Inr (sw', rt') \<Longrightarrow>
   sw_attempts sw' \<le> max (sw_attempts sw) kMaxAutomaticLiquidationAttemptsPerTrigger"
proof (induction m source input_id sw rt rule: liquidation_sweep.induct)
  case (1 m source input_id sw rt)
  let ?cs = "automatic_liquidation_candidates_for m (rt_positions rt) (rt_risk_states rt) (sw_attempted sw)"
  show ?case
  proof (cases "sw_attempts sw < kMaxAutomaticLiquidationAttemptsPerTrigger \<and> ?cs \<noteq> []")
    case True
    then obtain rescan sw1 rt1 where a: "attempt_candidates source input_id ?cs sw rt = Inr (rescan, sw1, rt1)"
      "(if rescan then liquidation_sweep m source input_id sw1 rt1 else Inr (sw1, rt1)) = Inr (sw', rt')"
      using "1.prems" by (subst (asm) liquidation_sweep.simps) (auto simp: Let_def ebind_Inr_iff)
    show ?thesis
      using "1.IH" [of ?cs "(rescan, sw1, rt1)" rescan] attempt_candidates_progress [OF a(1)] a True
      by (auto simp: max_def split: if_splits)
  next
    case False
    then show ?thesis
      using "1.prems" by (subst (asm) liquidation_sweep.simps) (auto simp: Let_def le_max_iff_disj split: if_splits)
  qed
qed

text \<open>
  C16: a sweep of automatic liquidations of a market makes at most 16 attempts, each on another account.  If it
  made fewer, every account of the market that is liquidatable when it ends was attempted: an attempt may fail
  and leave the account as it is, but no account was passed over.  After 16 attempts the sweep stops, and
  liquidatable accounts may be left for the next trigger.
\<close>

theorem liquidation_sweep_attempts:
  assumes "risks_ok rt" "liquidation_sweep m source input_id empty_sweep rt = Inr (sw, rt')"
  shows "0 \<le> sw_attempts sw \<and> sw_attempts sw \<le> 16 \<and> card (sw_attempted sw) = nat (sw_attempts sw) \<and>
    (sw_attempts sw < 16 \<longrightarrow> (\<forall>key risk. sm_find (rt_risk_states rt') key = Some risk \<longrightarrow>
       rk_market_id key = m \<longrightarrow> rs_status risk = ''LIQUIDATABLE'' \<longrightarrow> key \<in> sw_attempted sw))"
proof -
  have "sweep_ok empty_sweep" by (simp add: sweep_ok_def empty_sweep_def)
  from post_elim [OF liquidation_sweep_covers [OF this assms(1)] assms(2)]
  have "sweep_ok sw" "sw_attempts sw \<ge> 16 \<or> all_attempted m (sw_attempted sw) rt'" by auto
  moreover have "sw_attempts sw \<le> 16"
    using liquidation_sweep_bound [OF assms(2)] by (simp add: empty_sweep_def kMaxAutomaticLiquidationAttemptsPerTrigger_def)
  ultimately show ?thesis by (auto simp: sweep_ok_def all_attempted_def)
qed

theorem liquidation_sweep_attempts_witness:
  "\<exists>sw rt'. liquidation_sweep 1 demo_tick None empty_sweep demo_lonely = Inr (sw, rt') \<and> sw_attempts sw = 1 \<and>
     (\<forall>key risk. sm_find (rt_risk_states rt') key = Some risk \<longrightarrow>
       rk_market_id key = 1 \<longrightarrow> rs_status risk = ''LIQUIDATABLE'' \<longrightarrow> key \<in> sw_attempted sw)"
proof -
  obtain sw rt' where run: "liquidation_sweep 1 demo_tick None empty_sweep demo_lonely = Inr (sw, rt')" "sw_attempts sw = 1"
    using demo_sweep by blast
  from liquidation_sweep_attempts [OF demo_lonely_risks_ok run(1)] show ?thesis using run by (auto 0 4)
qed

end
