(* ===== verification/AccountProperties.thy ===== *)
theory AccountProperties
  imports Demo
begin

text \<open>
  Properties of the accounts: what fills do to reserved margin, positions and profit
  (\<^verbatim>\<open>EngineEventTranslator.cpp\<close>), the reduce-only check of the runtime, and the balance of the
  positions of a market.
\<close>

section \<open>Fills\<close>

text \<open>
  C12: the fills of an order use up its reserved margin exactly: each takes a share that is not
  negative and is the share its settlement record announced, the shares and what is still reserved
  always add up to what was reserved before, and when the order is completely filled nothing stays
  reserved.
\<close>

theorem reserved_margin_used_exactly:
  assumes "reservation_ok md" "\<forall>(f, p) \<in> set fs. 0 < f" "sum_list (map fst fs) \<le> om_remaining_quantity md"
    "allocate_fills md fs = (shares, md')"
  shows "(\<forall>a \<in> set shares. 0 \<le> a) \<and>
    sum_list shares + om_remaining_reserved_margin md' = om_remaining_reserved_margin md \<and>
    om_remaining_quantity md' = om_remaining_quantity md - sum_list (map fst fs) \<and>
    (fs \<noteq> [] \<and> sum_list (map fst fs) = om_remaining_quantity md \<longrightarrow> om_remaining_reserved_margin md' = 0) \<and>
    (fs \<noteq> [] \<longrightarrow> hd shares = preview_fill_margin md (fst (hd fs)) (snd (hd fs)))"
proof -
  have "hd shares = preview_fill_margin md (fst (hd fs)) (snd (hd fs))" if ne: "fs \<noteq> []"
  proof -
    obtain f p gs where fs: "fs = (f, p) # gs" using ne by (cases fs) auto
    obtain a md1 where a: "allocate_fill_margin md f p = (a, md1)" by (cases "allocate_fill_margin md f p")
    have "0 \<le> sum_list (map fst gs)" using assms(2) fs by (intro sum_list_nonneg) auto
    then have "f \<le> om_remaining_quantity md" "0 < f" using assms(2,3) fs by auto
    then have "preview_fill_margin md f p = a" using allocate_fill_margin_ok [OF assms(1) _ _ a] by blast
    moreover have "shares = a # fst (allocate_fills md1 gs)"
      using assms(4) by (simp add: fs a Let_def split_beta)
    ultimately show ?thesis by (simp add: fs)
  qed
  then show ?thesis using allocate_fills_ok [OF assms] by blast
qed

theorem reserved_margin_used_exactly_witness:
  "case allocate_fills (demo_metadata 1 7 Long) [(4, 100), (6, 101)] of (shares, md') \<Rightarrow>
     sum_list shares = 501 \<and> om_remaining_reserved_margin md' = 0"
proof -
  obtain shares md' where run: "allocate_fills (demo_metadata 1 7 Long) [(4, 100), (6, 101)] = (shares, md')"
    by (cases "allocate_fills (demo_metadata 1 7 Long) [(4, 100), (6, 101)]")
  have "reservation_ok (demo_metadata 1 7 Long)" by (simp add: reservation_ok_def demo_metadata_def)
  from reserved_margin_used_exactly [OF this _ _ run] show ?thesis
    using run by (simp add: demo_metadata_def)
qed

text \<open>
  C17: a fill creates and loses no profit: valued at any mark price, the realized profit it books plus
  the unrealized profit of the position after it is the unrealized profit before plus what the filled
  quantity gained; only when a fill enlarges a position does the rounding of the average entry price
  leave a difference, smaller than one price unit per lot.
\<close>

theorem fill_profit_conserved:
  assumes "fill_in_range pos f p mark"
  shows "if ps_signed_quantity pos \<noteq> 0 \<and> same_direction (ps_signed_quantity pos) f
    then abs (fill_profit_gap pos md f p fill_margin mark) < abs (ps_signed_quantity pos + f)
    else fill_profit_gap pos md f p fill_margin mark = 0"
  using assms by (rule fill_profit)

theorem fill_profit_conserved_witness:
  "fill_profit_gap (demo_position 7 10 500) (demo_metadata 1 7 Short) (- 4) 120 0 110 = 0"
proof -
  have "fill_in_range (demo_position 7 10 500) (- 4) 120 110" "ps_signed_quantity (demo_position 7 10 500) = 10"
    by (simp_all add: fill_in_range_def demo_position_def)
  from fill_profit_conserved [OF this(1)] this(2) show ?thesis by (simp add: same_direction_def)
qed

section \<open>Reduce-only orders\<close>

text \<open>
  C18: a reduce-only order passes the check exactly when the user has an open position on the other
  side, its quantity is capped at the size of that position, and no fill within the cap can enlarge,
  flip or open a position.
\<close>

theorem reduce_only_never_enlarges:
  assumes inp: "pi_reduce_only inp" "0 < pi_quantity inp"
    and check: "check_reduce_only_order inp positions = check"
    and bound: "\<forall>key pos. sm_find positions key = Some pos \<longrightarrow> abs (ps_signed_quantity pos) < 2 ^ 63"
  shows "if ro_allowed check
    then \<exists>pos. sm_find positions (PositionRiskKey (ce_user_id (pi_envelope inp)) (pi_market_id inp)) = Some pos \<and>
      0 < ro_capped_quantity check \<and> ro_capped_quantity check \<le> pi_quantity inp \<and>
      (\<forall>md f p margin now. om_side md = pi_side inp \<longrightarrow> 0 < f \<longrightarrow> f \<le> ro_capped_quantity check \<longrightarrow>
        (let q = ps_signed_quantity (apply_position_fill pos md (signed_fill_quantity md f) p margin now)
         in abs q = abs (ps_signed_quantity pos) - f \<and> (q = 0 \<or> same_direction (ps_signed_quantity pos) q)))
    else \<forall>pos. sm_find positions (PositionRiskKey (ce_user_id (pi_envelope inp)) (pi_market_id inp)) = Some pos \<longrightarrow>
      (if pi_side inp = Long then 0 \<le> ps_signed_quantity pos else ps_signed_quantity pos \<le> 0)"
proof (cases "ro_allowed check")
  case True
  let ?key = "PositionRiskKey (ce_user_id (pi_envelope inp)) (pi_market_id inp)"
  obtain pos where pos: "sm_find positions ?key = Some pos" "ps_signed_quantity pos \<noteq> 0"
      "side_reduces_position (pi_side inp) (ps_signed_quantity pos)"
      "ro_capped_quantity check = min (pi_quantity inp) (abs_quantity (ps_signed_quantity pos))"
    using check True inp by (auto simp: check_reduce_only_order_def split: option.splits if_splits)
  let ?q = "ps_signed_quantity pos"
  have q: "abs ?q < 2 ^ 63" using bound pos(1) by blast
  have cap: "ro_capped_quantity check = min (pi_quantity inp) (abs ?q)" using pos(4) abs_quantity_abs [OF q] by simp
  have fill: "abs q = abs ?q - f \<and> (q = 0 \<or> same_direction ?q q)"
    if "om_side md = pi_side inp" "0 < f" "f \<le> ro_capped_quantity check"
      "q = ps_signed_quantity (apply_position_fill pos md (signed_fill_quantity md f) p margin now)" for md f p margin now q
  proof -
    have f: "f \<le> abs ?q" using that(3) cap by simp
    have s: "signed_fill_quantity md f = (if ?q < 0 then f else - f)"
      using that(1) pos(2,3) f that(2) q by (cases "pi_side inp")
        (auto simp: signed_fill_quantity_def side_reduces_position_def intro!: i64_small)
    have "q = i64 (?q + signed_fill_quantity md f)"
      unfolding that(4) by (simp add: apply_position_fill_def Let_def split: prod.split)
    also have "\<dots> = ?q + signed_fill_quantity md f" using q f that(2) s by (intro i64_small) auto
    finally show ?thesis using s f that(2) pos(2) by (auto simp: same_direction_def)
  qed
  have "0 < ro_capped_quantity check" "ro_capped_quantity check \<le> pi_quantity inp" using cap inp pos(2) by auto
  then show ?thesis using True pos(1) fill by (auto simp: Let_def)
next
  case False
  then show ?thesis
    using check inp
    by (cases "pi_side inp")
      (auto simp: check_reduce_only_order_def side_reduces_position_def split: option.splits if_splits)
qed

theorem reduce_only_never_enlarges_witness:
  "ro_capped_quantity (check_reduce_only_order demo_reduce_only (rt_positions (demo_runtime 500 500))) \<le> 25"
proof -
  let ?ps = "rt_positions (demo_runtime 500 500)"
  have bound: "\<forall>key pos. sm_find ?ps key = Some pos \<longrightarrow> abs (ps_signed_quantity pos) < 2 ^ 63"
    by (auto simp: demo_runtime_def Let_def sm_find_def demo_position_def split: if_splits)
  have in_ok: "pi_reduce_only demo_reduce_only" "0 < pi_quantity demo_reduce_only" by (simp_all add: demo_reduce_only_def)
  have "ro_allowed (check_reduce_only_order demo_reduce_only ?ps)"
    by (simp add: check_reduce_only_order_def demo_reduce_only_def demo_runtime_def Let_def sm_find_def
      demo_position_def side_reduces_position_def)
  then show ?thesis
    using reduce_only_never_enlarges [OF in_ok refl bound] by (auto simp: demo_reduce_only_def)
qed

section \<open>Positions of a market sum to zero\<close>

definition net_position :: "MarketId \<Rightarrow> IsolatedPositionMap \<Rightarrow> int" where
  "net_position m ps = sum_list (map (\<lambda>(key, pos). if rk_market_id key = m then ps_signed_quantity pos else 0) ps)"

definition position_at :: "IsolatedPositionMap \<Rightarrow> PositionRiskKey \<Rightarrow> IsolatedPositionState" where
  "position_at ps key = (case sm_find ps key of Some p \<Rightarrow> p | None \<Rightarrow> empty_position)"

lemma net_position_assign:
  "sm_ok ps \<Longrightarrow> net_position m (sm_assign key pos ps) = net_position m ps +
     (if rk_market_id key = m then ps_signed_quantity pos - ps_signed_quantity (position_at ps key) else 0)"
proof (induction key pos ps rule: sm_assign.induct)
  case (1 k v)
  then show ?case by (simp add: net_position_def position_at_def container_simps empty_position_def)
next
  case (2 k v e m)
  have ok: "sm_ok m" using 2(2) by (simp add: sm_ok_def)
  have "sm_find (e # m) k = (if fst e = k then Some (snd e) else sm_find m k)" by (simp add: sm_find_def)
  moreover have "sm_find m k = None" if "\<not> fst e < k" "fst e \<noteq> k"
    using 2(2) that by (force simp: sm_ok_def sm_find_def map_of_eq_None_iff)
  ultimately show ?case
    using 2(1) ok by (cases e) (auto simp: net_position_def position_at_def empty_position_def)
qed

lemma position_at_assign: "position_at (sm_assign k p ps) k' = (if k' = k then p else position_at ps k')"
  by (simp add: position_at_def sm_find_assign)

text \<open>What one side of a trade does to the positions.\<close>

lemma emit_positions [simp]:
  "emit mk tr = Inr tr' \<Longrightarrow> tr_positions tr' = tr_positions tr \<and> tr_context tr' = tr_context tr \<and>
     tr_metadata_store tr' = tr_metadata_store tr"
  by (auto simp: emit_def ebind_Inr_iff catch_def split: sum.splits)

lemma allocate_keeps:
  "allocate_fill_margin md f p = (a, md') \<Longrightarrow> om_user_id md' = om_user_id md \<and> om_market_id md' = om_market_id md \<and>
     om_side md' = om_side md \<and> om_order_id md' = om_order_id md"
  by (auto simp: allocate_fill_margin_def Let_def)

lemma write_metadata_other:
  assumes "write_metadata oid md ctx st = (ctx', st')" "om_order_id md = oid" "oid' \<noteq> oid"
  shows "find_metadata oid' ctx' st' = find_metadata oid' ctx st"
  using assms
  by (auto simp: write_metadata_def find_metadata_def metadata_find_def um_find_assign split: option.splits if_splits)

lemma fill_positions:
  assumes "apply_fill_to_account clock mps trade now oid tr = Inr tr'"
    "find_metadata oid (tr_context tr) (tr_metadata_store tr) = Some md" "om_order_id md = oid"
  shows "\<exists>pos. tr_positions tr' = sm_assign (PositionRiskKey (om_user_id md) (om_market_id md)) pos (tr_positions tr) \<and>
      ps_signed_quantity pos = i64 (ps_signed_quantity (position_at (tr_positions tr)
        (PositionRiskKey (om_user_id md) (om_market_id md))) +
        signed_fill_quantity md (i64_of_u64 (tx_quantity trade))) \<and>
      (\<forall>oid'. oid' \<noteq> oid \<longrightarrow> find_metadata oid' (tr_context tr') (tr_metadata_store tr') =
        find_metadata oid' (tr_context tr) (tr_metadata_store tr))"
proof -
  let ?f = "i64_of_u64 (tx_quantity trade)"
  obtain margin md' where md': "allocate_fill_margin md ?f (tx_price trade) = (margin, md')"
    by (cases "allocate_fill_margin md ?f (tx_price trade)")
  note k = allocate_keeps [OF md']
  obtain ctx st where w: "write_metadata oid md' (tr_context tr) (tr_metadata_store tr) = (ctx, st)"
    by (cases "write_metadata oid md' (tr_context tr) (tr_metadata_store tr)")
  let ?key = "PositionRiskKey (om_user_id md) (om_market_id md)"
  let ?pos = "apply_position_fill (position_at (tr_positions tr) ?key) md' (signed_fill_quantity md ?f)
    (tx_price trade) margin now"
  have "tr_positions tr' = sm_assign ?key ?pos (tr_positions tr) \<and> tr_context tr' = ctx \<and> tr_metadata_store tr' = st"
    using assms(1) unfolding apply_fill_to_account_def Let_def assms(2) option.case md' w prod.case
    by (auto simp: ebind_Inr_iff k position_at_def split: if_splits dest!: emit_positions)
  moreover have "ps_signed_quantity ?pos = i64 (ps_signed_quantity (position_at (tr_positions tr) ?key) +
      signed_fill_quantity md ?f)"
    by (simp add: apply_position_fill_def Let_def split: prod.split)
  ultimately show ?thesis
    using write_metadata_other [OF w] k assms(3) by blast
qed

lemma emit_works:
  "(\<And>context em. \<exists>x em'. mk context em = Inr (x, em')) \<Longrightarrow>
   \<exists>x em'. emit mk tr = Inr (tr\<lparr>tr_result := push_event x (tr_result tr), tr_emitter := em'\<rparr>)"
proof -
  assume "\<And>context em. \<exists>x em'. mk context em = Inr (x, em')"
  then obtain x em' where "mk (tr_context tr) (tr_emitter tr) = Inr (x, em')" by blast
  then show ?thesis by (auto simp: emit_def)
qed

lemma make_event_works: "0 < m \<Longrightarrow> \<exists>x em'. make_event clock type m context em pf = Inr (x, em')"
  by (simp add: make_event_def add_engine_fields_def market_next_def Let_def split_beta)

lemma fill_position_market [simp]: "ps_market_id (apply_position_fill pos md f p margin now) = om_market_id md"
  by (simp add: apply_position_fill_def Let_def split: prod.split)

lemma fill_makers_work:
  assumes "0 < om_market_id md"
  shows "\<exists>x em'. make_account_delta_event clock md pos trade effect context em = Inr (x, em')"
    "\<exists>x em'. make_position_changed_event clock (apply_position_fill pos md f p margin now) q pr pnl mark context em = Inr (x, em')"
    "\<exists>x em'. make_risk_state_updated_event clock (risk_from_position (apply_position_fill pos md f p margin now) mark t) context em = Inr (x, em')"
  using assms
  by (simp_all add: make_account_delta_event_def make_position_changed_event_def make_risk_state_updated_event_def
      risk_from_position_def make_event_works Let_def)

lemma apply_fill_works:
  assumes "find_metadata oid (tr_context tr) (tr_metadata_store tr) = Some md" "0 < om_market_id md"
  shows "\<exists>tr'. apply_fill_to_account clock mps trade now oid tr = Inr tr'"
proof -
  obtain margin md' where md': "allocate_fill_margin md (i64_of_u64 (tx_quantity trade)) (tx_price trade) = (margin, md')"
    by (cases "allocate_fill_margin md (i64_of_u64 (tx_quantity trade)) (tx_price trade)")
  have m: "0 < om_market_id md'" using allocate_keeps [OF md'] assms(2) by simp
  have e: "\<exists>tr'. emit (make_account_delta_event clock md' p trade ef) tr = Inr tr'"
    "\<exists>tr'. emit (make_position_changed_event clock (apply_position_fill pos md' f p' margin' now') q pr pnl mark) tr = Inr tr'"
    "\<exists>tr'. emit (make_risk_state_updated_event clock (risk_from_position (apply_position_fill pos md' f p' margin' now') mark t)) tr = Inr tr'"
    for p ef pos f p' margin' now' q pr pnl mark t tr
    using emit_works fill_makers_work [OF m] by meson+
  obtain ctx st where w: "write_metadata oid md' (tr_context tr) (tr_metadata_store tr) = (ctx, st)"
    by (cases "write_metadata oid md' (tr_context tr) (tr_metadata_store tr)")
  show ?thesis
    unfolding apply_fill_to_account_def Let_def assms(1) option.case md' w prod.case
    by (split if_split) (metis (no_types, lifting) e ebind_simps)
qed

text \<open>
  C11: a trade keeps the positions of its market in balance: the sum of the signed quantities of all
  accounts, deleveraged and liquidated ones included, is the same before and after, also when both
  orders belong to the same account.
\<close>

theorem trade_keeps_net_position:
  assumes run: "append_position_and_risk_updates clock mps trade tr = Inr tr'"
    and maker: "find_metadata (tx_makerOrderId trade) (tr_context tr) (tr_metadata_store tr) = Some maker"
      "om_order_id maker = tx_makerOrderId trade"
    and taker: "find_metadata (tx_takerOrderId trade) (tr_context tr) (tr_metadata_store tr) = Some taker"
      "om_order_id taker = tx_takerOrderId trade"
    and sides: "tx_makerOrderId trade \<noteq> tx_takerOrderId trade" "om_side maker \<noteq> om_side taker"
      "om_market_id maker = om_market_id taker"
    and ok: "sm_ok (tr_positions tr)" "uint (tx_quantity trade) < 2 ^ 60"
      "\<forall>key. abs (ps_signed_quantity (position_at (tr_positions tr) key)) < 2 ^ 61"
  shows "net_position m (tr_positions tr') = net_position m (tr_positions tr)"
proof -
  let ?f = "i64_of_u64 (tx_quantity trade)"
  have f: "?f = uint (tx_quantity trade)" "0 \<le> ?f" "?f < 2 ^ 60" using ok(2) by (simp_all add: i64_of_u64_small)
  obtain now em where c: "read_clock clock (tr_emitter tr) = (now, em)"
    by (cases "read_clock clock (tr_emitter tr)")
  let ?tr = "tr\<lparr>tr_emitter := em\<rparr>"
  obtain tr1 where run1: "apply_fill_to_account clock mps trade now (tx_makerOrderId trade) ?tr = Inr tr1"
    and run2: "apply_fill_to_account clock mps trade now (tx_takerOrderId trade) tr1 = Inr tr'"
    using run unfolding append_position_and_risk_updates_def c Let_def prod.case by (auto simp: ebind_Inr_iff)
  obtain p1 where p1: "tr_positions tr1 = sm_assign (PositionRiskKey (om_user_id maker) (om_market_id maker)) p1 (tr_positions tr)"
    "ps_signed_quantity p1 = i64 (ps_signed_quantity (position_at (tr_positions tr)
        (PositionRiskKey (om_user_id maker) (om_market_id maker))) + signed_fill_quantity maker ?f)"
    "find_metadata (tx_takerOrderId trade) (tr_context tr1) (tr_metadata_store tr1) = Some taker"
    using fill_positions [OF run1, of maker] maker taker sides(1) by auto
  obtain p2 where p2: "tr_positions tr' = sm_assign (PositionRiskKey (om_user_id taker) (om_market_id taker)) p2 (tr_positions tr1)"
    "ps_signed_quantity p2 = i64 (ps_signed_quantity (position_at (tr_positions tr1)
        (PositionRiskKey (om_user_id taker) (om_market_id taker))) + signed_fill_quantity taker ?f)"
    using fill_positions [OF run2 p1(3) taker(2)] by auto
  let ?k1 = "PositionRiskKey (om_user_id maker) (om_market_id maker)"
  let ?k2 = "PositionRiskKey (om_user_id taker) (om_market_id taker)"
  have s: "signed_fill_quantity maker ?f = - signed_fill_quantity taker ?f" "abs (signed_fill_quantity taker ?f) < 2 ^ 60"
    using sides(2) f(2,3) by (cases "om_side maker"; cases "om_side taker"; simp add: signed_fill_quantity_def i64_small)+
  have q1: "ps_signed_quantity p1 = ps_signed_quantity (position_at (tr_positions tr) ?k1) + signed_fill_quantity maker ?f"
    unfolding p1(2) using ok(3) [rule_format, of ?k1] s by (intro i64_small) simp
  have b1: "abs (ps_signed_quantity (position_at (tr_positions tr1) ?k2)) < 2 ^ 62"
    using ok(3) [rule_format, of ?k1] ok(3) [rule_format, of ?k2] s q1 unfolding p1(1) position_at_assign
    by (cases "?k2 = ?k1") (simp_all add: abs_if split: if_splits)
  have q2: "ps_signed_quantity p2 = ps_signed_quantity (position_at (tr_positions tr1) ?k2) + signed_fill_quantity taker ?f"
    unfolding p2(2) using b1 s(2) by (intro i64_small) simp
  show ?thesis
    unfolding p2(1) p1(1) using ok(1) s(1) q1 q2 sides(3) p1(1)
    by (simp add: net_position_assign sm_ok_assign)
qed

theorem trade_keeps_net_position_witness:
  "\<exists>tr'. append_position_and_risk_updates None [] demo_trade demo_translation = Inr tr' \<and>
     net_position 1 (tr_positions tr') = 5"
proof -
  let ?tr = "demo_translation"
  have c: "read_clock None (tr_emitter ?tr) = (0, tr_emitter ?tr)" by (simp add: read_clock_def)
  have oids: "tx_makerOrderId demo_trade = 1" "tx_takerOrderId demo_trade = 2" "tx_quantity demo_trade = 3"
    by (simp_all add: demo_trade_def)
  have md: "find_metadata 1 (tr_context ?tr) (tr_metadata_store ?tr) = Some (demo_metadata 1 7 Long)"
    "find_metadata 2 (tr_context ?tr) (tr_metadata_store ?tr) = Some (demo_metadata 2 8 Short)"
    by (simp_all add: demo_translation_def demo_context_def find_metadata_def metadata_find_def um_find_def demo_metadata_def)
  have k: "om_order_id (demo_metadata oid u side) = oid" "om_side (demo_metadata oid u side) = side"
    "om_market_id (demo_metadata oid u side) = 1" for oid u side by (simp_all add: demo_metadata_def)
  have ps: "tr_positions ?tr = [(PositionRiskKey 7 1, demo_position 7 5 500)]" by (simp add: demo_translation_def)
  have b: "sm_ok (tr_positions ?tr)" "\<forall>key. abs (ps_signed_quantity (position_at (tr_positions ?tr) key)) < 2 ^ 61"
    "net_position 1 (tr_positions ?tr) = 5"
    unfolding ps by (simp_all add: position_at_def sm_find_def demo_position_def empty_position_def net_position_def sm_ok_def)
  obtain tr1 where 1: "apply_fill_to_account None [] demo_trade 0 1 ?tr = Inr tr1"
    using apply_fill_works [OF md(1)] k by (metis zero_less_one)
  have "find_metadata 2 (tr_context tr1) (tr_metadata_store tr1) = Some (demo_metadata 2 8 Short)"
    using fill_positions [OF 1 md(1) k(1)] md(2) by auto
  from apply_fill_works [OF this] k(3) obtain tr' where 2: "apply_fill_to_account None [] demo_trade 0 2 tr1 = Inr tr'"
    by (metis zero_less_one)
  have run: "append_position_and_risk_updates None [] demo_trade ?tr = Inr tr'"
    unfolding append_position_and_risk_updates_def c oids Let_def prod.case using 1 2 by (simp add: c)
  have "net_position 1 (tr_positions tr') = net_position 1 (tr_positions ?tr)"
    by (rule trade_keeps_net_position [OF run, of "demo_metadata 1 7 Long" "demo_metadata 2 8 Short"])
      (use md k b oids in simp_all)
  then show ?thesis using run b(3) by simp
qed

end
