(* ===== verification/Outbox.thy ===== *)
theory Outbox
  imports RuntimeProcess
begin

text \<open>
  The outbox (\<^verbatim>\<open>src/src/runtime/EngineOutbox.cpp\<close>): it serializes the replies and events of a processed
  record and hands them to a publisher one by one.  The publisher is an interface whose
  implementation is not part of the engine: a function on the state of the outside world, which
  answers with no error, with an error text, or throws.
\<close>

section \<open>Calls into the outside world\<close>

text \<open>What such a call returns, an exception being \<open>Inl\<close>, and the world after it.\<close>

type_synonym ('a, 'w) effect = "'w \<Rightarrow> (string + 'a) \<times> 'w"

type_synonym 'w IEnginePublisher = "EngineOutputRecord \<Rightarrow> string \<Rightarrow> (string option, 'w) effect"

section \<open>Publishing\<close>

record EnginePublishFailure =
  pf_topic :: string
  pf_key :: string
  pf_partition :: "int32 option"
  pf_type :: string
  pf_error :: string

record EnginePublishResult =
  pb_attempted :: nat
  pb_published :: nat
  pb_failures :: "EnginePublishFailure list"

definition empty_publish_result :: EnginePublishResult where
  "empty_publish_result = \<lparr>pb_attempted = 0, pb_published = 0, pb_failures = []\<rparr>"

definition publish_ok :: "EnginePublishResult \<Rightarrow> bool" where
  "publish_ok result \<longleftrightarrow> pb_failures result = []"

definition publish_failure :: "EngineOutputRecord \<Rightarrow> string \<Rightarrow> EnginePublishFailure" where
  "publish_failure r error = \<lparr>pf_topic = eo_topic r, pf_key = eo_key r, pf_partition = eo_partition r,
     pf_type = eo_type r, pf_error = error\<rparr>"

fun publish_records :: "'w IEnginePublisher \<Rightarrow> EngineOutputRecord list \<Rightarrow> EnginePublishResult \<Rightarrow>
    (EnginePublishResult, 'w) effect" where
  "publish_records publisher [] result w = (Inr result, w)"
| "publish_records publisher (r # rs) result w =
     (let result = result\<lparr>pb_attempted := pb_attempted result + 1\<rparr>;
          (answer, w) = publisher r (serialize_engine_output_record r) w in
      case answer of
        Inl e \<Rightarrow> (Inl e, w)
      | Inr (Some error) \<Rightarrow> publish_records publisher rs
          (result\<lparr>pb_failures := pb_failures result @ [publish_failure r error]\<rparr>) w
      | Inr None \<Rightarrow> publish_records publisher rs (result\<lparr>pb_published := pb_published result + 1\<rparr>) w)"

definition outbox_publish :: "'w IEnginePublisher \<Rightarrow> EngineProcessResult \<Rightarrow> (EnginePublishResult, 'w) effect" where
  "outbox_publish publisher process_result w =
     (if pr_status process_result = StatusDuplicate \<or> pr_status process_result = StatusRejected \<or>
         result_empty process_result
      then (Inr empty_publish_result, w)
      else (case publish_records publisher (pr_replies process_result) empty_publish_result w of
          (Inl e, w) \<Rightarrow> (Inl e, w)
        | (Inr result, w) \<Rightarrow> publish_records publisher (pr_events process_result) result w))"

section \<open>What is published\<close>

text \<open>The records the outbox hands on: none for duplicates and rejected inputs.\<close>

definition published_records :: "EngineProcessResult \<Rightarrow> EngineOutputRecord list" where
  "published_records process_result =
     (if pr_status process_result = StatusDuplicate \<or> pr_status process_result = StatusRejected then []
      else pr_replies process_result @ pr_events process_result)"

lemma publish_records_append:
  "publish_records publisher (rs @ ss) result w =
     (case publish_records publisher rs result w of
        (Inl e, w) \<Rightarrow> (Inl e, w) | (Inr result, w) \<Rightarrow> publish_records publisher ss result w)"
  by (induction publisher rs result w rule: publish_records.induct)
    (auto simp: Let_def split: prod.split sum.split option.split)

lemma outbox_publish_eq:
  "outbox_publish publisher pr w = publish_records publisher (published_records pr) empty_publish_result w"
  by (auto simp: outbox_publish_def published_records_def result_empty_def publish_records_append)

lemma publish_records_counts:
  "publish_records publisher rs result w = (Inr result', w') \<Longrightarrow>
     pb_attempted result' = pb_attempted result + length rs \<and>
     pb_published result' + length (pb_failures result') = pb_published result + length (pb_failures result) + length rs"
  by (induction publisher rs result w rule: publish_records.induct)
    (auto simp: Let_def split: prod.splits sum.splits option.splits)

end
