(* ===== verification/BrokerApp.thy ===== *)
theory BrokerApp
  imports Outbox
begin

text \<open>
  The application around the runtime (\<^verbatim>\<open>src/src/broker/RedpandaEngineApp.cpp\<close>): it consumes an input
  record, processes it, publishes the outputs, runs the hook that saves a checkpoint, and commits
  the offset.  Consumer, producer, committer and hook are interfaces; a record of functions on the
  state of the outside world stands for them.
\<close>

section \<open>Records and interfaces\<close>

record ConsumedRecord =
  cr_topic :: string
  cr_partition :: int32
  cr_offset :: int64
  cr_key :: "string option"
  cr_value :: string

record ProducedRecord =
  pd_topic :: string
  pd_key :: string
  pd_partition :: "int32 option"
  pd_value :: string

record OffsetCommitRequest =
  oc_topic :: string
  oc_partition :: int32
  oc_offset :: int64

record BrokerWatermarkOffsets =
  wm_low :: int64
  wm_high :: int64

record BrokerWatermarkResult =
  wr_offsets :: "BrokerWatermarkOffsets option"
  wr_error :: "string option"

definition watermark_ok :: "BrokerWatermarkResult \<Rightarrow> bool" where
  "watermark_ok r \<longleftrightarrow> wr_offsets r \<noteq> None \<and> wr_error r = None"

definition invalid_watermark :: "BrokerWatermarkOffsets \<Rightarrow> bool" where
  "invalid_watermark w \<longleftrightarrow> wm_low w < 0 \<or> wm_high w < 0 \<or> wm_low w > wm_high w"

definition source_text :: "string \<Rightarrow> int32 \<Rightarrow> string" where
  "source_text topic part = topic @ ''['' @ to_string part @ '']''"

definition invalid_watermark_text :: "string \<Rightarrow> int32 \<Rightarrow> BrokerWatermarkOffsets \<Rightarrow> string" where
  "invalid_watermark_text topic part w = ''invalid broker watermark for '' @ source_text topic part @
     '': low='' @ to_string (wm_low w) @ '', high='' @ to_string (wm_high w)"

definition validate_seek_offset :: "string \<Rightarrow> int32 \<Rightarrow> int64 \<Rightarrow> BrokerWatermarkOffsets \<Rightarrow> string option" where
  "validate_seek_offset topic part offset w =
     (if topic = [] then Some ''topic must not be empty''
      else if part < 0 then Some ''partition must not be negative''
      else if offset < 0 then Some ''offset must not be negative''
      else if invalid_watermark w then Some (invalid_watermark_text topic part w)
      else if offset < wm_low w
      then Some (''seek offset '' @ to_string offset @ '' for '' @ source_text topic part @
        '' is below low watermark '' @ to_string (wm_low w) @
        ''; checkpoint is no longer recoverable from broker retention'')
      else if offset > wm_high w
      then Some (''seek offset '' @ to_string offset @ '' for '' @ source_text topic part @
        '' is above high watermark '' @ to_string (wm_high w) @ ''; offset is not available yet'')
      else None)"

type_synonym 'w EnginePreCommitHook = "ConsumedRecord \<Rightarrow> EngineRuntime \<Rightarrow> (string option, 'w) effect"

record 'w Broker =
  br_poll :: "(ConsumedRecord option, 'w) effect"
  br_seek :: "string \<Rightarrow> int32 \<Rightarrow> int64 \<Rightarrow> (string option, 'w) effect"
  br_get_watermark :: "string \<Rightarrow> int32 \<Rightarrow> (BrokerWatermarkResult, 'w) effect"
  br_produce :: "ProducedRecord \<Rightarrow> (string option, 'w) effect"
  br_commit :: "OffsetCommitRequest \<Rightarrow> (string option, 'w) effect"

section \<open>The application\<close>

datatype EngineBrokerAppStatus =
    NoRecord | Processed | RejectedInputTopic | RejectedInputPartition | RejectedInputMarket
  | PublishFailed | CheckpointFailed | CommitFailed | ProcessingFailed | UnsafeDuplicate

record EngineBrokerAppResult =
  ar_status :: EngineBrokerAppStatus
  ar_source :: "ConsumedRecord option"
  ar_process_status :: "EngineProcessStatus option"
  ar_trace :: "EngineTraceSummary option"
  ar_publish_result :: EnginePublishResult
  ar_committed :: bool
  ar_error :: string

definition empty_app_result :: EngineBrokerAppResult where
  "empty_app_result = \<lparr>ar_status = NoRecord, ar_source = None, ar_process_status = None, ar_trace = None,
     ar_publish_result = empty_publish_result, ar_committed = False, ar_error = []\<rparr>"

definition app_result_ok :: "EngineBrokerAppResult \<Rightarrow> bool" where
  "app_result_ok r \<longleftrightarrow> ar_status r = NoRecord \<or> ar_status r = Processed"

record EngineInputGuardConfig =
  gc_topic :: string
  gc_partition :: "int32 option"
  gc_market_ids :: "MarketId list"

text \<open>The members of the application; the world stands for what its references point to.\<close>

record 'w RedpandaEngineApp =
  app_runtime :: EngineRuntime
  app_guard_config :: EngineInputGuardConfig
  app_pre_commit_hook :: "'w EnginePreCommitHook option"
  app_committed_offsets :: "OffsetCommitRequest list"
  app_world :: 'w

definition make_app :: "EngineRuntime \<Rightarrow> EngineInputGuardConfig \<Rightarrow> 'w EnginePreCommitHook option \<Rightarrow> 'w \<Rightarrow>
    string + 'w RedpandaEngineApp" where
  "make_app rt guard hook w =
     (if gc_topic guard = [] then Inl ''engine input topic must not be empty''
      else if (case gc_partition guard of Some p \<Rightarrow> p < 0 | None \<Rightarrow> False)
      then Inl ''engine input partition must not be negative''
      else if list_ex (\<lambda>m. m \<le> 0) (gc_market_ids guard) then Inl ''engine input market ids must be positive''
      else Inr \<lparr>app_runtime = rt, app_guard_config = guard, app_pre_commit_hook = hook,
        app_committed_offsets = [], app_world = w\<rparr>)"

text \<open>The other two constructors.\<close>

definition make_app_topic :: "EngineRuntime \<Rightarrow> string \<Rightarrow> 'w EnginePreCommitHook option \<Rightarrow> 'w \<Rightarrow>
    string + 'w RedpandaEngineApp" where
  "make_app_topic rt topic hook w =
     make_app rt \<lparr>gc_topic = topic, gc_partition = None, gc_market_ids = []\<rparr> hook w"

definition make_app_default :: "EngineRuntime \<Rightarrow> 'w EnginePreCommitHook option \<Rightarrow> 'w \<Rightarrow>
    string + 'w RedpandaEngineApp" where
  "make_app_default rt hook w = make_app_topic rt EngineInputTopic hook w"

section \<open>Helpers\<close>

definition produce_request :: "EngineOutputRecord \<Rightarrow> string \<Rightarrow> ProducedRecord" where
  "produce_request r serialized_json = \<lparr>pd_topic = eo_topic r, pd_key = eo_key r,
     pd_partition = eo_partition r, pd_value = serialized_json\<rparr>"

definition producer_publisher :: "'w Broker \<Rightarrow> 'w IEnginePublisher" where
  "producer_publisher br r serialized_json = br_produce br (produce_request r serialized_json)"

definition same_offset :: "OffsetCommitRequest \<Rightarrow> OffsetCommitRequest \<Rightarrow> bool" where
  "same_offset lhs rhs \<longleftrightarrow> oc_topic lhs = oc_topic rhs \<and> oc_partition lhs = oc_partition rhs \<and>
     oc_offset lhs = oc_offset rhs"

definition source_offset :: "ConsumedRecord \<Rightarrow> OffsetCommitRequest" where
  "source_offset r = \<lparr>oc_topic = cr_topic r, oc_partition = cr_partition r, oc_offset = cr_offset r\<rparr>"

definition duplicate_source_offset :: "EngineDuplicateInfo \<Rightarrow> OffsetCommitRequest" where
  "duplicate_source_offset d = \<lparr>oc_topic = di_original_topic d, oc_partition = di_original_partition d,
     oc_offset = di_original_offset d\<rparr>"

fun market_id_for :: "ParsedEngineInput \<Rightarrow> MarketId" where
  "market_id_for (InPlaceOrder i) = pi_market_id i"
| "market_id_for (InCancelOrder i) = ci_market_id i"
| "market_id_for (InLiquidatePosition i) = li_market_id i"
| "market_id_for (InMarkPriceUpdated i) = mi_market_id i"
| "market_id_for (InFundingRateUpdated i) = fi_market_id i"
| "market_id_for (InFundingSettlementTick i) = ti_market_id i"

definition contains_market :: "MarketId list \<Rightarrow> MarketId \<Rightarrow> bool" where
  "contains_market market_ids market_id \<longleftrightarrow> market_id \<in> set market_ids"

definition duplicate_source_is_safe :: "EngineProcessResult \<Rightarrow> OffsetCommitRequest list \<Rightarrow> bool" where
  "duplicate_source_is_safe process_result committed = (case pr_duplicate process_result of
      None \<Rightarrow> False
    | Some d \<Rightarrow> list_ex (\<lambda>c. same_offset c (duplicate_source_offset d)) committed)"

definition mark_committed :: "OffsetCommitRequest \<Rightarrow> OffsetCommitRequest list \<Rightarrow> OffsetCommitRequest list" where
  "mark_committed request committed =
     (if list_ex (\<lambda>c. same_offset c request) committed then committed else committed @ [request])"

definition to_inbound_record :: "ConsumedRecord \<Rightarrow> InboundEngineRecord" where
  "to_inbound_record r = \<lparr>ir_topic = cr_topic r, ir_partition = cr_partition r, ir_offset = cr_offset r,
     ir_key = cr_key r, ir_raw_json = cr_value r\<rparr>"

section \<open>Consuming a record\<close>

text \<open>An exception that nothing catches, or undefined behaviour of the runtime.\<close>

datatype app_error = Propagated string | UndefinedBehaviour

definition failed :: "EngineBrokerAppStatus \<Rightarrow> string \<Rightarrow> EngineBrokerAppResult \<Rightarrow> EngineBrokerAppResult" where
  "failed status error result = result\<lparr>ar_status := status, ar_error := error\<rparr>"

text \<open>The checks before the runtime sees the record: the status and error text of the rejection.\<close>

definition input_guard :: "EngineInputGuardConfig \<Rightarrow> ConsumedRecord \<Rightarrow> (EngineBrokerAppStatus \<times> string) option" where
  "input_guard guard record =
     (if cr_topic record \<noteq> gc_topic guard
      then Some (RejectedInputTopic, ''expected input topic '' @ gc_topic guard @ '', received '' @ cr_topic record)
      else if (case gc_partition guard of Some p \<Rightarrow> cr_partition record \<noteq> p | None \<Rightarrow> False)
      then Some (RejectedInputPartition, ''expected input partition '' @ to_string (the (gc_partition guard)) @
        '', received '' @ to_string (cr_partition record))
      else if gc_market_ids guard = [] then None
      else case parse_engine_input (cr_value record) of
          Inl e \<Rightarrow> Some (ProcessingFailed, e)
        | Inr input \<Rightarrow>
            if contains_market (gc_market_ids guard) (market_id_for input) then None
            else Some (RejectedInputMarket, ''market_id '' @ to_string (market_id_for input) @
              '' is not owned by this engine worker''))"

definition app_publish :: "'w Broker \<Rightarrow> EngineProcessResult \<Rightarrow> (EnginePublishResult, 'w) effect" where
  "app_publish br process_result = outbox_publish (producer_publisher br) process_result"

text \<open>The last part of \<open>consume\<close>: hook and commit.\<close>

definition run_pre_commit_hook :: "ConsumedRecord \<Rightarrow> 'w RedpandaEngineApp \<Rightarrow> string option \<times> 'w RedpandaEngineApp" where
  "run_pre_commit_hook record app = (case app_pre_commit_hook app of
      None \<Rightarrow> (None, app)
    | Some hook \<Rightarrow> (case hook record (app_runtime app) (app_world app) of
          (Inl e, w) \<Rightarrow> (Some e, app\<lparr>app_world := w\<rparr>)
        | (Inr error, w) \<Rightarrow> (error, app\<lparr>app_world := w\<rparr>)))"

definition commit_source :: "'w Broker \<Rightarrow> ConsumedRecord \<Rightarrow> EngineBrokerAppResult \<Rightarrow> 'w RedpandaEngineApp \<Rightarrow>
    (app_error + EngineBrokerAppResult) \<times> 'w RedpandaEngineApp" where
  "commit_source br record result app =
     (case run_pre_commit_hook record app of
        (Some e, app) \<Rightarrow> (Inr (failed CheckpointFailed e result), app)
      | (None, app) \<Rightarrow>
          (let request = source_offset record;
               (answer, w) = br_commit br request (app_world app);
               app = app\<lparr>app_world := w\<rparr> in
           case answer of
             Inl e \<Rightarrow> (Inl (Propagated e), app)
           | Inr (Some e) \<Rightarrow> (Inr (failed CommitFailed e result), app)
           | Inr None \<Rightarrow> (Inr (result\<lparr>ar_status := Processed, ar_committed := True\<rparr>),
               app\<lparr>app_committed_offsets := mark_committed request (app_committed_offsets app)\<rparr>)))"

definition deliver :: "'w Broker \<Rightarrow> ConsumedRecord \<Rightarrow> EngineProcessResult \<Rightarrow> 'w RedpandaEngineApp \<Rightarrow>
    (app_error + EngineBrokerAppResult) \<times> 'w RedpandaEngineApp" where
  "deliver br record process_result app =
     (let result = empty_app_result\<lparr>ar_source := Some record,
            ar_process_status := Some (pr_status process_result),
            ar_trace := Some (trace_summary process_result)\<rparr>;
          (answer, w) = app_publish br process_result (app_world app);
          app = app\<lparr>app_world := w\<rparr> in
      case answer of
        Inl e \<Rightarrow> (Inl (Propagated e), app)
      | Inr published \<Rightarrow>
          (let result = result\<lparr>ar_publish_result := published\<rparr> in
           if \<not> publish_ok published
           then (Inr (failed PublishFailed (pf_error (hd (pb_failures published))) result), app)
           else if pr_status process_result = StatusDuplicate \<and>
             \<not> duplicate_source_is_safe process_result (app_committed_offsets app)
           then (Inr (failed UnsafeDuplicate ''duplicate source offset has not been committed'' result), app)
           else commit_source br record result app))"

definition consume_record :: "'w Broker \<Rightarrow> ConsumedRecord \<Rightarrow> 'w RedpandaEngineApp \<Rightarrow>
    (app_error + EngineBrokerAppResult) \<times> 'w RedpandaEngineApp" where
  "consume_record br record app =
     (let result = empty_app_result\<lparr>ar_source := Some record\<rparr> in
      case input_guard (app_guard_config app) record of
        Some (status, error) \<Rightarrow> (Inr (failed status error result), app)
      | None \<Rightarrow> (case runtime_process (to_inbound_record record) Live (app_runtime app) of
            Inl Undefined \<Rightarrow> (Inl UndefinedBehaviour, app)
          | Inl (Thrown e rt) \<Rightarrow> (Inr (failed ProcessingFailed e result), app\<lparr>app_runtime := rt\<rparr>)
          | Inr (process_result, rt) \<Rightarrow> deliver br record process_result (app\<lparr>app_runtime := rt\<rparr>)))"

definition poll_once :: "'w Broker \<Rightarrow> 'w RedpandaEngineApp \<Rightarrow>
    (app_error + EngineBrokerAppResult) \<times> 'w RedpandaEngineApp" where
  "poll_once br app = (case br_poll br (app_world app) of
      (Inl e, w) \<Rightarrow> (Inl (Propagated e), app\<lparr>app_world := w\<rparr>)
    | (Inr None, w) \<Rightarrow> (Inr empty_app_result, app\<lparr>app_world := w\<rparr>)
    | (Inr (Some record), w) \<Rightarrow> consume_record br record (app\<lparr>app_world := w\<rparr>))"

end
