(* ===== verification/Checkpoint.thy ===== *)
theory Checkpoint
  imports BrokerApp RuntimeSteps
begin

text \<open>
  Checkpoints of the runtime: the record of \<^verbatim>\<open>src/include/checkpoint/EngineCheckpoint.hpp\<close> and the
  manager (\<^verbatim>\<open>src/src/checkpoint/EngineCheckpointManager.cpp\<close>) that fills and applies it.
\<close>

section \<open>The checkpoint\<close>

definition CurrentEngineCheckpointSchemaVersion :: "32 word" where
  "CurrentEngineCheckpointSchemaVersion = 1"

record CheckpointSourcePosition =
  cp_topic :: string
  cp_partition :: int32
  cp_next_offset :: int64

record EngineCheckpoint =
  ck_schema_version :: "32 word"
  ck_checkpoint_id :: string
  ck_core_snapshot :: EngineSnapshot
  ck_source_position :: CheckpointSourcePosition
  ck_public_sequences :: "(MarketId \<times> EngineSequence) list"
  ck_mark_prices :: MarkPriceMap
  ck_funding_rates :: "(MarketId \<times> FundingRateState) list"
  ck_settled_funding_intervals :: FundingSettlementSet
  ck_positions :: IsolatedPositionMap
  ck_risk_states :: IsolatedRiskMap
  ck_metadata_store :: OrderMetadataStore
  ck_processed_input_ids :: "(string \<times> EngineRuntimeProcessedRequestSnapshot) list"
  ck_processed_idempotency_keys :: "(string \<times> EngineRuntimeProcessedRequestSnapshot) list"

section \<open>The manager\<close>

text \<open>\<open>std::isspace\<close> in the C locale.\<close>

definition is_space_char :: "char \<Rightarrow> bool" where
  "is_space_char c \<longleftrightarrow> c = CHR '' '' \<or> (9 \<le> (of_char c :: nat) \<and> (of_char c :: nat) \<le> 13)"

definition blank :: "string \<Rightarrow> bool" where
  "blank value \<longleftrightarrow> list_all is_space_char value"

definition validate_checkpoint_source_position :: "CheckpointSourcePosition \<Rightarrow> string option" where
  "validate_checkpoint_source_position pos =
     (if blank (cp_topic pos) then Some ''checkpoint source topic must not be empty''
      else if cp_partition pos < 0 then Some ''checkpoint source partition must not be negative''
      else if cp_next_offset pos < 0 then Some ''checkpoint source next_offset must not be negative''
      else None)"

definition require_valid_source_position :: "CheckpointSourcePosition \<Rightarrow> string + unit" where
  "require_valid_source_position pos = (case validate_checkpoint_source_position pos of
      Some e \<Rightarrow> Inl e | None \<Rightarrow> Inr ())"

definition create_checkpoint :: "EngineRuntime \<Rightarrow> CheckpointSourcePosition \<Rightarrow> string \<Rightarrow>
    runtime_error + EngineCheckpoint" where
  "create_checkpoint rt source_position checkpoint_id =
     ebind (throwing rt (require_valid_source_position source_position)) (\<lambda>_.
     ebind (defined (snapshot_state rt)) (\<lambda>snap. Inr
       \<lparr>ck_schema_version = CurrentEngineCheckpointSchemaVersion, ck_checkpoint_id = checkpoint_id,
        ck_core_snapshot = st_core_snapshot snap, ck_source_position = source_position,
        ck_public_sequences = st_public_sequences snap, ck_mark_prices = st_mark_prices snap,
        ck_funding_rates = st_funding_rates snap,
        ck_settled_funding_intervals = st_settled_funding_intervals snap,
        ck_positions = st_positions snap, ck_risk_states = st_risk_states snap,
        ck_metadata_store = st_metadata_store snap,
        ck_processed_input_ids = st_processed_input_ids snap,
        ck_processed_idempotency_keys = st_processed_idempotency_keys snap\<rparr>))"

definition restore_runtime :: "EngineCheckpoint \<Rightarrow> EngineRuntime \<Rightarrow> runtime_error + EngineRuntime" where
  "restore_runtime ck rt =
     (if ck_schema_version ck \<noteq> CurrentEngineCheckpointSchemaVersion
      then Inl (Thrown ''unsupported engine checkpoint schema version'' rt)
      else ebind (throwing rt (require_valid_source_position (ck_source_position ck))) (\<lambda>_.
        restore_state \<lparr>st_core_snapshot = ck_core_snapshot ck, st_metadata_store = ck_metadata_store ck,
          st_public_sequences = ck_public_sequences ck, st_mark_prices = ck_mark_prices ck,
          st_funding_rates = ck_funding_rates ck,
          st_settled_funding_intervals = ck_settled_funding_intervals ck,
          st_positions = ck_positions ck, st_risk_states = ck_risk_states ck,
          st_processed_input_ids = ck_processed_input_ids ck,
          st_processed_idempotency_keys = ck_processed_idempotency_keys ck\<rparr> rt))"

section \<open>Maps and sequences copied\<close>

lemma fold_emplace_find:
  "um_find (fold (\<lambda>(k, v) copy. snd (um_emplace k (f v) copy)) m copy) k =
     (case um_find copy k of Some v \<Rightarrow> Some v | None \<Rightarrow> map_option f (um_find m k))"
  by (induction m arbitrary: copy) (auto simp: container_simps split: option.split if_splits)

lemma copy_map_find [simp]: "um_find (copy_map f m) k = map_option f (um_find m k)"
  by (simp add: copy_map_def fold_emplace_find container_simps)

lemma restore_snapshot_request [simp]: "restore_request (snapshot_request q) = q"
  by (simp add: restore_request_def snapshot_request_def)

lemma restore_sequences_find:
  "restore_sequences es g = Inr g' \<Longrightarrow> um_ok es \<Longrightarrow> ms_first_sequence g' = ms_first_sequence g \<and>
     um_find (ms_next_by_market g') m =
       (case um_find es m of Some s \<Rightarrow> Some s | None \<Rightarrow> um_find (ms_next_by_market g) m)"
proof (induction es arbitrary: g)
  case (Cons e es)
  obtain k s where e: "e = (k, s)" by (cases e)
  let ?g = "g\<lparr>ms_next_by_market := um_assign k s (ms_next_by_market g)\<rparr>"
  have run: "restore_sequences es ?g = Inr g'" using Cons.prems(1) e
    by (auto simp: market_restore_def split: if_splits)
  have ok: "um_ok es" "um_find es k = None" using Cons.prems(2) e
    by (auto simp: um_ok_def um_find_def map_of_eq_None_iff)
  show ?case using Cons.IH [OF run ok(1)] ok(2) e by (auto simp: container_simps split: option.split)
qed (simp add: container_simps)

lemma restore_sequences_returns:
  "\<forall>(m, s) \<in> set es. 0 < m \<and> s \<noteq> 0 \<Longrightarrow> \<exists>g'. restore_sequences es g = Inr g'"
  by (induction es arbitrary: g) (auto simp: market_restore_def)

lemma restore_books_frame:
  "restore_books bs core = Some core' \<Longrightarrow> core_sequenceGenerator core' = core_sequenceGenerator core \<and>
     core_idempotencyIndex core' = core_idempotencyIndex core"
  by (induction bs arbitrary: core) (auto split: Option.bind_splits)

lemma engine_restore_frame:
  assumes "engine_snapshot core = Some snap" "engine_restore snap core0 = Some core'"
  shows "core_sequenceGenerator core' = core_sequenceGenerator core \<and>
    core_idempotencyIndex core' = core_idempotencyIndex core"
proof -
  have "es_sequenceState snap = sequence_snapshot (core_sequenceGenerator core)"
    "es_idempotencyState snap = idempotency_snapshot (core_idempotencyIndex core)"
    using assms(1) by (auto simp: engine_snapshot_def split: Option.bind_splits)
  then show ?thesis
    using assms(2) by (auto simp: engine_restore_def split: Option.bind_splits dest!: restore_books_frame)
qed

section \<open>Restoring a checkpoint of the runtime\<close>

text \<open>What a checkpoint carries over: everything but the books of the core.\<close>

definition same_runtime_state :: "EngineRuntime \<Rightarrow> EngineRuntime \<Rightarrow> bool" where
  "same_runtime_state rt rt' \<longleftrightarrow> rt_metadata_store rt' = rt_metadata_store rt \<and>
     rt_mark_prices rt' = rt_mark_prices rt \<and> rt_funding_rates rt' = rt_funding_rates rt \<and>
     rt_settled_funding_intervals rt' = rt_settled_funding_intervals rt \<and>
     rt_positions rt' = rt_positions rt \<and> rt_risk_states rt' = rt_risk_states rt \<and>
     (\<forall>i. um_find (rt_processed_input_ids rt') i = um_find (rt_processed_input_ids rt) i) \<and>
     (\<forall>k. um_find (rt_processed_idempotency_keys rt') k = um_find (rt_processed_idempotency_keys rt) k) \<and>
     (\<forall>m. market_peek m (em_sequences (rt_emitter rt')) = market_peek m (em_sequences (rt_emitter rt))) \<and>
     core_sequenceGenerator (rt_core rt') = core_sequenceGenerator (rt_core rt) \<and>
     core_idempotencyIndex (rt_core rt') = core_idempotencyIndex (rt_core rt)"

definition sequences_ok :: "EngineRuntime \<Rightarrow> bool" where
  "sequences_ok rt \<longleftrightarrow> um_ok (ms_next_by_market (em_sequences (rt_emitter rt))) \<and>
     (\<forall>(m, s) \<in> set (ms_next_by_market (em_sequences (rt_emitter rt))). 0 < m \<and> s \<noteq> 0) \<and>
     ms_first_sequence (em_sequences (rt_emitter rt)) =
       ms_first_sequence (make_market_sequences (rc_first_public_sequence (rt_config rt)))"

lemma restore_created:
  assumes ck: "create_checkpoint rt pos i = Inr ck" and ok: "sequences_ok rt"
    and config: "rc_first_public_sequence (rt_config rt0) = rc_first_public_sequence (rt_config rt)"
    and core: "engine_restore (ck_core_snapshot ck) (rt_core rt0) = Some core"
  shows "\<exists>rt'. restore_runtime ck rt0 = Inr rt' \<and> same_runtime_state rt rt' \<and> rt_core rt' = core"
proof -
  have valid: "require_valid_source_position pos = Inr ()"
    using ck by (auto simp: create_checkpoint_def throwing_def require_valid_source_position_def split: option.splits)
  obtain snap where snap: "snapshot_state rt = Some snap"
    using ck valid by (auto simp: create_checkpoint_def throwing_def defined_def split: option.splits)
  obtain es where es: "engine_snapshot (rt_core rt) = Some es" using snap by (auto simp: snapshot_state_def)
  let ?g = "make_market_sequences (rc_first_public_sequence (rt_config rt0))"
  let ?es = "ms_next_by_market (em_sequences (rt_emitter rt))"
  have ckd: "ck_core_snapshot ck = es" "ck_public_sequences ck = ?es" "ck_schema_version ck = CurrentEngineCheckpointSchemaVersion"
    "ck_source_position ck = pos"
    using ck valid snap es
    by (auto simp: create_checkpoint_def throwing_def defined_def snapshot_state_def market_snapshot_def)
  obtain g where g: "restore_sequences ?es ?g = Inr g"
    using restore_sequences_returns [of ?es ?g] ok unfolding sequences_ok_def by blast
  have um: "um_ok ?es" using ok by (simp add: sequences_ok_def)
  have peek: "market_peek m g = market_peek m (em_sequences (rt_emitter rt))" for m
    using restore_sequences_find [OF g um, of m] ok config
    by (simp add: market_peek_def sequences_ok_def make_market_sequences_def container_simps split: option.split)
  note frame = engine_restore_frame [OF es core [unfolded ckd(1)]]
  show ?thesis
    using ck valid snap es ckd g core frame peek
    by (auto simp: restore_runtime_def restore_state_def throwing_def defined_def create_checkpoint_def snapshot_state_def
        market_snapshot_def same_runtime_state_def Let_def option.map_comp comp_def option.map_ident)
qed

end
