(* ===== verification/Recovery.thy ===== *)
theory Recovery
  imports Checkpoint
begin

text \<open>
  Recovery (\<^verbatim>\<open>src/src/recovery/RecoveryCoordinator.cpp\<close>): load the latest checkpoint, restore the runtime,
  seek the consumer behind it and replay the input silently up to the high watermark.  The replay
  loop ends only if the consumer makes progress, so it is a partial function; an exception that
  nothing catches is \<open>Inl\<close> of the result.
\<close>

section \<open>Results\<close>

datatype RecoveryStatus =
    NoCheckpoint | Recovered | Replayed | SourceMismatch | CheckpointLoadFailed | WatermarkUnavailable
  | InvalidWatermark | OffsetBelowLowWatermark | OffsetAboveHighWatermark | RestoreFailed | SeekFailed
  | ReplayFailed

record RecoveryResult =
  rv_status :: RecoveryStatus
  rv_checkpoint_id :: string
  rv_source_position :: "CheckpointSourcePosition option"
  rv_watermark :: "BrokerWatermarkOffsets option"
  rv_next_offset :: int64
  rv_replayed_records :: int64
  rv_replay_output_records :: int64
  rv_last_replayed_offset :: "int64 option"
  rv_caught_up :: bool
  rv_error :: string

definition empty_recovery_result :: RecoveryResult where
  "empty_recovery_result = \<lparr>rv_status = NoCheckpoint, rv_checkpoint_id = [], rv_source_position = None,
     rv_watermark = None, rv_next_offset = 0, rv_replayed_records = 0, rv_replay_output_records = 0,
     rv_last_replayed_offset = None, rv_caught_up = False, rv_error = []\<rparr>"

definition recovery_ok :: "RecoveryResult \<Rightarrow> bool" where
  "recovery_ok r \<longleftrightarrow> rv_status r = NoCheckpoint \<or> rv_status r = Recovered \<or> rv_status r = Replayed"

record RecoverySource =
  so_topic :: string
  so_partition :: int32

section \<open>Helpers\<close>

definition describe_position :: "CheckpointSourcePosition \<Rightarrow> string" where
  "describe_position pos = cp_topic pos @ ''['' @ to_string (cp_partition pos) @ ''] next_offset='' @
     to_string (cp_next_offset pos)"

definition describe_source :: "RecoverySource \<Rightarrow> string" where
  "describe_source source = so_topic source @ ''['' @ to_string (so_partition source) @ '']''"

definition same_source :: "CheckpointSourcePosition \<Rightarrow> RecoverySource \<Rightarrow> bool" where
  "same_source pos expected \<longleftrightarrow> cp_topic pos = so_topic expected \<and> cp_partition pos = so_partition expected"

definition with_checkpoint :: "EngineCheckpoint \<Rightarrow> RecoveryResult" where
  "with_checkpoint ck = empty_recovery_result\<lparr>rv_checkpoint_id := ck_checkpoint_id ck,
     rv_source_position := Some (ck_source_position ck),
     rv_next_offset := cp_next_offset (ck_source_position ck)\<rparr>"

definition recovery_fail :: "RecoveryResult \<Rightarrow> RecoveryStatus \<Rightarrow> string \<Rightarrow> RecoveryResult" where
  "recovery_fail result status error =
     result\<lparr>rv_status := status, rv_error := error, rv_caught_up := False\<rparr>"

definition validate_recovery_offset :: "CheckpointSourcePosition \<Rightarrow> BrokerWatermarkOffsets \<Rightarrow>
    RecoveryStatus option" where
  "validate_recovery_offset pos w =
     (if invalid_watermark w then Some InvalidWatermark
      else if cp_next_offset pos < wm_low w then Some OffsetBelowLowWatermark
      else if cp_next_offset pos > wm_high w then Some OffsetAboveHighWatermark
      else None)"

definition invalid_offset_error :: "CheckpointSourcePosition \<Rightarrow> BrokerWatermarkOffsets \<Rightarrow> string" where
  "invalid_offset_error pos w =
     (case validate_seek_offset (cp_topic pos) (cp_partition pos) (cp_next_offset pos) w of
        Some error \<Rightarrow> error
      | None \<Rightarrow> invalid_watermark_text (cp_topic pos) (cp_partition pos) w)"

section \<open>The replay loop\<close>

type_synonym 'w recovery_outcome = "(app_error + RecoveryResult) \<times> EngineRuntime \<times> 'w"

text \<open>A record is applied to the runtime: either the loop ends, or it goes on.\<close>

definition replay_record :: "BrokerWatermarkOffsets \<Rightarrow> ConsumedRecord \<Rightarrow> RecoveryResult \<Rightarrow> EngineRuntime \<Rightarrow>
    ((app_error + RecoveryResult) \<times> EngineRuntime) + (RecoveryResult \<times> EngineRuntime)" where
  "replay_record watermark record result rt =
     (case process_replay (to_inbound_record record) rt of
        Inl Undefined \<Rightarrow> Inl (Inl UndefinedBehaviour, rt)
      | Inl (Thrown e rt') \<Rightarrow> Inl (Inr (recovery_fail result ReplayFailed e), rt')
      | Inr (pr, rt') \<Rightarrow>
          (let outputs = int (length (pr_replies pr) + length (pr_events pr)); next = i64 (cr_offset record + 1) in
           Inr (result\<lparr>rv_replay_output_records := i64 (rv_replay_output_records result + outputs),
             rv_replayed_records := i64 (rv_replayed_records result + 1),
             rv_last_replayed_offset := Some (cr_offset record), rv_next_offset := next,
             rv_caught_up := next \<ge> wm_high watermark\<rparr>, rt')))"

definition replay_step :: "'w Broker \<Rightarrow> BrokerWatermarkOffsets \<Rightarrow> RecoveryResult \<Rightarrow> EngineRuntime \<Rightarrow> 'w \<Rightarrow>
    'w recovery_outcome + (RecoveryResult \<times> EngineRuntime \<times> 'w)" where
  "replay_step br watermark result rt w =
     (case br_poll br w of
        (Inl e, w) \<Rightarrow> Inl (Inr (recovery_fail result ReplayFailed e), rt, w)
      | (Inr None, w) \<Rightarrow> Inl (Inr (result\<lparr>rv_caught_up := False\<rparr>), rt, w)
      | (Inr (Some record), w) \<Rightarrow> (case rv_source_position result of
            None \<Rightarrow> Inl (Inl UndefinedBehaviour, rt, w)
          | Some pos \<Rightarrow>
              if cr_topic record \<noteq> cp_topic pos \<or> cr_partition record \<noteq> cp_partition pos
              then Inl (Inr (recovery_fail result ReplayFailed (''polled '' @
                source_text (cr_topic record) (cr_partition record) @ '' during recovery for '' @
                describe_position pos)), rt, w)
              else if cr_offset record \<ge> wm_high watermark
              then Inl (Inr (result\<lparr>rv_caught_up := True\<rparr>), rt, w)
              else (case replay_record watermark record result rt of
                  Inl (outcome, rt) \<Rightarrow> Inl (outcome, rt, w)
                | Inr (result, rt) \<Rightarrow> Inr (result, rt, w))))"

partial_function (option) replay_loop :: "'w Broker \<Rightarrow> BrokerWatermarkOffsets \<Rightarrow> RecoveryResult \<Rightarrow>
    EngineRuntime \<Rightarrow> 'w \<Rightarrow> 'w recovery_outcome option" where
  "replay_loop br watermark result rt w =
     (if rv_next_offset result < wm_high watermark
      then (case replay_step br watermark result rt w of
          Inl outcome \<Rightarrow> Some outcome
        | Inr (result, rt, w) \<Rightarrow> replay_loop br watermark result rt w)
      else Some (Inr result, rt, w))"

definition replay_until_caught_up :: "'w Broker \<Rightarrow> BrokerWatermarkOffsets \<Rightarrow> RecoveryResult \<Rightarrow>
    EngineRuntime \<Rightarrow> 'w \<Rightarrow> 'w recovery_outcome option" where
  "replay_until_caught_up br watermark result rt w =
     replay_loop br watermark (result\<lparr>rv_status := Replayed,
       rv_caught_up := rv_next_offset result \<ge> wm_high watermark\<rparr>) rt w"

section \<open>Recovering\<close>

text \<open>
  The watermark of a partition: the result of the failed recovery, or the offsets.  The three
  branches end the recovery with the error given, with the default error, or go on.
\<close>

definition watermark_failure :: "string \<Rightarrow> BrokerWatermarkResult \<Rightarrow> RecoveryResult \<Rightarrow> RecoveryResult" where
  "watermark_failure where_text r result = recovery_fail result WatermarkUnavailable
     (case wr_error r of Some e \<Rightarrow> e | None \<Rightarrow> ''broker watermark unavailable for '' @ where_text)"

definition recover_from_start :: "'w Broker \<Rightarrow> RecoverySource \<Rightarrow> bool \<Rightarrow> EngineRuntime \<Rightarrow> 'w \<Rightarrow>
    'w recovery_outcome option" where
  "recover_from_start br expected replay rt w =
     (let start = \<lparr>cp_topic = so_topic expected, cp_partition = so_partition expected, cp_next_offset = 0\<rparr>;
          result = empty_recovery_result\<lparr>rv_source_position := Some start\<rparr> in
      case br_get_watermark br (so_topic expected) (so_partition expected) w of
        (Inl e, w) \<Rightarrow> Some (Inl (Propagated e), rt, w)
      | (Inr r, w) \<Rightarrow> (case if wr_error r = None then wr_offsets r else None of
            None \<Rightarrow> Some (Inr (watermark_failure (describe_source expected) r result), rt, w)
          | Some offsets \<Rightarrow>
              (let start = start\<lparr>cp_next_offset := wm_low offsets\<rparr>;
                   result = result\<lparr>rv_watermark := Some offsets, rv_source_position := Some start\<rparr> in
               if invalid_watermark offsets
               then Some (Inr (recovery_fail result InvalidWatermark
                 (invalid_watermark_text (so_topic expected) (so_partition expected) offsets)), rt, w)
               else (let result = result\<lparr>rv_next_offset := cp_next_offset start\<rparr> in
                 case br_seek br (so_topic expected) (so_partition expected) (cp_next_offset start) w of
                   (Inl e, w) \<Rightarrow> Some (Inl (Propagated e), rt, w)
                 | (Inr (Some e), w) \<Rightarrow> Some (Inr (recovery_fail result SeekFailed e), rt, w)
                 | (Inr None, w) \<Rightarrow>
                     (let result = result\<lparr>rv_caught_up := rv_next_offset result \<ge> wm_high offsets\<rparr> in
                      if replay \<and> \<not> rv_caught_up result then replay_until_caught_up br offsets result rt w
                      else Some (Inr result, rt, w))))))"

definition recover_from_checkpoint :: "'w Broker \<Rightarrow> RecoverySource option \<Rightarrow> bool \<Rightarrow> EngineCheckpoint \<Rightarrow>
    EngineRuntime \<Rightarrow> 'w \<Rightarrow> 'w recovery_outcome option" where
  "recover_from_checkpoint br expected replay ck rt w =
     (let result = with_checkpoint ck; pos = ck_source_position ck in
      if (case expected of Some source \<Rightarrow> \<not> same_source pos source | None \<Rightarrow> False)
      then Some (Inr (recovery_fail result SourceMismatch (''checkpoint source '' @ describe_position pos @
        '' does not match expected '' @ describe_source (the expected))), rt, w)
      else case br_get_watermark br (cp_topic pos) (cp_partition pos) w of
        (Inl e, w) \<Rightarrow> Some (Inl (Propagated e), rt, w)
      | (Inr r, w) \<Rightarrow> (case if wr_error r = None then wr_offsets r else None of
            None \<Rightarrow> Some (Inr (watermark_failure (describe_position pos) r result), rt, w)
          | Some offsets \<Rightarrow> (let result = result\<lparr>rv_watermark := Some offsets\<rparr> in
              case validate_recovery_offset pos offsets of
                Some status \<Rightarrow> Some (Inr (recovery_fail result status (invalid_offset_error pos offsets)), rt, w)
              | None \<Rightarrow> (case restore_runtime ck rt of
                    Inl Undefined \<Rightarrow> Some (Inl UndefinedBehaviour, rt, w)
                  | Inl (Thrown e rt) \<Rightarrow> Some (Inr (recovery_fail result RestoreFailed e), rt, w)
                  | Inr rt \<Rightarrow> (case br_seek br (cp_topic pos) (cp_partition pos) (cp_next_offset pos) w of
                        (Inl e, w) \<Rightarrow> Some (Inl (Propagated e), rt, w)
                      | (Inr (Some e), w) \<Rightarrow> Some (Inr (recovery_fail result SeekFailed e), rt, w)
                      | (Inr None, w) \<Rightarrow>
                          if \<not> replay
                          then Some (Inr (result\<lparr>rv_status := Recovered,
                            rv_caught_up := cp_next_offset pos \<ge> wm_high offsets\<rparr>), rt, w)
                          else replay_until_caught_up br offsets result rt w)))))"

definition recover_impl :: "(EngineCheckpoint option, 'w) effect \<Rightarrow> 'w Broker \<Rightarrow> RecoverySource option \<Rightarrow> bool \<Rightarrow>
    EngineRuntime \<Rightarrow> 'w \<Rightarrow> 'w recovery_outcome option" where
  "recover_impl load_latest br expected replay rt w =
     (case load_latest w of
        (Inl e, w) \<Rightarrow> Some (Inr (recovery_fail empty_recovery_result CheckpointLoadFailed e), rt, w)
      | (Inr (Some ck), w) \<Rightarrow> recover_from_checkpoint br expected replay ck rt w
      | (Inr None, w) \<Rightarrow> (case expected of
            None \<Rightarrow> Some (Inr (empty_recovery_result\<lparr>rv_caught_up := True\<rparr>), rt, w)
          | Some source \<Rightarrow> recover_from_start br source replay rt w))"

definition recover :: "(EngineCheckpoint option, 'w) effect \<Rightarrow> 'w Broker \<Rightarrow> RecoverySource option \<Rightarrow>
    EngineRuntime \<Rightarrow> 'w \<Rightarrow> 'w recovery_outcome option" where
  "recover load_latest br expected = recover_impl load_latest br expected False"

definition recover_and_replay :: "(EngineCheckpoint option, 'w) effect \<Rightarrow> 'w Broker \<Rightarrow> RecoverySource option \<Rightarrow>
    EngineRuntime \<Rightarrow> 'w \<Rightarrow> 'w recovery_outcome option" where
  "recover_and_replay load_latest br expected = recover_impl load_latest br expected True"

end
