(* ===== verification/BrokerProperties.thy ===== *)
theory BrokerProperties
  imports BrokerApp RuntimeProperties
begin

text \<open>
  Properties of the application: in which order it publishes, runs the hook and commits, what
  happens to records that are delivered again, and what becomes of outputs that could not be
  published.
\<close>

section \<open>Recording the calls of the application\<close>

datatype BrokerAction =
    ActProduce ProducedRecord "string + string option"
  | ActHook ConsumedRecord "string + string option"
  | ActCommit OffsetCommitRequest "string + string option"

definition recorded :: "(string + 'a \<Rightarrow> BrokerAction) \<Rightarrow> ('a, 'w) effect \<Rightarrow> ('a, 'w \<times> BrokerAction list) effect" where
  "recorded act f = (\<lambda>(w, log). let (answer, w) = f w in (answer, (w, log @ [act answer])))"

definition unrecorded :: "('a, 'w) effect \<Rightarrow> ('a, 'w \<times> BrokerAction list) effect" where
  "unrecorded f = (\<lambda>(w, log). let (answer, w) = f w in (answer, (w, log)))"

definition logged :: "'w Broker \<Rightarrow> ('w \<times> BrokerAction list) Broker" where
  "logged br = \<lparr>br_poll = unrecorded (br_poll br), br_seek = (\<lambda>t p o'. unrecorded (br_seek br t p o')),
     br_get_watermark = (\<lambda>t p. unrecorded (br_get_watermark br t p)),
     br_produce = (\<lambda>req. recorded (ActProduce req) (br_produce br req)),
     br_commit = (\<lambda>req. recorded (ActCommit req) (br_commit br req))\<rparr>"

definition logged_hook :: "'w EnginePreCommitHook \<Rightarrow> ('w \<times> BrokerAction list) EnginePreCommitHook" where
  "logged_hook hook record rt = recorded (ActHook record) (hook record rt)"

lemma logged_simps [simp]:
  "br_produce (logged br) req (w, log) =
     (fst (br_produce br req w), (snd (br_produce br req w), log @ [ActProduce req (fst (br_produce br req w))]))"
  "br_commit (logged br) creq (w, log) =
     (fst (br_commit br creq w), (snd (br_commit br creq w), log @ [ActCommit creq (fst (br_commit br creq w))]))"
  "logged_hook hook record rt (w, log) =
     (fst (hook record rt w), (snd (hook record rt w), log @ [ActHook record (fst (hook record rt w))]))"
  by (simp_all add: logged_def logged_hook_def recorded_def split_beta)

definition publish_actions :: "EngineOutputRecord list \<Rightarrow> BrokerAction list" where
  "publish_actions rs = map (\<lambda>r. ActProduce (produce_request r (serialize_engine_output_record r)) (Inr None)) rs"

lemma publish_records_logged:
  assumes "publish_records (\<lambda>r s. br_produce (logged br) (produce_request r s)) rs result (w, log) = (answer, (w', log'))"
  shows "\<exists>acts. log' = log @ acts \<and> (\<forall>a \<in> set acts. \<exists>req out. a = ActProduce req out) \<and>
    (\<forall>result'. answer = Inr result' \<longrightarrow> publish_ok result' \<longrightarrow> publish_ok result \<and> acts = publish_actions rs)"
  using assms
proof (induction rs arbitrary: result w log)
  case (Cons r rs)
  let ?req = "produce_request r (serialize_engine_output_record r)"
  obtain out w1 where p: "br_produce br ?req w = (out, w1)" by (cases "br_produce br ?req w")
  show ?case
  proof (cases out)
    case (Inl e)
    then show ?thesis using Cons.prems p by (auto simp: Let_def)
  next
    case (Inr err)
    let ?res = "if err = None then result\<lparr>pb_attempted := pb_attempted result + 1, pb_published := pb_published result + 1\<rparr>
      else result\<lparr>pb_attempted := pb_attempted result + 1,
             pb_failures := pb_failures result @ [publish_failure r (the err)]\<rparr>"
    have run: "publish_records (\<lambda>r s. br_produce (logged br) (produce_request r s)) rs ?res (w1, log @ [ActProduce ?req out]) = (answer, (w', log'))"
      using Cons.prems p Inr by (cases err) (auto simp: Let_def)
    from Cons.IH [OF run] obtain acts where acts: "log' = (log @ [ActProduce ?req out]) @ acts"
      "\<forall>a \<in> set acts. \<exists>req out. a = ActProduce req out"
      "\<forall>result'. answer = Inr result' \<longrightarrow> publish_ok result' \<longrightarrow> publish_ok ?res \<and> acts = publish_actions rs" by blast
    have "publish_ok ?res \<Longrightarrow> publish_ok result \<and> out = Inr None"
      using Inr by (auto simp: publish_ok_def split: if_splits)
    with acts show ?thesis
      by (intro exI [of _ "ActProduce ?req out # acts"]) (auto simp: publish_actions_def)
  qed
qed (auto simp: publish_actions_def)

lemma app_publish_logged:
  assumes "app_publish (logged br) pr (w, log) = (answer, (w', log'))"
  shows "\<exists>acts. log' = log @ acts \<and> (\<forall>a \<in> set acts. \<exists>req out. a = ActProduce req out) \<and>
    (\<forall>result'. answer = Inr result' \<longrightarrow> publish_ok result' \<longrightarrow> acts = publish_actions (published_records pr))"
  by (rule exE [OF publish_records_logged [OF assms [unfolded app_publish_def outbox_publish_eq producer_publisher_def [abs_def]]]])
    auto

definition committed_outcome :: "app_error + EngineBrokerAppResult \<Rightarrow> bool" where
  "committed_outcome outcome \<longleftrightarrow> (case outcome of Inr result \<Rightarrow> ar_committed result | Inl _ \<Rightarrow> False)"

definition commits :: "BrokerAction list \<Rightarrow> OffsetCommitRequest list" where
  "commits acts = concat (map (\<lambda>a. case a of ActCommit req (Inr None) \<Rightarrow> [req] | _ \<Rightarrow> []) acts)"

definition hook_actions :: "'w EnginePreCommitHook option \<Rightarrow> ConsumedRecord \<Rightarrow> BrokerAction list" where
  "hook_actions hook record = (if hook = None then [] else [ActHook record (Inr None)])"

lemma commits_simps [simp]:
  "commits (as @ bs) = commits as @ commits bs" "commits [] = []"
  "commits (ActHook record out # as) = commits as"
  "commits (ActCommit req (Inr None) # as) = req # commits as"
  "out \<noteq> Inr None \<Longrightarrow> commits (ActCommit req out # as) = commits as"
  by (auto simp: commits_def split: sum.split option.split)

lemma commits_produce: "\<forall>a \<in> set acts. \<exists>req out. a = ActProduce req out \<Longrightarrow> commits acts = []"
  by (auto simp: commits_def split: BrokerAction.split)

lemma commit_source_logged:
  assumes "commit_source (logged br) record result app = (outcome, app')" "\<not> ar_committed result"
    "app_pre_commit_hook app = map_option logged_hook hook" "app_world app = (w, log)"
  shows "app_runtime app' = app_runtime app \<and> (\<exists>acts. snd (app_world app') = log @ acts \<and>
    (if committed_outcome outcome then acts = hook_actions hook record @ [ActCommit (source_offset record) (Inr None)]
     else commits acts = []))"
proof (cases "run_pre_commit_hook record app")
  case (Pair error app1)
  have 1: "app_runtime app1 = app_runtime app" "\<exists>acts w1. app_world app1 = (w1, log @ acts) \<and> commits acts = [] \<and>
      (error = None \<longrightarrow> acts = hook_actions hook record)"
    using Pair assms(3,4)
    by (cases hook; fastforce simp: run_pre_commit_hook_def hook_actions_def split: prod.splits sum.splits)+
  then obtain acts w1 where acts: "app_world app1 = (w1, log @ acts)" "commits acts = []"
      "error = None \<longrightarrow> acts = hook_actions hook record" by blast
  obtain out w2 where c: "br_commit br (source_offset record) w1 = (out, w2)" by (cases "br_commit br (source_offset record) w1")
  show ?thesis
  proof (cases error)
    case None
    then show ?thesis
      using assms(1,2) Pair c acts 1(1)
      by (cases out) (auto simp: commit_source_def Let_def committed_outcome_def failed_def split: option.splits)
  next
    case (Some e)
    then show ?thesis
      using assms(1,2) Pair acts 1(1) by (auto simp: commit_source_def committed_outcome_def failed_def)
  qed
qed

section \<open>A broker to evaluate the application with\<close>

text \<open>The producer gives one answer to every request, every commit succeeds.\<close>

definition demo_broker :: "string option \<Rightarrow> 'w Broker" where
  "demo_broker answer = \<lparr>br_poll = (\<lambda>w. (Inr None, w)), br_seek = (\<lambda>t p off w. (Inr None, w)),
     br_get_watermark = (\<lambda>t p w. (Inr \<lparr>wr_offsets = None, wr_error = None\<rparr>, w)),
     br_produce = (\<lambda>req w. (Inr answer, w)), br_commit = (\<lambda>req w. (Inr None, w))\<rparr>"

definition demo_consumed :: ConsumedRecord where
  "demo_consumed = \<lparr>cr_topic = EngineInputTopic, cr_partition = 0, cr_offset = 4, cr_key = Some ''1'', cr_value = demo_tick_json\<rparr>"

definition demo_app :: "'w \<Rightarrow> 'w RedpandaEngineApp" where
  "demo_app w = \<lparr>app_runtime = demo_runtime 700 500,
     app_guard_config = \<lparr>gc_topic = EngineInputTopic, gc_partition = Some 0, gc_market_ids = []\<rparr>,
     app_pre_commit_hook = None, app_committed_offsets = [], app_world = w\<rparr>"

definition answers :: "'w Broker \<Rightarrow> string option \<Rightarrow> bool" where
  "answers br answer \<longleftrightarrow> (\<forall>req w. fst (br_produce br req w) = Inr answer) \<and> (\<forall>req w. fst (br_commit br req w) = Inr None)"

lemma demo_answers: "answers (demo_broker answer) answer" "answers (logged (demo_broker answer)) answer"
  by (simp_all add: answers_def demo_broker_def split_paired_all)

lemma demo_publish:
  assumes "answers br answer"
  shows "\<exists>result' w'. publish_records (producer_publisher br) rs result w = (Inr result', w') \<and>
     pb_failures result' = pb_failures result @ (case answer of None \<Rightarrow> [] | Some e \<Rightarrow> map (\<lambda>r. publish_failure r e) rs)"
proof (induction rs arbitrary: result w)
  case (Cons r rs)
  obtain w' where w: "br_produce br (produce_request r (serialize_engine_output_record r)) w = (Inr answer, w')"
    using assms by (metis answers_def prod.collapse)
  let ?res = "case answer of
      None \<Rightarrow> result\<lparr>pb_attempted := pb_attempted result + 1, pb_published := pb_published result + 1\<rparr>
    | Some e \<Rightarrow> result\<lparr>pb_attempted := pb_attempted result + 1, pb_failures := pb_failures result @ [publish_failure r e]\<rparr>"
  have "publish_records (producer_publisher br) (r # rs) result w = publish_records (producer_publisher br) rs ?res w'"
    by (simp add: producer_publisher_def w Let_def split: option.split)
  with Cons.IH [of ?res w'] show ?case by (cases answer) auto
qed (simp split: option.split)

lemma demo_consume:
  assumes br: "answers br answer"
  shows "\<exists>result app'. consume_record br demo_consumed (demo_app w) = (Inr result, app') \<and>
     ar_process_status result = Some StatusProcessed \<and> app_pre_commit_hook app' = None \<and>
     (if answer = None then ar_committed result \<and> app_committed_offsets app' = [source_offset demo_consumed]
      else ar_status result = PublishFailed \<and> \<not> ar_committed result)"
proof -
  obtain pr rt where run: "runtime_process demo_tick Live (demo_runtime 700 500) = Inr (pr, rt)"
      "pr_events pr \<noteq> []" "pr_status pr = StatusProcessed"
    using demo_tick_live by blast
  have r: "to_inbound_record demo_consumed = demo_tick"
    by (simp add: to_inbound_record_def demo_consumed_def demo_tick_def)
  have g: "input_guard (app_guard_config (demo_app w)) demo_consumed = None"
    by (simp add: input_guard_def demo_app_def demo_consumed_def)
  obtain published w1 where p: "app_publish br pr w = (Inr published, w1)"
      "pb_failures published = (case answer of None \<Rightarrow> [] | Some e \<Rightarrow> map (\<lambda>r. publish_failure r e) (published_records pr))"
    using demo_publish [OF br, of "published_records pr" empty_publish_result w]
    by (auto simp: app_publish_def outbox_publish_eq empty_publish_result_def)
  have "published_records pr \<noteq> []" using run(2,3) by (simp add: published_records_def)
  then have ok: "publish_ok published \<longleftrightarrow> answer = None" using p(2) by (simp add: publish_ok_def split: option.split)
  have d: "consume_record br demo_consumed (demo_app w) = deliver br demo_consumed pr ((demo_app w)\<lparr>app_runtime := rt\<rparr>)"
    using run(1) r g by (simp add: consume_record_def) (simp add: demo_app_def)
  obtain w2 where c: "br_commit br (source_offset demo_consumed) w1 = (Inr None, w2)"
    using br by (metis answers_def prod.collapse)
  have a: "app_world (demo_app w) = w" "app_pre_commit_hook (demo_app w) = None" "app_committed_offsets (demo_app w) = []"
    by (simp_all add: demo_app_def)
  show ?thesis
    unfolding d using run(3) ok p(1) c
    by (cases answer) (simp_all add: deliver_def a Let_def commit_source_def run_pre_commit_hook_def
      mark_committed_def failed_def empty_app_result_def)
qed

lemma demo_consumed_parsed: "parse_engine_input (cr_value demo_consumed) = Inr (InFundingSettlementTick demo_tick_input)"
  "input_id_of (InFundingSettlementTick demo_tick_input) \<noteq> None"
  using demo_tick_parsed by (simp_all add: demo_consumed_def demo_tick_def demo_tick_input_def)

section \<open>Publishing before committing\<close>

text \<open>
  C7: the offset of a record is committed only after everything else has succeeded: if \<open>consume\<close> reports
  a commit, then the record was processed, each of its replies and then each of its events was
  produced without an error, in order, then the hook saw the record and agreed, and the last call was
  the commit of exactly this offset; in every other case, exceptions included, nothing is committed.
\<close>

theorem offset_committed_last:
  fixes app :: "('w \<times> BrokerAction list) RedpandaEngineApp"
  assumes run: "consume_record (logged br) record app = (outcome, app')"
    and app: "app_pre_commit_hook app = map_option logged_hook hook" "app_world app = (w, log)"
  shows "\<exists>acts. snd (app_world app') = log @ acts \<and>
    (if committed_outcome outcome
     then \<exists>pr. runtime_process (to_inbound_record record) Live (app_runtime app) = Inr (pr, app_runtime app') \<and>
       acts = publish_actions (published_records pr) @ hook_actions hook record @
         [ActCommit (source_offset record) (Inr None)]
     else commits acts = [])"
proof (cases "input_guard (app_guard_config app) record")
  case (Some reason)
  then show ?thesis
    using run app by (cases reason) (auto simp: consume_record_def failed_def committed_outcome_def empty_app_result_def)
next
  case None
  note guard = this
  show ?thesis
  proof (cases "runtime_process (to_inbound_record record) Live (app_runtime app)")
    case (Inl e)
    then show ?thesis
      using run app guard
      by (cases e) (auto simp: consume_record_def failed_def committed_outcome_def empty_app_result_def)
  next
    case (Inr p)
    obtain pr rt where p: "p = (pr, rt)" by (cases p)
    obtain answer w1 log1 where pub: "app_publish (logged br) pr (w, log) = (answer, (w1, log1))"
      by (metis surj_pair)
    obtain acts1 where acts1: "log1 = log @ acts1" "commits acts1 = []"
      "\<forall>result'. answer = Inr result' \<longrightarrow> publish_ok result' \<longrightarrow> acts1 = publish_actions (published_records pr)"
      using app_publish_logged [OF pub] commits_produce by blast
    have run: "deliver (logged br) record pr (app\<lparr>app_runtime := rt\<rparr>) = (outcome, app')"
      using run guard Inr p by (simp add: consume_record_def)
    show ?thesis
    proof (cases "(\<exists>published. answer = Inr published \<and> publish_ok published) \<and>
        (pr_status pr = StatusDuplicate \<longrightarrow> duplicate_source_is_safe pr (app_committed_offsets app))")
      case True
      then obtain published where ok: "answer = Inr published" "publish_ok published" by blast
      have unless: "\<not> (pr_status pr = StatusDuplicate \<and> \<not> duplicate_source_is_safe pr (app_committed_offsets app))"
        using True by blast
      let ?app = "app\<lparr>app_runtime := rt, app_world := (w1, log1)\<rparr>"
      let ?result = "empty_app_result\<lparr>ar_source := Some record, ar_process_status := Some (pr_status pr),
        ar_trace := Some (trace_summary pr), ar_publish_result := published\<rparr>"
      have c: "commit_source (logged br) record ?result ?app = (outcome, app')"
        using run ok pub app unless by (simp add: deliver_def Let_def)
      have "\<not> ar_committed ?result" "app_pre_commit_hook ?app = map_option logged_hook hook" "app_world ?app = (w1, log1)"
        using app by (simp_all add: empty_app_result_def)
      from commit_source_logged [OF c this] obtain acts where acts: "app_runtime app' = rt" "snd (app_world app') = log1 @ acts"
        "if committed_outcome outcome then acts = hook_actions hook record @ [ActCommit (source_offset record) (Inr None)]
         else commits acts = []"
        by auto
      moreover have "acts1 = publish_actions (published_records pr)" using acts1(3) ok by blast
      ultimately show ?thesis
        using acts1(1,2) Inr p by (intro exI [of _ "acts1 @ acts"]) (simp split: if_splits)
    next
      case False
      then have "snd (app_world app') = log1 \<and> \<not> committed_outcome outcome"
        using run pub app by (auto simp: deliver_def Let_def committed_outcome_def failed_def empty_app_result_def split: sum.splits if_splits)
      then show ?thesis using acts1 by auto
    qed
  qed
qed

theorem offset_committed_last_witness:
  "\<exists>result app' pr. consume_record (logged (demo_broker None)) demo_consumed (demo_app ((), [])) = (Inr result, app') \<and>
     snd (app_world app') = publish_actions (published_records pr) @ [ActCommit (source_offset demo_consumed) (Inr None)]"
proof -
  obtain result app' where run: "consume_record (logged (demo_broker None)) demo_consumed (demo_app ((), [])) = (Inr result, app')"
      "ar_committed result"
    using demo_consume [OF demo_answers(2), of None "((), [])"] by auto
  have "app_pre_commit_hook (demo_app ((), [])) = map_option logged_hook None" "app_world (demo_app ((), [])) = ((), [])"
    by (simp_all add: demo_app_def)
  from offset_committed_last [OF run(1) this] run show ?thesis
    by (auto simp: committed_outcome_def hook_actions_def)
qed

section \<open>Records delivered again\<close>

text \<open>The runtime answers \<open>a\<close> with the record \<open>r\<close>, under each of its names.\<close>

definition answered :: "ParsedEngineInput \<Rightarrow> InboundEngineRecord \<Rightarrow> EngineRuntime \<Rightarrow> bool" where
  "answered a r rt \<longleftrightarrow>
     (\<forall>i. input_id_of a = Some i \<longrightarrow> (\<exists>v. um_find (rt_processed_input_ids rt) i = Some v \<and>
        rq_topic v = ir_topic r \<and> rq_partition v = ir_partition r \<and> rq_offset v = ir_offset r)) \<and>
     (\<forall>k. idempotency_key_of a = Some k \<longrightarrow> (\<exists>v. um_find (rt_processed_idempotency_keys rt) k = Some v \<and>
        rq_topic v = ir_topic r \<and> rq_partition v = ir_partition r \<and> rq_offset v = ir_offset r))"

lemma mark_input_answered: "duplicate_of a rt = None \<Longrightarrow> answered a r (mark_input a r rt)"
  by (cases a) (auto simp: answered_def mark_processed_def mark_input_processed_def duplicate_result_for_def Let_def
      duplicate_input_result_for_def processed_request_def container_simps split: option.splits if_splits)

lemma answered_duplicate:
  assumes "answered a r rt" "input_id_of a \<noteq> None \<or> idempotency_key_of a \<noteq> None"
  shows "\<exists>d i. duplicate_of a rt = Some d \<and> pr_duplicate d = Some i \<and>
    di_original_topic i = ir_topic r \<and> di_original_partition i = ir_partition r \<and> di_original_offset i = ir_offset r"
  using assms
  by (cases a) (auto simp: answered_def duplicate_result_for_def duplicate_input_result_for_def make_duplicate_result_def
      split: option.splits)

text \<open>What was answered stays answered.\<close>

definition keeps_answers :: "EngineRuntime \<Rightarrow> EngineRuntime \<Rightarrow> bool" where
  "keeps_answers rt rt' \<longleftrightarrow>
     (\<forall>i v. um_find (rt_processed_input_ids rt) i = Some v \<longrightarrow> um_find (rt_processed_input_ids rt') i = Some v) \<and>
     (\<forall>k v. um_find (rt_processed_idempotency_keys rt) k = Some v \<longrightarrow> um_find (rt_processed_idempotency_keys rt') k = Some v)"

lemma answered_kept: "answered a r rt \<Longrightarrow> keeps_answers rt rt' \<Longrightarrow> answered a r rt'"
  unfolding answered_def keeps_answers_def by blast

lemma mark_input_keeps_answers: "keeps_answers rt (mark_input a r rt)"
  by (cases a) (auto simp: keeps_answers_def mark_processed_def mark_input_processed_def Let_def um_find_emplace
      split: option.splits)

lemma process_keeps_answers:
  assumes "runtime_process r mode rt = Inr (result, rt')"
  shows "keeps_answers rt rt'"
  using assms
proof (cases rule: handled_cases)
  case (2 a rt1)
  then show ?thesis
    using mark_input_keeps_answers [of rt1 a r] by (auto simp: keeps_requests_def keeps_answers_def)
qed (simp add: keeps_answers_def)

lemma duplicate_of_kept: "keeps_requests rt es rt' \<Longrightarrow> duplicate_of a rt' = duplicate_of a rt"
  by (cases a) (simp_all add: keeps_requests_def duplicate_result_for_def duplicate_input_result_for_def
      cong: option.case_cong)

lemma processed_answered:
  assumes "parse_engine_input (ir_raw_json r) = Inr a" "runtime_process r Live rt = Inr (pr, rt')" "pr_status pr \<noteq> StatusDuplicate"
  shows "answered a r rt'"
  using assms(2)
proof (cases rule: handled_cases)
  case (1 b)
  then show ?thesis using assms(3) duplicate_of_result by blast
next
  case (2 b rt1)
  then have b: "b = a" using assms(1) by simp
  then have "duplicate_of a rt1 = None" using 2(2) duplicate_of_kept [OF 2(3)] by simp
  then show ?thesis using mark_input_answered 2(4) b by blast
qed

lemma answered_again:
  assumes "answered a r rt" "input_id_of a \<noteq> None \<or> idempotency_key_of a \<noteq> None" "parse_engine_input (ir_raw_json r) = Inr a"
  shows "\<exists>d i. runtime_process r mode rt = Inr (d, rt) \<and> pr_status d = StatusDuplicate \<and> result_empty d \<and>
    pr_duplicate d = Some i \<and> di_original_topic i = ir_topic r \<and> di_original_partition i = ir_partition r \<and>
    di_original_offset i = ir_offset r"
  using answered_duplicate [OF assms(1,2)] runtime_process_duplicate [OF assms(3)] duplicate_of_result by blast

lemma to_inbound_simps [simp]:
  "ir_raw_json (to_inbound_record r) = cr_value r" "ir_topic (to_inbound_record r) = cr_topic r"
  "ir_partition (to_inbound_record r) = cr_partition r" "ir_offset (to_inbound_record r) = cr_offset r"
  by (simp_all add: to_inbound_record_def)

lemma input_guard_status:
  "input_guard guard r = Some (status, e) \<Longrightarrow>
     status \<in> {RejectedInputTopic, RejectedInputPartition, RejectedInputMarket, ProcessingFailed}"
  by (auto simp: input_guard_def split: if_splits sum.splits)

lemma consume_processed:
  assumes run: "consume_record br record app = (Inr result, app')"
    and got: "ar_process_status result \<noteq> None \<or> ar_status result = PublishFailed"
  obtains pr rt where "input_guard (app_guard_config app) record = None"
    "runtime_process (to_inbound_record record) Live (app_runtime app) = Inr (pr, rt)"
    "deliver br record pr (app\<lparr>app_runtime := rt\<rparr>) = (Inr result, app')"
proof (cases "input_guard (app_guard_config app) record")
  case (Some reason)
  obtain status e where r: "reason = (status, e)" by (cases reason)
  then have "result = failed status e (empty_app_result\<lparr>ar_source := Some record\<rparr>)"
    using run Some by (simp add: consume_record_def)
  then show ?thesis using got input_guard_status [OF Some [unfolded r]] by (auto simp: failed_def empty_app_result_def)
next
  case None
  show ?thesis
  proof (cases "runtime_process (to_inbound_record record) Live (app_runtime app)")
    case (Inl e)
    then show ?thesis
      using run got None by (cases e) (auto simp: consume_record_def failed_def empty_app_result_def)
  next
    case (Inr p)
    then show ?thesis using run None that by (cases p) (auto simp: consume_record_def)
  qed
qed

lemma commit_source_frame:
  "commit_source br record result app = (Inr res, app') \<Longrightarrow> app_runtime app' = app_runtime app \<and>
     app_guard_config app' = app_guard_config app \<and> ar_process_status res = ar_process_status result \<and>
     (ar_committed res \<longrightarrow> ar_committed result \<or> app_committed_offsets app' = mark_committed (source_offset record) (app_committed_offsets app)) \<and>
     (\<not> ar_committed res \<longrightarrow> app_committed_offsets app' = app_committed_offsets app)"
  by (auto simp: commit_source_def run_pre_commit_hook_def failed_def Let_def split: option.splits prod.splits sum.splits)

lemma deliver_frame:
  assumes "deliver br record pr app = (Inr res, app')"
  shows "app_runtime app' = app_runtime app \<and> app_guard_config app' = app_guard_config app \<and>
    ar_process_status res = Some (pr_status pr) \<and>
    (if ar_committed res then app_committed_offsets app' = mark_committed (source_offset record) (app_committed_offsets app)
     else app_committed_offsets app' = app_committed_offsets app)"
proof -
  obtain answer w where p: "app_publish br pr (app_world app) = (answer, w)" by (cases "app_publish br pr (app_world app)")
  show ?thesis
    using assms p
    by (auto simp: deliver_def Let_def failed_def empty_app_result_def dest!: commit_source_frame split: sum.splits if_splits)
qed

lemma list_ex_mark_committed: "list_ex (\<lambda>c. same_offset c req) (mark_committed req cs)"
  by (simp add: mark_committed_def same_offset_def)

text \<open>The results of records consumed one after the other.\<close>

fun consume_records :: "'w Broker \<Rightarrow> ConsumedRecord list \<Rightarrow> 'w RedpandaEngineApp \<Rightarrow>
    (EngineBrokerAppResult list \<times> 'w RedpandaEngineApp) option" where
  "consume_records br [] app = Some ([], app)"
| "consume_records br (record # records) app = (case consume_record br record app of
      (Inl e, app) \<Rightarrow> None
    | (Inr result, app) \<Rightarrow> map_option (apfst ((#) result)) (consume_records br records app))"

lemma consume_record_keeps:
  assumes "consume_record br record app = (Inr result, app')" "ar_status result \<noteq> ProcessingFailed"
  shows "keeps_answers (app_runtime app) (app_runtime app') \<and> app_guard_config app' = app_guard_config app \<and>
    set (app_committed_offsets app) \<subseteq> set (app_committed_offsets app') \<and>
    set (app_committed_offsets app') \<subseteq> insert (source_offset record) (set (app_committed_offsets app))"
proof (cases "input_guard (app_guard_config app) record")
  case None
  then obtain pr rt where run: "runtime_process (to_inbound_record record) Live (app_runtime app) = Inr (pr, rt)"
    "deliver br record pr (app\<lparr>app_runtime := rt\<rparr>) = (Inr result, app')"
    using assms by (auto simp: consume_record_def failed_def split: sum.splits runtime_error.splits prod.splits)
  show ?thesis
    using process_keeps_answers [OF run(1)] deliver_frame [OF run(2)]
    by (cases "ar_committed result") (auto simp: mark_committed_def)
qed (use assms in \<open>auto simp: consume_record_def keeps_answers_def\<close>)

lemma consume_records_keep:
  assumes "consume_records br records app = Some (results, app')" "\<forall>res \<in> set results. ar_status res \<noteq> ProcessingFailed"
  shows "keeps_answers (app_runtime app) (app_runtime app') \<and> app_guard_config app' = app_guard_config app \<and>
    set (app_committed_offsets app) \<subseteq> set (app_committed_offsets app') \<and>
    set (app_committed_offsets app') \<subseteq> source_offset ` set records \<union> set (app_committed_offsets app)"
  using assms
proof (induction records arbitrary: app results)
  case (Cons r rs)
  obtain result app1 results1 where first: "consume_record br r app = (Inr result, app1)"
    and rest: "consume_records br rs app1 = Some (results1, app')" "results = result # results1"
    using Cons.prems(1) by (auto split: prod.splits sum.splits)
  have ok: "ar_status result \<noteq> ProcessingFailed" "\<forall>res \<in> set results1. ar_status res \<noteq> ProcessingFailed"
    using Cons.prems(2) rest(2) by auto
  from consume_record_keeps [OF first ok(1)] Cons.IH [OF rest(1) ok(2)] show ?case
    by (auto simp: keeps_answers_def)
qed (simp add: keeps_answers_def)

definition offset_committed :: "'w RedpandaEngineApp \<Rightarrow> ConsumedRecord \<Rightarrow> bool" where
  "offset_committed app record \<longleftrightarrow> list_ex (\<lambda>c. same_offset c (source_offset record)) (app_committed_offsets app)"

text \<open>
  C34: a record with an input id or an idempotency key that was processed and comes again, at once or after
  other records none of which failed in the runtime, never changes the runtime or produces outputs a second
  time: if its offset has been committed by then, it goes straight to the hook and the commit; if not, it is
  reported as an unsafe duplicate, without any call to the outside, and nothing changes.  The offset has been
  committed if the first delivery was, and has not if it was not and the records in between have other
  offsets.
\<close>

theorem redelivery_publishes_nothing:
  assumes first: "consume_record br record app = (Inr result, app1)" "ar_process_status result = Some s" "s \<noteq> StatusDuplicate"
    and parsed: "parse_engine_input (cr_value record) = Inr a" "input_id_of a \<noteq> None \<or> idempotency_key_of a \<noteq> None"
    and log: "consume_records br records app1 = Some (results, app2)" "\<forall>res \<in> set results. ar_status res \<noteq> ProcessingFailed"
  shows "(\<exists>dup. ar_process_status dup = Some StatusDuplicate \<and> ar_publish_result dup = empty_publish_result \<and>
      \<not> ar_committed dup \<and> consume_record br record app2 =
        (if offset_committed app2 record then commit_source br record dup app2
         else (Inr (failed UnsafeDuplicate ''duplicate source offset has not been committed'' dup), app2))) \<and>
    (ar_committed result \<longrightarrow> offset_committed app2 record) \<and>
    (\<not> ar_committed result \<longrightarrow> \<not> offset_committed app record \<longrightarrow>
       (\<forall>r \<in> set records. \<not> same_offset (source_offset r) (source_offset record)) \<longrightarrow> \<not> offset_committed app2 record)"
proof -
  have "ar_process_status result \<noteq> None \<or> ar_status result = PublishFailed" using first(2) by simp
  from consume_processed [OF first(1) this] obtain pr rt where run: "input_guard (app_guard_config app) record = None"
    "runtime_process (to_inbound_record record) Live (app_runtime app) = Inr (pr, rt)"
    "deliver br record pr (app\<lparr>app_runtime := rt\<rparr>) = (Inr result, app1)" .
  note frame = deliver_frame [OF run(3)]
  note kept = consume_records_keep [OF log]
  let ?r = "to_inbound_record record"
  have parse: "parse_engine_input (ir_raw_json ?r) = Inr a" using parsed(1) by simp
  have "answered a ?r (app_runtime app1)"
    using processed_answered [OF parse run(2)] frame first(2,3) by simp
  then have "answered a ?r (app_runtime app2)" using answered_kept kept by blast
  from answered_again [OF this parsed(2) parse, of Live] obtain d i where
    d: "runtime_process ?r Live (app_runtime app2) = Inr (d, app_runtime app2)" "pr_status d = StatusDuplicate"
      "result_empty d" "pr_duplicate d = Some i" "di_original_topic i = cr_topic record"
      "di_original_partition i = cr_partition record" "di_original_offset i = cr_offset record"
    by auto
  have "duplicate_source_offset i = source_offset record"
    using d(5-7) by (simp add: duplicate_source_offset_def source_offset_def)
  then have safe: "duplicate_source_is_safe d (app_committed_offsets app2) = offset_committed app2 record"
    using d(4) by (simp add: duplicate_source_is_safe_def offset_committed_def)
  let ?dup = "empty_app_result\<lparr>ar_source := Some record, ar_process_status := Some (pr_status d),
    ar_trace := Some (trace_summary d), ar_publish_result := empty_publish_result\<rparr>"
  have same: "app2\<lparr>app_runtime := app_runtime app2\<rparr> = app2" "app2\<lparr>app_world := app_world app2\<rparr> = app2" by simp_all
  have "consume_record br record app2 = deliver br record d app2"
    using run(1) d(1) kept frame by (simp add: consume_record_def same(1))
  also have "\<dots> = (if offset_committed app2 record then commit_source br record ?dup app2
       else (Inr (failed UnsafeDuplicate ''duplicate source offset has not been committed'' ?dup), app2))"
    using d(2) d(3) safe by (simp add: deliver_def app_publish_def outbox_publish_def Let_def publish_ok_def
      empty_publish_result_def same published_records_def result_empty_def)
  finally have "\<exists>dup. ar_process_status dup = Some StatusDuplicate \<and> ar_publish_result dup = empty_publish_result \<and>
      \<not> ar_committed dup \<and> consume_record br record app2 =
        (if offset_committed app2 record then commit_source br record dup app2
         else (Inr (failed UnsafeDuplicate ''duplicate source offset has not been committed'' dup), app2))"
    using d(2) by (intro exI [of _ ?dup]) (simp add: empty_app_result_def)
  moreover have "offset_committed app2 record" if "ar_committed result"
  proof -
    have "\<exists>c \<in> set (app_committed_offsets app1). same_offset c (source_offset record)"
      using that frame list_ex_mark_committed [of "source_offset record" "app_committed_offsets app"] by (simp add: list_ex_iff)
    then show ?thesis using kept by (auto simp: offset_committed_def list_ex_iff)
  qed
  moreover have "\<not> offset_committed app2 record"
    if "\<not> ar_committed result" "\<not> offset_committed app record" "\<forall>r \<in> set records. \<not> same_offset (source_offset r) (source_offset record)"
    using that frame kept by (fastforce simp: offset_committed_def list_ex_iff)
  ultimately show ?thesis by blast
qed

theorem redelivery_publishes_nothing_witness:
  "\<exists>result app1 result2 app2 result3 app3. consume_record (demo_broker None) demo_consumed (demo_app ()) = (Inr result, app1) \<and>
     ar_committed result \<and>
     consume_record (demo_broker None) demo_consumed app1 = (Inr result2, app2) \<and> ar_committed result2 \<and>
     ar_publish_result result2 = empty_publish_result \<and>
     consume_record (demo_broker None) demo_consumed app2 = (Inr result3, app3) \<and> ar_committed result3 \<and>
     ar_publish_result result3 = empty_publish_result"
proof -
  obtain result app1 where run: "consume_record (demo_broker None) demo_consumed (demo_app ()) = (Inr result, app1)"
      "ar_process_status result = Some StatusProcessed" "ar_committed result" "app_pre_commit_hook app1 = None"
    using demo_consume [OF demo_answers(1), of None "()"] by auto
  note again = redelivery_publishes_nothing [OF run(1,2) _ demo_consumed_parsed(1) disjI1 [OF demo_consumed_parsed(2)]]
  have commit: "\<exists>res app'. commit_source (demo_broker None) demo_consumed dup app = (Inr res, app') \<and> ar_committed res \<and>
      ar_publish_result res = ar_publish_result dup \<and> ar_status res = Processed \<and> app_pre_commit_hook app' = None"
    if "app_pre_commit_hook app = None" for dup and app :: "unit RedpandaEngineApp"
    using that by (auto simp: commit_source_def run_pre_commit_hook_def demo_broker_def Let_def)
  have "consume_records (demo_broker None) [] app1 = Some ([], app1)" by simp
  from again [OF _ this] run(3) obtain dup where dup: "ar_publish_result dup = empty_publish_result"
      "consume_record (demo_broker None) demo_consumed app1 = commit_source (demo_broker None) demo_consumed dup app1"
    by auto
  obtain result2 app2 where two: "consume_record (demo_broker None) demo_consumed app1 = (Inr result2, app2)" "ar_committed result2"
      "ar_publish_result result2 = empty_publish_result" "ar_status result2 = Processed" "app_pre_commit_hook app2 = None"
    using commit [OF run(4)] dup by metis
  have "consume_records (demo_broker None) [demo_consumed] app1 = Some ([result2], app2)" using two(1) by simp
  from again [OF _ this] run(3) two(4) obtain dup2 where dup2: "ar_publish_result dup2 = empty_publish_result"
      "consume_record (demo_broker None) demo_consumed app2 = commit_source (demo_broker None) demo_consumed dup2 app2"
    by auto
  then show ?thesis using run two commit [OF two(5)] by metis
qed

text \<open>
  A market price or funding input without an input id has no name to be known by: nothing is kept of it, so it
  is processed again, and its outputs are published again, whenever it comes again.
\<close>

lemma unnamed_input_never_duplicate:
  "input_id_of a = None \<Longrightarrow> idempotency_key_of a = None \<Longrightarrow> duplicate_of a rt = None \<and> mark_input a r rt = rt"
  by (cases a) (simp_all add: duplicate_input_result_for_def mark_input_processed_def)

text \<open>
  Outputs that could not be published are lost: when publishing a record fails, its offset is not
  committed, but recovery replays it silently, which gives the state the failed attempt had
  reached, and from there on every delivery of the record is a duplicate without outputs.
\<close>

theorem unpublished_outputs_lost:
  assumes failed: "consume_record br record app = (Inr result, app1)" "ar_status result = PublishFailed"
    and parsed: "parse_engine_input (cr_value record) = Inr a" "input_id_of a \<noteq> None \<or> idempotency_key_of a \<noteq> None"
  shows "\<not> ar_committed result \<and> (\<exists>replayed. process_replay (to_inbound_record record) (app_runtime app) = Inr (replayed, app_runtime app1) \<and>
    result_empty replayed) \<and>
    (\<exists>dup. runtime_process (to_inbound_record record) Live (app_runtime app1) = Inr (dup, app_runtime app1) \<and> published_records dup = [])"
proof -
  from consume_processed [OF failed(1) disjI2 [OF failed(2)]] obtain pr rt where run:
    "runtime_process (to_inbound_record record) Live (app_runtime app) = Inr (pr, rt)"
    "deliver br record pr (app\<lparr>app_runtime := rt\<rparr>) = (Inr result, app1)" .
  note frame = deliver_frame [OF run(2)]
  have "pr_status pr \<noteq> StatusDuplicate"
  proof
    assume "pr_status pr = StatusDuplicate"
    then show False
      using run(2) failed(2)
      by (auto simp: deliver_def app_publish_def outbox_publish_def Let_def publish_ok_def empty_publish_result_def
          failed_def commit_source_def split: if_splits option.splits prod.splits sum.splits)
  qed
  moreover have "parse_engine_input (ir_raw_json (to_inbound_record record)) = Inr a" using parsed(1) by simp
  ultimately obtain d where d: "runtime_process (to_inbound_record record) Live rt = Inr (d, rt)" "pr_status d = StatusDuplicate"
      "result_empty d"
    using answered_again [OF processed_answered parsed(2), OF _ run(1)] by blast
  have "\<not> ar_committed result"
    using run(2) failed(2)
    by (auto simp: deliver_def Let_def failed_def commit_source_def empty_app_result_def split: if_splits option.splits prod.splits sum.splits)
  moreover have "process_replay (to_inbound_record record) (app_runtime app) = Inr (pr\<lparr>pr_replies := [], pr_events := []\<rparr>, rt)"
    unfolding process_replay_silent run(1) by (simp add: silent_def)
  ultimately show ?thesis using d frame by (auto simp: result_empty_def published_records_def)
qed

theorem unpublished_outputs_lost_witness:
  "\<exists>result app1. consume_record (demo_broker (Some ''down'')) demo_consumed (demo_app ()) = (Inr result, app1) \<and>
     ar_status result = PublishFailed \<and>
     (\<exists>replayed. process_replay (to_inbound_record demo_consumed) (demo_runtime 700 500) = Inr (replayed, app_runtime app1) \<and>
        result_empty replayed)"
proof -
  obtain result app1 where run: "consume_record (demo_broker (Some ''down'')) demo_consumed (demo_app ()) = (Inr result, app1)"
      "ar_status result = PublishFailed"
    using demo_consume [OF demo_answers(1), of "Some ''down''" "()"] by auto
  from unpublished_outputs_lost [OF this demo_consumed_parsed(1) disjI1 [OF demo_consumed_parsed(2)]] run
  show ?thesis by (auto simp: demo_app_def)
qed

end
