(* ===== verification/RecoveryProperties.thy ===== *)
theory RecoveryProperties
  imports Recovery BrokerProperties
begin

text \<open>
  Properties of checkpoints and recovery: what a checkpoint carries over, that recovery ends, that the
  recovered runtime is the one live processing would have reached, and where recovery and live
  processing part.
\<close>

section \<open>Consumers\<close>

text \<open>
  What the code relies on of a consumer with one assigned partition: seeking sets its position,
  polling returns the next record at or behind the position and moves the position behind it, and
  watermarks are 64-bit integers.  \<open>log\<close> is a set of records of the partition that polling does not
  pass over.
\<close>

definition in_order :: "'w Broker \<Rightarrow> ('w \<Rightarrow> int) \<Rightarrow> ConsumedRecord set \<Rightarrow> bool" where
  "in_order br pos log \<longleftrightarrow>
     (\<forall>w r w'. br_poll br w = (Inr (Some r), w') \<longrightarrow> pos w \<le> cr_offset r \<and> pos w' = cr_offset r + 1 \<and>
        (\<forall>x \<in> log. pos w \<le> cr_offset x \<longrightarrow> cr_offset x \<le> cr_offset r \<longrightarrow> x = r)) \<and>
     (\<forall>topic part off w w'. br_seek br topic part off w = (Inr None, w') \<longrightarrow> pos w' = off) \<and>
     (\<forall>topic part w r offsets w'. br_get_watermark br topic part w = (Inr r, w') \<longrightarrow>
        wr_offsets r = Some offsets \<longrightarrow> in_i64 (wm_low offsets) \<and> in_i64 (wm_high offsets))"

lemma in_order_poll: "in_order br pos log \<Longrightarrow> br_poll br w = (Inr (Some r), w') \<Longrightarrow> pos w \<le> cr_offset r \<and> pos w' = cr_offset r + 1"
  by (simp add: in_order_def)

lemma in_order_covers:
  "in_order br pos log \<Longrightarrow> br_poll br w = (Inr (Some r), w') \<Longrightarrow> x \<in> log \<Longrightarrow> pos w \<le> cr_offset x \<Longrightarrow>
     cr_offset x \<le> cr_offset r \<Longrightarrow> x = r"
  unfolding in_order_def by blast

lemma in_order_seek: "in_order br pos log \<Longrightarrow> br_seek br topic part off w = (Inr None, w') \<Longrightarrow> pos w' = off"
  by (simp add: in_order_def)

lemma in_order_watermark:
  "in_order br pos log \<Longrightarrow> br_get_watermark br topic part w = (Inr r, w') \<Longrightarrow> wr_offsets r = Some offsets \<Longrightarrow>
     in_i64 (wm_low offsets) \<and> in_i64 (wm_high offsets)"
  unfolding in_order_def by blast

section \<open>The replay loop\<close>

text \<open>A step that goes on has polled one record of the source below the high watermark and applied it.\<close>

lemma replay_step_continues:
  assumes "replay_step br wm result rt w = Inr (result1, rt1, w1)"
  obtains polled pr src where "br_poll br w = (Inr (Some polled), w1)" "rv_source_position result = Some src"
    "cr_topic polled = cp_topic src" "cr_partition polled = cp_partition src" "cr_offset polled < wm_high wm"
    "runtime_process (to_inbound_record polled) Live rt = Inr (pr, rt1)"
    "result1 = result\<lparr>rv_replay_output_records := i64 (rv_replay_output_records result),
      rv_replayed_records := i64 (rv_replayed_records result + 1),
      rv_last_replayed_offset := Some (cr_offset polled), rv_next_offset := i64 (cr_offset polled + 1),
      rv_caught_up := i64 (cr_offset polled + 1) \<ge> wm_high wm\<rparr>"
proof -
  obtain polled src where r: "br_poll br w = (Inr (Some polled), w1)" "rv_source_position result = Some src"
    "cr_topic polled = cp_topic src" "cr_partition polled = cp_partition src" "cr_offset polled < wm_high wm"
    "replay_record wm polled result rt = Inr (result1, rt1)"
    using assms by (auto simp: replay_step_def split: prod.splits sum.splits option.splits if_splits)
  obtain pr where pr: "runtime_process (to_inbound_record polled) Live rt = Inr (pr, rt1)"
    "process_replay (to_inbound_record polled) rt = Inr (silent pr, rt1)"
    using r(6) by (cases "runtime_process (to_inbound_record polled) Live rt")
      (auto simp: replay_record_def process_replay_silent Let_def split: runtime_error.splits)
  show ?thesis
    by (rule that [OF r(1-5) pr(1)]) (use r(6) pr(2) in \<open>auto simp: replay_record_def silent_def Let_def\<close>)
qed

lemma replay_step_ends:
  assumes "replay_step br wm result rt w = Inl (Inr result', rt', w')" "rv_status result' = Replayed"
  shows "rt' = rt \<and> rv_replayed_records result' = rv_replayed_records result \<and>
    rv_replay_output_records result' = rv_replay_output_records result \<and> rv_next_offset result' = rv_next_offset result \<and>
    rv_source_position result' = rv_source_position result \<and> rv_watermark result' = rv_watermark result \<and>
    (rv_caught_up result' \<longrightarrow> (\<exists>r. br_poll br w = (Inr (Some r), w') \<and> wm_high wm \<le> cr_offset r))"
  using assms
  by (auto simp: replay_step_def replay_record_def recovery_fail_def Let_def
      split: prod.splits sum.splits option.splits if_splits runtime_error.splits)

text \<open>The records a replay has applied.\<close>

definition replayed_log :: "ConsumedRecord set \<Rightarrow> BrokerWatermarkOffsets \<Rightarrow> RecoveryResult \<Rightarrow> EngineRuntime \<Rightarrow> ConsumedRecord list \<Rightarrow>
    RecoveryResult \<Rightarrow> EngineRuntime \<Rightarrow> bool" where
  "replayed_log log wm result rt rs result' rt' \<longleftrightarrow>
     (\<exists>outs. process_log (map to_inbound_record rs) rt = Inr (outs, rt')) \<and>
     rv_source_position result' = rv_source_position result \<and> rv_watermark result' = rv_watermark result \<and>
     (\<forall>r \<in> set rs. \<exists>src. rv_source_position result = Some src \<and> cr_topic r = cp_topic src \<and> cr_partition r = cp_partition src) \<and>
     sorted_wrt (<) (map cr_offset rs) \<and> (\<forall>r \<in> set rs. rv_next_offset result \<le> cr_offset r \<and> cr_offset r < wm_high wm) \<and>
     rv_replayed_records result' = i64 (rv_replayed_records result + int (length rs)) \<and>
     rv_replay_output_records result' = i64 (rv_replay_output_records result) \<and>
     rv_next_offset result' = (if rs = [] then rv_next_offset result else cr_offset (last rs) + 1) \<and>
     rv_next_offset result + int (length rs) \<le> rv_next_offset result' \<and>
     (\<forall>x \<in> log. rv_next_offset result \<le> cr_offset x \<longrightarrow> cr_offset x < rv_next_offset result' \<longrightarrow> x \<in> set rs) \<and>
     (rv_caught_up result' \<longrightarrow> (\<forall>x \<in> log. rv_next_offset result' \<le> cr_offset x \<longrightarrow> wm_high wm \<le> cr_offset x))"

lemma i64_i64_add [simp]: "i64 (i64 x + y) = i64 (x + y)"
  using signed_take_bit_add [of 63 "signed_take_bit 63 x" y] signed_take_bit_add [of 63 x y] by (simp add: i64_def)

lemma replayed_log_Nil:
  assumes "rv_replayed_records result' = rv_replayed_records result" "in_i64 (rv_replayed_records result)"
    "rv_replay_output_records result' = rv_replay_output_records result" "in_i64 (rv_replay_output_records result)"
    "rv_next_offset result' = rv_next_offset result" "rv_source_position result' = rv_source_position result"
    "rv_watermark result' = rv_watermark result"
    "rv_caught_up result' \<longrightarrow> (\<forall>x \<in> log. rv_next_offset result' \<le> cr_offset x \<longrightarrow> wm_high wm \<le> cr_offset x)"
  shows "replayed_log log wm result rt [] result' rt"
  using assms by (simp add: replayed_log_def)

lemma replayed_log_Cons:
  assumes step: "rv_source_position result = Some src" "cr_topic polled = cp_topic src" "cr_partition polled = cp_partition src"
      "rv_next_offset result \<le> cr_offset polled" "cr_offset polled < wm_high wm"
      "runtime_process (to_inbound_record polled) Live rt = Inr (pr, rt1)"
    and result1: "rv_source_position result1 = rv_source_position result" "rv_watermark result1 = rv_watermark result"
      "rv_replay_output_records result1 = i64 (rv_replay_output_records result)"
      "rv_replayed_records result1 = i64 (rv_replayed_records result + 1)" "rv_next_offset result1 = cr_offset polled + 1"
    and covers: "\<forall>x \<in> log. rv_next_offset result \<le> cr_offset x \<longrightarrow> cr_offset x \<le> cr_offset polled \<longrightarrow> x = polled"
    and log: "replayed_log log wm result1 rt1 rs result' rt'"
  shows "replayed_log log wm result rt (polled # rs) result' rt'"
proof -
  obtain outs where "process_log (map to_inbound_record rs) rt1 = Inr (outs, rt')"
    using log by (auto simp: replayed_log_def)
  then have "process_log (map to_inbound_record (polled # rs)) rt = Inr (pr # outs, rt')" using step(6) by simp
  then have 1: "\<exists>outs. process_log (map to_inbound_record (polled # rs)) rt = Inr (outs, rt')" by blast
  have 2: "cr_offset polled < cr_offset r \<and> cr_offset r < wm_high wm" if "r \<in> set rs" for r
    using log that result1(5) unfolding replayed_log_def by fastforce
  have 3: "rv_replayed_records result' = i64 (rv_replayed_records result + int (length (polled # rs)))"
    using log result1(4) by (simp add: replayed_log_def add.assoc)
  have 4: "rv_next_offset result' = (if polled # rs = [] then rv_next_offset result else cr_offset (last (polled # rs)) + 1)"
    "rv_next_offset result + int (length (polled # rs)) \<le> rv_next_offset result'"
    using log result1(5) step(4) by (auto simp: replayed_log_def)
  have 5: "rv_source_position result' = rv_source_position result" "rv_watermark result' = rv_watermark result" "sorted_wrt (<) (map cr_offset rs)"
    "\<forall>r \<in> set rs. \<exists>src. rv_source_position result = Some src \<and> cr_topic r = cp_topic src \<and> cr_partition r = cp_partition src"
    "rv_replay_output_records result' = i64 (rv_replay_output_records result)"
    using log result1(1-3) by (auto simp: replayed_log_def)
  have 6: "\<forall>x \<in> log. rv_next_offset result \<le> cr_offset x \<longrightarrow> cr_offset x < rv_next_offset result' \<longrightarrow> x \<in> set (polled # rs)"
  proof (intro ballI impI)
    fix x
    assume x: "x \<in> log" "rv_next_offset result \<le> cr_offset x" "cr_offset x < rv_next_offset result'"
    show "x \<in> set (polled # rs)"
    proof (cases "cr_offset x \<le> cr_offset polled")
      case False
      then have "rv_next_offset result1 \<le> cr_offset x" using result1(5) by simp
      then show ?thesis using log x(1,3) unfolding replayed_log_def by auto
    qed (use covers x in auto)
  qed
  have 7: "rv_caught_up result' \<longrightarrow> (\<forall>x \<in> log. rv_next_offset result' \<le> cr_offset x \<longrightarrow> wm_high wm \<le> cr_offset x)"
    using log by (simp add: replayed_log_def)
  show ?thesis
    unfolding replayed_log_def
  proof (intro conjI)
    show "\<forall>r \<in> set (polled # rs). rv_next_offset result \<le> cr_offset r \<and> cr_offset r < wm_high wm"
      using 2 step(4,5) by fastforce
  qed (use 1 2 3 4 5 6 7 step in auto)
qed

lemma replay_loop_in_order:
  assumes order: "in_order br pos log" and high: "in_i64 (wm_high wm)"
  shows "pos w = rv_next_offset result \<Longrightarrow> 0 \<le> pos w \<Longrightarrow> in_i64 (rv_replayed_records result) \<Longrightarrow>
    in_i64 (rv_replay_output_records result) \<Longrightarrow> rv_status result = Replayed \<Longrightarrow>
    \<exists>y. replay_loop br wm result rt w = Some y \<and>
      (\<forall>result' rt' w'. y = (Inr result', rt', w') \<longrightarrow> rv_status result' = Replayed \<longrightarrow>
        (\<exists>rs. replayed_log log wm result rt rs result' rt'))"
proof (induction "nat (wm_high wm - rv_next_offset result)" arbitrary: result rt w rule: less_induct)
  case less
  note ok = less.prems(3,4)
  show ?case
  proof (cases "rv_next_offset result < wm_high wm")
    case False
    then show ?thesis
      using ok by (subst replay_loop.simps) (auto intro!: exI [of _ "[]"] replayed_log_Nil)
  next
    case True
    show ?thesis
    proof (cases "replay_step br wm result rt w")
      case (Inl outcome)
      then have "replay_loop br wm result rt w = Some outcome" using True by (subst replay_loop.simps) simp
      moreover have "replayed_log log wm result rt [] result' rt'"
        if "outcome = (Inr result', rt', w')" "rv_status result' = Replayed" for result' rt' w'
      proof -
        note ends = replay_step_ends [OF Inl [unfolded that(1)] that(2)]
        have "wm_high wm \<le> cr_offset x"
          if x: "rv_caught_up result'" "x \<in> log" "rv_next_offset result' \<le> cr_offset x" for x
        proof (rule ccontr)
          assume "\<not> wm_high wm \<le> cr_offset x"
          moreover obtain r where "br_poll br w = (Inr (Some r), w')" "wm_high wm \<le> cr_offset r" using ends x(1) by blast
          ultimately show False using in_order_covers [OF order _ x(2)] x(3) ends less.prems(1) by fastforce
        qed
        then show ?thesis using ends ok replayed_log_Nil [of result' result log wm] by simp
      qed
      ultimately show ?thesis by blast
    next
      case (Inr next_state)
      obtain result1 rt1 w1 where n: "next_state = (result1, rt1, w1)" by (cases next_state)
      from replay_step_continues [OF Inr [unfolded n]] obtain polled pr src where s:
        "br_poll br w = (Inr (Some polled), w1)" "rv_source_position result = Some src"
        "cr_topic polled = cp_topic src" "cr_partition polled = cp_partition src" "cr_offset polled < wm_high wm"
        "runtime_process (to_inbound_record polled) Live rt = Inr (pr, rt1)"
        "result1 = result\<lparr>rv_replay_output_records := i64 (rv_replay_output_records result),
          rv_replayed_records := i64 (rv_replayed_records result + 1),
          rv_last_replayed_offset := Some (cr_offset polled), rv_next_offset := i64 (cr_offset polled + 1),
          rv_caught_up := i64 (cr_offset polled + 1) \<ge> wm_high wm\<rparr>" .
      note p = in_order_poll [OF order s(1)]
      have off: "i64 (cr_offset polled + 1) = cr_offset polled + 1"
        using p less.prems(1,2) s(5) high by (intro i64_id) (simp add: in_i64_def)
      have r1: "rv_next_offset result1 = cr_offset polled + 1" "rv_source_position result1 = rv_source_position result"
        "rv_watermark result1 = rv_watermark result" "rv_replay_output_records result1 = i64 (rv_replay_output_records result)"
        "rv_replayed_records result1 = i64 (rv_replayed_records result + 1)" "rv_status result1 = Replayed"
        using off less.prems(5) by (simp_all add: s(7))
      have "nat (wm_high wm - rv_next_offset result1) < nat (wm_high wm - rv_next_offset result)" "pos w1 = rv_next_offset result1"
        "0 \<le> pos w1" "in_i64 (rv_replayed_records result1)" "in_i64 (rv_replay_output_records result1)"
        using p less.prems(1,2) True by (simp_all add: r1)
      from less.hyps [OF this r1(6), of rt1] obtain y where y: "replay_loop br wm result1 rt1 w1 = Some y"
        "\<And>result' rt' w'. y = (Inr result', rt', w') \<Longrightarrow> rv_status result' = Replayed \<Longrightarrow>
           \<exists>rs. replayed_log log wm result1 rt1 rs result' rt'" by blast
      have "replay_loop br wm result rt w = Some y" using True Inr n y(1) by (subst replay_loop.simps) simp
      moreover have "\<exists>rs. replayed_log log wm result rt rs result' rt'"
        if out: "y = (Inr result', rt', w')" "rv_status result' = Replayed" for result' rt' w'
      proof -
        obtain rs where "replayed_log log wm result1 rt1 rs result' rt'" using y(2) [OF out] by blast
        from replayed_log_Cons [OF s(2-4) _ s(5,6) r1(2-5,1) _ this] show ?thesis
          using p in_order_covers [OF order s(1)] less.prems(1) by auto
      qed
      ultimately show ?thesis by blast
    qed
  qed
qed

section \<open>What a recovery hands over\<close>

lemma replayed_log_start:
  "replayed_log log wm (result\<lparr>rv_status := st, rv_caught_up := c\<rparr>) rt rs result' rt' = replayed_log log wm result rt rs result' rt'"
  by (simp add: replayed_log_def)

lemma replay_until_in_order:
  assumes "in_order br pos log" "in_i64 (wm_high wm)" "pos w = rv_next_offset result" "0 \<le> pos w"
    "rv_replayed_records result = 0" "rv_replay_output_records result = 0"
  shows "\<exists>y. replay_until_caught_up br wm result rt w = Some y \<and>
      (\<forall>result' rt' w'. y = (Inr result', rt', w') \<longrightarrow> rv_status result' = Replayed \<longrightarrow>
        (\<exists>rs. replayed_log log wm result rt rs result' rt'))"
proof -
  let ?result = "result\<lparr>rv_status := Replayed, rv_caught_up := rv_next_offset result \<ge> wm_high wm\<rparr>"
  have "pos w = rv_next_offset ?result" "in_i64 (rv_replayed_records ?result)" "in_i64 (rv_replay_output_records ?result)"
    "rv_status ?result = Replayed" using assms by simp_all
  from replay_loop_in_order [OF assms(1,2) this(1) assms(4) this(2-4), of rt] show ?thesis
    by (simp only: replay_until_caught_up_def replayed_log_start)
qed

text \<open>
  What a recovery hands over: a runtime that has gone through a log from its base, with the counters
  of the result to match.
\<close>

definition recovered :: "ConsumedRecord set \<Rightarrow> EngineRuntime \<Rightarrow> int64 \<Rightarrow> string \<Rightarrow> int32 \<Rightarrow> RecoveryResult \<Rightarrow> EngineRuntime \<Rightarrow> bool" where
  "recovered log base start topic part result rt' \<longleftrightarrow> (\<exists>rs outs high.
     process_log (map to_inbound_record rs) base = Inr (outs, rt') \<and>
     (\<forall>r \<in> set rs. cr_topic r = topic \<and> cr_partition r = part \<and> start \<le> cr_offset r \<and> cr_offset r < high) \<and>
     sorted_wrt (<) (map cr_offset rs) \<and> map_option wm_high (rv_watermark result) = Some high \<and>
     rv_replayed_records result = int (length rs) \<and> rv_replay_output_records result = 0 \<and>
     rv_next_offset result = (if rs = [] then start else cr_offset (last rs) + 1) \<and>
     (rv_caught_up result \<longrightarrow> (\<forall>x \<in> log. start \<le> cr_offset x \<longrightarrow> cr_offset x < high \<longrightarrow> x \<in> set rs)))"

lemma replayed_log_recovered:
  assumes log: "replayed_log log wm result rt rs result' rt'" and r: "rv_source_position result = Some src"
      "rv_replayed_records result = 0" "rv_replay_output_records result = 0" "rv_watermark result = Some wm"
    and b: "0 \<le> rv_next_offset result" "in_i64 (wm_high wm)" "rv_next_offset result \<le> wm_high wm"
  shows "recovered log rt (rv_next_offset result) (cp_topic src) (cp_partition src) result' rt'"
proof -
  have "rv_next_offset result' \<le> wm_high wm"
    using log b(3) unfolding replayed_log_def by (cases rs rule: rev_cases) auto
  then have "in_i64 (int (length rs))" using log b unfolding replayed_log_def in_i64_def by linarith
  then have "rv_replayed_records result' = int (length rs)" using log r(2) by (simp add: replayed_log_def)
  moreover obtain outs where "process_log (map to_inbound_record rs) rt = Inr (outs, rt')"
    using log by (auto simp: replayed_log_def)
  moreover have "\<forall>x \<in> log. rv_next_offset result \<le> cr_offset x \<longrightarrow> cr_offset x < wm_high wm \<longrightarrow> x \<in> set rs"
    if "rv_caught_up result'"
  proof (intro ballI impI)
    fix x
    assume x: "x \<in> log" "rv_next_offset result \<le> cr_offset x" "cr_offset x < wm_high wm"
    have "rv_next_offset result' \<le> cr_offset x \<longrightarrow> wm_high wm \<le> cr_offset x"
      using log that x(1) unfolding replayed_log_def by blast
    then have "cr_offset x < rv_next_offset result'" using x(3) by linarith
    then show "x \<in> set rs" using log x(1,2) unfolding replayed_log_def by blast
  qed
  moreover have "rv_watermark result' = Some wm" "rv_replay_output_records result' = 0" "sorted_wrt (<) (map cr_offset rs)"
    "rv_next_offset result' = (if rs = [] then rv_next_offset result else cr_offset (last rs) + 1)"
    using log r(3,4) by (auto simp: replayed_log_def)
  moreover have "\<forall>r \<in> set rs. cr_topic r = cp_topic src \<and> cr_partition r = cp_partition src \<and> rv_next_offset result \<le> cr_offset r \<and>
       cr_offset r < wm_high wm"
    using log r(1) unfolding replayed_log_def by fastforce
  ultimately show ?thesis unfolding recovered_def by (intro exI [of _ rs] exI [of _ outs] exI [of _ "wm_high wm"]) simp
qed

lemma recovered_Nil:
  "wm_high wm \<le> start \<Longrightarrow> rv_watermark result = Some wm \<Longrightarrow> rv_replayed_records result = 0 \<Longrightarrow> rv_replay_output_records result = 0 \<Longrightarrow>
     rv_next_offset result = start \<Longrightarrow> recovered log rt start topic part result rt"
  by (auto simp: recovered_def intro!: exI [of _ "[]"])

lemma replay_until_recovered:
  assumes order: "in_order br pos log" "pos w = rv_next_offset result"
    and r: "rv_source_position result = Some src" "rv_replayed_records result = 0" "rv_replay_output_records result = 0"
      "rv_watermark result = Some wm" "0 \<le> rv_next_offset result" "rv_next_offset result \<le> wm_high wm" "in_i64 (wm_high wm)"
  shows "\<exists>y. replay_until_caught_up br wm result rt w = Some y \<and>
    (\<forall>result' rt' w'. y = (Inr result', rt', w') \<longrightarrow> rv_status result' = Replayed \<longrightarrow>
      recovered log rt (rv_next_offset result) (cp_topic src) (cp_partition src) result' rt')"
proof -
  have "0 \<le> pos w" using order(2) r(5) by simp
  from replay_until_in_order [OF order(1) r(7) order(2) this r(2,3), of rt] obtain y where y:
    "replay_until_caught_up br wm result rt w = Some y"
    "\<And>result' rt' w'. y = (Inr result', rt', w') \<Longrightarrow> rv_status result' = Replayed \<Longrightarrow> \<exists>rs. replayed_log log wm result rt rs result' rt'"
    by blast
  show ?thesis using y replayed_log_recovered [OF _ r(1-5) r(7,6)] by blast
qed

text \<open>The loop ends a replay as \<open>Replayed\<close> or as a failure, never as \<open>Recovered\<close> or \<open>NoCheckpoint\<close>.\<close>

lemma replay_step_ends_status:
  "replay_step br wm result rt w = Inl (Inr result', rt', w') \<Longrightarrow> rv_status result' \<in> {rv_status result, ReplayFailed}"
  by (auto simp: replay_step_def replay_record_def recovery_fail_def Let_def
      split: prod.splits sum.splits option.splits if_splits runtime_error.splits)

lemma replay_loop_status:
  assumes run: "replay_loop br wm result rt w = Some y"
  shows "rv_status result = Replayed \<longrightarrow> (\<forall>result' rt' w'. y = (Inr result', rt', w') \<longrightarrow> recovery_ok result' \<longrightarrow> rv_status result' = Replayed)"
proof (rule replay_loop.raw_induct [OF _ run])
  fix f br wm result rt w y
  assume IH: "\<And>br wm result rt w y. f br wm result rt w = Some y \<Longrightarrow> rv_status result = Replayed \<longrightarrow>
      (\<forall>result' rt' w'. y = (Inr result', rt', w') \<longrightarrow> recovery_ok result' \<longrightarrow> rv_status result' = Replayed)"
    and body: "(if rv_next_offset result < wm_high wm
      then case replay_step br wm result rt w of Inl outcome \<Rightarrow> Some outcome | Inr (result, rt, w) \<Rightarrow> f br wm result rt w
      else Some (Inr result, rt, w)) = Some y"
  show "rv_status result = Replayed \<longrightarrow> (\<forall>result' rt' w'. y = (Inr result', rt', w') \<longrightarrow> recovery_ok result' \<longrightarrow> rv_status result' = Replayed)"
  proof (cases "replay_step br wm result rt w")
    case (Inl outcome)
    show ?thesis
    proof (cases "rv_next_offset result < wm_high wm")
      case True
      then have "y = outcome" using body Inl by simp
      then show ?thesis using replay_step_ends_status [of br wm result rt w] Inl by (auto simp: recovery_ok_def)
    next
      case False
      then show ?thesis using body by auto
    qed
  next
    case (Inr next_state)
    obtain result1 rt1 w1 where n: "next_state = (result1, rt1, w1)" by (cases next_state)
    have "rv_status result1 = rv_status result" by (rule replay_step_continues [OF Inr [unfolded n]]) simp
    then show ?thesis using body IH [of br wm result1 rt1 w1 y] Inr n by (auto split: if_splits)
  qed
qed

lemma replay_until_status:
  "replay_until_caught_up br wm result rt w = Some (Inr result', rt', w') \<Longrightarrow> recovery_ok result' \<Longrightarrow> rv_status result' = Replayed"
  unfolding replay_until_caught_up_def by (drule replay_loop_status) simp

lemma recover_from_start_ok:
  assumes order: "in_order br pos log"
  shows "\<exists>y. recover_from_start br source True rt w = Some y \<and>
    (\<forall>result' rt' w'. y = (Inr result', rt', w') \<longrightarrow> recovery_ok result' \<longrightarrow>
      (\<exists>start. recovered log rt start (so_topic source) (so_partition source) result' rt'))"
proof (cases "br_get_watermark br (so_topic source) (so_partition source) w")
  case (Pair answer w1)
  show ?thesis
  proof (cases answer)
    case (Inl e)
    then show ?thesis using Pair by (simp add: recover_from_start_def)
  next
    case (Inr r)
    show ?thesis
    proof (cases "if wr_error r = None then wr_offsets r else None")
      case None
      then show ?thesis using Pair Inr
        by (simp add: recover_from_start_def Let_def watermark_failure_def recovery_fail_def recovery_ok_def)
    next
      case (Some offsets)
      then have o: "wr_error r = None" "wr_offsets r = Some offsets" by (auto split: if_splits)
      then have range: "in_i64 (wm_high offsets)" using in_order_watermark [OF order] Pair Inr by blast
      show ?thesis
      proof (cases "invalid_watermark offsets")
        case True
        then show ?thesis using Pair Inr o
          by (simp add: recover_from_start_def Let_def recovery_fail_def recovery_ok_def)
      next
        case False
        obtain sought w2 where seek: "br_seek br (so_topic source) (so_partition source) (wm_low offsets) w1 = (sought, w2)"
          by (cases "br_seek br (so_topic source) (so_partition source) (wm_low offsets) w1")
        let ?src = "\<lparr>cp_topic = so_topic source, cp_partition = so_partition source, cp_next_offset = wm_low offsets\<rparr>"
        let ?result = "empty_recovery_result\<lparr>rv_source_position := Some ?src, rv_watermark := Some offsets,
          rv_next_offset := wm_low offsets, rv_caught_up := wm_low offsets \<ge> wm_high offsets\<rparr>"
        have e: "recover_from_start br source True rt w = (case sought of
            Inl e \<Rightarrow> Some (Inl (Propagated e), rt, w2)
          | Inr (Some e) \<Rightarrow> Some (Inr (recovery_fail (?result\<lparr>rv_caught_up := False\<rparr>) SeekFailed e), rt, w2)
          | Inr None \<Rightarrow> if wm_low offsets < wm_high offsets then replay_until_caught_up br offsets ?result rt w2
              else Some (Inr ?result, rt, w2))"
          using Pair Inr o False seek
          by (auto simp: recover_from_start_def Let_def empty_recovery_result_def split: sum.split option.split)
        have w: "0 \<le> wm_low offsets" "wm_low offsets \<le> wm_high offsets" using False by (auto simp: invalid_watermark_def)
        have r: "rv_source_position ?result = Some ?src" "rv_replayed_records ?result = 0" "rv_replay_output_records ?result = 0"
          "rv_watermark ?result = Some offsets" "rv_next_offset ?result = wm_low offsets"
          by (simp_all add: empty_recovery_result_def)
        show ?thesis
        proof (cases "sought = Inr None \<and> wm_low offsets < wm_high offsets")
          case True
          then have "pos w2 = rv_next_offset ?result" using in_order_seek [OF order] seek r(5) by auto
          from replay_until_recovered [OF order this r(1-4) _ _ range, of rt] w True e r(5) replay_until_status
          show ?thesis by fastforce
        next
          case False
          then show ?thesis
            using e recovered_Nil [OF _ r(4,2,3,5), where log = log and rt = rt and topic = "so_topic source" and part = "so_partition source"]
            by (auto simp: recovery_fail_def recovery_ok_def split: sum.splits option.splits if_splits)
        qed
      qed
    qed
  qed
qed

lemma fail_not_ok [simp]: "status \<notin> {NoCheckpoint, Recovered, Replayed} \<Longrightarrow> \<not> recovery_ok (recovery_fail result status e)"
  by (simp add: recovery_fail_def recovery_ok_def)

lemma recover_from_checkpoint_ok:
  assumes order: "in_order br pos log"
    and src_def: "src = ck_source_position ck"
  shows "\<exists>y. recover_from_checkpoint br expected True ck rt w = Some y \<and>
    (\<forall>result' rt' w'. y = (Inr result', rt', w') \<longrightarrow> recovery_ok result' \<longrightarrow> (\<exists>base. restore_runtime ck rt = Inr base \<and>
      recovered log base (cp_next_offset src) (cp_topic src) (cp_partition src) result' rt'))"
proof (cases "case expected of Some source \<Rightarrow> \<not> same_source src source | None \<Rightarrow> False")
  case True
  then show ?thesis by (simp add: recover_from_checkpoint_def Let_def src_def [symmetric])
next
  case False
  note same = this
  obtain answer w1 where wm: "br_get_watermark br (cp_topic src) (cp_partition src) w = (answer, w1)"
    by (cases "br_get_watermark br (cp_topic src) (cp_partition src) w")
  show ?thesis
  proof (cases "\<exists>r offsets. answer = Inr r \<and> wr_error r = None \<and> wr_offsets r = Some offsets \<and>
      validate_recovery_offset src offsets = None")
    case False
    then show ?thesis
      using same wm
      by (auto simp: recover_from_checkpoint_def Let_def src_def [symmetric] watermark_failure_def validate_recovery_offset_def
          split: sum.split option.split)
  next
    case True
    then obtain r offsets where o: "answer = Inr r" "wr_error r = None" "wr_offsets r = Some offsets"
      "validate_recovery_offset src offsets = None" by blast
    have range: "in_i64 (wm_high offsets)" using in_order_watermark [OF order] wm o by blast
    have bounds: "0 \<le> cp_next_offset src" "cp_next_offset src \<le> wm_high offsets"
      using o(4) by (auto simp: validate_recovery_offset_def invalid_watermark_def split: if_splits)
    let ?result = "(with_checkpoint ck)\<lparr>rv_watermark := Some offsets\<rparr>"
    have r: "rv_source_position ?result = Some src" "rv_replayed_records ?result = 0" "rv_replay_output_records ?result = 0"
      "rv_watermark ?result = Some offsets" "rv_next_offset ?result = cp_next_offset src"
      by (simp_all add: with_checkpoint_def empty_recovery_result_def src_def)
    show ?thesis
    proof (cases "restore_runtime ck rt")
      case (Inl e)
      then show ?thesis
        using same wm o by (cases e) (simp_all add: recover_from_checkpoint_def Let_def src_def [symmetric])
    next
      case (Inr base)
      obtain sought w2 where seek: "br_seek br (cp_topic src) (cp_partition src) (cp_next_offset src) w1 = (sought, w2)"
        by (cases "br_seek br (cp_topic src) (cp_partition src) (cp_next_offset src) w1")
      have e: "recover_from_checkpoint br expected True ck rt w = (case sought of
          Inl e \<Rightarrow> Some (Inl (Propagated e), base, w2)
        | Inr (Some e) \<Rightarrow> Some (Inr (recovery_fail ?result SeekFailed e), base, w2)
        | Inr None \<Rightarrow> replay_until_caught_up br offsets ?result base w2)"
        using same wm o Inr seek
        by (simp add: recover_from_checkpoint_def Let_def src_def [symmetric] split: sum.split option.split)
      show ?thesis
      proof (cases "sought = Inr None")
        case True
        then have "pos w2 = rv_next_offset ?result" using in_order_seek [OF order] seek r(5) by auto
        from replay_until_recovered [OF order this r(1-4) _ _ range, of base] bounds True e r(5) Inr replay_until_status
        show ?thesis by fastforce
      next
        case False
        then show ?thesis using e by (auto split: sum.split option.split)
      qed
    qed
  qed
qed

section \<open>A consumer to evaluate recovery with\<close>

text \<open>A consumer over a list of records; its world is the position.\<close>

definition log_broker :: "ConsumedRecord list \<Rightarrow> int64 \<Rightarrow> int Broker" where
  "log_broker log high = \<lparr>br_poll = (\<lambda>w. case find (\<lambda>r. w \<le> cr_offset r) log of
        None \<Rightarrow> (Inr None, w) | Some r \<Rightarrow> (Inr (Some r), cr_offset r + 1)),
     br_seek = (\<lambda>t p off w. (Inr None, off)),
     br_get_watermark = (\<lambda>t p w. (Inr \<lparr>wr_offsets = Some \<lparr>wm_low = 0, wm_high = high\<rparr>, wr_error = None\<rparr>, w)),
     br_produce = (\<lambda>req w. (Inr None, w)), br_commit = (\<lambda>req w. (Inr None, w))\<rparr>"

lemma log_broker_in_order: "in_i64 high \<Longrightarrow> in_order (log_broker [r] high) (\<lambda>w. w) {r}"
  by (auto simp: in_order_def log_broker_def in_i64_def split: if_splits)

definition demo_source :: CheckpointSourcePosition where
  "demo_source = \<lparr>cp_topic = EngineInputTopic, cp_partition = 0, cp_next_offset = 4\<rparr>"

lemma demo_source_valid: "require_valid_source_position demo_source = Inr ()"
  by (simp add: require_valid_source_position_def validate_checkpoint_source_position_def demo_source_def blank_def
      EngineInputTopic_def is_space_char_def)

lemma demo_sequences_ok: "sequences_ok (demo_runtime m n)"
  by (simp add: sequences_ok_def demo_runtime_def Let_def make_market_sequences_def container_simps)

definition demo_core_snapshot :: EngineSnapshot where
  "demo_core_snapshot = the (engine_snapshot make_engine_core)"

lemma demo_core: "engine_snapshot make_engine_core = Some demo_core_snapshot"
  "engine_restore demo_core_snapshot make_engine_core = Some make_engine_core"
  by (simp_all add: demo_core_snapshot_def engine_snapshot_def make_engine_core_def engine_restore_def)

lemma demo_checkpoint: "\<exists>ck. create_checkpoint (demo_runtime 700 500) demo_source i = Inr ck \<and>
    ck_core_snapshot ck = demo_core_snapshot \<and> ck_source_position ck = demo_source \<and>
    restore_runtime ck (demo_runtime 0 0) = Inr (demo_runtime 700 500)"
  using demo_core by (simp add: create_checkpoint_def demo_source_valid throwing_def defined_def snapshot_state_def
      demo_runtime_def Let_def restore_runtime_def restore_state_def make_market_sequences_def market_snapshot_def copy_map_def)

lemma demo_recovery:
  assumes ck: "ck_source_position ck = demo_source" "restore_runtime ck (demo_runtime 0 0) = Inr (demo_runtime 700 500)"
  shows "\<exists>result rt' w'. recover_and_replay (\<lambda>w. (Inr (Some ck), w)) (log_broker [demo_consumed] 5) None (demo_runtime 0 0) 0 =
      Some (Inr result, rt', w') \<and> rv_status result = Replayed \<and> rv_caught_up result \<and> rv_replayed_records result = 1"
proof -
  obtain pr rt where run: "runtime_process demo_tick Live (demo_runtime 700 500) = Inr (pr, rt)"
    using demo_tick_live by blast
  have r: "to_inbound_record demo_consumed = demo_tick"
    by (simp add: to_inbound_record_def demo_consumed_def demo_tick_def)
  let ?br = "log_broker [demo_consumed] 5" and ?wm = "\<lparr>wm_low = 0, wm_high = 5\<rparr>"
  have src: "cp_next_offset demo_source = 4" "cp_topic demo_source = EngineInputTopic" "cp_partition demo_source = 0"
    by (simp_all add: demo_source_def)
  have c: "cr_offset demo_consumed = 4" "cr_topic demo_consumed = EngineInputTopic" "cr_partition demo_consumed = 0"
    by (simp_all add: demo_consumed_def)
  let ?r0 = "(with_checkpoint ck)\<lparr>rv_watermark := Some ?wm, rv_status := Replayed, rv_caught_up := False\<rparr>"
  let ?r1 = "?r0\<lparr>rv_replay_output_records := 0, rv_replayed_records := 1, rv_last_replayed_offset := Some 4,
    rv_next_offset := 5, rv_caught_up := True\<rparr>"
  have f: "rv_source_position ?r0 = Some demo_source" "rv_next_offset ?r0 = 4" "rv_replayed_records ?r0 = 0"
    "rv_replay_output_records ?r0 = 0"
    by (simp_all add: with_checkpoint_def empty_recovery_result_def ck src)
  have i: "i64 5 = 5" by (simp add: in_i64_def)
  have "replay_step ?br ?wm ?r0 (demo_runtime 700 500) 4 = Inr (?r1, rt, 5)"
    using f run by (simp add: replay_step_def log_broker_def c src replay_record_def process_replay_silent r silent_def i)
  then have loop: "replay_loop ?br ?wm ?r0 (demo_runtime 700 500) 4 = Some (Inr ?r1, rt, 5)"
    using f(2) by (simp add: replay_loop.simps [of ?br ?wm])
  have g: "br_get_watermark ?br t p w = (Inr \<lparr>wr_offsets = Some ?wm, wr_error = None\<rparr>, w)" "br_seek ?br t p off w = (Inr None, off)"
    for t p w off by (simp_all add: log_broker_def)
  have "validate_recovery_offset demo_source ?wm = None"
    by (simp add: validate_recovery_offset_def invalid_watermark_def src)
  then have "recover_and_replay (\<lambda>w. (Inr (Some ck), w)) ?br None (demo_runtime 0 0) 0 = Some (Inr ?r1, rt, 5)"
    using ck loop f(2) by (simp add: recover_and_replay_def recover_impl_def recover_from_checkpoint_def Let_def g src
      replay_until_caught_up_def with_checkpoint_def)
  then show ?thesis by simp
qed

section \<open>Recovery\<close>

lemma recover_and_replay_returns:
  assumes "in_order br pos log"
  shows "\<exists>outcome. recover_and_replay load_latest br expected rt w = Some outcome"
  using recover_from_start_ok [OF assms] recover_from_checkpoint_ok [OF assms refl]
  unfolding recover_and_replay_def recover_impl_def
  by (fastforce split: prod.split sum.split option.split)

text \<open>
  C28: recovery always ends: with a consumer that delivers in order, \<open>recover_and_replay\<close> returns, from
  any checkpoint store and runtime, whatever fails on the way.
\<close>

theorem recovery_terminates:
  assumes "in_order br pos log"
  shows "\<exists>outcome. recover_and_replay load_latest br expected rt w = Some outcome"
  by (rule recover_and_replay_returns [OF assms])

theorem recovery_terminates_witness:
  "\<exists>outcome. recover_and_replay (\<lambda>w. (Inr None, w)) (log_broker [demo_consumed] 5) None (demo_runtime 700 500) 0 = Some outcome"
  by (rule recovery_terminates [OF log_broker_in_order]) (simp add: in_i64_def)

text \<open>
  C4: recovery reaches the state of live processing: when it succeeds from a checkpoint, the runtime is
  the restored one after \<open>process\<close>, in live mode, of a log of records from the checkpoint's partition
  with strictly increasing offsets from its next offset up to the high watermark; the counters of the
  result describe that log, no output was produced, and when it has caught up no record of the
  partition in that range is left out.
\<close>

theorem recovery_matches_live:
  assumes "in_order br pos log" "load_latest w = (Inr (Some ck), w0)"
    "recover_and_replay load_latest br expected rt w = Some (Inr result, rt', w')" "recovery_ok result"
  shows "\<exists>base rs outs high. restore_runtime ck rt = Inr base \<and>
    process_log (map to_inbound_record rs) base = Inr (outs, rt') \<and>
    (\<forall>r \<in> set rs. cr_topic r = cp_topic (ck_source_position ck) \<and> cr_partition r = cp_partition (ck_source_position ck) \<and>
      cp_next_offset (ck_source_position ck) \<le> cr_offset r \<and> cr_offset r < high) \<and>
    sorted_wrt (<) (map cr_offset rs) \<and> map_option wm_high (rv_watermark result) = Some high \<and>
    rv_replayed_records result = int (length rs) \<and> rv_replay_output_records result = 0 \<and>
    rv_next_offset result = (if rs = [] then cp_next_offset (ck_source_position ck) else cr_offset (last rs) + 1) \<and>
    (rv_caught_up result \<longrightarrow> (\<forall>x \<in> log. cp_next_offset (ck_source_position ck) \<le> cr_offset x \<longrightarrow>
      cr_offset x < high \<longrightarrow> x \<in> set rs))"
proof -
  have "recover_from_checkpoint br expected True ck rt w0 = Some (Inr result, rt', w')"
    using assms(2,3) by (simp add: recover_and_replay_def recover_impl_def)
  then have "\<exists>base. restore_runtime ck rt = Inr base \<and> recovered log base (cp_next_offset (ck_source_position ck))
      (cp_topic (ck_source_position ck)) (cp_partition (ck_source_position ck)) result rt'"
    using recover_from_checkpoint_ok [OF assms(1) refl, where ck = ck and expected = expected and rt = rt and w = w0] assms(4) by auto
  then show ?thesis unfolding recovered_def by blast
qed

theorem recovery_matches_live_witness:
  "\<exists>ck result rt' w' rs outs. recover_and_replay (\<lambda>w. (Inr (Some ck), w)) (log_broker [demo_consumed] 5) None (demo_runtime 0 0) 0 =
      Some (Inr result, rt', w') \<and> rv_caught_up result \<and>
    process_log (map to_inbound_record rs) (demo_runtime 700 500) = Inr (outs, rt') \<and> length rs = 1"
proof -
  obtain ck where ck: "ck_source_position ck = demo_source" "restore_runtime ck (demo_runtime 0 0) = Inr (demo_runtime 700 500)"
    using demo_checkpoint by blast
  obtain result rt' w' where run: "recover_and_replay (\<lambda>w. (Inr (Some ck), w)) (log_broker [demo_consumed] 5) None (demo_runtime 0 0) 0 =
      Some (Inr result, rt', w')" "rv_status result = Replayed" "rv_caught_up result" "rv_replayed_records result = 1"
    using demo_recovery [OF ck] by blast
  have ok: "recovery_ok result" "in_i64 5" using run(2) by (simp_all add: recovery_ok_def in_i64_def)
  show ?thesis
    using recovery_matches_live [OF log_broker_in_order [OF ok(2)] refl run(1) ok(1)] run ck(2) by fastforce
qed

text \<open>
  C29: recovery can skip an input: when the next record of the partition lies at or behind the high
  watermark although the offsets before it are not used up (a gap in the log, a record written
  meanwhile), recovery reports that it has caught up, but it has taken the record from the consumer
  without applying it, and the consumer goes on behind it.
\<close>

theorem recovery_skips_record:
  assumes "in_order br pos log" "br_poll br w = (Inr (Some r), w')"
    "rv_source_position result = Some src" "cr_topic r = cp_topic src" "cr_partition r = cp_partition src"
    "rv_next_offset result < wm_high wm" "wm_high wm \<le> cr_offset r"
  shows "replay_until_caught_up br wm result rt w =
      Some (Inr (result\<lparr>rv_status := Replayed, rv_caught_up := True\<rparr>), rt, w') \<and> pos w' = cr_offset r + 1"
  using assms in_order_poll [OF assms(1,2)]
  by (simp add: replay_until_caught_up_def replay_loop.simps [of br wm] replay_step_def)

theorem recovery_skips_record_witness:
  "\<exists>result. replay_until_caught_up (log_broker [demo_consumed] 4) \<lparr>wm_low = 0, wm_high = 4\<rparr>
      (empty_recovery_result\<lparr>rv_source_position := Some demo_source, rv_next_offset := 3\<rparr>) (demo_runtime 700 500) 3 =
    Some (Inr result, demo_runtime 700 500, 5) \<and> rv_caught_up result"
proof -
  have "in_i64 4" by (simp add: in_i64_def)
  moreover have "br_poll (log_broker [demo_consumed] 4) 3 = (Inr (Some demo_consumed), 5)"
    "rv_source_position (empty_recovery_result\<lparr>rv_source_position := Some demo_source, rv_next_offset := 3\<rparr>) = Some demo_source"
    "cr_topic demo_consumed = cp_topic demo_source" "cr_partition demo_consumed = cp_partition demo_source"
    "rv_next_offset (empty_recovery_result\<lparr>rv_source_position := Some demo_source, rv_next_offset := 3\<rparr>) < wm_high \<lparr>wm_low = 0, wm_high = 4\<rparr>"
    "wm_high \<lparr>wm_low = 0, wm_high = 4\<rparr> \<le> cr_offset demo_consumed"
    by (simp_all add: log_broker_def demo_consumed_def demo_source_def)
  ultimately show ?thesis
    using recovery_skips_record [OF log_broker_in_order, of 4 demo_consumed 3 demo_consumed 5 _ demo_source] by simp
qed

text \<open>
  Recovery does not apply the market guard: a record of a market the worker does not own is refused
  by \<open>consume\<close>, which leaves the runtime alone, but the replay loop applies it to the runtime.
\<close>

theorem recovery_ignores_market_guard:
  assumes guard: "input_guard (app_guard_config app) r = Some (RejectedInputMarket, e)"
    and run: "runtime_process (to_inbound_record r) Live (app_runtime app) = Inr (pr, rt')"
    and polled: "br_poll br w = (Inr (Some r), w')" "rv_source_position result = Some src"
      "cr_topic r = cp_topic src" "cr_partition r = cp_partition src" "cr_offset r < wm_high wm"
  shows "(\<exists>refused. consume_record br r app = (Inr refused, app) \<and> ar_status refused = RejectedInputMarket) \<and>
    (\<exists>result'. replay_step br wm result (app_runtime app) w = Inr (result', rt', w'))"
proof
  show "\<exists>refused. consume_record br r app = (Inr refused, app) \<and> ar_status refused = RejectedInputMarket"
    using guard by (simp add: consume_record_def failed_def)
  show "\<exists>result'. replay_step br wm result (app_runtime app) w = Inr (result', rt', w')"
    using run polled by (simp add: replay_step_def replay_record_def process_replay_silent Let_def)
qed

theorem recovery_ignores_market_guard_witness:
  "\<exists>refused result' rt'. consume_record (log_broker [demo_consumed] 5) demo_consumed
      ((demo_app 4)\<lparr>app_guard_config := \<lparr>gc_topic = EngineInputTopic, gc_partition = Some 0, gc_market_ids = [2]\<rparr>\<rparr>) =
      (Inr refused, (demo_app 4)\<lparr>app_guard_config := \<lparr>gc_topic = EngineInputTopic, gc_partition = Some 0, gc_market_ids = [2]\<rparr>\<rparr>) \<and>
    ar_status refused = RejectedInputMarket \<and>
    replay_step (log_broker [demo_consumed] 5) \<lparr>wm_low = 0, wm_high = 5\<rparr>
      (empty_recovery_result\<lparr>rv_source_position := Some demo_source\<rparr>) (demo_runtime 700 500) 4 = Inr (result', rt', 5)"
proof -
  let ?app = "(demo_app (4 :: int))\<lparr>app_guard_config := \<lparr>gc_topic = EngineInputTopic, gc_partition = Some 0, gc_market_ids = [2]\<rparr>\<rparr>"
  obtain pr rt where run: "runtime_process demo_tick Live (demo_runtime 700 500) = Inr (pr, rt)"
    using demo_tick_live by blast
  have r: "to_inbound_record demo_consumed = demo_tick" "app_runtime ?app = demo_runtime 700 500"
    by (simp_all add: to_inbound_record_def demo_consumed_def demo_tick_def demo_app_def)
  have guard: "\<exists>e. input_guard (app_guard_config ?app) demo_consumed = Some (RejectedInputMarket, e)"
    using demo_consumed_parsed(1)
    by (simp add: input_guard_def demo_consumed_def contains_market_def demo_tick_input_def)
  then obtain e where guard: "input_guard (app_guard_config ?app) demo_consumed = Some (RejectedInputMarket, e)" by blast
  have polled: "br_poll (log_broker [demo_consumed] 5) 4 = (Inr (Some demo_consumed), 5)"
    "rv_source_position (empty_recovery_result\<lparr>rv_source_position := Some demo_source\<rparr>) = Some demo_source"
    "cr_topic demo_consumed = cp_topic demo_source" "cr_partition demo_consumed = cp_partition demo_source"
    "cr_offset demo_consumed < wm_high \<lparr>wm_low = 0, wm_high = 5\<rparr>"
    by (simp_all add: log_broker_def demo_consumed_def demo_source_def)
  have "runtime_process (to_inbound_record demo_consumed) Live (app_runtime ?app) = Inr (pr, rt)" using run r by simp
  from recovery_ignores_market_guard [OF guard this polled] r(2) show ?thesis by auto
qed

section \<open>Checkpoints\<close>

text \<open>
  A checkpoint carries the runtime over: restoring it gives back the metadata, prices, funding,
  positions and risk states, every processed request under its keys, the next sequence number of
  every market, and the counters and the idempotency index of the core.
\<close>

theorem checkpoint_round_trip:
  assumes "create_checkpoint rt src i = Inr ck" "sequences_ok rt"
    "rc_first_public_sequence (rt_config rt0) = rc_first_public_sequence (rt_config rt)"
    "engine_restore (ck_core_snapshot ck) (rt_core rt0) = Some core"
  shows "\<exists>rt'. restore_runtime ck rt0 = Inr rt' \<and> same_runtime_state rt rt' \<and> rt_core rt' = core"
  using assms by (rule restore_created)

theorem checkpoint_round_trip_witness:
  "\<exists>ck rt'. create_checkpoint (demo_runtime 700 500) demo_source ''id'' = Inr ck \<and>
     restore_runtime ck (demo_runtime 0 0) = Inr rt' \<and> same_runtime_state (demo_runtime 700 500) rt'"
proof -
  obtain ck where ck: "create_checkpoint (demo_runtime 700 500) demo_source ''id'' = Inr ck" "ck_core_snapshot ck = demo_core_snapshot"
    using demo_checkpoint by blast
  have "rc_first_public_sequence (rt_config (demo_runtime 0 0)) = rc_first_public_sequence (rt_config (demo_runtime 700 500))"
    "engine_restore (ck_core_snapshot ck) (rt_core (demo_runtime 0 0)) = Some make_engine_core"
    using ck(2) demo_core(2) by (simp_all add: demo_runtime_def Let_def)
  from checkpoint_round_trip [OF ck(1) demo_sequences_ok this] show ?thesis using ck(1) by blast
qed

end
