(* ===== verification/CheckpointText.thy ===== *)
theory CheckpointText
  imports Checkpoint
begin

text \<open>
  The text of a checkpoint file, line by line: the helpers in the first part of
  \<^verbatim>\<open>src/src/checkpoint/file/FileCheckpointStore.cpp\<close>.  A line is a list of fields separated by tabs; texts
  are escaped so that no field holds a tab or the end of a line.  \<open>CheckpointParseError\<close> is \<open>Inl\<close> of its
  message.
\<close>

section \<open>Characters\<close>

definition kMagic :: string where
  "kMagic = ''cex.engine.checkpoint.file.v1''"

definition CheckpointFileExtension :: string where
  "CheckpointFileExtension = ''.checkpoint''"

abbreviation tab_char :: char where "tab_char \<equiv> CHR 0x09"
abbreviation line_feed :: char where "line_feed \<equiv> CHR 0x0A"
abbreviation carriage_return :: char where "carriage_return \<equiv> CHR 0x0D"
abbreviation backslash :: char where "backslash \<equiv> CHR 0x5C"

definition is_safe_filename_char :: "char \<Rightarrow> bool" where
  "is_safe_filename_char c \<longleftrightarrow> (CHR ''a'' \<le> c \<and> c \<le> CHR ''z'') \<or> (CHR ''A'' \<le> c \<and> c \<le> CHR ''Z'') \<or>
     (CHR ''0'' \<le> c \<and> c \<le> CHR ''9'') \<or> c = CHR ''-'' \<or> c = CHR ''_'' \<or> c = CHR ''.''"

definition upper_hex_digit :: "nat \<Rightarrow> char" where
  "upper_hex_digit v = char_of (if v < 10 then 48 + v else 65 + v - 10)"

definition hex_digit_value :: "char \<Rightarrow> int" where
  "hex_digit_value c =
     (if CHR ''0'' \<le> c \<and> c \<le> CHR ''9'' then int (of_char c) - 48
      else if CHR ''A'' \<le> c \<and> c \<le> CHR ''F'' then int (of_char c) - 65 + 10
      else if CHR ''a'' \<le> c \<and> c \<le> CHR ''f'' then int (of_char c) - 97 + 10
      else - 1)"

text \<open>The two hexadecimal digits of a byte: \<open>hex_digit(value >> 4)\<close> and \<open>hex_digit(value & 0x0F)\<close>.\<close>

definition hex_byte :: "char \<Rightarrow> string" where
  "hex_byte c = [upper_hex_digit (of_char c div 16), upper_hex_digit (of_char c mod 16)]"

definition filename_char :: "char \<Rightarrow> string" where
  "filename_char c = (if is_safe_filename_char c then [c] else CHR ''%'' # hex_byte c)"

definition checkpoint_filename_for_id :: "string \<Rightarrow> string" where
  "checkpoint_filename_for_id checkpoint_id =
     (let filename = concat (map filename_char checkpoint_id) in
      (if filename = [] then ''checkpoint'' else filename) @ CheckpointFileExtension)"

definition escape_field_char :: "char \<Rightarrow> string" where
  "escape_field_char c =
     (if c = backslash then [backslash, backslash]
      else if c = line_feed then [backslash, CHR ''n'']
      else if c = carriage_return then [backslash, CHR ''r'']
      else if c = tab_char then [backslash, CHR ''t'']
      else if (of_char c :: nat) < 32 then [backslash, CHR ''x''] @ hex_byte c
      else [c])"

definition escape_field :: "string \<Rightarrow> string" where
  "escape_field value = concat (map escape_field_char value)"

definition push_char :: "char \<Rightarrow> string + string \<Rightarrow> string + string" where
  "push_char c m = ebind m (\<lambda>unescaped. Inr (c # unescaped))"

fun unescape_field :: "string \<Rightarrow> string + string" where
  "unescape_field [] = Inr []"
| "unescape_field (c # s) =
     (if c \<noteq> backslash then push_char c (unescape_field s)
      else (case s of
          [] \<Rightarrow> Inl ''trailing escape in checkpoint field''
        | e # s' \<Rightarrow>
            if e = backslash then push_char backslash (unescape_field s')
            else if e = CHR ''n'' then push_char line_feed (unescape_field s')
            else if e = CHR ''r'' then push_char carriage_return (unescape_field s')
            else if e = CHR ''t'' then push_char tab_char (unescape_field s')
            else if e = CHR ''x'' then (case s' of
                h # l # s'' \<Rightarrow>
                  (let high = hex_digit_value h; low = hex_digit_value l in
                   if high < 0 \<or> low < 0 then Inl ''invalid hex escape in checkpoint field''
                   else push_char (char_of (nat (high * 16 + low))) (unescape_field s''))
              | _ \<Rightarrow> Inl ''incomplete hex escape in checkpoint field'')
            else Inl ''invalid escape in checkpoint field''))"

declare unescape_field.simps(2) [simp del]

section \<open>Fields\<close>

function split_line :: "string \<Rightarrow> string list" where
  "split_line line =
     (if tab_char \<in> set line
      then takeWhile (\<lambda>c. c \<noteq> tab_char) line # split_line (tl (dropWhile (\<lambda>c. c \<noteq> tab_char) line))
      else [line])"
  by auto

termination
proof (relation "measure length", simp)
  fix line assume "tab_char \<in> set line"
  then have "0 < length line" by (cases line) auto
  then show "(tl (dropWhile (\<lambda>c. c \<noteq> tab_char) line), line) \<in> measure length"
    using length_dropWhile_le [of "\<lambda>c. c \<noteq> tab_char" line] unfolding in_measure length_tl by linarith
qed

declare split_line.simps [simp del]

fun join_fields :: "string list \<Rightarrow> string" where
  "join_fields [] = []"
| "join_fields [field] = field"
| "join_fields (field # f # fs) = field @ [tab_char] @ join_fields (f # fs)"

definition write_line :: "string list \<Rightarrow> string" where
  "write_line fs = join_fields fs @ [line_feed]"

text \<open>
  \<open>parse_integer<Integer>\<close> for the signed and the unsigned types the reader uses; \<open>std::from_chars\<close> takes a
  minus sign for the signed ones only.
\<close>

definition parse_signed :: "nat \<Rightarrow> string \<Rightarrow> string + int" where
  "parse_signed bits s =
     (let negative = (s \<noteq> [] \<and> hd s = CHR ''-'');
          ds = (if negative then tl s else s);
          i = (if negative then - int (digits_value ds) else int (digits_value ds))
      in if ds = [] \<or> \<not> list_all is_digit ds \<or> i < - (2 ^ (bits - 1)) \<or> 2 ^ (bits - 1) \<le> i
         then Inl ''invalid integer in checkpoint field'' else Inr i)"

abbreviation parse_int64 :: "string \<Rightarrow> string + int64" where "parse_int64 \<equiv> parse_signed 64"
abbreviation parse_int32 :: "string \<Rightarrow> string + int32" where "parse_int32 \<equiv> parse_signed 32"

definition parse_unsigned :: "string \<Rightarrow> string + 'a :: len word" where
  "parse_unsigned s =
     (if s = [] \<or> \<not> list_all is_digit s \<or> 2 ^ LENGTH('a) \<le> digits_value s
      then Inl ''invalid integer in checkpoint field'' else Inr (of_nat (digits_value s)))"

definition parse_uint8 :: "string \<Rightarrow> string + u8" where
  "parse_uint8 s = ebind (parse_unsigned s) (\<lambda>parsed :: u32.
     if parsed > 255 then Inl ''uint8 checkpoint field out of range'' else Inr (ucast parsed))"

definition parse_bool_field :: "string \<Rightarrow> string + bool" where
  "parse_bool_field s = (if s = ''0'' then Inr False else if s = ''1'' then Inr True
     else Inl ''invalid boolean in checkpoint field'')"

definition bool_field :: "bool \<Rightarrow> string" where
  "bool_field b = (if b then ''1'' else ''0'')"

definition word_field :: "'a :: len word \<Rightarrow> string" where
  "word_field w = to_string (uint w)"

section \<open>Enumerations\<close>

text \<open>\<open>enum_field\<close> writes the number of an enumerator.\<close>

definition side_number :: "Side \<Rightarrow> int" where
  "side_number s = (case s of Buy \<Rightarrow> 0 | Sell \<Rightarrow> 1)"

definition adapter_side_number :: "AdapterSide \<Rightarrow> int" where
  "adapter_side_number s = (case s of Long \<Rightarrow> 0 | Short \<Rightarrow> 1)"

definition command_kind_number :: "RuntimeCommandKind \<Rightarrow> int" where
  "command_kind_number k = (case k of KindPlaceOrder \<Rightarrow> 0 | KindCancelOrder \<Rightarrow> 1 | KindMarkPriceUpdated \<Rightarrow> 2
     | KindFundingRateUpdated \<Rightarrow> 3 | KindFundingSettlementTick \<Rightarrow> 4 | KindLiquidatePosition \<Rightarrow> 5)"

definition reject_reason_number :: "RejectReason \<Rightarrow> int" where
  "reject_reason_number r = (case r of InvalidSymbol \<Rightarrow> 0 | InvalidPrice \<Rightarrow> 1 | InvalidQuantity \<Rightarrow> 2
     | DuplicateCommand \<Rightarrow> 3 | DuplicateOrder \<Rightarrow> 4 | OrderNotFound \<Rightarrow> 5 | WouldSelfTrade \<Rightarrow> 6 | MarketClosed \<Rightarrow> 7
     | InsufficientBalanceLiquidity \<Rightarrow> 8)"

definition parse_side_field :: "string \<Rightarrow> string + Side" where
  "parse_side_field s = ebind (parse_int32 s) (\<lambda>parsed.
     if parsed = 0 then Inr Buy else if parsed = 1 then Inr Sell
     else Inl ''invalid side in checkpoint field'')"

definition parse_adapter_side :: "string \<Rightarrow> string + AdapterSide" where
  "parse_adapter_side s = ebind (parse_int32 s) (\<lambda>parsed.
     if parsed = 0 then Inr Long else if parsed = 1 then Inr Short
     else Inl ''invalid adapter side in checkpoint field'')"

definition parse_runtime_command_kind :: "string \<Rightarrow> string + RuntimeCommandKind" where
  "parse_runtime_command_kind s = ebind (parse_int32 s) (\<lambda>parsed.
     if parsed = 0 then Inr KindPlaceOrder else if parsed = 1 then Inr KindCancelOrder
     else if parsed = 5 then Inr KindLiquidatePosition else if parsed = 2 then Inr KindMarkPriceUpdated
     else if parsed = 3 then Inr KindFundingRateUpdated else if parsed = 4 then Inr KindFundingSettlementTick
     else Inl ''invalid runtime command kind'')"

definition parse_reject_reason :: "string \<Rightarrow> string + RejectReason" where
  "parse_reject_reason s = ebind (parse_int32 s) (\<lambda>parsed.
     if parsed = 0 then Inr InvalidSymbol else if parsed = 1 then Inr InvalidPrice
     else if parsed = 2 then Inr InvalidQuantity else if parsed = 3 then Inr DuplicateCommand
     else if parsed = 4 then Inr DuplicateOrder else if parsed = 5 then Inr OrderNotFound
     else if parsed = 6 then Inr WouldSelfTrade else if parsed = 7 then Inr MarketClosed
     else if parsed = 8 then Inr InsufficientBalanceLiquidity else Inl ''invalid reject reason'')"

section \<open>Reading a written field\<close>

lemma upper_hex_digit_value: "v < 16 \<Longrightarrow> hex_digit_value (upper_hex_digit v) = int v"
proof -
  assume "v < 16"
  then have "v \<in> set [0..<16]" by simp
  moreover have "\<forall>v \<in> set [0..<16]. hex_digit_value (upper_hex_digit v) = int v" by code_simp
  ultimately show ?thesis by blast
qed

lemma of_char_nibbles: "of_char c div 16 < (16 :: nat)" "of_char c mod 16 < (16 :: nat)"
proof -
  have "of_char c < (16 * 16 :: nat)" by simp
  then show "of_char c div 16 < (16 :: nat)" by (rule less_mult_imp_div_less)
qed simp

lemma hex_byte_chars:
  "c' \<in> set (hex_byte c) \<Longrightarrow> c' \<noteq> tab_char \<and> c' \<noteq> line_feed \<and> c' \<noteq> carriage_return"
proof -
  have ne: "\<forall>v \<in> set [0..<16]. upper_hex_digit v \<noteq> tab_char \<and> upper_hex_digit v \<noteq> line_feed \<and>
      upper_hex_digit v \<noteq> carriage_return"
    by code_simp
  assume "c' \<in> set (hex_byte c)"
  then show ?thesis using ne of_char_nibbles [of c] by (auto simp: hex_byte_def)
qed

lemma unescape_hex:
  "unescape_field (backslash # CHR ''x'' # hex_byte c @ s) = push_char c (unescape_field s)"
proof -
  have "int (of_char c div 16) * 16 + int (of_char c mod 16) = int (of_char c)"
    using div_mult_mod_eq [of "of_char c :: nat" 16] by linarith
  then have "nat (int (of_char c div 16) * 16 + int (of_char c mod 16)) = (of_char c :: nat)"
    by (simp only: nat_int)
  then show ?thesis
    by (simp add: hex_byte_def unescape_field.simps(2) upper_hex_digit_value of_char_nibbles Let_def del: of_nat_mult of_nat_add)
qed

lemma unescape_escape_char: "unescape_field (escape_field_char c @ s) = push_char c (unescape_field s)"
  using unescape_hex [of c s] by (auto simp: escape_field_char_def unescape_field.simps(2))

lemma unescape_escape [simp]: "unescape_field (escape_field s) = Inr s"
  by (induction s) (simp_all add: escape_field_def unescape_escape_char push_char_def)

text \<open>A field that a line can hold.\<close>

definition field_ok :: "string \<Rightarrow> bool" where
  "field_ok s \<longleftrightarrow> tab_char \<notin> set s \<and> line_feed \<notin> set s \<and> carriage_return \<notin> set s"

lemma field_ok_simps [simp]: "field_ok []"
  "field_ok (c # s) \<longleftrightarrow> c \<noteq> tab_char \<and> c \<noteq> line_feed \<and> c \<noteq> carriage_return \<and> field_ok s"
  "field_ok (s @ t) \<longleftrightarrow> field_ok s \<and> field_ok t"
  by (auto simp: field_ok_def)

lemma field_ok_escape_char: "field_ok (escape_field_char c)"
  using hex_byte_chars [of tab_char c] hex_byte_chars [of line_feed c] hex_byte_chars [of carriage_return c]
  by (auto simp: escape_field_char_def field_ok_def)

lemma field_ok_escape [simp]: "field_ok (escape_field s)"
  by (induction s) (simp_all add: escape_field_def field_ok_escape_char)

lemma field_ok_digits: "list_all is_digit s \<Longrightarrow> field_ok s"
  by (induction s) auto

lemma field_ok_to_string [simp]: "field_ok (to_string i)"
  by (simp add: to_string_def field_ok_digits)

lemma field_ok_bool [simp]: "field_ok (bool_field b)"
  by (simp add: bool_field_def)

lemma field_ok_word [simp]: "field_ok (word_field w)"
  by (simp add: word_field_def)

lemma parse_bool_of_field [simp]: "parse_bool_field (bool_field b) = Inr b"
  by (simp add: parse_bool_field_def bool_field_def)

lemma digits_not_minus: "list_all is_digit s \<Longrightarrow> s \<noteq> [] \<and> hd s = CHR ''-'' \<Longrightarrow> False"
  by (cases s) auto

lemma parse_signed_to_string:
  "- (2 ^ (bits - 1)) \<le> i \<Longrightarrow> i < 2 ^ (bits - 1) \<Longrightarrow> parse_signed bits (to_string i) = Inr i"
  using digits_not_minus [OF nat_digits_all [of "nat i"]]
  by (auto simp: parse_signed_def to_string_def Let_def)

lemma parse_int64_to_string [simp]: "in_i64 i \<Longrightarrow> parse_int64 (to_string i) = Inr i"
  by (simp add: parse_signed_to_string in_i64_def)

lemma parse_int32_to_string [simp]: "in_i32 i \<Longrightarrow> parse_int32 (to_string i) = Inr i"
  by (simp add: parse_signed_to_string in_i32_def)

lemma parse_word_field [simp]: "parse_unsigned (word_field w) = Inr w"
proof -
  have "unat w < 2 ^ LENGTH('a)" by (rule unsigned_less)
  then show ?thesis by (simp add: parse_unsigned_def word_field_def to_string_def not_le)
qed

text \<open>A count is written as a \<open>size_t\<close>.\<close>

lemma parse_count: "n < 2 ^ 64 \<Longrightarrow> parse_unsigned (to_string (int n)) = Inr (of_nat n :: u64)"
  by (simp add: parse_unsigned_def to_string_def)

lemma parse_uint8_field [simp]: "parse_uint8 (word_field w) = Inr w"
proof -
  have less: "unat w < 256" using unsigned_less [of w, where 'a = nat] by simp
  then have "(parse_unsigned (word_field w) :: string + u32) = Inr (ucast w)"
    by (simp add: parse_unsigned_def word_field_def to_string_def)
  moreover have "\<not> (ucast w :: u32) > 255" using less by (simp add: word_less_nat_alt unsigned_ucast_eq take_bit_nat_eq_self)
  moreover have "(ucast (ucast w :: u32) :: u8) = w" by transfer simp
  ultimately show ?thesis by (simp add: parse_uint8_def)
qed

lemma parse_side_number [simp]: "parse_side_field (to_string (side_number s)) = Inr s"
  by (cases s) (simp_all add: parse_side_field_def side_number_def in_i32_def)

lemma parse_adapter_side_number [simp]: "parse_adapter_side (to_string (adapter_side_number s)) = Inr s"
  by (cases s) (simp_all add: parse_adapter_side_def adapter_side_number_def in_i32_def)

lemma parse_command_kind_number [simp]: "parse_runtime_command_kind (to_string (command_kind_number k)) = Inr k"
  by (cases k) (simp_all add: parse_runtime_command_kind_def command_kind_number_def in_i32_def)

lemma parse_reject_reason_number [simp]: "parse_reject_reason (to_string (reject_reason_number r)) = Inr r"
  by (cases r) (simp_all add: parse_reject_reason_def reject_reason_number_def in_i32_def)

section \<open>Reading a written line\<close>

lemma split_field: "tab_char \<notin> set field \<Longrightarrow> split_line field = [field]"
  by (subst split_line.simps) simp

lemma ends_at_tab:
  "tab_char \<notin> set field \<Longrightarrow> takeWhile (\<lambda>c. c \<noteq> tab_char) (field @ tab_char # line) = field \<and>
     dropWhile (\<lambda>c. c \<noteq> tab_char) (field @ tab_char # line) = tab_char # line"
  by (induction field) auto

lemma split_field_tab: "tab_char \<notin> set field \<Longrightarrow> split_line (field @ tab_char # line) = field # split_line line"
  by (subst split_line.simps) (simp add: ends_at_tab)

lemma split_join: "list_all field_ok fs \<Longrightarrow> fs \<noteq> [] \<Longrightarrow> split_line (join_fields fs) = fs"
  by (induction fs rule: join_fields.induct) (auto simp: split_field split_field_tab field_ok_def)

lemma field_ok_join: "list_all field_ok fs \<Longrightarrow> line_feed \<notin> set (join_fields fs) \<and> carriage_return \<notin> set (join_fields fs)"
  by (induction fs rule: join_fields.induct) (auto simp: field_ok_def)

end
