(* ===== verification/CheckpointCodec.thy ===== *)
theory CheckpointCodec
  imports CheckpointText
begin

text \<open>
  The checkpoint codec (\<^verbatim>\<open>src/src/checkpoint/file/FileCheckpointStore.cpp\<close>): \<open>write_checkpoint\<close> and the class
  \<open>CheckpointReader\<close>, section by section in the order of the file.  An input stream is the text that is
  left to read.  The \<open>reserve\<close> calls are left out: a count that is too large for memory is an exception
  there, and the end of the text here.
\<close>

section \<open>Sorted entries\<close>

text \<open>
  \<open>std::sort\<close> on entries whose keys may be equal leaves their order open; \<open>sort_key\<close> keeps it.  The keys of
  a map are distinct.
\<close>

definition funding_key_less :: "FundingSettlementKey \<Rightarrow> FundingSettlementKey \<Rightarrow> bool" where
  "funding_key_less left right \<longleftrightarrow>
     (if fk_market_id left \<noteq> fk_market_id right then fk_market_id left < fk_market_id right
      else fk_funding_interval_id left < fk_funding_interval_id right)"

instantiation FundingSettlementKey :: linorder
begin

definition less_FundingSettlementKey :: "FundingSettlementKey \<Rightarrow> FundingSettlementKey \<Rightarrow> bool" where
  "less_FundingSettlementKey = funding_key_less"

definition less_eq_FundingSettlementKey :: "FundingSettlementKey \<Rightarrow> FundingSettlementKey \<Rightarrow> bool" where
  "less_eq_FundingSettlementKey left right \<longleftrightarrow> left = right \<or> left < right"

instance
  by standard (auto simp: less_FundingSettlementKey_def less_eq_FundingSettlementKey_def funding_key_less_def
      FundingSettlementKey.expand split: if_splits)

end

definition sorted_symbol_snapshots :: "EngineSnapshot \<Rightarrow> OrderBookSnapshot list" where
  "sorted_symbol_snapshots snap = sort_key bs_symbolId (es_symbolSnapshots snap)"

definition sorted_orders :: "OrderSnapshot list \<Rightarrow> OrderSnapshot list" where
  "sorted_orders os = sort_key os_orderId os"

definition sorted_client_order_map :: "(ClientOrderId \<times> OrderId) list \<Rightarrow> (ClientOrderId \<times> OrderId) list" where
  "sorted_client_order_map m = sort_key fst m"

definition sorted_command_summaries :: "(CommandId \<times> CommandResultSummary) list \<Rightarrow>
    (CommandId \<times> CommandResultSummary) list" where
  "sorted_command_summaries m = sort_key fst m"

definition sorted_order_ids :: "OrderId list \<Rightarrow> OrderId list" where
  "sorted_order_ids order_ids = sort order_ids"

definition sorted_public_sequences :: "(MarketId \<times> EngineSequence) list \<Rightarrow> (MarketId \<times> EngineSequence) list" where
  "sorted_public_sequences m = sort_key fst m"

definition sorted_mark_prices :: "MarkPriceMap \<Rightarrow> MarkPriceMap" where
  "sorted_mark_prices m = sort_key fst m"

definition sorted_funding_rates :: "(MarketId \<times> FundingRateState) list \<Rightarrow> (MarketId \<times> FundingRateState) list" where
  "sorted_funding_rates m = sort_key fst m"

text \<open>The next three containers iterate in key order.\<close>

definition sorted_settled_funding_intervals :: "FundingSettlementSet \<Rightarrow> FundingSettlementKey list" where
  "sorted_settled_funding_intervals ks = sorted_list_of_set ks"

definition sorted_positions :: "IsolatedPositionMap \<Rightarrow> IsolatedPositionMap" where
  "sorted_positions m = m"

definition sorted_risk_states :: "IsolatedRiskMap \<Rightarrow> IsolatedRiskMap" where
  "sorted_risk_states m = m"

definition sorted_processed_requests :: "(string \<times> EngineRuntimeProcessedRequestSnapshot) list \<Rightarrow>
    (string \<times> EngineRuntimeProcessedRequestSnapshot) list" where
  "sorted_processed_requests m = sort_key fst m"

text \<open>The loop of \<open>metadata_entries\<close> over the active orders: the ids seen and the entries found so far.\<close>

definition collect_metadata :: "OrderMetadataStore \<Rightarrow> OrderSnapshot \<Rightarrow> OrderId set \<times> OrderMetadata list \<Rightarrow>
    OrderId set \<times> OrderMetadata list" where
  "collect_metadata st ord = (\<lambda>(seen, entries).
     if os_orderId ord \<in> seen then (seen, entries)
     else (insert (os_orderId ord) seen,
       (case metadata_find (os_orderId ord) st of Some md \<Rightarrow> entries @ [md] | None \<Rightarrow> entries)))"

definition metadata_entries :: "EngineCheckpoint \<Rightarrow> OrderMetadata list" where
  "metadata_entries ck = sort_key om_order_id
     (snd (fold (\<lambda>book. fold (collect_metadata (ck_metadata_store ck)) (bs_activeOrders book))
       (es_symbolSnapshots (ck_core_snapshot ck)) ({}, [])))"

section \<open>Writing\<close>

definition optional_text :: "string option \<Rightarrow> string" where
  "optional_text v = (case v of Some t \<Rightarrow> escape_field t | None \<Rightarrow> [])"

text \<open>The fields of an entry after its tag, and a section: its count and one line for every entry.\<close>

definition count_field :: "'a list \<Rightarrow> string" where
  "count_field xs = to_string (int (length xs))"

definition write_entries :: "string \<Rightarrow> ('a \<Rightarrow> string list) \<Rightarrow> 'a list \<Rightarrow> string" where
  "write_entries entry_tag entry_fields xs = concat (map (\<lambda>x. write_line (entry_tag # entry_fields x)) xs)"

definition write_section :: "string \<Rightarrow> string \<Rightarrow> ('a \<Rightarrow> string list) \<Rightarrow> 'a list \<Rightarrow> string" where
  "write_section section_tag entry_tag entry_fields xs =
     write_line [section_tag, count_field xs] @ write_entries entry_tag entry_fields xs"

definition symbol_config_fields :: "SymbolConfig \<Rightarrow> string list" where
  "symbol_config_fields c = [word_field (sc_symbolId c), word_field (sc_baseAssetId c), word_field (sc_quoteAssetId c),
     to_string (sc_tickSize c), word_field (sc_lotSize c), word_field (sc_minQuantity c),
     word_field (sc_maxQuantity c), to_string (sc_minPrice c), to_string (sc_maxPrice c),
     word_field (sc_ringCapacityTicks c), word_field (sc_thresholdPercentage c), to_string (sc_initialBaseTick c),
     word_field (sc_priceScale c), word_field (sc_quantityScale c), word_field (sc_makerFeeRate c),
     word_field (sc_takerFeeRate c), bool_field (sc_tradingEnabled c)]"

definition write_symbol_config :: "SymbolConfig \<Rightarrow> string" where
  "write_symbol_config c = write_line (''symbol'' # symbol_config_fields c)"

definition price_level_fields :: "PriceLevelSnapshot \<Rightarrow> string list" where
  "price_level_fields level = [to_string (ls_price level), word_field (ls_totalQuantity level),
     count_field (ls_orderIds level)] @ map word_field (ls_orderIds level)"

definition write_price_levels :: "string \<Rightarrow> string \<Rightarrow> PriceLevelSnapshot list \<Rightarrow> string" where
  "write_price_levels count_tag entry_tag levels = write_section count_tag entry_tag price_level_fields levels"

definition order_fields :: "OrderSnapshot \<Rightarrow> string list" where
  "order_fields ord = [word_field (os_orderId ord), word_field (os_clientOrderId ord), word_field (os_userId ord),
     word_field (os_symbolId ord), to_string (side_number (os_side ord)), to_string (os_price ord),
     word_field (os_originalQuantity ord), word_field (os_remainingQuantity ord),
     word_field (os_sequenceAccepted ord)]"

definition id_pair_fields :: "u64 \<times> u64 \<Rightarrow> string list" where
  "id_pair_fields e = [word_field (fst e), word_field (snd e)]"

definition write_order_book :: "OrderBookSnapshot \<Rightarrow> string" where
  "write_order_book book = write_symbol_config (bs_symbolConfig book) @
     write_price_levels ''bid_levels'' ''bid_level'' (bs_bidLevels book) @
     write_price_levels ''ask_levels'' ''ask_level'' (bs_askLevels book) @
     write_section ''active_orders'' ''order'' order_fields (sorted_orders (bs_activeOrders book)) @
     write_section ''client_order_map'' ''client_order'' id_pair_fields
       (sorted_client_order_map (bs_clientOrderIdToOrderId book))"

definition command_summary_fields :: "CommandId \<times> CommandResultSummary \<Rightarrow> string list" where
  "command_summary_fields = (\<lambda>(command_id, summary). [word_field command_id, bool_field (cr_accepted summary),
     bool_field (cr_orderId summary \<noteq> None),
     (case cr_orderId summary of Some i \<Rightarrow> word_field i | None \<Rightarrow> ''0''),
     bool_field (cr_rejectReason summary \<noteq> None),
     (case cr_rejectReason summary of Some r \<Rightarrow> to_string (reject_reason_number r) | None \<Rightarrow> ''0''),
     word_field (cr_sequence summary)])"

definition write_idempotency_snapshot :: "IdempotencySnapshot \<Rightarrow> string" where
  "write_idempotency_snapshot snap =
     write_section ''idempotency_processed_commands'' ''processed_command'' command_summary_fields
       (sorted_command_summaries (ii_processedCommandIds snap)) @
     write_section ''idempotency_client_orders'' ''idempotency_client_order'' id_pair_fields
       (sorted_client_order_map (ii_clientOrderIdToOrderId snap)) @
     write_section ''idempotency_order_ids'' ''idempotency_order_id'' (\<lambda>i. [word_field i])
       (sorted_order_ids (ii_orderIds snap))"

definition metadata_fields :: "OrderMetadata \<Rightarrow> string list" where
  "metadata_fields md = [word_field (om_order_id md), to_string (om_market_id md), to_string (om_user_id md),
     to_string (adapter_side_number (om_side md)), to_string (om_original_quantity md),
     to_string (om_remaining_quantity md), bool_field (om_reduce_only md), escape_field (om_margin_asset md),
     to_string (om_reserved_margin_amount md), to_string (om_remaining_reserved_margin md),
     to_string (om_leverage md), escape_field (om_reservation_id md), escape_field (om_place_request_id md),
     escape_field (om_place_idempotency_key md), bool_field (om_place_input_id md \<noteq> None),
     optional_text (om_place_input_id md), to_string (om_reply_partition md),
     word_field (om_core_client_order_id md), word_field (om_core_place_command_id md)]"

definition write_metadata_store :: "EngineCheckpoint \<Rightarrow> string" where
  "write_metadata_store ck = write_section ''metadata'' ''metadata_entry'' metadata_fields (metadata_entries ck)"

definition processed_request_fields :: "string \<times> EngineRuntimeProcessedRequestSnapshot \<Rightarrow> string list" where
  "processed_request_fields = (\<lambda>(key, q). [escape_field key, to_string (command_kind_number (qs_command_kind q)),
     escape_field (qs_topic q), to_string (qs_partition q), to_string (qs_offset q),
     bool_field (qs_input_id q \<noteq> None), optional_text (qs_input_id q), escape_field (qs_idempotency_key q)])"

definition write_processed_requests :: "string \<Rightarrow> (string \<times> EngineRuntimeProcessedRequestSnapshot) list \<Rightarrow> string" where
  "write_processed_requests section_tag m =
     write_section section_tag ''processed_request'' processed_request_fields (sorted_processed_requests m)"

definition mark_price_fields :: "MarketId \<times> MarkPriceState \<Rightarrow> string list" where
  "mark_price_fields = (\<lambda>(market_id, state). [to_string market_id, to_string (mp_mark_price state),
     to_string (mp_index_price state), to_string (mp_source_timestamp_ms state),
     to_string (mp_published_at_ms state), to_string (mp_valid_until_ms state),
     to_string (mp_source_sequence state), escape_field (mp_source_status state)])"

definition write_mark_prices :: "MarkPriceMap \<Rightarrow> string" where
  "write_mark_prices m = write_section ''mark_prices'' ''mark_price_state'' mark_price_fields (sorted_mark_prices m)"

definition funding_rate_fields :: "MarketId \<times> FundingRateState \<Rightarrow> string list" where
  "funding_rate_fields = (\<lambda>(market_id, state). [to_string market_id, escape_field (fr_funding_interval_id state),
     to_string (fr_rate state), to_string (fr_rate_scale state), to_string (fr_interval_start_ms state),
     to_string (fr_interval_end_ms state), to_string (fr_source_timestamp_ms state)])"

definition write_funding_rates :: "(MarketId \<times> FundingRateState) list \<Rightarrow> string" where
  "write_funding_rates m =
     write_section ''funding_rates'' ''funding_rate_state'' funding_rate_fields (sorted_funding_rates m)"

definition settled_interval_fields :: "FundingSettlementKey \<Rightarrow> string list" where
  "settled_interval_fields k = [to_string (fk_market_id k), escape_field (fk_funding_interval_id k)]"

definition write_settled_funding_intervals :: "FundingSettlementSet \<Rightarrow> string" where
  "write_settled_funding_intervals ks = write_section ''settled_funding_intervals'' ''settled_funding_interval''
     settled_interval_fields (sorted_settled_funding_intervals ks)"

definition position_fields :: "PositionRiskKey \<times> IsolatedPositionState \<Rightarrow> string list" where
  "position_fields = (\<lambda>(key, state). [to_string (rk_user_id key), to_string (rk_market_id key),
     to_string (ps_user_id state), to_string (ps_market_id state), to_string (ps_signed_quantity state),
     to_string (ps_average_entry_price state), escape_field (ps_margin_asset state),
     to_string (ps_isolated_margin state), to_string (ps_leverage state), to_string (ps_updated_at_ms state)])"

definition write_positions :: "IsolatedPositionMap \<Rightarrow> string" where
  "write_positions m = write_section ''positions'' ''position_state'' position_fields (sorted_positions m)"

definition risk_state_fields :: "PositionRiskKey \<times> IsolatedRiskState \<Rightarrow> string list" where
  "risk_state_fields = (\<lambda>(key, state). [to_string (rk_user_id key), to_string (rk_market_id key),
     to_string (rs_user_id state), to_string (rs_market_id state), escape_field (rs_status state),
     escape_field (rs_margin_asset state), to_string (rs_signed_quantity state),
     to_string (rs_average_entry_price state), to_string (rs_mark_price state),
     to_string (rs_isolated_margin state), to_string (rs_unrealized_pnl state), to_string (rs_equity state),
     to_string (rs_maintenance_margin state), to_string (rs_margin_ratio state), to_string (rs_leverage state),
     to_string (rs_updated_at_ms state)])"

definition write_risk_states :: "IsolatedRiskMap \<Rightarrow> string" where
  "write_risk_states m = write_section ''risk_states'' ''risk_state'' risk_state_fields (sorted_risk_states m)"

definition write_checkpoint :: "EngineCheckpoint \<Rightarrow> string" where
  "write_checkpoint ck =
     kMagic @ [line_feed] @
     write_line [''schema_version'', word_field (ck_schema_version ck)] @
     write_line [''checkpoint_id'', escape_field (ck_checkpoint_id ck)] @
     write_line [''source_position'', escape_field (cp_topic (ck_source_position ck)),
       to_string (cp_partition (ck_source_position ck)), to_string (cp_next_offset (ck_source_position ck))] @
     write_line [''sequence_state'', word_field (ss_nextSequence (es_sequenceState (ck_core_snapshot ck))),
       word_field (ss_nextTradeId (es_sequenceState (ck_core_snapshot ck))),
       word_field (ss_nextEventId (es_sequenceState (ck_core_snapshot ck)))] @
     write_line [''symbols'', count_field (sorted_symbol_snapshots (ck_core_snapshot ck))] @
     concat (map write_order_book (sorted_symbol_snapshots (ck_core_snapshot ck))) @
     write_idempotency_snapshot (es_idempotencyState (ck_core_snapshot ck)) @
     write_section ''public_sequences'' ''public_sequence'' (\<lambda>(market_id, s). [to_string market_id, word_field s])
       (sorted_public_sequences (ck_public_sequences ck)) @
     write_mark_prices (ck_mark_prices ck) @
     write_funding_rates (ck_funding_rates ck) @
     write_settled_funding_intervals (ck_settled_funding_intervals ck) @
     write_positions (ck_positions ck) @
     write_risk_states (ck_risk_states ck) @
     write_metadata_store ck @
     write_processed_requests ''processed_input_ids'' (ck_processed_input_ids ck) @
     write_processed_requests ''processed_idempotency_keys'' (ck_processed_idempotency_keys ck) @
     write_line [''end'']"

definition serialize_checkpoint :: "EngineCheckpoint \<Rightarrow> string" where
  "serialize_checkpoint ck = write_checkpoint ck"

end
