(* ===== verification/CheckpointReader.thy ===== *)
theory CheckpointReader
  imports CheckpointCodec
begin

text \<open>
  The class \<open>CheckpointReader\<close> of \<^verbatim>\<open>src/src/checkpoint/file/FileCheckpointStore.cpp\<close>.  A reader takes the text
  that is left and gives its result with the rest, or the message of the exception.
\<close>

section \<open>Readers\<close>

type_synonym 'a reader = "string \<Rightarrow> string + ('a \<times> string)"

definition rreturn :: "'a \<Rightarrow> 'a reader" where
  "rreturn x inp = Inr (x, inp)"

definition rbind :: "'a reader \<Rightarrow> ('a \<Rightarrow> 'b reader) \<Rightarrow> 'b reader" where
  "rbind m f inp = ebind (m inp) (\<lambda>(x, rest). f x rest)"

definition rlift :: "string + 'a \<Rightarrow> 'a reader" where
  "rlift m inp = ebind m (\<lambda>x. Inr (x, inp))"

text \<open>\<open>for (index = 0; index < n; ++index)\<close> around a body that changes \<open>acc\<close>.\<close>

primrec rtimes :: "nat \<Rightarrow> ('a \<Rightarrow> 'a reader) \<Rightarrow> 'a \<Rightarrow> 'a reader" where
  "rtimes 0 body acc = rreturn acc"
| "rtimes (Suc n) body acc = rbind (body acc) (rtimes n body)"

definition read_raw_line :: "string reader" where
  "read_raw_line inp =
     (if inp = [] then Inl ''unexpected end of checkpoint file''
      else let line = takeWhile (\<lambda>c. c \<noteq> line_feed) inp; rest = tl (dropWhile (\<lambda>c. c \<noteq> line_feed) inp) in
        Inr (if line \<noteq> [] \<and> last line = carriage_return then butlast line else line, rest))"

definition read_fields_any :: "string list reader" where
  "read_fields_any = rbind read_raw_line (\<lambda>line. rreturn (split_line line))"

definition check_tag :: "string \<Rightarrow> string list \<Rightarrow> string + string list" where
  "check_tag expected_tag fs =
     (if fs = [] \<or> hd fs \<noteq> expected_tag then Inl ''unexpected checkpoint section'' else Inr fs)"

definition read_fields :: "string \<Rightarrow> string list reader" where
  "read_fields expected_tag = rbind read_fields_any (\<lambda>fs. rlift (check_tag expected_tag fs))"

definition require_field_count :: "string list \<Rightarrow> nat \<Rightarrow> string + unit" where
  "require_field_count fs expected = require (length fs = expected) ''unexpected checkpoint field count''"

definition count_from_fields :: "string list \<Rightarrow> string \<Rightarrow> string + u64" where
  "count_from_fields fs expected_tag =
     ebind (check_tag expected_tag fs) (\<lambda>fs. ebind (require_field_count fs 2) (\<lambda>_. parse_unsigned (fs ! 1)))"

definition read_count :: "string \<Rightarrow> u64 reader" where
  "read_count expected_tag = rbind (read_fields expected_tag) (\<lambda>fs. rlift (count_from_fields fs expected_tag))"

text \<open>A map refuses a second entry under the same key.\<close>

definition emplaced :: "string \<Rightarrow> bool \<times> 'm \<Rightarrow> string + 'm" where
  "emplaced error r = (if fst r then Inr (snd r) else Inl error)"

definition sm_emplace :: "'k :: linorder \<Rightarrow> 'v \<Rightarrow> ('k \<times> 'v) list \<Rightarrow> bool \<times> ('k \<times> 'v) list" where
  "sm_emplace k v m = (case sm_find m k of Some _ \<Rightarrow> (False, m) | None \<Rightarrow> (True, sm_assign k v m))"

text \<open>The body of the loops: a line with the given tag, parsed and added to what was read before.\<close>

definition read_entry :: "string \<Rightarrow> (string list \<Rightarrow> string + 'e) \<Rightarrow> ('e \<Rightarrow> 'm \<Rightarrow> string + 'm) \<Rightarrow> 'm \<Rightarrow> 'm reader" where
  "read_entry entry_tag parse add acc =
     rbind (read_fields entry_tag) (\<lambda>fs. rlift (ebind (parse fs) (\<lambda>e. add e acc)))"

definition read_entries :: "u64 \<Rightarrow> string \<Rightarrow> (string list \<Rightarrow> string + 'e) \<Rightarrow> ('e \<Rightarrow> 'm \<Rightarrow> string + 'm) \<Rightarrow> 'm \<Rightarrow> 'm reader" where
  "read_entries count entry_tag parse add start = rtimes (unat count) (read_entry entry_tag parse add) start"

section \<open>Books\<close>

definition parse_symbol_config :: "string list \<Rightarrow> string + SymbolConfig" where
  "parse_symbol_config fs =
     ebind (require_field_count fs 18) (\<lambda>_.
     ebind (parse_unsigned (fs ! 1)) (\<lambda>symbolId. ebind (parse_unsigned (fs ! 2)) (\<lambda>baseAssetId.
     ebind (parse_unsigned (fs ! 3)) (\<lambda>quoteAssetId. ebind (parse_int64 (fs ! 4)) (\<lambda>tickSize.
     ebind (parse_unsigned (fs ! 5)) (\<lambda>lotSize. ebind (parse_unsigned (fs ! 6)) (\<lambda>minQuantity.
     ebind (parse_unsigned (fs ! 7)) (\<lambda>maxQuantity. ebind (parse_int64 (fs ! 8)) (\<lambda>minPrice.
     ebind (parse_int64 (fs ! 9)) (\<lambda>maxPrice. ebind (parse_unsigned (fs ! 10)) (\<lambda>ringCapacityTicks.
     ebind (parse_unsigned (fs ! 11)) (\<lambda>thresholdPercentage. ebind (parse_int64 (fs ! 12)) (\<lambda>initialBaseTick.
     ebind (parse_uint8 (fs ! 13)) (\<lambda>priceScale. ebind (parse_uint8 (fs ! 14)) (\<lambda>quantityScale.
     ebind (parse_unsigned (fs ! 15)) (\<lambda>makerFeeRate. ebind (parse_unsigned (fs ! 16)) (\<lambda>takerFeeRate.
     ebind (parse_bool_field (fs ! 17)) (\<lambda>tradingEnabled. Inr
       \<lparr>sc_symbolId = symbolId, sc_baseAssetId = baseAssetId, sc_quoteAssetId = quoteAssetId,
        sc_tickSize = tickSize, sc_lotSize = lotSize, sc_minQuantity = minQuantity,
        sc_maxQuantity = maxQuantity, sc_minPrice = minPrice, sc_maxPrice = maxPrice,
        sc_ringCapacityTicks = ringCapacityTicks, sc_thresholdPercentage = thresholdPercentage,
        sc_initialBaseTick = initialBaseTick, sc_priceScale = priceScale, sc_quantityScale = quantityScale,
        sc_makerFeeRate = makerFeeRate, sc_takerFeeRate = takerFeeRate, sc_tradingEnabled = tradingEnabled\<rparr>
     ))))))))))))))))))"

definition read_symbol_config :: "SymbolConfig reader" where
  "read_symbol_config = rbind (read_fields ''symbol'') (\<lambda>fs. rlift (parse_symbol_config fs))"

fun parse_ids :: "string list \<Rightarrow> string + u64 list" where
  "parse_ids [] = Inr []"
| "parse_ids (f # fs) = ebind (parse_unsigned f) (\<lambda>i. ebind (parse_ids fs) (\<lambda>is. Inr (i # is)))"

text \<open>\<open>4 + order_count\<close> is an unsigned sum.\<close>

definition parse_price_level :: "string list \<Rightarrow> string + PriceLevelSnapshot" where
  "parse_price_level fs =
     ebind (require (\<not> length fs < 4) ''price level section is incomplete'') (\<lambda>_.
     ebind (parse_unsigned (fs ! 3)) (\<lambda>order_count :: u64.
     ebind (require (of_nat (length fs) = 4 + order_count) ''price level order count mismatch'') (\<lambda>_.
     ebind (parse_int64 (fs ! 1)) (\<lambda>price.
     ebind (parse_unsigned (fs ! 2)) (\<lambda>totalQuantity.
     ebind (parse_ids (take (unat order_count) (drop 4 fs))) (\<lambda>orderIds. Inr
       \<lparr>ls_price = price, ls_totalQuantity = totalQuantity, ls_orderIds = orderIds\<rparr>))))))"

definition append_entry :: "'e \<Rightarrow> 'e list \<Rightarrow> string + 'e list" where
  "append_entry e es = Inr (es @ [e])"

definition read_price_levels :: "string \<Rightarrow> string \<Rightarrow> PriceLevelSnapshot list reader" where
  "read_price_levels count_tag entry_tag = rbind (read_count count_tag) (\<lambda>count.
     read_entries count entry_tag parse_price_level append_entry [])"

definition parse_order :: "string list \<Rightarrow> string + OrderSnapshot" where
  "parse_order fs =
     ebind (require_field_count fs 10) (\<lambda>_.
     ebind (parse_unsigned (fs ! 1)) (\<lambda>orderId. ebind (parse_unsigned (fs ! 2)) (\<lambda>clientOrderId.
     ebind (parse_unsigned (fs ! 3)) (\<lambda>userId. ebind (parse_unsigned (fs ! 4)) (\<lambda>symbolId.
     ebind (parse_side_field (fs ! 5)) (\<lambda>side. ebind (parse_int64 (fs ! 6)) (\<lambda>price.
     ebind (parse_unsigned (fs ! 7)) (\<lambda>originalQuantity. ebind (parse_unsigned (fs ! 8)) (\<lambda>remainingQuantity.
     ebind (parse_unsigned (fs ! 9)) (\<lambda>sequenceAccepted. Inr
       \<lparr>os_orderId = orderId, os_clientOrderId = clientOrderId, os_userId = userId, os_symbolId = symbolId,
        os_side = side, os_price = price, os_originalQuantity = originalQuantity,
        os_remainingQuantity = remainingQuantity, os_sequenceAccepted = sequenceAccepted\<rparr>))))))))))"

definition read_orders :: "OrderSnapshot list reader" where
  "read_orders = rbind (read_count ''active_orders'') (\<lambda>count.
     read_entries count ''order'' parse_order append_entry [])"

definition parse_id_pair :: "string list \<Rightarrow> string + (u64 \<times> u64)" where
  "parse_id_pair fs =
     ebind (require_field_count fs 3) (\<lambda>_.
     ebind (parse_unsigned (fs ! 1)) (\<lambda>k. ebind (parse_unsigned (fs ! 2)) (\<lambda>v. Inr (k, v))))"

text \<open>\<open>emplace\<close> of an entry with its key into an unordered map, and into an ordered one.\<close>

definition add_entry :: "string \<Rightarrow> 'k \<times> 'v \<Rightarrow> ('k \<times> 'v) list \<Rightarrow> string + ('k \<times> 'v) list" where
  "add_entry error e m = emplaced error (um_emplace (fst e) (snd e) m)"

definition add_ordered :: "string \<Rightarrow> 'k :: linorder \<times> 'v \<Rightarrow> ('k \<times> 'v) list \<Rightarrow> string + ('k \<times> 'v) list" where
  "add_ordered error e m = emplaced error (sm_emplace (fst e) (snd e) m)"

definition read_client_order_map :: "(ClientOrderId \<times> OrderId) list reader" where
  "read_client_order_map = rbind (read_count ''client_order_map'') (\<lambda>count.
     read_entries count ''client_order'' parse_id_pair
       (add_entry ''duplicate client order id in checkpoint'') [])"

definition read_symbol :: "OrderBookSnapshot reader" where
  "read_symbol =
     rbind read_symbol_config (\<lambda>config.
     rbind (read_price_levels ''bid_levels'' ''bid_level'') (\<lambda>bids.
     rbind (read_price_levels ''ask_levels'' ''ask_level'') (\<lambda>asks.
     rbind read_orders (\<lambda>orders.
     rbind read_client_order_map (\<lambda>client_orders. rreturn
       \<lparr>bs_symbolId = sc_symbolId config, bs_symbolConfig = config, bs_bidLevels = bids, bs_askLevels = asks,
        bs_activeOrders = orders, bs_clientOrderIdToOrderId = client_orders\<rparr>)))))"

definition read_symbols :: "OrderBookSnapshot list reader" where
  "read_symbols = rbind (read_count ''symbols'') (\<lambda>count.
     rtimes (unat count) (\<lambda>symbols. rbind read_symbol (\<lambda>symbol. rreturn (symbols @ [symbol]))) [])"

section \<open>The idempotency index\<close>

definition parse_command_summary :: "string list \<Rightarrow> string + (CommandId \<times> CommandResultSummary)" where
  "parse_command_summary fs =
     ebind (require_field_count fs 8) (\<lambda>_.
     ebind (parse_unsigned (fs ! 1)) (\<lambda>command_id.
     ebind (parse_bool_field (fs ! 3)) (\<lambda>has_order_id.
     ebind (if has_order_id then ebind (parse_unsigned (fs ! 4)) (Inr \<circ> Some) else Inr None) (\<lambda>order_id.
     ebind (parse_bool_field (fs ! 5)) (\<lambda>has_reason.
     ebind (if has_reason then ebind (parse_reject_reason (fs ! 6)) (Inr \<circ> Some) else Inr None) (\<lambda>reject_reason.
     ebind (parse_bool_field (fs ! 2)) (\<lambda>accepted.
     ebind (parse_unsigned (fs ! 7)) (\<lambda>sequence. Inr (command_id,
       \<lparr>cr_commandId = command_id, cr_accepted = accepted, cr_orderId = order_id,
        cr_rejectReason = reject_reason, cr_sequence = sequence\<rparr>)))))))))"

definition parse_id_entry :: "string list \<Rightarrow> string + u64" where
  "parse_id_entry fs = ebind (require_field_count fs 2) (\<lambda>_. parse_unsigned (fs ! 1))"

text \<open>\<open>emplace\<close> into the unordered set of order ids.\<close>

definition add_id :: "OrderId \<Rightarrow> OrderId list \<Rightarrow> string + OrderId list" where
  "add_id i is = (if i \<in> set is then Inl ''duplicate idempotency order id'' else Inr (is @ [i]))"

definition read_idempotency_snapshot :: "IdempotencySnapshot reader" where
  "read_idempotency_snapshot =
     rbind (read_count ''idempotency_processed_commands'') (\<lambda>count.
     rbind (read_entries count ''processed_command'' parse_command_summary
       (add_entry ''duplicate processed command id'') []) (\<lambda>commands.
     rbind (read_count ''idempotency_client_orders'') (\<lambda>count.
     rbind (read_entries count ''idempotency_client_order'' parse_id_pair
       (add_entry ''duplicate idempotency client order id'') []) (\<lambda>client_orders.
     rbind (read_count ''idempotency_order_ids'') (\<lambda>count.
     rbind (read_entries count ''idempotency_order_id'' parse_id_entry add_id []) (\<lambda>order_ids. rreturn
       \<lparr>ii_processedCommandIds = commands, ii_clientOrderIdToOrderId = client_orders,
        ii_orderIds = order_ids\<rparr>))))))"

section \<open>Sequences, prices and rates\<close>

definition parse_public_sequence :: "string list \<Rightarrow> string + (MarketId \<times> EngineSequence)" where
  "parse_public_sequence fs =
     ebind (require_field_count fs 3) (\<lambda>_.
     ebind (parse_int64 (fs ! 1)) (\<lambda>market_id. ebind (parse_unsigned (fs ! 2)) (\<lambda>s. Inr (market_id, s))))"

definition read_public_sequences :: "(MarketId \<times> EngineSequence) list reader" where
  "read_public_sequences = rbind (read_count ''public_sequences'') (\<lambda>count.
     read_entries count ''public_sequence'' parse_public_sequence
       (add_entry ''duplicate public sequence market id'') [])"

definition parse_mark_price :: "string list \<Rightarrow> string + (MarketId \<times> MarkPriceState)" where
  "parse_mark_price fs =
     ebind (require_field_count fs 9) (\<lambda>_.
     ebind (parse_int64 (fs ! 1)) (\<lambda>market_id. ebind (parse_int64 (fs ! 2)) (\<lambda>mark_price.
     ebind (parse_int64 (fs ! 3)) (\<lambda>index_price. ebind (parse_int64 (fs ! 4)) (\<lambda>source_timestamp_ms.
     ebind (parse_int64 (fs ! 5)) (\<lambda>published_at_ms. ebind (parse_int64 (fs ! 6)) (\<lambda>valid_until_ms.
     ebind (parse_int64 (fs ! 7)) (\<lambda>source_sequence. ebind (unescape_field (fs ! 8)) (\<lambda>source_status. Inr (market_id,
       \<lparr>mp_market_id = market_id, mp_mark_price = mark_price, mp_index_price = index_price,
        mp_source_timestamp_ms = source_timestamp_ms, mp_published_at_ms = published_at_ms,
        mp_valid_until_ms = valid_until_ms, mp_source_sequence = source_sequence,
        mp_source_status = source_status\<rparr>))))))))))"

definition read_mark_prices :: "string list \<Rightarrow> MarkPriceMap reader" where
  "read_mark_prices count_fields = rbind (rlift (count_from_fields count_fields ''mark_prices'')) (\<lambda>count.
     read_entries count ''mark_price_state'' parse_mark_price (add_entry ''duplicate mark price market id'') [])"

definition parse_funding_rate :: "string list \<Rightarrow> string + (MarketId \<times> FundingRateState)" where
  "parse_funding_rate fs =
     ebind (require_field_count fs 8) (\<lambda>_.
     ebind (parse_int64 (fs ! 1)) (\<lambda>market_id. ebind (unescape_field (fs ! 2)) (\<lambda>funding_interval_id.
     ebind (parse_int64 (fs ! 3)) (\<lambda>rate. ebind (parse_int64 (fs ! 4)) (\<lambda>rate_scale.
     ebind (parse_int64 (fs ! 5)) (\<lambda>interval_start_ms. ebind (parse_int64 (fs ! 6)) (\<lambda>interval_end_ms.
     ebind (parse_int64 (fs ! 7)) (\<lambda>source_timestamp_ms. Inr (market_id,
       \<lparr>fr_market_id = market_id, fr_funding_interval_id = funding_interval_id, fr_rate = rate,
        fr_rate_scale = rate_scale, fr_interval_start_ms = interval_start_ms,
        fr_interval_end_ms = interval_end_ms, fr_source_timestamp_ms = source_timestamp_ms\<rparr>)))))))))"

definition read_funding_rates :: "string list \<Rightarrow> (MarketId \<times> FundingRateState) list reader" where
  "read_funding_rates count_fields = rbind (rlift (count_from_fields count_fields ''funding_rates'')) (\<lambda>count.
     read_entries count ''funding_rate_state'' parse_funding_rate (add_entry ''duplicate funding rate market id'') [])"

definition parse_settled_interval :: "string list \<Rightarrow> string + FundingSettlementKey" where
  "parse_settled_interval fs =
     ebind (require_field_count fs 3) (\<lambda>_.
     ebind (parse_int64 (fs ! 1)) (\<lambda>market_id. ebind (unescape_field (fs ! 2)) (\<lambda>funding_interval_id.
       Inr (FundingSettlementKey market_id funding_interval_id))))"

definition add_settled_interval :: "FundingSettlementKey \<Rightarrow> FundingSettlementSet \<Rightarrow> string + FundingSettlementSet" where
  "add_settled_interval k ks = (if k \<in> ks then Inl ''duplicate settled funding interval'' else Inr (insert k ks))"

definition read_settled_funding_intervals :: "string list \<Rightarrow> FundingSettlementSet reader" where
  "read_settled_funding_intervals count_fields =
     rbind (rlift (count_from_fields count_fields ''settled_funding_intervals'')) (\<lambda>count.
       read_entries count ''settled_funding_interval'' parse_settled_interval add_settled_interval {})"

section \<open>Positions and risk states\<close>

definition parse_position :: "string list \<Rightarrow> string + (PositionRiskKey \<times> IsolatedPositionState)" where
  "parse_position fs =
     ebind (require_field_count fs 11) (\<lambda>_.
     ebind (parse_int64 (fs ! 1)) (\<lambda>key_user_id. ebind (parse_int64 (fs ! 2)) (\<lambda>key_market_id.
     ebind (parse_int64 (fs ! 3)) (\<lambda>user_id. ebind (parse_int64 (fs ! 4)) (\<lambda>market_id.
     ebind (parse_int64 (fs ! 5)) (\<lambda>signed_quantity. ebind (parse_int64 (fs ! 6)) (\<lambda>average_entry_price.
     ebind (unescape_field (fs ! 7)) (\<lambda>margin_asset. ebind (parse_int64 (fs ! 8)) (\<lambda>isolated_margin.
     ebind (parse_int32 (fs ! 9)) (\<lambda>leverage. ebind (parse_int64 (fs ! 10)) (\<lambda>updated_at_ms.
       Inr (PositionRiskKey key_user_id key_market_id,
         \<lparr>ps_user_id = user_id, ps_market_id = market_id, ps_signed_quantity = signed_quantity,
          ps_average_entry_price = average_entry_price, ps_margin_asset = margin_asset,
          ps_isolated_margin = isolated_margin, ps_leverage = leverage, ps_updated_at_ms = updated_at_ms\<rparr>))))))))))))"

definition read_positions :: "string list \<Rightarrow> IsolatedPositionMap reader" where
  "read_positions count_fields = rbind (rlift (count_from_fields count_fields ''positions'')) (\<lambda>count.
     read_entries count ''position_state'' parse_position (add_ordered ''duplicate position key'') [])"

text \<open>
  A risk state of an older file has 14 fields: its equity is the margin plus the unrealised profit, a
  signed sum, and the maintenance margin and the margin ratio are 0.
\<close>

definition parse_risk_state :: "string list \<Rightarrow> string + (PositionRiskKey \<times> IsolatedRiskState)" where
  "parse_risk_state fs =
     ebind (require (length fs = 14 \<or> length fs = 17) ''unexpected checkpoint field count'') (\<lambda>_.
     let full = (length fs = 17) in
     ebind (parse_int64 (fs ! 1)) (\<lambda>key_user_id. ebind (parse_int64 (fs ! 2)) (\<lambda>key_market_id.
     ebind (parse_int64 (fs ! 3)) (\<lambda>user_id. ebind (parse_int64 (fs ! 4)) (\<lambda>market_id.
     ebind (unescape_field (fs ! 5)) (\<lambda>status. ebind (unescape_field (fs ! 6)) (\<lambda>margin_asset.
     ebind (parse_int64 (fs ! 7)) (\<lambda>signed_quantity. ebind (parse_int64 (fs ! 8)) (\<lambda>average_entry_price.
     ebind (parse_int64 (fs ! 9)) (\<lambda>mark_price. ebind (parse_int64 (fs ! 10)) (\<lambda>isolated_margin.
     ebind (parse_int64 (fs ! 11)) (\<lambda>unrealized_pnl.
     ebind (if full then parse_int64 (fs ! 12) else Inr (i64 (isolated_margin + unrealized_pnl))) (\<lambda>equity.
     ebind (if full then parse_int64 (fs ! 13) else Inr 0) (\<lambda>maintenance_margin.
     ebind (if full then parse_int64 (fs ! 14) else Inr 0) (\<lambda>margin_ratio.
     ebind (parse_int32 (if full then fs ! 15 else fs ! 12)) (\<lambda>leverage.
     ebind (parse_int64 (if full then fs ! 16 else fs ! 13)) (\<lambda>updated_at_ms.
       Inr (PositionRiskKey key_user_id key_market_id,
         \<lparr>rs_user_id = user_id, rs_market_id = market_id, rs_status = status, rs_margin_asset = margin_asset,
          rs_signed_quantity = signed_quantity, rs_average_entry_price = average_entry_price,
          rs_mark_price = mark_price, rs_isolated_margin = isolated_margin, rs_unrealized_pnl = unrealized_pnl,
          rs_equity = equity, rs_maintenance_margin = maintenance_margin, rs_margin_ratio = margin_ratio,
          rs_leverage = leverage, rs_updated_at_ms = updated_at_ms\<rparr>))))))))))))))))))"

definition read_risk_states :: "string list \<Rightarrow> IsolatedRiskMap reader" where
  "read_risk_states count_fields = rbind (rlift (count_from_fields count_fields ''risk_states'')) (\<lambda>count.
     read_entries count ''risk_state'' parse_risk_state (add_ordered ''duplicate risk state key'') [])"

section \<open>Metadata and processed requests\<close>

definition parse_optional_text :: "string \<Rightarrow> string \<Rightarrow> string + string option" where
  "parse_optional_text flag value = ebind (parse_bool_field flag) (\<lambda>present.
     if present then ebind (unescape_field value) (Inr \<circ> Some) else Inr None)"

text \<open>An entry of an older file has 12 fields; the members it lacks keep their defaults.\<close>

definition parse_old_metadata :: "string list \<Rightarrow> string + OrderMetadata" where
  "parse_old_metadata fs =
     ebind (parse_unsigned (fs ! 1)) (\<lambda>order_id. ebind (parse_int64 (fs ! 2)) (\<lambda>market_id.
     ebind (parse_int64 (fs ! 3)) (\<lambda>user_id. ebind (unescape_field (fs ! 4)) (\<lambda>reservation_id.
     ebind (unescape_field (fs ! 5)) (\<lambda>place_request_id. ebind (unescape_field (fs ! 6)) (\<lambda>place_idempotency_key.
     ebind (parse_optional_text (fs ! 7) (fs ! 8)) (\<lambda>place_input_id.
     ebind (parse_int32 (fs ! 9)) (\<lambda>reply_partition. ebind (parse_unsigned (fs ! 10)) (\<lambda>core_client_order_id.
     ebind (parse_unsigned (fs ! 11)) (\<lambda>core_place_command_id. Inr
       \<lparr>om_order_id = order_id, om_market_id = market_id, om_user_id = user_id, om_side = Long,
        om_original_quantity = 0, om_remaining_quantity = 0, om_reduce_only = False, om_margin_asset = [],
        om_reserved_margin_amount = 0, om_remaining_reserved_margin = 0, om_leverage = 0,
        om_reservation_id = reservation_id, om_place_request_id = place_request_id,
        om_place_idempotency_key = place_idempotency_key, om_place_input_id = place_input_id,
        om_reply_partition = reply_partition, om_core_client_order_id = core_client_order_id,
        om_core_place_command_id = core_place_command_id\<rparr>))))))))))"

definition parse_new_metadata :: "string list \<Rightarrow> string + OrderMetadata" where
  "parse_new_metadata fs =
     ebind (parse_unsigned (fs ! 1)) (\<lambda>order_id. ebind (parse_int64 (fs ! 2)) (\<lambda>market_id.
     ebind (parse_int64 (fs ! 3)) (\<lambda>user_id. ebind (parse_adapter_side (fs ! 4)) (\<lambda>side.
     ebind (parse_int64 (fs ! 5)) (\<lambda>original_quantity. ebind (parse_int64 (fs ! 6)) (\<lambda>remaining_quantity.
     ebind (parse_bool_field (fs ! 7)) (\<lambda>reduce_only. ebind (unescape_field (fs ! 8)) (\<lambda>margin_asset.
     ebind (parse_int64 (fs ! 9)) (\<lambda>reserved_margin_amount.
     ebind (parse_int64 (fs ! 10)) (\<lambda>remaining_reserved_margin. ebind (parse_int32 (fs ! 11)) (\<lambda>leverage.
     ebind (unescape_field (fs ! 12)) (\<lambda>reservation_id. ebind (unescape_field (fs ! 13)) (\<lambda>place_request_id.
     ebind (unescape_field (fs ! 14)) (\<lambda>place_idempotency_key.
     ebind (parse_optional_text (fs ! 15) (fs ! 16)) (\<lambda>place_input_id.
     ebind (parse_int32 (fs ! 17)) (\<lambda>reply_partition. ebind (parse_unsigned (fs ! 18)) (\<lambda>core_client_order_id.
     ebind (parse_unsigned (fs ! 19)) (\<lambda>core_place_command_id. Inr
       \<lparr>om_order_id = order_id, om_market_id = market_id, om_user_id = user_id, om_side = side,
        om_original_quantity = original_quantity, om_remaining_quantity = remaining_quantity,
        om_reduce_only = reduce_only, om_margin_asset = margin_asset,
        om_reserved_margin_amount = reserved_margin_amount,
        om_remaining_reserved_margin = remaining_reserved_margin, om_leverage = leverage,
        om_reservation_id = reservation_id, om_place_request_id = place_request_id,
        om_place_idempotency_key = place_idempotency_key, om_place_input_id = place_input_id,
        om_reply_partition = reply_partition, om_core_client_order_id = core_client_order_id,
        om_core_place_command_id = core_place_command_id\<rparr>))))))))))))))))))"

definition parse_metadata :: "string list \<Rightarrow> string + OrderMetadata" where
  "parse_metadata fs =
     ebind (require (length fs = 12 \<or> length fs = 20) ''unexpected checkpoint field count'') (\<lambda>_.
       if length fs = 12 then parse_old_metadata fs else parse_new_metadata fs)"

definition add_metadata :: "OrderMetadata \<Rightarrow> OrderMetadataStore \<Rightarrow> string + OrderMetadataStore" where
  "add_metadata md st = emplaced ''duplicate metadata order id'' (metadata_insert md st)"

definition read_metadata_store :: "string list \<Rightarrow> OrderMetadataStore reader" where
  "read_metadata_store count_fields = rbind (rlift (count_from_fields count_fields ''metadata'')) (\<lambda>count.
     read_entries count ''metadata_entry'' parse_metadata add_metadata [])"

definition parse_processed_request :: "string list \<Rightarrow> string + (string \<times> EngineRuntimeProcessedRequestSnapshot)" where
  "parse_processed_request fs =
     ebind (require_field_count fs 9) (\<lambda>_.
     ebind (unescape_field (fs ! 1)) (\<lambda>key. ebind (parse_runtime_command_kind (fs ! 2)) (\<lambda>command_kind.
     ebind (unescape_field (fs ! 3)) (\<lambda>topic. ebind (parse_int32 (fs ! 4)) (\<lambda>part.
     ebind (parse_int64 (fs ! 5)) (\<lambda>offset. ebind (parse_optional_text (fs ! 6) (fs ! 7)) (\<lambda>input_id.
     ebind (unescape_field (fs ! 8)) (\<lambda>idempotency_key. Inr (key,
       \<lparr>qs_command_kind = command_kind, qs_topic = topic, qs_partition = part, qs_offset = offset,
        qs_input_id = input_id, qs_idempotency_key = idempotency_key\<rparr>)))))))))"

definition read_processed_requests :: "string \<Rightarrow> (string \<times> EngineRuntimeProcessedRequestSnapshot) list reader" where
  "read_processed_requests section_tag = rbind (read_count section_tag) (\<lambda>count.
     read_entries count ''processed_request'' parse_processed_request
       (add_entry ''duplicate processed request key'') [])"

section \<open>The whole file\<close>

text \<open>
  A section that older files do not have: when the line read ahead opens it, it is read and the next line
  is read ahead; otherwise the default stays.
\<close>

definition optional_section :: "string \<Rightarrow> (string list \<Rightarrow> 'a reader) \<Rightarrow> 'a \<Rightarrow> string list \<Rightarrow> ('a \<times> string list) reader" where
  "optional_section tag read_section absent ahead =
     (if ahead \<noteq> [] \<and> hd ahead = tag
      then rbind (read_section ahead) (\<lambda>x. rbind read_fields_any (\<lambda>ahead. rreturn (x, ahead)))
      else rreturn (absent, ahead))"

definition parse_source_position :: "string list \<Rightarrow> string + CheckpointSourcePosition" where
  "parse_source_position fs =
     ebind (require_field_count fs 4) (\<lambda>_. ebind (unescape_field (fs ! 1)) (\<lambda>topic.
     ebind (parse_int32 (fs ! 2)) (\<lambda>part. ebind (parse_int64 (fs ! 3)) (\<lambda>next_offset.
       Inr \<lparr>cp_topic = topic, cp_partition = part, cp_next_offset = next_offset\<rparr>))))"

definition parse_sequence_state :: "string list \<Rightarrow> string + SequenceState" where
  "parse_sequence_state fs =
     ebind (require_field_count fs 4) (\<lambda>_. ebind (parse_unsigned (fs ! 1)) (\<lambda>nextSequence.
     ebind (parse_unsigned (fs ! 2)) (\<lambda>nextTradeId. ebind (parse_unsigned (fs ! 3)) (\<lambda>nextEventId.
       Inr \<lparr>ss_nextSequence = nextSequence, ss_nextTradeId = nextTradeId, ss_nextEventId = nextEventId\<rparr>))))"

definition read_checkpoint :: "EngineCheckpoint reader" where
  "read_checkpoint =
     rbind read_raw_line (\<lambda>magic.
     rbind (rlift (require (magic = kMagic) ''invalid checkpoint magic'')) (\<lambda>_.
     rbind (read_fields ''schema_version'') (\<lambda>fs.
     rbind (rlift (ebind (require_field_count fs 2) (\<lambda>_. parse_unsigned (fs ! 1)))) (\<lambda>schema_version.
     rbind (read_fields ''checkpoint_id'') (\<lambda>fs.
     rbind (rlift (ebind (require_field_count fs 2) (\<lambda>_. unescape_field (fs ! 1)))) (\<lambda>checkpoint_id.
     rbind (read_fields ''source_position'') (\<lambda>fs.
     rbind (rlift (parse_source_position fs)) (\<lambda>source_position.
     rbind (read_fields ''sequence_state'') (\<lambda>fs.
     rbind (rlift (parse_sequence_state fs)) (\<lambda>sequence_state.
     rbind read_symbols (\<lambda>symbols.
     rbind read_idempotency_snapshot (\<lambda>idempotency.
     rbind read_public_sequences (\<lambda>public_sequences.
     rbind read_fields_any (\<lambda>ahead.
     rbind (optional_section ''mark_prices'' read_mark_prices [] ahead) (\<lambda>(mark_prices, ahead).
     rbind (optional_section ''funding_rates'' read_funding_rates [] ahead) (\<lambda>(funding_rates, ahead).
     rbind (optional_section ''settled_funding_intervals'' read_settled_funding_intervals {} ahead) (\<lambda>(settled, ahead).
     rbind (optional_section ''positions'' read_positions [] ahead) (\<lambda>(positions, ahead).
     rbind (optional_section ''risk_states'' read_risk_states [] ahead) (\<lambda>(risk_states, ahead).
     rbind (rlift (check_tag ''metadata'' ahead)) (\<lambda>ahead.
     rbind (read_metadata_store ahead) (\<lambda>metadata.
     rbind (read_processed_requests ''processed_input_ids'') (\<lambda>input_ids.
     rbind (read_processed_requests ''processed_idempotency_keys'') (\<lambda>idempotency_keys.
     rbind (read_fields ''end'') (\<lambda>fs.
     rbind (rlift (require_field_count fs 1)) (\<lambda>_. rreturn
       \<lparr>ck_schema_version = schema_version, ck_checkpoint_id = checkpoint_id,
        ck_core_snapshot = \<lparr>es_symbolSnapshots = symbols, es_sequenceState = sequence_state,
          es_idempotencyState = idempotency\<rparr>,
        ck_source_position = source_position, ck_public_sequences = public_sequences,
        ck_mark_prices = mark_prices, ck_funding_rates = funding_rates,
        ck_settled_funding_intervals = settled, ck_positions = positions, ck_risk_states = risk_states,
        ck_metadata_store = metadata, ck_processed_input_ids = input_ids,
        ck_processed_idempotency_keys = idempotency_keys\<rparr>)))))))))))))))))))))))))"

definition deserialize_checkpoint :: "string \<Rightarrow> string + EngineCheckpoint" where
  "deserialize_checkpoint checkpoint_text = ebind (read_checkpoint checkpoint_text) (\<lambda>(ck, _). Inr ck)"

definition try_deserialize_checkpoint :: "string \<Rightarrow> EngineCheckpoint option" where
  "try_deserialize_checkpoint checkpoint_text =
     (case deserialize_checkpoint checkpoint_text of Inl _ \<Rightarrow> None | Inr ck \<Rightarrow> Some ck)"

end
