(* ===== verification/CheckpointRoundTrip.thy ===== *)
theory CheckpointRoundTrip
  imports CheckpointReader
begin

text \<open>
  Reading back what the codec wrote.  Every kind of entry is an instance of one contract, the locale
  \<open>entry_codec\<close>; the loops over a section are read once, inside it.
\<close>

section \<open>Lines\<close>

named_theorems reader_simps \<open>readers applied to a text\<close>

lemma rreturn_apply [reader_simps]: "rreturn x inp = Inr (x, inp)"
  by (simp add: rreturn_def)

lemma rbind_apply [reader_simps]: "rbind m f inp = ebind (m inp) (\<lambda>(x, rest). f x rest)"
  by (simp add: rbind_def)

lemma rlift_apply [reader_simps]: "rlift (Inr x) inp = Inr (x, inp)" "rlift (Inl e) inp = Inl e"
  by (simp_all add: rlift_def)

lemma read_line_text:
  "line_feed \<notin> set line \<Longrightarrow> carriage_return \<notin> set line \<Longrightarrow> read_raw_line (line @ line_feed # rest) = Inr (line, rest)"
proof -
  assume lf: "line_feed \<notin> set line" and cr: "carriage_return \<notin> set line"
  have ends: "takeWhile (\<lambda>c. c \<noteq> line_feed) (line @ line_feed # rest) = line"
    "dropWhile (\<lambda>c. c \<noteq> line_feed) (line @ line_feed # rest) = line_feed # rest"
    using lf by (induction line) auto
  have "line \<noteq> [] \<Longrightarrow> last line \<noteq> carriage_return" using cr last_in_set by metis
  then show ?thesis by (auto simp: read_raw_line_def ends Let_def)
qed

lemma read_fields_any_line [reader_simps]:
  "list_all field_ok fs \<Longrightarrow> fs \<noteq> [] \<Longrightarrow> read_fields_any (write_line fs @ rest) = Inr (fs, rest)"
  using field_ok_join [of fs]
  by (simp add: read_fields_any_def reader_simps write_line_def read_line_text split_join)

lemma read_fields_line [reader_simps]:
  "list_all field_ok (tag # fs) \<Longrightarrow> read_fields tag (write_line (tag # fs) @ rest) = Inr (tag # fs, rest)"
  by (simp add: read_fields_def reader_simps check_tag_def)

lemma field_ok_count [simp]: "field_ok (count_field xs)"
  by (simp add: count_field_def)

lemma count_from_line [reader_simps]:
  "length xs < 2 ^ 64 \<Longrightarrow> count_from_fields [tag, count_field xs] tag = Inr (of_nat (length xs))"
  by (simp add: count_from_fields_def check_tag_def require_field_count_def count_field_def parse_count)

lemma read_count_line [reader_simps]:
  "field_ok tag \<Longrightarrow> length xs < 2 ^ 64 \<Longrightarrow>
     read_count tag (write_line [tag, count_field xs] @ rest) = Inr (of_nat (length xs), rest)"
  by (simp add: read_count_def reader_simps)

lemma unat_count: "n < 2 ^ 64 \<Longrightarrow> unat (of_nat n :: u64) = n"
  by (simp add: unsigned_of_nat take_bit_nat_eq_self)

section \<open>Sections\<close>

fun efold :: "('e \<Rightarrow> 'm \<Rightarrow> string + 'm) \<Rightarrow> 'e list \<Rightarrow> 'm \<Rightarrow> string + 'm" where
  "efold add [] acc = Inr acc"
| "efold add (e # es) acc = ebind (add e acc) (efold add es)"

text \<open>
  What a kind of entry promises: its fields fit in a line, and parsing them with the tag in front gives the
  entry back, in the form the reader stores it.
\<close>

locale entry_codec =
  fixes tag :: string and fields_of :: "'e \<Rightarrow> string list" and parse :: "string list \<Rightarrow> string + 'e"
    and ok :: "'e \<Rightarrow> bool" and stored :: "'e \<Rightarrow> 'e"
  assumes tag_ok: "field_ok tag"
    and fields_ok: "list_all field_ok (fields_of e)"
    and parse_fields: "ok e \<Longrightarrow> parse (tag # fields_of e) = Inr (stored e)"
begin

lemma read_entry_line:
  "ok e \<Longrightarrow> read_entry tag parse add acc (write_line (tag # fields_of e) @ rest) = rlift (add (stored e) acc) rest"
  using tag_ok fields_ok [of e] by (simp add: read_entry_def reader_simps parse_fields)

lemma read_entries_text:
  "list_all ok es \<Longrightarrow> rtimes (length es) (read_entry tag parse add) acc (write_entries tag fields_of es @ rest) =
     rlift (efold add (map stored es) acc) rest"
proof (induction es arbitrary: acc)
  case (Cons e es)
  show ?case
  proof (cases "add (stored e) acc")
    case (Inr acc')
    then show ?thesis using Cons
      by (simp add: write_entries_def reader_simps read_entry_line)
  qed (use Cons.prems in \<open>simp add: write_entries_def reader_simps read_entry_line\<close>)
qed (simp add: write_entries_def reader_simps)

text \<open>A section whose count line was read ahead, and one that is read from its start.\<close>

lemma read_section_ahead:
  assumes "list_all ok es" "length es < 2 ^ 64" "efold add (map stored es) start = Inr m"
  shows "rbind (rlift (count_from_fields [stag, count_field es] stag)) (\<lambda>count. read_entries count tag parse add start)
      (write_entries tag fields_of es @ rest) = Inr (m, rest)"
  using assms by (simp add: reader_simps read_entries_def unat_count read_entries_text)

lemma read_section:
  assumes "list_all ok es" "length es < 2 ^ 64" "efold add (map stored es) start = Inr m" "field_ok stag"
  shows "rbind (read_count stag) (\<lambda>count. read_entries count tag parse add start)
      (write_section stag tag fields_of es @ rest) = Inr (m, rest)"
  using assms by (simp add: write_section_def reader_simps read_entries_def unat_count read_entries_text)

end

section \<open>Filling the containers\<close>

lemma efold_push_back: "efold append_entry es acc = Inr (acc @ es)"
  by (induction es arbitrary: acc) (simp_all add: append_entry_def)

lemma update_last: "k \<notin> fst ` set m \<Longrightarrow> AList.update k v m = m @ [(k, v)]"
  by (induction m) auto

lemma efold_add_entry:
  "distinct (map fst (acc @ es)) \<Longrightarrow> efold (add_entry error) es acc = Inr (acc @ es)"
proof (induction es arbitrary: acc)
  case (Cons e es)
  have "map_of acc (fst e) = None" using Cons.prems by (auto simp: map_of_eq_None_iff)
  then have "add_entry error e acc = Inr (acc @ [e])"
    using Cons.prems by (auto simp: add_entry_def emplaced_def um_emplace_def update_last)
  then show ?case using Cons by simp
qed simp

lemma sm_assign_snoc: "\<forall>k' \<in> fst ` set m. k' < k \<Longrightarrow> sm_assign k v m = m @ [(k, v)]"
  by (induction m) auto

lemma efold_add_ordered:
  "sm_ok (acc @ es) \<Longrightarrow> efold (add_ordered error) es acc = Inr (acc @ es)"
proof (induction es arbitrary: acc)
  case (Cons e es)
  have less: "\<forall>k' \<in> fst ` set acc. k' < fst e" using Cons.prems by (auto simp: sm_ok_def sorted_wrt_append)
  then have "sm_find acc (fst e) = None" by (auto simp: sm_find_None_iff)
  then have "add_ordered error e acc = Inr (acc @ [e])"
    using sm_assign_snoc [OF less] by (simp add: add_ordered_def emplaced_def sm_emplace_def)
  then show ?case using Cons by simp
qed simp

lemma efold_add_id: "distinct (acc @ is) \<Longrightarrow> efold add_id is acc = Inr (acc @ is)"
  by (induction "is" arbitrary: acc) (simp_all add: add_id_def)

lemma efold_add_settled:
  "distinct ks \<Longrightarrow> set ks \<inter> acc = {} \<Longrightarrow> efold add_settled_interval ks acc = Inr (acc \<union> set ks)"
  by (induction ks arbitrary: acc) (simp_all add: add_settled_interval_def)

definition keyed_metadata :: "OrderMetadata list \<Rightarrow> OrderMetadataStore" where
  "keyed_metadata mds = map (\<lambda>md. (om_order_id md, md)) mds"

lemma efold_add_metadata:
  "distinct (map om_order_id mds) \<Longrightarrow> efold add_metadata mds [] = Inr (keyed_metadata mds)"
proof -
  have add: "add_metadata md = add_entry ''duplicate metadata order id'' (om_order_id md, md)" for md
    by (simp add: fun_eq_iff add_metadata_def add_entry_def metadata_insert_def)
  have "efold add_metadata mds acc = efold (add_entry ''duplicate metadata order id'') (keyed_metadata mds) acc" for acc
    by (induction mds arbitrary: acc) (simp_all add: keyed_metadata_def add ext cong: ebind_cong)
  then show "distinct (map om_order_id mds) \<Longrightarrow> ?thesis"
    by (simp add: efold_add_entry keyed_metadata_def comp_def)
qed

section \<open>The kinds of entries\<close>

text \<open>Signed members hold values of their type, and no list is longer than a \<open>size_t\<close> can say.\<close>

definition symbol_config_in_range :: "SymbolConfig \<Rightarrow> bool" where
  "symbol_config_in_range c \<longleftrightarrow> in_i64 (sc_tickSize c) \<and> in_i64 (sc_minPrice c) \<and> in_i64 (sc_maxPrice c) \<and>
     in_i64 (sc_initialBaseTick c)"

definition level_in_range :: "PriceLevelSnapshot \<Rightarrow> bool" where
  "level_in_range level \<longleftrightarrow> in_i64 (ls_price level) \<and> length (ls_orderIds level) < 2 ^ 64"

definition order_in_range :: "OrderSnapshot \<Rightarrow> bool" where
  "order_in_range ord \<longleftrightarrow> in_i64 (os_price ord)"

definition mark_price_in_range :: "MarketId \<times> MarkPriceState \<Rightarrow> bool" where
  "mark_price_in_range e \<longleftrightarrow> in_i64 (fst e) \<and> in_i64 (mp_mark_price (snd e)) \<and> in_i64 (mp_index_price (snd e)) \<and>
     in_i64 (mp_source_timestamp_ms (snd e)) \<and> in_i64 (mp_published_at_ms (snd e)) \<and>
     in_i64 (mp_valid_until_ms (snd e)) \<and> in_i64 (mp_source_sequence (snd e)) \<and> mp_market_id (snd e) = fst e"

definition funding_rate_in_range :: "MarketId \<times> FundingRateState \<Rightarrow> bool" where
  "funding_rate_in_range e \<longleftrightarrow> in_i64 (fst e) \<and> in_i64 (fr_rate (snd e)) \<and> in_i64 (fr_rate_scale (snd e)) \<and>
     in_i64 (fr_interval_start_ms (snd e)) \<and> in_i64 (fr_interval_end_ms (snd e)) \<and>
     in_i64 (fr_source_timestamp_ms (snd e)) \<and> fr_market_id (snd e) = fst e"

definition position_in_range :: "PositionRiskKey \<times> IsolatedPositionState \<Rightarrow> bool" where
  "position_in_range e \<longleftrightarrow> in_i64 (rk_user_id (fst e)) \<and> in_i64 (rk_market_id (fst e)) \<and> in_i64 (ps_user_id (snd e)) \<and>
     in_i64 (ps_market_id (snd e)) \<and> in_i64 (ps_signed_quantity (snd e)) \<and> in_i64 (ps_average_entry_price (snd e)) \<and>
     in_i64 (ps_isolated_margin (snd e)) \<and> in_i32 (ps_leverage (snd e)) \<and> in_i64 (ps_updated_at_ms (snd e))"

definition risk_in_range :: "PositionRiskKey \<times> IsolatedRiskState \<Rightarrow> bool" where
  "risk_in_range e \<longleftrightarrow> in_i64 (rk_user_id (fst e)) \<and> in_i64 (rk_market_id (fst e)) \<and> in_i64 (rs_user_id (snd e)) \<and>
     in_i64 (rs_market_id (snd e)) \<and> in_i64 (rs_signed_quantity (snd e)) \<and> in_i64 (rs_average_entry_price (snd e)) \<and>
     in_i64 (rs_mark_price (snd e)) \<and> in_i64 (rs_isolated_margin (snd e)) \<and> in_i64 (rs_unrealized_pnl (snd e)) \<and>
     in_i64 (rs_equity (snd e)) \<and> in_i64 (rs_maintenance_margin (snd e)) \<and> in_i64 (rs_margin_ratio (snd e)) \<and>
     in_i32 (rs_leverage (snd e)) \<and> in_i64 (rs_updated_at_ms (snd e))"

definition metadata_in_range :: "OrderMetadata \<Rightarrow> bool" where
  "metadata_in_range md \<longleftrightarrow> in_i64 (om_market_id md) \<and> in_i64 (om_user_id md) \<and> in_i64 (om_original_quantity md) \<and>
     in_i64 (om_remaining_quantity md) \<and> in_i64 (om_reserved_margin_amount md) \<and>
     in_i64 (om_remaining_reserved_margin md) \<and> in_i32 (om_leverage md) \<and> in_i32 (om_reply_partition md)"

definition request_in_range :: "string \<times> EngineRuntimeProcessedRequestSnapshot \<Rightarrow> bool" where
  "request_in_range e \<longleftrightarrow> in_i32 (qs_partition (snd e)) \<and> in_i64 (qs_offset (snd e))"

definition stored_summary :: "CommandId \<times> CommandResultSummary \<Rightarrow> CommandId \<times> CommandResultSummary" where
  "stored_summary = (\<lambda>(c, summary). (c, summary\<lparr>cr_commandId := c\<rparr>))"

lemma parse_optional_of_field [simp]:
  "parse_optional_text (bool_field (\<exists>t. v = Some t)) (optional_text v) = Inr v"
  by (cases v) (simp_all add: parse_optional_text_def optional_text_def)

lemma field_ok_optional [simp]: "field_ok (optional_text v)"
  by (cases v) (simp_all add: optional_text_def)

lemma parse_ids_fields: "parse_ids (map word_field is) = Inr is"
  by (induction "is") simp_all

lemma parse_price_level_fields:
  "level_in_range level \<Longrightarrow> parse_price_level (tag # price_level_fields level) = Inr level"
  by (simp add: parse_price_level_def price_level_fields_def level_in_range_def count_field_def parse_count
      unat_count parse_ids_fields algebra_simps)

lemma price_level_fields_ok: "list_all field_ok (price_level_fields level)"
  by (simp add: price_level_fields_def list_all_iff)

lemmas entry_defs = require_field_count_def split_beta

interpretation bid_level: entry_codec "''bid_level''" price_level_fields parse_price_level level_in_range id
  by unfold_locales (simp_all add: parse_price_level_fields price_level_fields_ok)

interpretation ask_level: entry_codec "''ask_level''" price_level_fields parse_price_level level_in_range id
  by unfold_locales (simp_all add: parse_price_level_fields price_level_fields_ok)

interpretation order: entry_codec "''order''" order_fields parse_order order_in_range id
  by unfold_locales (simp_all add: order_fields_def parse_order_def order_in_range_def entry_defs)

interpretation client_order: entry_codec "''client_order''" id_pair_fields parse_id_pair "\<lambda>_. True" id
  by unfold_locales (simp_all add: id_pair_fields_def parse_id_pair_def entry_defs)

interpretation idempotency_client_order:
  entry_codec "''idempotency_client_order''" id_pair_fields parse_id_pair "\<lambda>_. True" id
  by unfold_locales (simp_all add: id_pair_fields_def parse_id_pair_def entry_defs)

interpretation processed_command:
  entry_codec "''processed_command''" command_summary_fields parse_command_summary "\<lambda>_. True" stored_summary
  by unfold_locales (auto simp: command_summary_fields_def parse_command_summary_def stored_summary_def
      entry_defs split: option.split)

interpretation order_id_entry: entry_codec "''idempotency_order_id''" "\<lambda>i. [word_field i]" parse_id_entry "\<lambda>_. True" id
  by unfold_locales (simp_all add: parse_id_entry_def entry_defs)

interpretation public_sequence: entry_codec "''public_sequence''"
    "\<lambda>(market_id, s). [to_string market_id, word_field s]" parse_public_sequence "\<lambda>e. in_i64 (fst e)" id
  by unfold_locales (simp_all add: parse_public_sequence_def entry_defs)

interpretation mark_price: entry_codec "''mark_price_state''" mark_price_fields parse_mark_price mark_price_in_range id
  by unfold_locales (auto simp: mark_price_fields_def parse_mark_price_def mark_price_in_range_def entry_defs)

interpretation funding_rate:
  entry_codec "''funding_rate_state''" funding_rate_fields parse_funding_rate funding_rate_in_range id
  by unfold_locales (auto simp: funding_rate_fields_def parse_funding_rate_def funding_rate_in_range_def entry_defs)

interpretation settled_interval: entry_codec "''settled_funding_interval''" settled_interval_fields
    parse_settled_interval "\<lambda>k. in_i64 (fk_market_id k)" id
  by unfold_locales (simp_all add: settled_interval_fields_def parse_settled_interval_def entry_defs)

interpretation position: entry_codec "''position_state''" position_fields parse_position position_in_range id
  by unfold_locales (auto simp: position_fields_def parse_position_def position_in_range_def entry_defs)

interpretation risk_state: entry_codec "''risk_state''" risk_state_fields parse_risk_state risk_in_range id
  by unfold_locales (auto simp: risk_state_fields_def parse_risk_state_def risk_in_range_def entry_defs Let_def)

interpretation metadata: entry_codec "''metadata_entry''" metadata_fields parse_metadata metadata_in_range id
  by unfold_locales (simp_all add: metadata_fields_def parse_metadata_def parse_new_metadata_def metadata_in_range_def
      entry_defs)

interpretation processed_request: entry_codec "''processed_request''" processed_request_fields
    parse_processed_request request_in_range id
  by unfold_locales (auto simp: processed_request_fields_def parse_processed_request_def request_in_range_def entry_defs)

section \<open>The sections of a file\<close>

text \<open>What the reader makes of a part of the checkpoint: the sorted entries.\<close>

definition stored_book :: "OrderBookSnapshot \<Rightarrow> OrderBookSnapshot" where
  "stored_book book = book\<lparr>bs_symbolId := sc_symbolId (bs_symbolConfig book),
     bs_activeOrders := sorted_orders (bs_activeOrders book),
     bs_clientOrderIdToOrderId := sorted_client_order_map (bs_clientOrderIdToOrderId book)\<rparr>"

definition stored_index :: "IdempotencySnapshot \<Rightarrow> IdempotencySnapshot" where
  "stored_index snap = \<lparr>ii_processedCommandIds = map stored_summary (sorted_command_summaries (ii_processedCommandIds snap)),
     ii_clientOrderIdToOrderId = sorted_client_order_map (ii_clientOrderIdToOrderId snap),
     ii_orderIds = sorted_order_ids (ii_orderIds snap)\<rparr>"

definition fits :: "'a list \<Rightarrow> bool" where
  "fits xs \<longleftrightarrow> length xs < 2 ^ 64"

definition book_in_range :: "OrderBookSnapshot \<Rightarrow> bool" where
  "book_in_range book \<longleftrightarrow> symbol_config_in_range (bs_symbolConfig book) \<and>
     list_all level_in_range (bs_bidLevels book) \<and> fits (bs_bidLevels book) \<and>
     list_all level_in_range (bs_askLevels book) \<and> fits (bs_askLevels book) \<and>
     list_all order_in_range (bs_activeOrders book) \<and> fits (bs_activeOrders book) \<and>
     um_ok (bs_clientOrderIdToOrderId book) \<and> fits (bs_clientOrderIdToOrderId book)"

definition index_in_range :: "IdempotencySnapshot \<Rightarrow> bool" where
  "index_in_range snap \<longleftrightarrow> um_ok (ii_processedCommandIds snap) \<and> fits (ii_processedCommandIds snap) \<and>
     um_ok (ii_clientOrderIdToOrderId snap) \<and> fits (ii_clientOrderIdToOrderId snap) \<and>
     distinct (ii_orderIds snap) \<and> fits (ii_orderIds snap)"

lemma sorted_lists [simp]:
  "set (sorted_orders os) = set os" "length (sorted_orders os) = length os"
  "length (sorted_client_order_map m) = length m" "length (sorted_command_summaries cs) = length cs"
  "length (sorted_order_ids is) = length is" "length (sorted_processed_requests ps) = length ps"
  "length (sorted_public_sequences seqs) = length seqs" "length (sorted_mark_prices mps) = length mps"
  "length (sorted_funding_rates frs) = length frs"
  "set (sorted_processed_requests ps) = set ps"
  "set (sorted_public_sequences seqs) = set seqs" "set (sorted_mark_prices mps) = set mps"
  "set (sorted_funding_rates frs) = set frs"
  by (simp_all add: sorted_orders_def sorted_client_order_map_def sorted_command_summaries_def sorted_order_ids_def
      sorted_processed_requests_def sorted_public_sequences_def sorted_mark_prices_def sorted_funding_rates_def)

lemma list_all_sorted: "list_all P xs \<Longrightarrow> set ys = set xs \<Longrightarrow> list_all P ys"
  by (simp add: list_all_iff)

lemma distinct_sort_key: "um_ok m \<Longrightarrow> distinct (map fst (sort_key fst m))"
  by (metis distinct_map um_ok_def distinct_sort set_sort)

lemma read_symbol_config_text:
  "symbol_config_in_range c \<Longrightarrow> read_symbol_config (write_symbol_config c @ rest) = Inr (c, rest)"
  by (simp add: read_symbol_config_def write_symbol_config_def symbol_config_fields_def reader_simps
      parse_symbol_config_def require_field_count_def symbol_config_in_range_def)

lemma read_bid_levels_text:
  "list_all level_in_range levels \<Longrightarrow> fits levels \<Longrightarrow>
     read_price_levels ''bid_levels'' ''bid_level'' (write_price_levels ''bid_levels'' ''bid_level'' levels @ rest) = Inr (levels, rest)"
  unfolding read_price_levels_def write_price_levels_def fits_def
  by (rule bid_level.read_section) (simp_all add: efold_push_back)

lemma read_ask_levels_text:
  "list_all level_in_range levels \<Longrightarrow> fits levels \<Longrightarrow>
     read_price_levels ''ask_levels'' ''ask_level'' (write_price_levels ''ask_levels'' ''ask_level'' levels @ rest) = Inr (levels, rest)"
  unfolding read_price_levels_def write_price_levels_def fits_def
  by (rule ask_level.read_section) (simp_all add: efold_push_back)

lemma read_orders_text:
  "list_all order_in_range os \<Longrightarrow> fits os \<Longrightarrow>
     read_orders (write_section ''active_orders'' ''order'' order_fields os @ rest) = Inr (os, rest)"
  unfolding read_orders_def fits_def by (rule order.read_section) (simp_all add: efold_push_back)

lemma read_client_order_map_text:
  "distinct (map fst m) \<Longrightarrow> fits m \<Longrightarrow>
     read_client_order_map (write_section ''client_order_map'' ''client_order'' id_pair_fields m @ rest) = Inr (m, rest)"
  unfolding read_client_order_map_def fits_def
  by (rule client_order.read_section) (simp_all add: efold_add_entry list_all_iff)

lemma read_symbol_text:
  assumes "book_in_range book"
  shows "read_symbol (write_order_book book @ rest) = Inr (stored_book book, rest)"
proof -
  have orders: "list_all order_in_range (sorted_orders (bs_activeOrders book))" "fits (sorted_orders (bs_activeOrders book))"
    using assms by (auto simp: book_in_range_def fits_def list_all_iff)
  have clients: "distinct (map fst (sorted_client_order_map (bs_clientOrderIdToOrderId book)))"
    "fits (sorted_client_order_map (bs_clientOrderIdToOrderId book))"
    using assms by (simp_all add: book_in_range_def fits_def sorted_client_order_map_def distinct_sort_key)
  show ?thesis
    using assms orders clients
    by (simp add: read_symbol_def write_order_book_def book_in_range_def reader_simps read_symbol_config_text
        read_bid_levels_text read_ask_levels_text read_orders_text read_client_order_map_text stored_book_def)
qed

lemma read_symbols_text:
  assumes "list_all book_in_range books" "fits books"
  shows "read_symbols (write_line [''symbols'', count_field books] @ concat (map write_order_book books) @ rest) =
    Inr (map stored_book books, rest)"
proof -
  have "list_all book_in_range bs \<Longrightarrow>
      rtimes (length bs) (\<lambda>symbols. rbind read_symbol (\<lambda>symbol. rreturn (symbols @ [symbol]))) acc
        (concat (map write_order_book bs) @ rest) = Inr (acc @ map stored_book bs, rest)" for bs acc
    by (induction bs arbitrary: acc) (simp_all add: reader_simps read_symbol_text)
  then show ?thesis
    using assms by (simp add: read_symbols_def reader_simps fits_def unat_count)
qed

lemma read_idempotency_text:
  assumes "index_in_range snap"
  shows "read_idempotency_snapshot (write_idempotency_snapshot snap @ rest) = Inr (stored_index snap, rest)"
proof -
  have keys: "distinct (map fst (sorted_command_summaries (ii_processedCommandIds snap)))"
    "distinct (map fst (sorted_client_order_map (ii_clientOrderIdToOrderId snap)))"
    "distinct (sorted_order_ids (ii_orderIds snap))"
    using assms by (simp_all add: index_in_range_def sorted_command_summaries_def sorted_client_order_map_def
        sorted_order_ids_def distinct_sort_key)
  have "fst (stored_summary e) = fst e" for e
    by (simp add: stored_summary_def split_beta)
  then have folds: "efold (add_entry e1) (map stored_summary (sorted_command_summaries (ii_processedCommandIds snap))) [] =
      Inr (map stored_summary (sorted_command_summaries (ii_processedCommandIds snap)))"
    "efold (add_entry e2) (sorted_client_order_map (ii_clientOrderIdToOrderId snap)) [] =
      Inr (sorted_client_order_map (ii_clientOrderIdToOrderId snap))"
    "efold add_id (sorted_order_ids (ii_orderIds snap)) [] = Inr (sorted_order_ids (ii_orderIds snap))" for e1 e2
    using keys by (simp_all add: efold_add_entry efold_add_id comp_def)
  note fit = assms [unfolded index_in_range_def fits_def]
  have loops:
    "rtimes (length (ii_processedCommandIds snap)) (read_entry ''processed_command'' parse_command_summary (add_entry e1)) []
       (write_entries ''processed_command'' command_summary_fields (sorted_command_summaries (ii_processedCommandIds snap)) @ r) =
     Inr (map stored_summary (sorted_command_summaries (ii_processedCommandIds snap)), r)"
    "rtimes (length (ii_clientOrderIdToOrderId snap)) (read_entry ''idempotency_client_order'' parse_id_pair (add_entry e2)) []
       (write_entries ''idempotency_client_order'' id_pair_fields (sorted_client_order_map (ii_clientOrderIdToOrderId snap)) @ r) =
     Inr (sorted_client_order_map (ii_clientOrderIdToOrderId snap), r)"
    "rtimes (length (ii_orderIds snap)) (read_entry ''idempotency_order_id'' parse_id_entry add_id) []
       (write_entries ''idempotency_order_id'' (\<lambda>i. [word_field i]) (sorted_order_ids (ii_orderIds snap)) @ r) =
     Inr (sorted_order_ids (ii_orderIds snap), r)" for e1 e2 r
    using processed_command.read_entries_text [of "sorted_command_summaries (ii_processedCommandIds snap)" "add_entry e1"]
      idempotency_client_order.read_entries_text [of "sorted_client_order_map (ii_clientOrderIdToOrderId snap)" "add_entry e2"]
      order_id_entry.read_entries_text [of "sorted_order_ids (ii_orderIds snap)" add_id] folds
    by (simp_all add: list_all_iff reader_simps)
  show ?thesis
    using fit loops
    by (simp add: read_idempotency_snapshot_def write_idempotency_snapshot_def write_section_def reader_simps
        read_entries_def unat_count stored_index_def)
qed

lemma read_public_sequences_text:
  "list_all (\<lambda>e. in_i64 (fst e)) m \<Longrightarrow> um_ok m \<Longrightarrow> fits m \<Longrightarrow>
     read_public_sequences (write_section ''public_sequences'' ''public_sequence''
       (\<lambda>(market_id, s). [to_string market_id, word_field s]) (sorted_public_sequences m) @ rest) =
     Inr (sorted_public_sequences m, rest)"
  unfolding read_public_sequences_def fits_def
  by (rule public_sequence.read_section)
    (auto simp: efold_add_entry list_all_iff distinct_sort_key sorted_public_sequences_def)

lemma read_mark_prices_text:
  "list_all mark_price_in_range m \<Longrightarrow> um_ok m \<Longrightarrow> fits m \<Longrightarrow>
     read_mark_prices [''mark_prices'', count_field (sorted_mark_prices m)]
       (write_entries ''mark_price_state'' mark_price_fields (sorted_mark_prices m) @ rest) =
     Inr (sorted_mark_prices m, rest)"
  unfolding read_mark_prices_def fits_def
  by (rule mark_price.read_section_ahead)
    (auto simp: efold_add_entry list_all_iff distinct_sort_key sorted_mark_prices_def)

lemma read_funding_rates_text:
  "list_all funding_rate_in_range m \<Longrightarrow> um_ok m \<Longrightarrow> fits m \<Longrightarrow>
     read_funding_rates [''funding_rates'', count_field (sorted_funding_rates m)]
       (write_entries ''funding_rate_state'' funding_rate_fields (sorted_funding_rates m) @ rest) =
     Inr (sorted_funding_rates m, rest)"
  unfolding read_funding_rates_def fits_def
  by (rule funding_rate.read_section_ahead)
    (auto simp: efold_add_entry list_all_iff distinct_sort_key sorted_funding_rates_def)

lemma read_settled_text:
  "\<forall>k \<in> ks. in_i64 (fk_market_id k) \<Longrightarrow> finite ks \<Longrightarrow> card ks < 2 ^ 64 \<Longrightarrow>
     read_settled_funding_intervals [''settled_funding_intervals'', count_field (sorted_settled_funding_intervals ks)]
       (write_entries ''settled_funding_interval'' settled_interval_fields (sorted_settled_funding_intervals ks) @ rest) =
     Inr (ks, rest)"
  unfolding read_settled_funding_intervals_def
  by (rule settled_interval.read_section_ahead)
    (auto simp: efold_add_settled list_all_iff sorted_settled_funding_intervals_def)

lemma read_positions_text:
  "list_all position_in_range m \<Longrightarrow> sm_ok m \<Longrightarrow> fits m \<Longrightarrow>
     read_positions [''positions'', count_field m] (write_entries ''position_state'' position_fields m @ rest) = Inr (m, rest)"
  unfolding read_positions_def fits_def
  by (rule position.read_section_ahead) (simp_all add: efold_add_ordered)

lemma read_risk_states_text:
  "list_all risk_in_range m \<Longrightarrow> sm_ok m \<Longrightarrow> fits m \<Longrightarrow>
     read_risk_states [''risk_states'', count_field m] (write_entries ''risk_state'' risk_state_fields m @ rest) = Inr (m, rest)"
  unfolding read_risk_states_def fits_def
  by (rule risk_state.read_section_ahead) (simp_all add: efold_add_ordered)

lemma read_metadata_text:
  "list_all metadata_in_range mds \<Longrightarrow> distinct (map om_order_id mds) \<Longrightarrow> fits mds \<Longrightarrow>
     read_metadata_store [''metadata'', count_field mds] (write_entries ''metadata_entry'' metadata_fields mds @ rest) =
     Inr (keyed_metadata mds, rest)"
  unfolding read_metadata_store_def fits_def
  by (rule metadata.read_section_ahead) (simp_all add: efold_add_metadata)

lemma read_processed_requests_text:
  "list_all request_in_range m \<Longrightarrow> um_ok m \<Longrightarrow> fits m \<Longrightarrow> field_ok tag \<Longrightarrow>
     read_processed_requests tag (write_processed_requests tag m @ rest) = Inr (sorted_processed_requests m, rest)"
  unfolding read_processed_requests_def write_processed_requests_def fits_def
  by (rule processed_request.read_section)
    (auto simp: efold_add_entry list_all_iff distinct_sort_key sorted_processed_requests_def)

section \<open>The metadata of active orders\<close>

definition active_order_ids :: "EngineCheckpoint \<Rightarrow> OrderId set" where
  "active_order_ids ck =
     {os_orderId ord |ord book. book \<in> set (es_symbolSnapshots (ck_core_snapshot ck)) \<and> ord \<in> set (bs_activeOrders book)}"

definition store_keyed :: "OrderMetadataStore \<Rightarrow> bool" where
  "store_keyed st \<longleftrightarrow> (\<forall>(i, md) \<in> set st. om_order_id md = i)"

lemma store_keyed_find: "store_keyed st \<Longrightarrow> metadata_find i st = Some md \<Longrightarrow> om_order_id md = i"
  by (auto simp: store_keyed_def metadata_find_def um_find_def dest: map_of_SomeD)

lemma collect_metadata_fold:
  assumes "store_keyed st" "distinct (map om_order_id entries)" "set entries = {md. \<exists>i \<in> seen. metadata_find i st = Some md}"
    and "fold (collect_metadata st) os (seen, entries) = (seen', entries')"
  shows "seen' = seen \<union> os_orderId ` set os \<and> distinct (map om_order_id entries') \<and>
    set entries' = {md. \<exists>i \<in> seen'. metadata_find i st = Some md}"
  using assms(2-4)
proof (induction os arbitrary: seen entries)
  case (Cons ord os)
  let ?i = "os_orderId ord"
  obtain seen1 entries1 where step: "collect_metadata st ord (seen, entries) = (seen1, entries1)" by force
  have seen1: "seen1 = insert ?i seen" using step by (auto simp: collect_metadata_def split: if_splits)
  have "distinct (map om_order_id entries1)" "set entries1 = {md. \<exists>i \<in> seen1. metadata_find i st = Some md}"
    using step Cons.prems(1,2) store_keyed_find [OF assms(1)]
    by (auto simp: collect_metadata_def split: if_splits option.splits)
  from Cons.IH [OF this] show ?case using Cons.prems(3) step seen1 by auto
qed simp

lemma fold_books: "fold (\<lambda>book. fold f (g book)) books st = fold f (concat (map g books)) st"
  by (induction books arbitrary: st) auto

lemma metadata_entries_active:
  assumes "store_keyed (ck_metadata_store ck)"
  shows "distinct (map om_order_id (metadata_entries ck))"
    and "set (metadata_entries ck) = {md. \<exists>i \<in> active_order_ids ck. metadata_find i (ck_metadata_store ck) = Some md}"
proof -
  let ?os = "concat (map bs_activeOrders (es_symbolSnapshots (ck_core_snapshot ck)))"
  obtain seen entries where run: "fold (collect_metadata (ck_metadata_store ck)) ?os ({}, []) = (seen, entries)" by force
  have entries: "metadata_entries ck = sort_key om_order_id entries"
    using run by (simp add: metadata_entries_def fold_books)
  have "os_orderId ` set ?os = active_order_ids ck" by (auto simp: active_order_ids_def)
  then have "distinct (map om_order_id entries)"
    "set entries = {md. \<exists>i \<in> active_order_ids ck. metadata_find i (ck_metadata_store ck) = Some md}"
    using collect_metadata_fold [OF assms _ _ run] by simp_all
  then show "distinct (map om_order_id (metadata_entries ck))"
    "set (metadata_entries ck) = {md. \<exists>i \<in> active_order_ids ck. metadata_find i (ck_metadata_store ck) = Some md}"
    by (simp_all add: entries distinct_map)
qed

lemma keyed_metadata_find:
  assumes "store_keyed (ck_metadata_store ck)"
  shows "metadata_find i (keyed_metadata (metadata_entries ck)) =
    (if i \<in> active_order_ids ck then metadata_find i (ck_metadata_store ck) else None)"
proof -
  note active = metadata_entries_active [OF assms]
  have keys: "distinct (map fst (keyed_metadata (metadata_entries ck)))"
    using active(1) by (simp add: keyed_metadata_def comp_def)
  have mem: "(i, md) \<in> set (keyed_metadata (metadata_entries ck)) \<longleftrightarrow>
      i \<in> active_order_ids ck \<and> metadata_find i (ck_metadata_store ck) = Some md" for md
    using active(2) store_keyed_find [OF assms] by (auto simp: keyed_metadata_def)
  show ?thesis
  proof (cases "metadata_find i (keyed_metadata (metadata_entries ck))")
    case None
    then have "\<And>md. (i, md) \<notin> set (keyed_metadata (metadata_entries ck))"
      using keys by (auto simp: metadata_find_def um_find_def)
    then show ?thesis using None mem by (metis not_None_eq)
  next
    case (Some md)
    then show ?thesis using mem [of md] by (auto simp: metadata_find_def um_find_def dest: map_of_SomeD)
  qed
qed

section \<open>The whole file\<close>

definition stored_checkpoint :: "EngineCheckpoint \<Rightarrow> EngineCheckpoint" where
  "stored_checkpoint ck = ck\<lparr>
     ck_core_snapshot := \<lparr>es_symbolSnapshots = map stored_book (sorted_symbol_snapshots (ck_core_snapshot ck)),
       es_sequenceState = es_sequenceState (ck_core_snapshot ck),
       es_idempotencyState = stored_index (es_idempotencyState (ck_core_snapshot ck))\<rparr>,
     ck_public_sequences := sorted_public_sequences (ck_public_sequences ck),
     ck_mark_prices := sorted_mark_prices (ck_mark_prices ck),
     ck_funding_rates := sorted_funding_rates (ck_funding_rates ck),
     ck_metadata_store := keyed_metadata (metadata_entries ck),
     ck_processed_input_ids := sorted_processed_requests (ck_processed_input_ids ck),
     ck_processed_idempotency_keys := sorted_processed_requests (ck_processed_idempotency_keys ck)\<rparr>"

text \<open>What the types and the containers of the code guarantee of every checkpoint.\<close>

definition checkpoint_in_range :: "EngineCheckpoint \<Rightarrow> bool" where
  "checkpoint_in_range ck \<longleftrightarrow> in_i32 (cp_partition (ck_source_position ck)) \<and>
     in_i64 (cp_next_offset (ck_source_position ck)) \<and>
     list_all book_in_range (es_symbolSnapshots (ck_core_snapshot ck)) \<and> fits (es_symbolSnapshots (ck_core_snapshot ck)) \<and>
     index_in_range (es_idempotencyState (ck_core_snapshot ck)) \<and>
     list_all (\<lambda>e. in_i64 (fst e)) (ck_public_sequences ck) \<and> um_ok (ck_public_sequences ck) \<and> fits (ck_public_sequences ck) \<and>
     list_all mark_price_in_range (ck_mark_prices ck) \<and> um_ok (ck_mark_prices ck) \<and> fits (ck_mark_prices ck) \<and>
     list_all funding_rate_in_range (ck_funding_rates ck) \<and> um_ok (ck_funding_rates ck) \<and> fits (ck_funding_rates ck) \<and>
     finite (ck_settled_funding_intervals ck) \<and> card (ck_settled_funding_intervals ck) < 2 ^ 64 \<and>
     (\<forall>k \<in> ck_settled_funding_intervals ck. in_i64 (fk_market_id k)) \<and>
     list_all position_in_range (ck_positions ck) \<and> sm_ok (ck_positions ck) \<and> fits (ck_positions ck) \<and>
     list_all risk_in_range (ck_risk_states ck) \<and> sm_ok (ck_risk_states ck) \<and> fits (ck_risk_states ck) \<and>
     store_keyed (ck_metadata_store ck) \<and> list_all metadata_in_range (metadata_entries ck) \<and> fits (metadata_entries ck) \<and>
     list_all request_in_range (ck_processed_input_ids ck) \<and> um_ok (ck_processed_input_ids ck) \<and>
     fits (ck_processed_input_ids ck) \<and> list_all request_in_range (ck_processed_idempotency_keys ck) \<and>
     um_ok (ck_processed_idempotency_keys ck) \<and> fits (ck_processed_idempotency_keys ck)"

lemma sorted_books [simp]:
  "list_all P (sorted_symbol_snapshots snap) \<longleftrightarrow> list_all P (es_symbolSnapshots snap)"
  "fits (sorted_symbol_snapshots snap) \<longleftrightarrow> fits (es_symbolSnapshots snap)"
  by (simp_all add: sorted_symbol_snapshots_def fits_def list_all_iff)

lemma read_magic: "read_raw_line (kMagic @ line_feed # rest) = Inr (kMagic, rest)"
  by (rule read_line_text) (simp_all add: kMagic_def)

lemma end_line: "read_fields ''end'' (write_line [''end'']) = Inr ([''end''], [])"
  using read_fields_line [of "''end''" "[]" "[]"] by simp

lemmas section_texts =
  write_mark_prices_def [unfolded write_section_def] write_funding_rates_def [unfolded write_section_def]
  write_settled_funding_intervals_def [unfolded write_section_def]
  write_positions_def [unfolded write_section_def sorted_positions_def]
  write_risk_states_def [unfolded write_section_def sorted_risk_states_def]
  write_metadata_store_def [unfolded write_section_def]

lemma read_serialize:
  assumes "checkpoint_in_range ck"
  shows "read_checkpoint (serialize_checkpoint ck) = Inr (stored_checkpoint ck, [])"
proof -
  note ok = assms [unfolded checkpoint_in_range_def]
  have distinct: "distinct (map om_order_id (metadata_entries ck))"
    using ok by (simp add: metadata_entries_active)
  show ?thesis
    using ok distinct
    by (simp add: serialize_checkpoint_def read_checkpoint_def write_checkpoint_def
        reader_simps read_magic end_line require_field_count_def parse_source_position_def parse_sequence_state_def
        read_symbols_text read_idempotency_text read_public_sequences_text optional_section_def check_tag_def
        section_texts read_mark_prices_text read_funding_rates_text read_settled_text read_positions_text
        read_risk_states_text read_metadata_text read_processed_requests_text stored_checkpoint_def)
qed

lemma deserialize_serialize:
  "checkpoint_in_range ck \<Longrightarrow> deserialize_checkpoint (serialize_checkpoint ck) = Inr (stored_checkpoint ck)"
  by (simp add: deserialize_checkpoint_def read_serialize)

end
