(* ===== verification/CheckpointFiles.thy ===== *)
theory CheckpointFiles
  imports CheckpointRoundTrip
begin

text \<open>
  The file store (\<open>FileCheckpointStore\<close> of \<^verbatim>\<open>src/src/checkpoint/file/FileCheckpointStore.cpp\<close>).  A directory is
  the list of its regular files, name and content; every call of the file system may fail, as a record of
  outcomes says.
\<close>

section \<open>Files\<close>

type_synonym Directory = "(string \<times> string) list"

text \<open>
  \<open>path::extension\<close> of a file name: from its last dot on, unless that dot is its first character.
\<close>

definition path_extension :: "string \<Rightarrow> string" where
  "path_extension name =
     (let suffix = rev (takeWhile (\<lambda>c. c \<noteq> CHR ''.'') (rev name));
          stem = rev (dropWhile (\<lambda>c. c \<noteq> CHR ''.'') (rev name))
      in if length stem \<le> 1 then [] else CHR ''.'' # suffix)"

definition is_checkpoint_file :: "string \<Rightarrow> bool" where
  "is_checkpoint_file name \<longleftrightarrow> path_extension name = CheckpointFileExtension"

text \<open>The directory is \<open>None\<close> when it does not exist or listing it fails.\<close>

definition latest_checkpoint_path :: "Directory option \<Rightarrow> string option" where
  "latest_checkpoint_path directory = (case directory of
      None \<Rightarrow> None
    | Some files \<Rightarrow> (let candidates = sort (filter is_checkpoint_file (map fst files)) in
        if candidates = [] then None else Some (last candidates)))"

definition read_checkpoint_file :: "Directory \<Rightarrow> string \<Rightarrow> EngineCheckpoint option" where
  "read_checkpoint_file files name = (case um_find files name of
      None \<Rightarrow> None
    | Some content \<Rightarrow> try_deserialize_checkpoint content)"

definition file_load_latest :: "Directory option \<Rightarrow> EngineCheckpoint option" where
  "file_load_latest directory = (case latest_checkpoint_path directory of
      None \<Rightarrow> None
    | Some name \<Rightarrow> read_checkpoint_file (the directory) name)"

section \<open>Saving\<close>

text \<open>
  Which call of \<open>save\<close> fails; a write that fails has put part of the text into the temporary file.
\<close>

record FileOutcomes =
  fo_create_fails :: bool
  fo_open_fails :: bool
  fo_write_fails :: "string option"
  fo_rename_fails :: bool
  fo_remove_final_fails :: bool
  fo_rename_again_fails :: bool
  fo_remove_temp_fails :: bool
  fo_message :: string

definition no_failure :: FileOutcomes where
  "no_failure = \<lparr>fo_create_fails = False, fo_open_fails = False, fo_write_fails = None, fo_rename_fails = False,
     fo_remove_final_fails = False, fo_rename_again_fails = False, fo_remove_temp_fails = False, fo_message = []\<rparr>"

definition rename_file :: "string \<Rightarrow> string \<Rightarrow> Directory \<Rightarrow> Directory" where
  "rename_file from_name to_name files = (case um_find files from_name of
      None \<Rightarrow> files
    | Some content \<Rightarrow> um_assign to_name content (um_erase from_name files))"

definition temp_name :: "string \<Rightarrow> string" where
  "temp_name filename = filename @ ''.tmp''"

definition commit_file :: "FileOutcomes \<Rightarrow> string \<Rightarrow> Directory \<Rightarrow> (string + unit) \<times> Directory" where
  "commit_file outcomes filename files =
     (if \<not> fo_rename_fails outcomes then (Inr (), rename_file (temp_name filename) filename files)
      else let files = (if fo_remove_final_fails outcomes then files else um_erase filename files) in
        if \<not> fo_rename_again_fails outcomes then (Inr (), rename_file (temp_name filename) filename files)
        else (Inl (''failed to commit checkpoint file: '' @ fo_message outcomes),
          if fo_remove_temp_fails outcomes then files else um_erase (temp_name filename) files))"

definition file_save :: "FileOutcomes \<Rightarrow> EngineCheckpoint \<Rightarrow> Directory option \<Rightarrow> (string + unit) \<times> Directory option" where
  "file_save outcomes ck directory =
     (if fo_create_fails outcomes
      then (Inl (''failed to create checkpoint directory: '' @ fo_message outcomes), directory)
      else let files = (case directory of Some files \<Rightarrow> files | None \<Rightarrow> []);
             filename = checkpoint_filename_for_id (ck_checkpoint_id ck) in
        if fo_open_fails outcomes then (Inl ''failed to open checkpoint temp file'', Some files)
        else (case fo_write_fails outcomes of
            Some partial \<Rightarrow> (Inl ''failed to write checkpoint temp file'',
              Some (um_assign (temp_name filename) partial files))
          | None \<Rightarrow> (let (result, files) = commit_file outcomes filename
                (um_assign (temp_name filename) (write_checkpoint ck) files) in (result, Some files))))"

section \<open>File names\<close>

lemma rev_last_dot:
  "CHR ''.'' \<notin> set suffix \<Longrightarrow>
     takeWhile (\<lambda>c. c \<noteq> CHR ''.'') (rev (stem @ CHR ''.'' # suffix)) = rev suffix \<and>
     dropWhile (\<lambda>c. c \<noteq> CHR ''.'') (rev (stem @ CHR ''.'' # suffix)) = CHR ''.'' # rev stem"
  by (induction suffix rule: rev_induct) auto

lemma path_extension_dot:
  "CHR ''.'' \<notin> set suffix \<Longrightarrow> path_extension (stem @ CHR ''.'' # suffix) = (if stem = [] then [] else CHR ''.'' # suffix)"
  using rev_last_dot [of suffix stem] by (simp add: path_extension_def Let_def)

lemma checkpoint_name_is_candidate [simp]: "is_checkpoint_file (checkpoint_filename_for_id i)"
proof -
  obtain stem where "checkpoint_filename_for_id i = stem @ CHR ''.'' # ''checkpoint''" "stem \<noteq> []"
    by (cases "concat (map filename_char i) = []")
      (auto simp: checkpoint_filename_for_id_def Let_def CheckpointFileExtension_def)
  then show ?thesis by (simp add: is_checkpoint_file_def path_extension_dot CheckpointFileExtension_def)
qed

lemma temp_name_not_candidate [simp]: "\<not> is_checkpoint_file (temp_name name)"
proof -
  have "path_extension (name @ CHR ''.'' # ''tmp'') \<noteq> CheckpointFileExtension"
    by (subst path_extension_dot) (simp_all add: CheckpointFileExtension_def)
  then show ?thesis by (simp add: temp_name_def is_checkpoint_file_def)
qed

lemma temp_name_differs [simp]: "temp_name name \<noteq> checkpoint_filename_for_id i"
  using temp_name_not_candidate [of name] checkpoint_name_is_candidate [of i] by metis

text \<open>The escape of file names can be read back, so different ids have different names.\<close>

lemma filename_char_inj:
  "filename_char c @ s = filename_char c' @ s' \<Longrightarrow> c = c' \<and> s = s'"
proof -
  assume eq: "filename_char c @ s = filename_char c' @ s'"
  have percent: "\<not> is_safe_filename_char (CHR ''%'')" by (simp add: is_safe_filename_char_def less_eq_char_def)
  have byte: "hex_byte c = hex_byte c' \<Longrightarrow> c = c'"
  proof -
    assume "hex_byte c = hex_byte c'"
    then have "hex_digit_value (upper_hex_digit (of_char c div 16)) = hex_digit_value (upper_hex_digit (of_char c' div 16))"
      "hex_digit_value (upper_hex_digit (of_char c mod 16)) = hex_digit_value (upper_hex_digit (of_char c' mod 16))"
      by (simp_all add: hex_byte_def)
    then have "(of_char c :: nat) div 16 = of_char c' div 16" "(of_char c :: nat) mod 16 = of_char c' mod 16"
      by (simp_all add: upper_hex_digit_value of_char_nibbles)
    then have "(of_char c :: nat) = of_char c'" by (metis div_mult_mod_eq)
    then show "c = c'" by (simp only: of_char_eq_iff)
  qed
  show ?thesis
    using eq percent byte by (auto simp: filename_char_def hex_byte_def split: if_splits)
qed

lemma filename_chars_inj: "concat (map filename_char i) = concat (map filename_char j) \<Longrightarrow> i = j"
proof (induction i arbitrary: j)
  case Nil
  have "filename_char c \<noteq> []" for c by (simp add: filename_char_def)
  then show ?case using Nil by (cases j) auto
next
  case (Cons c i)
  have "filename_char c \<noteq> []" by (simp add: filename_char_def)
  then obtain c' j' where j: "j = c' # j'" using Cons.prems by (cases j) auto
  then show ?case using Cons.prems Cons.IH [of j'] filename_char_inj [of c _ c'] by simp
qed

section \<open>The contract of a checkpoint store\<close>

text \<open>
  What \<open>ICheckpointStore\<close> is used for: \<open>texts\<close> are the checkpoints in the store by name.  A successful \<open>save\<close>
  puts the text under the name of the checkpoint; a failing one touches nothing else.  \<open>load_latest\<close>
  reads the text with the greatest name.
\<close>

locale latest_store =
  fixes save :: "EngineCheckpoint \<Rightarrow> 'w \<Rightarrow> (string + unit) \<times> 'w"
    and load_latest :: "'w \<Rightarrow> EngineCheckpoint option"
    and texts :: "'w \<Rightarrow> string \<Rightarrow> string option"
  assumes finite_texts: "finite (dom (texts w))"
    and saved: "save ck w = (Inr (), w') \<Longrightarrow>
      texts w' = (texts w)(checkpoint_filename_for_id (ck_checkpoint_id ck) \<mapsto> serialize_checkpoint ck)"
    and not_saved: "save ck w = (Inl e, w') \<Longrightarrow> n \<noteq> checkpoint_filename_for_id (ck_checkpoint_id ck) \<Longrightarrow>
      texts w' n = texts w n"
    and latest: "load_latest w = (if dom (texts w) = {} then None
      else try_deserialize_checkpoint (the (texts w (Max (dom (texts w))))))"
begin

lemma saved_latest:
  assumes "save ck w = (Inr (), w')" "checkpoint_in_range ck"
    and newest: "\<forall>n \<in> dom (texts w). n \<le> checkpoint_filename_for_id (ck_checkpoint_id ck)"
  shows "load_latest w' = Some (stored_checkpoint ck)"
proof -
  let ?n = "checkpoint_filename_for_id (ck_checkpoint_id ck)"
  note texts' = saved [OF assms(1)]
  have "Max (dom (texts w')) = ?n"
    unfolding texts' using newest by (intro Max_eqI) (auto simp: finite_texts)
  then show ?thesis
    by (simp add: latest texts' try_deserialize_checkpoint_def deserialize_serialize [OF assms(2)])
qed

text \<open>Whatever comes of a save, the entry with the greatest name stays the latest if it is another one.\<close>

lemma latest_kept:
  assumes "save ck w = (Inl e, w')" "dom (texts w) \<noteq> {}"
    and greater: "checkpoint_filename_for_id (ck_checkpoint_id ck) < Max (dom (texts w))"
  shows "load_latest w' = load_latest w"
proof -
  let ?n = "checkpoint_filename_for_id (ck_checkpoint_id ck)" and ?m = "Max (dom (texts w))"
  have m: "?m \<in> dom (texts w)" using assms(2) finite_texts by (intro Max_in) auto
  have same: "texts w' n = texts w n" if "n \<noteq> ?n" for n using not_saved [OF assms(1) that] .
  have m_ne: "?m \<noteq> ?n" using greater by auto
  have "Max (dom (texts w')) = ?m"
  proof (rule Max_eqI)
    show "?m \<in> dom (texts w')" using same [OF m_ne] m by auto
    fix n assume "n \<in> dom (texts w')"
    then show "n \<le> ?m"
      using same [of n] greater Max_ge [OF finite_texts [of w], of n] by (cases "n = ?n") (auto simp: domIff)
  qed (rule finite_texts)
  moreover have "texts w' ?m = texts w ?m" using same [OF m_ne] .
  moreover have "dom (texts w') \<noteq> {}" using calculation(2) m by (metis domD domIff empty_iff)
  ultimately show ?thesis using assms(2) by (simp add: latest)
qed

text \<open>Once the text under the greatest name cannot be read, the store has no checkpoint to offer.\<close>

lemma unreadable_latest:
  assumes "dom (texts w) \<noteq> {}" "try_deserialize_checkpoint (the (texts w (Max (dom (texts w))))) = None"
  shows "load_latest w = None"
  using assms by (simp add: latest)

end

definition checkpoint_texts :: "Directory option \<Rightarrow> string \<Rightarrow> string option" where
  "checkpoint_texts directory name =
     (if is_checkpoint_file name then (case directory of Some files \<Rightarrow> um_find files name | None \<Rightarrow> None) else None)"

lemma commit_file_texts:
  assumes "commit_file outcomes (checkpoint_filename_for_id i) files = (r, files')"
    and "um_find files (temp_name (checkpoint_filename_for_id i)) = Some content"
  shows "r = Inr () \<Longrightarrow> checkpoint_texts (Some files') = (checkpoint_texts (Some files))(checkpoint_filename_for_id i \<mapsto> content)"
    and "r = Inl e \<Longrightarrow> n \<noteq> checkpoint_filename_for_id i \<Longrightarrow> checkpoint_texts (Some files') n = checkpoint_texts (Some files) n"
  using assms temp_name_differs [of "checkpoint_filename_for_id i" i]
  by (auto simp: commit_file_def rename_file_def checkpoint_texts_def container_simps fun_eq_iff Let_def
      split: if_splits option.splits)

lemma checkpoint_texts_temp:
  "checkpoint_texts (Some (um_assign (temp_name name) content files)) = checkpoint_texts (Some files)"
  by (auto simp: checkpoint_texts_def container_simps fun_eq_iff)

lemma file_save_texts:
  assumes "file_save outcomes ck directory = (r, directory')"
  shows "r = Inr () \<Longrightarrow> checkpoint_texts directory' =
      (checkpoint_texts directory)(checkpoint_filename_for_id (ck_checkpoint_id ck) \<mapsto> serialize_checkpoint ck)"
    and "r = Inl e \<Longrightarrow> n \<noteq> checkpoint_filename_for_id (ck_checkpoint_id ck) \<Longrightarrow>
      checkpoint_texts directory' n = checkpoint_texts directory n"
proof -
  let ?files = "case directory of Some files \<Rightarrow> files | None \<Rightarrow> []" and ?name = "checkpoint_filename_for_id (ck_checkpoint_id ck)"
  let ?temp = "um_assign (temp_name ?name) (write_checkpoint ck) ?files"
  have files: "checkpoint_texts (Some ?files) = checkpoint_texts directory"
    by (auto simp: checkpoint_texts_def container_simps fun_eq_iff split: option.split)
  have content: "um_find ?temp (temp_name ?name) = Some (write_checkpoint ck)" by (simp add: container_simps)
  obtain r' files' where commit: "commit_file outcomes ?name ?temp = (r', files')" by force
  note texts = commit_file_texts [OF commit content] checkpoint_texts_temp files
  show "r = Inr () \<Longrightarrow> checkpoint_texts directory' =
      (checkpoint_texts directory)(?name \<mapsto> serialize_checkpoint ck)"
    using assms commit texts by (auto simp: file_save_def serialize_checkpoint_def Let_def split: if_splits option.splits)
  show "r = Inl e \<Longrightarrow> n \<noteq> ?name \<Longrightarrow> checkpoint_texts directory' n = checkpoint_texts directory n"
    using assms commit texts by (auto simp: file_save_def Let_def split: if_splits option.splits)
qed

lemma dom_checkpoint_texts: "dom (checkpoint_texts (Some files)) = set (filter is_checkpoint_file (map fst files))"
proof (rule set_eqI)
  fix n
  have "um_find files n \<noteq> None \<longleftrightarrow> n \<in> fst ` set files" by (simp add: um_find_None_iff)
  then show "n \<in> dom (checkpoint_texts (Some files)) \<longleftrightarrow> n \<in> set (filter is_checkpoint_file (map fst files))"
    by (auto simp: checkpoint_texts_def domIff simp del: not_None_eq)
qed

lemma last_sort_Max: "(xs :: string list) \<noteq> [] \<Longrightarrow> last (sort xs) = Max (set xs)"
proof -
  assume "xs \<noteq> []"
  then have ne: "sort xs \<noteq> []" by (metis set_empty set_sort)
  then have split: "sort xs = butlast (sort xs) @ [last (sort xs)]" by simp
  then have "sorted (butlast (sort xs) @ [last (sort xs)])" by (metis sorted_sort)
  then have "\<forall>x \<in> set (sort xs). x \<le> last (sort xs)" by (subst split) (auto simp: sorted_append)
  then have "Max (set xs) = last (sort xs)" using last_in_set [OF ne] by (intro Max_eqI) auto
  then show ?thesis by simp
qed

lemma file_load_latest_texts:
  "file_load_latest directory = (if dom (checkpoint_texts directory) = {} then None
     else try_deserialize_checkpoint (the (checkpoint_texts directory (Max (dom (checkpoint_texts directory))))))"
proof (cases directory)
  case (Some files)
  let ?names = "filter is_checkpoint_file (map fst files)"
  have dom: "dom (checkpoint_texts directory) = set ?names" using Some dom_checkpoint_texts by simp
  show ?thesis
  proof (cases "?names = []")
    case False
    have max: "last (sort ?names) = Max (set ?names)" by (rule last_sort_Max [OF False])
    have "Max (set ?names) \<in> dom (checkpoint_texts directory)"
      unfolding dom using False Max_in [of "set ?names"] by (simp only: set_empty finite_set simp_thms)
    then obtain content where content: "um_find files (Max (set ?names)) = Some content"
        "checkpoint_texts directory (Max (set ?names)) = Some content"
      using Some by (auto simp: checkpoint_texts_def split: if_splits)
    have "sort ?names \<noteq> []" using False by (metis set_empty set_sort)
    then have "file_load_latest directory = try_deserialize_checkpoint content"
      using Some max content by (simp add: file_load_latest_def latest_checkpoint_path_def read_checkpoint_file_def)
    moreover have "dom (checkpoint_texts directory) \<noteq> {}" using content(2) by blast
    ultimately show ?thesis using content(2) unfolding dom [symmetric] by simp
  qed (use Some dom in \<open>simp add: file_load_latest_def latest_checkpoint_path_def\<close>)
qed (auto simp: file_load_latest_def latest_checkpoint_path_def checkpoint_texts_def)

interpretation file_store: latest_store "file_save outcomes" file_load_latest checkpoint_texts for outcomes
proof
  show "finite (dom (checkpoint_texts w))" for w
  proof (cases w)
    case None
    then have "dom (checkpoint_texts w) = {}" by (auto simp: checkpoint_texts_def split: if_splits)
    then show ?thesis by simp
  qed (simp add: dom_checkpoint_texts)
qed (simp_all add: file_save_texts file_load_latest_texts)

end
