(* ===== verification/CheckpointTyped.thy ===== *)
theory CheckpointTyped
  imports CheckpointFiles
begin

text \<open>
  Whatever text the reader accepts, the checkpoint it returns respects the types: signed members are in
  range, maps have distinct keys, ordered maps are in order.
\<close>

section \<open>Loops of the reader\<close>

lemma rbind_Inr: "rbind m f inp = Inr (y, rest) \<longleftrightarrow> (\<exists>x mid. m inp = Inr (x, mid) \<and> f x mid = Inr (y, rest))"
  by (auto simp: rbind_def ebind_Inr_iff)

lemma rlift_Inr: "rlift m inp = Inr (x, rest) \<longleftrightarrow> m = Inr x \<and> rest = inp"
  by (auto simp: rlift_def ebind_Inr_iff)

lemma rreturn_Inr: "rreturn x inp = Inr (y, rest) \<longleftrightarrow> y = x \<and> rest = inp"
  by (auto simp: rreturn_def)

lemmas reader_Inr = rbind_Inr rlift_Inr rreturn_Inr

lemma rtimes_inv:
  assumes "rtimes n body acc inp = Inr (m, rest)" "P k acc"
    and "\<And>k acc inp m rest. P k acc \<Longrightarrow> body acc inp = Inr (m, rest) \<Longrightarrow> P (Suc k) m"
  shows "P (k + n) m"
  using assms(1,2)
proof (induction n arbitrary: acc inp k)
  case (Suc n)
  then obtain acc' mid where step: "body acc inp = Inr (acc', mid)" "rtimes n body acc' mid = Inr (m, rest)"
    by (auto simp: rbind_Inr)
  then have "P (Suc k) acc'" using Suc.prems(2) assms(3) by blast
  from Suc.IH [OF step(2) this] show ?case by simp
qed (simp add: rreturn_Inr)

text \<open>What holds of the container after every entry, with the number of entries read.\<close>

lemma read_entries_inv:
  assumes "read_entries count tag parse add start inp = Inr (m, rest)" "P 0 start"
    and "\<And>k fs e acc m. P k acc \<Longrightarrow> parse fs = Inr e \<Longrightarrow> add e acc = Inr m \<Longrightarrow> P (Suc k) m"
  shows "P (unat count) m"
proof -
  have "P (Suc k) m'" if "P k acc" "read_entry tag parse add acc inp' = Inr (m', rest')" for k acc inp' m' rest'
    using that assms(3) by (fastforce simp: read_entry_def reader_Inr ebind_Inr_iff)
  then show ?thesis
    using rtimes_inv [of "unat count" "read_entry tag parse add" start inp m rest P 0] assms(1,2)
    by (simp add: read_entries_def)
qed

lemma unat_fits: "unat (count :: u64) < 2 ^ 64"
  using unsigned_less [of count, where 'a = nat] by simp

lemma read_list_inv:
  assumes "read_entries count tag parse append_entry [] inp = Inr (m, rest)" "\<And>fs e. parse fs = Inr e \<Longrightarrow> ok e"
  shows "list_all ok m \<and> fits m"
proof -
  have "list_all ok m \<and> length m = unat count"
    by (rule read_entries_inv [OF assms(1), where P = "\<lambda>k m. list_all ok m \<and> length m = k"])
      (use assms(2) in \<open>auto simp: append_entry_def\<close>)
  then show ?thesis using unat_fits [of count] by (simp add: fits_def)
qed

lemma read_map_inv:
  assumes "read_entries count tag parse (add_entry error) [] inp = Inr (m, rest)" "\<And>fs e. parse fs = Inr e \<Longrightarrow> ok e"
  shows "list_all ok m \<and> um_ok m \<and> fits m"
proof -
  have add: "m' = acc @ [e] \<and> fst e \<notin> fst ` set acc" if "add_entry error e acc = Inr m'" for e acc m'
  proof -
    have absent: "map_of acc (fst e) = None"
      using that by (auto simp: add_entry_def emplaced_def um_emplace_def split: if_splits option.splits)
    then have "fst e \<notin> fst ` set acc" by (simp add: map_of_eq_None_iff)
    then show ?thesis using that absent update_last [of "fst e" acc "snd e"]
      by (simp add: add_entry_def emplaced_def um_emplace_def)
  qed
  have "list_all ok m \<and> um_ok m \<and> length m = unat count"
  proof (rule read_entries_inv [OF assms(1), where P = "\<lambda>k m. list_all ok m \<and> um_ok m \<and> length m = k"])
    fix k fs e acc m
    assume "list_all ok acc \<and> um_ok acc \<and> length acc = k" "parse fs = Inr e" "add_entry error e acc = Inr m"
    then show "list_all ok m \<and> um_ok m \<and> length m = Suc k"
      using add [of e acc m] assms(2) [of fs e] by (auto simp: um_ok_def)
  qed (simp add: um_ok_def)
  then show ?thesis using unat_fits [of count] by (simp add: fits_def)
qed

lemma length_sm_assign: "sm_find m k = None \<Longrightarrow> length (sm_assign k v m) = Suc (length m)"
  by (induction m) (auto simp: sm_find_def split: if_splits)

lemma set_sm_assign: "set (sm_assign k v m) \<subseteq> insert (k, v) (set m)"
  by (induction m) auto

lemma read_ordered_inv:
  assumes "read_entries count tag parse (add_ordered error) [] inp = Inr (m, rest)" "\<And>fs e. parse fs = Inr e \<Longrightarrow> ok e"
  shows "list_all ok m \<and> sm_ok m \<and> fits m"
proof -
  have add: "m' = sm_assign (fst e) (snd e) acc \<and> sm_find acc (fst e) = None" if "add_ordered error e acc = Inr m'" for e acc m'
    using that by (auto simp: add_ordered_def emplaced_def sm_emplace_def split: if_splits option.splits)
  have "list_all ok m \<and> sm_ok m \<and> length m = unat count"
  proof (rule read_entries_inv [OF assms(1), where P = "\<lambda>k m. list_all ok m \<and> sm_ok m \<and> length m = k"])
    fix k fs e acc m
    assume acc: "list_all ok acc \<and> sm_ok acc \<and> length acc = k" and e: "parse fs = Inr e" "add_ordered error e acc = Inr m"
    then show "list_all ok m \<and> sm_ok m \<and> length m = Suc k"
      using add [OF e(2)] assms(2) [OF e(1)] set_sm_assign [of "fst e" "snd e" acc]
      by (auto simp: list_all_iff length_sm_assign sm_ok_assign)
  qed (simp add: sm_ok_empty)
  then show ?thesis using unat_fits [of count] by (simp add: fits_def)
qed

section \<open>Entries in range\<close>

lemma parse_int64_range: "parse_int64 s = Inr i \<Longrightarrow> in_i64 i"
  by (auto simp: parse_signed_def in_i64_def Let_def split: if_splits)

lemma parse_int32_range: "parse_int32 s = Inr i \<Longrightarrow> in_i32 i"
  by (auto simp: parse_signed_def in_i32_def Let_def split: if_splits)

lemmas parsed_ranges = parse_int64_range parse_int32_range

lemma parse_symbol_config_range: "parse_symbol_config fs = Inr c \<Longrightarrow> symbol_config_in_range c"
  by (auto simp: parse_symbol_config_def ebind_Inr_iff symbol_config_in_range_def dest: parsed_ranges)

lemma parse_ids_length: "parse_ids fs = Inr is \<Longrightarrow> length is = length fs"
  by (induction fs arbitrary: "is") (auto simp: ebind_Inr_iff)

lemma parse_price_level_range: "parse_price_level fs = Inr level \<Longrightarrow> level_in_range level"
proof -
  assume parsed: "parse_price_level fs = Inr level"
  then obtain order_count :: u64 where "parse_ids (take (unat order_count) (drop 4 fs)) = Inr (ls_orderIds level)"
    by (auto simp: parse_price_level_def ebind_Inr_iff)
  then have "length (ls_orderIds level) \<le> unat order_count" by (auto dest: parse_ids_length)
  then have "length (ls_orderIds level) < 2 ^ 64" using unat_fits [of order_count] by linarith
  then show ?thesis
    using parsed by (auto simp: parse_price_level_def ebind_Inr_iff level_in_range_def dest: parsed_ranges)
qed

lemma parse_order_range: "parse_order fs = Inr ord \<Longrightarrow> order_in_range ord"
  by (auto simp: parse_order_def ebind_Inr_iff order_in_range_def dest: parsed_ranges)

lemma parse_public_sequence_range: "parse_public_sequence fs = Inr e \<Longrightarrow> in_i64 (fst e)"
  by (auto simp: parse_public_sequence_def ebind_Inr_iff dest: parsed_ranges)

lemma parse_mark_price_range: "parse_mark_price fs = Inr e \<Longrightarrow> mark_price_in_range e"
  by (auto simp: parse_mark_price_def ebind_Inr_iff mark_price_in_range_def dest: parsed_ranges)

lemma parse_funding_rate_range: "parse_funding_rate fs = Inr e \<Longrightarrow> funding_rate_in_range e"
  by (auto simp: parse_funding_rate_def ebind_Inr_iff funding_rate_in_range_def dest: parsed_ranges)

lemma parse_settled_interval_range: "parse_settled_interval fs = Inr k \<Longrightarrow> in_i64 (fk_market_id k)"
  by (auto simp: parse_settled_interval_def ebind_Inr_iff dest: parsed_ranges)

lemma parse_position_range: "parse_position fs = Inr e \<Longrightarrow> position_in_range e"
  by (auto simp: parse_position_def ebind_Inr_iff position_in_range_def dest: parsed_ranges)

lemma parse_risk_state_range: "parse_risk_state fs = Inr e \<Longrightarrow> risk_in_range e"
  by (auto simp: parse_risk_state_def ebind_Inr_iff risk_in_range_def Let_def dest: parsed_ranges split: if_splits)

lemma parse_metadata_range: "parse_metadata fs = Inr md \<Longrightarrow> metadata_in_range md"
  by (auto simp: parse_metadata_def parse_old_metadata_def parse_new_metadata_def ebind_Inr_iff metadata_in_range_def
      in_i32_def dest: parsed_ranges split: if_splits)

lemma parse_processed_request_range: "parse_processed_request fs = Inr e \<Longrightarrow> request_in_range e"
  by (auto simp: parse_processed_request_def ebind_Inr_iff request_in_range_def dest: parsed_ranges)

section \<open>Sections in range\<close>

lemma read_book_range:
  assumes "read_symbol inp = Inr (book, rest)"
  shows "book_in_range book"
proof -
  obtain config i1 bids i2 asks i3 orders i4 clients where
    config: "read_symbol_config inp = Inr (config, i1)" and
    bids: "read_price_levels ''bid_levels'' ''bid_level'' i1 = Inr (bids, i2)" and
    asks: "read_price_levels ''ask_levels'' ''ask_level'' i2 = Inr (asks, i3)" and
    orders: "read_orders i3 = Inr (orders, i4)" and
    clients: "read_client_order_map i4 = Inr (clients, rest)" and
    book: "book = \<lparr>bs_symbolId = sc_symbolId config, bs_symbolConfig = config, bs_bidLevels = bids,
      bs_askLevels = asks, bs_activeOrders = orders, bs_clientOrderIdToOrderId = clients\<rparr>"
    using assms by (auto simp: read_symbol_def reader_Inr)
  have levels: "list_all level_in_range levels \<and> fits levels"
    if "read_price_levels ctag etag i = Inr (levels, r)" for ctag etag i levels r
    using that read_list_inv [where ok = level_in_range, OF _ parse_price_level_range]
    by (fastforce simp: read_price_levels_def reader_Inr)
  have "list_all order_in_range orders \<and> fits orders"
    using orders read_list_inv [where ok = order_in_range, OF _ parse_order_range]
    by (fastforce simp: read_orders_def reader_Inr)
  moreover have "um_ok clients \<and> fits clients"
    using clients read_map_inv [where ok = "\<lambda>_. True"]
    by (fastforce simp: read_client_order_map_def reader_Inr)
  moreover have "symbol_config_in_range config"
    using config by (auto simp: read_symbol_config_def reader_Inr dest: parse_symbol_config_range)
  ultimately show ?thesis using levels [OF bids] levels [OF asks] by (simp add: book book_in_range_def)
qed

lemma read_books_range: "read_symbols inp = Inr (books, rest) \<Longrightarrow> list_all book_in_range books \<and> fits books"
proof -
  assume "read_symbols inp = Inr (books, rest)"
  then obtain count :: u64 and mid where loop:
    "rtimes (unat count) (\<lambda>symbols. rbind read_symbol (\<lambda>symbol. rreturn (symbols @ [symbol]))) [] mid = Inr (books, rest)"
    by (auto simp: read_symbols_def reader_Inr)
  have "list_all book_in_range books \<and> length books = 0 + unat count"
    by (rule rtimes_inv [OF loop, where P = "\<lambda>k bs. list_all book_in_range bs \<and> length bs = k"])
      (auto simp: reader_Inr dest: read_book_range)
  then show ?thesis using unat_fits [of count] by (simp add: fits_def)
qed

lemma read_index_range: "read_idempotency_snapshot inp = Inr (snap, rest) \<Longrightarrow> index_in_range snap"
proof -
  assume "read_idempotency_snapshot inp = Inr (snap, rest)"
  then obtain c1 i1 r1 c2 i2 r2 c3 i3 r3 where
    cmds: "read_entries c1 ''processed_command'' parse_command_summary (add_entry ''duplicate processed command id'') [] i1 =
      Inr (ii_processedCommandIds snap, r1)" and
    clients: "read_entries c2 ''idempotency_client_order'' parse_id_pair (add_entry ''duplicate idempotency client order id'') [] i2 =
      Inr (ii_clientOrderIdToOrderId snap, r2)" and
    ids: "read_entries c3 ''idempotency_order_id'' parse_id_entry add_id [] i3 = Inr (ii_orderIds snap, r3)"
    by (auto simp: read_idempotency_snapshot_def reader_Inr)
  have "distinct (ii_orderIds snap) \<and> length (ii_orderIds snap) = unat c3"
    by (rule read_entries_inv [OF ids, where P = "\<lambda>k is. distinct is \<and> length is = k"])
      (auto simp: add_id_def split: if_splits)
  then show ?thesis
    using read_map_inv [OF cmds, of "\<lambda>_. True"] read_map_inv [OF clients, of "\<lambda>_. True"] unat_fits [of c3]
    by (simp add: index_in_range_def fits_def)
qed

lemma read_public_sequences_range:
  "read_public_sequences inp = Inr (m, rest) \<Longrightarrow> list_all (\<lambda>e. in_i64 (fst e)) m \<and> um_ok m \<and> fits m"
  using read_map_inv [where ok = "\<lambda>e. in_i64 (fst e)", OF _ parse_public_sequence_range]
  by (fastforce simp: read_public_sequences_def reader_Inr)

lemma read_mark_prices_range:
  "read_mark_prices fs inp = Inr (m, rest) \<Longrightarrow> list_all mark_price_in_range m \<and> um_ok m \<and> fits m"
  using read_map_inv [where ok = mark_price_in_range, OF _ parse_mark_price_range]
  by (fastforce simp: read_mark_prices_def reader_Inr)

lemma read_funding_rates_range:
  "read_funding_rates fs inp = Inr (m, rest) \<Longrightarrow> list_all funding_rate_in_range m \<and> um_ok m \<and> fits m"
  using read_map_inv [where ok = funding_rate_in_range, OF _ parse_funding_rate_range]
  by (fastforce simp: read_funding_rates_def reader_Inr)

lemma read_settled_range:
  assumes "read_settled_funding_intervals fs inp = Inr (ks, rest)"
  shows "finite ks \<and> card ks < 2 ^ 64 \<and> (\<forall>k \<in> ks. in_i64 (fk_market_id k))"
proof -
  obtain count :: u64 and mid where entries: "read_entries count ''settled_funding_interval'' parse_settled_interval
      add_settled_interval {} mid = Inr (ks, rest)"
    using assms by (auto simp: read_settled_funding_intervals_def reader_Inr)
  have "finite ks \<and> card ks = unat count \<and> (\<forall>k \<in> ks. in_i64 (fk_market_id k))"
    by (rule read_entries_inv [OF entries, where P = "\<lambda>n ks. finite ks \<and> card ks = n \<and> (\<forall>k \<in> ks. in_i64 (fk_market_id k))"])
      (auto simp: add_settled_interval_def dest: parse_settled_interval_range split: if_splits)
  then show ?thesis using unat_fits [of count] by simp
qed

lemma read_positions_range:
  "read_positions fs inp = Inr (m, rest) \<Longrightarrow> list_all position_in_range m \<and> sm_ok m \<and> fits m"
  using read_ordered_inv [where ok = position_in_range, OF _ parse_position_range]
  by (fastforce simp: read_positions_def reader_Inr)

lemma read_risk_states_range:
  "read_risk_states fs inp = Inr (m, rest) \<Longrightarrow> list_all risk_in_range m \<and> sm_ok m \<and> fits m"
  using read_ordered_inv [where ok = risk_in_range, OF _ parse_risk_state_range]
  by (fastforce simp: read_risk_states_def reader_Inr)

lemma read_processed_requests_range:
  "read_processed_requests tag inp = Inr (m, rest) \<Longrightarrow> list_all request_in_range m \<and> um_ok m \<and> fits m"
  using read_map_inv [where ok = request_in_range, OF _ parse_processed_request_range]
  by (fastforce simp: read_processed_requests_def reader_Inr)

text \<open>The metadata is stored under the ids it carries, so the entries of a checkpoint are among the stored ones.\<close>

lemma read_metadata_range:
  assumes "read_metadata_store fs inp = Inr (st, rest)"
  shows "store_keyed st \<and> list_all (\<lambda>e. metadata_in_range (snd e)) st \<and> fits st"
proof -
  obtain count :: u64 and mid where entries:
      "read_entries count ''metadata_entry'' parse_metadata add_metadata [] mid = Inr (st, rest)"
    using assms by (auto simp: read_metadata_store_def reader_Inr)
  have add: "st' = acc @ [(om_order_id md, md)]" if "add_metadata md acc = Inr st'" for md acc st'
  proof -
    have "map_of acc (om_order_id md) = None"
      using that by (auto simp: add_metadata_def emplaced_def metadata_insert_def um_emplace_def split: if_splits option.splits)
    moreover from this have "AList.update (om_order_id md) md acc = acc @ [(om_order_id md, md)]"
      by (simp add: map_of_eq_None_iff update_last)
    ultimately show ?thesis using that by (simp add: add_metadata_def emplaced_def metadata_insert_def um_emplace_def)
  qed
  have "store_keyed st \<and> list_all (\<lambda>e. metadata_in_range (snd e)) st \<and> length st = unat count"
  proof (rule read_entries_inv [OF entries, where P = "\<lambda>k st. store_keyed st \<and> list_all (\<lambda>e. metadata_in_range (snd e)) st \<and> length st = k"])
    fix k fs md acc st'
    assume "store_keyed acc \<and> list_all (\<lambda>e. metadata_in_range (snd e)) acc \<and> length acc = k"
      "parse_metadata fs = Inr md" "add_metadata md acc = Inr st'"
    then show "store_keyed st' \<and> list_all (\<lambda>e. metadata_in_range (snd e)) st' \<and> length st' = Suc k"
      using add [of md acc st'] parse_metadata_range [of fs md] by (auto simp: store_keyed_def)
  qed (simp add: store_keyed_def)
  then show ?thesis using unat_fits [of count] by (simp add: fits_def)
qed

lemma metadata_entries_stored:
  assumes "store_keyed (ck_metadata_store ck)" "list_all (\<lambda>e. metadata_in_range (snd e)) (ck_metadata_store ck)"
    "fits (ck_metadata_store ck)"
  shows "list_all metadata_in_range (metadata_entries ck) \<and> fits (metadata_entries ck)"
proof -
  note active = metadata_entries_active [OF assms(1)]
  have sub: "set (metadata_entries ck) \<subseteq> snd ` set (ck_metadata_store ck)"
    using active(2) by (force simp: metadata_find_def um_find_def dest!: map_of_SomeD)
  have "length (metadata_entries ck) = card (set (metadata_entries ck))"
    using active(1) by (simp add: distinct_card distinct_map)
  also have "\<dots> \<le> card (snd ` set (ck_metadata_store ck))" by (rule card_mono) (use sub in auto)
  also have "\<dots> \<le> length (ck_metadata_store ck)" using card_image_le [of "set (ck_metadata_store ck)" snd] card_length le_trans by blast
  finally show ?thesis using sub assms(2,3) by (auto simp: fits_def list_all_iff)
qed

text \<open>A section that may be missing: the default, or something the section's reader returned.\<close>

definition section_value :: "(string list \<Rightarrow> 'a reader) \<Rightarrow> 'a \<Rightarrow> 'a \<Rightarrow> bool" where
  "section_value read_section absent x \<longleftrightarrow> x = absent \<or> (\<exists>fs inp rest. read_section fs inp = Inr (x, rest))"

lemma optional_section_value:
  "optional_section tag read_section absent ahead inp = Inr ((x, ahead'), rest) \<Longrightarrow> section_value read_section absent x"
  by (auto simp: optional_section_def section_value_def reader_Inr split: if_splits)

lemma section_values_range:
  "section_value read_mark_prices [] mps \<Longrightarrow> list_all mark_price_in_range mps \<and> um_ok mps \<and> fits mps"
  "section_value read_funding_rates [] frs \<Longrightarrow> list_all funding_rate_in_range frs \<and> um_ok frs \<and> fits frs"
  "section_value read_settled_funding_intervals {} ks \<Longrightarrow>
     finite ks \<and> card ks < 2 ^ 64 \<and> (\<forall>k \<in> ks. in_i64 (fk_market_id k))"
  "section_value read_positions [] ps \<Longrightarrow> list_all position_in_range ps \<and> sm_ok ps \<and> fits ps"
  "section_value read_risk_states [] rs \<Longrightarrow> list_all risk_in_range rs \<and> sm_ok rs \<and> fits rs"
  using read_mark_prices_range [of _ _ mps] read_funding_rates_range [of _ _ frs] read_settled_range [of _ _ ks]
    read_positions_range [of _ _ ps] read_risk_states_range [of _ _ rs]
  by (fastforce simp: section_value_def um_ok_def sm_ok_def fits_def)+

lemma read_source_range:
  "parse_source_position fs = Inr pos \<Longrightarrow> in_i32 (cp_partition pos) \<and> in_i64 (cp_next_offset pos)"
  by (auto simp: parse_source_position_def ebind_Inr_iff dest: parsed_ranges)

lemma read_checkpoint_range:
  assumes "read_checkpoint inp = Inr (ck, rest)"
  shows "checkpoint_in_range ck"
proof -
  obtain fs s1 s2 s3 s4 s5 s6 s7 s8 fs2 where
    "parse_source_position fs = Inr (ck_source_position ck)"
    "read_symbols s1 = Inr (es_symbolSnapshots (ck_core_snapshot ck), s2)"
    "read_idempotency_snapshot s2 = Inr (es_idempotencyState (ck_core_snapshot ck), s3)"
    "read_public_sequences s3 = Inr (ck_public_sequences ck, s4)"
    "section_value read_mark_prices [] (ck_mark_prices ck)"
    "section_value read_funding_rates [] (ck_funding_rates ck)"
    "section_value read_settled_funding_intervals {} (ck_settled_funding_intervals ck)"
    "section_value read_positions [] (ck_positions ck)"
    "section_value read_risk_states [] (ck_risk_states ck)"
    and metadata: "read_metadata_store fs2 s5 = Inr (ck_metadata_store ck, s6)"
    and "read_processed_requests ''processed_input_ids'' s6 = Inr (ck_processed_input_ids ck, s7)"
    "read_processed_requests ''processed_idempotency_keys'' s7 = Inr (ck_processed_idempotency_keys ck, s8)"
    using assms by (clarsimp simp: read_checkpoint_def reader_Inr dest!: optional_section_value)
  note parts = this(1-9) this(11-12)
  show ?thesis
    unfolding checkpoint_in_range_def
    using parts(1) [THEN read_source_range] parts(2) [THEN read_books_range] parts(3) [THEN read_index_range]
      parts(4) [THEN read_public_sequences_range] parts(5) [THEN section_values_range(1)]
      parts(6) [THEN section_values_range(2)] parts(7) [THEN section_values_range(3)]
      parts(8) [THEN section_values_range(4)] parts(9) [THEN section_values_range(5)]
      parts(10) [THEN read_processed_requests_range] parts(11) [THEN read_processed_requests_range]
      metadata [THEN read_metadata_range] metadata_entries_stored [of ck]
    by simp
qed

end
