(* ===== verification/CheckpointTruncated.thy ===== *)
theory CheckpointTruncated
  imports CheckpointTyped
begin

text \<open>
  A checkpoint file that was cut short is never read as a checkpoint: a reader takes whole lines, so on a
  shorter text it reads the same up to the point where the text ends, and finds no line \<open>end\<close> there.
\<close>

section \<open>Readers take whole lines\<close>

text \<open>What a reader has taken does not depend on what follows, unless it ran to the end of the text.\<close>

definition line_local :: "'a reader \<Rightarrow> bool" where
  "line_local r \<longleftrightarrow> (\<forall>inp x rest. r inp = Inr (x, rest) \<longrightarrow>
     rest = [] \<or> (\<exists>used. inp = used @ rest \<and> (\<forall>v. r (used @ v) = Inr (x, v))))"

lemma line_localD:
  "line_local r \<Longrightarrow> r inp = Inr (x, rest) \<Longrightarrow> rest \<noteq> [] \<Longrightarrow> \<exists>used. inp = used @ rest \<and> (\<forall>v. r (used @ v) = Inr (x, v))"
  unfolding line_local_def by blast

lemma line_whole:
  "line_feed \<notin> set line \<Longrightarrow> takeWhile (\<lambda>c. c \<noteq> line_feed) line = line \<and> dropWhile (\<lambda>c. c \<noteq> line_feed) line = []"
  by (induction line) auto

lemma line_feed_split:
  assumes "line_feed \<in> set inp"
  obtains line rest where "inp = line @ line_feed # rest" "line_feed \<notin> set line"
  using assms by (meson split_list_first)

lemma takeWhile_line:
  "line_feed \<notin> set line \<Longrightarrow> takeWhile (\<lambda>c. c \<noteq> line_feed) (line @ line_feed # v) = line \<and>
     dropWhile (\<lambda>c. c \<noteq> line_feed) (line @ line_feed # v) = line_feed # v"
  by (induction line) auto

definition without_return :: "string \<Rightarrow> string" where
  "without_return line = (if line \<noteq> [] \<and> last line = carriage_return then butlast line else line)"

lemma without_return_cases: "line = without_return line \<or> line = without_return line @ [carriage_return]"
  unfolding without_return_def by (metis append_butlast_last_id)

lemma split_line_nonempty: "split_line line \<noteq> []"
  by (subst split_line.simps) simp

lemma read_raw_line_at:
  "line_feed \<notin> set line \<Longrightarrow> read_raw_line (line @ line_feed # v) = Inr (without_return line, v)"
  unfolding read_raw_line_def Let_def without_return_def using takeWhile_line [of line v] by simp

lemma read_raw_line_last:
  "line_feed \<notin> set line \<Longrightarrow> line \<noteq> [] \<Longrightarrow> read_raw_line line = Inr (without_return line, [])"
  unfolding read_raw_line_def Let_def without_return_def using line_whole [of line] by (simp del: takeWhile_eq_all_conv dropWhile_eq_Nil_conv)

lemma line_local_raw [intro]: "line_local read_raw_line"
  unfolding line_local_def
proof (intro allI impI)
  fix inp x rest
  assume read: "read_raw_line inp = Inr (x, rest)"
  show "rest = [] \<or> (\<exists>used. inp = used @ rest \<and> (\<forall>v. read_raw_line (used @ v) = Inr (x, v)))"
  proof (cases "line_feed \<in> set inp")
    case True
    then obtain line t where l: "inp = line @ line_feed # t" "line_feed \<notin> set line" by (rule line_feed_split)
    then have "rest = t" "x = without_return line" using read read_raw_line_at by simp_all
    then show ?thesis
      using l read_raw_line_at [OF l(2)] by (intro disjI2 exI [of _ "line @ [line_feed]"]) simp
  next
    case False
    moreover have "inp \<noteq> []" using read by (auto simp: read_raw_line_def)
    ultimately show ?thesis using read read_raw_line_last by simp
  qed
qed

lemma line_local_bind [intro]:
  assumes "line_local m" "\<And>x. line_local (f x)"
  shows "line_local (rbind m f)"
  unfolding line_local_def
proof (intro allI impI)
  fix inp y rest
  assume "rbind m f inp = Inr (y, rest)"
  then obtain x mid where m: "m inp = Inr (x, mid)" and f: "f x mid = Inr (y, rest)" by (auto simp: rbind_Inr)
  show "rest = [] \<or> (\<exists>used. inp = used @ rest \<and> (\<forall>v. rbind m f (used @ v) = Inr (y, v)))"
  proof (cases "rest = []")
    case False
    obtain used2 where u2: "mid = used2 @ rest" "\<And>v. f x (used2 @ v) = Inr (y, v)"
      using line_localD [OF assms(2) f False] by blast
    moreover obtain used1 where "inp = used1 @ mid" "\<And>v. m (used1 @ v) = Inr (x, v)"
      using line_localD [OF assms(1) m] u2(1) False by auto
    ultimately have "inp = (used1 @ used2) @ rest" "\<And>v. rbind m f ((used1 @ used2) @ v) = Inr (y, v)"
      by (simp_all add: rbind_def)
    then show ?thesis by blast
  qed simp
qed

lemma line_local_lift [intro]: "line_local (rlift m)"
  by (auto simp: line_local_def rlift_Inr)

lemma line_local_return [intro]: "line_local (rreturn x)"
  by (auto simp: line_local_def rreturn_def)

lemma line_local_if [intro]: "line_local r \<Longrightarrow> line_local r' \<Longrightarrow> line_local (if b then r else r')"
  by simp

lemma line_local_prod [intro]: "(\<And>a b. line_local (f a b)) \<Longrightarrow> line_local (case p of (a, b) \<Rightarrow> f a b)"
  by (cases p) simp

lemma line_local_times [intro]: "(\<And>x. line_local (body x)) \<Longrightarrow> line_local (rtimes n body acc)"
  by (induction n arbitrary: acc) (simp_all add: line_local_return line_local_bind)

lemmas line_local_intros = line_local_raw line_local_bind line_local_lift line_local_return line_local_if line_local_prod
  line_local_times

lemma line_local_fields [intro]: "line_local read_fields_any" "line_local (read_fields tag)" "line_local (read_count tag)"
  unfolding read_fields_any_def read_fields_def read_count_def by (intro line_local_intros)+

lemma line_local_entries [intro]: "line_local (read_entries n tag parse add start)"
  unfolding read_entries_def read_entry_def by (intro line_local_intros line_local_fields)

lemma line_local_sections [intro]:
  "line_local read_symbols" "line_local read_idempotency_snapshot" "line_local read_public_sequences"
  "line_local (read_mark_prices fs)" "line_local (read_funding_rates fs)" "line_local (read_settled_funding_intervals fs)"
  "line_local (read_positions fs)" "line_local (read_risk_states fs)" "line_local (read_metadata_store fs)"
  "line_local (read_processed_requests tag)"
  unfolding read_symbols_def read_symbol_def read_symbol_config_def read_price_levels_def read_orders_def
    read_client_order_map_def read_idempotency_snapshot_def read_public_sequences_def read_mark_prices_def
    read_funding_rates_def read_settled_funding_intervals_def read_positions_def read_risk_states_def
    read_metadata_store_def read_processed_requests_def
  by (intro line_local_intros line_local_fields line_local_entries)+

lemma line_local_optional [intro]:
  "(\<And>fs. line_local (read_section fs)) \<Longrightarrow> line_local (optional_section tag read_section absent ahead)"
  unfolding optional_section_def by (intro line_local_intros line_local_fields) auto

section \<open>The last line\<close>

text \<open>A reader that ends with the line \<open>end\<close>: what it takes before does not depend on what follows.\<close>

definition read_end :: "'a \<Rightarrow> 'a reader" where
  "read_end x = rbind (read_fields ''end'') (\<lambda>fs. rbind (rlift (require_field_count fs 1)) (\<lambda>_. rreturn x))"

definition closed_by_end :: "'a reader \<Rightarrow> bool" where
  "closed_by_end r \<longleftrightarrow> (\<forall>inp x rest. r inp = Inr (x, rest) \<longrightarrow>
     (\<exists>used mid. inp = used @ mid \<and> mid \<noteq> [] \<and> (\<forall>v. r (used @ v) = read_end x v)))"

lemma closed_by_end_base: "closed_by_end (read_end y)"
  unfolding closed_by_end_def
proof (intro allI impI)
  fix inp x rest assume read: "read_end y inp = Inr (x, rest)"
  then have "x = y" by (auto simp: read_end_def reader_Inr)
  moreover have "inp \<noteq> []" using read by (auto simp: read_end_def read_fields_def read_fields_any_def read_raw_line_def rbind_def)
  ultimately show "\<exists>used mid. inp = used @ mid \<and> mid \<noteq> [] \<and> (\<forall>v. read_end y (used @ v) = read_end x v)"
    by (intro exI [of _ "[]"] exI [of _ inp]) simp
qed

lemma closed_by_end_bind:
  assumes "line_local m" "\<And>x. closed_by_end (f x)"
  shows "closed_by_end (rbind m f)"
  unfolding closed_by_end_def
proof (intro allI impI)
  fix inp x rest assume "rbind m f inp = Inr (x, rest)"
  then obtain a mid1 where m: "m inp = Inr (a, mid1)" and f: "f a mid1 = Inr (x, rest)" by (auto simp: rbind_Inr)
  obtain used2 mid where u2: "mid1 = used2 @ mid" "mid \<noteq> []" "\<And>v. f a (used2 @ v) = read_end x v"
    using assms(2) [unfolded closed_by_end_def] f by blast
  moreover obtain used1 where "inp = used1 @ mid1" "\<And>v. m (used1 @ v) = Inr (a, v)"
    using line_localD [OF assms(1) m] u2(1,2) by auto
  ultimately have "inp = (used1 @ used2) @ mid" "\<And>v. rbind m f ((used1 @ used2) @ v) = read_end x v"
    by (simp_all add: rbind_def)
  then show "\<exists>used mid. inp = used @ mid \<and> mid \<noteq> [] \<and> (\<forall>v. rbind m f (used @ v) = read_end x v)"
    using u2(2) by blast
qed

lemma closed_by_end_prod: "(\<And>a b. closed_by_end (f a b)) \<Longrightarrow> closed_by_end (case p of (a, b) \<Rightarrow> f a b)"
  by (cases p) simp

lemma checkpoint_closed_by_end: "closed_by_end read_checkpoint"
  unfolding read_checkpoint_def
  by (intro closed_by_end_bind closed_by_end_prod line_local_raw line_local_lift line_local_fields line_local_sections
      line_local_optional closed_by_end_base [unfolded read_end_def])

lemma split_line_single: "split_line line = [field] \<Longrightarrow> field = line"
  by (subst (asm) split_line.simps) (metis list.inject list.distinct(1) split_line_nonempty)

text \<open>A text that is read as the last line.\<close>

lemma read_end_line:
  assumes "read_end x inp = Inr (y, rest)"
  shows "inp = ''end'' @ line_feed # rest \<or> inp = ''end'' @ carriage_return # line_feed # rest \<or>
    rest = [] \<and> (inp = ''end'' \<or> inp = ''end'' @ [carriage_return])"
proof -
  obtain line fs where line: "read_raw_line inp = Inr (line, rest)" "split_line line = fs"
    "fs \<noteq> []" "hd fs = ''end''" "length fs = 1"
    using assms by (auto simp: read_end_def read_fields_def read_fields_any_def reader_Inr check_tag_def
        require_field_count_def require_def simp del: split_line.simps split: if_splits)
  then have "fs = [''end'']" by (cases fs) simp_all
  then have l: "line = ''end''" using split_line_single line(2) by metis
  have "inp \<noteq> []" using line(1) by (auto simp: read_raw_line_def)
  show ?thesis
  proof (cases "line_feed \<in> set inp")
    case True
    then obtain raw t where r: "inp = raw @ line_feed # t" "line_feed \<notin> set raw" by (rule line_feed_split)
    then have "rest = t" "without_return raw = ''end''" using line(1) l read_raw_line_at by simp_all
    then show ?thesis using r(1) without_return_cases [of raw] by auto
  next
    case False
    then have "rest = []" "without_return inp = ''end''"
      using line(1) l read_raw_line_last \<open>inp \<noteq> []\<close> by simp_all
    then show ?thesis using without_return_cases [of inp] by auto
  qed
qed

lemma serialize_ends: "\<exists>body. serialize_checkpoint ck = body @ ''end'' @ [line_feed]"
  by (simp add: serialize_checkpoint_def write_checkpoint_def write_line_def flip: append_assoc) 

lemma truncated_refused:
  assumes range: "checkpoint_in_range ck" and n: "Suc n < length (serialize_checkpoint ck)"
  shows "\<exists>e. deserialize_checkpoint (take n (serialize_checkpoint ck)) = Inl e"
proof (rule ccontr)
  let ?s = "serialize_checkpoint ck"
  assume "\<not> ?thesis"
  then obtain ck' rest where read: "read_checkpoint (take n ?s) = Inr (ck', rest)"
    by (cases "read_checkpoint (take n ?s)") (auto simp: deserialize_checkpoint_def)
  obtain used mid where u: "take n ?s = used @ mid" "mid \<noteq> []" "\<And>v. read_checkpoint (used @ v) = read_end ck' v"
    using checkpoint_closed_by_end [unfolded closed_by_end_def] read by blast
  define rem where "rem = mid @ drop n ?s"
  have s: "?s = used @ rem" using u(1) append_take_drop_id [of n ?s] by (simp add: rem_def)
  then have "read_end ck' rem = Inr (stored_checkpoint ck, [])" using read_serialize [OF range] u(3) by simp
  from read_end_line [OF this] have rem: "rem \<in> {''end'' @ [line_feed], ''end'' @ [carriage_return, line_feed],
    ''end'', ''end'' @ [carriage_return]}" by auto
  obtain body where body: "used @ rem = body @ ''end'' @ [line_feed]" using serialize_ends [of ck] s by auto
  have some: "rem \<noteq> []" "butlast rem \<noteq> []" using rem by auto
  have "last rem = line_feed" using arg_cong [OF body, of last] some by simp
  moreover have "last (butlast rem) = CHR ''d''"
    using arg_cong [OF body, of "\<lambda>l. last (butlast l)"] some by (simp add: butlast_append)
  ultimately have "rem = ''end'' @ [line_feed]" using rem by auto
  moreover have "read_end ck' mid = Inr (ck', rest)" using u read by metis
  from read_end_line [OF this] have "3 \<le> length mid" by auto
  ultimately have "length (drop n ?s) \<le> 1" using arg_cong [OF rem_def, of length] by simp
  then show False using n by simp
qed

end
