(* ===== verification/CheckpointProperties.thy ===== *)
theory CheckpointProperties
  imports CheckpointTruncated EngineProperties RecoveryProperties
begin

text \<open>
  Properties of the checkpoint codec and the file store: what is written is read back, a text that was
  cut short is refused, a saved checkpoint restarts the runtime, and a failed save does not lose the checkpoint
  before it.
\<close>

section \<open>A checkpoint in its text form\<close>

lemma sort_key_find:
  assumes "um_ok m"
  shows "um_ok (sort_key fst m)" "um_find (sort_key fst m) k = um_find m k"
proof -
  show ok: "um_ok (sort_key fst m)" using distinct_sort_key [OF assms] by (simp add: um_ok_def)
  have "um_find (sort_key fst m) k = Some v \<longleftrightarrow> um_find m k = Some v" for v
    by (simp add: um_ok_find_iff [OF ok] um_ok_find_iff [OF assms])
  then show "um_find (sort_key fst m) k = um_find m k" by (metis not_None_eq)
qed

lemmas sorted_map_defs = sorted_client_order_map_def sorted_command_summaries_def sorted_public_sequences_def
  sorted_mark_prices_def sorted_funding_rates_def sorted_processed_requests_def

lemma stored_summary_find:
  "um_find (map stored_summary m) c = map_option (\<lambda>s. s\<lparr>cr_commandId := c\<rparr>) (um_find m c)"
  by (induction m) (auto simp: um_find_def stored_summary_def)

text \<open>
  Two checkpoints with the same content: maps answer the same, books are listed by symbol with their orders by
  id, and the metadata is that of the active orders.
\<close>

definition same_index :: "IdempotencySnapshot \<Rightarrow> IdempotencySnapshot \<Rightarrow> bool" where
  "same_index ix ix' \<longleftrightarrow>
     (\<forall>c. um_find (ii_processedCommandIds ix') c =
        map_option (\<lambda>s. s\<lparr>cr_commandId := c\<rparr>) (um_find (ii_processedCommandIds ix) c)) \<and>
     (\<forall>c. um_find (ii_clientOrderIdToOrderId ix') c = um_find (ii_clientOrderIdToOrderId ix) c) \<and>
     set (ii_orderIds ix') = set (ii_orderIds ix)"

definition same_book :: "OrderBookSnapshot \<Rightarrow> OrderBookSnapshot \<Rightarrow> bool" where
  "same_book book book' \<longleftrightarrow> bs_symbolConfig book' = bs_symbolConfig book \<and> bs_bidLevels book' = bs_bidLevels book \<and>
     bs_askLevels book' = bs_askLevels book \<and> bs_activeOrders book' = sort_key os_orderId (bs_activeOrders book) \<and>
     (\<forall>c. um_find (bs_clientOrderIdToOrderId book') c = um_find (bs_clientOrderIdToOrderId book) c)"

definition same_checkpoint :: "EngineCheckpoint \<Rightarrow> EngineCheckpoint \<Rightarrow> bool" where
  "same_checkpoint ck ck' \<longleftrightarrow>
     ck_schema_version ck' = ck_schema_version ck \<and> ck_checkpoint_id ck' = ck_checkpoint_id ck \<and>
     ck_source_position ck' = ck_source_position ck \<and>
     es_sequenceState (ck_core_snapshot ck') = es_sequenceState (ck_core_snapshot ck) \<and>
     same_index (es_idempotencyState (ck_core_snapshot ck)) (es_idempotencyState (ck_core_snapshot ck')) \<and>
     list_all2 same_book (sort_key bs_symbolId (es_symbolSnapshots (ck_core_snapshot ck)))
       (es_symbolSnapshots (ck_core_snapshot ck')) \<and>
     (\<forall>m. um_find (ck_public_sequences ck') m = um_find (ck_public_sequences ck) m) \<and>
     (\<forall>m. um_find (ck_mark_prices ck') m = um_find (ck_mark_prices ck) m) \<and>
     (\<forall>m. um_find (ck_funding_rates ck') m = um_find (ck_funding_rates ck) m) \<and>
     ck_settled_funding_intervals ck' = ck_settled_funding_intervals ck \<and>
     ck_positions ck' = ck_positions ck \<and> ck_risk_states ck' = ck_risk_states ck \<and>
     (\<forall>i. metadata_find i (ck_metadata_store ck') =
        (if i \<in> active_order_ids ck then metadata_find i (ck_metadata_store ck) else None)) \<and>
     (\<forall>i. um_find (ck_processed_input_ids ck') i = um_find (ck_processed_input_ids ck) i) \<and>
     (\<forall>k. um_find (ck_processed_idempotency_keys ck') k = um_find (ck_processed_idempotency_keys ck) k)"

lemma stored_same_index: "index_in_range ix \<Longrightarrow> same_index ix (stored_index ix)"
  by (simp add: same_index_def stored_index_def stored_summary_find index_in_range_def sorted_map_defs sort_key_find
      sorted_order_ids_def)

lemma stored_same_book: "book_in_range book \<Longrightarrow> same_book book (stored_book book)"
  by (simp add: same_book_def stored_book_def book_in_range_def sorted_map_defs sort_key_find sorted_orders_def)

lemma stored_same_checkpoint:
  assumes "checkpoint_in_range ck"
  shows "same_checkpoint ck (stored_checkpoint ck)"
proof -
  note ok = assms [unfolded checkpoint_in_range_def]
  have "list_all2 same_book (sorted_symbol_snapshots (ck_core_snapshot ck))
      (map stored_book (sorted_symbol_snapshots (ck_core_snapshot ck)))"
    using ok by (auto simp: list_all2_map2 list_all_iff sorted_symbol_snapshots_def stored_same_book intro!: list.rel_refl_strong)
  then show ?thesis
    using ok by (simp add: same_checkpoint_def stored_checkpoint_def stored_same_index sorted_map_defs sort_key_find
        keyed_metadata_find sorted_symbol_snapshots_def)
qed

text \<open>
  C21: writing a checkpoint and reading the text back gives a checkpoint with the same content; only
  the metadata of orders that no longer rest is left behind.
\<close>

theorem checkpoint_text_round_trip:
  assumes "checkpoint_in_range ck"
  shows "\<exists>ck'. deserialize_checkpoint (serialize_checkpoint ck) = Inr ck' \<and> same_checkpoint ck ck'"
  using deserialize_serialize [OF assms] stored_same_checkpoint [OF assms] by blast

text \<open>
  C22: a checkpoint file that was cut short is never taken for a checkpoint: of the text that was written,
  every proper prefix that lacks more than the last line feed is refused, wherever it was cut, so that the
  store reads it as no checkpoint at all.
\<close>

theorem truncated_checkpoint_refused:
  assumes "checkpoint_in_range ck" "Suc n < length (serialize_checkpoint ck)"
  shows "(\<exists>e. deserialize_checkpoint (take n (serialize_checkpoint ck)) = Inl e) \<and>
    try_deserialize_checkpoint (take n (serialize_checkpoint ck)) = None"
  using truncated_refused [OF assms] by (auto simp: try_deserialize_checkpoint_def)

text \<open>
  Whatever text the reader accepts, the checkpoint it returns is well typed, so it is written and read back
  once more.
\<close>

lemma accepted_checkpoint_typed:
  assumes "deserialize_checkpoint checkpoint_text = Inr ck"
  shows "checkpoint_in_range ck"
  using assms read_checkpoint_range by (auto simp: deserialize_checkpoint_def ebind_Inr_iff)

lemma accepted_checkpoint_rewritten:
  assumes "deserialize_checkpoint checkpoint_text = Inr ck"
  shows "\<exists>ck'. deserialize_checkpoint (serialize_checkpoint ck) = Inr ck' \<and> same_checkpoint ck ck'"
  using deserialize_serialize stored_same_checkpoint accepted_checkpoint_typed [OF assms] by blast

section \<open>Restarting from the store\<close>

text \<open>A checkpoint without content.\<close>

definition empty_checkpoint :: "string \<Rightarrow> EngineCheckpoint" where
  "empty_checkpoint i = \<lparr>ck_schema_version = CurrentEngineCheckpointSchemaVersion, ck_checkpoint_id = i,
     ck_core_snapshot = \<lparr>es_symbolSnapshots = [], es_sequenceState = sequence_snapshot initial_sequence_generator,
       es_idempotencyState = empty_index\<rparr>,
     ck_source_position = \<lparr>cp_topic = ''t'', cp_partition = 0, cp_next_offset = 0\<rparr>,
     ck_public_sequences = [], ck_mark_prices = [], ck_funding_rates = [], ck_settled_funding_intervals = {},
     ck_positions = [], ck_risk_states = [], ck_metadata_store = [], ck_processed_input_ids = [],
     ck_processed_idempotency_keys = []\<rparr>"

text \<open>
  What a runtime has of another one after a restart from its checkpoint.  Of the engine these are the
  generator, the configurations, the index and, in \<open>restored_core\<close>, every resting order with all its
  members, best price first but by id inside a level; the last trade prices are not kept.
\<close>

definition restarted :: "EngineCheckpoint \<Rightarrow> EngineRuntime \<Rightarrow> EngineRuntime \<Rightarrow> bool" where
  "restarted ck rt rt' \<longleftrightarrow>
     rt_positions rt' = rt_positions rt \<and> rt_risk_states rt' = rt_risk_states rt \<and>
     rt_settled_funding_intervals rt' = rt_settled_funding_intervals rt \<and>
     (\<forall>m. um_find (rt_mark_prices rt') m = um_find (rt_mark_prices rt) m) \<and>
     (\<forall>m. um_find (rt_funding_rates rt') m = um_find (rt_funding_rates rt) m) \<and>
     (\<forall>i. metadata_find i (rt_metadata_store rt') =
        (if i \<in> active_order_ids ck then metadata_find i (rt_metadata_store rt) else None)) \<and>
     (\<forall>i. um_find (rt_processed_input_ids rt') i = um_find (rt_processed_input_ids rt) i) \<and>
     (\<forall>k. um_find (rt_processed_idempotency_keys rt') k = um_find (rt_processed_idempotency_keys rt) k) \<and>
     (\<forall>m. market_peek m (em_sequences (rt_emitter rt')) = market_peek m (em_sequences (rt_emitter rt))) \<and>
     restored_core (rt_core rt) (rt_core rt') \<and>
     same_index (core_idempotencyIndex (rt_core rt)) (core_idempotencyIndex (rt_core rt'))"

lemma restore_runtime_fields:
  assumes "ck_schema_version ck = CurrentEngineCheckpointSchemaVersion"
    "require_valid_source_position (ck_source_position ck) = Inr ()"
    "engine_restore (ck_core_snapshot ck) (rt_core rt0) = Some core"
    "restore_sequences (ck_public_sequences ck) (make_market_sequences (rc_first_public_sequence (rt_config rt0))) = Inr g"
  shows "\<exists>rt'. restore_runtime ck rt0 = Inr rt' \<and> rt_core rt' = core \<and> em_sequences (rt_emitter rt') = g \<and>
    rt_metadata_store rt' = ck_metadata_store ck \<and> rt_mark_prices rt' = ck_mark_prices ck \<and>
    rt_funding_rates rt' = ck_funding_rates ck \<and>
    rt_settled_funding_intervals rt' = ck_settled_funding_intervals ck \<and> rt_positions rt' = ck_positions ck \<and>
    rt_risk_states rt' = ck_risk_states ck \<and>
    rt_processed_input_ids rt' = copy_map restore_request (ck_processed_input_ids ck) \<and>
    rt_processed_idempotency_keys rt' = copy_map restore_request (ck_processed_idempotency_keys ck)"
  using assms by (simp add: restore_runtime_def restore_state_def throwing_def defined_def Let_def)

lemma engine_restore_fields:
  "engine_restore snap core0 = Some core \<Longrightarrow>
     core_sequenceGenerator core = sequence_restore (es_sequenceState snap) \<and>
     core_idempotencyIndex core = idempotency_restore (es_idempotencyState snap)"
  by (auto simp: engine_restore_def split: Option.bind_splits dest!: restore_books_frame)

lemma create_checkpoint_fields:
  assumes "create_checkpoint rt pos i = Inr ck"
  shows "ck_schema_version ck = CurrentEngineCheckpointSchemaVersion" "ck_checkpoint_id ck = i"
    "ck_source_position ck = pos" "require_valid_source_position pos = Inr ()"
    "es_sequenceState (ck_core_snapshot ck) = sequence_snapshot (core_sequenceGenerator (rt_core rt))"
    "es_idempotencyState (ck_core_snapshot ck) = core_idempotencyIndex (rt_core rt)"
    "ck_public_sequences ck = ms_next_by_market (em_sequences (rt_emitter rt))"
    "ck_mark_prices ck = rt_mark_prices rt" "ck_funding_rates ck = rt_funding_rates rt"
    "ck_settled_funding_intervals ck = rt_settled_funding_intervals rt" "ck_positions ck = rt_positions rt"
    "ck_risk_states ck = rt_risk_states rt" "ck_metadata_store ck = rt_metadata_store rt"
    "ck_processed_input_ids ck = copy_map snapshot_request (rt_processed_input_ids rt)"
    "ck_processed_idempotency_keys ck = copy_map snapshot_request (rt_processed_idempotency_keys rt)"
  using assms
  by (auto simp: create_checkpoint_def throwing_def require_valid_source_position_def defined_def snapshot_state_def
      engine_snapshot_def market_snapshot_def idempotency_snapshot_def split: option.splits Option.bind_splits)

lemma create_checkpoint_core:
  "create_checkpoint rt pos i = Inr ck \<Longrightarrow> engine_snapshot (rt_core rt) = Some (ck_core_snapshot ck)"
  by (auto simp: create_checkpoint_def throwing_def require_valid_source_position_def defined_def snapshot_state_def
      split: option.splits Option.bind_splits)

lemma restore_same_checkpoint:
  assumes ck: "create_checkpoint rt pos i = Inr ck" and same: "same_checkpoint ck ck'" "um_ok (ck_public_sequences ck')"
    and ok: "sequences_ok rt" and config: "rc_first_public_sequence (rt_config rt0) = rc_first_public_sequence (rt_config rt)"
    and core: "engine_restore (ck_core_snapshot ck') (rt_core rt0) = Some core" "restored_core (rt_core rt) core"
  shows "\<exists>rt'. restore_runtime ck' rt0 = Inr rt' \<and> restarted ck rt rt' \<and> rt_core rt' = core"
proof -
  note fs = create_checkpoint_fields [OF ck]
  note eqs = same(1) [unfolded same_checkpoint_def]
  let ?g = "make_market_sequences (rc_first_public_sequence (rt_config rt0))"
  have mem: "\<exists>s'. (m, s') \<in> set (ck_public_sequences ck) \<and> s' = s" if "(m, s) \<in> set (ck_public_sequences ck')" for m s
  proof -
    have "um_find (ck_public_sequences ck') m = Some s" using that same(2) by (simp add: um_ok_find_iff)
    then have "um_find (ck_public_sequences ck) m = Some s" using eqs by simp
    then show ?thesis by (auto simp: um_find_def dest: map_of_SomeD)
  qed
  have "\<forall>(m, s) \<in> set (ck_public_sequences ck'). 0 < m \<and> s \<noteq> 0"
    using mem ok fs(7) unfolding sequences_ok_def by fastforce
  then obtain g where g: "restore_sequences (ck_public_sequences ck') ?g = Inr g" using restore_sequences_returns by blast
  have peek: "market_peek m g = market_peek m (em_sequences (rt_emitter rt))" for m
    using restore_sequences_find [OF g same(2), of m] eqs fs(7) ok config
    by (simp add: market_peek_def sequences_ok_def make_market_sequences_def container_simps split: option.split)
  obtain rt' where rt': "restore_runtime ck' rt0 = Inr rt'" "rt_core rt' = core" "em_sequences (rt_emitter rt') = g"
    "rt_metadata_store rt' = ck_metadata_store ck'" "rt_mark_prices rt' = ck_mark_prices ck'"
    "rt_funding_rates rt' = ck_funding_rates ck'"
    "rt_settled_funding_intervals rt' = ck_settled_funding_intervals ck'" "rt_positions rt' = ck_positions ck'"
    "rt_risk_states rt' = ck_risk_states ck'"
    "rt_processed_input_ids rt' = copy_map restore_request (ck_processed_input_ids ck')"
    "rt_processed_idempotency_keys rt' = copy_map restore_request (ck_processed_idempotency_keys ck')"
    using restore_runtime_fields [of ck' rt0 core g] eqs fs(1,3,4) core g by auto
  have "same_index (core_idempotencyIndex (rt_core rt)) (core_idempotencyIndex core)"
    using engine_restore_fields [OF core(1)] eqs fs(6) by (simp add: idempotency_restore_def same_index_def)
  then have "restarted ck rt rt'"
    unfolding restarted_def using rt' eqs fs(8-) peek core(2)
    by (simp add: option.map_comp comp_def option.map_ident)
  then show ?thesis using rt' by blast
qed

lemma create_checkpoint_public:
  assumes "create_checkpoint rt pos i = Inr ck" "sequences_ok rt" "checkpoint_in_range ck"
  shows "um_ok (ck_public_sequences (stored_checkpoint ck))"
  using assms(3) by (simp add: stored_checkpoint_def sorted_map_defs sort_key_find checkpoint_in_range_def)

text \<open>The configuration of a symbol names the symbol it is stored under, as \<open>add_symbol\<close> stores it.\<close>

definition symbols_keyed :: "EngineCore \<Rightarrow> bool" where
  "symbols_keyed core \<longleftrightarrow> (\<forall>sy c. um_find (core_symbolConfigs core) sy = Some c \<longrightarrow> sc_symbolId c = sy)"

lemma add_symbol_keyed: "add_symbol c core = Some core' \<Longrightarrow> symbols_keyed core \<Longrightarrow> symbols_keyed core'"
  by (auto simp: add_symbol_def symbols_keyed_def container_simps split: Option.bind_splits if_splits)

lemma restored_keyed: "restored_core core core' \<Longrightarrow> symbols_keyed core \<Longrightarrow> symbols_keyed core'"
  by (simp add: restored_core_def symbols_keyed_def)

text \<open>What the file keeps of a snapshot is a snapshot of the same engine.\<close>

lemma stored_book_of:
  assumes "book_snapshot_of ob b" "book_in_range b"
  shows "book_snapshot_of ob (stored_book b)"
  using assms by (simp add: book_snapshot_of_def stored_book_def sorted_orders_def sorted_client_order_map_def
      book_in_range_def sort_key_find sort_key_id_if_sorted)

lemma stored_snapshot_of:
  assumes snap: "core_snapshot_of core snap" and core: "core_ok core" "symbols_keyed core"
    and range: "list_all book_in_range (es_symbolSnapshots snap)" "index_in_range (es_idempotencyState snap)"
  shows "core_snapshot_of core \<lparr>es_symbolSnapshots = map stored_book (sorted_symbol_snapshots snap),
    es_sequenceState = es_sequenceState snap, es_idempotencyState = stored_index (es_idempotencyState snap)\<rparr>"
proof -
  note s = snap [unfolded core_snapshot_of_def]
  have um: "um_ok (core_orderBooks core)" using core(1) by (simp add: core_ok_def)
  have book: "bs_symbolId (stored_book b) = bs_symbolId b" "\<exists>ob. um_find (core_orderBooks core) (bs_symbolId b) = Some ob \<and>
      book_snapshot_of ob b" if b: "b \<in> set (es_symbolSnapshots snap)" for b
  proof -
    have "bs_symbolId b \<in> fst ` set (core_orderBooks core)" using s b by blast
    then obtain ob where ob: "um_find (core_orderBooks core) (bs_symbolId b) = Some ob" by (auto simp: um_ok_find_iff [OF um])
    then have of: "book_snapshot_of ob b" using s b by blast
    then show "\<exists>ob. um_find (core_orderBooks core) (bs_symbolId b) = Some ob \<and> book_snapshot_of ob b" using ob by blast
    have "sc_symbolId (ob_symbolConfig ob) = bs_symbolId b"
      using core_ok_D(2) [OF core(1) ob] core(2) by (simp add: symbols_keyed_def)
    then show "bs_symbolId (stored_book b) = bs_symbolId b" using of by (simp add: stored_book_def book_snapshot_of_def)
  qed
  let ?bs = "map stored_book (sorted_symbol_snapshots snap)"
  have "map bs_symbolId ?bs = map bs_symbolId (sorted_symbol_snapshots snap)"
    using book(1) by (simp add: sorted_symbol_snapshots_def)
  moreover have "mset (map bs_symbolId (sorted_symbol_snapshots snap)) = mset (map bs_symbolId (es_symbolSnapshots snap))"
    by (simp add: sorted_symbol_snapshots_def)
  ultimately have ids: "mset (map bs_symbolId ?bs) = mset (map bs_symbolId (es_symbolSnapshots snap))" by (simp only:)
  have "distinct (map bs_symbolId ?bs)" using s mset_eq_imp_distinct_iff [OF ids] by blast
  moreover have "bs_symbolId ` set ?bs = fst ` set (core_orderBooks core)"
    using s mset_eq_setD [OF ids] by (simp only: set_map)
  moreover have "book_snapshot_of ob b'" if b': "b' \<in> set ?bs" "um_find (core_orderBooks core) (bs_symbolId b') = Some ob" for b' ob
  proof -
    obtain b where b: "b \<in> set (es_symbolSnapshots snap)" "b' = stored_book b"
      using b'(1) by (auto simp: sorted_symbol_snapshots_def)
    then have "book_snapshot_of ob b" "book_in_range b" using b'(2) book [OF b(1)] range(1) by (auto simp: list_all_iff)
    then show ?thesis using b(2) stored_book_of by simp
  qed
  moreover have "same_index (es_idempotencyState snap) (stored_index (es_idempotencyState snap))"
    by (rule stored_same_index [OF range(2)])
  ultimately show ?thesis
    using s by (simp add: core_snapshot_of_def same_index_def has_order_id_def has_client_order_id_def)
qed

text \<open>
  C5: a checkpoint saved under the greatest name is the one found at the next start, and restoring it always
  succeeds, over any consistent engine: positions, risk, prices, rates, answered requests and public sequences
  are as they were, so are the generator, the symbols and the index of the engine, and the metadata of every
  order that rests; each book has the orders it had with all their members, and the engine is consistent.
  Two things are not brought back: the order of arrival inside a level (its orders stand by id) and the last
  trade prices.
\<close>

theorem checkpoint_file_restarts:
  assumes "create_checkpoint rt pos i = Inr ck" "checkpoint_in_range ck" "sequences_ok rt"
    and "file_save outcomes ck directory = (Inr (), directory')"
    and "\<forall>n \<in> dom (checkpoint_texts directory). n \<le> checkpoint_filename_for_id i"
    and "rc_first_public_sequence (rt_config rt0) = rc_first_public_sequence (rt_config rt)"
    and "core_ok (rt_core rt)" "symbols_keyed (rt_core rt)" "core_ok (rt_core rt0)"
  shows "\<exists>ck' rt'. file_load_latest directory' = Some ck' \<and> restore_runtime ck' rt0 = Inr rt' \<and>
    restarted ck rt rt' \<and> core_ok (rt_core rt')"
proof -
  let ?stored = "stored_checkpoint ck"
  obtain snap where "engine_snapshot (rt_core rt) = Some snap" "core_snapshot_of (rt_core rt) snap"
    using engine_snapshot_ok [OF assms(7)] by blast
  then have "core_snapshot_of (rt_core rt) (ck_core_snapshot ck)" using create_checkpoint_core [OF assms(1)] by simp
  then have "core_snapshot_of (rt_core rt) (ck_core_snapshot ?stored)"
    using stored_snapshot_of [OF _ assms(7,8)] assms(2) by (simp add: stored_checkpoint_def checkpoint_in_range_def)
  from engine_restore_ok [OF assms(7,9) this] obtain core where
    core: "engine_restore (ck_core_snapshot ?stored) (rt_core rt0) = Some core" "core_ok core" "restored_core (rt_core rt) core"
    by blast
  have "file_load_latest directory' = Some ?stored"
    using file_store.saved_latest [OF assms(4,2)] assms(5) create_checkpoint_fields(2) [OF assms(1)] by simp
  moreover obtain rt' where "restore_runtime ?stored rt0 = Inr rt'" "restarted ck rt rt'" "rt_core rt' = core"
    using restore_same_checkpoint [OF assms(1) stored_same_checkpoint [OF assms(2)]
        create_checkpoint_public [OF assms(1,3,2)] assms(3,6) core(1,3)] by blast
  ultimately show ?thesis using core(2) by blast
qed

lemma demo_checkpoint_in_range:
  assumes "create_checkpoint (demo_runtime 700 500) demo_source i = Inr ck"
  shows "checkpoint_in_range ck" "ck_core_snapshot (stored_checkpoint ck) = demo_core_snapshot"
proof -
  note fs = create_checkpoint_fields [OF assms]
  have core: "ck_core_snapshot ck = demo_core_snapshot" using demo_checkpoint [of i] assms by auto
  have snapshot: "es_symbolSnapshots demo_core_snapshot = []" "es_idempotencyState demo_core_snapshot = empty_index"
    by (simp_all add: demo_core_snapshot_def engine_snapshot_def make_engine_core_def idempotency_snapshot_def empty_index_def)
  have rt: "rt_mark_prices (demo_runtime 700 500) = [(1, demo_mark)]" "rt_funding_rates (demo_runtime 700 500) = [(1, demo_funding)]"
    "rt_settled_funding_intervals (demo_runtime 700 500) = {}" "rt_metadata_store (demo_runtime 700 500) = []"
    "rt_processed_input_ids (demo_runtime 700 500) = []" "rt_processed_idempotency_keys (demo_runtime 700 500) = []"
    "rt_positions (demo_runtime 700 500) = [(PositionRiskKey 7 1, demo_position 7 10 700), (PositionRiskKey 8 1, demo_position 8 (- 10) 500)]"
    "rt_risk_states (demo_runtime 700 500) = map (\<lambda>(k, p). (k, risk_from_position p 110 0)) (rt_positions (demo_runtime 700 500))"
    "ms_next_by_market (em_sequences (rt_emitter (demo_runtime 700 500))) = []"
    by (simp_all add: demo_runtime_def Let_def make_market_sequences_def)
  have risks: "list_all risk_in_range (map (\<lambda>(k, p). (k, risk_from_position p 110 0)) (rt_positions (demo_runtime 700 500)))"
    unfolding rt by code_simp
  have metadata: "metadata_entries ck = []"
    by (simp add: metadata_entries_def fs rt core snapshot)
  show "checkpoint_in_range ck"
    unfolding checkpoint_in_range_def metadata core fs rt snapshot using risks [unfolded rt]
    by (simp add: demo_source_def in_i32_def in_i64_def index_in_range_def fits_def um_ok_def sm_ok_def store_keyed_def copy_map_def
        empty_index_def mark_price_in_range_def demo_mark_def funding_rate_in_range_def demo_funding_def position_in_range_def
        demo_position_def less_PositionRiskKey_def position_risk_key_less_def)
  have "stored_index empty_index = empty_index"
    by (simp add: stored_index_def empty_index_def sorted_map_defs sorted_order_ids_def)
  then show "ck_core_snapshot (stored_checkpoint ck) = demo_core_snapshot"
    using snapshot by (simp add: stored_checkpoint_def core sorted_symbol_snapshots_def)
qed


theorem checkpoint_text_round_trip_witness:
  "\<exists>ck ck'. create_checkpoint (demo_runtime 700 500) demo_source ''c'' = Inr ck \<and>
     deserialize_checkpoint (serialize_checkpoint ck) = Inr ck' \<and> same_checkpoint ck ck'"
proof -
  obtain ck where "create_checkpoint (demo_runtime 700 500) demo_source ''c'' = Inr ck" using demo_checkpoint by blast
  then show ?thesis using checkpoint_text_round_trip [OF demo_checkpoint_in_range(1)] by blast
qed

theorem truncated_checkpoint_refused_witness:
  "\<exists>ck e. create_checkpoint (demo_runtime 700 500) demo_source ''c'' = Inr ck \<and> 20 < length (serialize_checkpoint ck) \<and>
     deserialize_checkpoint (take (length (serialize_checkpoint ck) - 2) (serialize_checkpoint ck)) = Inl e"
proof -
  obtain ck where ck: "create_checkpoint (demo_runtime 700 500) demo_source ''c'' = Inr ck" using demo_checkpoint by blast
  have len: "20 < length (serialize_checkpoint ck)" by (simp add: serialize_checkpoint_def write_checkpoint_def kMagic_def)
  then have "Suc (length (serialize_checkpoint ck) - 2) < length (serialize_checkpoint ck)" by linarith
  from truncated_checkpoint_refused [OF demo_checkpoint_in_range(1) [OF ck] this] show ?thesis using ck len by blast
qed

text \<open>
  A runtime with two orders on one level, where the order with the greater id arrived first; the first one has
  metadata.
\<close>

definition demo_trading :: EngineRuntime where
  "demo_trading = (demo_runtime 700 500)\<lparr>rt_core := demo_core2, rt_metadata_store := [(2, demo_metadata 2 7 Short)]\<rparr>"

definition demo_trading_snapshot :: EngineSnapshot where
  "demo_trading_snapshot = \<lparr>es_symbolSnapshots = [\<lparr>bs_symbolId = 1, bs_symbolConfig = demo_config, bs_bidLevels = [],
       bs_askLevels = [\<lparr>ls_price = 100, ls_totalQuantity = 15, ls_orderIds = [2, 1]\<rparr>],
       bs_activeOrders =
         [\<lparr>os_orderId = 1, os_clientOrderId = 1, os_userId = 8, os_symbolId = 1, os_side = Sell, os_price = 100,
            os_originalQuantity = 5, os_remainingQuantity = 5, os_sequenceAccepted = 3\<rparr>,
          \<lparr>os_orderId = 2, os_clientOrderId = 2, os_userId = 7, os_symbolId = 1, os_side = Sell, os_price = 100,
            os_originalQuantity = 10, os_remainingQuantity = 10, os_sequenceAccepted = 1\<rparr>],
       bs_clientOrderIdToOrderId = [(2, 2), (1, 1)]\<rparr>],
     es_sequenceState = \<lparr>ss_nextSequence = 5, ss_nextTradeId = 1, ss_nextEventId = 5\<rparr>,
     es_idempotencyState = \<lparr>ii_processedCommandIds =
         [(2, \<lparr>cr_commandId = 2, cr_accepted = True, cr_orderId = Some 2, cr_rejectReason = None, cr_sequence = 1\<rparr>),
          (1, \<lparr>cr_commandId = 1, cr_accepted = True, cr_orderId = Some 1, cr_rejectReason = None, cr_sequence = 3\<rparr>)],
       ii_clientOrderIdToOrderId = [(2, 2), (1, 1)], ii_orderIds = [1, 2]\<rparr>\<rparr>"

lemma demo_core2_snapshot: "engine_snapshot demo_core2 = Some demo_trading_snapshot"
  by code_simp

lemma demo_snapshot_in_range:
  "list_all book_in_range (es_symbolSnapshots demo_trading_snapshot)" "fits (es_symbolSnapshots demo_trading_snapshot)"
  "index_in_range (es_idempotencyState demo_trading_snapshot)"
  by (simp_all add: demo_trading_snapshot_def book_in_range_def fits_def um_ok_def index_in_range_def demo_config_def
      symbol_config_in_range_def level_in_range_def order_in_range_def in_i64_def in_i32_def)

lemma demo_trading_in_range:
  assumes "create_checkpoint demo_trading demo_source i = Inr ck"
  shows "checkpoint_in_range ck"
proof -
  note fs = create_checkpoint_fields [OF assms]
  have core: "ck_core_snapshot ck = demo_trading_snapshot"
    using create_checkpoint_core [OF assms] demo_core2_snapshot by (simp add: demo_trading_def)
  have same: "create_checkpoint (demo_runtime 700 500) demo_source i = Inr ck0 \<Longrightarrow> checkpoint_in_range ck0" for ck0
    by (rule demo_checkpoint_in_range(1))
  obtain ck0 where ck0: "create_checkpoint (demo_runtime 700 500) demo_source i = Inr ck0" using demo_checkpoint by blast
  note fs0 = create_checkpoint_fields [OF ck0]
  have rt: "rt_mark_prices demo_trading = rt_mark_prices (demo_runtime 700 500)"
    "rt_funding_rates demo_trading = rt_funding_rates (demo_runtime 700 500)"
    "rt_settled_funding_intervals demo_trading = rt_settled_funding_intervals (demo_runtime 700 500)"
    "rt_positions demo_trading = rt_positions (demo_runtime 700 500)"
    "rt_risk_states demo_trading = rt_risk_states (demo_runtime 700 500)"
    "rt_processed_input_ids demo_trading = rt_processed_input_ids (demo_runtime 700 500)"
    "rt_processed_idempotency_keys demo_trading = rt_processed_idempotency_keys (demo_runtime 700 500)"
    "rt_emitter demo_trading = rt_emitter (demo_runtime 700 500)" "rt_metadata_store demo_trading = [(2, demo_metadata 2 7 Short)]"
    by (simp_all add: demo_trading_def)
  have metadata: "metadata_entries ck = [demo_metadata 2 7 Short]"
    by (simp add: metadata_entries_def fs rt core collect_metadata_def demo_trading_snapshot_def metadata_find_def container_simps
        Let_def insort_key_def)
  have "checkpoint_in_range ck0" by (rule same [OF ck0])
  then show ?thesis
    unfolding checkpoint_in_range_def metadata core using demo_snapshot_in_range
    by (simp add: fs fs0 rt store_keyed_def metadata_in_range_def demo_metadata_def fits_def in_i64_def in_i32_def)
qed

lemma demo_core2_keyed: "symbols_keyed demo_core2"
proof -
  have "map (\<lambda>(sy, c). (sy, sc_symbolId c)) (core_symbolConfigs demo_core2) = [(1, 1)]" by code_simp
  then show ?thesis by (auto simp: symbols_keyed_def um_find_def map_eq_Cons_conv split: if_splits)
qed

theorem checkpoint_file_restarts_witness:
  "\<exists>ck directory' ck' rt'. create_checkpoint demo_trading demo_source ''c'' = Inr ck \<and>
     file_save no_failure ck (Some [(''b.checkpoint'', ''other'')]) = (Inr (), directory') \<and>
     file_load_latest directory' = Some ck' \<and> restore_runtime ck' (demo_runtime 0 0) = Inr rt' \<and>
     restarted ck demo_trading rt' \<and> resting_of (rt_core demo_trading) = Some [(2, 100, 10), (1, 100, 5)] \<and>
     resting_of (rt_core rt') = Some [(1, 100, 5), (2, 100, 10)]"
proof -
  have core: "rt_core demo_trading = demo_core2" "core_ok (rt_core (demo_runtime 0 0))"
    by (simp_all add: demo_trading_def demo_runtime_def Let_def core_ok_make)
  obtain ck where ck: "create_checkpoint demo_trading demo_source ''c'' = Inr ck"
    by (simp add: create_checkpoint_def demo_source_valid throwing_def defined_def snapshot_state_def core demo_core2_snapshot)
  let ?d = "Some [(''b.checkpoint'', ''other'')]"
  obtain directory' where saved: "file_save no_failure ck ?d = (Inr (), directory')"
    by (simp add: file_save_def no_failure_def commit_file_def Let_def)
  have name: "checkpoint_filename_for_id ''c'' = ''c.checkpoint''" by code_simp
  have newest: "\<forall>n \<in> dom (checkpoint_texts ?d). n \<le> checkpoint_filename_for_id ''c''"
    unfolding dom_checkpoint_texts name by simp
  have config: "rc_first_public_sequence (rt_config (demo_runtime 0 0)) = rc_first_public_sequence (rt_config demo_trading)"
    "sequences_ok demo_trading"
    using demo_sequences_ok [of 700 500] by (simp_all add: demo_trading_def demo_runtime_def Let_def sequences_ok_def)
  from checkpoint_file_restarts [OF ck demo_trading_in_range [OF ck] config(2) saved newest config(1)]
  obtain ck' rt' where restart: "file_load_latest directory' = Some ck'" "restore_runtime ck' (demo_runtime 0 0) = Inr rt'"
    "restarted ck demo_trading rt'"
    using core demo_core2_ok demo_core2_keyed by auto
  then have "rel_option restored_book (get_order_book 1 demo_core2) (get_order_book 1 (rt_core rt'))"
    using core(1) by (simp add: restarted_def restored_core_def)
  moreover have "resting_of demo_core2 = Some [(2, 100, 10), (1, 100, 5)]" by (rule demo_log_book)
  ultimately have "resting_of (rt_core rt') = Some (restored_view Sell [(2, 100, 10), (1, 100, 5)])"
    by (auto simp: resting_of_def restored_book_def option_rel_Some1 bind_eq_Some_conv dest!: spec [of _ Sell])
  moreover have "restored_view Sell [(2, 100, 10), (1, 100, 5)] = [(1, 100, 5), (2, 100, 10)]" by code_simp
  ultimately show ?thesis using ck saved restart core(1) demo_log_book by auto
qed

text \<open>
  C23: a save that fails leaves the store as it was for the next start, unless both renames failed and the
  old file of the same name was the latest: the newest readable checkpoint is not lost to a full disk, a
  temporary file that cannot be opened or a single rename that fails.
\<close>

theorem failed_save_keeps_latest:
  assumes "file_save outcomes ck directory = (Inl e, directory')"
    and "fo_rename_fails outcomes \<longrightarrow> fo_remove_final_fails outcomes \<or>
      checkpoint_texts directory (checkpoint_filename_for_id (ck_checkpoint_id ck)) = None \<or>
      (\<exists>n \<in> dom (checkpoint_texts directory). checkpoint_filename_for_id (ck_checkpoint_id ck) < n)"
  shows "file_load_latest directory' = file_load_latest directory"
proof (cases "\<exists>n \<in> dom (checkpoint_texts directory). checkpoint_filename_for_id (ck_checkpoint_id ck) < n")
  case True
  then have "checkpoint_filename_for_id (ck_checkpoint_id ck) < Max (dom (checkpoint_texts directory))"
    using file_store.finite_texts [of directory] by (meson Max_ge less_le_trans)
  then show ?thesis using file_store.latest_kept [OF assms(1)] True by blast
next
  case False
  have "checkpoint_texts directory' (checkpoint_filename_for_id (ck_checkpoint_id ck)) =
      checkpoint_texts directory (checkpoint_filename_for_id (ck_checkpoint_id ck))"
    using assms False
    by (auto simp: temp_name_differs [symmetric] file_save_def commit_file_def rename_file_def checkpoint_texts_def container_simps Let_def
        split: if_splits option.splits)
  then have "checkpoint_texts directory' = checkpoint_texts directory"
    using file_save_texts(2) [OF assms(1)] by (metis ext)
  then show ?thesis by (simp add: file_load_latest_texts)
qed


theorem failed_save_keeps_latest_witness:
  "\<exists>e directory'. file_save (no_failure\<lparr>fo_write_fails := Some ''CEX''\<rparr>) (empty_checkpoint ''c'') (Some [(''c.checkpoint'', ''old'')]) =
       (Inl e, directory') \<and>
     file_load_latest directory' = file_load_latest (Some [(''c.checkpoint'', ''old'')])"
proof -
  obtain e directory' where failed: "file_save (no_failure\<lparr>fo_write_fails := Some ''CEX''\<rparr>) (empty_checkpoint ''c'')
      (Some [(''c.checkpoint'', ''old'')]) = (Inl e, directory')"
    by (simp add: file_save_def no_failure_def)
  show ?thesis using failed failed_save_keeps_latest [OF failed] by (simp add: no_failure_def)
qed

text \<open>
  When both renames fail, the old checkpoint of that name has been removed in between: a store with one
  checkpoint has none afterwards.
\<close>

lemma failed_commit_deletes_checkpoint:
  "fst (file_save (no_failure\<lparr>fo_rename_fails := True, fo_rename_again_fails := True\<rparr>) (empty_checkpoint ''c'')
     (Some [(''c.checkpoint'', old)])) = Inl ''failed to commit checkpoint file: ''"
  "snd (file_save (no_failure\<lparr>fo_rename_fails := True, fo_rename_again_fails := True\<rparr>) (empty_checkpoint ''c'')
     (Some [(''c.checkpoint'', old)])) = Some []"
proof -
  have "checkpoint_filename_for_id ''c'' = ''c.checkpoint''" by code_simp
  then show "fst (file_save (no_failure\<lparr>fo_rename_fails := True, fo_rename_again_fails := True\<rparr>) (empty_checkpoint ''c'')
      (Some [(''c.checkpoint'', old)])) = Inl ''failed to commit checkpoint file: ''"
    "snd (file_save (no_failure\<lparr>fo_rename_fails := True, fo_rename_again_fails := True\<rparr>) (empty_checkpoint ''c'')
      (Some [(''c.checkpoint'', old)])) = Some []"
    by (simp_all add: file_save_def no_failure_def commit_file_def rename_file_def temp_name_def empty_checkpoint_def
        um_assign_def um_erase_def Let_def)
qed

text \<open>
  A file with the greatest name that cannot be read hides every older checkpoint: the start finds none,
  and recovery then replays from the low watermark without one.
\<close>

lemma corrupt_latest_hides_older:
  "file_load_latest (Some [(''b.checkpoint'', serialize_checkpoint ck), (''c.checkpoint'', ''CEX'')]) = None"
proof -
  let ?d = "Some [(''b.checkpoint'', serialize_checkpoint ck), (''c.checkpoint'', ''CEX'')]"
  have dom: "dom (checkpoint_texts ?d) = {''b.checkpoint'', ''c.checkpoint''}"
    unfolding dom_checkpoint_texts by (simp add: is_checkpoint_file_def path_extension_def CheckpointFileExtension_def)
  have max: "Max (dom (checkpoint_texts ?d)) = ''c.checkpoint''" unfolding dom by code_simp
  have "try_deserialize_checkpoint ''CEX'' = None" by code_simp
  then show ?thesis
    by (intro file_store.unreadable_latest)
      (simp_all add: max dom, simp add: checkpoint_texts_def container_simps is_checkpoint_file_def path_extension_def CheckpointFileExtension_def)
qed

end
