(* ===== verification/AppConfig.thy ===== *)
theory AppConfig
  imports CheckpointText
begin

text \<open>
  The configuration of the engine process (\<^verbatim>\<open>src/src/app/EngineAppConfig.hpp\<close> and \<^verbatim>\<open>EngineAppConfig.cpp\<close>):
  defaults, environment variables, command line and the markets file.  Exceptions are \<open>Inl\<close> of their
  message.  The process environment and the file system are functions: a variable or a file may be absent.
\<close>

section \<open>Configuration\<close>

datatype EngineCheckpointStoreKind = StoreFile | StoreS3

record EngineMarketConfig =
  mc_market_id :: MarketId
  mc_market_name :: string
  mc_input_partition :: int32
  mc_symbol_config :: SymbolConfig

record EngineS3CheckpointConfig =
  s3_endpoint :: string
  s3_bucket :: string
  s3_access_key :: string
  s3_secret_key :: string
  s3_region :: string
  s3_prefix :: string

record EngineAppConfig =
  ac_bootstrap_servers :: string
  ac_consumer_group_id :: string
  ac_input_topic :: string
  ac_replies_topic :: string
  ac_events_topic :: string
  ac_checkpoint_store :: EngineCheckpointStoreKind
  ac_checkpoint_directory :: string
  ac_s3_checkpoint :: EngineS3CheckpointConfig
  ac_markets :: "EngineMarketConfig list"
  ac_poll_loop_limit :: "u64 option"
  ac_once :: bool

record EngineAppEnvironment =
  ae_bootstrap_servers :: "string option"
  ae_consumer_group_id :: "string option"
  ae_checkpoint_store :: "string option"
  ae_checkpoint_directory :: "string option"
  ae_checkpoint_s3_endpoint :: "string option"
  ae_checkpoint_s3_bucket :: "string option"
  ae_checkpoint_s3_access_key :: "string option"
  ae_checkpoint_s3_secret_key :: "string option"
  ae_checkpoint_s3_region :: "string option"
  ae_checkpoint_s3_prefix :: "string option"
  ae_poll_loop_limit :: "string option"
  ae_markets_config :: "string option"

record EngineAppConfigParseResult =
  ap_config :: EngineAppConfig
  ap_help_requested :: bool

definition default_s3_checkpoint :: EngineS3CheckpointConfig where
  "default_s3_checkpoint = \<lparr>s3_endpoint = ''http://127.0.0.1:59000'', s3_bucket = ''exchange-checkpoints'',
     s3_access_key = ''minioadmin'', s3_secret_key = ''minioadmin'', s3_region = ''us-east-1'', s3_prefix = []\<rparr>"

definition default_sol_perp_market_config :: EngineMarketConfig where
  "default_sol_perp_market_config = \<lparr>mc_market_id = 1, mc_market_name = ''SOL-PERP'', mc_input_partition = 0,
     mc_symbol_config = \<lparr>sc_symbolId = 1, sc_baseAssetId = 1, sc_quoteAssetId = 2, sc_tickSize = 1, sc_lotSize = 1,
       sc_minQuantity = 1, sc_maxQuantity = 1000000, sc_minPrice = 1, sc_maxPrice = 1000000,
       sc_ringCapacityTicks = 1000, sc_thresholdPercentage = 10, sc_initialBaseTick = 0, sc_priceScale = 0,
       sc_quantityScale = 0, sc_makerFeeRate = 0, sc_takerFeeRate = 0, sc_tradingEnabled = True\<rparr>\<rparr>"

definition default_engine_app_config :: EngineAppConfig where
  "default_engine_app_config = \<lparr>ac_bootstrap_servers = ''127.0.0.1:9092'', ac_consumer_group_id = ''cex-engine'',
     ac_input_topic = EngineInputTopic, ac_replies_topic = EngineRepliesTopic, ac_events_topic = EngineEventsTopic,
     ac_checkpoint_store = StoreS3, ac_checkpoint_directory = ''.data/engine/checkpoints'',
     ac_s3_checkpoint = default_s3_checkpoint, ac_markets = [default_sol_perp_market_config],
     ac_poll_loop_limit = None, ac_once = False\<rparr>"

definition symbol_configs_for_runtime :: "EngineAppConfig \<Rightarrow> SymbolConfig list" where
  "symbol_configs_for_runtime config = map mc_symbol_config (ac_markets config)"

definition engine_app_environment :: "(string \<Rightarrow> string option) \<Rightarrow> EngineAppEnvironment" where
  "engine_app_environment getenv = \<lparr>ae_bootstrap_servers = getenv ''CEX_ENGINE_BOOTSTRAP_SERVERS'',
     ae_consumer_group_id = getenv ''CEX_ENGINE_GROUP_ID'', ae_checkpoint_store = getenv ''CEX_ENGINE_CHECKPOINT_STORE'',
     ae_checkpoint_directory = getenv ''CEX_ENGINE_CHECKPOINT_DIR'',
     ae_checkpoint_s3_endpoint = getenv ''CEX_ENGINE_CHECKPOINT_S3_ENDPOINT'',
     ae_checkpoint_s3_bucket = getenv ''CEX_ENGINE_CHECKPOINT_S3_BUCKET'',
     ae_checkpoint_s3_access_key = getenv ''CEX_ENGINE_CHECKPOINT_S3_ACCESS_KEY'',
     ae_checkpoint_s3_secret_key = getenv ''CEX_ENGINE_CHECKPOINT_S3_SECRET_KEY'',
     ae_checkpoint_s3_region = getenv ''CEX_ENGINE_CHECKPOINT_S3_REGION'',
     ae_checkpoint_s3_prefix = getenv ''CEX_ENGINE_CHECKPOINT_S3_PREFIX'',
     ae_poll_loop_limit = getenv ''CEX_ENGINE_POLL_LIMIT'', ae_markets_config = getenv ''CEX_ENGINE_MARKETS_CONFIG''\<rparr>"

section \<open>Text helpers\<close>

definition require_non_blank :: "string \<Rightarrow> string \<Rightarrow> string + unit" where
  "require_non_blank value name = require (\<not> blank value) (name @ '' must not be empty'')"

text \<open>\<open>std::tolower\<close> in the C locale.\<close>

definition lower_char :: "char \<Rightarrow> char" where
  "lower_char c = (if CHR ''A'' \<le> c \<and> c \<le> CHR ''Z'' then char_of ((of_char c :: nat) + 32) else c)"

definition lowercase :: "string \<Rightarrow> string" where
  "lowercase value = map lower_char value"

definition parse_checkpoint_store_kind :: "string \<Rightarrow> string \<Rightarrow> string + EngineCheckpointStoreKind" where
  "parse_checkpoint_store_kind value name =
     ebind (require_non_blank value name) (\<lambda>_.
       if lowercase value = ''file'' then Inr StoreFile
       else if lowercase value = ''s3'' then Inr StoreS3
       else Inl (name @ '' must be s3 or file''))"

definition trim :: "string \<Rightarrow> string" where
  "trim value = rev (dropWhile is_space_char (rev (dropWhile is_space_char value)))"

definition starts_with :: "string \<Rightarrow> string \<Rightarrow> bool" where
  "starts_with value prefix \<longleftrightarrow> length value \<ge> length prefix \<and> take (length prefix) value = prefix"

definition parse_positive_u64 :: "string \<Rightarrow> string \<Rightarrow> string + u64" where
  "parse_positive_u64 value name = (case parse_unsigned value of
      Inr parsed \<Rightarrow> if parsed = 0 then Inl (name @ '' must be a positive integer'') else Inr parsed
    | Inl _ \<Rightarrow> Inl (name @ '' must be a positive integer''))"

definition config_error_prefix :: "string \<Rightarrow> nat \<Rightarrow> string" where
  "config_error_prefix path line_number =
     ''invalid markets config '' @ [CHR 0x27] @ path @ [CHR 0x27] @ '' at line '' @ to_string (int line_number) @ '': ''"

text \<open>The fields of the markets file; \<open>parse\<close> is \<open>std::from_chars\<close> on the type of the field.\<close>

definition parse_integer_field :: "(string \<Rightarrow> string + 'a) \<Rightarrow> string \<Rightarrow> string \<Rightarrow> string \<Rightarrow> nat \<Rightarrow> string + 'a" where
  "parse_integer_field parse value key path line_number = (case parse value of
      Inr parsed \<Rightarrow> Inr parsed
    | Inl _ \<Rightarrow> Inl (config_error_prefix path line_number @ key @ '' must be an integer''))"

definition parse_u8_field :: "string \<Rightarrow> string \<Rightarrow> string \<Rightarrow> nat \<Rightarrow> string + u8" where
  "parse_u8_field value key path line_number =
     ebind (parse_integer_field parse_unsigned value key path line_number) (\<lambda>parsed :: u32.
       if parsed > 255
       then Inl (config_error_prefix path line_number @ key @ '' must fit in an unsigned 8-bit integer'')
       else Inr (ucast parsed))"

definition parse_config_bool :: "string \<Rightarrow> string \<Rightarrow> string \<Rightarrow> nat \<Rightarrow> string + bool" where
  "parse_config_bool value key path line_number =
     (if value = ''true'' \<or> value = ''1'' then Inr True
      else if value = ''false'' \<or> value = ''0'' then Inr False
      else Inl (config_error_prefix path line_number @ key @ '' must be true, false, 1, or 0''))"

definition required_market_field :: "'a option \<Rightarrow> string \<Rightarrow> string \<Rightarrow> nat \<Rightarrow> string + 'a" where
  "required_market_field value key path line_number = (case value of
      None \<Rightarrow> Inl (config_error_prefix path line_number @ ''missing required key '' @ key)
    | Some v \<Rightarrow> Inr v)"

definition symbol_id_from_market_id :: "MarketId \<Rightarrow> string \<Rightarrow> nat \<Rightarrow> string + SymbolId" where
  "symbol_id_from_market_id market_id path line_number =
     (if market_id \<le> 0 \<or> market_id > 2 ^ 32 - 1
      then Inl (config_error_prefix path line_number @ ''market_id must be positive and fit in SymbolId'')
      else Inr (word_of_int market_id))"

section \<open>One market\<close>

record MarketConfigBuilder =
  mb_start_line :: nat
  mb_market_id :: "MarketId option"
  mb_market_name :: "string option"
  mb_input_partition :: "int32 option"
  mb_tick_size :: "int64 option"
  mb_lot_size :: "u64 option"
  mb_min_quantity :: "u64 option"
  mb_max_quantity :: "u64 option"
  mb_min_price :: "int64 option"
  mb_max_price :: "int64 option"
  mb_ring_capacity_ticks :: "u64 option"
  mb_threshold_percentage :: "u64 option"
  mb_initial_base_tick :: "int64 option"
  mb_price_scale :: "u8 option"
  mb_quantity_scale :: "u8 option"
  mb_maker_fee_rate :: "FeeRate option"
  mb_taker_fee_rate :: "FeeRate option"
  mb_trading_enabled :: "bool option"
  mb_keys :: "string list"

definition market_config_builder :: "nat \<Rightarrow> MarketConfigBuilder" where
  "market_config_builder start = \<lparr>mb_start_line = start, mb_market_id = None, mb_market_name = None,
     mb_input_partition = None, mb_tick_size = None, mb_lot_size = None, mb_min_quantity = None,
     mb_max_quantity = None, mb_min_price = None, mb_max_price = None, mb_ring_capacity_ticks = None,
     mb_threshold_percentage = None, mb_initial_base_tick = None, mb_price_scale = None,
     mb_quantity_scale = None, mb_maker_fee_rate = None, mb_taker_fee_rate = None, mb_trading_enabled = None,
     mb_keys = []\<rparr>"

definition validate_loaded_market :: "EngineMarketConfig \<Rightarrow> string \<Rightarrow> nat \<Rightarrow> string + unit" where
  "validate_loaded_market market path line_number =
     (let symbol = mc_symbol_config market; fail = (\<lambda>message. Inl (config_error_prefix path line_number @ message)) in
      if mc_market_id market \<le> 0 then fail ''market_id must be positive''
      else if blank (mc_market_name market) then fail ''market_name must not be empty''
      else if mc_input_partition market < 0 then fail ''input_partition must not be negative''
      else if sc_tickSize symbol \<le> 0 then fail ''tick_size must be positive''
      else if \<not> quantity_is_valid (sc_lotSize symbol) then fail ''lot_size must be positive''
      else if \<not> quantity_is_valid (sc_minQuantity symbol) then fail ''min_quantity must be positive''
      else if sc_maxQuantity symbol < sc_minQuantity symbol then fail ''max_quantity must be >= min_quantity''
      else if \<not> price_is_valid (sc_minPrice symbol) then fail ''min_price must be positive''
      else if sc_maxPrice symbol < sc_minPrice symbol then fail ''max_price must be >= min_price''
      else if sc_ringCapacityTicks symbol = 0 then fail ''ring_capacity_ticks must be positive''
      else Inr ())"

definition assign_market_key :: "string \<Rightarrow> string \<Rightarrow> string \<Rightarrow> nat \<Rightarrow> MarketConfigBuilder \<Rightarrow>
    string + MarketConfigBuilder" where
  "assign_market_key key value path line_number b =
     (if blank key then Inl (config_error_prefix path line_number @ ''key must not be empty'')
      else if blank value then Inl (config_error_prefix path line_number @ key @ '' must not be empty'')
      else if key \<in> set (mb_keys b) then Inl (config_error_prefix path line_number @ ''duplicate key '' @ key)
      else let b = b\<lparr>mb_keys := key # mb_keys b\<rparr>;
               i64_field = parse_integer_field parse_int64 value key path line_number;
               u64_field = parse_integer_field parse_unsigned value key path line_number in
        if key = ''market_id'' then ebind i64_field (\<lambda>v. Inr (b\<lparr>mb_market_id := Some v\<rparr>))
        else if key = ''market_name'' then Inr (b\<lparr>mb_market_name := Some value\<rparr>)
        else if key = ''input_partition''
        then ebind (parse_integer_field parse_int32 value key path line_number) (\<lambda>v. Inr (b\<lparr>mb_input_partition := Some v\<rparr>))
        else if key = ''tick_size'' then ebind i64_field (\<lambda>v. Inr (b\<lparr>mb_tick_size := Some v\<rparr>))
        else if key = ''lot_size'' then ebind u64_field (\<lambda>v. Inr (b\<lparr>mb_lot_size := Some v\<rparr>))
        else if key = ''min_quantity'' then ebind u64_field (\<lambda>v. Inr (b\<lparr>mb_min_quantity := Some v\<rparr>))
        else if key = ''max_quantity'' then ebind u64_field (\<lambda>v. Inr (b\<lparr>mb_max_quantity := Some v\<rparr>))
        else if key = ''min_price'' then ebind i64_field (\<lambda>v. Inr (b\<lparr>mb_min_price := Some v\<rparr>))
        else if key = ''max_price'' then ebind i64_field (\<lambda>v. Inr (b\<lparr>mb_max_price := Some v\<rparr>))
        else if key = ''ring_capacity_ticks'' then ebind u64_field (\<lambda>v. Inr (b\<lparr>mb_ring_capacity_ticks := Some v\<rparr>))
        else if key = ''threshold_percentage'' then ebind u64_field (\<lambda>v. Inr (b\<lparr>mb_threshold_percentage := Some v\<rparr>))
        else if key = ''initial_base_tick'' then ebind i64_field (\<lambda>v. Inr (b\<lparr>mb_initial_base_tick := Some v\<rparr>))
        else if key = ''price_scale''
        then ebind (parse_u8_field value key path line_number) (\<lambda>v. Inr (b\<lparr>mb_price_scale := Some v\<rparr>))
        else if key = ''quantity_scale''
        then ebind (parse_u8_field value key path line_number) (\<lambda>v. Inr (b\<lparr>mb_quantity_scale := Some v\<rparr>))
        else if key = ''maker_fee_rate''
        then ebind (parse_integer_field parse_unsigned value key path line_number) (\<lambda>v. Inr (b\<lparr>mb_maker_fee_rate := Some v\<rparr>))
        else if key = ''taker_fee_rate''
        then ebind (parse_integer_field parse_unsigned value key path line_number) (\<lambda>v. Inr (b\<lparr>mb_taker_fee_rate := Some v\<rparr>))
        else if key = ''trading_enabled''
        then ebind (parse_config_bool value key path line_number) (\<lambda>v. Inr (b\<lparr>mb_trading_enabled := Some v\<rparr>))
        else Inl (config_error_prefix path line_number @ ''unknown key '' @ key))"

definition build_market_config :: "MarketConfigBuilder \<Rightarrow> string \<Rightarrow> string + EngineMarketConfig" where
  "build_market_config b path =
     (let n = mb_start_line b in
      ebind (required_market_field (mb_market_id b) ''market_id'' path n) (\<lambda>market_id.
      ebind (required_market_field (mb_market_name b) ''market_name'' path n) (\<lambda>market_name.
      ebind (required_market_field (mb_input_partition b) ''input_partition'' path n) (\<lambda>input_partition.
      ebind (symbol_id_from_market_id market_id path n) (\<lambda>symbol_id.
      ebind (required_market_field (mb_tick_size b) ''tick_size'' path n) (\<lambda>tick_size.
      ebind (required_market_field (mb_lot_size b) ''lot_size'' path n) (\<lambda>lot_size.
      ebind (required_market_field (mb_min_quantity b) ''min_quantity'' path n) (\<lambda>min_quantity.
      ebind (required_market_field (mb_max_quantity b) ''max_quantity'' path n) (\<lambda>max_quantity.
      ebind (required_market_field (mb_min_price b) ''min_price'' path n) (\<lambda>min_price.
      ebind (required_market_field (mb_max_price b) ''max_price'' path n) (\<lambda>max_price.
      ebind (required_market_field (mb_ring_capacity_ticks b) ''ring_capacity_ticks'' path n) (\<lambda>ring_capacity.
      ebind (required_market_field (mb_threshold_percentage b) ''threshold_percentage'' path n) (\<lambda>threshold.
      ebind (required_market_field (mb_initial_base_tick b) ''initial_base_tick'' path n) (\<lambda>base_tick.
      ebind (required_market_field (mb_price_scale b) ''price_scale'' path n) (\<lambda>price_scale.
      ebind (required_market_field (mb_quantity_scale b) ''quantity_scale'' path n) (\<lambda>quantity_scale.
      ebind (required_market_field (mb_maker_fee_rate b) ''maker_fee_rate'' path n) (\<lambda>maker_fee.
      ebind (required_market_field (mb_taker_fee_rate b) ''taker_fee_rate'' path n) (\<lambda>taker_fee.
      ebind (required_market_field (mb_trading_enabled b) ''trading_enabled'' path n) (\<lambda>trading_enabled.
      let market = \<lparr>mc_market_id = market_id, mc_market_name = market_name, mc_input_partition = input_partition,
            mc_symbol_config = \<lparr>sc_symbolId = symbol_id, sc_baseAssetId = 1, sc_quoteAssetId = 2,
              sc_tickSize = tick_size, sc_lotSize = lot_size, sc_minQuantity = min_quantity,
              sc_maxQuantity = max_quantity, sc_minPrice = min_price, sc_maxPrice = max_price,
              sc_ringCapacityTicks = ring_capacity, sc_thresholdPercentage = threshold,
              sc_initialBaseTick = base_tick, sc_priceScale = price_scale, sc_quantityScale = quantity_scale,
              sc_makerFeeRate = maker_fee, sc_takerFeeRate = taker_fee, sc_tradingEnabled = trading_enabled\<rparr>\<rparr> in
      ebind (validate_loaded_market market path n) (\<lambda>_. Inr market))))))))))))))))))))"

section \<open>The markets file\<close>

text \<open>
  The state of \<open>load_markets_config_file\<close>: the markets so far with the ids, names and partitions they
  use, and the market whose keys are being read.
\<close>

record MarketsLoad =
  ml_markets :: "EngineMarketConfig list"
  ml_market_ids :: "MarketId list"
  ml_market_names :: "string list"
  ml_input_partitions :: "int32 list"
  ml_current_market :: "MarketConfigBuilder option"

definition append_market_config :: "MarketConfigBuilder \<Rightarrow> string \<Rightarrow> MarketsLoad \<Rightarrow> string + MarketsLoad" where
  "append_market_config b path ld =
     (let fail = (\<lambda>message. Inl (config_error_prefix path (mb_start_line b) @ message)) in
      ebind (build_market_config b path) (\<lambda>market.
        if mc_market_id market \<in> set (ml_market_ids ld)
        then fail (''duplicate market_id '' @ to_string (mc_market_id market))
        else if mc_market_name market \<in> set (ml_market_names ld)
        then fail (''duplicate market_name '' @ mc_market_name market)
        else if mc_input_partition market \<in> set (ml_input_partitions ld)
        then fail (''duplicate input_partition '' @ to_string (mc_input_partition market))
        else Inr (ld\<lparr>ml_markets := ml_markets ld @ [market],
          ml_market_ids := mc_market_id market # ml_market_ids ld,
          ml_market_names := mc_market_name market # ml_market_names ld,
          ml_input_partitions := mc_input_partition market # ml_input_partitions ld\<rparr>)))"

definition append_current_market :: "string \<Rightarrow> MarketsLoad \<Rightarrow> string + MarketsLoad" where
  "append_current_market path ld = (case ml_current_market ld of
      None \<Rightarrow> Inr ld
    | Some b \<Rightarrow> append_market_config b path ld)"

text \<open>What \<open>std::getline\<close> returns until the end of the text, without a carriage return at the end of a line.\<close>

definition strip_carriage_return :: "string \<Rightarrow> string" where
  "strip_carriage_return line = (if line \<noteq> [] \<and> last line = carriage_return then butlast line else line)"

function lines_of :: "string \<Rightarrow> string list" where
  "lines_of content =
     (if content = [] then []
      else takeWhile (\<lambda>c. c \<noteq> line_feed) content # lines_of (tl (dropWhile (\<lambda>c. c \<noteq> line_feed) content)))"
  by auto

termination
proof (relation "measure length", simp)
  fix content :: string assume "content \<noteq> []"
  then have "0 < length content" by simp
  then show "(tl (dropWhile (\<lambda>c. c \<noteq> line_feed) content), content) \<in> measure length"
    using length_dropWhile_le [of "\<lambda>c. c \<noteq> line_feed" content] unfolding in_measure length_tl by linarith
qed

declare lines_of.simps [simp del]

text \<open>One turn of the loop, on a line and its number.\<close>

definition load_market_line :: "string \<Rightarrow> nat \<Rightarrow> string \<Rightarrow> MarketsLoad \<Rightarrow> string + MarketsLoad" where
  "load_market_line path line_number line ld =
     (let content = trim (strip_carriage_return line) in
      if content = [] \<or> starts_with content ''#'' then Inr ld
      else if content = ''[[market]]''
      then ebind (append_current_market path ld) (\<lambda>ld.
        Inr (ld\<lparr>ml_current_market := Some (market_config_builder line_number)\<rparr>))
      else (case ml_current_market ld of
          None \<Rightarrow> Inl (config_error_prefix path line_number @ ''expected [[market]] before key/value'')
        | Some b \<Rightarrow>
            if CHR ''='' \<notin> set content
            then Inl (config_error_prefix path line_number @ ''expected key=value'')
            else let key = trim (takeWhile (\<lambda>c. c \<noteq> CHR ''='') content);
                     value = trim (tl (dropWhile (\<lambda>c. c \<noteq> CHR ''='') content)) in
              ebind (assign_market_key key value path line_number b) (\<lambda>b. Inr (ld\<lparr>ml_current_market := Some b\<rparr>))))"

fun load_market_lines :: "string \<Rightarrow> nat \<Rightarrow> string list \<Rightarrow> MarketsLoad \<Rightarrow> string + MarketsLoad" where
  "load_market_lines path line_number [] ld = Inr ld"
| "load_market_lines path line_number (line # ls) ld =
     ebind (load_market_line path (line_number + 1) line ld) (load_market_lines path (line_number + 1) ls)"

definition load_markets_config_file :: "(string \<Rightarrow> string option) \<Rightarrow> string \<Rightarrow> string + EngineMarketConfig list" where
  "load_markets_config_file read_file path = (case read_file path of
      None \<Rightarrow> Inl (''unable to open markets config '' @ [CHR 0x27] @ path @ [CHR 0x27])
    | Some content \<Rightarrow>
        ebind (load_market_lines path 0 (lines_of content) \<lparr>ml_markets = [], ml_market_ids = [],
          ml_market_names = [], ml_input_partitions = [], ml_current_market = None\<rparr>) (\<lambda>ld.
        ebind (append_current_market path ld) (\<lambda>ld.
          if ml_markets ld = []
          then Inl (''markets config '' @ [CHR 0x27] @ path @ [CHR 0x27] @ '' must contain at least one [[market]]'')
          else Inr (ml_markets ld))))"

section \<open>Environment and command line\<close>

text \<open>A variable that is set changes the configuration, after its check.\<close>

definition from_env :: "string option \<Rightarrow> (string \<Rightarrow> EngineAppConfig \<Rightarrow> string + EngineAppConfig) \<Rightarrow> EngineAppConfig \<Rightarrow>
    string + EngineAppConfig" where
  "from_env variable change config = (case variable of None \<Rightarrow> Inr config | Some value \<Rightarrow> change value config)"

definition set_non_blank :: "string \<Rightarrow> (string \<Rightarrow> EngineAppConfig \<Rightarrow> EngineAppConfig) \<Rightarrow> string \<Rightarrow> EngineAppConfig \<Rightarrow>
    string + EngineAppConfig" where
  "set_non_blank name assign value config =
     ebind (require_non_blank value name) (\<lambda>_. Inr (assign value config))"

definition set_s3 :: "(EngineS3CheckpointConfig \<Rightarrow> EngineS3CheckpointConfig) \<Rightarrow> EngineAppConfig \<Rightarrow> EngineAppConfig" where
  "set_s3 change config = config\<lparr>ac_s3_checkpoint := change (ac_s3_checkpoint config)\<rparr>"

definition set_store_kind :: "string \<Rightarrow> string \<Rightarrow> EngineAppConfig \<Rightarrow> string + EngineAppConfig" where
  "set_store_kind name value config =
     ebind (parse_checkpoint_store_kind value name) (\<lambda>kind. Inr (config\<lparr>ac_checkpoint_store := kind\<rparr>))"

definition set_markets :: "(string \<Rightarrow> string option) \<Rightarrow> string \<Rightarrow> string \<Rightarrow> EngineAppConfig \<Rightarrow> string + EngineAppConfig" where
  "set_markets read_file name value config =
     ebind (require_non_blank value name) (\<lambda>_.
     ebind (load_markets_config_file read_file value) (\<lambda>markets. Inr (config\<lparr>ac_markets := markets\<rparr>)))"

definition apply_environment :: "(string \<Rightarrow> string option) \<Rightarrow> EngineAppEnvironment \<Rightarrow> EngineAppConfig \<Rightarrow>
    string + EngineAppConfig" where
  "apply_environment read_file env config =
     ebind (from_env (ae_bootstrap_servers env)
       (set_non_blank ''CEX_ENGINE_BOOTSTRAP_SERVERS'' (\<lambda>v c. c\<lparr>ac_bootstrap_servers := v\<rparr>)) config) (\<lambda>config.
     ebind (from_env (ae_consumer_group_id env)
       (set_non_blank ''CEX_ENGINE_GROUP_ID'' (\<lambda>v c. c\<lparr>ac_consumer_group_id := v\<rparr>)) config) (\<lambda>config.
     ebind (from_env (ae_checkpoint_store env) (set_store_kind ''CEX_ENGINE_CHECKPOINT_STORE'') config) (\<lambda>config.
     ebind (from_env (ae_checkpoint_directory env)
       (set_non_blank ''CEX_ENGINE_CHECKPOINT_DIR'' (\<lambda>v c. c\<lparr>ac_checkpoint_directory := v\<rparr>)) config) (\<lambda>config.
     ebind (from_env (ae_checkpoint_s3_endpoint env)
       (set_non_blank ''CEX_ENGINE_CHECKPOINT_S3_ENDPOINT'' (\<lambda>v. set_s3 (\<lambda>s. s\<lparr>s3_endpoint := v\<rparr>))) config) (\<lambda>config.
     ebind (from_env (ae_checkpoint_s3_bucket env)
       (set_non_blank ''CEX_ENGINE_CHECKPOINT_S3_BUCKET'' (\<lambda>v. set_s3 (\<lambda>s. s\<lparr>s3_bucket := v\<rparr>))) config) (\<lambda>config.
     ebind (from_env (ae_checkpoint_s3_access_key env)
       (set_non_blank ''CEX_ENGINE_CHECKPOINT_S3_ACCESS_KEY'' (\<lambda>v. set_s3 (\<lambda>s. s\<lparr>s3_access_key := v\<rparr>))) config) (\<lambda>config.
     ebind (from_env (ae_checkpoint_s3_secret_key env)
       (set_non_blank ''CEX_ENGINE_CHECKPOINT_S3_SECRET_KEY'' (\<lambda>v. set_s3 (\<lambda>s. s\<lparr>s3_secret_key := v\<rparr>))) config) (\<lambda>config.
     ebind (from_env (ae_checkpoint_s3_region env)
       (set_non_blank ''CEX_ENGINE_CHECKPOINT_S3_REGION'' (\<lambda>v. set_s3 (\<lambda>s. s\<lparr>s3_region := v\<rparr>))) config) (\<lambda>config.
     ebind (from_env (ae_checkpoint_s3_prefix env) (\<lambda>v c. Inr (set_s3 (\<lambda>s. s\<lparr>s3_prefix := v\<rparr>) c)) config) (\<lambda>config.
     ebind (from_env (ae_poll_loop_limit env) (\<lambda>v c. ebind (parse_positive_u64 v ''CEX_ENGINE_POLL_LIMIT'')
       (\<lambda>n. Inr (c\<lparr>ac_poll_loop_limit := Some n\<rparr>))) config) (\<lambda>config.
     from_env (ae_markets_config env) (set_markets read_file ''CEX_ENGINE_MARKETS_CONFIG'') config)))))))))))"

text \<open>The value of an option: after its equals sign, or the next argument.  The result has the arguments left.\<close>

definition is_option :: "string \<Rightarrow> string \<Rightarrow> bool" where
  "is_option arg option_name \<longleftrightarrow> arg = option_name \<or> starts_with arg (option_name @ ''='')"

definition take_option_value :: "string \<Rightarrow> string list \<Rightarrow> string \<Rightarrow> string + (string \<times> string list)" where
  "take_option_value arg args option_name =
     (if starts_with arg (option_name @ ''='') then Inr (drop (length option_name + 1) arg, args)
      else if arg \<noteq> option_name then Inl (''unknown engine_app option: '' @ arg)
      else (case args of
          [] \<Rightarrow> Inl (option_name @ '' requires a value'')
        | value # args \<Rightarrow> Inr (value, args)))"

definition with_option_value :: "string \<Rightarrow> string list \<Rightarrow> string \<Rightarrow>
    (string \<Rightarrow> EngineAppConfig \<Rightarrow> string + EngineAppConfig) \<Rightarrow> EngineAppConfigParseResult \<Rightarrow>
    string + (EngineAppConfigParseResult \<times> string list)" where
  "with_option_value arg args option_name change result =
     ebind (take_option_value arg args option_name) (\<lambda>(value, args).
     ebind (change value (ap_config result)) (\<lambda>config. Inr (result\<lparr>ap_config := config\<rparr>, args)))"

text \<open>One turn of the loop over the arguments.\<close>

definition parse_argument :: "(string \<Rightarrow> string option) \<Rightarrow> string \<Rightarrow> string list \<Rightarrow> EngineAppConfigParseResult \<Rightarrow>
    string + (EngineAppConfigParseResult \<times> string list)" where
  "parse_argument read_file arg args result =
     (let value_of = (\<lambda>option_name change. with_option_value arg args option_name change result) in
      if arg = ''--help'' \<or> arg = ''-h'' then Inr (result\<lparr>ap_help_requested := True\<rparr>, args)
      else if arg = ''--once''
      then Inr (result\<lparr>ap_config := (ap_config result)\<lparr>ac_once := True, ac_poll_loop_limit := Some 1\<rparr>\<rparr>, args)
      else if is_option arg ''--bootstrap-servers''
      then value_of ''--bootstrap-servers'' (set_non_blank ''--bootstrap-servers'' (\<lambda>v c. c\<lparr>ac_bootstrap_servers := v\<rparr>))
      else if is_option arg ''--group-id''
      then value_of ''--group-id'' (set_non_blank ''--group-id'' (\<lambda>v c. c\<lparr>ac_consumer_group_id := v\<rparr>))
      else if is_option arg ''--checkpoint-dir''
      then value_of ''--checkpoint-dir'' (set_non_blank ''--checkpoint-dir'' (\<lambda>v c. c\<lparr>ac_checkpoint_directory := v\<rparr>))
      else if is_option arg ''--checkpoint-store''
      then value_of ''--checkpoint-store'' (set_store_kind ''--checkpoint-store'')
      else if is_option arg ''--checkpoint-s3-endpoint''
      then value_of ''--checkpoint-s3-endpoint''
        (set_non_blank ''--checkpoint-s3-endpoint'' (\<lambda>v. set_s3 (\<lambda>s. s\<lparr>s3_endpoint := v\<rparr>)))
      else if is_option arg ''--checkpoint-s3-bucket''
      then value_of ''--checkpoint-s3-bucket''
        (set_non_blank ''--checkpoint-s3-bucket'' (\<lambda>v. set_s3 (\<lambda>s. s\<lparr>s3_bucket := v\<rparr>)))
      else if is_option arg ''--checkpoint-s3-access-key''
      then value_of ''--checkpoint-s3-access-key''
        (set_non_blank ''--checkpoint-s3-access-key'' (\<lambda>v. set_s3 (\<lambda>s. s\<lparr>s3_access_key := v\<rparr>)))
      else if is_option arg ''--checkpoint-s3-secret-key''
      then value_of ''--checkpoint-s3-secret-key''
        (set_non_blank ''--checkpoint-s3-secret-key'' (\<lambda>v. set_s3 (\<lambda>s. s\<lparr>s3_secret_key := v\<rparr>)))
      else if is_option arg ''--checkpoint-s3-region''
      then value_of ''--checkpoint-s3-region''
        (set_non_blank ''--checkpoint-s3-region'' (\<lambda>v. set_s3 (\<lambda>s. s\<lparr>s3_region := v\<rparr>)))
      else if is_option arg ''--checkpoint-s3-prefix''
      then value_of ''--checkpoint-s3-prefix'' (\<lambda>v c. Inr (set_s3 (\<lambda>s. s\<lparr>s3_prefix := v\<rparr>) c))
      else if is_option arg ''--markets-config''
      then value_of ''--markets-config'' (set_markets read_file ''--markets-config'')
      else if is_option arg ''--poll-limit''
      then value_of ''--poll-limit'' (\<lambda>v c. ebind (parse_positive_u64 v ''--poll-limit'')
        (\<lambda>n. Inr (c\<lparr>ac_poll_loop_limit := Some n, ac_once := (n = 1)\<rparr>)))
      else Inl (''unknown engine_app option: '' @ arg))"

lemma take_option_value_length:
  "take_option_value arg args option_name = Inr (value, args') \<Longrightarrow> length args' \<le> length args"
  by (auto simp: take_option_value_def split: if_splits list.splits)

lemma parse_argument_length:
  "parse_argument read_file arg args result = Inr (result', args') \<Longrightarrow> length args' \<le> length args"
  by (auto simp: parse_argument_def Let_def with_option_value_def ebind_Inr_iff dest: take_option_value_length
      split: if_splits)

function parse_arguments :: "(string \<Rightarrow> string option) \<Rightarrow> string list \<Rightarrow> EngineAppConfigParseResult \<Rightarrow>
    string + EngineAppConfigParseResult" where
  "parse_arguments read_file [] result = Inr result"
| "parse_arguments read_file (arg # args) result =
     ebind (parse_argument read_file arg args result) (\<lambda>(result, args). parse_arguments read_file args result)"
  by pat_completeness auto

termination
  by (relation "measure (\<lambda>(_, args, _). length args)") (auto dest!: parse_argument_length)

definition parse_engine_app_config :: "(string \<Rightarrow> string option) \<Rightarrow> string list \<Rightarrow> EngineAppEnvironment \<Rightarrow>
    string + EngineAppConfigParseResult" where
  "parse_engine_app_config read_file args env =
     ebind (apply_environment read_file env default_engine_app_config) (\<lambda>config.
       parse_arguments read_file args \<lparr>ap_config = config, ap_help_requested = False\<rparr>)"

section \<open>What an accepted configuration promises\<close>

definition config_market_ok :: "EngineMarketConfig \<Rightarrow> bool" where
  "config_market_ok m \<longleftrightarrow> (let symbol = mc_symbol_config m in
     0 < mc_market_id m \<and> mc_market_id m < 2 ^ 32 \<and> sc_symbolId symbol = word_of_int (mc_market_id m) \<and>
     \<not> blank (mc_market_name m) \<and> 0 \<le> mc_input_partition m \<and> in_i32 (mc_input_partition m) \<and>
     0 < sc_tickSize symbol \<and> 0 < sc_lotSize symbol \<and> 0 < sc_minQuantity symbol \<and>
     sc_minQuantity symbol \<le> sc_maxQuantity symbol \<and> 0 < sc_minPrice symbol \<and>
     sc_minPrice symbol \<le> sc_maxPrice symbol \<and> sc_ringCapacityTicks symbol \<noteq> 0)"

definition config_markets_ok :: "EngineMarketConfig list \<Rightarrow> bool" where
  "config_markets_ok ms \<longleftrightarrow> ms \<noteq> [] \<and> list_all config_market_ok ms \<and> distinct (map mc_market_id ms) \<and>
     distinct (map mc_market_name ms) \<and> distinct (map mc_input_partition ms)"

lemma required_Inr [simp]: "required_market_field v key path n = Inr x \<longleftrightarrow> v = Some x"
  by (auto simp: required_market_field_def split: option.splits)

lemma validate_loaded_marketD:
  assumes "validate_loaded_market m path n = Inr u"
  shows "0 < mc_market_id m" "\<not> blank (mc_market_name m)" "0 \<le> mc_input_partition m"
    "0 < sc_tickSize (mc_symbol_config m)" "0 < sc_lotSize (mc_symbol_config m)"
    "0 < sc_minQuantity (mc_symbol_config m)" "sc_minQuantity (mc_symbol_config m) \<le> sc_maxQuantity (mc_symbol_config m)"
    "0 < sc_minPrice (mc_symbol_config m)" "sc_minPrice (mc_symbol_config m) \<le> sc_maxPrice (mc_symbol_config m)"
    "sc_ringCapacityTicks (mc_symbol_config m) \<noteq> 0"
  using assms by (auto simp: validate_loaded_market_def Let_def quantity_is_valid_def price_is_valid_def split: if_splits)

definition builder_in_range :: "MarketConfigBuilder \<Rightarrow> bool" where
  "builder_in_range b \<longleftrightarrow> (\<forall>p. mb_input_partition b = Some p \<longrightarrow> in_i32 p)"

lemma build_market_config_ok:
  assumes "build_market_config b path = Inr m" "builder_in_range b"
  shows "config_market_ok m"
proof -
  have valid: "validate_loaded_market m path (mb_start_line b) = Inr ()"
    and symbol: "symbol_id_from_market_id (mc_market_id m) path (mb_start_line b) = Inr (sc_symbolId (mc_symbol_config m))"
    and part: "mb_input_partition b = Some (mc_input_partition m)"
    using assms(1) by (auto simp: build_market_config_def Let_def ebind_Inr_iff)
  show ?thesis
    using validate_loaded_marketD [OF valid] symbol part assms(2)
    by (auto simp: config_market_ok_def Let_def symbol_id_from_market_id_def builder_in_range_def split: if_splits)
qed

lemma assign_market_key_in_range:
  assumes "assign_market_key key value path n b = Inr b'" "builder_in_range b"
  shows "builder_in_range b'"
proof -
  have int32: "in_i32 v" if "parse_integer_field parse_int32 value key path n = Inr v" for v
    using that by (auto simp: parse_integer_field_def parse_signed_def in_i32_def Let_def split: sum.splits if_splits)
  show ?thesis
  proof (cases "key = ''input_partition''")
    case True
    then show ?thesis using assms int32
      by (auto simp: assign_market_key_def Let_def ebind_Inr_iff builder_in_range_def split: if_splits)
  next
    case False
    then have "mb_input_partition b' = mb_input_partition b"
      using assms(1) by (auto simp: assign_market_key_def Let_def ebind_Inr_iff split: if_splits)
    then show ?thesis using assms(2) by (simp add: builder_in_range_def)
  qed
qed

definition markets_load_ok :: "MarketsLoad \<Rightarrow> bool" where
  "markets_load_ok ld \<longleftrightarrow> list_all config_market_ok (ml_markets ld) \<and>
     distinct (map mc_market_id (ml_markets ld)) \<and> distinct (map mc_market_name (ml_markets ld)) \<and>
     distinct (map mc_input_partition (ml_markets ld)) \<and>
     set (ml_market_ids ld) = mc_market_id ` set (ml_markets ld) \<and>
     set (ml_market_names ld) = mc_market_name ` set (ml_markets ld) \<and>
     set (ml_input_partitions ld) = mc_input_partition ` set (ml_markets ld) \<and>
     (\<forall>b. ml_current_market ld = Some b \<longrightarrow> builder_in_range b)"

lemma append_current_market_ok:
  "append_current_market path ld = Inr ld' \<Longrightarrow> markets_load_ok ld \<Longrightarrow> markets_load_ok ld'"
  by (auto simp: append_current_market_def append_market_config_def Let_def ebind_Inr_iff markets_load_ok_def
      dest: build_market_config_ok split: option.splits if_splits)

lemma load_market_line_ok:
  "load_market_line path n line ld = Inr ld' \<Longrightarrow> markets_load_ok ld \<Longrightarrow> markets_load_ok ld'"
proof -
  assume run: "load_market_line path n line ld = Inr ld'" and ok: "markets_load_ok ld"
  have current: "markets_load_ok (ld1\<lparr>ml_current_market := Some b\<rparr>)" if "markets_load_ok ld1" "builder_in_range b" for ld1 b
    using that by (simp add: markets_load_ok_def)
  have fresh: "builder_in_range (market_config_builder n)" by (simp add: builder_in_range_def market_config_builder_def)
  have builder: "builder_in_range b" if "ml_current_market ld = Some b" for b
    using ok that by (simp add: markets_load_ok_def)
  show ?thesis
    using run ok append_current_market_ok [of path ld] fresh builder
    by (auto simp: load_market_line_def Let_def ebind_Inr_iff intro!: current
        dest: assign_market_key_in_range split: if_splits option.splits)
qed

lemma load_market_lines_ok:
  "load_market_lines path n ls ld = Inr ld' \<Longrightarrow> markets_load_ok ld \<Longrightarrow> markets_load_ok ld'"
  by (induction ls arbitrary: n ld) (auto simp: ebind_Inr_iff dest: load_market_line_ok)

lemma load_markets_config_file_ok: "load_markets_config_file read_file path = Inr ms \<Longrightarrow> config_markets_ok ms"
proof -
  assume run: "load_markets_config_file read_file path = Inr ms"
  let ?start = "\<lparr>ml_markets = [], ml_market_ids = [], ml_market_names = [], ml_input_partitions = [],
    ml_current_market = None\<rparr>"
  obtain content ld ld' where parts: "load_market_lines path 0 (lines_of content) ?start = Inr ld"
      "append_current_market path ld = Inr ld'" "ms = ml_markets ld'" "ms \<noteq> []"
    using run by (auto simp: load_markets_config_file_def ebind_Inr_iff split: option.splits if_splits)
  have "markets_load_ok ?start" by (simp add: markets_load_ok_def)
  then have "markets_load_ok ld'" using load_market_lines_ok parts(1) append_current_market_ok parts(2) by blast
  then show ?thesis using parts(3,4) by (simp add: config_markets_ok_def markets_load_ok_def)
qed

lemma default_markets_ok: "config_markets_ok (ac_markets default_engine_app_config)"
  by (simp add: config_markets_ok_def default_engine_app_config_def default_sol_perp_market_config_def
      config_market_ok_def Let_def blank_def is_space_char_def in_i32_def)

text \<open>
  A property of configurations that every change of \<open>parse_engine_app_config\<close> keeps holds of the result;
  a change may count on the check made before it.
\<close>

definition keeps_config :: "(EngineAppConfig \<Rightarrow> bool) \<Rightarrow> (string \<Rightarrow> EngineAppConfig \<Rightarrow> string + EngineAppConfig) \<Rightarrow> bool" where
  "keeps_config ok change \<longleftrightarrow> (\<forall>value config config'. change value config = Inr config' \<longrightarrow> ok config \<longrightarrow> ok config')"

locale config_invariant =
  fixes ok :: "EngineAppConfig \<Rightarrow> bool"
  assumes default_ok: "ok default_engine_app_config"
    and servers_ok: "\<not> blank v \<Longrightarrow> ok c \<Longrightarrow> ok (c\<lparr>ac_bootstrap_servers := v\<rparr>)"
    and group_ok: "\<not> blank v \<Longrightarrow> ok c \<Longrightarrow> ok (c\<lparr>ac_consumer_group_id := v\<rparr>)"
    and store_ok: "ok c \<Longrightarrow> ok (c\<lparr>ac_checkpoint_store := kind\<rparr>)"
    and directory_ok: "\<not> blank v \<Longrightarrow> ok c \<Longrightarrow> ok (c\<lparr>ac_checkpoint_directory := v\<rparr>)"
    and s3_ok: "ok c \<Longrightarrow> ok (c\<lparr>ac_s3_checkpoint := s3\<rparr>)"
    and limit_ok: "ok c \<Longrightarrow> ok (c\<lparr>ac_poll_loop_limit := n\<rparr>)"
    and once_ok: "ok c \<Longrightarrow> ok (c\<lparr>ac_once := b\<rparr>)"
    and markets_ok: "config_markets_ok ms \<Longrightarrow> ok c \<Longrightarrow> ok (c\<lparr>ac_markets := ms\<rparr>)"
begin

lemma keeps_set_non_blank:
  "(\<And>v c. \<not> blank v \<Longrightarrow> ok c \<Longrightarrow> ok (assign v c)) \<Longrightarrow> keeps_config ok (set_non_blank name assign)"
  by (auto simp: keeps_config_def set_non_blank_def require_non_blank_def require_def ebind_Inr_iff split: if_splits)

lemma keeps_others:
  "keeps_config ok (set_store_kind name)" "keeps_config ok (set_markets read_file name)"
  "keeps_config ok (\<lambda>v c. Inr (set_s3 (f v) c))"
  "keeps_config ok (\<lambda>v c. ebind (parse_positive_u64 v name) (\<lambda>n. Inr (c\<lparr>ac_poll_loop_limit := Some n\<rparr>)))"
  "keeps_config ok (\<lambda>v c. ebind (parse_positive_u64 v name) (\<lambda>n. Inr (c\<lparr>ac_poll_loop_limit := Some n, ac_once := (n = 1)\<rparr>)))"
  by (auto simp: keeps_config_def set_store_kind_def set_markets_def set_s3_def ebind_Inr_iff
      intro: store_ok markets_ok s3_ok limit_ok once_ok dest: load_markets_config_file_ok)

lemma keeps_assigned:
  "keeps_config ok (set_non_blank name (\<lambda>v c. c\<lparr>ac_bootstrap_servers := v\<rparr>))"
  "keeps_config ok (set_non_blank name (\<lambda>v c. c\<lparr>ac_consumer_group_id := v\<rparr>))"
  "keeps_config ok (set_non_blank name (\<lambda>v c. c\<lparr>ac_checkpoint_directory := v\<rparr>))"
  "keeps_config ok (set_non_blank name (\<lambda>v. set_s3 (f v)))"
  by (auto intro!: keeps_set_non_blank intro: servers_ok group_ok directory_ok s3_ok simp: set_s3_def)

lemma from_env_ok:
  "from_env variable change config = Inr config' \<Longrightarrow> keeps_config ok change \<Longrightarrow> ok config \<Longrightarrow> ok config'"
  by (auto simp: from_env_def keeps_config_def split: option.splits)

lemma apply_environment_ok: "apply_environment read_file env config = Inr config' \<Longrightarrow> ok config \<Longrightarrow> ok config'"
  unfolding apply_environment_def ebind_Inr_iff
  by (elim exE conjE) (drule from_env_ok, (simp_all add: keeps_assigned keeps_others)[2])+

lemma parse_argument_ok:
  assumes "parse_argument read_file arg args result = Inr (result', args')" "ok (ap_config result)"
  shows "ok (ap_config result')"
proof -
  have changed: "ok (ap_config result')"
    if "with_option_value arg args name change result = Inr (result', args')" "keeps_config ok change" for name change
    using that assms(2) by (auto simp: with_option_value_def ebind_Inr_iff keeps_config_def)
  have once: "ok ((ap_config result)\<lparr>ac_once := True, ac_poll_loop_limit := Some 1\<rparr>)"
    by (intro limit_ok once_ok assms(2))
  show ?thesis
    using assms changed once by (auto simp: parse_argument_def Let_def keeps_assigned keeps_others split: if_splits)
qed

lemma parse_arguments_ok:
  "parse_arguments read_file args result = Inr result' \<Longrightarrow> ok (ap_config result) \<Longrightarrow> ok (ap_config result')"
proof (induction read_file args result rule: parse_arguments.induct)
  case (2 read_file arg args result)
  then obtain result1 args1 where step: "parse_argument read_file arg args result = Inr (result1, args1)"
      "parse_arguments read_file args1 result1 = Inr result'"
    by (auto simp: ebind_Inr_iff)
  show ?case using "2.IH" [OF step(1) refl step(2)] parse_argument_ok [OF step(1) "2.prems"(2)] by blast
qed simp

lemma parse_ok: "parse_engine_app_config read_file args env = Inr result \<Longrightarrow> ok (ap_config result)"
  using apply_environment_ok [of read_file env default_engine_app_config] default_ok
  by (auto simp: parse_engine_app_config_def ebind_Inr_iff dest!: parse_arguments_ok)

end

interpretation config_markets: config_invariant "\<lambda>c. config_markets_ok (ac_markets c)"
  by unfold_locales (simp_all add: default_markets_ok)

text \<open>What the broker clients need: servers, a group, and the topics that nothing changes.\<close>

definition config_brokers_ok :: "EngineAppConfig \<Rightarrow> bool" where
  "config_brokers_ok c \<longleftrightarrow> \<not> blank (ac_bootstrap_servers c) \<and> \<not> blank (ac_consumer_group_id c) \<and>
     ac_input_topic c = EngineInputTopic"

interpretation config_brokers: config_invariant config_brokers_ok
  by unfold_locales (simp_all add: config_brokers_ok_def default_engine_app_config_def blank_def is_space_char_def)

end
