(* ===== verification/RdKafka.thy ===== *)
theory RdKafka
  imports BrokerApp AppConfig
begin

text \<open>
  The broker of the process: consumer, producer and committer on librdkafka
  (\<^verbatim>\<open>src/src/broker/rdkafka/RdKafkaEngineBroker.cpp\<close>).  The library is a parameter: a record of the calls
  the code makes, on the state of the outside world.
\<close>

section \<open>The library\<close>

text \<open>Error codes; the code tells two of them from the rest.\<close>

datatype KafkaCode = ErrNoError | ErrTimedOut | ErrOther int

record KafkaMessage =
  km_err :: KafkaCode
  km_errstr :: string
  km_topic :: string
  km_partition :: int32
  km_offset :: int64
  km_key :: "string option"
  km_payload :: "string option"

type_synonym KafkaPartition = "string \<times> int32 \<times> int64"

text \<open>
  The objects of the library: a configuration under construction of type \<open>'c\<close>, one consumer and one
  producer.  \<open>rk_partition\<close> tells whether \<open>TopicPartition::create\<close> succeeds; \<open>commitSync\<close> answers for the
  call and for the partition; \<open>flush\<close> answers with the delivery reports it served.
\<close>

record ('c, 'w) KafkaLibrary =
  rk_conf_create :: 'c
  rk_conf_set :: "'c \<Rightarrow> string \<Rightarrow> string \<Rightarrow> string + 'c"
  rk_conf_set_dr_cb :: "'c \<Rightarrow> string + 'c"
  rk_err2str :: "KafkaCode \<Rightarrow> string"
  rk_version :: string
  rk_create_consumer :: "'c \<Rightarrow> (unit, 'w) effect"
  rk_create_producer :: "'c \<Rightarrow> (unit, 'w) effect"
  rk_partition :: "KafkaPartition \<Rightarrow> bool"
  rk_assign :: "KafkaPartition list \<Rightarrow> 'w \<Rightarrow> KafkaCode \<times> 'w"
  rk_subscribe :: "string list \<Rightarrow> 'w \<Rightarrow> KafkaCode \<times> 'w"
  rk_unsubscribe :: "'w \<Rightarrow> KafkaCode \<times> 'w"
  rk_close :: "'w \<Rightarrow> 'w"
  rk_consume :: "int32 \<Rightarrow> 'w \<Rightarrow> KafkaMessage option \<times> 'w"
  rk_query_watermark_offsets :: "string \<Rightarrow> int32 \<Rightarrow> int32 \<Rightarrow> 'w \<Rightarrow> (KafkaCode \<times> int64 \<times> int64) \<times> 'w"
  rk_commit_sync :: "KafkaPartition \<Rightarrow> 'w \<Rightarrow> (KafkaCode \<times> KafkaCode) \<times> 'w"
  rk_produce :: "string \<Rightarrow> int32 option \<Rightarrow> string option \<Rightarrow> string option \<Rightarrow> 'w \<Rightarrow> KafkaCode \<times> 'w"
  rk_flush :: "int32 \<Rightarrow> 'w \<Rightarrow> (KafkaCode \<times> KafkaMessage list) \<times> 'w"

definition rdkafka_runtime_version :: "('c, 'w) KafkaLibrary \<Rightarrow> string" where
  "rdkafka_runtime_version lib = rk_version lib"

section \<open>Configuration\<close>

type_synonym milliseconds = int64

record RdKafkaAssignedPartition =
  ka_topic :: string
  ka_partition :: int32
  ka_offset :: int64

record RdKafkaConsumerConfig =
  kc_bootstrap_servers :: string
  kc_group_id :: string
  kc_topics :: "string list"
  kc_assigned_partitions :: "RdKafkaAssignedPartition list"
  kc_poll_timeout :: milliseconds
  kc_seek_timeout :: milliseconds
  kc_watermark_timeout :: milliseconds
  kc_client_id :: string
  kc_properties :: "(string \<times> string) list"

record RdKafkaProducerConfig =
  kp_bootstrap_servers :: string
  kp_client_id :: string
  kp_flush_timeout :: milliseconds
  kp_properties :: "(string \<times> string) list"

record RdKafkaOffsetCommitterConfig =
  ko_bootstrap_servers :: string
  ko_group_id :: string
  ko_client_id :: string
  ko_properties :: "(string \<times> string) list"

definition validate_properties :: "(string \<times> string) list \<Rightarrow> string option" where
  "validate_properties properties =
     (if list_ex (\<lambda>(name, _). blank name) properties then Some ''librdkafka property name must not be empty'' else None)"

definition validate_bootstrap :: "string \<Rightarrow> string option" where
  "validate_bootstrap bootstrap_servers =
     (if blank bootstrap_servers then Some ''bootstrap_servers must not be empty'' else None)"

definition validate_group_id :: "string \<Rightarrow> string option" where
  "validate_group_id group_id = (if blank group_id then Some ''group_id must not be empty'' else None)"

definition validate_timeout :: "milliseconds \<Rightarrow> string \<Rightarrow> string option" where
  "validate_timeout timeout name =
     (if timeout < 0 then Some (name @ '' must not be negative'')
      else if timeout > 2 ^ 31 - 1 then Some (name @ '' must fit in a 32-bit millisecond value'')
      else None)"

text \<open>The first error that there is.\<close>

fun first_error :: "string option list \<Rightarrow> string option" where
  "first_error [] = None"
| "first_error (Some e # checks) = Some e"
| "first_error (None # checks) = first_error checks"

definition validate_common :: "string \<Rightarrow> (string \<times> string) list \<Rightarrow> string option" where
  "validate_common bootstrap_servers properties =
     first_error [validate_bootstrap bootstrap_servers, validate_properties properties]"

text \<open>The loop over the assigned partitions; \<open>assigned\<close> are the partitions before.\<close>

fun validate_assigned :: "(string \<times> int32) set \<Rightarrow> RdKafkaAssignedPartition list \<Rightarrow> string option" where
  "validate_assigned assigned [] = None"
| "validate_assigned assigned (p # ps) =
     (if blank (ka_topic p) then Some ''assigned partition topic must not be empty''
      else if ka_partition p < 0 then Some ''assigned partition must not be negative''
      else if ka_offset p < 0 then Some ''assigned partition offset must not be negative''
      else if (ka_topic p, ka_partition p) \<in> assigned then Some ''assigned partitions must not contain duplicates''
      else validate_assigned (insert (ka_topic p, ka_partition p) assigned) ps)"

definition validate_consumer_config :: "RdKafkaConsumerConfig \<Rightarrow> string option" where
  "validate_consumer_config config = first_error
     [validate_common (kc_bootstrap_servers config) (kc_properties config),
      validate_group_id (kc_group_id config),
      (if kc_topics config = [] \<and> kc_assigned_partitions config = []
       then Some ''topics or assigned_partitions must not be empty'' else None),
      (if list_ex blank (kc_topics config) then Some ''topic names must not be empty'' else None),
      validate_assigned {} (kc_assigned_partitions config),
      validate_timeout (kc_poll_timeout config) ''poll_timeout'',
      validate_timeout (kc_seek_timeout config) ''seek_timeout'',
      validate_timeout (kc_watermark_timeout config) ''watermark_timeout'']"

definition validate_producer_config :: "RdKafkaProducerConfig \<Rightarrow> string option" where
  "validate_producer_config config = first_error
     [validate_common (kp_bootstrap_servers config) (kp_properties config),
      validate_timeout (kp_flush_timeout config) ''flush_timeout'']"

definition validate_committer_config :: "RdKafkaOffsetCommitterConfig \<Rightarrow> string option" where
  "validate_committer_config config = first_error
     [validate_common (ko_bootstrap_servers config) (ko_properties config), validate_group_id (ko_group_id config)]"

definition set_conf :: "('c, 'w) KafkaLibrary \<Rightarrow> string \<Rightarrow> string \<Rightarrow> 'c \<Rightarrow> string + 'c" where
  "set_conf lib name value conf = (case rk_conf_set lib conf name value of
      Inl errstr \<Rightarrow> Inl (''invalid librdkafka config '' @ [CHR 0x27] @ name @ [CHR 0x27] @ '': '' @ errstr)
    | Inr conf \<Rightarrow> Inr conf)"

definition set_dr_cb :: "('c, 'w) KafkaLibrary \<Rightarrow> 'c \<Rightarrow> string + 'c" where
  "set_dr_cb lib conf = (case rk_conf_set_dr_cb lib conf of
      Inl errstr \<Rightarrow> Inl (''invalid librdkafka callback config '' @ [CHR 0x27] @ ''dr_cb'' @ [CHR 0x27] @ '': '' @ errstr)
    | Inr conf \<Rightarrow> Inr conf)"

fun apply_properties :: "('c, 'w) KafkaLibrary \<Rightarrow> (string \<times> string) list \<Rightarrow> 'c \<Rightarrow> string + 'c" where
  "apply_properties lib [] conf = Inr conf"
| "apply_properties lib ((name, value) # properties) conf =
     ebind (set_conf lib name value conf) (apply_properties lib properties)"

definition create_consumer_conf :: "('c, 'w) KafkaLibrary \<Rightarrow> RdKafkaConsumerConfig \<Rightarrow> string + 'c" where
  "create_consumer_conf lib config =
     ebind (set_conf lib ''bootstrap.servers'' (kc_bootstrap_servers config) (rk_conf_create lib)) (\<lambda>conf.
     ebind (set_conf lib ''group.id'' (kc_group_id config) conf) (\<lambda>conf.
     ebind (set_conf lib ''client.id'' (kc_client_id config) conf) (\<lambda>conf.
     ebind (set_conf lib ''enable.auto.commit'' ''false'' conf) (\<lambda>conf.
     ebind (set_conf lib ''auto.offset.reset'' ''earliest'' conf) (\<lambda>conf.
     apply_properties lib (kc_properties config) conf)))))"

definition create_committer_conf :: "('c, 'w) KafkaLibrary \<Rightarrow> RdKafkaOffsetCommitterConfig \<Rightarrow> string + 'c" where
  "create_committer_conf lib config =
     ebind (set_conf lib ''bootstrap.servers'' (ko_bootstrap_servers config) (rk_conf_create lib)) (\<lambda>conf.
     ebind (set_conf lib ''group.id'' (ko_group_id config) conf) (\<lambda>conf.
     ebind (set_conf lib ''client.id'' (ko_client_id config) conf) (\<lambda>conf.
     ebind (set_conf lib ''enable.auto.commit'' ''false'' conf) (\<lambda>conf.
     apply_properties lib (ko_properties config) conf))))"

definition create_producer_conf :: "('c, 'w) KafkaLibrary \<Rightarrow> RdKafkaProducerConfig \<Rightarrow> string + 'c" where
  "create_producer_conf lib config =
     ebind (set_conf lib ''bootstrap.servers'' (kp_bootstrap_servers config) (rk_conf_create lib)) (\<lambda>conf.
     ebind (set_conf lib ''client.id'' (kp_client_id config) conf) (\<lambda>conf.
     ebind (set_dr_cb lib conf) (\<lambda>conf.
     apply_properties lib (kp_properties config) conf)))"

section \<open>Checks of requests\<close>

definition validate_partition_request :: "string \<Rightarrow> int32 \<Rightarrow> string option" where
  "validate_partition_request topic part =
     (if blank topic then Some ''topic must not be empty''
      else if part < 0 then Some ''partition must not be negative'' else None)"

definition validate_seek_request :: "string \<Rightarrow> int32 \<Rightarrow> int64 \<Rightarrow> string option" where
  "validate_seek_request topic part offset = first_error
     [validate_partition_request topic part, if offset < 0 then Some ''offset must not be negative'' else None]"

definition validate_watermark_offsets :: "string \<Rightarrow> int32 \<Rightarrow> BrokerWatermarkOffsets \<Rightarrow> string option" where
  "validate_watermark_offsets topic part watermark =
     (if wm_low watermark < 0 \<or> wm_high watermark < 0 \<or> wm_low watermark > wm_high watermark
      then Some (''invalid broker watermark for '' @ source_text topic part @ '': low='' @ to_string (wm_low watermark) @
        '', high='' @ to_string (wm_high watermark))
      else None)"

definition validate_produce_request :: "ProducedRecord \<Rightarrow> string option" where
  "validate_produce_request req =
     (if blank (pd_topic req) then Some ''topic must not be empty''
      else if (case pd_partition req of Some p \<Rightarrow> p < 0 | None \<Rightarrow> False) then Some ''partition must not be negative''
      else None)"

definition validate_commit_request :: "OffsetCommitRequest \<Rightarrow> string option" where
  "validate_commit_request req =
     (if blank (oc_topic req) then Some ''topic must not be empty''
      else if oc_partition req < 0 then Some ''partition must not be negative''
      else if oc_offset req < 0 then Some ''offset must not be negative''
      else if oc_offset req = 2 ^ 63 - 1 then Some ''offset is too large to commit'' else None)"

text \<open>\<open>static_cast\<close> to \<open>int\<close>.\<close>

definition to_timeout_ms :: "milliseconds \<Rightarrow> int32" where
  "to_timeout_ms timeout = signed_take_bit 31 timeout"

definition describe_message_error :: "('c, 'w) KafkaLibrary \<Rightarrow> KafkaMessage \<Rightarrow> string" where
  "describe_message_error lib m = (if km_errstr m \<noteq> [] then km_errstr m else rk_err2str lib (km_err m))"

section \<open>The consumer\<close>

record RdKafkaEngineInputConsumer =
  ki_poll_timeout :: milliseconds
  ki_seek_timeout :: milliseconds
  ki_watermark_timeout :: milliseconds
  ki_statically_assigned :: bool

fun intercalate :: "string list \<Rightarrow> string" where
  "intercalate [] = []"
| "intercalate [x] = x"
| "intercalate (x # xs) = x @ '','' @ intercalate xs"

definition join_topics :: "string list \<Rightarrow> string" where
  "join_topics topics = intercalate topics"

definition join_partitions :: "RdKafkaAssignedPartition list \<Rightarrow> string" where
  "join_partitions ps = intercalate (map (\<lambda>p. source_text (ka_topic p) (ka_partition p) @ ''@'' @ to_string (ka_offset p)) ps)"

definition kafka_partition :: "RdKafkaAssignedPartition \<Rightarrow> KafkaPartition" where
  "kafka_partition p = (ka_topic p, ka_partition p, ka_offset p)"

text \<open>Assigning or subscribing a consumer that was just created.\<close>

definition start_consumer :: "('c, 'w) KafkaLibrary \<Rightarrow> RdKafkaConsumerConfig \<Rightarrow> (unit, 'w) effect" where
  "start_consumer lib config w =
     (let ps = kc_assigned_partitions config in
      if ps \<noteq> [] then
        (if \<not> list_all (rk_partition lib \<circ> kafka_partition) ps
         then (Inl ''failed to create rdkafka topic partition for assignment'', rk_close lib w)
         else (case rk_assign lib (map kafka_partition ps) w of
             (ErrNoError, w) \<Rightarrow> (Inr (), w)
           | (code, w) \<Rightarrow> (Inl (''failed to assign rdkafka consumer to '' @ join_partitions ps @ '': '' @ rk_err2str lib code),
               rk_close lib w)))
      else (case rk_subscribe lib (kc_topics config) w of
          (ErrNoError, w) \<Rightarrow> (Inr (), w)
        | (code, w) \<Rightarrow> (Inl (''failed to subscribe rdkafka consumer to '' @ join_topics (kc_topics config) @ '': '' @
            rk_err2str lib code), rk_close lib w)))"

definition make_consumer :: "('c, 'w) KafkaLibrary \<Rightarrow> RdKafkaConsumerConfig \<Rightarrow> (RdKafkaEngineInputConsumer, 'w) effect" where
  "make_consumer lib config w =
     (case validate_consumer_config config of
        Some e \<Rightarrow> (Inl (''invalid rdkafka consumer config: '' @ e), w)
      | None \<Rightarrow> (case create_consumer_conf lib config of
          Inl e \<Rightarrow> (Inl e, w)
        | Inr conf \<Rightarrow> (case rk_create_consumer lib conf w of
            (Inl errstr, w) \<Rightarrow> (Inl (''failed to create rdkafka consumer: '' @ errstr), w)
          | (Inr _, w) \<Rightarrow> (case start_consumer lib config w of
              (Inl e, w) \<Rightarrow> (Inl e, w)
            | (Inr _, w) \<Rightarrow> (Inr \<lparr>ki_poll_timeout = kc_poll_timeout config, ki_seek_timeout = kc_seek_timeout config,
                ki_watermark_timeout = kc_watermark_timeout config,
                ki_statically_assigned = (kc_assigned_partitions config \<noteq> [])\<rparr>, w)))))"

definition consumed_record :: "KafkaMessage \<Rightarrow> ConsumedRecord" where
  "consumed_record m = \<lparr>cr_topic = km_topic m, cr_partition = km_partition m, cr_offset = km_offset m,
     cr_key = km_key m, cr_value = (case km_payload m of Some bytes \<Rightarrow> bytes | None \<Rightarrow> [])\<rparr>"

definition rdkafka_poll :: "('c, 'w) KafkaLibrary \<Rightarrow> RdKafkaEngineInputConsumer \<Rightarrow> (ConsumedRecord option, 'w) effect" where
  "rdkafka_poll lib consumer w = (case rk_consume lib (to_timeout_ms (ki_poll_timeout consumer)) w of
      (None, w) \<Rightarrow> (Inr None, w)
    | (Some m, w) \<Rightarrow>
        if km_err m = ErrTimedOut then (Inr None, w)
        else if km_err m \<noteq> ErrNoError then (Inl (''rdkafka consumer error: '' @ describe_message_error lib m), w)
        else (Inr (Some (consumed_record m)), w))"

definition watermark_error :: "string \<Rightarrow> BrokerWatermarkResult" where
  "watermark_error e = \<lparr>wr_offsets = None, wr_error = Some e\<rparr>"

definition rdkafka_watermark :: "('c, 'w) KafkaLibrary \<Rightarrow> RdKafkaEngineInputConsumer \<Rightarrow> string \<Rightarrow> int32 \<Rightarrow> 'w \<Rightarrow>
    BrokerWatermarkResult \<times> 'w" where
  "rdkafka_watermark lib consumer topic part w =
     (case validate_partition_request topic part of
        Some e \<Rightarrow> (watermark_error e, w)
      | None \<Rightarrow> (case rk_query_watermark_offsets lib topic part (to_timeout_ms (ki_watermark_timeout consumer)) w of
          ((code, low, high), w) \<Rightarrow>
            if code \<noteq> ErrNoError
            then (watermark_error (''rdkafka watermark query failed for '' @ source_text topic part @ '': '' @
              rk_err2str lib code), w)
            else (case validate_watermark_offsets topic part \<lparr>wm_low = low, wm_high = high\<rparr> of
                Some e \<Rightarrow> (watermark_error e, w)
              | None \<Rightarrow> (\<lparr>wr_offsets = Some \<lparr>wm_low = low, wm_high = high\<rparr>, wr_error = None\<rparr>, w))))"

text \<open>Moving the consumer to the offset: a fresh assignment, after giving up the subscription if there is one.\<close>

definition reassign :: "('c, 'w) KafkaLibrary \<Rightarrow> RdKafkaEngineInputConsumer \<Rightarrow> string \<Rightarrow> int32 \<Rightarrow> int64 \<Rightarrow> 'w \<Rightarrow>
    string option \<times> 'w" where
  "reassign lib consumer topic part offset w =
     (let (code, w) = (if ki_statically_assigned consumer then (ErrNoError, w) else rk_unsubscribe lib w) in
      if code \<noteq> ErrNoError
      then (Some (''rdkafka unsubscribe failed before seek for '' @ source_text topic part @ '': '' @ rk_err2str lib code), w)
      else let (code, w) = rk_assign lib [(topic, part, offset)] w in
        if code \<noteq> ErrNoError
        then (Some (''rdkafka assign failed for '' @ source_text topic part @ '' at offset '' @ to_string offset @ '': '' @
          rk_err2str lib code), w)
        else (None, w))"

definition rdkafka_seek :: "('c, 'w) KafkaLibrary \<Rightarrow> RdKafkaEngineInputConsumer \<Rightarrow> string \<Rightarrow> int32 \<Rightarrow> int64 \<Rightarrow> 'w \<Rightarrow>
    string option \<times> 'w" where
  "rdkafka_seek lib consumer topic part offset w =
     (case validate_seek_request topic part offset of
        Some e \<Rightarrow> (Some e, w)
      | None \<Rightarrow> (let (watermark, w) = rdkafka_watermark lib consumer topic part w in
          if \<not> watermark_ok watermark
          then (Some (case wr_error watermark of Some e \<Rightarrow> e
            | None \<Rightarrow> ''rdkafka watermark query failed for '' @ source_text topic part), w)
          else (case validate_seek_offset topic part offset (the (wr_offsets watermark)) of
              Some e \<Rightarrow> (Some e, w)
            | None \<Rightarrow>
                if \<not> rk_partition lib (topic, part, offset)
                then (Some ''failed to create rdkafka topic partition for seek'', w)
                else reassign lib consumer topic part offset w)))"

text \<open>Committing, on the consumer and on the committer alike: the offset after the record's is committed.\<close>

definition rdkafka_commit :: "('c, 'w) KafkaLibrary \<Rightarrow> OffsetCommitRequest \<Rightarrow> 'w \<Rightarrow> string option \<times> 'w" where
  "rdkafka_commit lib req w =
     (case validate_commit_request req of
        Some e \<Rightarrow> (Some e, w)
      | None \<Rightarrow>
          (let target = (oc_topic req, oc_partition req, i64 (oc_offset req + 1)) in
           if \<not> rk_partition lib target then (Some ''failed to create rdkafka topic partition for commit'', w)
           else (case rk_commit_sync lib target w of ((code, partition_code), w) \<Rightarrow>
             if code \<noteq> ErrNoError then (Some (''rdkafka offset commit failed: '' @ rk_err2str lib code), w)
             else if partition_code \<noteq> ErrNoError
             then (Some (''rdkafka offset commit failed for '' @ oc_topic req @ ''['' @ to_string (oc_partition req) @
               '']: '' @ rk_err2str lib partition_code), w)
             else (None, w))))"

definition make_committer :: "('c, 'w) KafkaLibrary \<Rightarrow> RdKafkaOffsetCommitterConfig \<Rightarrow> (unit, 'w) effect" where
  "make_committer lib config w =
     (case validate_committer_config config of
        Some e \<Rightarrow> (Inl (''invalid rdkafka offset committer config: '' @ e), w)
      | None \<Rightarrow> (case create_committer_conf lib config of
          Inl e \<Rightarrow> (Inl e, w)
        | Inr conf \<Rightarrow> (case rk_create_consumer lib conf w of
            (Inl errstr, w) \<Rightarrow> (Inl (''failed to create rdkafka offset committer: '' @ errstr), w)
          | (Inr _, w) \<Rightarrow> (Inr (), w))))"

section \<open>The producer\<close>

text \<open>The delivery reporter keeps the error of the last report that has one.\<close>

definition dr_cb :: "('c, 'w) KafkaLibrary \<Rightarrow> KafkaMessage \<Rightarrow> string option \<Rightarrow> string option" where
  "dr_cb lib m last_error =
     (if km_err m \<noteq> ErrNoError then Some (''rdkafka delivery failed: '' @ describe_message_error lib m) else last_error)"

record RdKafkaEngineRecordProducer =
  kr_flush_timeout :: milliseconds

definition make_producer :: "('c, 'w) KafkaLibrary \<Rightarrow> RdKafkaProducerConfig \<Rightarrow> (RdKafkaEngineRecordProducer, 'w) effect" where
  "make_producer lib config w =
     (case validate_producer_config config of
        Some e \<Rightarrow> (Inl (''invalid rdkafka producer config: '' @ e), w)
      | None \<Rightarrow> (case create_producer_conf lib config of
          Inl e \<Rightarrow> (Inl e, w)
        | Inr conf \<Rightarrow> (case rk_create_producer lib conf w of
            (Inl errstr, w) \<Rightarrow> (Inl (''failed to create rdkafka producer: '' @ errstr), w)
          | (Inr _, w) \<Rightarrow> (Inr \<lparr>kr_flush_timeout = kp_flush_timeout config\<rparr>, w))))"

definition non_empty :: "string \<Rightarrow> string option" where
  "non_empty s = (if s = [] then None else Some s)"

definition rdkafka_produce :: "('c, 'w) KafkaLibrary \<Rightarrow> RdKafkaEngineRecordProducer \<Rightarrow> ProducedRecord \<Rightarrow> 'w \<Rightarrow>
    string option \<times> 'w" where
  "rdkafka_produce lib producer req w =
     (case validate_produce_request req of
        Some e \<Rightarrow> (Some e, w)
      | None \<Rightarrow> (case rk_produce lib (pd_topic req) (pd_partition req) (non_empty (pd_value req)) (non_empty (pd_key req)) w of
          (code, w) \<Rightarrow>
            if code \<noteq> ErrNoError then (Some (''rdkafka produce failed: '' @ rk_err2str lib code), w)
            else (case rk_flush lib (to_timeout_ms (kr_flush_timeout producer)) w of ((code, reports), w) \<Rightarrow>
              if code \<noteq> ErrNoError then (Some (''rdkafka producer flush failed: '' @ rk_err2str lib code), w)
              else (fold (dr_cb lib) reports None, w))))"

text \<open>What the destructors do.\<close>

definition destroy_consumer :: "('c, 'w) KafkaLibrary \<Rightarrow> 'w \<Rightarrow> 'w" where
  "destroy_consumer lib w = rk_close lib w"

definition destroy_producer :: "('c, 'w) KafkaLibrary \<Rightarrow> RdKafkaEngineRecordProducer \<Rightarrow> 'w \<Rightarrow> 'w" where
  "destroy_producer lib producer w = snd (rk_flush lib (to_timeout_ms (kr_flush_timeout producer)) w)"

section \<open>The broker of a worker\<close>

text \<open>The interfaces of the application, as a worker of \<open>main.cpp\<close> fills them.\<close>

definition rdkafka_broker :: "('c, 'w) KafkaLibrary \<Rightarrow> RdKafkaEngineInputConsumer \<Rightarrow> RdKafkaEngineRecordProducer \<Rightarrow> 'w Broker" where
  "rdkafka_broker lib consumer producer =
     \<lparr>br_poll = rdkafka_poll lib consumer,
      br_seek = (\<lambda>topic part offset w. map_prod Inr id (rdkafka_seek lib consumer topic part offset w)),
      br_get_watermark = (\<lambda>topic part w. map_prod Inr id (rdkafka_watermark lib consumer topic part w)),
      br_produce = (\<lambda>req w. map_prod Inr id (rdkafka_produce lib producer req w)),
      br_commit = (\<lambda>req w. map_prod Inr id (rdkafka_commit lib req w))\<rparr>"

definition worker_consumer_config :: "EngineAppConfig \<Rightarrow> EngineMarketConfig \<Rightarrow> RdKafkaConsumerConfig" where
  "worker_consumer_config config market = \<lparr>kc_bootstrap_servers = ac_bootstrap_servers config,
     kc_group_id = ac_consumer_group_id config, kc_topics = [],
     kc_assigned_partitions = [\<lparr>ka_topic = ac_input_topic config, ka_partition = mc_input_partition market, ka_offset = 0\<rparr>],
     kc_poll_timeout = 100, kc_seek_timeout = 5000, kc_watermark_timeout = 5000,
     kc_client_id = ''engine-app-input-consumer-p'' @ to_string (mc_input_partition market), kc_properties = []\<rparr>"

definition worker_producer_config :: "EngineAppConfig \<Rightarrow> EngineMarketConfig \<Rightarrow> RdKafkaProducerConfig" where
  "worker_producer_config config market = \<lparr>kp_bootstrap_servers = ac_bootstrap_servers config,
     kp_client_id = ''engine-app-record-producer-p'' @ to_string (mc_input_partition market), kp_flush_timeout = 5000,
     kp_properties = []\<rparr>"

end
