(* ===== verification/S3Store.thy ===== *)
theory S3Store
  imports CheckpointFiles AppConfig
begin

text \<open>
  The object store for checkpoints (\<^verbatim>\<open>src/src/checkpoint/s3/S3CheckpointStore.cpp\<close>): normalising its
  configuration, the URLs, the listing in pages and the XML it reads.  \<open>perform_request\<close> is libcurl: a
  function from the request and the state of the world to the response, or the message of the exception.
\<close>

section \<open>Configuration\<close>

record S3CheckpointStoreConfig =
  sx_endpoint :: string
  sx_bucket :: string
  sx_access_key :: string
  sx_secret_key :: string
  sx_region :: string
  sx_prefix :: string
  sx_connect_timeout_ms :: int64
  sx_request_timeout_ms :: int64

datatype HttpMethod = HttpGet | HttpPut

record HttpResponse =
  hr_status :: int
  hr_body :: string

record S3CheckpointStore =
  s3s_config :: S3CheckpointStoreConfig
  s3s_sigv4_scope :: string

type_synonym 'w perform_request = "S3CheckpointStoreConfig \<Rightarrow> string \<Rightarrow> string \<Rightarrow> HttpMethod \<Rightarrow> string \<Rightarrow>
  (HttpResponse, 'w) effect"

definition strip_slashes :: "string \<Rightarrow> string" where
  "strip_slashes s = rev (dropWhile (\<lambda>c. c = CHR ''/'') (rev s))"

definition normalize_endpoint :: "string \<Rightarrow> string + string" where
  "normalize_endpoint endpoint =
     ebind (require_non_blank endpoint ''S3 checkpoint endpoint'') (\<lambda>_.
       if \<not> starts_with endpoint ''http://'' \<and> \<not> starts_with endpoint ''https://''
       then Inl ''S3 checkpoint endpoint must start with http:// or https://''
       else Inr (strip_slashes endpoint))"

definition normalize_bucket :: "string \<Rightarrow> string + string" where
  "normalize_bucket bucket =
     ebind (require_non_blank bucket ''S3 checkpoint bucket'') (\<lambda>_.
       if CHR ''/'' \<in> set bucket
       then Inl (''S3 checkpoint bucket must not contain '' @ [CHR 0x27, CHR ''/'', CHR 0x27]) else Inr bucket)"

definition normalize_prefix :: "string \<Rightarrow> string" where
  "normalize_prefix prefix =
     (let prefix = dropWhile (\<lambda>c. c = CHR ''/'') prefix in
      if prefix \<noteq> [] \<and> last prefix \<noteq> CHR ''/'' then prefix @ ''/'' else prefix)"

definition make_s3_store :: "S3CheckpointStoreConfig \<Rightarrow> string + S3CheckpointStore" where
  "make_s3_store config =
     ebind (normalize_endpoint (sx_endpoint config)) (\<lambda>endpoint.
     ebind (normalize_bucket (sx_bucket config)) (\<lambda>bucket.
     ebind (require_non_blank (sx_access_key config) ''S3 checkpoint access key'') (\<lambda>_.
     ebind (require_non_blank (sx_secret_key config) ''S3 checkpoint secret key'') (\<lambda>_.
     ebind (require_non_blank (sx_region config) ''S3 checkpoint region'') (\<lambda>_.
     if sx_connect_timeout_ms config \<le> 0 then Inl ''S3 checkpoint connect timeout must be positive''
     else if sx_request_timeout_ms config \<le> 0 then Inl ''S3 checkpoint request timeout must be positive''
     else Inr \<lparr>s3s_config = config\<lparr>sx_endpoint := endpoint, sx_bucket := bucket,
         sx_prefix := normalize_prefix (sx_prefix config)\<rparr>,
       s3s_sigv4_scope = ''aws:amz:'' @ sx_region config @ '':s3''\<rparr>)))))"

section \<open>URLs\<close>

definition is_unreserved :: "char \<Rightarrow> bool" where
  "is_unreserved c \<longleftrightarrow> (CHR ''a'' \<le> c \<and> c \<le> CHR ''z'') \<or> (CHR ''A'' \<le> c \<and> c \<le> CHR ''Z'') \<or>
     (CHR ''0'' \<le> c \<and> c \<le> CHR ''9'') \<or> c = CHR ''-'' \<or> c = CHR ''_'' \<or> c = CHR ''.'' \<or> c = CHR ''~''"

definition percent_encode_char :: "bool \<Rightarrow> char \<Rightarrow> string" where
  "percent_encode_char preserve_slash c =
     (if is_unreserved c \<or> (preserve_slash \<and> c = CHR ''/'') then [c] else CHR ''%'' # hex_byte c)"

definition percent_encode :: "bool \<Rightarrow> string \<Rightarrow> string" where
  "percent_encode preserve_slash value = concat (map (percent_encode_char preserve_slash) value)"

definition checkpoint_key_for_id :: "S3CheckpointStore \<Rightarrow> string \<Rightarrow> string" where
  "checkpoint_key_for_id st checkpoint_id = sx_prefix (s3s_config st) @ checkpoint_filename_for_id checkpoint_id"

definition object_url :: "S3CheckpointStore \<Rightarrow> string \<Rightarrow> string" where
  "object_url st key = sx_endpoint (s3s_config st) @ ''/'' @ percent_encode False (sx_bucket (s3s_config st)) @ ''/'' @
     percent_encode True key"

definition list_url :: "S3CheckpointStore \<Rightarrow> string option \<Rightarrow> string" where
  "list_url st continuation_token =
     sx_endpoint (s3s_config st) @ ''/'' @ percent_encode False (sx_bucket (s3s_config st)) @
     ''?list-type=2&prefix='' @ percent_encode False (sx_prefix (s3s_config st)) @
     (case continuation_token of None \<Rightarrow> [] | Some token \<Rightarrow> ''&continuation-token='' @ percent_encode False token)"

section \<open>XML\<close>

definition utf8_byte :: "u32 \<Rightarrow> char" where
  "utf8_byte w = char_of (unat w)"

text \<open>The bits of a code point in UTF-8; one beyond the last adds nothing.\<close>

definition utf8_bytes :: "u32 \<Rightarrow> string" where
  "utf8_bytes cp =
     (if cp \<le> 0x7F then [utf8_byte cp]
      else if cp \<le> 0x7FF then [utf8_byte (0xC0 OR drop_bit 6 cp), utf8_byte (0x80 OR (cp AND 0x3F))]
      else if cp \<le> 0xFFFF
      then [utf8_byte (0xE0 OR drop_bit 12 cp), utf8_byte (0x80 OR (drop_bit 6 cp AND 0x3F)), utf8_byte (0x80 OR (cp AND 0x3F))]
      else if cp \<le> 0x10FFFF
      then [utf8_byte (0xF0 OR drop_bit 18 cp), utf8_byte (0x80 OR (drop_bit 12 cp AND 0x3F)),
        utf8_byte (0x80 OR (drop_bit 6 cp AND 0x3F)), utf8_byte (0x80 OR (cp AND 0x3F))]
      else [])"

text \<open>\<open>std::from_chars\<close> into an \<open>unsigned int\<close> with a base, required to use up the text.\<close>

definition from_chars_base :: "nat \<Rightarrow> string \<Rightarrow> u32 option" where
  "from_chars_base base s =
     (let v = foldl (\<lambda>a c. a * base + nat (hex_digit_value c)) 0 s in
      if s = [] \<or> \<not> list_all (\<lambda>c. 0 \<le> hex_digit_value c \<and> hex_digit_value c < int base) s \<or> 2 ^ 32 \<le> v then None
      else Some (of_nat v))"

definition parse_numeric_entity :: "string \<Rightarrow> u32 option" where
  "parse_numeric_entity entity =
     (if length entity < 2 \<or> hd entity \<noteq> CHR ''#'' then None
      else if length entity > 2 \<and> (entity ! 1 = CHR ''x'' \<or> entity ! 1 = CHR ''X'')
      then from_chars_base 16 (drop 2 entity)
      else from_chars_base 10 (drop 1 entity))"

definition xml_entity :: "string \<Rightarrow> string" where
  "xml_entity entity =
     (if entity = ''amp'' then ''&'' else if entity = ''lt'' then ''<'' else if entity = ''gt'' then ''>''
      else if entity = ''quot'' then [CHR 0x22] else if entity = ''apos'' then [CHR 0x27]
      else (case parse_numeric_entity entity of
          Some cp \<Rightarrow> utf8_bytes cp
        | None \<Rightarrow> ''&'' @ entity @ '';''))"

function xml_unescape :: "string \<Rightarrow> string" where
  "xml_unescape value = (case value of
      [] \<Rightarrow> []
    | c # s \<Rightarrow>
        if c = CHR ''&'' \<and> CHR '';'' \<in> set s
        then xml_entity (takeWhile (\<lambda>c. c \<noteq> CHR '';'') s) @ xml_unescape (tl (dropWhile (\<lambda>c. c \<noteq> CHR '';'') s))
        else c # xml_unescape s)"
  by auto

termination
proof (relation "measure length", simp, goal_cases)
  case (1 v c s)
  then show ?case using length_dropWhile_le [of "\<lambda>c. c \<noteq> CHR '';''" s] by simp
qed simp

declare xml_unescape.simps [simp del]

text \<open>\<open>find\<close>: the text before and after the first occurrence of a pattern.\<close>

fun find_text :: "string \<Rightarrow> string \<Rightarrow> (string \<times> string) option" where
  "find_text pattern [] = (if pattern = [] then Some ([], []) else None)"
| "find_text pattern (c # s) =
     (if starts_with (c # s) pattern then Some ([], drop (length pattern) (c # s))
      else map_option (\<lambda>(s1, s2). (c # s1, s2)) (find_text pattern s))"

lemma find_text_length: "find_text pattern s = Some (s1, s2) \<Longrightarrow> length s = length s1 + length pattern + length s2"
  by (induction s arbitrary: s1 s2)
    (auto simp: starts_with_def not_less split: if_splits)

function xml_tag_values :: "string \<Rightarrow> string \<Rightarrow> string list" where
  "xml_tag_values tag xml = (case find_text (''<'' @ tag @ ''>'') xml of
      None \<Rightarrow> []
    | Some (_, rest) \<Rightarrow> (case find_text (''</'' @ tag @ ''>'') rest of
          None \<Rightarrow> []
        | Some (value, rest) \<Rightarrow> xml_unescape value # xml_tag_values tag rest))"
  by auto

termination
  by (relation "measure (\<lambda>(tag, xml). length xml)") (auto dest!: find_text_length)

declare xml_tag_values.simps [simp del]

definition first_xml_tag_value :: "string \<Rightarrow> string \<Rightarrow> string option" where
  "first_xml_tag_value xml tag = (case xml_tag_values tag xml of [] \<Rightarrow> None | v # _ \<Rightarrow> Some v)"

definition has_suffix :: "string \<Rightarrow> string \<Rightarrow> bool" where
  "has_suffix value suffix \<longleftrightarrow> length value \<ge> length suffix \<and> drop (length value - length suffix) value = suffix"

section \<open>Requests\<close>

definition response_excerpt :: "string \<Rightarrow> string" where
  "response_excerpt body = (if length body \<le> 256 then body else take 256 body @ ''...'')"

definition http_error :: "string \<Rightarrow> HttpResponse \<Rightarrow> string" where
  "http_error operation response = ''S3 checkpoint '' @ operation @ '' failed with HTTP '' @ to_string (hr_status response) @
     (if hr_body response = [] then [] else '': '' @ response_excerpt (hr_body response))"

definition request_checked :: "'w perform_request \<Rightarrow> S3CheckpointStore \<Rightarrow> string \<Rightarrow> string \<Rightarrow> HttpMethod \<Rightarrow> string \<Rightarrow>
    (string, 'w) effect" where
  "request_checked req st operation url method body w =
     (case req (s3s_config st) (s3s_sigv4_scope st) url method body w of
        (Inl e, w) \<Rightarrow> (Inl e, w)
      | (Inr response, w) \<Rightarrow>
          if hr_status response < 200 \<or> hr_status response \<ge> 300 then (Inl (http_error operation response), w)
          else (Inr (hr_body response), w))"

definition s3_save :: "'w perform_request \<Rightarrow> S3CheckpointStore \<Rightarrow> EngineCheckpoint \<Rightarrow> (unit, 'w) effect" where
  "s3_save req st ck w =
     (case request_checked req st ''put'' (object_url st (checkpoint_key_for_id st (ck_checkpoint_id ck))) HttpPut
        (serialize_checkpoint ck) w of
        (Inl e, w) \<Rightarrow> (Inl e, w)
      | (Inr _, w) \<Rightarrow> (Inr (), w))"

text \<open>The keys of one page of the listing, and the token of the next page.\<close>

definition page_keys :: "S3CheckpointStore \<Rightarrow> string \<Rightarrow> string list" where
  "page_keys st body = filter (\<lambda>key. starts_with key (sx_prefix (s3s_config st)) \<and> has_suffix key CheckpointFileExtension)
     (xml_tag_values ''Key'' body)"

definition page_truncated :: "string \<Rightarrow> bool" where
  "page_truncated body \<longleftrightarrow> first_xml_tag_value body ''IsTruncated'' = Some ''true''"

definition next_token :: "string \<Rightarrow> string + string" where
  "next_token body = (case first_xml_tag_value body ''NextContinuationToken'' of
      Some token \<Rightarrow> if token = []
        then Inl ''S3 checkpoint list response was truncated without continuation token'' else Inr token
    | None \<Rightarrow> Inl ''S3 checkpoint list response was truncated without continuation token'')"

text \<open>The loop ends only if the server's last page comes.\<close>

partial_function (option) list_pages :: "'w perform_request \<Rightarrow> S3CheckpointStore \<Rightarrow> string option \<Rightarrow> string list \<Rightarrow> 'w \<Rightarrow>
    ((string + string list) \<times> 'w) option" where
  "list_pages req st continuation_token candidates w =
     (case request_checked req st ''list'' (list_url st continuation_token) HttpGet [] w of
        (Inl e, w) \<Rightarrow> Some (Inl e, w)
      | (Inr body, w) \<Rightarrow>
          if \<not> page_truncated body then Some (Inr (candidates @ page_keys st body), w)
          else (case next_token body of
              Inl e \<Rightarrow> Some (Inl e, w)
            | Inr token \<Rightarrow> list_pages req st (Some token) (candidates @ page_keys st body) w))"

definition list_checkpoint_keys :: "'w perform_request \<Rightarrow> S3CheckpointStore \<Rightarrow> 'w \<Rightarrow> ((string + string list) \<times> 'w) option" where
  "list_checkpoint_keys req st w = map_option (\<lambda>(r, w). (ebind r (\<lambda>candidates. Inr (sort candidates)), w))
     (list_pages req st None [] w)"

definition s3_load_latest :: "'w perform_request \<Rightarrow> S3CheckpointStore \<Rightarrow> 'w \<Rightarrow>
    ((string + EngineCheckpoint option) \<times> 'w) option" where
  "s3_load_latest req st w = map_option (\<lambda>(r, w). (case r of
      Inl e \<Rightarrow> (Inl e, w)
    | Inr keys \<Rightarrow>
        if keys = [] then (Inr None, w)
        else (case request_checked req st ''get'' (object_url st (last keys)) HttpGet [] w of
            (Inl e, w) \<Rightarrow> (Inl e, w)
          | (Inr body, w) \<Rightarrow> (Inr (try_deserialize_checkpoint body), w)))) (list_checkpoint_keys req st w)"

end
