(* ===== verification/Worker.thy ===== *)
theory Worker
  imports S3Store Recovery
begin

text \<open>
  The process around the engine (\<^verbatim>\<open>src/src/app/main.cpp\<close>): the checkpoint ids and stores of a partition,
  the startup of a worker and its polling loop.  Every market has a worker of its own, on a thread of its
  own; a worker is modelled, the threads are not.  Log output is left out.
\<close>

section \<open>Names\<close>

definition app_status_name :: "EngineBrokerAppStatus \<Rightarrow> string" where
  "app_status_name s = (case s of NoRecord \<Rightarrow> ''NoRecord'' | Processed \<Rightarrow> ''Processed''
     | RejectedInputTopic \<Rightarrow> ''RejectedInputTopic'' | RejectedInputPartition \<Rightarrow> ''RejectedInputPartition''
     | RejectedInputMarket \<Rightarrow> ''RejectedInputMarket'' | PublishFailed \<Rightarrow> ''PublishFailed''
     | CheckpointFailed \<Rightarrow> ''CheckpointFailed'' | CommitFailed \<Rightarrow> ''CommitFailed''
     | ProcessingFailed \<Rightarrow> ''ProcessingFailed'' | UnsafeDuplicate \<Rightarrow> ''UnsafeDuplicate'')"

definition recovery_status_name :: "RecoveryStatus \<Rightarrow> string" where
  "recovery_status_name s = (case s of NoCheckpoint \<Rightarrow> ''NoCheckpoint'' | Recovered \<Rightarrow> ''Recovered''
     | Replayed \<Rightarrow> ''Replayed'' | SourceMismatch \<Rightarrow> ''SourceMismatch'' | CheckpointLoadFailed \<Rightarrow> ''CheckpointLoadFailed''
     | WatermarkUnavailable \<Rightarrow> ''WatermarkUnavailable'' | InvalidWatermark \<Rightarrow> ''InvalidWatermark''
     | OffsetBelowLowWatermark \<Rightarrow> ''OffsetBelowLowWatermark'' | OffsetAboveHighWatermark \<Rightarrow> ''OffsetAboveHighWatermark''
     | RestoreFailed \<Rightarrow> ''RestoreFailed'' | SeekFailed \<Rightarrow> ''SeekFailed'' | ReplayFailed \<Rightarrow> ''ReplayFailed'')"

definition safe_checkpoint_char :: "char \<Rightarrow> char" where
  "safe_checkpoint_char c = (if (CHR ''a'' \<le> c \<and> c \<le> CHR ''z'') \<or> (CHR ''A'' \<le> c \<and> c \<le> CHR ''Z'') \<or>
     (CHR ''0'' \<le> c \<and> c \<le> CHR ''9'') \<or> c = CHR ''.'' \<or> c = CHR ''-'' \<or> c = CHR ''_'' then c else CHR ''_'')"

definition safe_checkpoint_topic :: "string \<Rightarrow> string" where
  "safe_checkpoint_topic topic = (if topic = [] then ''topic'' else map safe_checkpoint_char topic)"

text \<open>\<open>std::setw\<close> with \<open>std::setfill\<close>: padding on the left.\<close>

definition padded :: "nat \<Rightarrow> int \<Rightarrow> string" where
  "padded width i = replicate (width - length (to_string i)) (CHR ''0'') @ to_string i"

definition checkpoint_scope_for :: "string \<Rightarrow> int32 \<Rightarrow> string" where
  "checkpoint_scope_for topic part = safe_checkpoint_topic topic @ ''-p'' @ padded 10 part"

definition checkpoint_id_for :: "CheckpointSourcePosition \<Rightarrow> string" where
  "checkpoint_id_for source = ''source-'' @ safe_checkpoint_topic (cp_topic source) @ ''-p'' @
     padded 10 (cp_partition source) @ ''-o'' @ padded 20 (cp_next_offset source)"

section \<open>Checkpoint stores\<close>

definition s3_checkpoint_config :: "EngineS3CheckpointConfig \<Rightarrow> S3CheckpointStoreConfig" where
  "s3_checkpoint_config config = \<lparr>sx_endpoint = s3_endpoint config, sx_bucket = s3_bucket config,
     sx_access_key = s3_access_key config, sx_secret_key = s3_secret_key config, sx_region = s3_region config,
     sx_prefix = s3_prefix config, sx_connect_timeout_ms = 3000, sx_request_timeout_ms = 30000\<rparr>"

definition append_s3_prefix :: "string \<Rightarrow> string \<Rightarrow> string" where
  "append_s3_prefix base scope =
     (if base = [] then scope else if last base = CHR ''/'' then base @ scope else base @ ''/'' @ scope)"

text \<open>The store of a partition: a directory, or an object store.  A scope is a relative path.\<close>

datatype CheckpointStoreInstance = FileInstance string | S3Instance S3CheckpointStore

definition append_path :: "string \<Rightarrow> string \<Rightarrow> string" where
  "append_path directory name =
     (if directory = [] \<or> last directory = CHR ''/'' then directory @ name else directory @ ''/'' @ name)"

definition make_checkpoint_store :: "EngineAppConfig \<Rightarrow> string \<Rightarrow> int32 \<Rightarrow> string + CheckpointStoreInstance" where
  "make_checkpoint_store config topic part =
     (let scope = checkpoint_scope_for topic part in
      case ac_checkpoint_store config of
        StoreFile \<Rightarrow> Inr (FileInstance (append_path (ac_checkpoint_directory config) scope))
      | StoreS3 \<Rightarrow>
          (let s3_config = s3_checkpoint_config (ac_s3_checkpoint config) in
           ebind (make_s3_store (s3_config\<lparr>sx_prefix := append_s3_prefix (sx_prefix s3_config) scope\<rparr>))
             (\<lambda>st. Inr (S3Instance st))))"

section \<open>Saving a checkpoint\<close>

definition next_offset :: "ConsumedRecord \<Rightarrow> string + int64" where
  "next_offset source =
     (if cr_offset source = 2 ^ 63 - 1 then Inl ''cannot checkpoint source offset without overflow''
      else Inr (i64 (cr_offset source + 1)))"

type_synonym 'w store_save = "EngineCheckpoint \<Rightarrow> (unit, 'w) effect"

text \<open>What leaves the function: an exception, undefined behaviour, or no error.\<close>

definition save_checkpoint_for_position :: "'w store_save \<Rightarrow> CheckpointSourcePosition \<Rightarrow> EngineRuntime \<Rightarrow> 'w \<Rightarrow>
    (app_error + string option) \<times> 'w" where
  "save_checkpoint_for_position save pos rt w =
     (case create_checkpoint rt pos (checkpoint_id_for pos) of
        Inl Undefined \<Rightarrow> (Inl UndefinedBehaviour, w)
      | Inl (Thrown e _) \<Rightarrow> (Inl (Propagated e), w)
      | Inr ck \<Rightarrow> (case save ck w of
            (Inl e, w) \<Rightarrow> (Inl (Propagated e), w)
          | (Inr _, w) \<Rightarrow> (Inr None, w)))"

definition save_checkpoint_for_source :: "'w store_save \<Rightarrow> ConsumedRecord \<Rightarrow> EngineRuntime \<Rightarrow> 'w \<Rightarrow>
    (app_error + string option) \<times> 'w" where
  "save_checkpoint_for_source save source rt w = (case next_offset source of
      Inl e \<Rightarrow> (Inl (Propagated e), w)
    | Inr n \<Rightarrow> save_checkpoint_for_position save
        \<lparr>cp_topic = cr_topic source, cp_partition = cr_partition source, cp_next_offset = n\<rparr> rt w)"

text \<open>
  The hook of the application.  A hook of the model cannot be undefined, so an undefined snapshot counts as
  an exception here.
\<close>

definition checkpoint_hook :: "'w store_save \<Rightarrow> 'w EnginePreCommitHook" where
  "checkpoint_hook save source rt w = (case save_checkpoint_for_source save source rt w of
      (Inl (Propagated e), w) \<Rightarrow> (Inl e, w)
    | (Inl UndefinedBehaviour, w) \<Rightarrow> (Inl ''undefined behaviour'', w)
    | (Inr error, w) \<Rightarrow> (Inr error, w))"

section \<open>Startup\<close>

definition fail_if_recovery_incomplete :: "RecoveryResult \<Rightarrow> string + unit" where
  "fail_if_recovery_incomplete result =
     (if \<not> recovery_ok result
      then Inl (''startup recovery failed with status '' @ recovery_status_name (rv_status result) @
        (if rv_error result = [] then [] else '': '' @ rv_error result))
      else if rv_source_position result \<noteq> None \<and> \<not> rv_caught_up result
      then Inl ''startup recovery did not catch up before live polling''
      else Inr ())"

definition startup_liquidation_source :: InboundEngineRecord where
  "startup_liquidation_source = \<lparr>ir_topic = ''engine.startup'', ir_partition = - 1, ir_offset = - 1,
     ir_key = Some ''startup-automatic-liquidation'', ir_raw_json = []\<rparr>"

definition startup_checkpoint_position :: "RecoveryResult \<Rightarrow> string \<Rightarrow> int32 \<Rightarrow> CheckpointSourcePosition" where
  "startup_checkpoint_position result fallback_topic fallback_partition = (case rv_source_position result of
      Some pos \<Rightarrow> \<lparr>cp_topic = cp_topic pos, cp_partition = cp_partition pos, cp_next_offset = rv_next_offset result\<rparr>
    | None \<Rightarrow> \<lparr>cp_topic = fallback_topic, cp_partition = fallback_partition, cp_next_offset = rv_next_offset result\<rparr>)"

definition run_startup_automatic_liquidation_scan :: "'w Broker \<Rightarrow> 'w store_save \<Rightarrow> RecoveryResult \<Rightarrow> string \<Rightarrow> int32 \<Rightarrow>
    'w RedpandaEngineApp \<Rightarrow> (app_error + unit) \<times> 'w RedpandaEngineApp" where
  "run_startup_automatic_liquidation_scan br save recovery fallback_topic fallback_partition app =
     (case evaluate_all_in_mode startup_liquidation_source Live (app_runtime app) of
        Inl Undefined \<Rightarrow> (Inl UndefinedBehaviour, app)
      | Inl (Thrown e rt) \<Rightarrow> (Inl (Propagated e), app\<lparr>app_runtime := rt\<rparr>)
      | Inr (process_result, rt) \<Rightarrow>
          (let app = app\<lparr>app_runtime := rt\<rparr> in
           if result_empty process_result then (Inr (), app)
           else (let (answer, w) = app_publish br process_result (app_world app); app = app\<lparr>app_world := w\<rparr> in
             case answer of
               Inl e \<Rightarrow> (Inl (Propagated e), app)
             | Inr published \<Rightarrow>
                 if \<not> publish_ok published
                 then (Inl (Propagated (''startup automatic liquidation publish failed: '' @
                   pf_error (hd (pb_failures published)))), app)
                 else (case save_checkpoint_for_position save
                     (startup_checkpoint_position recovery fallback_topic fallback_partition) (app_runtime app) (app_world app) of
                     (Inl e, w) \<Rightarrow> (Inl e, app\<lparr>app_world := w\<rparr>)
                   | (Inr (Some error), w) \<Rightarrow>
                       (Inl (Propagated (''startup automatic liquidation checkpoint failed: '' @ error)), app\<lparr>app_world := w\<rparr>)
                   | (Inr None, w) \<Rightarrow> (Inr (), app\<lparr>app_world := w\<rparr>)))))"

definition TradeIdNamespaceSize :: u64 where
  "TradeIdNamespaceSize = 1000000000000"

definition first_trade_id_for_market :: "MarketId \<Rightarrow> string + TradeId" where
  "first_trade_id_for_market market_id =
     (if market_id \<le> 0 then Inl ''market_id must be positive for trade id seed''
      else let market = (word_of_int market_id :: u64) in
        if market > (- 1 - 1) div TradeIdNamespaceSize then Inl ''market_id is too large for trade id seed''
        else Inr (market * TradeIdNamespaceSize + 1))"

section \<open>The worker\<close>

definition worker_runtime_config :: "EngineMarketConfig \<Rightarrow> string + EngineRuntimeConfig" where
  "worker_runtime_config market = ebind (first_trade_id_for_market (mc_market_id market)) (\<lambda>first_trade_id.
     Inr \<lparr>rc_symbols = [mc_symbol_config market], rc_first_public_sequence = 1, rc_first_trade_id = first_trade_id,
       rc_clock = None\<rparr>)"

definition worker_guard :: "EngineAppConfig \<Rightarrow> EngineMarketConfig \<Rightarrow> EngineInputGuardConfig" where
  "worker_guard config market = \<lparr>gc_topic = ac_input_topic config, gc_partition = Some (mc_input_partition market),
     gc_market_ids = [mc_market_id market]\<rparr>"

definition poll_failure :: "EngineMarketConfig \<Rightarrow> EngineBrokerAppResult \<Rightarrow> string" where
  "poll_failure market result = ''engine worker market_id='' @ to_string (mc_market_id market) @ '' input_partition='' @
     to_string (mc_input_partition market) @ '' poll failed status='' @ app_status_name (ar_status result) @
     (if ar_error result = [] then [] else '' error='' @ ar_error result)"

text \<open>
  The polling loop; \<open>stop_requested\<close> reads the flag that the other workers set.  Without a limit the loop
  goes on until the flag is set.
\<close>

partial_function (option) worker_loop :: "'w Broker \<Rightarrow> ('w \<Rightarrow> bool \<times> 'w) \<Rightarrow> EngineMarketConfig \<Rightarrow> u64 option \<Rightarrow> u64 \<Rightarrow>
    'w RedpandaEngineApp \<Rightarrow> ((app_error + unit) \<times> 'w RedpandaEngineApp) option" where
  "worker_loop br stop_requested market limit poll_count app =
     (let (stopped, w) = stop_requested (app_world app); app = app\<lparr>app_world := w\<rparr> in
      if stopped \<or> (case limit of None \<Rightarrow> False | Some n \<Rightarrow> \<not> poll_count < n) then Some (Inr (), app)
      else (case poll_once br app of
          (Inl e, app) \<Rightarrow> Some (Inl e, app)
        | (Inr result, app) \<Rightarrow>
            if \<not> app_result_ok result then Some (Inl (Propagated (poll_failure market result)), app)
            else worker_loop br stop_requested market limit (poll_count + 1) app))"

text \<open>
  The worker: runtime, recovery, startup scan and loop.  Store and broker clients are made by the caller.
\<close>

definition run_engine_partition_worker :: "(nat \<Rightarrow> int64) \<Rightarrow> 'w Broker \<Rightarrow> (EngineCheckpoint option, 'w) effect \<Rightarrow>
    'w store_save \<Rightarrow> ('w \<Rightarrow> bool \<times> 'w) \<Rightarrow> EngineAppConfig \<Rightarrow> EngineMarketConfig \<Rightarrow> 'w \<Rightarrow>
    ((app_error + unit) \<times> 'w) option" where
  "run_engine_partition_worker system_clock br load_latest save stop_requested config market w =
     (case worker_runtime_config market of
        Inl e \<Rightarrow> Some (Inl (Propagated e), w)
      | Inr runtime_config \<Rightarrow> (case make_engine_runtime system_clock runtime_config of
          None \<Rightarrow> Some (Inl UndefinedBehaviour, w)
        | Some rt \<Rightarrow> (case make_checkpoint_store config (ac_input_topic config) (mc_input_partition market) of
            Inl e \<Rightarrow> Some (Inl (Propagated e), w)
          | Inr _ \<Rightarrow> Option.bind (recover_and_replay load_latest br
              (Some \<lparr>so_topic = ac_input_topic config, so_partition = mc_input_partition market\<rparr>) rt w)
              (\<lambda>(outcome, rt, w). case outcome of
                  Inl e \<Rightarrow> Some (Inl e, w)
                | Inr recovery \<Rightarrow> (case fail_if_recovery_incomplete recovery of
                    Inl e \<Rightarrow> Some (Inl (Propagated e), w)
                  | Inr _ \<Rightarrow> (case make_app rt (worker_guard config market) (Some (checkpoint_hook save)) w of
                      Inl e \<Rightarrow> Some (Inl (Propagated e), w)
                    | Inr app \<Rightarrow> (case run_startup_automatic_liquidation_scan br save recovery (ac_input_topic config)
                        (mc_input_partition market) app of
                        (Inl e, app) \<Rightarrow> Some (Inl e, app_world app)
                      | (Inr _, app) \<Rightarrow> map_option (\<lambda>(r, app). (r, app_world app))
                          (worker_loop br stop_requested market (ac_poll_loop_limit config) 0 app))))))))"

end
