(* ===== verification/WorkerProperties.thy ===== *)
theory WorkerProperties
  imports Worker CheckpointProperties
begin

text \<open>
  Properties of the process: names of checkpoints are ordered as offsets, so the store's latest checkpoint
  is the newest; workers do not share partitions, stores or trade ids; a worker with a poll limit
  returns; the object store reads the greatest key of its listing.
\<close>

section \<open>Padded numbers\<close>

lemma nat_digits_length: "n < 10 ^ Suc w \<Longrightarrow> length (nat_digits n) \<le> Suc w"
proof (induction w arbitrary: n)
  case (Suc w)
  then show ?case by (subst nat_digits.simps) (auto simp: less_mult_imp_div_less)
qed (subst nat_digits.simps, simp)

lemma digits_value_Cons: "digits_value (c # s) = digit_value c * 10 ^ length s + digits_value s"
  using digits_value_append [of "[c]" s] by simp

lemma digit_value_inj: "is_digit c \<Longrightarrow> is_digit c' \<Longrightarrow> digit_value c = digit_value c' \<Longrightarrow> c = c'"
proof -
  assume "is_digit c" "is_digit c'" "digit_value c = digit_value c'"
  then have "(of_char c :: nat) = of_char c'" unfolding is_digit_def digit_value_def by linarith
  then show "c = c'" by (simp only: of_char_eq_iff)
qed

lemma digits_value_zeros [simp]: "digits_value (replicate k (CHR ''0'')) = 0"
  by (induction k) (simp_all add: digits_value_Cons)

lemma padded_digits:
  assumes "0 \<le> i" "i < 10 ^ Suc w"
  shows "list_all is_digit (padded (Suc w) i)" "length (padded (Suc w) i) = Suc w" "digits_value (padded (Suc w) i) = nat i"
proof -
  have "nat i < 10 ^ Suc w" using assms by (simp add: nat_less_iff)
  then show "length (padded (Suc w) i) = Suc w"
    using assms(1) nat_digits_length [of "nat i" w] by (simp add: padded_def to_string_def)
  show "list_all is_digit (padded (Suc w) i)"
    using assms(1) nat_digits_all [of "nat i"] by (auto simp: padded_def to_string_def list_all_iff)
qed (use assms(1) in \<open>simp add: padded_def to_string_def\<close>)

lemma digits_value_bound: "list_all is_digit s \<Longrightarrow> digits_value s < 10 ^ length s"
proof (induction s)
  case (Cons c s)
  then have "digit_value c * 10 ^ length s + digits_value s < (digit_value c + 1) * 10 ^ length s" by simp
  also have "\<dots> \<le> 10 * 10 ^ length s" using Cons.prems digit_value_less [of c] by (intro mult_right_mono) (auto simp: less_eq_Suc_le)
  finally show ?case by (simp add: digits_value_Cons)
qed simp

lemma digit_order: "is_digit c \<Longrightarrow> is_digit c' \<Longrightarrow> digit_value c < digit_value c' \<Longrightarrow> c < c'"
  by (simp add: is_digit_def digit_value_def less_char_def)

text \<open>Numbers of one length are ordered as texts, whatever follows them.\<close>

lemma digits_order:
  "length s = length t \<Longrightarrow> list_all is_digit s \<Longrightarrow> list_all is_digit t \<Longrightarrow> digits_value s < digits_value t \<Longrightarrow>
     s @ u < t @ u'"
proof (induction s t rule: list_induct2)
  case (Cons c s c' t)
  show ?case
  proof (cases "c = c'")
    case False
    have "digit_value c < digit_value c'"
    proof (rule ccontr)
      assume "\<not> digit_value c < digit_value c'"
      moreover have "digit_value c \<noteq> digit_value c'"
        using False Cons.prems digit_value_inj by auto
      ultimately have "(digit_value c' + 1) * 10 ^ length t \<le> digit_value c * 10 ^ length t" by (intro mult_right_mono) auto
      then show False
        using Cons.prems Cons.hyps digits_value_bound [of t] by (simp add: digits_value_Cons)
    qed
    then show ?thesis using Cons.prems digit_order [of c c'] by simp
  qed (use Cons in \<open>simp add: digits_value_Cons\<close>)
qed simp

section \<open>Names of checkpoints\<close>

lemma safe_chars:
  "is_safe_filename_char (safe_checkpoint_char c)" "is_digit c \<Longrightarrow> is_safe_filename_char c"
  by (auto simp: safe_checkpoint_char_def is_safe_filename_char_def is_digit_def less_eq_char_def)

lemma safe_name: "list_all is_safe_filename_char i \<Longrightarrow> concat (map filename_char i) = i"
  by (induction i) (auto simp: filename_char_def)

text \<open>The name of a checkpoint of a worker, up to its offset.\<close>

definition name_prefix :: "string \<Rightarrow> int32 \<Rightarrow> string" where
  "name_prefix topic part = ''source-'' @ safe_checkpoint_topic topic @ ''-p'' @ padded 10 part @ ''-o''"

lemma worker_file_name:
  assumes "0 \<le> part" "0 \<le> off"
  shows "checkpoint_filename_for_id (checkpoint_id_for \<lparr>cp_topic = topic, cp_partition = part, cp_next_offset = off\<rparr>) =
    name_prefix topic part @ padded 20 off @ CheckpointFileExtension"
proof -
  have digits: "list_all is_safe_filename_char (padded w i)" if "0 \<le> i" for w i
    using that safe_chars(2) nat_digits_all by (auto simp: padded_def to_string_def list_all_iff)
  have topic: "list_all is_safe_filename_char (safe_checkpoint_topic topic)"
    using safe_chars(1) by (auto simp: safe_checkpoint_topic_def list_all_iff is_safe_filename_char_def less_eq_char_def)
  have "list_all is_safe_filename_char (name_prefix topic part @ padded 20 off)"
    using digits assms topic by (simp add: name_prefix_def is_safe_filename_char_def less_eq_char_def)
  from safe_name [OF this] show ?thesis
    by (simp add: checkpoint_filename_for_id_def checkpoint_id_for_def name_prefix_def Let_def)
qed

lemma prefix_order: "(p @ s :: string) < p @ t \<longleftrightarrow> s < t"
  by (induction p) simp_all

lemma worker_names_ordered:
  assumes "0 \<le> part" "0 \<le> a" "a < b" "in_i64 b"
  shows "checkpoint_filename_for_id (checkpoint_id_for \<lparr>cp_topic = topic, cp_partition = part, cp_next_offset = a\<rparr>) <
    checkpoint_filename_for_id (checkpoint_id_for \<lparr>cp_topic = topic, cp_partition = part, cp_next_offset = b\<rparr>)"
proof -
  have bound: "a < 10 ^ Suc 19" "b < 10 ^ Suc 19" using assms by (simp_all add: in_i64_def)
  have "padded (Suc 19) a @ CheckpointFileExtension < padded (Suc 19) b @ CheckpointFileExtension"
    using padded_digits [OF _ bound(1)] padded_digits [OF _ bound(2)] assms by (intro digits_order) auto
  then show ?thesis using assms by (simp add: worker_file_name prefix_order)
qed

section \<open>The newest checkpoint is the latest\<close>

text \<open>The store of a partition holds checkpoints of this partition up to some offset.\<close>

definition checkpoints_up_to :: "string \<Rightarrow> int32 \<Rightarrow> int64 \<Rightarrow> Directory option \<Rightarrow> bool" where
  "checkpoints_up_to topic part limit directory \<longleftrightarrow> (\<forall>n \<in> dom (checkpoint_texts directory). \<exists>off. 0 \<le> off \<and> off \<le> limit \<and>
     n = checkpoint_filename_for_id (checkpoint_id_for \<lparr>cp_topic = topic, cp_partition = part, cp_next_offset = off\<rparr>))"

lemma source_checkpoint:
  assumes "save_checkpoint_for_source save source rt w = (Inr None, w')"
  shows "cr_offset source \<noteq> 2 ^ 63 - 1"
    "\<exists>ck. create_checkpoint rt \<lparr>cp_topic = cr_topic source, cp_partition = cr_partition source,
         cp_next_offset = i64 (cr_offset source + 1)\<rparr> (checkpoint_id_for \<lparr>cp_topic = cr_topic source,
         cp_partition = cr_partition source, cp_next_offset = i64 (cr_offset source + 1)\<rparr>) = Inr ck \<and> save ck w = (Inr (), w')"
  using assms by (auto simp: save_checkpoint_for_source_def next_offset_def save_checkpoint_for_position_def
      split: if_splits sum.splits runtime_error.splits prod.splits)

text \<open>
  C6: the checkpoint a worker saves after a record is the one its store offers at the next start: the
  store holds checkpoints of the worker's partition up to that record, and the name of the new one is the
  greatest; afterwards the store again holds checkpoints up to the new offset.
\<close>

theorem saved_checkpoint_is_latest:
  assumes "save_checkpoint_for_source (file_save outcomes) source rt directory = (Inr None, directory')"
    and "in_i64 (cr_offset source)"
    and "checkpoints_up_to (cr_topic source) (cr_partition source) (cr_offset source) directory"
  shows "\<exists>ck. ck_source_position ck = \<lparr>cp_topic = cr_topic source, cp_partition = cr_partition source,
       cp_next_offset = cr_offset source + 1\<rparr> \<and>
     create_checkpoint rt (ck_source_position ck) (checkpoint_id_for (ck_source_position ck)) = Inr ck \<and>
     (checkpoint_in_range ck \<longrightarrow> file_load_latest directory' = Some (stored_checkpoint ck)) \<and>
     checkpoints_up_to (cr_topic source) (cr_partition source) (cr_offset source + 1) directory'"
proof -
  let ?pos = "\<lparr>cp_topic = cr_topic source, cp_partition = cr_partition source, cp_next_offset = cr_offset source + 1\<rparr>"
  have range: "in_i64 (cr_offset source + 1)" using source_checkpoint(1) [OF assms(1)] assms(2) by (simp add: in_i64_def)
  then obtain ck where ck: "create_checkpoint rt ?pos (checkpoint_id_for ?pos) = Inr ck"
      and save: "file_save outcomes ck directory = (Inr (), directory')"
    using source_checkpoint(2) [OF assms(1)] by auto
  note fs = create_checkpoint_fields [OF ck]
  have pos: "0 \<le> cr_partition source" "0 \<le> cr_offset source + 1"
    using fs(4) by (auto simp: require_valid_source_position_def validate_checkpoint_source_position_def split: if_splits)
  have newest: "\<forall>n \<in> dom (checkpoint_texts directory). n \<le> checkpoint_filename_for_id (ck_checkpoint_id ck)"
  proof
    fix n assume "n \<in> dom (checkpoint_texts directory)"
    then obtain off where "0 \<le> off" "off \<le> cr_offset source" "n = checkpoint_filename_for_id
        (checkpoint_id_for \<lparr>cp_topic = cr_topic source, cp_partition = cr_partition source, cp_next_offset = off\<rparr>)"
      using assms(3) by (auto simp: checkpoints_up_to_def)
    then show "n \<le> checkpoint_filename_for_id (ck_checkpoint_id ck)"
      using worker_names_ordered [OF pos(1), of off "cr_offset source + 1" "cr_topic source"] range fs(2)
      by (simp add: less_imp_le)
  qed
  have "checkpoints_up_to (cr_topic source) (cr_partition source) (cr_offset source + 1) directory'"
    unfolding checkpoints_up_to_def file_save_texts(1) [OF save refl] fs(2)
  proof (intro ballI)
    fix n assume "n \<in> dom ((checkpoint_texts directory)(checkpoint_filename_for_id (checkpoint_id_for ?pos) \<mapsto> serialize_checkpoint ck))"
    then consider "n = checkpoint_filename_for_id (checkpoint_id_for ?pos)" | "n \<in> dom (checkpoint_texts directory)" by auto
    then show "\<exists>off. 0 \<le> off \<and> off \<le> cr_offset source + 1 \<and> n = checkpoint_filename_for_id
        (checkpoint_id_for \<lparr>cp_topic = cr_topic source, cp_partition = cr_partition source, cp_next_offset = off\<rparr>)"
    proof cases
      case 2
      then obtain off where "0 \<le> off" "off \<le> cr_offset source" "n = checkpoint_filename_for_id
          (checkpoint_id_for \<lparr>cp_topic = cr_topic source, cp_partition = cr_partition source, cp_next_offset = off\<rparr>)"
        using assms(3) by (auto simp: checkpoints_up_to_def)
      then show ?thesis by (intro exI [of _ off]) simp
    qed (use pos(2) in blast)
  qed
  then show ?thesis
    using ck fs(3) file_store.saved_latest [of outcomes ck directory directory'] save newest by auto
qed

definition demo_saved :: ConsumedRecord where
  "demo_saved = demo_consumed\<lparr>cr_offset := 3\<rparr>"

theorem saved_checkpoint_is_latest_witness:
  "\<exists>ck directory'. save_checkpoint_for_source (file_save no_failure) demo_saved (demo_runtime 700 500) None = (Inr None, directory') \<and>
     file_load_latest directory' = Some (stored_checkpoint ck) \<and> ck_source_position ck = demo_source"
proof -
  have source: "cr_topic demo_saved = EngineInputTopic" "cr_partition demo_saved = 0" "cr_offset demo_saved = 3"
    by (simp_all add: demo_saved_def demo_consumed_def)
  obtain ck where ck: "create_checkpoint (demo_runtime 700 500) demo_source (checkpoint_id_for demo_source) = Inr ck"
    using demo_checkpoint by blast
  obtain directory' where saved: "file_save no_failure ck None = (Inr (), directory')"
    by (simp add: file_save_def no_failure_def commit_file_def Let_def)
  have run: "save_checkpoint_for_source (file_save no_failure) demo_saved (demo_runtime 700 500) None = (Inr None, directory')"
    using ck saved by (simp add: save_checkpoint_for_source_def next_offset_def save_checkpoint_for_position_def source
        demo_source_def in_i64_def)
  have none: "checkpoints_up_to (cr_topic demo_saved) (cr_partition demo_saved) (cr_offset demo_saved) None"
    by (auto simp: checkpoints_up_to_def checkpoint_texts_def split: if_splits)
  from saved_checkpoint_is_latest [OF run _ none] obtain ck' where
    "create_checkpoint (demo_runtime 700 500) demo_source (checkpoint_id_for demo_source) = Inr ck'"
    "checkpoint_in_range ck' \<longrightarrow> file_load_latest directory' = Some (stored_checkpoint ck')" "ck_source_position ck' = demo_source"
    by (auto simp: source demo_source_def in_i64_def)
  then show ?thesis using run demo_checkpoint_in_range(1) by blast
qed

section \<open>Configuration and workers\<close>

text \<open>
  C32: the markets of every accepted configuration are fit for workers: at least one, each with valid
  symbol parameters and a symbol id that is its market id, no two with the same id, name or partition.
\<close>

theorem config_markets_valid:
  assumes "parse_engine_app_config read_file args env = Inr result"
  shows "config_markets_ok (ac_markets (ap_config result))"
  by (rule config_markets.parse_ok [OF assms])

lemma no_environment: "apply_environment read_file (engine_app_environment (\<lambda>_. None)) config = Inr config"
  by (simp add: apply_environment_def from_env_def engine_app_environment_def)

lemma once_parsed:
  "parse_engine_app_config read_file [''--once''] (engine_app_environment (\<lambda>_. None)) =
     Inr \<lparr>ap_config = default_engine_app_config\<lparr>ac_once := True, ac_poll_loop_limit := Some 1\<rparr>, ap_help_requested = False\<rparr>"
  by (simp add: parse_engine_app_config_def no_environment parse_argument_def Let_def)

theorem config_markets_valid_witness:
  "\<exists>result. parse_engine_app_config (\<lambda>_. None) [''--once''] (engine_app_environment (\<lambda>_. None)) = Inr result \<and>
     config_markets_ok (ac_markets (ap_config result))"
  using once_parsed [of "\<lambda>_. None"] config_markets_valid [OF once_parsed [of "\<lambda>_. None"]] by blast

lemma first_trade_id:
  "first_trade_id_for_market m = Inr t \<Longrightarrow> in_i64 m \<Longrightarrow> 0 < m \<and> m \<le> 18446744 \<and> uint t = m * 1000000000000 + 1"
proof -
  assume run: "first_trade_id_for_market m = Inr t" and m: "in_i64 m"
  have pos: "0 < m" and t: "t = word_of_int m * TradeIdNamespaceSize + 1"
    and le: "\<not> (word_of_int m :: u64) > (- 1 - 1) div TradeIdNamespaceSize"
    using run by (auto simp: first_trade_id_for_market_def Let_def split: if_splits)
  have w: "uint (word_of_int m :: u64) = m"
    using m pos by (simp add: uint_word_of_int in_i64_def)
  have quotient: "((- 1 - 1) div TradeIdNamespaceSize :: u64) = 18446744" unfolding TradeIdNamespaceSize_def by code_simp
  have small: "m \<le> 18446744"
    using le unfolding quotient word_less_def by (simp add: w)
  have "t = word_of_int (m * 1000000000000 + 1)" by (simp add: t TradeIdNamespaceSize_def)
  then have "uint t = (m * 1000000000000 + 1) mod 2 ^ 64" by (simp only: uint_word_of_int) simp
  then have "uint t = m * 1000000000000 + 1" using small pos by simp
  then show ?thesis using pos small by simp
qed

lemma padded_partition_inj: "in_i32 p \<Longrightarrow> in_i32 q \<Longrightarrow> 0 \<le> p \<Longrightarrow> 0 \<le> q \<Longrightarrow> padded 10 p = padded 10 q \<Longrightarrow> p = q"
  using padded_digits(3) [of p 9] padded_digits(3) [of q 9] by (auto simp: in_i32_def)

text \<open>
  C31: two workers of one accepted configuration share nothing: their partitions and the scopes of their
  checkpoint stores differ, no record passes the guards of both, and the ranges of their trade ids are
  disjoint.
\<close>

theorem workers_separate:
  assumes "config_markets_ok (ac_markets config)" "m1 \<in> set (ac_markets config)" "m2 \<in> set (ac_markets config)" "m1 \<noteq> m2"
  shows "checkpoint_scope_for (ac_input_topic config) (mc_input_partition m1) \<noteq>
      checkpoint_scope_for (ac_input_topic config) (mc_input_partition m2) \<and>
    (input_guard (worker_guard config m1) r \<noteq> None \<or> input_guard (worker_guard config m2) r \<noteq> None) \<and>
    (\<forall>t1 t2. first_trade_id_for_market (mc_market_id m1) = Inr t1 \<longrightarrow> first_trade_id_for_market (mc_market_id m2) = Inr t2 \<longrightarrow>
      {uint t1 ..< uint t1 + uint TradeIdNamespaceSize} \<inter> {uint t2 ..< uint t2 + uint TradeIdNamespaceSize} = {})"
proof -
  have ok: "config_market_ok m1" "config_market_ok m2"
    and ids: "mc_market_id m1 \<noteq> mc_market_id m2" and parts: "mc_input_partition m1 \<noteq> mc_input_partition m2"
    using assms by (auto simp: config_markets_ok_def list_all_iff distinct_map inj_on_def)
  have ranges: "in_i32 (mc_input_partition m1)" "in_i32 (mc_input_partition m2)" "0 \<le> mc_input_partition m1"
      "0 \<le> mc_input_partition m2" "in_i64 (mc_market_id m1)" "in_i64 (mc_market_id m2)"
    using ok by (auto simp: config_market_ok_def Let_def in_i64_def)
  have "checkpoint_scope_for (ac_input_topic config) (mc_input_partition m1) \<noteq>
      checkpoint_scope_for (ac_input_topic config) (mc_input_partition m2)"
    using padded_partition_inj [of "mc_input_partition m1" "mc_input_partition m2"] ranges parts
    by (auto simp: checkpoint_scope_for_def)
  moreover have "input_guard (worker_guard config m1) r \<noteq> None \<or> input_guard (worker_guard config m2) r \<noteq> None"
    using parts by (auto simp: input_guard_def worker_guard_def)
  moreover have "{uint t1 ..< uint t1 + uint TradeIdNamespaceSize} \<inter> {uint t2 ..< uint t2 + uint TradeIdNamespaceSize} = {}"
    if "first_trade_id_for_market (mc_market_id m1) = Inr t1" "first_trade_id_for_market (mc_market_id m2) = Inr t2" for t1 t2
    using first_trade_id [OF that(1) ranges(5)] first_trade_id [OF that(2) ranges(6)] ids by (auto simp: TradeIdNamespaceSize_def)
  ultimately show ?thesis by blast
qed

definition second_market :: EngineMarketConfig where
  "second_market = default_sol_perp_market_config\<lparr>mc_market_id := 2, mc_market_name := ''BTC-PERP'', mc_input_partition := 1,
     mc_symbol_config := (mc_symbol_config default_sol_perp_market_config)\<lparr>sc_symbolId := 2\<rparr>\<rparr>"

theorem workers_separate_witness:
  "\<exists>config :: EngineAppConfig. ac_markets config = [default_sol_perp_market_config, second_market] \<and>
     checkpoint_scope_for (ac_input_topic config) 0 \<noteq> checkpoint_scope_for (ac_input_topic config) 1"
proof -
  let ?config = "default_engine_app_config\<lparr>ac_markets := [default_sol_perp_market_config, second_market]\<rparr>"
  have ok: "config_markets_ok (ac_markets ?config)"
    by (simp add: config_markets_ok_def second_market_def default_sol_perp_market_config_def config_market_ok_def Let_def
        blank_def is_space_char_def in_i32_def)
  have "default_sol_perp_market_config \<noteq> second_market"
    by (simp add: second_market_def default_sol_perp_market_config_def)
  then have "checkpoint_scope_for (ac_input_topic ?config) (mc_input_partition default_sol_perp_market_config) \<noteq>
      checkpoint_scope_for (ac_input_topic ?config) (mc_input_partition second_market)"
    using workers_separate [OF ok, of default_sol_perp_market_config second_market] by simp
  moreover have "mc_input_partition default_sol_perp_market_config = 0" "mc_input_partition second_market = 1"
    by (simp_all add: second_market_def default_sol_perp_market_config_def)
  ultimately have "checkpoint_scope_for (ac_input_topic ?config) 0 \<noteq> checkpoint_scope_for (ac_input_topic ?config) 1"
    by metis
  moreover have "ac_markets ?config = [default_sol_perp_market_config, second_market]" by simp
  ultimately show ?thesis by (intro exI [of _ ?config]) simp
qed

text \<open>
  The configuration accepts every market id that fits a symbol id; the worker refuses those whose trade ids
  would not fit.
\<close>

lemma config_accepts_unstartable_market:
  "symbol_id_from_market_id 18446745 path n = Inr 18446745"
  "first_trade_id_for_market 18446745 = Inl ''market_id is too large for trade id seed''"
proof -
  have "(18446745 :: u64) > (- 1 - 1) div TradeIdNamespaceSize" unfolding TradeIdNamespaceSize_def by code_simp
  then show "first_trade_id_for_market 18446745 = Inl ''market_id is too large for trade id seed''"
    by (simp add: first_trade_id_for_market_def Let_def)
qed (simp add: symbol_id_from_market_id_def)

section \<open>A worker ends\<close>

lemma worker_loop_returns:
  "unat (n - k) = d \<Longrightarrow> k \<le> n \<Longrightarrow> \<exists>r. worker_loop br stop_requested market (Some n) k app = Some r"
proof (induction d arbitrary: k app)
  case 0
  then have "k = n" by (simp add: unat_eq_0)
  then show ?case by (subst worker_loop.simps) (simp add: split_beta Let_def)
next
  case (Suc d)
  show ?case
  proof (cases "k < n")
    case True
    then have "unat (k + 1) = Suc (unat k)" 
      using True unat_fits [of n] by (simp add: unat_word_ariths word_less_nat_alt)
    then have step: "unat (n - (k + 1)) = d" "k + 1 \<le> n"
      using Suc.prems inc_le [OF True] by (simp_all add: unat_sub)
    have "\<exists>r. worker_loop br stop_requested market (Some n) (k + 1) app' = Some r" for app'
      by (rule Suc.IH [OF step])
    then show ?thesis by (subst worker_loop.simps) (auto simp: split_beta Let_def split: sum.split)
  qed (use Suc.prems in \<open>simp add: not_less\<close>)
qed

text \<open>
  C33: a worker with a poll limit ends: recovery, the startup scan and the polling loop return, whatever the
  broker, the store and the flag answer, as long as the consumer delivers in order.
\<close>

theorem limited_worker_returns:
  assumes "in_order br pos log" "ac_poll_loop_limit config = Some n"
  shows "\<exists>r. run_engine_partition_worker system_clock br load_latest save stop_requested config market w = Some r"
proof -
  have loop: "worker_loop br stop_requested market (ac_poll_loop_limit config) 0 app \<noteq> None" for app
    using worker_loop_returns [of n 0, OF refl] assms(2) by auto
  have recovery: "recover_and_replay load_latest br expected rt w \<noteq> None" for expected rt w
    using recover_and_replay_returns [OF assms(1)] by blast
  have "run_engine_partition_worker system_clock br load_latest save stop_requested config market w \<noteq> None"
    unfolding run_engine_partition_worker_def using loop recovery
    by (simp add: Option.bind_eq_None_conv split_beta split: sum.split option.split del: not_None_eq)
  then show ?thesis by simp
qed

theorem limited_worker_returns_witness:
  "\<exists>r. run_engine_partition_worker (\<lambda>_. 0) (log_broker [demo_consumed] 5) (\<lambda>w. (Inr None, w)) (\<lambda>ck w. (Inr (), w))
     (\<lambda>w. (False, w)) (default_engine_app_config\<lparr>ac_poll_loop_limit := Some 1\<rparr>) default_sol_perp_market_config 0 = Some r"
  by (rule limited_worker_returns [OF log_broker_in_order [of 5 demo_consumed], where n = 1]) (simp_all add: in_i64_def)

section \<open>The object store\<close>

text \<open>What a server answers to the listing: page after page, the last one not truncated.\<close>

fun pages_served :: "'w perform_request \<Rightarrow> S3CheckpointStore \<Rightarrow> string option \<Rightarrow> string list \<Rightarrow> 'w \<Rightarrow> 'w \<Rightarrow> bool" where
  "pages_served req st token [] w w' \<longleftrightarrow> False"
| "pages_served req st token (body # bodies) w w' \<longleftrightarrow> (\<exists>w1. request_checked req st ''list'' (list_url st token) HttpGet [] w = (Inr body, w1) \<and>
     (if bodies = [] then \<not> page_truncated body \<and> w' = w1
      else page_truncated body \<and> (\<exists>t. next_token body = Inr t \<and> pages_served req st (Some t) bodies w1 w')))"

lemma list_pages_served:
  "pages_served req st token bodies w w' \<Longrightarrow>
     list_pages req st token candidates w = Some (Inr (candidates @ concat (map (page_keys st) bodies)), w')"
proof (induction bodies arbitrary: token candidates w)
  case (Cons body bodies)
  then show ?case by (subst list_pages.simps) (auto split: if_splits)
qed simp

text \<open>
  C35: the object store reads the newest object: when the server lists its objects over any number of pages,
  \<open>load_latest\<close> requests the greatest of all listed keys that are checkpoints under the prefix, and
  returns the checkpoint whose text that object is.
\<close>

theorem s3_loads_greatest_key:
  assumes "pages_served req st None bodies w w1"
    and "keys = concat (map (page_keys st) bodies)" "keys \<noteq> []"
    and "request_checked req st ''get'' (object_url st (Max (set keys))) HttpGet [] w1 = (Inr (serialize_checkpoint ck), w2)"
    and "checkpoint_in_range ck"
  shows "s3_load_latest req st w = Some (Inr (Some (stored_checkpoint ck)), w2) \<and>
    (\<forall>key \<in> set keys. starts_with key (sx_prefix (s3s_config st)) \<and> has_suffix key CheckpointFileExtension)"
proof -
  have "sort keys \<noteq> []" using assms(3) by (metis set_empty set_sort)
  then have "s3_load_latest req st w = Some (Inr (Some (stored_checkpoint ck)), w2)"
    using list_pages_served [OF assms(1), of "[]"] assms(2-5) last_sort_Max [OF assms(3)]
    by (simp add: s3_load_latest_def list_checkpoint_keys_def try_deserialize_checkpoint_def deserialize_serialize)
  then show ?thesis using assms(2) by (auto simp: page_keys_def)
qed

text \<open>A server with two pages: each answer is chosen by the URL.\<close>

definition demo_page :: "string list \<Rightarrow> string \<Rightarrow> string" where
  "demo_page keys rest = concat (map (\<lambda>key. ''<Key>'' @ key @ ''</Key>'') keys) @ rest"

definition demo_store :: S3CheckpointStore where
  "demo_store = \<lparr>s3s_config = \<lparr>sx_endpoint = ''http://s'', sx_bucket = ''b'', sx_access_key = ''a'', sx_secret_key = ''k'',
     sx_region = ''r'', sx_prefix = ''p/'', sx_connect_timeout_ms = 1, sx_request_timeout_ms = 1\<rparr>,
     s3s_sigv4_scope = ''aws:amz:r:s3''\<rparr>"

definition demo_server :: "EngineCheckpoint \<Rightarrow> unit perform_request" where
  "demo_server ck = (\<lambda>cfg scope url method body w. (Inr \<lparr>hr_status = 200, hr_body =
     (if url = list_url demo_store None
      then demo_page [''p/b.checkpoint'', ''p/x.tmp''] ''<IsTruncated>true</IsTruncated><NextContinuationToken>t</NextContinuationToken>''
      else if url = list_url demo_store (Some ''t'') then demo_page [''p/c.checkpoint'', ''q/d.checkpoint''] []
      else if url = object_url demo_store ''p/c.checkpoint'' then serialize_checkpoint ck else ''old'')\<rparr>, w))"

lemma demo_pages:
  "page_keys demo_store (demo_page [''p/b.checkpoint'', ''p/x.tmp'']
     ''<IsTruncated>true</IsTruncated><NextContinuationToken>t</NextContinuationToken>'') = [''p/b.checkpoint'']"
  "page_keys demo_store (demo_page [''p/c.checkpoint'', ''q/d.checkpoint''] []) = [''p/c.checkpoint'']"
  "page_truncated (demo_page [''p/b.checkpoint'', ''p/x.tmp'']
     ''<IsTruncated>true</IsTruncated><NextContinuationToken>t</NextContinuationToken>'')"
  "\<not> page_truncated (demo_page [''p/c.checkpoint'', ''q/d.checkpoint''] [])"
  "next_token (demo_page [''p/b.checkpoint'', ''p/x.tmp'']
     ''<IsTruncated>true</IsTruncated><NextContinuationToken>t</NextContinuationToken>'') = Inr ''t''"
  by code_simp+

lemma demo_urls:
  "list_url demo_store (Some ''t'') \<noteq> list_url demo_store None"
  "object_url demo_store ''p/c.checkpoint'' \<noteq> list_url demo_store None"
  "object_url demo_store ''p/c.checkpoint'' \<noteq> list_url demo_store (Some ''t'')"
  by code_simp+

theorem s3_loads_greatest_key_witness:
  "\<exists>ck. create_checkpoint (demo_runtime 700 500) demo_source ''c'' = Inr ck \<and>
     s3_load_latest (demo_server ck) demo_store () = Some (Inr (Some (stored_checkpoint ck)), ())"
proof -
  obtain ck where ck: "create_checkpoint (demo_runtime 700 500) demo_source ''c'' = Inr ck" using demo_checkpoint by blast
  let ?page1 = "demo_page [''p/b.checkpoint'', ''p/x.tmp''] ''<IsTruncated>true</IsTruncated><NextContinuationToken>t</NextContinuationToken>''"
  let ?page2 = "demo_page [''p/c.checkpoint'', ''q/d.checkpoint''] []"
  have served: "pages_served (demo_server ck) demo_store None [?page1, ?page2] () ()"
    by (simp add: request_checked_def demo_server_def demo_urls demo_pages)
  have keys: "[''p/b.checkpoint'', ''p/c.checkpoint''] = concat (map (page_keys demo_store) [?page1, ?page2])"
    by (simp add: demo_pages)
  have max: "Max (set [''p/b.checkpoint'', ''p/c.checkpoint'']) = ''p/c.checkpoint''" by code_simp
  have "request_checked (demo_server ck) demo_store ''get'' (object_url demo_store (Max (set [''p/b.checkpoint'', ''p/c.checkpoint''])))
      HttpGet [] () = (Inr (serialize_checkpoint ck), ())"
    unfolding max by (simp add: request_checked_def demo_server_def demo_urls)
  from s3_loads_greatest_key [OF served keys _ this demo_checkpoint_in_range(1) [OF ck]] show ?thesis using ck by simp
qed

end
