(* ===== verification/KafkaProperties.thy ===== *)
theory KafkaProperties
  imports RdKafka WorkerProperties
begin

text \<open>
  Properties of the broker on librdkafka: it delivers in order when the library does, so recovery and the
  worker are right on it; a record counts as produced only when its delivery was confirmed; offsets are
  committed without overflow; and a worker's own settings are valid.
\<close>

section \<open>Order of delivery\<close>

text \<open>
  What librdkafka documents for a consumer of one partition, on a cluster that holds no other, while no
  record of it is deleted.  \<open>log\<close> are the records of the partition by offset, which may have gaps;
  \<open>pos\<close> is the offset the consumer has reached and \<open>retained\<close> what the broker answers to a query for the
  watermarks.  A consumed message is the first one of the log at or behind the position.  Assigning the
  partition at an offset continues there when the broker has the offset; when it is outside of the retained
  range, the setting \<open>auto.offset.reset=earliest\<close> of \<open>create_consumer_conf\<close> sends the consumer to the low
  watermark; and nothing is said of negative offsets, which librdkafka takes for names of positions.
\<close>

definition kafka_partition_log ::
    "('c, 'w) KafkaLibrary \<Rightarrow> string \<Rightarrow> int32 \<Rightarrow> ConsumedRecord list \<Rightarrow> ('w \<Rightarrow> int) \<Rightarrow> ('w \<Rightarrow> int64 \<times> int64) \<Rightarrow> bool" where
  "kafka_partition_log lib topic part log pos retained \<longleftrightarrow>
     sorted_wrt (\<lambda>x y. cr_offset x < cr_offset y) log \<and>
     (\<forall>timeout w m w'. rk_consume lib timeout w = (Some m, w') \<longrightarrow> km_err m = ErrNoError \<longrightarrow>
        find (\<lambda>x. pos w \<le> cr_offset x) log = Some (consumed_record m) \<and> pos w' = km_offset m + 1) \<and>
     (\<forall>t p timeout w low high w'. rk_query_watermark_offsets lib t p timeout w = ((ErrNoError, low, high), w') \<longrightarrow>
        t = topic \<and> p = part \<and> in_i64 low \<and> in_i64 high \<and> retained w' = (low, high)) \<and>
     (\<forall>w w'. rk_unsubscribe lib w = (ErrNoError, w') \<longrightarrow> retained w' = retained w) \<and>
     (\<forall>offset w w'. rk_assign lib [(topic, part, offset)] w = (ErrNoError, w') \<longrightarrow> 0 \<le> offset \<longrightarrow>
        pos w' = (if fst (retained w) \<le> offset \<and> offset \<le> snd (retained w) then offset else fst (retained w)))"

lemma consumed_record_offset [simp]: "cr_offset (consumed_record m) = km_offset m"
  by (simp add: consumed_record_def)

text \<open>The first record at or behind a position leaves none out.\<close>

lemma find_next_record:
  assumes "sorted_wrt (\<lambda>x y. cr_offset x < cr_offset y) log" "find (\<lambda>x. p \<le> cr_offset x) log = Some r"
  shows "p \<le> cr_offset r" "\<forall>x \<in> set log. p \<le> cr_offset x \<longrightarrow> cr_offset x \<le> cr_offset r \<longrightarrow> x = r"
  using assms by (induction log) (auto split: if_splits)

lemma rdkafka_watermark_queries:
  assumes "rdkafka_watermark lib consumer topic part w = (r, w')" "wr_offsets r = Some offsets"
  shows "\<exists>timeout. rk_query_watermark_offsets lib topic part timeout w = ((ErrNoError, wm_low offsets, wm_high offsets), w')"
    "0 \<le> wm_low offsets \<and> wm_low offsets \<le> wm_high offsets"
  using assms by (auto simp: rdkafka_watermark_def watermark_error_def validate_watermark_offsets_def
      intro!: exI split: option.splits prod.splits if_splits)

lemma reassign_assigns:
  assumes "reassign lib consumer topic part off w = (None, w')"
  shows "\<exists>w1. (w1 = w \<or> rk_unsubscribe lib w = (ErrNoError, w1)) \<and> rk_assign lib [(topic, part, off)] w1 = (ErrNoError, w')"
  using assms by (auto simp: reassign_def Let_def split: prod.splits if_splits)

text \<open>A seek that succeeds has asked for the watermarks and found the offset within them.\<close>

lemma rdkafka_seek_steps:
  assumes "rdkafka_seek lib consumer topic part off w = (None, w')"
  shows "0 \<le> off \<and> (\<exists>r offsets w1. rdkafka_watermark lib consumer topic part w = (r, w1) \<and> wr_offsets r = Some offsets \<and>
    wm_low offsets \<le> off \<and> off \<le> wm_high offsets \<and> reassign lib consumer topic part off w1 = (None, w'))"
proof -
  obtain r w1 where wm: "rdkafka_watermark lib consumer topic part w = (r, w1)" by force
  have valid: "validate_seek_request topic part off = None" and ok: "watermark_ok r"
    and offset: "validate_seek_offset topic part off (the (wr_offsets r)) = None"
    and rest: "reassign lib consumer topic part off w1 = (None, w')"
    using assms wm by (auto simp: rdkafka_seek_def Let_def split: option.splits if_splits)
  have "0 \<le> off" using valid by (auto simp: validate_seek_request_def split: if_splits option.splits elim: first_error.elims)
  moreover obtain offsets where "wr_offsets r = Some offsets" using ok by (auto simp: watermark_ok_def)
  ultimately show ?thesis using wm offset rest by (auto simp: validate_seek_offset_def split: if_splits)
qed

lemma negative_refused: "off < 0 \<Longrightarrow> \<exists>e. validate_seek_request t p off = Some e"
  by (cases "validate_partition_request t p") (simp_all add: validate_seek_request_def)

text \<open>
  C26: on a library that keeps the order of a partition and sends a consumer assigned outside of the
  retained range back to its beginning, the broker delivers in order, as recovery and the worker need it: a
  poll hands out the next record of the log, leaving none out, and a seek that succeeds moves the consumer
  to exactly its offset, because offsets outside of the watermarks are refused; a negative offset is refused
  before the library is called; and watermarks that are answered are not negative, the low one first.
\<close>

theorem rdkafka_delivers_in_order:
  assumes "kafka_partition_log lib topic part log pos retained"
  shows "in_order (rdkafka_broker lib consumer producer) pos (set log) \<and>
    (off < 0 \<longrightarrow> (\<exists>e. rdkafka_seek lib consumer t p off w = (Some e, w))) \<and>
    (rdkafka_watermark lib consumer t p w = (r, w') \<longrightarrow> wr_offsets r = Some offsets \<longrightarrow>
       0 \<le> wm_low offsets \<and> wm_low offsets \<le> wm_high offsets)"
proof (intro conjI impI)
  note parts = assms [unfolded kafka_partition_log_def]
  have "pos w \<le> cr_offset r \<and> pos w' = cr_offset r + 1 \<and> (\<forall>x \<in> set log. pos w \<le> cr_offset x \<longrightarrow> cr_offset x \<le> cr_offset r \<longrightarrow> x = r)"
    if poll: "rdkafka_poll lib consumer w = (Inr (Some r), w')" for w r w'
  proof -
    obtain m where m: "rk_consume lib (to_timeout_ms (ki_poll_timeout consumer)) w = (Some m, w')" "km_err m = ErrNoError"
      "r = consumed_record m"
      using poll by (auto simp: rdkafka_poll_def split: option.splits prod.splits if_splits)
    then have "find (\<lambda>x. pos w \<le> cr_offset x) log = Some r" "pos w' = cr_offset r + 1" using parts by auto
    then show ?thesis using find_next_record [of log "pos w" r] parts by simp
  qed
  moreover have "pos w' = off" if seek: "rdkafka_seek lib consumer t p off w = (None, w')" for t p off w w'
  proof -
    obtain r offsets w1 where s: "0 \<le> off" "rdkafka_watermark lib consumer t p w = (r, w1)" "wr_offsets r = Some offsets"
      "wm_low offsets \<le> off" "off \<le> wm_high offsets" "reassign lib consumer t p off w1 = (None, w')"
      using rdkafka_seek_steps [OF seek] by blast
    then have known: "t = topic" "p = part" "retained w1 = (wm_low offsets, wm_high offsets)"
      using rdkafka_watermark_queries(1) [OF s(2,3)] parts by blast+
    obtain w2 where "w2 = w1 \<or> rk_unsubscribe lib w1 = (ErrNoError, w2)" "rk_assign lib [(topic, part, off)] w2 = (ErrNoError, w')"
      using reassign_assigns [OF s(6)] known by blast
    then show ?thesis using parts known(3) s(1,4,5) by fastforce
  qed
  moreover have "in_i64 (wm_low offsets) \<and> in_i64 (wm_high offsets)"
    if "rdkafka_watermark lib consumer t p w = (r, w')" "wr_offsets r = Some offsets" for t p w r w' offsets
    using rdkafka_watermark_queries(1) [OF that] parts by blast
  ultimately show "in_order (rdkafka_broker lib consumer producer) pos (set log)"
    by (auto simp: in_order_def rdkafka_broker_def map_prod_def split: prod.splits)
  show "\<exists>e. rdkafka_seek lib consumer t p off w = (Some e, w)" if "off < 0"
    using that negative_refused [of off t p] by (auto simp: rdkafka_seek_def)
  show "0 \<le> wm_low offsets" "wm_low offsets \<le> wm_high offsets"
    if "rdkafka_watermark lib consumer t p w = (r, w')" "wr_offsets r = Some offsets"
    using rdkafka_watermark_queries(2) [OF that] by simp_all
qed

text \<open>
  A library with one partition: the input topic, number 0, the records \<open>log\<close> and the watermarks 0 and \<open>high\<close>.  The
  state of the world is the offset of the consumer.
\<close>

definition log_library :: "ConsumedRecord list \<Rightarrow> int64 \<Rightarrow> (unit, int) KafkaLibrary" where
  "log_library log high = \<lparr>rk_conf_create = (), rk_conf_set = (\<lambda>c n v. Inr c), rk_conf_set_dr_cb = Inr,
     rk_err2str = (\<lambda>code. ''error''), rk_version = ''1'', rk_create_consumer = (\<lambda>c w. (Inr (), w)),
     rk_create_producer = (\<lambda>c w. (Inr (), w)), rk_partition = (\<lambda>p. True),
     rk_assign = (\<lambda>ps w. (ErrNoError, case ps of (topic, part, off) # _ \<Rightarrow> if 0 \<le> off \<and> off \<le> high then off else 0 | [] \<Rightarrow> w)),
     rk_subscribe = (\<lambda>topics w. (ErrNoError, w)), rk_unsubscribe = (\<lambda>w. (ErrNoError, w)), rk_close = (\<lambda>w. w),
     rk_consume = (\<lambda>timeout w. case find (\<lambda>x. w \<le> cr_offset x) log of
         Some r \<Rightarrow> (Some \<lparr>km_err = ErrNoError, km_errstr = [], km_topic = cr_topic r, km_partition = cr_partition r,
           km_offset = cr_offset r, km_key = cr_key r, km_payload = Some (cr_value r)\<rparr>, cr_offset r + 1)
       | None \<Rightarrow> (None, w)),
     rk_query_watermark_offsets = (\<lambda>topic part timeout w.
       if topic = EngineInputTopic \<and> part = 0 then ((ErrNoError, 0, high), w) else ((ErrOther 3, 0, 0), w)),
     rk_commit_sync = (\<lambda>p w. ((ErrNoError, ErrNoError), w)),
     rk_produce = (\<lambda>topic part value key w. (ErrNoError, w)), rk_flush = (\<lambda>timeout w. ((ErrNoError, []), w))\<rparr>"

lemma log_library_keeps_log:
  assumes "sorted_wrt (\<lambda>x y. cr_offset x < cr_offset y) log" "in_i64 high"
  shows "kafka_partition_log (log_library log high) EngineInputTopic 0 log (\<lambda>w. w) (\<lambda>w. (0, high))"
  using assms by (auto simp: kafka_partition_log_def log_library_def consumed_record_def in_i64_def split: if_splits option.splits)

text \<open>Two records with a gap between their offsets.\<close>

definition demo_partition_log :: "ConsumedRecord list" where
  "demo_partition_log = [demo_consumed, demo_consumed\<lparr>cr_offset := cr_offset demo_consumed + 2\<rparr>]"

definition demo_consumer :: "RdKafkaEngineInputConsumer" where
  "demo_consumer = \<lparr>ki_poll_timeout = 100, ki_seek_timeout = 5000, ki_watermark_timeout = 5000, ki_statically_assigned = True\<rparr>"

theorem rdkafka_delivers_in_order_witness:
  "in_order (rdkafka_broker (log_library demo_partition_log 9) demo_consumer \<lparr>kr_flush_timeout = 5000\<rparr>) (\<lambda>w. w) (set demo_partition_log) \<and>
   (\<exists>e. rdkafka_seek (log_library demo_partition_log 9) demo_consumer EngineInputTopic 0 (- 1) 4 = (Some e, 4)) \<and>
   rdkafka_seek (log_library demo_partition_log 9) demo_consumer EngineInputTopic 0 9 4 = (None, 9) \<and>
   rdkafka_watermark (log_library demo_partition_log 9) demo_consumer EngineInputTopic 0 4 = (\<lparr>wr_offsets = Some \<lparr>wm_low = 0, wm_high = 9\<rparr>, wr_error = None\<rparr>, 4)"
proof -
  have log: "kafka_partition_log (log_library demo_partition_log 9) EngineInputTopic 0 demo_partition_log (\<lambda>w. w) (\<lambda>w. (0, 9))"
    by (intro log_library_keeps_log) (simp_all add: demo_partition_log_def in_i64_def)
  have seek: "rdkafka_seek (log_library demo_partition_log 9) demo_consumer EngineInputTopic 0 9 4 = (None, 9)" by code_simp
  have wm: "rdkafka_watermark (log_library demo_partition_log 9) demo_consumer EngineInputTopic 0 4 =
      (\<lparr>wr_offsets = Some \<lparr>wm_low = 0, wm_high = 9\<rparr>, wr_error = None\<rparr>, 4)"
    by code_simp
  show ?thesis
    using seek wm rdkafka_delivers_in_order [OF log, where off = "- 1" and t = EngineInputTopic and p = 0 and w = 4 and consumer = demo_consumer
        and producer = "\<lparr>kr_flush_timeout = 5000\<rparr>" and r = "\<lparr>wr_offsets = Some \<lparr>wm_low = 0, wm_high = 9\<rparr>, wr_error = None\<rparr>" and w' = 4
        and offsets = "\<lparr>wm_low = 0, wm_high = 9\<rparr>"] by simp
qed

section \<open>Confirmed delivery\<close>

lemma delivery_reports_fine:
  "fold (dr_cb lib) reports e = None \<Longrightarrow> e = None \<and> (\<forall>m \<in> set reports. km_err m = ErrNoError)"
proof (induction reports arbitrary: e)
  case (Cons m reports)
  have "dr_cb lib m e = None \<and> (\<forall>m \<in> set reports. km_err m = ErrNoError)" using Cons.IH [of "dr_cb lib m e"] Cons.prems by simp
  then show ?case by (auto simp: dr_cb_def split: if_splits)
qed simp

text \<open>
  C27: a record counts as produced only when the library accepted it with the topic, partition, key and value
  asked for, the flush completed in time and no delivery report that it served told of a failure.
\<close>

theorem produced_means_delivered:
  assumes "rdkafka_produce lib producer req w = (None, w')"
  shows "\<exists>w1 reports.
    rk_produce lib (pd_topic req) (pd_partition req) (non_empty (pd_value req)) (non_empty (pd_key req)) w = (ErrNoError, w1) \<and>
    rk_flush lib (to_timeout_ms (kr_flush_timeout producer)) w1 = ((ErrNoError, reports), w') \<and>
    (\<forall>m \<in> set reports. km_err m = ErrNoError)"
proof -
  obtain code w1 where sent: "rk_produce lib (pd_topic req) (pd_partition req) (non_empty (pd_value req)) (non_empty (pd_key req)) w = (code, w1)"
    by force
  obtain code' reports w2 where flushed: "rk_flush lib (to_timeout_ms (kr_flush_timeout producer)) w1 = ((code', reports), w2)"
    by (metis prod.collapse)
  have "code = ErrNoError" "code' = ErrNoError" "fold (dr_cb lib) reports None = None" "w2 = w'"
    using assms sent flushed by (auto simp: rdkafka_produce_def split: option.splits if_splits)
  then show ?thesis using sent flushed delivery_reports_fine [of lib reports None] by blast
qed

theorem produced_means_delivered_witness:
  "rdkafka_produce (log_library demo_partition_log 9) \<lparr>kr_flush_timeout = 5000\<rparr>
     \<lparr>pd_topic = ''t'', pd_key = ''k'', pd_partition = None, pd_value = ''v''\<rparr> 0 = (None, 0) \<and>
   (\<exists>w1 reports. rk_flush (log_library demo_partition_log 9) (to_timeout_ms 5000) w1 = ((ErrNoError, reports), 0) \<and>
     (\<forall>m \<in> set reports. km_err m = ErrNoError))"
proof -
  have run: "rdkafka_produce (log_library demo_partition_log 9) \<lparr>kr_flush_timeout = 5000\<rparr>
     \<lparr>pd_topic = ''t'', pd_key = ''k'', pd_partition = None, pd_value = ''v''\<rparr> 0 = (None, 0)"
    by (simp add: rdkafka_produce_def validate_produce_request_def blank_def is_space_char_def log_library_def)
  show ?thesis using run produced_means_delivered [OF run] by auto
qed

section \<open>Offsets and timeouts\<close>

text \<open>The offset after the record's is committed, and it does not overflow.\<close>

lemma committed_offset_exact:
  assumes "rdkafka_commit lib req w = (None, w')" "in_i64 (oc_offset req)"
  shows "in_i64 (oc_offset req + 1) \<and>
    rk_commit_sync lib (oc_topic req, oc_partition req, oc_offset req + 1) w = ((ErrNoError, ErrNoError), w')"
proof -
  have "validate_commit_request req = None" using assms(1) by (auto simp: rdkafka_commit_def split: option.splits)
  then have range: "in_i64 (oc_offset req + 1)"
    using assms(2) by (auto simp: validate_commit_request_def in_i64_def split: if_splits)
  then show ?thesis
    using assms(1) by (auto simp: rdkafka_commit_def Let_def split: option.splits prod.splits if_splits)
qed

lemma first_error_None: "first_error checks = None \<longleftrightarrow> (\<forall>c \<in> set checks. c = None)"
  by (induction checks rule: first_error.induct) auto

lemma validated_timeout: "validate_timeout t name = None \<Longrightarrow> to_timeout_ms t = t"
  by (auto simp: validate_timeout_def to_timeout_ms_def signed_take_bit_int_eq_self split: if_splits)

text \<open>The clients of a worker of an accepted configuration have valid settings, and their timeouts fit.\<close>

lemma worker_clients_valid:
  assumes "parse_engine_app_config read_file args env = Inr result" "market \<in> set (ac_markets (ap_config result))"
  shows "validate_consumer_config (worker_consumer_config (ap_config result) market) = None"
    "validate_producer_config (worker_producer_config (ap_config result) market) = None"
proof -
  have "config_market_ok market" using config_markets.parse_ok [OF assms(1)] assms(2) by (auto simp: config_markets_ok_def list_all_iff)
  moreover have "config_brokers_ok (ap_config result)" by (rule config_brokers.parse_ok [OF assms(1)])
  ultimately show "validate_consumer_config (worker_consumer_config (ap_config result) market) = None"
    "validate_producer_config (worker_producer_config (ap_config result) market) = None"
    by (simp_all add: validate_consumer_config_def validate_producer_config_def first_error_None validate_common_def
        validate_bootstrap_def validate_properties_def validate_group_id_def validate_timeout_def worker_consumer_config_def
        worker_producer_config_def config_brokers_ok_def config_market_ok_def Let_def blank_def EngineInputTopic_def
        is_space_char_def)
qed

lemma consumer_timeouts:
  assumes "make_consumer lib config w = (Inr consumer, w')"
  shows "to_timeout_ms (ki_poll_timeout consumer) = kc_poll_timeout config"
    "to_timeout_ms (ki_watermark_timeout consumer) = kc_watermark_timeout config"
  using assms by (auto simp: make_consumer_def validate_consumer_config_def first_error_None validated_timeout
      split: option.splits sum.splits prod.splits)

end
