(* ===== verification/Process.thy ===== *)
theory Process
  imports Worker
begin

text \<open>
  The threads of \<open>main\<close> (\<^verbatim>\<open>src/src/app/main.cpp\<close>): one for every market, and the flag and the list of errors
  they share.  A thread is followed from one access to shared data to the next; what it does in between is
  \<open>run_engine_partition_worker\<close>, seen from outside: the startup and every poll succeed or throw.
\<close>

section \<open>One thread\<close>

text \<open>
  \<open>LoopHead n\<close> is before the condition of the polling loop after \<open>n\<close> polls, \<open>InPoll n\<close> in the body.  A thread
  that caught an exception appends its message, then sets the flag, then ends.
\<close>

datatype WorkerPhase =
    Starting | LoopHead u64 | InPoll u64 | Catching string | Stopping | Finished bool

datatype WorkerAction =
    StartedUp | StartFailed string | ReadsFlag | PollReturned | PollThrew string | ReportsError | RequestsStop

record EngineProcess =
  ep_workers :: "WorkerPhase list"
  ep_stop_requested :: bool
  ep_worker_errors :: "string list"

definition limit_reached :: "u64 option \<Rightarrow> u64 \<Rightarrow> bool" where
  "limit_reached limit poll_count = (case limit of None \<Rightarrow> False | Some n \<Rightarrow> \<not> poll_count < n)"

text \<open>What an action makes of the phase of the thread, the flag and the errors.\<close>

fun thread_step :: "u64 option \<Rightarrow> WorkerAction \<Rightarrow> WorkerPhase \<Rightarrow> bool \<Rightarrow> string list \<Rightarrow> (WorkerPhase \<times> bool \<times> string list) option" where
  "thread_step limit StartedUp Starting stop errors = Some (LoopHead 0, stop, errors)"
| "thread_step limit (StartFailed e) Starting stop errors = Some (Catching e, stop, errors)"
| "thread_step limit ReadsFlag (LoopHead n) stop errors =
     Some (if stop \<or> limit_reached limit n then Finished False else InPoll (n + 1), stop, errors)"
| "thread_step limit PollReturned (InPoll n) stop errors = Some (LoopHead n, stop, errors)"
| "thread_step limit (PollThrew e) (InPoll n) stop errors = Some (Catching e, stop, errors)"
| "thread_step limit ReportsError (Catching e) stop errors = Some (Stopping, stop, errors @ [e])"
| "thread_step limit RequestsStop Stopping stop errors = Some (Finished True, True, errors)"
| "thread_step limit _ _ stop errors = None"

section \<open>The process\<close>

definition initial_process :: "nat \<Rightarrow> EngineProcess" where
  "initial_process workers = \<lparr>ep_workers = replicate workers Starting, ep_stop_requested = False, ep_worker_errors = []\<rparr>"

text \<open>The threads run in any order.\<close>

inductive process_step :: "u64 option \<Rightarrow> EngineProcess \<Rightarrow> EngineProcess \<Rightarrow> bool" for limit where
  thread_moves: "i < length (ep_workers p) \<Longrightarrow>
     thread_step limit action (ep_workers p ! i) (ep_stop_requested p) (ep_worker_errors p) = Some (phase, stop, errors) \<Longrightarrow>
     process_step limit p \<lparr>ep_workers = (ep_workers p)[i := phase], ep_stop_requested = stop, ep_worker_errors = errors\<rparr>"

inductive_cases process_stepE: "process_step limit p p'"

abbreviation process_run :: "u64 option \<Rightarrow> EngineProcess \<Rightarrow> EngineProcess \<Rightarrow> bool" where
  "process_run limit \<equiv> (process_step limit)\<^sup>*\<^sup>*"

definition is_finished :: "WorkerPhase \<Rightarrow> bool" where
  "is_finished phase \<longleftrightarrow> (case phase of Finished _ \<Rightarrow> True | _ \<Rightarrow> False)"

definition joined :: "EngineProcess \<Rightarrow> bool" where
  "joined p \<longleftrightarrow> list_all is_finished (ep_workers p)"

datatype ExitStatus = ExitSuccess | ExitFailure

definition exit_status :: "EngineProcess \<Rightarrow> ExitStatus" where
  "exit_status p = (if ep_worker_errors p = [] then ExitSuccess else ExitFailure)"

text \<open>The exit status of \<open>main\<close>; the threads are started when no help is asked for, and joined.\<close>

inductive engine_main :: "(string \<Rightarrow> string option) \<Rightarrow> string list \<Rightarrow> EngineAppEnvironment \<Rightarrow> ExitStatus \<Rightarrow> bool"
  for read_file args env where
  main_config_error: "parse_engine_app_config read_file args env = Inl e \<Longrightarrow> engine_main read_file args env ExitFailure"
| main_help: "parse_engine_app_config read_file args env = Inr result \<Longrightarrow> ap_help_requested result \<Longrightarrow>
    engine_main read_file args env ExitSuccess"
| main_workers: "parse_engine_app_config read_file args env = Inr result \<Longrightarrow> \<not> ap_help_requested result \<Longrightarrow>
    process_run (ac_poll_loop_limit (ap_config result)) (initial_process (length (ac_markets (ap_config result)))) p \<Longrightarrow>
    joined p \<Longrightarrow> engine_main read_file args env (exit_status p)"

inductive_cases engine_mainE: "engine_main read_file args env status"

section \<open>What every interleaving keeps\<close>

lemma sum_list_update_nth:
  "i < length xs \<Longrightarrow> sum_list (map f (xs[i := x])) + f (xs ! i) = sum_list (map f xs) + (f x :: nat)"
  by (induction xs arbitrary: i) (auto simp: nth_Cons split: nat.splits)

definition reported :: "WorkerPhase \<Rightarrow> nat" where
  "reported phase = (if phase = Stopping \<or> phase = Finished True then 1 else 0)"

definition process_ok :: "EngineProcess \<Rightarrow> bool" where
  "process_ok p \<longleftrightarrow> (ep_stop_requested p \<longleftrightarrow> Finished True \<in> set (ep_workers p)) \<and>
     length (ep_worker_errors p) = sum_list (map reported (ep_workers p))"

lemma thread_step_reported:
  "thread_step limit action phase stop errors = Some (phase', stop', errors') \<Longrightarrow>
     length errors' + reported phase = length errors + reported phase' \<and> phase \<noteq> Finished True \<and>
     (stop' \<longleftrightarrow> stop \<or> phase' = Finished True)"
  by (induction limit action phase stop errors rule: thread_step.induct) (auto simp: reported_def split: if_splits)

lemma process_step_ok:
  assumes "process_step limit p p'" "process_ok p"
  shows "process_ok p' \<and> length (ep_workers p') = length (ep_workers p)"
proof -
  obtain i action phase stop errors where step: "i < length (ep_workers p)"
    "thread_step limit action (ep_workers p ! i) (ep_stop_requested p) (ep_worker_errors p) = Some (phase, stop, errors)"
    "p' = \<lparr>ep_workers = (ep_workers p)[i := phase], ep_stop_requested = stop, ep_worker_errors = errors\<rparr>"
    using assms(1) by (auto elim: process_stepE)
  note kept = thread_step_reported [OF step(2)]
  have "Finished True \<in> set ((ep_workers p)[i := phase]) \<longleftrightarrow> Finished True \<in> set (ep_workers p) \<or> phase = Finished True"
    using kept step(1) by (auto simp: in_set_conv_nth nth_list_update)
  then show ?thesis
    using kept assms(2) sum_list_update_nth [OF step(1), of reported phase] by (auto simp: process_ok_def step(3))
qed

lemma initial_process_ok: "process_ok (initial_process k)"
  by (simp add: process_ok_def initial_process_def reported_def sum_list_replicate)

lemma process_run_ok:
  "process_run limit (initial_process k) p \<Longrightarrow> process_ok p \<and> length (ep_workers p) = k"
proof (induction rule: rtranclp_induct)
  case base
  then show ?case by (simp add: initial_process_ok) (simp add: initial_process_def)
qed (use process_step_ok in auto)

section \<open>After a failure\<close>

text \<open>The actions a thread has left once the flag is set.\<close>

definition actions_left :: "WorkerPhase \<Rightarrow> nat" where
  "actions_left phase = (case phase of Starting \<Rightarrow> 3 | InPoll _ \<Rightarrow> 3 | Catching _ \<Rightarrow> 2 | LoopHead _ \<Rightarrow> 1 | Stopping \<Rightarrow> 1
     | Finished _ \<Rightarrow> 0)"

lemma thread_step_stopping:
  "thread_step limit action phase True errors = Some (phase', stop', errors') \<Longrightarrow>
     stop' \<and> actions_left phase' < actions_left phase"
  by (cases "(limit, action, phase, True, errors)" rule: thread_step.cases) (auto simp: actions_left_def)

lemma process_step_stopping:
  assumes "process_step limit p p'" "ep_stop_requested p"
  shows "ep_stop_requested p' \<and> sum_list (map actions_left (ep_workers p')) < sum_list (map actions_left (ep_workers p))"
proof -
  obtain i action phase stop errors where step: "i < length (ep_workers p)"
    "thread_step limit action (ep_workers p ! i) True (ep_worker_errors p) = Some (phase, stop, errors)"
    "p' = \<lparr>ep_workers = (ep_workers p)[i := phase], ep_stop_requested = stop, ep_worker_errors = errors\<rparr>"
    using assms by (auto elim: process_stepE)
  then show ?thesis
    using thread_step_stopping [OF step(2)] sum_list_update_nth [OF step(1), of actions_left phase] by simp
qed

lemma process_steps_stopping:
  "(process_step limit ^^ n) p p' \<Longrightarrow> ep_stop_requested p \<Longrightarrow>
     n + sum_list (map actions_left (ep_workers p')) \<le> sum_list (map actions_left (ep_workers p))"
proof (induction n arbitrary: p)
  case (Suc n)
  obtain q where "process_step limit p q" "(process_step limit ^^ n) q p'" using Suc.prems(1) by (metis relpowp_Suc_D2)
  then show ?case using Suc.IH [of q] process_step_stopping [of limit p q] Suc.prems(2) by simp
qed simp

lemma actions_left_bound: "sum_list (map actions_left ws) \<le> 3 * length ws"
  by (induction ws) (auto simp: actions_left_def split: WorkerPhase.split)

lemma unfinished_thread_steps: "\<not> is_finished phase \<Longrightarrow> \<exists>action r. thread_step limit action phase stop errors = Some r"
proof (cases phase)
  case Stopping
  show ?thesis unfolding Stopping by (intro exI) (rule thread_step.simps)
next
  case (Catching e)
  show ?thesis unfolding Catching by (intro exI) (rule thread_step.simps)
qed (auto simp: is_finished_def intro: exI [of _ StartedUp] exI [of _ ReadsFlag] exI [of _ PollReturned])

lemma unfinished_process_steps: "\<not> joined p \<Longrightarrow> \<exists>p'. process_step limit p p'"
proof -
  assume "\<not> joined p"
  then obtain i where i: "i < length (ep_workers p)" "\<not> is_finished (ep_workers p ! i)"
    by (auto simp: joined_def list_all_length)
  then obtain action phase stop errors where
    "thread_step limit action (ep_workers p ! i) (ep_stop_requested p) (ep_worker_errors p) = Some (phase, stop, errors)"
    using unfinished_thread_steps by (metis prod_cases3)
  then show ?thesis using i(1) process_step.thread_moves by blast
qed

lemma process_step_at:
  "i < length (ep_workers p) \<Longrightarrow>
     thread_step limit action (ep_workers p ! i) (ep_stop_requested p) (ep_worker_errors p) = Some (phase, stop, errors) \<Longrightarrow>
     p' = \<lparr>ep_workers = (ep_workers p)[i := phase], ep_stop_requested = stop, ep_worker_errors = errors\<rparr> \<Longrightarrow>
     process_step limit p p'"
  by (simp add: process_step.thread_moves)

lemma failed_worker_reported:
  assumes "process_ok p" "Finished True \<in> set (ep_workers p)"
  shows "exit_status p = ExitFailure"
proof -
  have "reported (Finished True) \<le> sum_list (map reported (ep_workers p))"
    using assms(2) by (intro member_le_sum_list) auto
  then have "ep_worker_errors p \<noteq> []" using assms(1) unfolding process_ok_def by (auto simp: reported_def simp del: sum_list_eq_0_iff)
  then show ?thesis by (simp add: exit_status_def)
qed

lemma process_steps_keep:
  "(process_step limit ^^ n) p p' \<Longrightarrow> process_ok p \<Longrightarrow> ep_stop_requested p \<Longrightarrow> process_ok p' \<and> ep_stop_requested p'"
proof (induction n arbitrary: p)
  case (Suc n)
  obtain q where "process_step limit p q" "(process_step limit ^^ n) q p'" using Suc.prems(1) by (metis relpowp_Suc_D2)
  then show ?case using Suc.IH [of q] process_step_ok process_step_stopping Suc.prems(2,3) by blast
qed simp

text \<open>
  C25: When a worker has failed, all workers end: with \<open>k\<close> workers, whatever poll limit is configured and in
  whatever order the threads run, at most \<open>3 k\<close> further actions are possible.  Until all have ended one of them can
  act, and when they have, \<open>main\<close> exits with a failure.
\<close>

theorem failure_stops_all:
  assumes "process_run limit (initial_process k) p" "Finished True \<in> set (ep_workers p)" "(process_step limit ^^ n) p p'"
  shows "n \<le> 3 * k \<and> (if joined p' then exit_status p' = ExitFailure else \<exists>p''. process_step limit p' p'')"
proof -
  have p: "process_ok p" "ep_stop_requested p" "length (ep_workers p) = k"
    using process_run_ok [OF assms(1)] assms(2) by (auto simp: process_ok_def)
  then have "n \<le> 3 * k"
    using process_steps_stopping [OF assms(3)] actions_left_bound [of "ep_workers p"] by linarith
  moreover have "exit_status p' = ExitFailure"
    using process_steps_keep [OF assms(3) p(1,2)] failed_worker_reported by (auto simp: process_ok_def)
  ultimately show ?thesis using unfinished_process_steps by simp
qed

text \<open>Two workers: the first fails to start while the second polls; the second ends at the next look at the flag.\<close>

definition process_at :: "WorkerPhase \<Rightarrow> WorkerPhase \<Rightarrow> bool \<Rightarrow> string list \<Rightarrow> EngineProcess" where
  "process_at w1 w2 stop errors = \<lparr>ep_workers = [w1, w2], ep_stop_requested = stop, ep_worker_errors = errors\<rparr>"

lemma process_at_steps:
  "thread_step limit action w1 stop errors = Some (w1', stop', errors') \<Longrightarrow>
     process_step limit (process_at w1 w2 stop errors) (process_at w1' w2 stop' errors')"
  "thread_step limit action w2 stop errors = Some (w2', stop', errors') \<Longrightarrow>
     process_step limit (process_at w1 w2 stop errors) (process_at w1 w2' stop' errors')"
  by (rule process_step_at [of 0 _ _ action]; simp add: process_at_def)
    (rule process_step_at [of 1 _ _ action]; simp add: process_at_def)

theorem failure_stops_all_witness:
  "(if joined (process_at (Finished True) (Finished False) True [''seek failed''])
    then exit_status (process_at (Finished True) (Finished False) True [''seek failed'']) = ExitFailure
    else \<exists>p''. process_step None (process_at (Finished True) (Finished False) True [''seek failed'']) p'') \<and>
   joined (process_at (Finished True) (Finished False) True [''seek failed'']) \<and> (2::nat) \<le> 3 * 2"
proof -
  note first = process_at_steps(1) [where limit = None] and second = process_at_steps(2) [where limit = None]
  have init: "initial_process 2 = process_at Starting Starting False []"
    by (simp add: initial_process_def process_at_def numeral_2_eq_2)
  have s1: "process_step None (process_at Starting Starting False []) (process_at Starting (LoopHead 0) False [])"
    by (rule second [of StartedUp]) simp
  have s2: "process_step None (process_at Starting (LoopHead 0) False []) (process_at Starting (InPoll 1) False [])"
    by (rule second [of ReadsFlag]) (simp add: limit_reached_def)
  have s3: "process_step None (process_at Starting (InPoll 1) False []) (process_at (Catching ''seek failed'') (InPoll 1) False [])"
    by (rule first [of "StartFailed ''seek failed''"]) simp
  have s4: "process_step None (process_at (Catching ''seek failed'') (InPoll 1) False [])
      (process_at Stopping (InPoll 1) False [''seek failed''])"
    by (rule first [of ReportsError]) simp
  have s5: "process_step None (process_at Stopping (InPoll 1) False [''seek failed''])
      (process_at (Finished True) (InPoll 1) True [''seek failed''])"
    by (rule first [of RequestsStop]) simp
  have run: "process_run None (initial_process 2) (process_at (Finished True) (InPoll 1) True [''seek failed''])"
    using s1 s2 s3 s4 s5 unfolding init by (auto intro: converse_rtranclp_into_rtranclp)
  have "process_step None (process_at (Finished True) (InPoll 1) True [''seek failed''])
      (process_at (Finished True) (LoopHead 1) True [''seek failed''])"
    by (rule second [of PollReturned]) simp
  moreover have "process_step None (process_at (Finished True) (LoopHead 1) True [''seek failed''])
      (process_at (Finished True) (Finished False) True [''seek failed''])"
    by (rule second [of ReadsFlag]) simp
  ultimately have "(process_step None ^^ 2) (process_at (Finished True) (InPoll 1) True [''seek failed''])
      (process_at (Finished True) (Finished False) True [''seek failed''])"
    by (auto simp: numeral_2_eq_2)
  from failure_stops_all [OF run _ this] show ?thesis
    by (simp add: process_at_def joined_def is_finished_def)
qed

end
