(* ===== verification/Spec2Isabelle.thy ===== *)
theory Spec2Isabelle
  imports EngineProperties ProtocolProperties RuntimeProperties AccountProperties RecoveryProperties
    CheckpointProperties KafkaProperties Process
begin

text \<open>
  A verification development of the exchange engine: a matching core for limit order books, the
  runtime that turns requests into commands of the core and the core's events into replies and
  public events, the broker application with checkpoints and recovery around it, and the process that
  runs one worker for every market.  This file
  imports the development and documents it; the theories name the files of the repository they
  translate.

  \<^bold>\<open>The program and its parts.\<close>  An input record (JSON text with topic, partition and offset) arrives at
  \<open>RedpandaEngineApp::consume\<close>, which hands it to \<open>EngineRuntime::process\<close>.  The runtime parses it
  (\<open>EngineInputParser\<close>, \<open>Json\<close>), answers duplicates from its tables of processed requests, maps orders
  to commands of the core (\<open>EngineAdapter\<close>) and runs \<open>EngineCore::process\<close>, whose \<open>OrderBook\<close>s match
  on two \<open>SideBook\<close>s.  The core's events go through the \<open>EngineEventTranslator\<close>, which moves positions,
  margins and risk states and makes the outputs; liquidations and deleveraging feed back into the
  core.  The \<open>EngineOutbox\<close> publishes the outputs, a hook saves a checkpoint, and the offset is
  committed.  At startup the \<open>RecoveryCoordinator\<close> restores the last checkpoint and replays the input.
  Checkpoints are texts, kept in files (\<open>FileCheckpointStore\<close>) or in an object store
  (\<open>S3CheckpointStore\<close>).  \<open>main\<close> reads the configuration (\<open>EngineAppConfig\<close>) and runs a worker for every
  market: recovery, a scan for liquidations, then the polling loop.

  \<^bold>\<open>Theories and code.\<close>  Paths are below \<open>src/include\<close> and \<open>src/src\<close>.

  \<^item> \<open>Prelude\<close>, \<open>Text\<close>: 64-bit integers (\<open>i64\<close> wraps, \<open>in_i64\<close> is the range), the standard
    containers with the locale \<open>std_map\<close> and its two interpretations, errors as \<open>string + 'a\<close> with
    \<open>ebind\<close>, \<open>std::to_string\<close> and \<open>std::from_chars\<close>.
  \<^item> \<open>CoreTypes\<close>, \<open>BookHeap\<close>, \<open>PriceLevels\<close>: the data of \<open>core/*.hpp\<close>; orders and levels live in an
    explicit store, because the code links them by raw pointers; reading a freed cell is \<open>None\<close>.
  \<^item> \<open>LevelContainer\<close>, \<open>RingPriceLadder\<close>, \<open>FarPriceMap\<close>, \<open>SideBook\<close>: the containers of the levels of one
    side.  The locale \<open>level_container\<close> states what the side book needs of a container; the ladder, the
    far map and the side book itself are its interpretations.
  \<^item> \<open>SequenceGenerator\<close>, \<open>IdempotencyIndex\<close>, \<open>OrderBook\<close>, \<open>EngineCore\<close>: the counters, the checks of a
    command, \<open>process_place\<close> and \<open>process_cancel\<close> with every branch, and the core with snapshot and restore.
  \<^item> \<open>OrderBookInv\<close>, \<open>Matching\<close>, \<open>Placing\<close>, \<open>PlaceCancel\<close>, \<open>BookView\<close>: the invariant of a book, and the
    refinement of the matching loop by price-time priority matching on the flat list of resting
    orders.  \<open>EngineCore\<close> uses a book through the locale \<open>book_contract\<close>.
  \<^item> \<open>Restore\<close>: what \<open>EngineCore::restore\<close> makes of a snapshot: orders are inserted one after the other, so a
    side is the stable sort by price of its orders sorted by id (\<open>restored_view\<close>).
  \<^item> \<open>FixedPoint\<close>, \<open>Json\<close>, \<open>Serializer\<close>, \<open>InputParser\<close>, \<open>Adapter\<close>: price literals, the JSON parser, the
    output serializer, the six kinds of input, and the translation of requests into commands.
  \<^item> \<open>RuntimeTypes\<close>, \<open>Positions\<close>, \<open>Translator\<close>: records of the runtime, the accounting of a fill, and
    \<open>EngineEventTranslator.cpp\<close>.
  \<^item> \<open>RuntimeRecords\<close>, \<open>RuntimeEvents\<close>, \<open>Runtime\<close>, \<open>RuntimeProcess\<close>: \<open>EngineRuntime.cpp\<close>, in the order
    free functions, events, liquidations, the handlers of the inputs, snapshots.
  \<^item> \<open>RuntimeSteps\<close>, \<open>RuntimeInvariants\<close>: the locale \<open>runtime_evolution\<close> proves once, for every operation of
    translator and runtime, that it keeps a relation kept by the elementary changes; four
    interpretations (requests, settled intervals, sequence numbers, risk states) give the facts the
    properties rest on.
  \<^item> \<open>Outbox\<close>, \<open>BrokerApp\<close>, \<open>Checkpoint\<close>, \<open>Recovery\<close>: \<open>EngineOutbox.cpp\<close>, \<open>RedpandaEngineApp.cpp\<close>,
    \<open>EngineCheckpointManager.cpp\<close>, \<open>RecoveryCoordinator.cpp\<close>.
  \<^item> \<open>CheckpointText\<close>, \<open>CheckpointCodec\<close>, \<open>CheckpointReader\<close>: \<open>FileCheckpointStore.cpp\<close> up to line 1470: lines
    and fields, the writers of the sections, and \<open>CheckpointReader\<close> as functions from the text left to
    a result and the text left, sections of older files included.
  \<^item> \<open>CheckpointRoundTrip\<close>, \<open>CheckpointTyped\<close>, \<open>CheckpointTruncated\<close>: the locale \<open>entry_codec\<close> states that the fields of an entry are
    read back; its fourteen interpretations are the kinds of entries, and the loops over a section are
    read once, inside it.  \<open>stored_checkpoint\<close> is what writing and reading makes of a checkpoint.
    A reader takes whole lines (\<open>line_local\<close>), so a text without its end is refused.
  \<^item> \<open>CheckpointFiles\<close>: the rest of that file, the directory of checkpoints.  The locale \<open>latest_store\<close> is the
    contract of a store with a latest entry; the file store is its interpretation.
  \<^item> \<open>AppConfig\<close>: \<open>EngineAppConfig.cpp\<close>.  The locale \<open>config_invariant\<close> shows once that environment and command
    line keep what each of their changes keeps; markets and broker settings are its interpretations.
  \<^item> \<open>S3Store\<close>, \<open>RdKafka\<close>, \<open>Worker\<close>: \<open>S3CheckpointStore.cpp\<close>, \<open>RdKafkaEngineBroker.cpp\<close>, and the worker in
    \<open>main.cpp\<close>.  \<open>rdkafka_broker\<close> fills the interfaces of the application with the clients.
  \<^item> \<open>Process\<close>: \<open>main\<close> itself.  The threads are a step relation, \<open>process_step\<close>, in which one thread at a
    time goes to its next access to the stop flag or the errors; \<open>engine_main\<close> gives the exit status.
  \<^item> \<open>CoreProperties\<close>, \<open>EngineProperties\<close>, \<open>ProtocolProperties\<close>, \<open>RuntimeProperties\<close>, \<open>AccountProperties\<close>,
    \<open>BrokerProperties\<close>, \<open>RecoveryProperties\<close>, \<open>CheckpointProperties\<close>, \<open>WorkerProperties\<close>,
    \<open>KafkaProperties\<close>: the properties, each with a concrete instance; \<open>Demo\<close> holds
    the runtime and inputs of the instances.

  \<^bold>\<open>How state and errors are modelled.\<close>  A class is a record, a member function a function from the
  record to its result and the updated record, composed as the code composes the calls.  An
  exception is \<open>Inl\<close> with its message; where the code catches it, the model also carries the state the
  exception leaves behind (\<open>TranslationOutcome\<close>, \<open>runtime_error\<close>).  Undefined behaviour (a null or
  dangling pointer, a division by zero) is \<open>None\<close> or \<open>Undefined\<close>, and lemmas show where it cannot happen.
  Signed arithmetic is written with \<open>i64\<close>, which wraps: the code compiles to that, and where a property
  needs that nothing overflows, its hypotheses say so.  Unsigned integers are words.  Order of
  iteration is the order of the list that stands for a container; only loops over ordered maps
  depend on it.

  \<^bold>\<open>Parameters.\<close>  The system clock is a function of the number of reads.  Consumer, producer, committer,
  checkpoint store, publisher and pre-commit hook are interfaces of the repository whose
  implementations talk to services: they are functions on an abstract world that answer, report an
  error or throw.  What recovery needs of a consumer (\<open>in_order\<close>) is stated as a hypothesis and
  instantiated by a consumer over a list.  The environment and the markets file are functions from names
  to texts; the calls of the file system that fail while a checkpoint is saved are a record of
  outcomes; the HTTP request through libcurl is a function from the request to a response or an
  exception, and what a server answers to a listing (\<open>pages_served\<close>) is a hypothesis, instantiated by a
  server with two pages.  The calls of librdkafka are a record of functions; that it delivers a partition
  in the order of its log, and starts over at its beginning when it is assigned outside of the retained
  range (\<open>kafka_partition_log\<close>), is a hypothesis, instantiated by a log with a gap.

  \<^bold>\<open>What the groups of lemmas show.\<close>  Core: an accepted order is matched as the flat specification
  matches it, quantities are conserved, books are never crossed, rejected orders change nothing,
  ids are handed out once, and a snapshot can always be taken and restored.  Texts: price literals below
  \<open>2 ^ 128\<close> are read exactly or refused, the JSON parser returns on every
  text, an output record is read back as it was written.  Runtime: silent replay equals live
  processing, requests are processed once, public sequence numbers have no gaps, every position has a
  matching risk state, positions of a market sum to zero, margin and profit are conserved, the
  liquidation sweep passes no account over within its 16 attempts.  Broker: commits come last, a record that
  has a name (an input id or an idempotency key) publishes nothing when it is delivered again, recovery
  returns and reaches the state of live processing.  Checkpoints: what is written is read back, a
  text that was cut short is refused, names of a worker's checkpoints are ordered as its offsets, so the store
  offers the newest, and restoring it gives the runtime back, up to the order of arrival inside a level and
  the last trade prices.  Process: accepted markets are valid,
  workers share nothing, a worker with a poll limit returns, a failed one ends all; the clients on librdkafka deliver in
  order, and report a record as produced only when its delivery was confirmed.

  \<^bold>\<open>Bounds and fuel.\<close>  The JSON parser has fuel of the length of the text, enough because each call
  consumes a character.  The liquidation sweep recurses on the attempts left of 16, the bound of the
  code.  The search for the order id of a deleveraging fill tries the 1024 salts of the code.  The
  replay loop, the polling loop and the listing of objects are partial functions: that recovery and a
  worker with a poll limit return are properties of their own, and a listing returns as soon as the
  server sends a last page.

  \<^bold>\<open>What the modelling showed.\<close>  A core snapshot loses the time priority inside a level; price literals
  above \<open>2 ^ 128\<close> wrap before the range check; the total of a level can overflow; recovery can drop a
  record it polled, applies records the market guard refuses, and loses outputs that were not
  published; a checkpoint file is lost when both renames of a save fail; a latest checkpoint that cannot
  be read hides the older ones; markets are accepted whose worker cannot start; market prices and funding
  inputs without an input id are processed again when they are delivered again.  The theorems
  \<open>restore_sorts_levels_by_id\<close>, \<open>price_text_correct\<close>, \<open>recovery_skips_record\<close>,
  \<open>recovery_ignores_market_guard\<close>, \<open>unpublished_outputs_lost\<close>, \<open>failed_commit_deletes_checkpoint\<close>,
  \<open>corrupt_latest_hides_older\<close>, \<open>config_accepts_unstartable_market\<close> and \<open>unnamed_input_never_duplicate\<close>
  prove them.

  \<^bold>\<open>Not modelled.\<close>  The calls of libcurl in \<open>perform_request\<close> and the inside of librdkafka: libraries that
  are not part of the repository.  Failures to start a thread; the mutex of the producer, which one
  thread uses.  Log output,
  the usage text, benchmarks and tests.
\<close>

end
